(* ===== verification/Prelude.thy ===== *)
theory Prelude
  imports Main "HOL-Library.Word"
begin

text \<open>
  Shared vocabulary of the development: the C integer types, little-endian byte
  encodings, the fixed-size array copy, and the lemma collections that the component
  theories feed.

  \<^item> \<open>wire_simps\<close> collects the byte-encoding round trips;
  \<^item> \<open>fw_defs\<close> collects the definitions of operations that proofs unfold;
  \<^item> \<open>fw_frame\<close> collects the facts that say which state an operation leaves alone.
\<close>

unbundle bit_operations_syntax

named_theorems wire_simps "round trips and lengths of the wire encodings"
named_theorems fw_defs "operations that component proofs unfold"
named_theorems fw_frame "state an operation does not touch"

type_synonym byte = "8 word"
type_synonym u16 = "16 word"
type_synonym u32 = "32 word"

section \<open>Little-endian integers\<close>

definition put_le16 :: "u16 \<Rightarrow> byte list" where
  "put_le16 v = [ucast (v AND 0xFF), ucast (drop_bit 8 v AND 0xFF)]"

definition put_le32 :: "u32 \<Rightarrow> byte list" where
  "put_le32 v = [ucast (v AND 0xFF), ucast (drop_bit 8 v AND 0xFF),
                 ucast (drop_bit 16 v AND 0xFF), ucast (drop_bit 24 v AND 0xFF)]"

definition get_le16 :: "byte list \<Rightarrow> nat \<Rightarrow> u16" where
  "get_le16 p off = ucast (p ! off) OR push_bit 8 (ucast (p ! (off + 1)))"

definition get_le32 :: "byte list \<Rightarrow> nat \<Rightarrow> u32" where
  "get_le32 p off = ucast (p ! off) OR push_bit 8 (ucast (p ! (off + 1)))
     OR push_bit 16 (ucast (p ! (off + 2))) OR push_bit 24 (ucast (p ! (off + 3)))"

section \<open>Fixed-size arrays\<close>

text \<open>
  A static C array is a list of its full length; \<open>memcpy (dst, src, length src)\<close> replaces a
  prefix and leaves the rest as it was.
\<close>

definition blit :: "'a list \<Rightarrow> 'a list \<Rightarrow> 'a list" where
  "blit dst src = src @ drop (length src) dst"

lemma length_put_le16 [simp, wire_simps]: "length (put_le16 v) = 2"
  by (simp add: put_le16_def)

lemma length_put_le32 [simp, wire_simps]: "length (put_le32 v) = 4"
  by (simp add: put_le32_def)

lemma and_0xFF: "(v :: 'a::len word) AND 0xFF = take_bit 8 v"
  by (simp add: take_bit_eq_mask mask_eq_exp_minus_1)

lemma bit_word_beyond: "LENGTH('a) \<le> n \<Longrightarrow> \<not> bit (w :: 'a::len word) n"
  using bit_imp_le_length [of w n] by auto

text \<open>A bit position below 32 lies in one of the four bytes.\<close>

lemma byte_split:
  assumes "n < 32"
    and "\<And>m. m < 8 \<Longrightarrow> P m" and "\<And>m. m < 8 \<Longrightarrow> P (8 + m)"
    and "\<And>m. m < 8 \<Longrightarrow> P (16 + m)" and "\<And>m. m < 8 \<Longrightarrow> P (24 + m)"
  shows "P (n :: nat)"
proof -
  have "n < 8 \<or> n = 8 + (n - 8) \<and> n - 8 < 8 \<or> n = 16 + (n - 16) \<and> n - 16 < 8
      \<or> n = 24 + (n - 24) \<and> n - 24 < 8"
    using assms(1) by linarith
  then show ?thesis using assms(2-5) by metis
qed

lemma get_put_le16 [wire_simps]: "get_le16 (put_le16 v @ rest) 0 = v"
proof (rule bit_word_eqI)
  fix n assume "n < LENGTH(16)"
  then have "n < 32" by simp
  then show "bit (get_le16 (put_le16 v @ rest) 0) n = bit v n"
    by (rule byte_split)
       (simp_all add: put_le16_def get_le16_def and_0xFF bit_simps bit_word_beyond)
qed

lemma get_put_le32 [wire_simps]: "get_le32 (put_le32 v @ rest) 0 = v"
proof (rule bit_word_eqI)
  fix n assume "n < LENGTH(32)"
  then have "n < 32" by simp
  then show "bit (get_le32 (put_le32 v @ rest) 0) n = bit v n"
    by (rule byte_split) (simp_all add: put_le32_def get_le32_def and_0xFF bit_simps)
qed

lemma put_get_le16 [wire_simps]:
  assumes "length p = 2"
  shows "put_le16 (get_le16 p 0) = p"
proof -
  from assms obtain a b where p: "p = [a, b]"
    by (auto simp: numeral_2_eq_2 length_Suc_conv)
  have lo: "ucast (take_bit 8 (ucast a OR push_bit 8 (ucast b) :: u16)) = a"
    by (rule bit_word_eqI) (simp add: bit_simps)
  have hi: "ucast (take_bit 8 (drop_bit 8 (ucast a OR push_bit 8 (ucast b) :: u16))) = b"
    by (rule bit_word_eqI) (simp add: bit_simps bit_word_beyond)
  show ?thesis
    unfolding p put_le16_def get_le16_def and_0xFF using lo hi by simp
qed

lemma get_le16_append [wire_simps]:
  "get_le16 (xs @ ys) (length xs + n) = get_le16 ys n"
  by (simp add: get_le16_def nth_append)

lemma get_le16_append_left [wire_simps]:
  "n + 1 < length xs \<Longrightarrow> get_le16 (xs @ ys) n = get_le16 xs n"
  by (simp add: get_le16_def nth_append)

lemma put_le16_inj [simp]: "put_le16 v = put_le16 w \<longleftrightarrow> v = w"
  by (metis append_Nil2 get_put_le16)

lemma xor_cancel_right: "x XOR y = z XOR y \<longleftrightarrow> x = z" for x y z :: "'a::len word"
proof
  assume eq: "x XOR y = z XOR y"
  have "bit x n = bit z n" for n
    using arg_cong [OF eq, of "\<lambda>w. bit w n"] by (auto simp: bit_xor_iff)
  then show "x = z" by (rule bit_word_eqI)
qed simp

lemma xor_cancel_left: "y XOR x = y XOR z \<longleftrightarrow> x = z" for x y z :: "'a::len word"
  using xor_cancel_right [of x y z] by (simp add: xor.commute)

lemma length_blit [simp]: "length src \<le> length dst \<Longrightarrow> length (blit dst src) = length dst"
  by (simp add: blit_def)

lemma take_blit [simp]: "take (length src) (blit dst src) = src"
  by (simp add: blit_def)

lemma nth_blit [simp]: "i < length src \<Longrightarrow> blit dst src ! i = src ! i"
  by (simp add: blit_def nth_append)

lemma blit_Nil [simp]: "blit dst [] = dst"
  by (simp add: blit_def)

end
