(* ===== verification/Crc16.thy ===== *)
theory Crc16
  imports Prelude
begin

text \<open>
  The frame check of \<^verbatim>\<open>src/protocol.c\<close>: the 256-entry lookup table, its lazy
  construction and the table-driven update loop, against the bitwise CRC-16/CCITT-FALSE the
  table is generated from.  The bitwise routine itself is
  \<open>alp_crc16_ccitt_false_update\<close> of alp-sdk's header; the firmware's operations take it as
  the argument \<open>upd\<close>, and \<open>crc16_ccitt_false\<close> below is the algorithm the wire-vector
  generator writes out for it.
\<close>

section \<open>The bitwise reference\<close>

definition crc16_bit :: "u16 \<Rightarrow> u16" where
  "crc16_bit c = (if c AND 0x8000 \<noteq> 0 then push_bit 1 c XOR 0x1021 else push_bit 1 c)"

definition crc16_byte :: "u16 \<Rightarrow> byte \<Rightarrow> u16" where
  "crc16_byte c b = (crc16_bit ^^ 8) (c XOR push_bit 8 (ucast b))"

definition crc16_ccitt_false :: "u16 \<Rightarrow> byte list \<Rightarrow> u16" where
  "crc16_ccitt_false c data = foldl crc16_byte c data"

definition CRC16_INIT :: u16 where
  "CRC16_INIT = 0xFFFF"

section \<open>The table and the table-driven update\<close>

record crc_state =
  crc16_table :: "u16 list"
  crc16_table_ready :: bool

definition crc16_table_init :: "(u16 \<Rightarrow> byte list \<Rightarrow> u16) \<Rightarrow> crc_state \<Rightarrow> crc_state" where
  "crc16_table_init upd s =
     s\<lparr>crc16_table := map (\<lambda>i. upd 0 [word_of_nat i]) [0..<256], crc16_table_ready := True\<rparr>"

definition protocol_crc16_table_init ::
    "(u16 \<Rightarrow> byte list \<Rightarrow> u16) \<Rightarrow> crc_state \<Rightarrow> crc_state" where
  "protocol_crc16_table_init upd s =
     (if \<not> crc16_table_ready s then crc16_table_init upd s else s)"

definition crc16_step :: "u16 list \<Rightarrow> u16 \<Rightarrow> byte \<Rightarrow> u16" where
  "crc16_step table c b = push_bit 8 c XOR table ! unat ((ucast (drop_bit 8 c) :: byte) XOR b)"

definition crc16_table_update ::
    "(u16 \<Rightarrow> byte list \<Rightarrow> u16) \<Rightarrow> crc_state \<Rightarrow> u16 \<Rightarrow> byte list \<Rightarrow> crc_state \<times> u16" where
  "crc16_table_update upd s crc buf =
     (let s' = (if \<not> crc16_table_ready s then crc16_table_init upd s else s)
      in (s', foldl (crc16_step (crc16_table s')) crc buf))"

text \<open>The static state at reset, and the invariant every operation keeps.\<close>

definition crc_reset :: crc_state where
  "crc_reset = \<lparr>crc16_table = replicate 256 0, crc16_table_ready = False\<rparr>"

definition crc_inv :: "(u16 \<Rightarrow> byte list \<Rightarrow> u16) \<Rightarrow> crc_state \<Rightarrow> bool" where
  "crc_inv upd s \<longleftrightarrow> (crc16_table_ready s \<longrightarrow>
     crc16_table s = map (\<lambda>i. upd 0 [word_of_nat i]) [0..<256])"

section \<open>The bitwise register is linear\<close>

lemma top_bit_iff: "(c :: u16) AND 0x8000 \<noteq> 0 \<longleftrightarrow> bit c 15"
proof -
  have e: "(0x8000 :: u16) = 2 ^ 15" by simp
  show ?thesis unfolding e by (simp only: and_exp_eq_0_iff_not_bit not_not)
qed

lemma crc16_bit_xor: "crc16_bit (x XOR y) = crc16_bit x XOR crc16_bit y"
  by (simp add: crc16_bit_def top_bit_iff bit_simps push_bit_xor ac_simps)

lemma crc16_bits_xor: "(crc16_bit ^^ n) (x XOR y) = (crc16_bit ^^ n) x XOR (crc16_bit ^^ n) y"
  by (induction n) (simp_all add: crc16_bit_xor)

lemma inj_crc16_bit: "inj crc16_bit"
proof (rule injI)
  fix x y :: u16
  assume "crc16_bit x = crc16_bit y"
  then have z: "crc16_bit (x XOR y) = 0"
    by (simp add: crc16_bit_xor)
  have odd: "bit (push_bit 1 (x XOR y) XOR 0x1021) 0"
    by (simp only: bit_xor_iff bit_push_bit_iff) simp
  have "\<not> bit (x XOR y) 15"
    using z odd by (auto simp: crc16_bit_def top_bit_iff)
  moreover from this have "push_bit 1 (x XOR y) = 0"
    using z by (simp add: crc16_bit_def top_bit_iff)
  ultimately have "bit (x XOR y) n = False" for n
  proof (cases "n < 15")
    case True
    then have "bit (push_bit 1 (x XOR y)) (Suc n) = bit (x XOR y) n"
      by (simp only: bit_push_bit_iff) simp
    with \<open>push_bit 1 (x XOR y) = 0\<close> show ?thesis by simp
  next
    case False
    with \<open>\<not> bit (x XOR y) 15\<close> show ?thesis
      by (cases "n = 15") (auto dest: bit_imp_le_length)
  qed
  then show "x = y" by (intro bit_word_eqI) (simp add: bit_xor_iff)
qed

lemma inj_crc16_bits: "inj (crc16_bit ^^ n)"
  using inj_crc16_bit by (rule inj_fn)


section \<open>The table-driven step is the bitwise step\<close>

lemma crc16_bits_low: "k \<le> 8 \<Longrightarrow> (crc16_bit ^^ k) (take_bit 8 c) = push_bit k (take_bit 8 c)"
proof (induction k)
  case 0
  then show ?case by simp
next
  case (Suc k)
  then have "\<not> 15 - k < 8" by arith
  then have "\<not> bit (push_bit k (take_bit 8 c)) 15"
    by (simp only: bit_push_bit_iff bit_take_bit_iff) simp
  with Suc show ?case
    by (simp only: funpow.simps o_apply crc16_bit_def top_bit_iff) simp
qed

lemma word16_bytes: "(c :: u16) = take_bit 8 c XOR push_bit 8 (ucast (ucast (drop_bit 8 c) :: byte))"
proof (rule bit_word_eqI)
  fix n assume "n < LENGTH(16)"
  then have "n < 32" by simp
  then show "bit c n = bit (take_bit 8 c XOR push_bit 8 (ucast (ucast (drop_bit 8 c) :: byte))) n"
    by (rule byte_split) (auto simp: bit_simps dest: bit_imp_le_length)
qed

lemma push_bit_take_bit_16: "push_bit 8 (take_bit 8 (c :: u16)) = push_bit 8 c"
  by (intro bit_word_eqI) (auto simp: bit_simps)

lemma crc16_byte_split:
  "crc16_byte c b = push_bit 8 c XOR crc16_byte 0 ((ucast (drop_bit 8 c) :: byte) XOR b)"
proof -
  let ?hi = "ucast (drop_bit 8 c) :: byte"
  have "c XOR push_bit 8 (ucast b) = take_bit 8 c XOR push_bit 8 (ucast (?hi XOR b))"
    by (subst (1) word16_bytes [of c])
       (simp only: unsigned_xor_eq push_bit_xor xor.assoc)
  then show ?thesis
    by (simp add: crc16_byte_def crc16_bits_xor crc16_bits_low push_bit_take_bit_16
        del: push_bit_take_bit)
qed

lemma crc16_byte_inj_reg: "crc16_byte c b = crc16_byte d b \<longleftrightarrow> c = d"
  by (simp add: crc16_byte_def inj_eq [OF inj_crc16_bits] xor_cancel_right)

lemma crc16_byte_inj_byte: "crc16_byte c a = crc16_byte c b \<longleftrightarrow> a = b"
proof -
  have "push_bit 8 (ucast a) = (push_bit 8 (ucast b) :: u16) \<longleftrightarrow> a = b"
  proof
    assume "push_bit 8 (ucast a) = (push_bit 8 (ucast b) :: u16)"
    then have eq: "bit (push_bit 8 (ucast a :: u16)) n = bit (push_bit 8 (ucast b :: u16)) n" for n
      by simp
    have "bit a n = bit b n" if "n < 8" for n
      using eq [of "8 + n"] that by (simp add: bit_simps)
    then show "a = b" by (intro bit_word_eqI) simp
  qed simp
  then show ?thesis
    by (simp add: crc16_byte_def inj_eq [OF inj_crc16_bits] xor_cancel_left)
qed

section \<open>The table-driven update computes the reference\<close>

lemma crc_inv_reset: "crc_inv upd crc_reset"
  by (simp add: crc_inv_def crc_reset_def)

lemma crc_inv_init: "crc_inv upd (crc16_table_init upd s)"
  by (simp add: crc_inv_def crc16_table_init_def)

lemma crc_inv_update: "crc_inv upd s \<Longrightarrow> crc_inv upd (fst (crc16_table_update upd s crc buf))"
  by (simp add: crc16_table_update_def Let_def crc_inv_init)

lemma crc_inv_boot: "crc_inv upd s \<Longrightarrow> crc_inv upd (protocol_crc16_table_init upd s)"
  by (simp add: protocol_crc16_table_init_def crc_inv_init)

lemma crc16_table_update_ready:
  "crc16_table_ready (fst (crc16_table_update upd s crc buf))"
  by (simp add: crc16_table_update_def Let_def crc16_table_init_def)

text \<open>
  Which table entries the loop reads: the table is the one built from \<open>upd\<close>, whether it was
  built at boot or on first use.
\<close>

lemma crc16_table_update_value:
  assumes "crc_inv upd s"
  shows "snd (crc16_table_update upd s crc buf) =
    foldl (crc16_step (map (\<lambda>i. upd 0 [word_of_nat i]) [0..<256])) crc buf"
  using assms by (auto simp: crc16_table_update_def Let_def crc_inv_def crc16_table_init_def)

lemma crc16_step_reference:
  "crc16_step (map (\<lambda>i. crc16_ccitt_false 0 [word_of_nat i]) [0..<256]) c b = crc16_byte c b"
proof -
  let ?i = "(ucast (drop_bit 8 c) :: byte) XOR b"
  have "unat ?i < 256" using unsigned_less [of ?i] by simp
  then have "map (\<lambda>i. crc16_ccitt_false 0 [word_of_nat i]) [0..<256] ! unat ?i = crc16_byte 0 ?i"
    by (simp add: crc16_ccitt_false_def)
  then show ?thesis by (simp add: crc16_step_def crc16_byte_split [of c b])
qed

lemma crc16_table_update_reference:
  assumes "crc_inv crc16_ccitt_false s"
  shows "snd (crc16_table_update crc16_ccitt_false s crc buf) = crc16_ccitt_false crc buf"
proof -
  have "crc16_step (map (\<lambda>i. crc16_ccitt_false 0 [word_of_nat i]) [0..<256]) = crc16_byte"
    by (intro ext) (rule crc16_step_reference)
  then show ?thesis
    by (simp only: crc16_table_update_value [OF assms])
       (simp add: crc16_ccitt_false_def)
qed

section \<open>Chaining and error detection of the reference\<close>

lemma crc16_ccitt_false_append:
  "crc16_ccitt_false c (xs @ ys) = crc16_ccitt_false (crc16_ccitt_false c xs) ys"
  by (simp add: crc16_ccitt_false_def)

lemma crc16_ccitt_false_inj_reg:
  "crc16_ccitt_false c xs = crc16_ccitt_false d xs \<longleftrightarrow> c = d"
  by (induction xs arbitrary: c d) (auto simp: crc16_ccitt_false_def crc16_byte_inj_reg)

text \<open>Replacing one byte of a message always changes its checksum.\<close>

lemma crc16_single_byte:
  assumes "i < length xs" and "b \<noteq> xs ! i"
  shows "crc16_ccitt_false c (xs[i := b]) \<noteq> crc16_ccitt_false c xs"
proof -
  let ?r = "crc16_ccitt_false c (take i xs)"
  have upd: "xs[i := b] = take i xs @ b # drop (Suc i) xs"
    using assms(1) by (rule upd_conv_take_nth_drop)
  have orig: "xs = take i xs @ xs ! i # drop (Suc i) xs"
    using assms(1) by (simp add: id_take_nth_drop)
  have "crc16_byte ?r b \<noteq> crc16_byte ?r (xs ! i)"
    using assms(2) by (simp add: crc16_byte_inj_byte)
  then have "crc16_ccitt_false ?r (b # drop (Suc i) xs)
      \<noteq> crc16_ccitt_false ?r (xs ! i # drop (Suc i) xs)"
    using crc16_ccitt_false_inj_reg [of "crc16_byte ?r b" "drop (Suc i) xs"]
    by (simp add: crc16_ccitt_false_def)
  then show ?thesis
    by (subst upd, subst (3) orig) (simp only: crc16_ccitt_false_append not_False_eq_True)
qed

section \<open>Evaluating the register\<close>

lemma crc16_byte_8:
  "crc16_byte c b = crc16_bit (crc16_bit (crc16_bit (crc16_bit (crc16_bit (crc16_bit (crc16_bit (crc16_bit
     (c XOR push_bit 8 (ucast b)))))))))"
  by (simp add: crc16_byte_def eval_nat_numeral)

lemma crc16_bit_num:
  "crc16_bit (numeral n) =
     (if (numeral n :: u16) AND 0x8000 \<noteq> 0 then push_bit 1 (numeral n) XOR 0x1021
      else push_bit 1 (numeral n))"
  "crc16_bit 0 = 0" "crc16_bit 1 = 2"
  by (simp_all add: crc16_bit_def)

lemmas crc_eval = crc16_ccitt_false_def crc16_byte_8 crc16_bit_num CRC16_INIT_def

text \<open>
  C28: The table-driven CRC is the header's bitwise CRC-16/CCITT-FALSE: for every starting register
  and every buffer, from the power-on state (table not yet built), after the boot-time build or
  after any earlier update, and the table it leaves behind is again the right one.
\<close>

theorem crc16_table_equivalence:
  assumes "crc_inv crc16_ccitt_false s"
  shows "snd (crc16_table_update crc16_ccitt_false s c buf) = crc16_ccitt_false c buf
    \<and> crc_inv crc16_ccitt_false (fst (crc16_table_update crc16_ccitt_false s c buf))
    \<and> crc_inv crc16_ccitt_false (protocol_crc16_table_init crc16_ccitt_false s)"
  using assms by (simp add: crc16_table_update_reference crc_inv_update crc_inv_boot)

text \<open>The standard check value: the CRC of the nine characters \<open>123456789\<close>.\<close>

theorem crc16_table_equivalence_witness:
  "snd (crc16_table_update crc16_ccitt_false crc_reset CRC16_INIT
     [0x31, 0x32, 0x33, 0x34, 0x35, 0x36, 0x37, 0x38, 0x39]) = 0x29B1"
  using crc16_table_equivalence [OF crc_inv_reset, of CRC16_INIT
      "[0x31, 0x32, 0x33, 0x34, 0x35, 0x36, 0x37, 0x38, 0x39]"]
  by (simp add: crc_eval)

end
