(* ===== verification/Wire.thy ===== *)
theory Wire
  imports Crc16
begin

text \<open>
  The wire vocabulary.  The opcodes and response codes the sources name are datatypes; the
  numbers alp-sdk's \<^verbatim>\<open><alp/protocol/cc3501e.h>\<close> gives them are not part of this repository,
  so they are the fields of a record \<open>wire_hdr\<close> that every operation using a number takes as an
  argument; so are the layouts of the request structs whose members the sources read by name
  (the \<open>_of\<close> fields take the payload and give the members in the order the sources use them).  Sizes the sources state in the open (the 4-byte header, the 2-byte trailer, the
  4096-byte payload ceiling and the limits derived from it) are definitions.
\<close>

section \<open>Opcodes and response codes\<close>

datatype cmd =
    CMD_PING | CMD_GET_VERSION | CMD_GET_MAC | CMD_RESET | CMD_GET_DIAG_INFO
  | CMD_GET_PENDING_EVENTS | CMD_GET_CAPABILITIES
  | CMD_OTA_BEGIN | CMD_OTA_WRITE | CMD_OTA_FINISH | CMD_OTA_ABORT | CMD_OTA_STATUS
  | CMD_OTA_PROMOTE | CMD_OTA_UPDATE_MODE | CMD_STREAM_WRITE
  | CMD_GPIO_CONFIGURE | CMD_GPIO_WRITE | CMD_GPIO_READ | CMD_GPIO_SET_INTERRUPT
  | CMD_SPI1_CONFIGURE | CMD_SPI1_TRANSFER | CMD_SPI1_RELEASE
  | CMD_CAM_ENABLE | CMD_CAM_DISABLE
  | CMD_WIFI_SCAN_START | CMD_WIFI_SCAN_STOP | CMD_WIFI_CONNECT_STA | CMD_WIFI_DISCONNECT
  | CMD_WIFI_AP_START | CMD_WIFI_AP_STOP | CMD_WIFI_GET_RSSI | CMD_WIFI_GET_IP
  | CMD_WIFI_STATUS
  | CMD_SOCK_OPEN | CMD_SOCK_CONNECT | CMD_SOCK_SEND | CMD_SOCK_RECV | CMD_SOCK_CLOSE
  | CMD_SOCK_BIND | CMD_SOCK_LISTEN
  | CMD_BLE_ENABLE | CMD_BLE_DISABLE | CMD_BLE_ADV_START | CMD_BLE_ADV_STOP
  | CMD_BLE_SCAN_START | CMD_BLE_SCAN_STOP | CMD_BLE_CONNECT | CMD_BLE_DISCONNECT
  | CMD_BLE_GATT_REGISTER | CMD_BLE_GATT_NOTIFY | CMD_BLE_GATT_READ | CMD_BLE_GATT_WRITE
  | CMD_POWER_POLICY | CMD_DIAG_GET_STATS | CMD_DIAG_LOG_LEVEL

text \<open>The case labels of \<open>protocol_dispatch\<close>'s switch, in source order.\<close>

definition all_cmds :: "cmd list" where
  "all_cmds =
    [CMD_PING, CMD_GET_VERSION, CMD_GET_MAC, CMD_RESET, CMD_GET_DIAG_INFO,
     CMD_GET_PENDING_EVENTS, CMD_GET_CAPABILITIES,
     CMD_OTA_BEGIN, CMD_OTA_WRITE, CMD_OTA_FINISH, CMD_OTA_ABORT, CMD_OTA_STATUS,
     CMD_OTA_PROMOTE, CMD_OTA_UPDATE_MODE, CMD_STREAM_WRITE,
     CMD_GPIO_CONFIGURE, CMD_GPIO_WRITE, CMD_GPIO_READ, CMD_GPIO_SET_INTERRUPT,
     CMD_SPI1_CONFIGURE, CMD_SPI1_TRANSFER, CMD_SPI1_RELEASE,
     CMD_CAM_ENABLE, CMD_CAM_DISABLE,
     CMD_WIFI_SCAN_START, CMD_WIFI_SCAN_STOP, CMD_WIFI_CONNECT_STA, CMD_WIFI_DISCONNECT,
     CMD_WIFI_AP_START, CMD_WIFI_AP_STOP, CMD_WIFI_GET_RSSI, CMD_WIFI_GET_IP,
     CMD_WIFI_STATUS,
     CMD_SOCK_OPEN, CMD_SOCK_CONNECT, CMD_SOCK_SEND, CMD_SOCK_RECV, CMD_SOCK_CLOSE,
     CMD_SOCK_BIND, CMD_SOCK_LISTEN,
     CMD_BLE_ENABLE, CMD_BLE_DISABLE, CMD_BLE_ADV_START, CMD_BLE_ADV_STOP,
     CMD_BLE_SCAN_START, CMD_BLE_SCAN_STOP, CMD_BLE_CONNECT, CMD_BLE_DISCONNECT,
     CMD_BLE_GATT_REGISTER, CMD_BLE_GATT_NOTIFY, CMD_BLE_GATT_READ, CMD_BLE_GATT_WRITE,
     CMD_POWER_POLICY, CMD_DIAG_GET_STATS, CMD_DIAG_LOG_LEVEL]"

datatype resp =
    RESP_OK | RESP_ERR_INVALID | RESP_ERR_BUSY | RESP_ERR_NOT_READY | RESP_ERR_PROTOCOL
  | RESP_ERR_NO_MEM | RESP_ERR_RADIO | RESP_ERR_STATE

section \<open>What the alp-sdk headers supply\<close>

record wire_hdr =
  cmd_val :: "cmd \<Rightarrow> byte"
  resp_val :: "resp \<Rightarrow> byte"
  resp_ok_legacy :: byte
  alp_crc16_update :: "u16 \<Rightarrow> byte list \<Rightarrow> u16"
  SOCK_FAMILY_IPV4 :: byte
  WIFI_IFACE_STA :: byte
  WIFI_IFACE_AP :: byte
  SPI1_CS1 :: byte
  SPI1_XFER_CS_HOLD :: byte
  SPI1_XFER_NO_RX :: byte
  SPI1_XFER_NO_TX :: byte
  BLE_GATT_REGISTER_VERSION :: byte
  gpio_configure_of :: "byte list \<Rightarrow> byte \<times> byte \<times> byte"
  gpio_write_of :: "byte list \<Rightarrow> byte \<times> byte"
  gpio_set_interrupt_of :: "byte list \<Rightarrow> byte \<times> byte \<times> byte"
  wifi_connect_of :: "byte list \<Rightarrow> byte \<times> byte \<times> byte"
  sizeof_gpio_set_interrupt :: nat
  sizeof_wifi_connect :: nat

text \<open>
  What the sources rely on: the opcode values are distinct (the compiler refuses a switch with
  two equal case labels), a status byte determines its response code, and the CRC routine is
  CRC-16/CCITT-FALSE.
\<close>

definition hdr_ok :: "'a wire_hdr_scheme \<Rightarrow> bool" where
  "hdr_ok H \<longleftrightarrow> inj (cmd_val H) \<and> inj (resp_val H) \<and> alp_crc16_update H = crc16_ccitt_false"

section \<open>Sizes\<close>

definition HEADER_BYTES :: nat where "HEADER_BYTES = 4"
definition CRC_BYTES :: nat where "CRC_BYTES = 2"
definition MAX_PAYLOAD :: nat where "MAX_PAYLOAD = 4096"
definition EVENT_HDR_BYTES :: nat where "EVENT_HDR_BYTES = 2"
definition EVENT_PAYLOAD_MAX :: nat where "EVENT_PAYLOAD_MAX = 16"
definition BLE_GATT_MAX_CHARS :: nat where "BLE_GATT_MAX_CHARS = 8"
definition SPI1_MAX_XFER :: nat where "SPI1_MAX_XFER = 4088"
definition OTA_MAX_CHUNK :: nat where "OTA_MAX_CHUNK = MAX_PAYLOAD - 4"

definition CC3501E_FRAME_MAX_BYTES :: nat where
  "CC3501E_FRAME_MAX_BYTES = HEADER_BYTES + MAX_PAYLOAD"

definition CC3501E_REPLY_STATUS_OFF :: nat where
  "CC3501E_REPLY_STATUS_OFF = HEADER_BYTES"

definition CC3501E_REPLY_DATA_OFF :: nat where
  "CC3501E_REPLY_DATA_OFF = HEADER_BYTES + 1"

definition CC3501E_REPLY_PAD :: nat where "CC3501E_REPLY_PAD = 8"

text \<open>The two build shapes, \<open>CC3501E_WIRE_CRC\<close> on and off.\<close>

definition CC3501E_REPLY_DATA_MAX :: "bool \<Rightarrow> nat" where
  "CC3501E_REPLY_DATA_MAX wire_crc =
     (if wire_crc then MAX_PAYLOAD - 1 - CRC_BYTES else MAX_PAYLOAD - 1)"

definition CC3501E_SPI1_MAX_XFER_V4 :: "bool \<Rightarrow> nat" where
  "CC3501E_SPI1_MAX_XFER_V4 wire_crc =
     (if wire_crc then SPI1_MAX_XFER - CRC_BYTES else SPI1_MAX_XFER)"

definition CC3501E_OTA_MAX_CHUNK_V4 :: "bool \<Rightarrow> nat" where
  "CC3501E_OTA_MAX_CHUNK_V4 wire_crc =
     (if wire_crc then OTA_MAX_CHUNK - CRC_BYTES else OTA_MAX_CHUNK)"

text \<open>Struct sizes of the request payloads, as the handlers' comments state them.\<close>

definition SIZEOF_sock_open :: nat where "SIZEOF_sock_open = 4"
definition SIZEOF_sock_handle :: nat where "SIZEOF_sock_handle = 4"
definition SIZEOF_sock_connect :: nat where "SIZEOF_sock_connect = 24"
definition SIZEOF_sock_bind :: nat where "SIZEOF_sock_bind = 24"
definition SIZEOF_sock_listen :: nat where "SIZEOF_sock_listen = 4"
definition SIZEOF_sock_send :: nat where "SIZEOF_sock_send = 8"
definition SIZEOF_sock_recv :: nat where "SIZEOF_sock_recv = 4"
definition SIZEOF_sock_addr :: nat where "SIZEOF_sock_addr = 20"
definition SIZEOF_sock_recv_resp :: nat where "SIZEOF_sock_recv_resp = 24"
definition SIZEOF_sock_close :: nat where "SIZEOF_sock_close = 4"
definition SIZEOF_spi1_configure :: nat where "SIZEOF_spi1_configure = 8"
definition SIZEOF_spi1_config_resp :: nat where "SIZEOF_spi1_config_resp = 8"
definition SIZEOF_spi1_transfer :: nat where "SIZEOF_spi1_transfer = 8"
definition SIZEOF_spi1_transfer_resp :: nat where "SIZEOF_spi1_transfer_resp = 4"
definition SIZEOF_capabilities :: nat where "SIZEOF_capabilities = 8"
definition SIZEOF_gpio_configure :: nat where "SIZEOF_gpio_configure = 4"
definition SIZEOF_gpio_write :: nat where "SIZEOF_gpio_write = 4"

section \<open>Decoding an opcode byte\<close>

text \<open>The switch of \<open>protocol_dispatch\<close> on the opcode byte: the label that matches, if any.\<close>

definition decode_cmd :: "'a wire_hdr_scheme \<Rightarrow> byte \<Rightarrow> cmd option" where
  "decode_cmd H b = List.find (\<lambda>c. cmd_val H c = b) all_cmds"

lemma all_cmds_complete: "c \<in> set all_cmds"
  by (cases c) (simp_all add: all_cmds_def)

lemma decode_cmd_Some_iff:
  assumes "inj (cmd_val H)"
  shows "decode_cmd H b = Some c \<longleftrightarrow> cmd_val H c = b"
proof
  assume "decode_cmd H b = Some c"
  then show "cmd_val H c = b" by (auto simp: decode_cmd_def find_Some_iff)
next
  assume eq: "cmd_val H c = b"
  then have "decode_cmd H b \<noteq> None"
    unfolding decode_cmd_def find_None_iff using all_cmds_complete [of c] by blast
  then obtain d where d: "decode_cmd H b = Some d" by blast
  then have "cmd_val H d = b" by (auto simp: decode_cmd_def find_Some_iff)
  with eq assms have "d = c" by (auto dest: injD)
  with d show "decode_cmd H b = Some c" by simp
qed

lemma decode_cmd_cmd_val [simp]: "inj (cmd_val H) \<Longrightarrow> decode_cmd H (cmd_val H c) = Some c"
  by (simp add: decode_cmd_Some_iff)

lemma decode_cmd_None_iff: "decode_cmd H b = None \<longleftrightarrow> b \<notin> range (cmd_val H)"
  unfolding decode_cmd_def find_None_iff using all_cmds_complete by blast

lemma hdr_ok_inj [simp]: "hdr_ok H \<Longrightarrow> inj (cmd_val H)"
  unfolding hdr_ok_def by blast

lemma hdr_ok_inj_resp [simp]: "hdr_ok H \<Longrightarrow> inj (resp_val H)"
  unfolding hdr_ok_def by blast

lemma hdr_ok_crc: "hdr_ok H \<Longrightarrow> alp_crc16_update H = crc16_ccitt_false"
  unfolding hdr_ok_def by blast

lemmas sizeof_defs =
  SIZEOF_sock_open_def SIZEOF_sock_handle_def SIZEOF_sock_connect_def SIZEOF_sock_bind_def
  SIZEOF_sock_listen_def SIZEOF_sock_send_def SIZEOF_sock_recv_def SIZEOF_sock_addr_def
  SIZEOF_sock_recv_resp_def SIZEOF_sock_close_def SIZEOF_spi1_configure_def
  SIZEOF_spi1_config_resp_def SIZEOF_spi1_transfer_def SIZEOF_spi1_transfer_resp_def
  SIZEOF_capabilities_def SIZEOF_gpio_configure_def SIZEOF_gpio_write_def

lemmas frame_size_defs =
  HEADER_BYTES_def CRC_BYTES_def CC3501E_REPLY_DATA_OFF_def CC3501E_REPLY_STATUS_OFF_def
  CC3501E_REPLY_PAD_def

end
