(* ===== verification/Rx_Ring.thy ===== *)
theory Rx_Ring
  imports Wire "HOL-Library.Sublist"
begin

text \<open>
  The \<open>SOCK_RECV\<close> prefetch ring: the lazy-commit arithmetic of \<^verbatim>\<open>src/sock_recv_commit.c\<close>, the
  arming rule of \<^verbatim>\<open>src/sock_prefetch_arm.h\<close>, the drained-status rule of
  \<^verbatim>\<open>src/sock_recv_ring_status.h\<close>, and the 64 KiB ring of \<^verbatim>\<open>hal/ti/cc3501e_hw_ti_sock.c\<close> that
  uses them.  The ring's cursors are free-running 32-bit counters; the theorems relate them to
  the unbounded byte stream the socket delivered.
\<close>

section \<open>Decisions\<close>

definition sock_recv_commit ::
    "u32 \<Rightarrow> u32 \<Rightarrow> u32 \<Rightarrow> bool \<Rightarrow> u32 \<Rightarrow> u32 \<times> u32 \<times> u32" where
  "sock_recv_commit t unc h replay cap =
     (let t' = (if \<not> replay then t + unc else t);
          used = h - t';
          n = (if used < cap then used else cap)
      in (t', n, n))"

definition sock_recv_commit_reset :: "u32 \<Rightarrow> u32" where
  "sock_recv_commit_reset unc = 0"

definition sock_prefetch_should_arm :: "u16 \<Rightarrow> u16 \<Rightarrow> bool" where
  "sock_prefetch_should_arm armed requested \<longleftrightarrow> armed = 0 \<or> armed = requested"

definition sock_recv_ring_drained_status :: "bool \<Rightarrow> bool \<Rightarrow> int" where
  "sock_recv_ring_drained_status closed err =
     (if closed then 0 else if err then -3 else -2)"

section \<open>The ring\<close>

definition SOCK_RING_BYTES :: nat where "SOCK_RING_BYTES = 65536"
definition SOCK_PUMP_PASSES :: nat where "SOCK_PUMP_PASSES = 8"

record rx_ring =
  rx_buf :: "byte list"
  rx_head :: u32
  rx_tail :: u32
  fd_plus1 :: u16
  peer_closed :: bool
  peer_error :: bool
  uncommitted :: u32

definition ring_used :: "rx_ring \<Rightarrow> u32" where
  "ring_used r = rx_head r - rx_tail r"

definition cc3501e_hw_sock_prefetch :: "u16 \<Rightarrow> bool \<Rightarrow> rx_ring \<Rightarrow> rx_ring" where
  "cc3501e_hw_sock_prefetch handle on r =
     (if on then
        if \<not> sock_prefetch_should_arm (fd_plus1 r) handle then r
        else if fd_plus1 r = handle then r
        else r\<lparr>rx_head := 0, rx_tail := 0, peer_closed := False, peer_error := False,
               uncommitted := sock_recv_commit_reset (uncommitted r), fd_plus1 := handle\<rparr>
      else if fd_plus1 r = handle
        then r\<lparr>fd_plus1 := 0, uncommitted := sock_recv_commit_reset (uncommitted r)\<rparr>
      else r)"

text \<open>
  What \<open>lwip_recv\<close> reports: bytes, an orderly end of stream, nothing yet
  (\<open>EAGAIN\<close>/\<open>EWOULDBLOCK\<close>), or another error.
\<close>

datatype recv_result = Data "byte list" | Eof | Again | Failed

text \<open>Overwriting \<open>length src\<close> bytes of the buffer from index \<open>i\<close>.\<close>

definition write_at :: "nat \<Rightarrow> byte list \<Rightarrow> byte list \<Rightarrow> byte list" where
  "write_at i src dst = take i dst @ src @ drop (i + length src) dst"

primrec pump_passes ::
    "nat \<Rightarrow> (nat \<Rightarrow> 'n \<Rightarrow> 'n \<times> recv_result) \<Rightarrow> rx_ring \<Rightarrow> 'n \<Rightarrow> rx_ring \<times> 'n" where
  "pump_passes 0 lwip_recv r net = (r, net)"
| "pump_passes (Suc k) lwip_recv r net =
     (let used = unat (ring_used r)
      in if used > SOCK_RING_BYTES - MAX_PAYLOAD then (r, net)
         else let idx = unat (rx_head r) mod SOCK_RING_BYTES;
                  chunk = min (SOCK_RING_BYTES - idx) (SOCK_RING_BYTES - used)
              in if chunk = 0 then (r, net)
                 else case lwip_recv chunk net of
                    (net', Data bs) \<Rightarrow>
                      (let r' = r\<lparr>rx_buf := write_at idx bs (rx_buf r),
                                  rx_head := rx_head r + word_of_nat (length bs)\<rparr>
                       in if length bs < chunk then (r', net')
                          else pump_passes k lwip_recv r' net')
                  | (net', Eof) \<Rightarrow> (r\<lparr>peer_closed := True\<rparr>, net')
                  | (net', Again) \<Rightarrow> (r, net')
                  | (net', Failed) \<Rightarrow> (r\<lparr>peer_error := True\<rparr>, net'))"

definition cc3501e_hw_sock_pump ::
    "(nat \<Rightarrow> 'n \<Rightarrow> 'n \<times> recv_result) \<Rightarrow> rx_ring \<Rightarrow> 'n \<Rightarrow> rx_ring \<times> 'n" where
  "cc3501e_hw_sock_pump lwip_recv r net =
     (if fd_plus1 r = 0 \<or> peer_closed r \<or> peer_error r then (r, net)
      else pump_passes SOCK_PUMP_PASSES lwip_recv r net)"

text \<open>
  One host read: the return code (\<open>-1\<close> not armed for this handle, otherwise the byte count or the
  drained status) and the bytes copied into the reply.
\<close>

definition ring_copy :: "rx_ring \<Rightarrow> u32 \<Rightarrow> nat \<Rightarrow> byte list" where
  "ring_copy r t n =
     (let idx = unat t mod SOCK_RING_BYTES; first = min (SOCK_RING_BYTES - idx) n
      in take first (drop idx (rx_buf r)) @ take (n - first) (rx_buf r))"

definition cc3501e_hw_sock_recv_ring ::
    "u16 \<Rightarrow> u16 \<Rightarrow> bool \<Rightarrow> rx_ring \<Rightarrow> rx_ring \<times> int \<times> byte list" where
  "cc3501e_hw_sock_recv_ring handle cap replay r =
     (if fd_plus1 r \<noteq> handle \<or> handle = 0 then (r, -1, [])
      else case sock_recv_commit (rx_tail r) (uncommitted r) (rx_head r) replay (ucast cap) of
        (t, unc, n) \<Rightarrow>
          if n = 0
          then (r\<lparr>rx_tail := t, uncommitted := unc\<rparr>,
                sock_recv_ring_drained_status (peer_closed r) (peer_error r), [])
          else (r\<lparr>rx_tail := t, uncommitted := unc\<rparr>, uint n, ring_copy r t (unat n)))"

section \<open>The stream abstraction\<close>

text \<open>
  \<open>stream_at r S T U\<close>: the socket has delivered the bytes \<open>S\<close> since the ring was armed, the
  host has confirmed the first \<open>T\<close> of them and the last reply carried the next \<open>U\<close>.
\<close>

definition stream_at :: "rx_ring \<Rightarrow> byte list \<Rightarrow> nat \<Rightarrow> nat \<Rightarrow> bool" where
  "stream_at r S T U \<longleftrightarrow>
     rx_head r = word_of_nat (length S) \<and> rx_tail r = word_of_nat T
     \<and> uncommitted r = word_of_nat U \<and> T + U \<le> length S
     \<and> length S - T \<le> SOCK_RING_BYTES \<and> length (rx_buf r) = SOCK_RING_BYTES
     \<and> (\<forall>i. T \<le> i \<and> i < length S \<longrightarrow> rx_buf r ! (i mod SOCK_RING_BYTES) = S ! i)"

text \<open>Serving a read from the stream: where it starts and how much it takes.\<close>

definition serve_from :: "nat \<Rightarrow> nat \<Rightarrow> bool \<Rightarrow> nat" where
  "serve_from T U replay = (if replay then T else T + U)"

definition serve_len :: "byte list \<Rightarrow> nat \<Rightarrow> nat \<Rightarrow> nat" where
  "serve_len S T cap = min (length S - T) cap"

text \<open>What the code relies on of \<open>lwip_recv\<close>: data comes in non-empty pieces that fit the buffer.\<close>

definition lwip_recv_ok :: "(nat \<Rightarrow> 'n \<Rightarrow> 'n \<times> recv_result) \<Rightarrow> bool" where
  "lwip_recv_ok f \<longleftrightarrow>
     (\<forall>n net net' bs. f n net = (net', Data bs) \<longrightarrow> 0 < length bs \<and> length bs \<le> n)"

text \<open>\<open>lwip_recv\<close> with a record of every byte it has handed over.\<close>

definition logged :: "(nat \<Rightarrow> 'n \<Rightarrow> 'n \<times> recv_result) \<Rightarrow>
    nat \<Rightarrow> 'n \<times> byte list \<Rightarrow> ('n \<times> byte list) \<times> recv_result" where
  "logged f n = (\<lambda>(net, log). case f n net of
      (net', Data bs) \<Rightarrow> ((net', log @ bs), Data bs)
    | (net', x) \<Rightarrow> ((net', log), x))"

text \<open>
  The host's view of a run: it appends the bytes of each reply, and a replay replaces the reply
  it never received.  An operation is a pump pass of the task (\<open>None\<close>) or a read with its
  capacity and replay verdict (\<open>Some\<close>).
\<close>

fun host_run :: "(nat \<Rightarrow> 'n \<Rightarrow> 'n \<times> recv_result) \<Rightarrow> u16 \<Rightarrow> rx_ring \<Rightarrow> 'n \<times> byte list \<Rightarrow>
    byte list \<Rightarrow> nat \<Rightarrow> (u16 \<times> bool) option list \<Rightarrow> rx_ring \<times> byte list \<times> byte list" where
  "host_run f h r net got lst [] = (r, snd net, got)"
| "host_run f h r net got lst (None # ops) =
     (case cc3501e_hw_sock_pump (logged f) r net of
        (r', net') \<Rightarrow> host_run f h r' net' got lst ops)"
| "host_run f h r net got lst (Some (cap, replay) # ops) =
     (case cc3501e_hw_sock_recv_ring h cap replay r of
        (r', rc, bs) \<Rightarrow>
          host_run f h r' net ((if replay then take (length got - lst) got else got) @ bs)
            (length bs) ops)"

section \<open>Cursor arithmetic\<close>

lemma unat_word_mod_ring: "unat (word_of_nat n :: u32) mod SOCK_RING_BYTES = n mod SOCK_RING_BYTES"
  by (simp add: unat_of_nat SOCK_RING_BYTES_def mod_mod_cancel)

lemma unat_ring_diff:
  assumes "t \<le> h" and "h - t \<le> SOCK_RING_BYTES"
  shows "unat (word_of_nat h - word_of_nat t :: u32) = h - t"
proof -
  have "word_of_nat h - word_of_nat t = (word_of_nat (h - t) :: u32)"
    using assms(1) by (simp add: of_nat_diff)
  then show ?thesis using assms(2) by (simp add: unat_of_nat SOCK_RING_BYTES_def)
qed

lemma unat_ucast_16_32: "unat (ucast (c :: u16) :: u32) = unat c"
proof -
  have "unat c < 2 ^ 32" using unsigned_less [of c] by (rule order_less_trans) simp
  then show ?thesis by (simp add: unsigned_ucast_eq take_bit_nat_eq_self)
qed

lemma mod_ring_low:
  "T mod SOCK_RING_BYTES + i < SOCK_RING_BYTES \<Longrightarrow>
   (T + i) mod SOCK_RING_BYTES = T mod SOCK_RING_BYTES + i"
  by (metis mod_add_left_eq mod_less)

lemma mod_ring_high:
  assumes "SOCK_RING_BYTES \<le> T mod SOCK_RING_BYTES + i" and "i < SOCK_RING_BYTES"
  shows "(T + i) mod SOCK_RING_BYTES = T mod SOCK_RING_BYTES + i - SOCK_RING_BYTES"
proof -
  have "T mod SOCK_RING_BYTES < SOCK_RING_BYTES" by (simp add: SOCK_RING_BYTES_def)
  then have lt: "T mod SOCK_RING_BYTES + i - SOCK_RING_BYTES < SOCK_RING_BYTES"
    using assms(2) by linarith
  have "(T mod SOCK_RING_BYTES + i) mod SOCK_RING_BYTES
      = T mod SOCK_RING_BYTES + i - SOCK_RING_BYTES"
    by (simp only: le_mod_geq [OF assms(1)] mod_less [OF lt])
  then show ?thesis by (simp only: mod_add_left_eq)
qed

section \<open>One read\<close>

lemma ring_copy_stream:
  assumes len: "length (rx_buf r) = SOCK_RING_BYTES" and n: "n \<le> SOCK_RING_BYTES"
    and S: "T + n \<le> length S"
    and buf: "\<And>i. T \<le> i \<Longrightarrow> i < length S \<Longrightarrow> rx_buf r ! (i mod SOCK_RING_BYTES) = S ! i"
  shows "ring_copy r (word_of_nat T) n = take n (drop T S)"
proof -
  define idx where "idx = T mod SOCK_RING_BYTES"
  define first where "first = min (SOCK_RING_BYTES - idx) n"
  have idx: "idx < SOCK_RING_BYTES" by (simp add: idx_def SOCK_RING_BYTES_def)
  have copy: "ring_copy r (word_of_nat T) n
      = take first (drop idx (rx_buf r)) @ take (n - first) (rx_buf r)"
    by (simp add: ring_copy_def Let_def unat_word_mod_ring idx_def first_def)
  show ?thesis unfolding copy
  proof (rule nth_equalityI)
    show "length (take first (drop idx (rx_buf r)) @ take (n - first) (rx_buf r))
        = length (take n (drop T S))"
      using len n S idx by (simp add: first_def)
  next
    fix i assume "i < length (take first (drop idx (rx_buf r)) @ take (n - first) (rx_buf r))"
    then have i: "i < n" using len n idx by (simp add: first_def)
    then have rhs: "take n (drop T S) ! i = S ! (T + i)" using S by simp
    have lhs: "rx_buf r ! ((T + i) mod SOCK_RING_BYTES) = S ! (T + i)" using buf [of "T + i"] S i by simp
    show "(take first (drop idx (rx_buf r)) @ take (n - first) (rx_buf r)) ! i
        = take n (drop T S) ! i"
    proof (cases "i < first")
      case True
      then have "idx + i < SOCK_RING_BYTES" by (auto simp: first_def)
      then have "(T + i) mod SOCK_RING_BYTES = idx + i"
        using mod_ring_low [of T i] by (simp only: idx_def)
      with True lhs rhs len idx show ?thesis by (simp add: nth_append first_def)
    next
      case False
      then have f: "first = SOCK_RING_BYTES - idx" using i by (simp add: first_def)
      then have "SOCK_RING_BYTES \<le> idx + i" using False by linarith
      then have "(T + i) mod SOCK_RING_BYTES = idx + i - SOCK_RING_BYTES"
        using mod_ring_high [of T i] i n by (simp only: idx_def)
      then have "(T + i) mod SOCK_RING_BYTES = i - first" using f idx by linarith
      with False lhs rhs len i f idx show ?thesis by (simp add: nth_append)
    qed
  qed
qed

lemma recv_ring_stream:
  assumes st: "stream_at r S T U" and arm: "fd_plus1 r = h" "h \<noteq> 0"
    and rd: "cc3501e_hw_sock_recv_ring h cap replay r = (r', rc, bs)"
  defines "T' \<equiv> serve_from T U replay"
  defines "n \<equiv> serve_len S T' (unat cap)"
  shows "bs = take n (drop T' S) \<and> stream_at r' S T' n \<and> fd_plus1 r' = h
    \<and> peer_closed r' = peer_closed r \<and> peer_error r' = peer_error r
    \<and> rc = (if n = 0 then sock_recv_ring_drained_status (peer_closed r) (peer_error r) else int n)"
proof -
  note inv = st [unfolded stream_at_def]
  have T': "T' \<le> length S" "T \<le> T'" using inv by (auto simp: T'_def serve_from_def)
  have d: "length S - T' \<le> SOCK_RING_BYTES" using inv T'(2) by linarith
  have used: "unat (rx_head r - word_of_nat T') = length S - T'"
    using inv unat_ring_diff [OF T'(1) d] by simp
  have capn: "unat (ucast cap :: u32) = unat cap" by (rule unat_ucast_16_32)
  define w where "w = (if rx_head r - word_of_nat T' < ucast cap
                       then rx_head r - word_of_nat T' else (ucast cap :: u32))"
  have w: "unat w = n"
    using used capn by (auto simp: w_def n_def serve_len_def word_less_nat_alt)
  have t': "(if \<not> replay then rx_tail r + uncommitted r else rx_tail r) = word_of_nat T'"
    using inv by (simp add: T'_def serve_from_def)
  have commit: "sock_recv_commit (rx_tail r) (uncommitted r) (rx_head r) replay (ucast cap)
      = (word_of_nat T', w, w)"
    unfolding sock_recv_commit_def Let_def t' w_def by simp
  have n: "T' + n \<le> length S" "n \<le> SOCK_RING_BYTES"
    using T' inv by (auto simp: n_def serve_len_def)
  have wn: "w = word_of_nat n" by (simp flip: w)
  have r': "r' = r\<lparr>rx_tail := word_of_nat T', uncommitted := w\<rparr>"
    "rc = (if w = 0 then sock_recv_ring_drained_status (peer_closed r) (peer_error r) else uint w)"
    "bs = (if w = 0 then [] else ring_copy r (word_of_nat T') n)"
    using rd arm by (auto simp: cc3501e_hw_sock_recv_ring_def commit w split: if_splits)
  have w0: "w = 0 \<longleftrightarrow> n = 0" using w by (metis unat_eq_zero)
  have "ring_copy r (word_of_nat T') n = take n (drop T' S)"
    using inv T' n by (intro ring_copy_stream) auto
  moreover have "stream_at r' S T' n"
    using inv T' n by (auto simp: stream_at_def r' wn)
  moreover have "uint w = int n" using w by (simp add: uint_nat)
  ultimately show ?thesis using arm by (auto simp: r' w0)
qed

lemma take_serve_len: "take (serve_len S t c) (drop t S) = take c (drop t S)"
  by (simp add: serve_len_def min_def)

lemma serve_len_bytes: "serve_len S t c = length (take c (drop t S))"
  by (simp add: serve_len_def)

section \<open>The pump\<close>

lemma ring_slot_free:
  fixes R :: nat
  assumes "T \<le> i" and "i < L" and "L - T \<le> R" and "m < R - (L - T)" and "L mod R + m < R"
  shows "i mod R \<noteq> L mod R + m"
proof
  assume "i mod R = L mod R + m"
  moreover have "(L + m) mod R = L mod R + m"
    using assms(5) by (metis mod_add_left_eq mod_less)
  ultimately have "(L + m) mod R = i mod R" by simp
  then have "R dvd (L + m - i)"
    using mod_eq_dvd_iff_nat [of i "L + m" R] assms(2) by simp
  moreover have "0 < L + m - i" and "L + m - i < R" using assms by linarith+
  ultimately show False by (auto dest: dvd_imp_le)
qed

lemma nth_write_at:
  assumes "i + length src \<le> length dst"
  shows "write_at i src dst ! k =
    (if i \<le> k \<and> k < i + length src then src ! (k - i) else dst ! k)"
proof (cases "k < i")
  case True
  with assms show ?thesis by (simp add: write_at_def nth_append)
next
  case False
  then obtain j where k: "k = i + j" using le_Suc_ex not_less by blast
  show ?thesis
    using assms by (auto simp: write_at_def nth_append k algebra_simps)
qed

lemma length_write_at [simp]:
  "i + length src \<le> length dst \<Longrightarrow> length (write_at i src dst) = length dst"
  by (simp add: write_at_def)

lemma stream_at_write:
  assumes st: "stream_at r S T U"
    and fit: "length bs \<le> SOCK_RING_BYTES - length S mod SOCK_RING_BYTES"
      "length bs \<le> SOCK_RING_BYTES - (length S - T)"
  shows "stream_at (r\<lparr>rx_buf := write_at (length S mod SOCK_RING_BYTES) bs (rx_buf r),
           rx_head := rx_head r + word_of_nat (length bs)\<rparr>) (S @ bs) T U"
proof -
  note inv = st [unfolded stream_at_def]
  have idx: "length S mod SOCK_RING_BYTES < SOCK_RING_BYTES" by (simp add: SOCK_RING_BYTES_def)
  have room: "length S mod SOCK_RING_BYTES + length bs \<le> length (rx_buf r)"
    using inv fit(1) idx by linarith
  have "write_at (length S mod SOCK_RING_BYTES) bs (rx_buf r) ! (i mod SOCK_RING_BYTES) = (S @ bs) ! i"
    if i: "T \<le> i" "i < length S + length bs" for i
  proof (cases "i < length S")
    case True
    have "\<not> (length S mod SOCK_RING_BYTES \<le> i mod SOCK_RING_BYTES
        \<and> i mod SOCK_RING_BYTES < length S mod SOCK_RING_BYTES + length bs)"
    proof
      assume c: "length S mod SOCK_RING_BYTES \<le> i mod SOCK_RING_BYTES
        \<and> i mod SOCK_RING_BYTES < length S mod SOCK_RING_BYTES + length bs"
      then obtain m where m: "i mod SOCK_RING_BYTES = length S mod SOCK_RING_BYTES + m"
        using le_Suc_ex by blast
      then have "m < length bs" using c by simp
      then show False
        using ring_slot_free [OF i(1) True, of SOCK_RING_BYTES m] inv fit idx m by linarith
    qed
    then show ?thesis
      using inv i True room by (auto simp: nth_write_at nth_append)
  next
    case False
    then obtain m where m: "i = length S + m" using le_Suc_ex not_less by blast
    then have "m < length bs" using i by simp
    then have "(length S + m) mod SOCK_RING_BYTES = length S mod SOCK_RING_BYTES + m"
      using fit(1) idx by (intro mod_ring_low) linarith
    then show ?thesis
      using \<open>m < length bs\<close> room by (simp add: nth_write_at m nth_append)
  qed
  moreover have "T + U \<le> length S + length bs" "length S + length bs - T \<le> SOCK_RING_BYTES"
    using inv fit by linarith+
  ultimately show ?thesis
    using inv room by (simp add: stream_at_def)
qed

lemma pump_passes_stream:
  assumes "lwip_recv_ok f" and "stream_at r S T U"
    and "pump_passes k (logged f) r (net, S) = (r', net')"
  shows "stream_at r' (snd net') T U \<and> fd_plus1 r' = fd_plus1 r \<and> prefix S (snd net')"
  using assms(2,3)
proof (induction k arbitrary: r net S)
  case 0
  then show ?case by auto
next
  case (Suc k)
  define used where "used = unat (ring_used r)"
  define idx where "idx = unat (rx_head r) mod SOCK_RING_BYTES"
  define chunk where "chunk = min (SOCK_RING_BYTES - idx) (SOCK_RING_BYTES - used)"
  note inv = Suc.prems(1) [unfolded stream_at_def]
  have used: "used = length S - T"
    using inv unat_ring_diff [of T "length S"] by (simp add: used_def ring_used_def)
  have idx: "idx = length S mod SOCK_RING_BYTES" using inv by (simp add: idx_def unat_word_mod_ring)
  show ?case
  proof (cases "used > SOCK_RING_BYTES - MAX_PAYLOAD \<or> chunk = 0")
    case True
    then show ?thesis
      using Suc.prems by (auto simp: used_def idx_def chunk_def Let_def split: if_splits)
  next
    case False
    obtain net1 x where f: "f chunk net = (net1, x)" by fastforce
    define r1 where "r1 bs = r\<lparr>rx_buf := write_at idx bs (rx_buf r),
        rx_head := rx_head r + word_of_nat (length bs)\<rparr>" for bs
    have step: "pump_passes (Suc k) (logged f) r (net, S) = (case x of
        Data bs \<Rightarrow> if length bs < chunk then (r1 bs, (net1, S @ bs))
                   else pump_passes k (logged f) (r1 bs) (net1, S @ bs)
      | Eof \<Rightarrow> (r\<lparr>peer_closed := True\<rparr>, (net1, S))
      | Again \<Rightarrow> (r, (net1, S))
      | Failed \<Rightarrow> (r\<lparr>peer_error := True\<rparr>, (net1, S)))"
      using False f
      by (simp add: logged_def Let_def r1_def split: recv_result.split
          flip: used_def idx_def chunk_def)
    have flags: "stream_at (r\<lparr>peer_closed := True\<rparr>) S T U" "stream_at (r\<lparr>peer_error := True\<rparr>) S T U"
      using Suc.prems(1) by (simp_all add: stream_at_def)
    show ?thesis
    proof (cases x)
      case (Data bs)
      have "length bs \<le> chunk" using assms(1) f Data by (auto simp: lwip_recv_ok_def)
      then have st: "stream_at (r1 bs) (S @ bs) T U"
        unfolding idx r1_def using Suc.prems(1)
        by (intro stream_at_write) (auto simp: chunk_def used idx)
      show ?thesis
        using st Suc.IH [OF st] Suc.prems(2) step Data
        by (auto simp: r1_def simp del: pump_passes.simps split: if_splits dest: append_prefixD)
    qed (use Suc.prems step flags in \<open>auto simp del: pump_passes.simps\<close>)
  qed
qed

lemma sock_pump_stream:
  assumes "lwip_recv_ok f" and "stream_at r S T U"
    and "cc3501e_hw_sock_pump (logged f) r (net, S) = (r', net')"
  shows "stream_at r' (snd net') T U \<and> fd_plus1 r' = fd_plus1 r \<and> prefix S (snd net')"
  using pump_passes_stream [OF assms(1,2)] assms(2,3)
  by (auto simp: cc3501e_hw_sock_pump_def split: if_splits)

section \<open>The host's stream\<close>

text \<open>What a sequence of pump passes and reads keeps: the host holds exactly the bytes served.\<close>

lemma host_run_stream:
  assumes "lwip_recv_ok f" and "h \<noteq> 0"
    and "stream_at r S T U" and "fd_plus1 r = h" and "got = take (T + U) S"
    and "host_run f h r (net, S) got U ops = (r', log, got')"
  shows "\<exists>T' U'. stream_at r' log T' U' \<and> fd_plus1 r' = h \<and> got' = take (T' + U') log"
  using assms(3-6)
proof (induction ops arbitrary: r net S T U got)
  case Nil
  then show ?case by auto
next
  case (Cons op ops)
  show ?case
  proof (cases op)
    case None
    obtain r1 net1 S1 where p: "cc3501e_hw_sock_pump (logged f) r (net, S) = (r1, (net1, S1))"
      by (metis prod.exhaust)
    have st: "stream_at r1 S1 T U" "fd_plus1 r1 = h" "prefix S S1"
      using sock_pump_stream [OF assms(1) Cons.prems(1) p] Cons.prems(2) by auto
    have "got = take (T + U) S1"
      using st(3) Cons.prems(1,3) by (auto simp: stream_at_def prefix_def)
    with Cons.IH [OF st(1,2)] Cons.prems(4) show ?thesis by (simp add: None p)
  next
    case (Some a)
    obtain cap replay where a: "a = (cap, replay)" by fastforce
    obtain r1 rc bs where rd: "cc3501e_hw_sock_recv_ring h cap replay r = (r1, rc, bs)"
      by (metis prod.exhaust)
    define T1 where "T1 = serve_from T U replay"
    define n where "n = serve_len S T1 (unat cap)"
    have st: "bs = take n (drop T1 S)" "stream_at r1 S T1 n" "fd_plus1 r1 = h"
      using recv_ring_stream [OF Cons.prems(1,2) assms(2) rd] by (auto simp: T1_def n_def)
    have le: "T + U \<le> length S" "T1 + n \<le> length S"
      using Cons.prems(1) st(2) by (auto simp: stream_at_def)
    then have lb: "length bs = n" using st(1) by simp
    have "(if replay then take (length got - U) got else got) = take T1 S"
      using le Cons.prems(3) by (auto simp: T1_def serve_from_def min_def)
    then have "(if replay then take (length got - U) got else got) @ bs = take (T1 + n) S"
      by (simp only: st(1) take_add)
    with Cons.IH [OF st(2,3)] Cons.prems(4) show ?thesis by (simp add: Some a rd lb)
  qed
qed

lemma prefetch_arms_stream:
  assumes "length (rx_buf r) = SOCK_RING_BYTES" and "fd_plus1 r = 0" and "h \<noteq> 0"
  shows "stream_at (cc3501e_hw_sock_prefetch h True r) [] 0 0
    \<and> fd_plus1 (cc3501e_hw_sock_prefetch h True r) = h"
  using assms
  by (simp add: stream_at_def cc3501e_hw_sock_prefetch_def sock_prefetch_should_arm_def
      sock_recv_commit_reset_def)

text \<open>
  A lossy three-byte peer for the concrete runs below: it delivers one segment and then has
  nothing more.
\<close>

definition demo_recv :: "nat \<Rightarrow> nat \<Rightarrow> nat \<times> recv_result" where
  "demo_recv n k = (if k = 0 \<and> 3 \<le> n then (1, Data [7, 8, 9]) else (k, Again))"

definition demo_ring :: rx_ring where
  "demo_ring = \<lparr>rx_buf = replicate SOCK_RING_BYTES 0, rx_head = 0, rx_tail = 0, fd_plus1 = 0,
     peer_closed = False, peer_error = False, uncommitted = 0\<rparr>"

lemma demo_recv_ok: "lwip_recv_ok demo_recv"
  by (auto simp: lwip_recv_ok_def demo_recv_def split: if_splits)

definition demo_filled :: "u32 \<Rightarrow> u32 \<Rightarrow> rx_ring" where
  "demo_filled t unc = demo_ring\<lparr>rx_buf := [7, 8, 9] @ drop 3 (rx_buf demo_ring), rx_head := 3,
     rx_tail := t, uncommitted := unc, fd_plus1 := 3\<rparr>"

lemma demo_ring_free: "length (rx_buf demo_ring) = SOCK_RING_BYTES" "fd_plus1 demo_ring = 0"
  by (simp_all add: demo_ring_def)

lemma ring_size_facts: "SOCK_RING_BYTES - MAX_PAYLOAD = 61440" "Suc (Suc (Suc 0)) < SOCK_RING_BYTES"
  "Suc (Suc (Suc 0)) \<le> SOCK_RING_BYTES"
  "3 < SOCK_RING_BYTES"
  "3 \<le> SOCK_RING_BYTES" "0 < SOCK_RING_BYTES" "2 \<le> SOCK_RING_BYTES" "SOCK_PUMP_PASSES = Suc 7"
  by (simp_all add: SOCK_RING_BYTES_def MAX_PAYLOAD_def SOCK_PUMP_PASSES_def)

lemma demo_pump:
  "cc3501e_hw_sock_pump (logged demo_recv) (cc3501e_hw_sock_prefetch 3 True demo_ring) (0, [])
     = (demo_filled 0 0, (1, [7, 8, 9]))"
  by (simp add: demo_ring_def demo_filled_def demo_recv_def cc3501e_hw_sock_prefetch_def
        sock_prefetch_should_arm_def sock_recv_commit_reset_def cc3501e_hw_sock_pump_def
        logged_def ring_size_facts ring_used_def write_at_def
        Let_def numeral_3_eq_3 pump_passes.simps(2) [of 7, simplified])

lemma demo_read:
  "cc3501e_hw_sock_recv_ring 3 2 replay (demo_filled 0 0) = (demo_filled 0 2, 2, [7, 8])"
  "cc3501e_hw_sock_recv_ring 3 2 True (demo_filled 0 2) = (demo_filled 0 2, 2, [7, 8])"
  by (simp_all add: cc3501e_hw_sock_recv_ring_def demo_filled_def sock_recv_commit_def
      demo_ring_def ring_copy_def ring_size_facts)

text \<open>
  C33: No byte is lost, duplicated or reordered.  From the moment the ring is armed, through any
  interleaving of pump passes, reads and replayed reads, the bytes the host holds (each replay
  replacing the reply it stands for) are a prefix of the bytes the socket delivered, what is
  still missing fits the ring, and the next read returns exactly the bytes that follow, or the
  drained status when there are none.
\<close>

theorem rx_ring_stream:
  assumes "lwip_recv_ok f" and "h \<noteq> 0"
    and "length (rx_buf r) = SOCK_RING_BYTES" and "fd_plus1 r = 0"
    and "host_run f h (cc3501e_hw_sock_prefetch h True r) (net, []) [] 0 ops = (r', log, got)"
  shows "prefix got log \<and> length log - length got \<le> SOCK_RING_BYTES
    \<and> snd (cc3501e_hw_sock_recv_ring h cap False r') =
       (let rest = take (unat cap) (drop (length got) log)
        in (if rest = [] then sock_recv_ring_drained_status (peer_closed r') (peer_error r')
            else int (length rest), rest))"
proof -
  obtain T U where st: "stream_at r' log T U" "fd_plus1 r' = h" "got = take (T + U) log"
    using host_run_stream [OF assms(1,2) _ _ _ assms(5), of 0]
      prefetch_arms_stream [OF assms(3,4,2)] by auto
  then have len: "length got = T + U" "length log - T \<le> SOCK_RING_BYTES"
    by (auto simp: stream_at_def)
  obtain r2 rc bs where rd: "cc3501e_hw_sock_recv_ring h cap False r' = (r2, rc, bs)"
    by (metis prod.exhaust)
  note step = recv_ring_stream [OF st(1,2) assms(2) rd]
  have bs: "bs = take (unat cap) (drop (T + U) log)"
    using step by (simp add: serve_from_def take_serve_len)
  moreover have "rc = (if bs = [] then sock_recv_ring_drained_status (peer_closed r') (peer_error r')
               else int (length bs))"
    using step unfolding bs serve_len_bytes by (simp only: serve_from_def if_False length_0_conv)
  ultimately show ?thesis using st(3) len rd by (auto simp: Let_def take_is_prefix)
qed

theorem rx_ring_stream_witness:
  "\<exists>r' got. host_run demo_recv 3 (cc3501e_hw_sock_prefetch 3 True demo_ring) (0, []) [] 0
       [None, Some (2, False), Some (2, True)] = (r', [7, 8, 9], got)
     \<and> got = [7, 8] \<and> prefix got [7, 8, 9] \<and> snd (cc3501e_hw_sock_recv_ring 3 8 False r') = (1, [9])"
proof -
  have "host_run demo_recv 3 (cc3501e_hw_sock_prefetch 3 True demo_ring) (0, []) [] 0
       [None, Some (2, False), Some (2, True)] = (demo_filled 0 2, [7, 8, 9], [7, 8])"
    by (simp add: demo_pump demo_read)
  then show ?thesis
    using rx_ring_stream [OF demo_recv_ok _ demo_ring_free, of 3 0 "[None, Some (2, False), Some (2, True)]"
        "demo_filled 0 2" "[7, 8, 9]" "[7, 8]" 8]
    by (simp add: Let_def)
qed

text \<open>
  A replayed read never returns less than the reply it replaces.  Whatever the pump does in
  between, retrying a read with the same capacity returns the bytes of the lost reply first.
\<close>

theorem rx_ring_replay_extends:
  assumes "lwip_recv_ok f" and "h \<noteq> 0" and "stream_at r S T U" and "fd_plus1 r = h"
    and "cc3501e_hw_sock_recv_ring h cap first r = (r1, rc, bs)"
    and "cc3501e_hw_sock_pump (logged f) r1 (net, S) = (r2, net')"
    and "cc3501e_hw_sock_recv_ring h cap True r2 = (r3, rc', bs')"
  shows "prefix bs bs'"
proof -
  let ?T = "serve_from T U first"
  have st: "bs = take (serve_len S ?T (unat cap)) (drop ?T S)"
    "stream_at r1 S ?T (serve_len S ?T (unat cap))" "fd_plus1 r1 = h"
    using recv_ring_stream [OF assms(3,4,2,5)] by auto
  have pump: "stream_at r2 (snd net') ?T (serve_len S ?T (unat cap))" "fd_plus1 r2 = h"
    "prefix S (snd net')"
    using sock_pump_stream [OF assms(1) st(2) assms(6)] st(3) by auto
  have "bs' = take (serve_len (snd net') ?T (unat cap)) (drop ?T (snd net'))"
    using recv_ring_stream [OF pump(1,2) assms(2,7)] by (simp add: serve_from_def)
  with st(1) pump(3) show ?thesis
    by (auto simp: take_serve_len prefix_def)
qed

theorem rx_ring_replay_extends_witness: "prefix [7, 8] [7, 8 :: byte]"
  using rx_ring_replay_extends [OF demo_recv_ok, of 3 "demo_filled 0 0" "[7, 8, 9]" 0 0 2 False
      "demo_filled 0 2" 2 "[7, 8]" 1 "demo_filled 0 2" "(1, [7, 8, 9])" "demo_filled 0 2" 2 "[7, 8]"]
  by (simp add: demo_read)

end
