(* ===== verification/Hal.thy ===== *)
theory Hal
  imports Wire
begin

text \<open>
  The hardware contract of \<^verbatim>\<open>hal/cc3501e_hw.h\<close> and the transport seam of
  \<^verbatim>\<open>src/transport.h\<close>: one record per driver family whose fields are the functions the
  portable core calls.  A driver function takes the hardware state \<open>'h\<close> and returns the new one
  with its return code and what it wrote through its output pointers; an output buffer is the
  list of bytes written.  Every operation of the core takes these records as an argument, so
  each theorem holds for every backend; \<open>Hal_Stub\<close> is the backend of \<^verbatim>\<open>hal/cc3501e_hw_stub.c\<close>.
\<close>

section \<open>Return codes\<close>

definition CC3501E_HW_OK :: int where "CC3501E_HW_OK = 0"
definition CC3501E_HW_ERR_NOTIMPL :: int where "CC3501E_HW_ERR_NOTIMPL = -1"
definition CC3501E_HW_ERR_IO :: int where "CC3501E_HW_ERR_IO = -2"
definition CC3501E_HW_ERR_INVAL :: int where "CC3501E_HW_ERR_INVAL = -3"
definition CC3501E_HW_ERR_STATE :: int where "CC3501E_HW_ERR_STATE = -4"
definition CC3501E_HW_ERR_NO_MEM :: int where "CC3501E_HW_ERR_NO_MEM = -5"
definition CC3501E_HW_BUSY :: int where "CC3501E_HW_BUSY = 1"

lemmas hw_rc_defs = CC3501E_HW_OK_def CC3501E_HW_ERR_NOTIMPL_def CC3501E_HW_ERR_IO_def
  CC3501E_HW_ERR_INVAL_def CC3501E_HW_ERR_STATE_def CC3501E_HW_ERR_NO_MEM_def CC3501E_HW_BUSY_def

text \<open>A return code as the one signed byte a status cell stores.\<close>

definition to_int8 :: "int \<Rightarrow> int" where
  "to_int8 rv = sint (word_of_int rv :: 8 word)"

definition hw_to_resp :: "int \<Rightarrow> resp" where
  "hw_to_resp rv =
     (if rv = CC3501E_HW_OK then RESP_OK
      else if rv = CC3501E_HW_BUSY then RESP_ERR_BUSY
      else if rv = CC3501E_HW_ERR_NOTIMPL then RESP_ERR_NOT_READY
      else if rv = CC3501E_HW_ERR_INVAL then RESP_ERR_INVALID
      else RESP_ERR_RADIO)"

lemma hw_to_resp_OK_iff [simp]: "hw_to_resp rv = RESP_OK \<longleftrightarrow> rv = CC3501E_HW_OK"
  by (simp add: hw_to_resp_def)

section \<open>Driver families\<close>

type_synonym 'h drv = "'h \<Rightarrow> 'h \<times> int"
type_synonym ('h, 'o) drv_out = "'h \<Rightarrow> 'h \<times> int \<times> 'o"

record 'h hal_sys =
  hw_get_mac :: "('h, byte list) drv_out"
  hw_request_reset :: "'h \<Rightarrow> 'h"
  hw_tick :: "'h \<Rightarrow> 'h"
  hw_set_power_policy :: "byte \<Rightarrow> byte \<Rightarrow> u32 \<Rightarrow> 'h drv"
  hw_power_radio_ok :: "'h \<Rightarrow> bool"
  hw_set_log_level :: "byte \<Rightarrow> 'h drv"
  hw_reset_cause :: "'h \<Rightarrow> 'h \<times> byte"
  hw_uptime_ms :: "'h \<Rightarrow> u32"
  hw_free_heap_bytes :: "'h \<Rightarrow> u32"
  hw_radio_role :: "'h \<Rightarrow> byte"

record 'h hal_io =
  hw_gpio_configure :: "byte \<Rightarrow> byte \<Rightarrow> byte \<Rightarrow> 'h drv"
  hw_gpio_write :: "byte \<Rightarrow> byte \<Rightarrow> 'h drv"
  hw_gpio_read :: "byte \<Rightarrow> ('h, byte) drv_out"
  hw_gpio_set_interrupt :: "byte \<Rightarrow> byte \<Rightarrow> byte \<Rightarrow> 'h drv"
  hw_cam_enable :: "byte \<Rightarrow> byte \<Rightarrow> 'h drv"
  hw_spi1_configure :: "u32 \<Rightarrow> byte \<Rightarrow> byte \<Rightarrow> byte \<Rightarrow> ('h, u32) drv_out"
  hw_spi1_transfer :: "byte list option \<Rightarrow> bool \<Rightarrow> u16 \<Rightarrow> byte \<Rightarrow> bool \<Rightarrow> ('h, byte list) drv_out"
  hw_spi1_release :: "'h drv"

record 'h hal_wifi =
  hw_wifi_scan_stop :: "'h drv"
  hw_wifi_scan :: "nat \<Rightarrow> ('h, byte list) drv_out"
  hw_wifi_connect_sta :: "byte list \<Rightarrow> byte list \<Rightarrow> byte \<Rightarrow> 'h drv"
  hw_wifi_disconnect :: "'h drv"
  hw_wifi_ap_start :: "byte list \<Rightarrow> byte list \<Rightarrow> byte \<Rightarrow> 'h drv"
  hw_wifi_ap_stop :: "'h drv"
  hw_wifi_ap_role_publish :: "'h \<Rightarrow> 'h"
  hw_wifi_get_rssi :: "('h, byte) drv_out"
  hw_wifi_get_ip :: "byte \<Rightarrow> ('h, byte list) drv_out"
  hw_wifi_connect_sta_take_reinit :: "'h \<Rightarrow> 'h \<times> bool \<times> bool"
  hw_wifi_get_rssi_take_reinit_skip :: "'h \<Rightarrow> 'h \<times> bool \<times> bool"
  hw_wifi_connect_sta_take_fail_skip :: "'h \<Rightarrow> 'h \<times> bool \<times> bool"
  hw_wifi_mark_connecting :: "'h \<Rightarrow> 'h"
  hw_wifi_conn_status :: "('h, byte \<times> byte \<times> byte) drv_out"
  hw_wifi_last_reason :: "'h \<Rightarrow> u16"
  hw_wifi_last_event_id :: "'h \<Rightarrow> u32"
  hw_wifi_dhcp_diag :: "'h \<Rightarrow> 'h \<times> byte \<times> byte"

record 'h hal_sock =
  hw_sock_open :: "byte \<Rightarrow> byte \<Rightarrow> byte \<Rightarrow> ('h, u16) drv_out"
  hw_sock_connect :: "u16 \<Rightarrow> byte \<Rightarrow> u16 \<Rightarrow> byte list \<Rightarrow> 'h drv"
  hw_sock_bind :: "u16 \<Rightarrow> byte \<Rightarrow> u16 \<Rightarrow> byte list \<Rightarrow> 'h drv"
  hw_sock_listen :: "u16 \<Rightarrow> byte \<Rightarrow> 'h drv"
  hw_sock_send :: "u16 \<Rightarrow> byte \<Rightarrow> byte list \<Rightarrow> ('h, u16) drv_out"
  hw_sock_recv :: "u16 \<Rightarrow> u16 \<Rightarrow> u16 \<Rightarrow> ('h, byte list \<times> byte list \<times> u16) drv_out"
  hw_sock_close :: "u16 \<Rightarrow> 'h drv"
  hw_sock_recv_ring :: "u16 \<Rightarrow> u16 \<Rightarrow> bool \<Rightarrow> ('h, byte list) drv_out"

record 'h hal_ble =
  hw_ble_enable :: "'h drv"
  hw_ble_disable :: "'h drv"
  hw_ble_adv_start :: "byte \<Rightarrow> u16 \<Rightarrow> u16 \<Rightarrow> byte list \<Rightarrow> 'h drv"
  hw_ble_adv_stop :: "'h drv"
  hw_ble_scan_stop :: "'h drv"
  hw_ble_scan :: "nat \<Rightarrow> ('h, byte list) drv_out"
  hw_ble_connect :: "byte \<Rightarrow> byte list \<Rightarrow> 'h drv"
  hw_ble_disconnect :: "'h drv"
  hw_ble_gatt_register :: "byte list \<Rightarrow> nat \<Rightarrow> ('h, u16 list) drv_out"
  hw_ble_gatt_notify :: "u16 \<Rightarrow> byte list \<Rightarrow> 'h drv"
  hw_ble_gatt_read :: "u16 \<Rightarrow> u16 \<Rightarrow> ('h, byte list) drv_out"
  hw_ble_gatt_write :: "u16 \<Rightarrow> byte list \<Rightarrow> 'h drv"

record 'h hal_ota =
  hw_ota_begin :: "u32 \<Rightarrow> 'h drv"
  hw_ota_write :: "u32 \<Rightarrow> byte list \<Rightarrow> 'h drv"
  hw_ota_finish :: "'h drv"
  hw_ota_abort :: "'h drv"
  hw_ota_promote :: "'h drv"
  hw_ota_reboot_rc :: "'h \<Rightarrow> byte"
  hw_ota_pending :: "'h \<Rightarrow> byte"
  hw_ota_flush_pending :: "'h \<Rightarrow> bool"
  hw_ota_fault :: "'h \<Rightarrow> byte \<times> byte"
  hw_ota_status :: "('h, byte \<times> u32 \<times> u32) drv_out"

record 'h hal_link =
  bridge_busy :: "'h \<Rightarrow> 'h"
  bridge_ready :: "'h \<Rightarrow> 'h"
  bridge_attn_pulse :: "'h \<Rightarrow> 'h"
  spi_hw_init :: "'h \<Rightarrow> 'h"
  sdio_hw_init :: "'h \<Rightarrow> 'h"
  spi_hw_reinit :: "'h \<Rightarrow> 'h \<times> bool"
  spi_polled :: "'h \<Rightarrow> 'h \<times> bool"
  spi_request_polled_boot :: "'h \<Rightarrow> 'h \<times> bool"
  spi_clear_polled_boot :: "'h \<Rightarrow> 'h \<times> bool"
  spi_boot_mark :: "'h \<Rightarrow> byte"
  spi_phase :: "'h \<Rightarrow> byte"

section \<open>The platform\<close>

text \<open>
  The header's numbers, the build switches (\<open>CC3501E_WIRE_CRC\<close>, \<open>CC3501E_WIFI\<close>,
  \<open>CC3501E_BLE\<close>, \<open>CC3501E_HAL_STUB\<close>), the firmware version and the drivers.
\<close>

record 'h platform = wire_hdr +
  WIRE_CRC :: bool
  BUILD_WIFI :: bool
  BUILD_BLE :: bool
  HAL_STUB :: bool
  FW_VERSION_U16 :: u16
  sys :: "'h hal_sys"
  io :: "'h hal_io"
  wifi :: "'h hal_wifi"
  sock :: "'h hal_sock"
  ble :: "'h hal_ble"
  ota :: "'h hal_ota"
  link :: "'h hal_link"

text \<open>An output array of \<open>n\<close> bytes, zero-initialised, after the callee wrote \<open>xs\<close> into it.\<close>

definition out_buf :: "nat \<Rightarrow> byte list \<Rightarrow> byte list" where
  "out_buf n xs = take n (xs @ replicate n 0)"

lemma length_out_buf [simp]: "length (out_buf n xs) = n"
  by (simp add: out_buf_def)

end
