(* ===== verification/Event_Ring.thy ===== *)
theory Event_Ring
  imports Wire
begin

text \<open>
  The asynchronous event ring of \<^verbatim>\<open>src/event_ring.c\<close>: sixteen slots, a producer that drops the
  newest event when the ring is full, and the drain that packs as many whole entries as fit the
  caller's buffer.  The ring refines a bounded FIFO of events; the packed reply decodes back to
  exactly the events it took off the queue.
\<close>

section \<open>State\<close>

definition EVENT_RING_SLOTS :: nat where "EVENT_RING_SLOTS = 16"

record event_slot =
  evt_opcode :: byte
  slot_len :: byte
  payload :: "byte list"

record event_ring =
  slot :: "event_slot list"
  head :: nat
  tail :: nat
  count :: nat

section \<open>Operations\<close>

definition event_ring_init :: "event_ring \<Rightarrow> event_ring" where
  "event_ring_init r = r\<lparr>head := 0, tail := 0, count := 0\<rparr>"

text \<open>
  \<open>attn\<close> is \<open>cc3501e_bridge_attn_pulse\<close>, called on both paths after the critical section.
  A \<open>NULL\<close> payload is \<open>None\<close>; the result is the C return value (1 queued, 0 dropped).
\<close>

definition event_ring_push ::
    "('h \<Rightarrow> 'h) \<Rightarrow> byte \<Rightarrow> byte list option \<Rightarrow> byte \<Rightarrow> event_ring \<Rightarrow> 'h \<Rightarrow> event_ring \<times> 'h \<times> int"
where
  "event_ring_push attn op pl len r hw =
     (let n = (if unat len > EVENT_PAYLOAD_MAX then word_of_nat EVENT_PAYLOAD_MAX else len)
      in if count r \<ge> EVENT_RING_SLOTS then (r, attn hw, 0)
         else let s = slot r ! tail r;
                  s' = s\<lparr>evt_opcode := op, slot_len := n,
                         payload := (case pl of
                            Some p \<Rightarrow> if unat n > 0 then blit (payload s) (take (unat n) p)
                                      else payload s
                          | None \<Rightarrow> payload s)\<rparr>
              in (r\<lparr>slot := (slot r)[tail r := s'],
                    tail := (tail r + 1) mod EVENT_RING_SLOTS,
                    count := count r + 1\<rparr>, attn hw, 1))"

text \<open>One entry as it goes on the wire: opcode, length, payload bytes.\<close>

definition slot_bytes :: "event_slot \<Rightarrow> byte list" where
  "slot_bytes s = [evt_opcode s, slot_len s] @ take (unat (slot_len s)) (payload s)"

text \<open>Taking the oldest entry off the ring.\<close>

definition ring_pop :: "event_ring \<Rightarrow> event_ring" where
  "ring_pop r = r\<lparr>head := (head r + 1) mod EVENT_RING_SLOTS, count := count r - 1\<rparr>"

function drain_loop :: "nat \<Rightarrow> byte list \<Rightarrow> event_ring \<Rightarrow> event_ring \<times> byte list" where
  "drain_loop cap out r =
     (if count r = 0 then (r, out)
      else let s = slot r ! head r; need = EVENT_HDR_BYTES + unat (slot_len s)
           in if length out + need > cap then (r, out)
              else drain_loop cap (out @ slot_bytes s) (ring_pop r))"
  by pat_completeness auto
termination
  by (relation "measure (\<lambda>(cap, out, r). count r)") (auto simp: ring_pop_def)

declare drain_loop.simps [simp del]

definition event_ring_drain :: "nat \<Rightarrow> event_ring \<Rightarrow> event_ring \<times> byte list" where
  "event_ring_drain cap r = drain_loop cap [] r"

definition ring_reset :: event_ring where
  "ring_reset =
     \<lparr>slot = replicate EVENT_RING_SLOTS
        \<lparr>evt_opcode = 0, slot_len = 0, payload = replicate EVENT_PAYLOAD_MAX 0\<rparr>,
      head = 0, tail = 0, count = 0\<rparr>"

section \<open>Invariant and abstraction\<close>

definition slot_ok :: "event_slot \<Rightarrow> bool" where
  "slot_ok s \<longleftrightarrow> length (payload s) = EVENT_PAYLOAD_MAX \<and> unat (slot_len s) \<le> EVENT_PAYLOAD_MAX"

definition ring_inv :: "event_ring \<Rightarrow> bool" where
  "ring_inv r \<longleftrightarrow> length (slot r) = EVENT_RING_SLOTS \<and> list_all slot_ok (slot r)
     \<and> head r < EVENT_RING_SLOTS \<and> count r \<le> EVENT_RING_SLOTS
     \<and> tail r = (head r + count r) mod EVENT_RING_SLOTS"

type_synonym event = "byte \<times> byte list"

definition slot_event :: "event_slot \<Rightarrow> event" where
  "slot_event s = (evt_opcode s, take (unat (slot_len s)) (payload s))"

text \<open>The queued events, oldest first.\<close>

definition ring_events :: "event_ring \<Rightarrow> event list" where
  "ring_events r =
     map (\<lambda>i. slot_event (slot r ! ((head r + i) mod EVENT_RING_SLOTS))) [0..<count r]"

definition event_bytes :: "event \<Rightarrow> byte list" where
  "event_bytes e = [fst e, word_of_nat (length (snd e))] @ snd e"

text \<open>The host's walk over a packed reply: entry by entry until the bytes run out.\<close>

function parse_events :: "byte list \<Rightarrow> event list" where
  "parse_events bs =
     (if length bs < EVENT_HDR_BYTES then []
      else let n = unat (bs ! 1)
           in (bs ! 0, take n (drop 2 bs)) # parse_events (drop (2 + n) bs))"
  by pat_completeness auto
termination
  by (relation "measure length") (auto simp: EVENT_HDR_BYTES_def)

declare parse_events.simps [simp del]

text \<open>How many whole entries fit a buffer of \<open>cap\<close> bytes.\<close>

fun fit :: "nat \<Rightarrow> event list \<Rightarrow> nat" where
  "fit cap [] = 0"
| "fit cap (e # es) =
     (if length (event_bytes e) \<le> cap then Suc (fit (cap - length (event_bytes e)) es) else 0)"

section \<open>The bounded FIFO contract\<close>

text \<open>
  A run of pushes (\<open>Inl e\<close>) and drains (\<open>Inr cap\<close>) on a queue with operations \<open>enq\<close> and \<open>deq\<close>:
  the state reached, the events accepted and the replies produced.
\<close>

fun queue_run :: "('q \<Rightarrow> event list) \<Rightarrow> nat \<Rightarrow> (event \<Rightarrow> 'q \<Rightarrow> 'q) \<Rightarrow> (nat \<Rightarrow> 'q \<Rightarrow> 'q \<times> byte list)
    \<Rightarrow> 'q \<Rightarrow> (event + nat) list \<Rightarrow> 'q \<times> event list \<times> byte list list" where
  "queue_run events bound enq deq q [] = (q, [], [])"
| "queue_run events bound enq deq q (Inl e # ops) =
     (case queue_run events bound enq deq (enq e q) ops of (q', acc, outs) \<Rightarrow>
        (q', (if length (events q) < bound then [e] else []) @ acc, outs))"
| "queue_run events bound enq deq q (Inr cap # ops) =
     (case deq cap q of (q1, bs) \<Rightarrow>
        case queue_run events bound enq deq q1 ops of (q', acc, outs) \<Rightarrow> (q', acc, bs # outs))"

text \<open>
  The interface the producers and the \<open>GET_PENDING_EVENTS\<close> handler rely on: \<open>enq\<close> appends one
  event or drops it, \<open>deq\<close> hands over the encoding of a prefix of the queue.
\<close>

locale bounded_event_queue =
  fixes inv :: "'q \<Rightarrow> bool"
    and events :: "'q \<Rightarrow> event list"
    and bound :: nat
    and ok :: "event \<Rightarrow> bool"
    and enq :: "event \<Rightarrow> 'q \<Rightarrow> 'q"
    and deq :: "nat \<Rightarrow> 'q \<Rightarrow> 'q \<times> byte list"
  assumes inv_enq: "inv q \<Longrightarrow> ok e \<Longrightarrow> inv (enq e q)"
    and inv_deq: "inv q \<Longrightarrow> inv (fst (deq cap q))"
    and events_ok: "inv q \<Longrightarrow> \<forall>e \<in> set (events q). ok e"
    and events_enq: "inv q \<Longrightarrow> ok e \<Longrightarrow>
          events (enq e q) = (if length (events q) < bound then events q @ [e] else events q)"
    and deq_bytes: "inv q \<Longrightarrow>
          snd (deq cap q) = concat (map event_bytes (take (fit cap (events q)) (events q)))"
    and events_deq: "inv q \<Longrightarrow> events (fst (deq cap q)) = drop (fit cap (events q)) (events q)"
begin

text \<open>
  Nothing is lost, duplicated or reordered: the bytes of all the replies, followed by what is
  still queued, are the bytes of what was queued at the start and then accepted.
\<close>

lemma run_fifo:
  assumes "inv q" and "list_all (case_sum ok (\<lambda>_. True)) ops"
    and "queue_run events bound enq deq q ops = (q', acc, outs)"
  shows "inv q' \<and> concat outs @ concat (map event_bytes (events q'))
           = concat (map event_bytes (events q @ acc))"
  using assms
proof (induction ops arbitrary: q acc outs)
  case Nil
  then show ?case by simp
next
  case (Cons op ops)
  show ?case
  proof (cases op)
    case (Inl e)
    with Cons.prems(2) have ok: "ok e" "list_all (case_sum ok (\<lambda>_. True)) ops" by auto
    obtain acc' where r: "queue_run events bound enq deq (enq e q) ops = (q', acc', outs)"
      and acc: "acc = (if length (events q) < bound then [e] else []) @ acc'"
      using Cons.prems(3) Inl by (auto split: prod.splits)
    from Cons.IH [OF inv_enq [OF Cons.prems(1) ok(1)] ok(2) r] show ?thesis
      by (auto simp: acc events_enq [OF Cons.prems(1) ok(1)])
  next
    case (Inr cap)
    with Cons.prems(2) have ok: "list_all (case_sum ok (\<lambda>_. True)) ops" by simp
    obtain q1 bs where d: "deq cap q = (q1, bs)" by fastforce
    obtain outs' where r: "queue_run events bound enq deq q1 ops = (q', acc, outs')"
      and outs: "outs = bs # outs'"
      using Cons.prems(3) Inr d by (auto split: prod.splits)
    have i1: "inv q1" using inv_deq [OF Cons.prems(1), of cap] d by simp
    have "bs @ concat (map event_bytes (events q1)) = concat (map event_bytes (events q))"
      using deq_bytes [OF Cons.prems(1), of cap] events_deq [OF Cons.prems(1), of cap] d
      by (metis append_take_drop_id concat_append fst_conv map_append snd_conv)
    with Cons.IH [OF i1 ok r] show ?thesis by (simp add: outs)
  qed
qed

end

section \<open>The ring implements the contract\<close>

text \<open>A push of one event whose payload is given, as the queue operation of the contract.\<close>

definition ring_enq :: "event \<Rightarrow> event_ring \<Rightarrow> event_ring" where
  "ring_enq e r =
     fst (event_ring_push id (fst e) (Some (snd e)) (word_of_nat (length (snd e))) r ())"

definition event_ok :: "event \<Rightarrow> bool" where
  "event_ok e \<longleftrightarrow> length (snd e) \<le> EVENT_PAYLOAD_MAX"

lemma length_event_bytes [simp]: "length (event_bytes e) = EVENT_HDR_BYTES + length (snd e)"
  by (simp add: event_bytes_def EVENT_HDR_BYTES_def)

lemma length_ring_events [simp]: "length (ring_events r) = count r"
  by (simp add: ring_events_def)

lemma unat_small: "n \<le> EVENT_PAYLOAD_MAX \<Longrightarrow> unat (word_of_nat n :: byte) = n"
  by (simp add: EVENT_PAYLOAD_MAX_def unat_of_nat)

lemma slot_ok_event: "slot_ok s \<Longrightarrow> event_ok (slot_event s)"
  by (simp add: slot_ok_def event_ok_def slot_event_def)

lemma slot_bytes_event: "slot_ok s \<Longrightarrow> event_bytes (slot_event s) = slot_bytes s"
  by (auto simp: slot_ok_def event_bytes_def slot_event_def slot_bytes_def min.absorb2)

lemma ring_inv_slot:
  "ring_inv r \<Longrightarrow> slot_ok (slot r ! ((head r + i) mod EVENT_RING_SLOTS))"
  by (simp add: ring_inv_def list_all_length EVENT_RING_SLOTS_def)

lemma ring_inv_reset: "ring_inv ring_reset"
  by (simp add: ring_inv_def ring_reset_def slot_ok_def list_all_length EVENT_RING_SLOTS_def)

lemma ring_reset_empty: "ring_events ring_reset = []" "count ring_reset = 0"
  by (simp_all add: ring_events_def ring_reset_def)

lemma ring_inv_init: "ring_inv r \<Longrightarrow> ring_inv (event_ring_init r)"
  by (simp add: ring_inv_def event_ring_init_def EVENT_RING_SLOTS_def)

lemma ring_events_init: "ring_events (event_ring_init r) = []"
  by (simp add: ring_events_def event_ring_init_def)

lemma ring_events_pop:
  assumes "ring_inv r" and "count r \<noteq> 0"
  shows "ring_events r = slot_event (slot r ! head r) # ring_events (ring_pop r)"
proof -
  obtain n where n: "count r = Suc n" using assms(2) not0_implies_Suc by blast
  have h: "head r mod EVENT_RING_SLOTS = head r"
    using assms(1) by (simp add: ring_inv_def)
  have "ring_events (ring_pop r) =
      map (\<lambda>i. slot_event (slot r ! ((head r + Suc i) mod EVENT_RING_SLOTS))) [0..<n]"
    by (simp add: ring_events_def ring_pop_def n mod_add_left_eq)
  then show ?thesis
    by (simp add: ring_events_def n h upt_conv_Cons map_Suc_upt [symmetric] del: upt_Suc)
qed

lemma ring_inv_pop: "ring_inv r \<Longrightarrow> count r \<noteq> 0 \<Longrightarrow> ring_inv (ring_pop r)"
  by (cases "count r") (auto simp: ring_inv_def ring_pop_def mod_simps EVENT_RING_SLOTS_def)

lemma drain_loop_spec:
  assumes "ring_inv r" and "length out \<le> cap"
  shows "ring_inv (fst (drain_loop cap out r))
    \<and> snd (drain_loop cap out r) = out @ concat (map event_bytes
         (take (fit (cap - length out) (ring_events r)) (ring_events r)))
    \<and> ring_events (fst (drain_loop cap out r))
         = drop (fit (cap - length out) (ring_events r)) (ring_events r)"
  using assms
proof (induction cap out r rule: drain_loop.induct)
  case (1 cap out r)
  let ?s = "slot r ! head r"
  show ?case
  proof (cases "count r = 0")
    case True
    then have "ring_events r = []" by (simp add: ring_events_def)
    with 1(2) True show ?thesis by (simp add: drain_loop.simps [of cap out r])
  next
    case False
    have ok: "slot_ok ?s" using ring_inv_slot [OF 1(2), of 0] 1(2) by (simp add: ring_inv_def)
    have len: "length (event_bytes (slot_event ?s)) = EVENT_HDR_BYTES + unat (slot_len ?s)"
      using ok by (simp add: slot_ok_def slot_event_def)
    note ev = ring_events_pop [OF 1(2) False]
    show ?thesis
    proof (cases "length out + (EVENT_HDR_BYTES + unat (slot_len ?s)) > cap")
      case True
      then have "fit (cap - length out) (ring_events r) = 0"
        using 1(3) by (simp add: ev len del: length_event_bytes)
      with 1(2) True False show ?thesis by (simp add: drain_loop.simps [of cap out r] Let_def)
    next
      case fits: False
      have lb: "length (slot_bytes ?s) = EVENT_HDR_BYTES + unat (slot_len ?s)"
        using len slot_bytes_event [OF ok] by simp
      have step: "drain_loop cap out r = drain_loop cap (out @ slot_bytes ?s) (ring_pop r)"
        using False fits by (simp add: drain_loop.simps [of cap out r] Let_def)
      have IH: "ring_inv (fst (drain_loop cap (out @ slot_bytes ?s) (ring_pop r)))
        \<and> snd (drain_loop cap (out @ slot_bytes ?s) (ring_pop r)) =
            (out @ slot_bytes ?s) @ concat (map event_bytes (take
              (fit (cap - length (out @ slot_bytes ?s)) (ring_events (ring_pop r)))
              (ring_events (ring_pop r))))
        \<and> ring_events (fst (drain_loop cap (out @ slot_bytes ?s) (ring_pop r))) =
            drop (fit (cap - length (out @ slot_bytes ?s)) (ring_events (ring_pop r)))
              (ring_events (ring_pop r))"
        by (rule 1(1) [OF False refl refl])
           (use fits lb ring_inv_pop [OF 1(2) False] in auto)
      have fit: "fit (cap - length out) (ring_events r)
          = Suc (fit (cap - length (out @ slot_bytes ?s)) (ring_events (ring_pop r)))"
        using fits len lb by (simp add: ev del: length_event_bytes)
      from IH show ?thesis
        by (simp add: step fit) (simp add: ev slot_bytes_event [OF ok])
    qed
  qed
qed

lemma ring_tail_distinct:
  assumes "ring_inv r" and "count r < EVENT_RING_SLOTS" and "i < count r"
  shows "(head r + i) mod EVENT_RING_SLOTS \<noteq> tail r"
proof
  assume "(head r + i) mod EVENT_RING_SLOTS = tail r"
  then have "(head r + count r) mod EVENT_RING_SLOTS = (head r + i) mod EVENT_RING_SLOTS"
    using assms(1) by (simp add: ring_inv_def)
  then have "EVENT_RING_SLOTS dvd (count r - i)"
    using mod_eq_dvd_iff_nat [of "head r + i" "head r + count r" EVENT_RING_SLOTS] assms(3) by simp
  with assms(2,3) show False by (auto dest: dvd_imp_le)
qed

text \<open>The event a push appends: the payload clamped to the slot's sixteen bytes.\<close>

definition push_event :: "byte \<Rightarrow> byte list option \<Rightarrow> byte \<Rightarrow> event_ring \<Rightarrow> event" where
  "push_event op pl len r =
     (let n = min (unat len) EVENT_PAYLOAD_MAX
      in (op, case pl of Some p \<Rightarrow> take n p | None \<Rightarrow> take n (payload (slot r ! tail r))))"

definition payload_given :: "byte list option \<Rightarrow> byte \<Rightarrow> bool" where
  "payload_given pl len \<longleftrightarrow>
     (case pl of None \<Rightarrow> True | Some p \<Rightarrow> min (unat len) EVENT_PAYLOAD_MAX \<le> length p)"

lemma event_ring_push_full:
  "count r \<ge> EVENT_RING_SLOTS \<Longrightarrow> event_ring_push attn op pl len r hw = (r, attn hw, 0)"
  by (simp add: event_ring_push_def Let_def)

lemma clamp_unat:
  "unat (if unat len > EVENT_PAYLOAD_MAX then word_of_nat EVENT_PAYLOAD_MAX else len :: byte)
     = min (unat len) EVENT_PAYLOAD_MAX"
  by (auto simp: unat_small)

lemma event_ring_push_room:
  assumes inv: "ring_inv r" and room: "count r < EVENT_RING_SLOTS" and pl: "payload_given pl len"
    and push: "event_ring_push attn op pl len r hw = (r', hw', rv)"
  shows "ring_inv r' \<and> ring_events r' = ring_events r @ [push_event op pl len r]
    \<and> hw' = attn hw \<and> rv = 1"
proof -
  define n :: byte where
    "n = (if unat len > EVENT_PAYLOAD_MAX then word_of_nat EVENT_PAYLOAD_MAX else len)"
  define s where "s = slot r ! tail r"
  define s' where "s' = s\<lparr>evt_opcode := op, slot_len := n,
     payload := (case pl of Some p \<Rightarrow> if unat n > 0 then blit (payload s) (take (unat n) p)
                                       else payload s | None \<Rightarrow> payload s)\<rparr>"
  have n: "unat n = min (unat len) EVENT_PAYLOAD_MAX" unfolding n_def by (rule clamp_unat)
  have t: "tail r < length (slot r)" using inv by (simp add: ring_inv_def EVENT_RING_SLOTS_def)
  have s: "slot_ok s" using inv t by (simp add: s_def ring_inv_def list_all_length)
  have r': "r' = r\<lparr>slot := (slot r)[tail r := s'],
      tail := (tail r + 1) mod EVENT_RING_SLOTS, count := count r + 1\<rparr>" "hw' = attn hw" "rv = 1"
    using push room unfolding s'_def s_def n_def event_ring_push_def Let_def by auto
  have s'_ok: "slot_ok s'"
    using s n pl by (auto simp: slot_ok_def s'_def payload_given_def split: option.splits)
  have ev: "slot_event s' = push_event op pl len r"
    using n pl s by (auto simp: slot_event_def s'_def push_event_def Let_def payload_given_def
        blit_def s_def slot_ok_def split: option.splits)
  have old: "map (\<lambda>i. slot_event ((slot r)[tail r := s'] ! ((head r + i) mod EVENT_RING_SLOTS)))
      [0..<count r] = ring_events r"
    using ring_tail_distinct [OF inv room]
    by (auto simp: ring_events_def intro!: map_cong) (metis nth_list_update_neq)
  have "(head r + count r) mod EVENT_RING_SLOTS = tail r" using inv by (simp add: ring_inv_def)
  then have "ring_events r' = ring_events r @ [push_event op pl len r]"
    using old t by (simp add: r' ring_events_def ev)
  moreover have "ring_inv r'"
    using inv room s'_ok t
    by (simp add: r' ring_inv_def list_all_length nth_list_update mod_simps)
  ultimately show ?thesis by (simp add: r')
qed

lemma ring_enq_spec:
  assumes "ring_inv r" and "event_ok e"
  shows "ring_inv (ring_enq e r) \<and> ring_events (ring_enq e r) =
    (if length (ring_events r) < EVENT_RING_SLOTS then ring_events r @ [e] else ring_events r)"
proof (cases "count r < EVENT_RING_SLOTS")
  case True
  let ?len = "word_of_nat (length (snd e)) :: byte"
  have len: "unat ?len = length (snd e)"
    using assms(2) by (simp add: event_ok_def unat_small)
  have "payload_given (Some (snd e)) ?len" by (simp add: payload_given_def len)
  moreover have "push_event (fst e) (Some (snd e)) ?len r = e"
    using assms(2) by (simp add: push_event_def len event_ok_def)
  moreover obtain r' hw' rv where
    push: "event_ring_push id (fst e) (Some (snd e)) ?len r () = (r', hw', rv)"
    by (metis prod_cases3)
  ultimately show ?thesis
    using event_ring_push_room [OF assms(1) True _ push] True by (simp add: ring_enq_def push)
next
  case False
  then show ?thesis using assms(1) by (simp add: ring_enq_def event_ring_push_full)
qed

lemma ring_events_ok: "ring_inv r \<Longrightarrow> \<forall>e \<in> set (ring_events r). event_ok e"
  by (auto simp: ring_events_def intro!: slot_ok_event ring_inv_slot)

lemma event_ring_drain_spec:
  assumes "ring_inv r"
  shows "ring_inv (fst (event_ring_drain cap r))"
    and "snd (event_ring_drain cap r)
      = concat (map event_bytes (take (fit cap (ring_events r)) (ring_events r)))"
    and "ring_events (fst (event_ring_drain cap r)) = drop (fit cap (ring_events r)) (ring_events r)"
  using drain_loop_spec [OF assms, of "[]" cap] by (simp_all add: event_ring_drain_def)

interpretation evq: bounded_event_queue ring_inv ring_events EVENT_RING_SLOTS event_ok
    ring_enq event_ring_drain
  by unfold_locales
     (auto simp: ring_enq_spec ring_events_ok event_ring_drain_spec)

section \<open>The packed reply decodes to the events\<close>

lemma parse_events_Nil: "parse_events [] = []"
  by (simp add: parse_events.simps EVENT_HDR_BYTES_def)

lemma parse_event_bytes:
  assumes "event_ok e"
  shows "parse_events (event_bytes e @ bs) = e # parse_events bs"
proof -
  have "unat (word_of_nat (length (snd e)) :: byte) = length (snd e)"
    using assms by (simp add: event_ok_def unat_small)
  then show ?thesis
    by (subst parse_events.simps)
       (simp add: event_bytes_def EVENT_HDR_BYTES_def Let_def)
qed

lemma parse_events_concat:
  "\<forall>e \<in> set es. event_ok e \<Longrightarrow> parse_events (concat (map event_bytes es)) = es"
  by (induction es) (auto simp: parse_events_Nil parse_event_bytes)

lemma fit_le: "fit cap es \<le> length es"
  by (induction es arbitrary: cap) auto

lemma fit_bytes: "length (concat (map event_bytes (take (fit cap es) es))) \<le> cap"
proof (induction es arbitrary: cap)
  case (Cons e es)
  show ?case using Cons.IH [of "cap - length (event_bytes e)"]
    by (auto simp del: length_event_bytes)
qed simp

lemma fit_maximal:
  "fit cap es < length es \<Longrightarrow>
   cap < length (concat (map event_bytes (take (Suc (fit cap es)) es)))"
proof (induction es arbitrary: cap)
  case (Cons e es)
  show ?case using Cons.prems Cons.IH [of "cap - length (event_bytes e)"]
    by (auto simp del: length_event_bytes split: if_splits)
qed simp

section \<open>Properties\<close>

text \<open>
  C35: over any sequence of pushes and drains from an empty ring, the bytes handed to the host
  followed by what is still queued are exactly the encodings of the accepted events, in order:
  no event that \<open>event_ring_push\<close> accepted is lost, duplicated or reordered.
\<close>

theorem event_ring_fifo:
  assumes "list_all (case_sum event_ok (\<lambda>_. True)) ops"
    and "queue_run ring_events EVENT_RING_SLOTS ring_enq event_ring_drain ring_reset ops
           = (r, acc, outs)"
  shows "ring_inv r \<and> concat outs @ concat (map event_bytes (ring_events r))
           = concat (map event_bytes acc)"
  using evq.run_fifo [OF ring_inv_reset assms] by (simp add: ring_reset_empty)

theorem event_ring_fifo_witness:
  "\<exists>r acc outs. queue_run ring_events EVENT_RING_SLOTS ring_enq event_ring_drain ring_reset
      [Inl (0x19, []), Inl (0x1A, []), Inr 2] = (r, acc, outs)
    \<and> concat outs @ concat (map event_bytes (ring_events r)) = concat (map event_bytes acc)"
proof -
  let ?ops = "[Inl (0x19, []), Inl (0x1A, []), Inr 2] :: (event + nat) list"
  obtain r acc outs where run:
    "queue_run ring_events EVENT_RING_SLOTS ring_enq event_ring_drain ring_reset ?ops
       = (r, acc, outs)" by (metis prod_cases3)
  have "list_all (case_sum event_ok (\<lambda>_. True)) ?ops" by (simp add: event_ok_def)
  from event_ring_fifo [OF this run] run show ?thesis by blast
qed

text \<open>
  A push never disturbs queued events: with a free slot the event (payload clamped to the
  slot size) is appended and 1 is returned; a full ring keeps its contents, drops the new event
  and returns 0; the attention pulse is raised either way.
\<close>

theorem event_ring_push_refines:
  assumes "ring_inv r" and "payload_given pl len"
    and "event_ring_push attn op pl len r hw = (r', hw', rv)"
  shows "ring_inv r' \<and> hw' = attn hw \<and>
    (if count r < EVENT_RING_SLOTS
     then ring_events r' = ring_events r @ [push_event op pl len r] \<and> rv = 1
     else ring_events r' = ring_events r \<and> rv = 0)"
  using event_ring_push_room [OF assms(1) _ assms(2,3)] assms(1,3)
  by (cases "count r < EVENT_RING_SLOTS") (auto simp: event_ring_push_full)

theorem event_ring_push_refines_witness:
  "\<exists>r' hw' rv. event_ring_push Suc 0x19 None 0 ring_reset 0 = (r', hw', rv)
    \<and> ring_events r' = [(0x19, [])] \<and> hw' = 1 \<and> rv = 1"
proof -
  obtain r' hw' rv where p: "event_ring_push Suc 0x19 None 0 ring_reset 0 = (r', hw', rv)"
    by (metis prod_cases3)
  have "payload_given None 0" by (simp add: payload_given_def)
  from event_ring_push_refines [OF ring_inv_reset this p] show ?thesis
    by (simp add: p ring_reset_empty EVENT_RING_SLOTS_def push_event_def)
qed

text \<open>
  a drain never writes past the caller's buffer, takes the longest prefix of the queue whose
  entries fit whole, leaves the rest queued, and what it wrote parses back to exactly the events
  it removed.
\<close>

theorem event_ring_drain_roundtrip:
  assumes "ring_inv r"
  shows "let (r', out) = event_ring_drain cap r; k = fit cap (ring_events r)
         in length out \<le> cap \<and> ring_inv r' \<and> parse_events out = take k (ring_events r)
            \<and> ring_events r' = drop k (ring_events r)
            \<and> (k < count r \<longrightarrow>
                 cap < length (concat (map event_bytes (take (Suc k) (ring_events r)))))"
proof -
  have "\<forall>e \<in> set (take (fit cap (ring_events r)) (ring_events r)). event_ok e"
    using ring_events_ok [OF assms] by (auto dest: in_set_takeD)
  then show ?thesis
    using event_ring_drain_spec [OF assms, of cap] fit_bytes [of cap "ring_events r"]
      fit_maximal [of cap "ring_events r"]
    by (cases "event_ring_drain cap r") (simp add: Let_def parse_events_concat)
qed

theorem event_ring_drain_roundtrip_witness:
  "parse_events (snd (event_ring_drain 64 (ring_enq (0x1A, [7]) ring_reset))) = [(0x1A, [7])]"
proof -
  have ok: "event_ok (0x1A, [7])" by (simp add: event_ok_def EVENT_PAYLOAD_MAX_def)
  have ev: "ring_events (ring_enq (0x1A, [7]) ring_reset) = [(0x1A, [7])]"
    using ring_enq_spec [OF ring_inv_reset ok]
    by (simp add: ring_reset_empty EVENT_RING_SLOTS_def)
  have inv: "ring_inv (ring_enq (0x1A, [7]) ring_reset)"
    using ring_enq_spec [OF ring_inv_reset ok] by blast
  from event_ring_drain_roundtrip [OF inv, of 64] show ?thesis
    by (simp add: ev Let_def split_beta EVENT_HDR_BYTES_def)
qed

end
