(* ===== verification/Fw_State.thy ===== *)
theory Fw_State
  imports Hal Event_Ring
begin

text \<open>
  The firmware's state: every file-static variable of the portable core, grouped as the source
  files group them.
  \<^item> \<open>worker_job\<close>: the single job slot of \<^verbatim>\<open>src/worker.c\<close>;
  \<^item> \<open>retry_latch\<close>: the idempotency latch of \<^verbatim>\<open>src/protocol.c\<close>;
  \<^item> \<open>sock_send_cache\<close>, \<open>sock_recv_cache\<close>: the replay caches of \<^verbatim>\<open>src/protocol_sockets.c\<close>;
  \<^item> \<open>fw\<close>: all of it, with the CRC table, the counters, the SPI1 flags, the event ring and the
    hardware state.
\<close>

section \<open>The worker's job slot\<close>

datatype worker_state = WORKER_IDLE | WORKER_QUEUED | WORKER_RUNNING | WORKER_DONE | WORKER_ERR

text \<open>The cleared \<open>job_cmd\<close> is \<open>0u\<close>, the opcode of \<open>PING\<close>, which is never routed to the worker.\<close>

record worker_job =
  state :: worker_state
  job_cmd :: cmd
  result :: "byte list"
  result_len :: nat
  err :: int
  req :: "byte list"
  req_len :: nat

section \<open>The retry latch\<close>

record retry_latch =
  valid :: bool
  latch_cmd :: cmd
  latch_seq :: byte
  latch_status :: resp
  latch_data :: "byte list"

definition RETRY_LATCH_DATA :: nat where "RETRY_LATCH_DATA = 32"

section \<open>The socket replay caches\<close>

record sock_send_cache =
  send_cached :: bool
  send_seq :: byte
  send_status :: resp
  send_reply :: "byte list"

record sock_recv_cache =
  wk_cached :: bool
  wk_seq :: byte
  wk_handle :: u16
  wk_max_len :: u16
  wk_status :: resp
  wk_reply_len :: nat
  wk_reply :: "byte list"
  recv_job_seq :: byte
  last_recv_seq :: byte
  last_recv_handle :: u16
  last_recv_max_len :: u16

section \<open>The whole state\<close>

record 'h fw =
  crc :: crc_state
  g_last_error :: resp
  g_frames_ok :: u32
  g_frames_err :: u32
  g_retry_latch_hits :: u32
  g_worker_execs :: u32
  s_current_req_seq :: byte
  s_retry_latch :: retry_latch
  job :: worker_job
  sock_send :: sock_send_cache
  sock_recv :: sock_recv_cache
  g_configured :: bool
  g_cs_held :: bool
  g_stream_bytes :: u32
  ring :: event_ring
  hw :: 'h

type_synonym 'h handler = "'h platform \<Rightarrow> byte list \<Rightarrow> nat \<Rightarrow> 'h fw \<Rightarrow> 'h fw \<times> resp \<times> byte list"

text \<open>Calling a driver function on the hardware part of the state.\<close>

definition hw_void :: "('h \<Rightarrow> 'h) \<Rightarrow> 'h fw \<Rightarrow> 'h fw" where
  "hw_void f s = s\<lparr>hw := f (hw s)\<rparr>"

definition hw_call :: "('h \<Rightarrow> 'h \<times> 'a) \<Rightarrow> 'h fw \<Rightarrow> 'h fw \<times> 'a" where
  "hw_call f s = (case f (hw s) of (h, x) \<Rightarrow> (s\<lparr>hw := h\<rparr>, x))"

text \<open>The state out of reset: C zero-initialises statics, \<open>g_last_error\<close> starts at \<open>RESP_OK\<close>.\<close>

definition job_reset :: worker_job where
  "job_reset = \<lparr>state = WORKER_IDLE, job_cmd = CMD_PING, result = replicate MAX_PAYLOAD 0,
     result_len = 0, err = 0, req = replicate MAX_PAYLOAD 0, req_len = 0\<rparr>"

definition fw_reset :: "'h platform \<Rightarrow> 'h \<Rightarrow> 'h fw" where
  "fw_reset P h = \<lparr>crc = crc_reset, g_last_error = RESP_OK, g_frames_ok = 0, g_frames_err = 0,
     g_retry_latch_hits = 0, g_worker_execs = 0, s_current_req_seq = 0,
     s_retry_latch = \<lparr>valid = False, latch_cmd = CMD_PING, latch_seq = 0, latch_status = RESP_OK,
       latch_data = []\<rparr>,
     job = job_reset,
     sock_send = \<lparr>send_cached = False, send_seq = 0, send_status = RESP_OK, send_reply = [0, 0]\<rparr>,
     sock_recv = \<lparr>wk_cached = False, wk_seq = 0, wk_handle = 0, wk_max_len = 0, wk_status = RESP_OK,
       wk_reply_len = 0, wk_reply = replicate (CC3501E_REPLY_DATA_MAX (WIRE_CRC P)) 0,
       recv_job_seq = 0, last_recv_seq = 0, last_recv_handle = 0, last_recv_max_len = 0\<rparr>,
     g_configured = False, g_cs_held = False, g_stream_bytes = 0, ring = ring_reset, hw = h\<rparr>"

lemma fst_hw_call: "fst (hw_call f s) = s\<lparr>hw := fst (f (hw s))\<rparr>"
  by (simp add: hw_call_def split: prod.split)

lemma snd_hw_call [simp]: "snd (hw_call f s) = snd (f (hw s))"
  by (simp add: hw_call_def split: prod.split)

lemma fw_reset_counters:
  "g_frames_ok (fw_reset P h) = 0" "g_frames_err (fw_reset P h) = 0"
  "g_worker_execs (fw_reset P h) = 0" "g_retry_latch_hits (fw_reset P h) = 0"
  by (simp_all add: fw_reset_def)

end
