(* ===== verification/Worker.thy ===== *)
theory Worker
  imports Fw_State
begin

text \<open>
  \<^verbatim>\<open>src/worker.c\<close>: the single-slot job queue that moves blocking driver calls out of the
  transport's interrupt, with the completion hooks of \<^verbatim>\<open>src/protocol_sockets.c\<close> it calls.
  The job body (the \<open>switch\<close> of \<open>worker_execute\<close>) is split by opcode family;
  \<open>worker_execute\<close> is the body followed by the publication of its result.
\<close>

section \<open>Completion hooks\<close>

definition sock_worker_hw_err_to_resp :: "int \<Rightarrow> resp" where
  "sock_worker_hw_err_to_resp rv =
     (if rv = CC3501E_HW_ERR_NOTIMPL then RESP_ERR_NOT_READY
      else if rv = CC3501E_HW_ERR_INVAL then RESP_ERR_INVALID
      else if rv = CC3501E_HW_ERR_STATE then RESP_ERR_STATE
      else RESP_ERR_RADIO)"

definition protocol_sock_send_on_worker_complete ::
    "byte \<Rightarrow> int \<Rightarrow> byte list \<Rightarrow> sock_send_cache \<Rightarrow> sock_send_cache" where
  "protocol_sock_send_on_worker_complete sq rv dat c =
     (if rv = CC3501E_HW_OK then
        if length dat \<noteq> 2 then c
        else c\<lparr>send_reply := dat, send_status := RESP_OK, send_seq := sq, send_cached := True\<rparr>
      else c\<lparr>send_status := sock_worker_hw_err_to_resp rv, send_seq := sq, send_cached := True\<rparr>)"

definition protocol_sock_recv_note_submit :: "byte \<Rightarrow> sock_recv_cache \<Rightarrow> sock_recv_cache" where
  "protocol_sock_recv_note_submit sq c = c\<lparr>recv_job_seq := sq\<rparr>"

definition protocol_sock_recv_worker_invalidate :: "sock_recv_cache \<Rightarrow> sock_recv_cache" where
  "protocol_sock_recv_worker_invalidate c = c\<lparr>wk_cached := False\<rparr>"

definition protocol_sock_recv_worker_copy ::
    "byte list \<Rightarrow> sock_recv_cache \<Rightarrow> sock_recv_cache" where
  "protocol_sock_recv_worker_copy dat c =
     (if length dat > length (wk_reply c) then c
      else c\<lparr>wk_reply := blit (wk_reply c) dat\<rparr>)"

definition protocol_sock_recv_worker_publish ::
    "u16 \<Rightarrow> u16 \<Rightarrow> int \<Rightarrow> nat \<Rightarrow> sock_recv_cache \<Rightarrow> sock_recv_cache" where
  "protocol_sock_recv_worker_publish handle max_len rv len c =
     (let c = c\<lparr>wk_seq := recv_job_seq c, wk_handle := handle, wk_max_len := max_len\<rparr>
      in if rv = CC3501E_HW_OK \<and> len > length (wk_reply c)
         then c\<lparr>wk_reply_len := 0, wk_status := RESP_ERR_NO_MEM, wk_cached := True\<rparr>
         else if rv = CC3501E_HW_OK
         then c\<lparr>wk_reply_len := len, wk_status := RESP_OK, wk_cached := True\<rparr>
         else c\<lparr>wk_reply_len := 0, wk_status := sock_worker_hw_err_to_resp rv, wk_cached := True\<rparr>)"

section \<open>The job body\<close>

text \<open>
  Each case returns the driver's code and the reply bytes; a case that fails leaves the length at
  zero.  \<open>rq\<close> is the staged request \<open>job.req\<close>.
\<close>

definition no_data :: "'h \<times> int \<Rightarrow> 'h \<times> int \<times> byte list" where
  "no_data r = (fst r, snd r, [])"

definition on_ok :: "('o \<Rightarrow> byte list) \<Rightarrow> 'h \<times> int \<times> 'o \<Rightarrow> 'h \<times> int \<times> byte list" where
  "on_ok f r = (case r of (h, rv, x) \<Rightarrow> (h, rv, if rv = CC3501E_HW_OK then f x else []))"

definition exec_meta :: "'h platform \<Rightarrow> 'h \<Rightarrow> 'h \<times> int \<times> byte list" where
  "exec_meta P h = on_ok (out_buf 6) (hw_get_mac (sys P) h)"

definition exec_wifi_query :: "'h platform \<Rightarrow> cmd \<Rightarrow> 'h \<Rightarrow> 'h \<times> int \<times> byte list" where
  "exec_wifi_query P c h =
     (case c of
        CMD_WIFI_GET_RSSI \<Rightarrow> on_ok (\<lambda>r. [r]) (hw_wifi_get_rssi (wifi P) h)
      | _ \<Rightarrow> hw_wifi_scan (wifi P) (CC3501E_REPLY_DATA_MAX (WIRE_CRC P)) h)"

definition exec_wifi_link :: "'h platform \<Rightarrow> cmd \<Rightarrow> byte list \<Rightarrow> 'h \<Rightarrow> 'h \<times> int \<times> byte list" where
  "exec_wifi_link P c rq h =
     (case c of
        CMD_WIFI_DISCONNECT \<Rightarrow> no_data (hw_wifi_disconnect (wifi P) h)
      | CMD_WIFI_AP_STOP \<Rightarrow> no_data (hw_wifi_ap_stop (wifi P) h)
      | _ \<Rightarrow>
        (case wifi_connect_of P rq of (ssid_len, psk_len, security) \<Rightarrow>
           let ssid = take (unat ssid_len) (drop (sizeof_wifi_connect P) rq);
               psk = take (unat psk_len) (drop (sizeof_wifi_connect P + unat ssid_len) rq)
           in no_data
                (if c = CMD_WIFI_AP_START then hw_wifi_ap_start (wifi P) ssid psk security h
                 else hw_wifi_connect_sta (wifi P) ssid psk security h)))"

definition exec_ble ::
    "'h platform \<Rightarrow> cmd \<Rightarrow> byte list \<Rightarrow> nat \<Rightarrow> 'h \<Rightarrow> 'h \<times> int \<times> byte list" where
  "exec_ble P c rq rq_len h =
     (case c of
        CMD_BLE_ENABLE \<Rightarrow> no_data (hw_ble_enable (ble P) h)
      | CMD_BLE_SCAN_START \<Rightarrow> hw_ble_scan (ble P) (CC3501E_REPLY_DATA_MAX (WIRE_CRC P)) h
      | CMD_BLE_ADV_START \<Rightarrow>
          no_data (hw_ble_adv_start (ble P) (rq ! 0) (get_le16 rq 2) (get_le16 rq 4)
                     (take (unat (rq ! 6)) (drop 7 rq)) h)
      | CMD_BLE_ADV_STOP \<Rightarrow> no_data (hw_ble_adv_stop (ble P) h)
      | CMD_BLE_SCAN_STOP \<Rightarrow> no_data (hw_ble_scan_stop (ble P) h)
      | CMD_BLE_DISCONNECT \<Rightarrow> no_data (hw_ble_disconnect (ble P) h)
      | CMD_BLE_DISABLE \<Rightarrow> no_data (hw_ble_disable (ble P) h)
      | CMD_BLE_CONNECT \<Rightarrow> no_data (hw_ble_connect (ble P) (rq ! 0) (take 6 (drop 1 rq)) h)
      | CMD_BLE_GATT_REGISTER \<Rightarrow>
          on_ok (\<lambda>handles. [0, word_of_nat (length handles)] @ concat (map put_le16 handles))
            (hw_ble_gatt_register (ble P) (take rq_len rq) BLE_GATT_MAX_CHARS h)
      | CMD_BLE_GATT_NOTIFY \<Rightarrow>
          no_data (hw_ble_gatt_notify (ble P) (get_le16 rq 0) (take (rq_len - 2) (drop 2 rq)) h)
      | CMD_BLE_GATT_WRITE \<Rightarrow>
          no_data (hw_ble_gatt_write (ble P) (get_le16 rq 0) (take (rq_len - 2) (drop 2 rq)) h)
      | _ \<Rightarrow>
          on_ok (\<lambda>out. out)
            (hw_ble_gatt_read (ble P) (get_le16 rq 0)
               (word_of_nat (CC3501E_REPLY_DATA_MAX (WIRE_CRC P))) h))"

text \<open>The socket cases; \<open>SOCK_RECV\<close> builds the 24-byte response header in front of the data.\<close>

definition WK_SOCK_RECV_HDR :: nat where "WK_SOCK_RECV_HDR = 24"

definition wk_recv_cap :: "'h platform \<Rightarrow> u16 \<Rightarrow> u16" where
  "wk_recv_cap P max_len =
     (let data_cap = word_of_nat (CC3501E_REPLY_DATA_MAX (WIRE_CRC P) - WK_SOCK_RECV_HDR)
      in if max_len \<noteq> 0 \<and> max_len < data_cap then max_len else data_cap)"

definition wk_recv_reply :: "'h platform \<Rightarrow> byte list \<times> byte list \<times> u16 \<Rightarrow> byte list" where
  "wk_recv_reply P = (\<lambda>(dat, from_addr, from_port).
     [SOCK_FAMILY_IPV4 P, 0] @ put_le16 from_port @ out_buf 4 from_addr @ replicate 12 0
       @ put_le16 (word_of_nat (length dat)) @ [0, 0] @ dat)"

definition exec_sock :: "'h platform \<Rightarrow> cmd \<Rightarrow> byte list \<Rightarrow> 'h \<Rightarrow> 'h \<times> int \<times> byte list" where
  "exec_sock P c rq h =
     (case c of
        CMD_SOCK_OPEN \<Rightarrow>
          on_ok (\<lambda>handle. put_le16 handle @ [0, 0]) (hw_sock_open (sock P) (rq ! 0) (rq ! 1) (rq ! 2) h)
      | CMD_SOCK_CONNECT \<Rightarrow>
          no_data (hw_sock_connect (sock P) (get_le16 rq 0) (rq ! 4) (get_le16 rq 6)
                     (take 4 (drop 8 rq)) h)
      | CMD_SOCK_SEND \<Rightarrow>
          on_ok put_le16 (hw_sock_send (sock P) (get_le16 rq 0) (rq ! 2)
                            (take (unat (get_le16 rq 4)) (drop 8 rq)) h)
      | CMD_SOCK_RECV \<Rightarrow>
          on_ok (wk_recv_reply P)
            (hw_sock_recv (sock P) (get_le16 rq 0) (get_le16 rq 2) (wk_recv_cap P (get_le16 rq 2)) h)
      | CMD_SOCK_CLOSE \<Rightarrow> no_data (hw_sock_close (sock P) (get_le16 rq 0) h)
      | CMD_SOCK_BIND \<Rightarrow>
          no_data (hw_sock_bind (sock P) (get_le16 rq 0) (rq ! 4) (get_le16 rq 6)
                     (take 4 (drop 8 rq)) h)
      | _ \<Rightarrow> no_data (hw_sock_listen (sock P) (get_le16 rq 0) (rq ! 2) h))"

definition exec_spi1 :: "'h platform \<Rightarrow> cmd \<Rightarrow> byte list \<Rightarrow> 'h \<Rightarrow> 'h \<times> int \<times> byte list" where
  "exec_spi1 P c rq h =
     (case c of
        CMD_SPI1_CONFIGURE \<Rightarrow>
          on_ok (\<lambda>freq. put_le32 freq @ put_le16 (word_of_nat (CC3501E_SPI1_MAX_XFER_V4 (WIRE_CRC P)))
                          @ [rq ! 5, 0])
            (hw_spi1_configure (io P) (get_le32 rq 0) (rq ! 4) (rq ! 5) (rq ! 6) h)
      | CMD_SPI1_TRANSFER \<Rightarrow>
          (let xfer_len = get_le16 rq 0; flags = rq ! 2;
               no_rx = flags AND SPI1_XFER_NO_RX P \<noteq> 0;
               no_tx = flags AND SPI1_XFER_NO_TX P \<noteq> 0;
               cs_hold = flags AND SPI1_XFER_CS_HOLD P \<noteq> 0
           in on_ok (\<lambda>rx. put_le16 (if no_rx then 0 else xfer_len)
                            @ [if cs_hold then SPI1_XFER_CS_HOLD P else 0, rq ! 3]
                            @ (if no_rx then [] else out_buf (unat xfer_len) rx))
                (hw_spi1_transfer (io P)
                   (if no_tx then None else Some (take (unat xfer_len) (drop 8 rq)))
                   (\<not> no_rx) xfer_len (rq ! 4) cs_hold h))
      | _ \<Rightarrow> no_data (hw_spi1_release (io P) h))"

definition worker_body ::
    "'h platform \<Rightarrow> cmd \<Rightarrow> byte list \<Rightarrow> nat \<Rightarrow> 'h \<Rightarrow> 'h \<times> int \<times> byte list" where
  "worker_body P c rq rq_len h =
     (if c = CMD_GET_MAC then exec_meta P h
      else if c \<in> {CMD_WIFI_GET_RSSI, CMD_WIFI_SCAN_START} then exec_wifi_query P c h
      else if c \<in> {CMD_WIFI_CONNECT_STA, CMD_WIFI_AP_START, CMD_WIFI_DISCONNECT, CMD_WIFI_AP_STOP}
      then exec_wifi_link P c rq h
      else if c \<in> {CMD_BLE_ENABLE, CMD_BLE_SCAN_START, CMD_BLE_ADV_START, CMD_BLE_ADV_STOP,
                   CMD_BLE_SCAN_STOP, CMD_BLE_DISCONNECT, CMD_BLE_DISABLE, CMD_BLE_CONNECT,
                   CMD_BLE_GATT_REGISTER, CMD_BLE_GATT_NOTIFY, CMD_BLE_GATT_WRITE,
                   CMD_BLE_GATT_READ}
      then exec_ble P c rq rq_len h
      else if c \<in> {CMD_SOCK_OPEN, CMD_SOCK_CONNECT, CMD_SOCK_SEND, CMD_SOCK_RECV, CMD_SOCK_CLOSE,
                   CMD_SOCK_BIND, CMD_SOCK_LISTEN}
      then exec_sock P c rq h
      else if c \<in> {CMD_SPI1_CONFIGURE, CMD_SPI1_TRANSFER, CMD_SPI1_RELEASE}
      then exec_spi1 P c rq h
      else (h, CC3501E_HW_ERR_NOTIMPL, []))"

section \<open>Publishing the result\<close>

definition worker_publish :: "cmd \<Rightarrow> int \<Rightarrow> byte list \<Rightarrow> 'h fw \<Rightarrow> 'h fw" where
  "worker_publish c rv bytes s =
     (let buf = take (length (result (job s))) bytes; len = length buf; rq = req (job s);
          s1 = (if c = CMD_SOCK_RECV
                then s\<lparr>sock_recv := protocol_sock_recv_worker_invalidate (sock_recv s)\<rparr> else s);
          s2 = (if rv = CC3501E_HW_OK
                then s1\<lparr>job := (job s1)\<lparr>result := blit (result (job s1)) buf\<rparr>\<rparr> else s1);
          s3 = (if c = CMD_SOCK_RECV \<and> rv = CC3501E_HW_OK
                then s2\<lparr>sock_recv := protocol_sock_recv_worker_copy buf (sock_recv s2)\<rparr> else s2);
          s4 = (if c = CMD_SOCK_SEND
                then s3\<lparr>sock_send := protocol_sock_send_on_worker_complete (rq ! 3) rv buf (sock_send s3)\<rparr>
                else s3);
          s5 = (if c = CMD_SOCK_RECV
                then s4\<lparr>sock_recv := protocol_sock_recv_worker_publish (get_le16 rq 0) (get_le16 rq 2)
                                      rv len (sock_recv s4)\<rparr>
                else s4)
      in if rv = CC3501E_HW_OK
         then s5\<lparr>job := (job s5)\<lparr>result_len := len, err := 0, state := WORKER_DONE\<rparr>\<rparr>
         else s5\<lparr>job := (job s5)\<lparr>result_len := 0, err := to_int8 rv, state := WORKER_ERR\<rparr>\<rparr>)"

definition worker_execute :: "'h platform \<Rightarrow> cmd \<Rightarrow> 'h fw \<Rightarrow> 'h fw" where
  "worker_execute P c s =
     (case worker_body P c (req (job s)) (req_len (job s)) (hw s) of
        (h, rv, bytes) \<Rightarrow>
          worker_publish c rv bytes (s\<lparr>g_worker_execs := g_worker_execs s + 1, hw := h\<rparr>))"

section \<open>The slot's operations\<close>

definition job_clear :: "worker_job \<Rightarrow> worker_job" where
  "job_clear j = j\<lparr>state := WORKER_IDLE, job_cmd := CMD_PING, result_len := 0, err := 0\<rparr>"

definition worker_init :: "'h fw \<Rightarrow> 'h fw" where
  "worker_init s = s\<lparr>job := job_clear (job s)\<rparr>"

definition worker_reset :: "'h fw \<Rightarrow> 'h fw" where
  "worker_reset s = s\<lparr>job := job_clear (job s)\<rparr>"

text \<open>
  Without \<open>CC3501E_WIFI\<close> there is no task to run the job: a submit executes it before it
  returns.
\<close>

definition run_if_sync :: "'h platform \<Rightarrow> cmd \<Rightarrow> 'h fw \<Rightarrow> 'h fw" where
  "run_if_sync P c s =
     (if BUILD_WIFI P then s
      else worker_execute P c (s\<lparr>job := (job s)\<lparr>state := WORKER_RUNNING\<rparr>\<rparr>))"

definition worker_submit :: "'h platform \<Rightarrow> cmd \<Rightarrow> 'h fw \<Rightarrow> 'h fw \<times> bool" where
  "worker_submit P c s =
     (if state (job s) \<noteq> WORKER_IDLE then (s, False)
      else (run_if_sync P c
              (s\<lparr>job := (job s)\<lparr>job_cmd := c, result_len := 0, err := 0, state := WORKER_QUEUED\<rparr>\<rparr>),
            True))"

definition worker_submit_payload ::
    "'h platform \<Rightarrow> cmd \<Rightarrow> byte list \<Rightarrow> 'h fw \<Rightarrow> 'h fw \<times> bool" where
  "worker_submit_payload P c rq s =
     (if length rq > MAX_PAYLOAD then (s, False)
      else if state (job s) \<noteq> WORKER_IDLE then (s, False)
      else (run_if_sync P c
              (s\<lparr>job := (job s)\<lparr>job_cmd := c, result_len := 0, err := 0,
                   req := blit (req (job s)) rq, req_len := length rq, state := WORKER_QUEUED\<rparr>\<rparr>),
            True))"

text \<open>The result is the state reported, the reply bytes and the error code.\<close>

definition worker_poll ::
    "cmd \<Rightarrow> nat \<Rightarrow> 'h fw \<Rightarrow> 'h fw \<times> worker_state \<times> byte list \<times> int" where
  "worker_poll c out_cap s =
     (let j = job s; st = state j
      in if st = WORKER_IDLE \<or> job_cmd j \<noteq> c then
           if job_cmd j \<noteq> c \<and> st \<noteq> WORKER_IDLE then
             if st = WORKER_DONE \<or> st = WORKER_ERR
             then (s\<lparr>job := job_clear j\<rparr>, WORKER_IDLE, [], 0)
             else (s, WORKER_RUNNING, [], 0)
           else (s, WORKER_IDLE, [], 0)
         else if st = WORKER_DONE then
           if result_len j > out_cap then (s, WORKER_ERR, [], CC3501E_HW_ERR_NO_MEM)
           else (s, WORKER_DONE, take (result_len j) (result j), 0)
         else if st = WORKER_ERR then (s, WORKER_ERR, [], err j)
         else (s, st, [], 0))"

definition terminal :: "worker_state \<Rightarrow> bool" where
  "terminal st \<longleftrightarrow> st = WORKER_DONE \<or> st = WORKER_ERR"

definition worker_discard_stale_terminal ::
    "cmd \<Rightarrow> nat \<Rightarrow> byte \<Rightarrow> 'h fw \<Rightarrow> 'h fw \<times> bool" where
  "worker_discard_stale_terminal c req_off req_byte s =
     (if job_cmd (job s) = c \<and> terminal (state (job s)) \<and> req_off < req_len (job s)
         \<and> req (job s) ! req_off \<noteq> req_byte
      then (s\<lparr>job := job_clear (job s)\<rparr>, True) else (s, False))"

definition worker_reclaim_matching_terminal ::
    "cmd \<Rightarrow> nat \<Rightarrow> byte \<Rightarrow> 'h fw \<Rightarrow> 'h fw \<times> bool" where
  "worker_reclaim_matching_terminal c req_off req_byte s =
     (if job_cmd (job s) = c \<and> terminal (state (job s)) \<and> req_off < req_len (job s)
         \<and> req (job s) ! req_off = req_byte
      then (s\<lparr>job := job_clear (job s)\<rparr>, True) else (s, False))"

definition worker_discard_stale_recv :: "'h fw \<Rightarrow> 'h fw \<times> bool" where
  "worker_discard_stale_recv s =
     (if job_cmd (job s) = CMD_SOCK_RECV \<and> terminal (state (job s))
      then (s\<lparr>job := job_clear (job s)\<rparr>, True) else (s, False))"

section \<open>The task's side\<close>

text \<open>
  \<open>worker_run_pending\<close> takes a queued job, runs it with the READY line low, re-initialises the
  control link unless the opcode is known not to have disturbed it, and raises READY only if the
  link is armed.  \<open>worker_claim\<close> is the atomic claim; the flags are the exemption groups of the
  source, the conditional ones being a hand-off the driver body leaves for the task, read only
  after its own opcode.
\<close>

definition worker_claim :: "'h fw \<Rightarrow> ('h fw \<times> cmd) option" where
  "worker_claim s =
     (if state (job s) = WORKER_QUEUED
      then Some (s\<lparr>job := (job s)\<lparr>state := WORKER_RUNNING\<rparr>\<rparr>, job_cmd (job s)) else None)"

definition wifi_connect_body_reinit :: "'h platform \<Rightarrow> cmd \<Rightarrow> 'h \<Rightarrow> 'h \<times> bool \<times> bool" where
  "wifi_connect_body_reinit P c h =
     (if c = CMD_WIFI_CONNECT_STA then hw_wifi_connect_sta_take_reinit (wifi P) h
      else (h, False, False))"

definition spi1_passthrough :: "cmd \<Rightarrow> bool" where
  "spi1_passthrough c \<longleftrightarrow> c \<in> {CMD_SPI1_CONFIGURE, CMD_SPI1_TRANSFER, CMD_SPI1_RELEASE}"

definition socket_control :: "cmd \<Rightarrow> bool" where
  "socket_control c \<longleftrightarrow>
     c \<in> {CMD_SOCK_OPEN, CMD_SOCK_CONNECT, CMD_SOCK_CLOSE, CMD_SOCK_BIND, CMD_SOCK_LISTEN}"

definition rssi_read :: "'h platform \<Rightarrow> cmd \<Rightarrow> 'h \<Rightarrow> 'h \<times> bool" where
  "rssi_read P c h =
     (if c = CMD_WIFI_GET_RSSI
      then case hw_wifi_get_rssi_take_reinit_skip (wifi P) h of
             (h', reported, already_started) \<Rightarrow> (h', reported \<and> already_started)
      else (h, False))"

definition wifi_disconnect_exempt :: "cmd \<Rightarrow> bool" where
  "wifi_disconnect_exempt c \<longleftrightarrow> c = CMD_WIFI_DISCONNECT"

definition connect_fail_skip :: "'h platform \<Rightarrow> cmd \<Rightarrow> 'h \<Rightarrow> 'h \<times> bool" where
  "connect_fail_skip P c h =
     (if c = CMD_WIFI_CONNECT_STA
      then case hw_wifi_connect_sta_take_fail_skip (wifi P) h of
             (h', reported, skip_ok) \<Rightarrow> (h', reported \<and> skip_ok)
      else (h, False))"

text \<open>The drain's decision: the hand-offs consumed, whether the re-init is skipped, and whether the link is armed if so.\<close>

definition worker_relink_skip :: "'h platform \<Rightarrow> cmd \<Rightarrow> 'h \<Rightarrow> 'h \<times> bool \<times> bool" where
  "worker_relink_skip P c h =
     (case wifi_connect_body_reinit P c h of (h1, body_reinit, body_armed) \<Rightarrow>
      case rssi_read P c h1 of (h2, rssi_skip) \<Rightarrow>
      case connect_fail_skip P c h2 of (h3, fail_skip) \<Rightarrow>
        let rearmed = (if body_reinit then body_armed else True);
            body_already_reinit = (c = CMD_BLE_SCAN_STOP \<or> c = CMD_BLE_DISCONNECT \<or> body_reinit)
        in (h3, c = CMD_SOCK_RECV \<or> c = CMD_SOCK_SEND \<or> socket_control c \<or> spi1_passthrough c
              \<or> body_already_reinit \<or> rssi_skip \<or> wifi_disconnect_exempt c \<or> fail_skip, rearmed))"

definition worker_relink :: "'h platform \<Rightarrow> cmd \<Rightarrow> 'h \<Rightarrow> 'h \<times> bool" where
  "worker_relink P c h =
     (case worker_relink_skip P c h of (h1, skip, rearmed) \<Rightarrow>
        if \<not> skip then spi_hw_reinit (link P) (bridge_busy (link P) h1) else (h1, rearmed))"

definition worker_run_pending :: "'h platform \<Rightarrow> 'h fw \<Rightarrow> 'h fw" where
  "worker_run_pending P s =
     (case worker_claim s of
        None \<Rightarrow> s
      | Some (s1, c) \<Rightarrow>
          let s2 = worker_execute P c (hw_void (bridge_busy (link P)) s1)
          in case hw_call (worker_relink P c) s2 of
               (s3, rearmed) \<Rightarrow>
                 let s4 = (if c = CMD_WIFI_AP_START
                           then hw_void (hw_wifi_ap_role_publish (wifi P)) s3 else s3);
                     s5 = (if c = CMD_WIFI_CONNECT_STA \<or> c = CMD_WIFI_AP_START
                           then worker_reset s4 else s4)
                 in if rearmed then hw_void (bridge_ready (link P)) s5 else s5)"

text \<open>
  A pass over a queued job is its execution, followed by hardware-only work and, for the two
  fire-and-forget opcodes, by the release of the slot.
\<close>

definition auto_release :: "cmd \<Rightarrow> bool" where
  "auto_release c \<longleftrightarrow> c = CMD_WIFI_CONNECT_STA \<or> c = CMD_WIFI_AP_START"

lemma hw_job_commute: "(s :: 'h fw)\<lparr>hw := h, job := j\<rparr> = s\<lparr>job := j, hw := h\<rparr>"
  by simp

lemma worker_run_pending_idle:
  "state (job s) \<noteq> WORKER_QUEUED \<Longrightarrow> worker_run_pending P s = s"
  by (simp add: worker_run_pending_def worker_claim_def)

lemma worker_run_pending_queued:
  assumes "state (job s) = WORKER_QUEUED"
  defines "c \<equiv> job_cmd (job s)"
  shows "\<exists>h. worker_run_pending P s =
    (let e = worker_execute P c (s\<lparr>job := (job s)\<lparr>state := WORKER_RUNNING\<rparr>,
                                   hw := bridge_busy (link P) (hw s)\<rparr>)
     in (if auto_release c then worker_reset e else e)\<lparr>hw := h\<rparr>)"
proof -
  define e where "e = worker_execute P c (s\<lparr>job := (job s)\<lparr>state := WORKER_RUNNING\<rparr>,
                                   hw := bridge_busy (link P) (hw s)\<rparr>)"
  have e: "worker_execute P (job_cmd (job s))
      (hw_void (bridge_busy (link P)) (s\<lparr>job := (job s)\<lparr>state := WORKER_RUNNING\<rparr>\<rparr>)) = e"
    by (simp add: e_def c_def hw_void_def)
  obtain h b where r: "worker_relink P (job_cmd (job s)) (hw e) = (h, b)" by fastforce
  have "worker_run_pending P s =
    (let s4 = (if c = CMD_WIFI_AP_START then hw_void (hw_wifi_ap_role_publish (wifi P)) (e\<lparr>hw := h\<rparr>)
               else e\<lparr>hw := h\<rparr>);
         s5 = (if auto_release c then worker_reset s4 else s4)
     in if b then hw_void (bridge_ready (link P)) s5 else s5)"
    using assms(1)
    by (simp add: worker_run_pending_def worker_claim_def hw_call_def e r c_def auto_release_def
        Let_def)
  also have "\<exists>h'. \<dots> = (if auto_release c then worker_reset e else e)\<lparr>hw := h'\<rparr>"
    by (auto simp: hw_void_def worker_reset_def Let_def hw_job_commute)
  finally show ?thesis unfolding e_def [symmetric] Let_def .
qed

end
