(* ===== verification/Routed.thy ===== *)
theory Routed
  imports Worker
begin

text \<open>
  The retry latch and the three worker-routed request shapes of \<^verbatim>\<open>src/protocol.c\<close>.  A routed
  request is a poll: the first one submits the job and answers \<open>BUSY\<close>, a later one collects the
  result, and the latch answers a re-sent request whose reply was lost without running the job
  again.
\<close>

section \<open>The request sequence number\<close>

definition CC3501E_REQ_SEQ_SHIFT :: nat where "CC3501E_REQ_SEQ_SHIFT = 3"
definition CC3501E_REQ_SEQ_MASK :: byte where "CC3501E_REQ_SEQ_MASK = 0x1F"
definition CC3501E_REQ_SEQ_NONE :: byte where "CC3501E_REQ_SEQ_NONE = 0"

definition req_seq_of_flags :: "byte \<Rightarrow> byte" where
  "req_seq_of_flags flags = drop_bit CC3501E_REQ_SEQ_SHIFT flags AND CC3501E_REQ_SEQ_MASK"

definition protocol_current_req_seq :: "'h fw \<Rightarrow> byte" where
  "protocol_current_req_seq s = s_current_req_seq s"

section \<open>The latch\<close>

definition protocol_reset_retry_latch :: "'h fw \<Rightarrow> 'h fw" where
  "protocol_reset_retry_latch s = s\<lparr>s_retry_latch := (s_retry_latch s)\<lparr>valid := False\<rparr>\<rparr>"

definition retry_latch_applies :: "cmd \<Rightarrow> bool" where
  "retry_latch_applies c \<longleftrightarrow> c \<noteq> CMD_SOCK_SEND \<and> c \<noteq> CMD_SOCK_RECV"

definition retry_latch_serve ::
    "cmd \<Rightarrow> nat \<Rightarrow> 'h fw \<Rightarrow> 'h fw \<times> (resp \<times> byte list) option" where
  "retry_latch_serve c reply_cap s =
     (if \<not> retry_latch_applies c then (s, None)
      else if s_current_req_seq s = CC3501E_REQ_SEQ_NONE then (s, None)
      else let l = s_retry_latch s
           in if \<not> valid l \<or> latch_cmd l \<noteq> c then (s, None)
              else if latch_seq l \<noteq> s_current_req_seq s
              then (s\<lparr>s_retry_latch := l\<lparr>valid := False\<rparr>\<rparr>, None)
              else if length (latch_data l) > reply_cap then (s, None)
              else (s\<lparr>g_retry_latch_hits := g_retry_latch_hits s + 1\<rparr>,
                    Some (latch_status l, latch_data l)))"

definition retry_latch_store :: "cmd \<Rightarrow> resp \<Rightarrow> byte list \<Rightarrow> 'h fw \<Rightarrow> 'h fw" where
  "retry_latch_store c status dat s =
     (if \<not> retry_latch_applies c then s
      else if s_current_req_seq s = CC3501E_REQ_SEQ_NONE then protocol_reset_retry_latch s
      else if length dat > RETRY_LATCH_DATA then protocol_reset_retry_latch s
      else s\<lparr>s_retry_latch := \<lparr>valid = True, latch_cmd = c, latch_seq = s_current_req_seq s,
               latch_status = status, latch_data = dat\<rparr>\<rparr>)"

section \<open>Routed requests\<close>

text \<open>The error code of a failed job as a response, the same chain in all three shapes.\<close>

definition worker_err_to_resp :: "int \<Rightarrow> resp" where
  "worker_err_to_resp e =
     (if e = CC3501E_HW_ERR_NOTIMPL then RESP_ERR_NOT_READY
      else if e = CC3501E_HW_ERR_INVAL then RESP_ERR_INVALID
      else if e = CC3501E_HW_ERR_STATE then RESP_ERR_STATE
      else if e = CC3501E_HW_ERR_NO_MEM then RESP_ERR_NO_MEM
      else RESP_ERR_RADIO)"

definition worker_collect ::
    "cmd \<Rightarrow> ('h fw \<Rightarrow> 'h fw) \<Rightarrow> 'h fw \<times> worker_state \<times> byte list \<times> int
       \<Rightarrow> 'h fw \<times> resp \<times> byte list" where
  "worker_collect c submit = (\<lambda>(s, st, dat, e).
     (case st of
        WORKER_DONE \<Rightarrow> (retry_latch_store c RESP_OK dat (worker_reset s), RESP_OK, dat)
      | WORKER_ERR \<Rightarrow> (retry_latch_store c (worker_err_to_resp e) [] (worker_reset s),
                       worker_err_to_resp e, [])
      | WORKER_IDLE \<Rightarrow> (submit s, RESP_ERR_BUSY, [])
      | _ \<Rightarrow> (s, RESP_ERR_BUSY, [])))"

definition handle_worker_routed ::
    "cmd \<Rightarrow> nat \<Rightarrow> 'h platform \<Rightarrow> nat \<Rightarrow> nat \<Rightarrow> 'h fw \<Rightarrow> 'h fw \<times> resp \<times> byte list" where
  "handle_worker_routed c min_cap P rq_len reply_cap s =
     (if rq_len \<noteq> 0 then (s, RESP_ERR_INVALID, [])
      else if reply_cap < min_cap then (s, RESP_ERR_NO_MEM, [])
      else case retry_latch_serve c reply_cap s of
             (s1, Some reply) \<Rightarrow> (s1, reply)
           | (s1, None) \<Rightarrow>
               worker_collect c (\<lambda>s. fst (worker_submit P c s)) (worker_poll c reply_cap s1))"

definition handle_worker_routed_payload ::
    "cmd \<Rightarrow> 'h platform \<Rightarrow> byte list \<Rightarrow> 'h fw \<Rightarrow> 'h fw \<times> resp \<times> byte list" where
  "handle_worker_routed_payload c P rq s =
     (case retry_latch_serve c 0 s of
        (s1, Some reply) \<Rightarrow> (s1, reply)
      | (s1, None) \<Rightarrow>
          worker_collect c
            (\<lambda>s. fst (worker_submit_payload P c rq
               (if c = CMD_WIFI_CONNECT_STA
                then hw_void (hw_wifi_mark_connecting (wifi P)) s else s)))
            (worker_poll c 0 s1))"

definition handle_worker_routed_payload_reply ::
    "cmd \<Rightarrow> nat \<Rightarrow> 'h platform \<Rightarrow> byte list \<Rightarrow> nat \<Rightarrow> 'h fw \<Rightarrow> 'h fw \<times> resp \<times> byte list" where
  "handle_worker_routed_payload_reply c min_cap P rq reply_cap s =
     (if reply_cap < min_cap then (s, RESP_ERR_NO_MEM, [])
      else case retry_latch_serve c reply_cap s of
             (s1, Some reply) \<Rightarrow> (s1, reply)
           | (s1, None) \<Rightarrow>
               worker_collect c
                 (\<lambda>s. fst (worker_submit_payload P c rq
                    (if c = CMD_SOCK_RECV
                     then s\<lparr>sock_recv := protocol_sock_recv_note_submit (s_current_req_seq s) (sock_recv s)\<rparr>
                     else s)))
                 (worker_poll c reply_cap s1))"

end
