(* ===== verification/Handlers.thy ===== *)
theory Handlers
  imports Routed
begin

text \<open>
  The opcode handlers of the metadata, Wi-Fi, BLE, GPIO, camera, power, OTA and diagnostics
  families (\<^verbatim>\<open>src/protocol_meta.c\<close>, \<^verbatim>\<open>protocol_wifi.c\<close>, \<^verbatim>\<open>protocol_ble.c\<close>,
  \<^verbatim>\<open>protocol_gpio.c\<close>, \<^verbatim>\<open>protocol_camera.c\<close>, \<^verbatim>\<open>protocol_power.c\<close>,
  \<^verbatim>\<open>protocol_ota.c\<close>, \<^verbatim>\<open>protocol_diag.c\<close>).  A handler takes the request payload and the
  capacity of the reply buffer and returns the status and the reply data.
\<close>

section \<open>Metadata\<close>

definition handle_ping :: "'h handler" where
  "handle_ping P rq cap s =
     (if length rq \<noteq> 0 then (s, RESP_ERR_INVALID, []) else (s, RESP_OK, []))"

definition FW_WIRE_VERSION :: "bool \<Rightarrow> u16" where
  "FW_WIRE_VERSION wire_crc = (if wire_crc then push_bit 8 4 OR 0 else push_bit 8 3 OR 1)"

definition handle_get_version :: "'h handler" where
  "handle_get_version P rq cap s =
     (if length rq \<noteq> 0 then (s, RESP_ERR_INVALID, [])
      else if cap < 2 then (s, RESP_ERR_NO_MEM, [])
      else (s, RESP_OK, put_le16 (FW_WIRE_VERSION (WIRE_CRC P))))"

definition CAP_WIFI_STA :: u32 where "CAP_WIFI_STA = 0x1"
definition CAP_WIFI_AP :: u32 where "CAP_WIFI_AP = 0x2"
definition CAP_SOCK_CLIENT :: u32 where "CAP_SOCK_CLIENT = 0x4"
definition CAP_SOCK_LISTEN :: u32 where "CAP_SOCK_LISTEN = 0x8"
definition CAP_BLE :: u32 where "CAP_BLE = 0x10"
definition CAP_OTA :: u32 where "CAP_OTA = 0x20"
definition CAP_GPIO_PROXY :: u32 where "CAP_GPIO_PROXY = 0x40"
definition CAP_SPI1_MASTER :: u32 where "CAP_SPI1_MASTER = 0x80"
definition CAP_CAMERA :: u32 where "CAP_CAMERA = 0x100"
definition CAP_POWER_POLICY :: u32 where "CAP_POWER_POLICY = 0x200"
definition CAP_DIAG_STATS :: u32 where "CAP_DIAG_STATS = 0x400"
definition CAP_EVENTS :: u32 where "CAP_EVENTS = 0x800"

definition cc3501e_build_capabilities :: "'h platform \<Rightarrow> u32" where
  "cc3501e_build_capabilities P =
     CAP_EVENTS OR CAP_DIAG_STATS
     OR (if \<not> HAL_STUB P then CAP_OTA OR CAP_GPIO_PROXY OR CAP_CAMERA OR CAP_POWER_POLICY else 0)
     OR (if BUILD_WIFI P
         then CAP_WIFI_STA OR CAP_WIFI_AP OR CAP_SOCK_CLIENT OR CAP_SOCK_LISTEN OR CAP_SPI1_MASTER
         else 0)
     OR (if BUILD_BLE P then CAP_BLE else 0)"

definition handle_get_capabilities :: "'h handler" where
  "handle_get_capabilities P rq cap s =
     (if length rq \<noteq> 0 then (s, RESP_ERR_INVALID, [])
      else if cap < SIZEOF_capabilities then (s, RESP_ERR_NO_MEM, [])
      else (s, RESP_OK, put_le32 (cc3501e_build_capabilities P) @ put_le32 0))"

definition handle_stream_write :: "'h handler" where
  "handle_stream_write P rq cap s =
     (s\<lparr>g_stream_bytes := g_stream_bytes s + word_of_nat (length rq)\<rparr>, RESP_OK, [])"

definition handle_get_mac :: "'h handler" where
  "handle_get_mac P rq cap s = handle_worker_routed CMD_GET_MAC 6 P (length rq) cap s"

definition handle_reset :: "'h handler" where
  "handle_reset P rq cap s =
     (if length rq \<noteq> 0 then (s, RESP_ERR_INVALID, [])
      else (hw_void (hw_request_reset (sys P)) s, RESP_OK, []))"

section \<open>Wi-Fi\<close>

text \<open>A handler that forwards to one driver call and answers with its code and no data.\<close>

definition hw_forward :: "'h drv \<Rightarrow> 'h fw \<Rightarrow> 'h fw \<times> resp \<times> byte list" where
  "hw_forward f s = (case hw_call f s of (s', rv) \<Rightarrow> (s', hw_to_resp rv, []))"

definition handle_wifi_scan_start :: "'h handler" where
  "handle_wifi_scan_start P rq cap s = handle_worker_routed CMD_WIFI_SCAN_START 0 P (length rq) cap s"

definition handle_wifi_scan_stop :: "'h handler" where
  "handle_wifi_scan_stop P rq cap s =
     (if length rq \<noteq> 0 then (s, RESP_ERR_INVALID, [])
      else hw_forward (hw_wifi_scan_stop (wifi P)) s)"

definition wifi_join ::
    "bool \<Rightarrow> 'h platform \<Rightarrow> byte list \<Rightarrow> 'h fw \<Rightarrow> 'h fw \<times> resp \<times> byte list" where
  "wifi_join ap P rq s =
     (if length rq < sizeof_wifi_connect P then (s, RESP_ERR_INVALID, [])
      else case wifi_connect_of P rq of (ssid_len, psk_len, security) \<Rightarrow>
        if length rq \<noteq> sizeof_wifi_connect P + unat ssid_len + unat psk_len
        then (s, RESP_ERR_INVALID, [])
        else handle_worker_routed_payload
               (if ap then CMD_WIFI_AP_START else CMD_WIFI_CONNECT_STA) P rq s)"

definition handle_wifi_connect_sta :: "'h handler" where
  "handle_wifi_connect_sta P rq cap s = wifi_join False P rq s"

definition handle_wifi_ap_start :: "'h handler" where
  "handle_wifi_ap_start P rq cap s = wifi_join True P rq s"

definition handle_wifi_disconnect :: "'h handler" where
  "handle_wifi_disconnect P rq cap s =
     (if length rq \<noteq> 0 then (s, RESP_ERR_INVALID, [])
      else handle_worker_routed CMD_WIFI_DISCONNECT 0 P (length rq) cap s)"

definition handle_wifi_ap_stop :: "'h handler" where
  "handle_wifi_ap_stop P rq cap s = handle_worker_routed CMD_WIFI_AP_STOP 0 P (length rq) cap s"

definition handle_wifi_get_rssi :: "'h handler" where
  "handle_wifi_get_rssi P rq cap s = handle_worker_routed CMD_WIFI_GET_RSSI 1 P (length rq) cap s"

definition handle_wifi_get_ip :: "'h handler" where
  "handle_wifi_get_ip P rq cap s =
     (if length rq > 1 then (s, RESP_ERR_INVALID, [])
      else let iface = (if length rq = 1 then rq ! 0 else WIFI_IFACE_STA P)
           in if iface \<noteq> WIFI_IFACE_STA P \<and> iface \<noteq> WIFI_IFACE_AP P then (s, RESP_ERR_INVALID, [])
              else if cap < 4 then (s, RESP_ERR_NO_MEM, [])
              else case hw_call (hw_wifi_get_ip (wifi P) iface) s of
                (s', rv, ip) \<Rightarrow>
                  (s', hw_to_resp rv, if hw_to_resp rv = RESP_OK then out_buf 4 ip else []))"

definition handle_wifi_status :: "'h handler" where
  "handle_wifi_status P rq cap s =
     (if length rq \<noteq> 0 then (s, RESP_ERR_INVALID, [])
      else if cap < 4 then (s, RESP_ERR_NO_MEM, [])
      else case hw_call (hw_wifi_conn_status (wifi P)) s of
        (s', rv, st, fail_reason, rssi) \<Rightarrow>
          (s', RESP_OK, [st, fail_reason, rssi, ucast (hw_wifi_last_reason (wifi P) (hw s') AND 0xFF)]))"

section \<open>BLE\<close>

definition handle_ble_enable :: "'h handler" where
  "handle_ble_enable P rq cap s = handle_worker_routed CMD_BLE_ENABLE 0 P (length rq) cap s"

definition handle_ble_disable :: "'h handler" where
  "handle_ble_disable P rq cap s = handle_worker_routed CMD_BLE_DISABLE 0 P (length rq) cap s"

definition BLE_ADV_START_HDR :: nat where "BLE_ADV_START_HDR = 7"

definition handle_ble_adv_start :: "'h handler" where
  "handle_ble_adv_start P rq cap s =
     (if length rq < BLE_ADV_START_HDR then (s, RESP_ERR_INVALID, [])
      else if length rq \<noteq> BLE_ADV_START_HDR + unat (rq ! 6) then (s, RESP_ERR_INVALID, [])
      else handle_worker_routed_payload CMD_BLE_ADV_START P rq s)"

definition handle_ble_adv_stop :: "'h handler" where
  "handle_ble_adv_stop P rq cap s = handle_worker_routed CMD_BLE_ADV_STOP 0 P (length rq) cap s"

definition handle_ble_scan_start :: "'h handler" where
  "handle_ble_scan_start P rq cap s = handle_worker_routed CMD_BLE_SCAN_START 0 P (length rq) cap s"

definition handle_ble_scan_stop :: "'h handler" where
  "handle_ble_scan_stop P rq cap s =
     (if length rq \<noteq> 0 then (s, RESP_ERR_INVALID, [])
      else handle_worker_routed CMD_BLE_SCAN_STOP 0 P (length rq) cap s)"

definition handle_ble_connect :: "'h handler" where
  "handle_ble_connect P rq cap s =
     (if length rq \<noteq> 7 then (s, RESP_ERR_INVALID, [])
      else handle_worker_routed_payload CMD_BLE_CONNECT P rq s)"

definition handle_ble_disconnect :: "'h handler" where
  "handle_ble_disconnect P rq cap s =
     (if length rq \<noteq> 0 then (s, RESP_ERR_INVALID, [])
      else handle_worker_routed CMD_BLE_DISCONNECT 0 P (length rq) cap s)"

definition BLE_GATT_REG_HDR :: nat where "BLE_GATT_REG_HDR = 18"

text \<open>The walk over the characteristic descriptors: \<open>k\<close> still to read, at offset \<open>pos\<close>.\<close>

primrec gatt_walk :: "nat \<Rightarrow> byte list \<Rightarrow> nat \<Rightarrow> nat option" where
  "gatt_walk 0 rq pos = Some pos"
| "gatt_walk (Suc k) rq pos =
     (if pos + 16 + 1 + 2 > length rq then None
      else let pos' = pos + (16 + 1 + 2 + unat (get_le16 rq (pos + 17)))
           in if pos' > length rq then None else gatt_walk k rq pos')"

definition ble_gatt_register_validate :: "'h platform \<Rightarrow> byte list \<Rightarrow> byte option" where
  "ble_gatt_register_validate P rq =
     (if length rq < BLE_GATT_REG_HDR then None
      else if rq ! 0 \<noteq> BLE_GATT_REGISTER_VERSION P then None
      else let num_chars = rq ! 17
           in if num_chars = 0 \<or> unat num_chars > BLE_GATT_MAX_CHARS then None
              else if gatt_walk (unat num_chars) rq BLE_GATT_REG_HDR \<noteq> Some (length rq) then None
              else Some num_chars)"

definition handle_ble_gatt_register :: "'h handler" where
  "handle_ble_gatt_register P rq cap s =
     (case ble_gatt_register_validate P rq of
        None \<Rightarrow> (s, RESP_ERR_INVALID, [])
      | Some num_chars \<Rightarrow>
          handle_worker_routed_payload_reply CMD_BLE_GATT_REGISTER (2 + 2 * unat num_chars) P rq cap s)"

definition handle_ble_gatt_notify :: "'h handler" where
  "handle_ble_gatt_notify P rq cap s =
     (if length rq < 2 then (s, RESP_ERR_INVALID, [])
      else handle_worker_routed_payload CMD_BLE_GATT_NOTIFY P rq s)"

definition handle_ble_gatt_write :: "'h handler" where
  "handle_ble_gatt_write P rq cap s =
     (if length rq < 2 then (s, RESP_ERR_INVALID, [])
      else handle_worker_routed_payload CMD_BLE_GATT_WRITE P rq s)"

definition handle_ble_gatt_read :: "'h handler" where
  "handle_ble_gatt_read P rq cap s =
     (if length rq \<noteq> 2 then (s, RESP_ERR_INVALID, [])
      else handle_worker_routed_payload_reply CMD_BLE_GATT_READ 0 P rq cap s)"

section \<open>GPIO, camera, power\<close>

definition handle_gpio_configure :: "'h handler" where
  "handle_gpio_configure P rq cap s =
     (if length rq \<noteq> SIZEOF_gpio_configure then (s, RESP_ERR_INVALID, [])
      else case gpio_configure_of P rq of (pad, dir, pull) \<Rightarrow>
        hw_forward (hw_gpio_configure (io P) pad dir pull) s)"

definition handle_gpio_write :: "'h handler" where
  "handle_gpio_write P rq cap s =
     (if length rq \<noteq> SIZEOF_gpio_write then (s, RESP_ERR_INVALID, [])
      else case gpio_write_of P rq of (pad, level) \<Rightarrow> hw_forward (hw_gpio_write (io P) pad level) s)"

definition handle_gpio_read :: "'h handler" where
  "handle_gpio_read P rq cap s =
     (if length rq \<noteq> 1 then (s, RESP_ERR_INVALID, [])
      else if cap < 1 then (s, RESP_ERR_NO_MEM, [])
      else case hw_call (hw_gpio_read (io P) (rq ! 0)) s of
        (s', rv, level) \<Rightarrow> (s', hw_to_resp rv, if hw_to_resp rv = RESP_OK then [level] else []))"

definition handle_gpio_set_interrupt :: "'h handler" where
  "handle_gpio_set_interrupt P rq cap s =
     (if length rq \<noteq> sizeof_gpio_set_interrupt P then (s, RESP_ERR_INVALID, [])
      else case gpio_set_interrupt_of P rq of (pad, edge, enabled) \<Rightarrow>
        hw_forward (hw_gpio_set_interrupt (io P) pad edge enabled) s)"

definition handle_cam_enable :: "'h handler" where
  "handle_cam_enable P rq cap s =
     (if length rq \<noteq> 1 then (s, RESP_ERR_INVALID, [])
      else hw_forward (hw_cam_enable (io P) (rq ! 0) 1) s)"

definition handle_cam_disable :: "'h handler" where
  "handle_cam_disable P rq cap s =
     (if length rq \<noteq> 1 then (s, RESP_ERR_INVALID, [])
      else hw_forward (hw_cam_enable (io P) (rq ! 0) 0) s)"

definition handle_power_policy :: "'h handler" where
  "handle_power_policy P rq cap s =
     (if length rq \<noteq> 8 then (s, RESP_ERR_INVALID, [])
      else case hw_call (hw_set_power_policy (sys P) (rq ! 0) (rq ! 1) (get_le32 rq 4)) s of
        (s', rv) \<Rightarrow>
          (s', hw_to_resp rv,
           if hw_to_resp rv = RESP_OK \<and> cap \<ge> 1
           then [if hw_power_radio_ok (sys P) (hw s') then 1 else 0] else []))"

section \<open>OTA\<close>

definition handle_ota_begin :: "'h handler" where
  "handle_ota_begin P rq cap s =
     (if length rq \<noteq> 4 then (s, RESP_ERR_INVALID, [])
      else hw_forward (hw_ota_begin (ota P) (get_le32 rq 0)) s)"

definition handle_ota_write :: "'h handler" where
  "handle_ota_write P rq cap s =
     (if length rq < 5 \<or> length rq > 4 + CC3501E_OTA_MAX_CHUNK_V4 (WIRE_CRC P)
      then (s, RESP_ERR_INVALID, [])
      else hw_forward (hw_ota_write (ota P) (get_le32 rq 0) (drop 4 rq)) s)"

definition handle_ota_finish :: "'h handler" where
  "handle_ota_finish P rq cap s =
     (if length rq \<noteq> 0 then (s, RESP_ERR_INVALID, []) else hw_forward (hw_ota_finish (ota P)) s)"

definition handle_ota_abort :: "'h handler" where
  "handle_ota_abort P rq cap s =
     (if length rq \<noteq> 0 then (s, RESP_ERR_INVALID, []) else hw_forward (hw_ota_abort (ota P)) s)"

definition handle_ota_promote :: "'h handler" where
  "handle_ota_promote P rq cap s =
     (if length rq \<noteq> 0 then (s, RESP_ERR_INVALID, []) else hw_forward (hw_ota_promote (ota P)) s)"

definition handle_ota_update_mode :: "'h handler" where
  "handle_ota_update_mode P rq cap s =
     (if length rq \<noteq> 1 then (s, RESP_ERR_INVALID, [])
      else if rq ! 0 > 1 then (s, RESP_ERR_INVALID, [])
      else if cap < 4 then (s, RESP_ERR_NO_MEM, [])
      else let want = (rq ! 0 = 1)
           in case hw_call (spi_polled (link P)) s of (s1, polled) \<Rightarrow>
              case hw_call (hw_ota_status (ota P)) s1 of (s2, rv, st, written, tot) \<Rightarrow>
              let dat = [if polled then 1 else 0, st, 0, 0]
              in if want \<noteq> polled
                 then case hw_call (if want then spi_request_polled_boot (link P)
                                    else spi_clear_polled_boot (link P)) s2 of
                   (s3, armed) \<Rightarrow>
                     if \<not> armed then (s3, RESP_ERR_STATE, dat)
                     else (hw_void (hw_request_reset (sys P)) s3, RESP_OK, dat)
                 else (s2, RESP_OK, dat))"

definition ota_link_byte :: "'h platform \<Rightarrow> 'h fw \<Rightarrow> 'h fw \<times> byte" where
  "ota_link_byte P s =
     (let fs = fst (hw_ota_fault (ota P) (hw s))
      in if fs \<noteq> 0 then (s, fs)
         else case hw_call (spi_polled (link P)) s of
           (s', polled) \<Rightarrow> (s', 0x40 OR (if polled then 0x80 else 0) OR spi_phase (link P) (hw s')))"

definition handle_ota_status :: "'h handler" where
  "handle_ota_status P rq cap s =
     (if length rq \<noteq> 0 then (s, RESP_ERR_INVALID, [])
      else if cap < 16 then (s, RESP_ERR_NO_MEM, [])
      else case hw_call (hw_ota_status (ota P)) s of (s1, rv, st, written, tot) \<Rightarrow>
        if rv \<noteq> CC3501E_HW_OK then (s1, hw_to_resp rv, [])
        else case ota_link_byte P s1 of (s2, b) \<Rightarrow>
          (s2, RESP_OK,
           [st, hw_ota_reboot_rc (ota P) (hw s1),
            if hw_ota_flush_pending (ota P) (hw s1) then 1 else 0, b]
           @ put_le32 written @ put_le32 tot @ [hw_ota_pending (ota P) (hw s2), 0, 0, 0]))"

section \<open>Diagnostics\<close>

definition handle_diag_log_level :: "'h handler" where
  "handle_diag_log_level P rq cap s =
     (if length rq \<noteq> 1 then (s, RESP_ERR_INVALID, [])
      else hw_forward (hw_set_log_level (sys P) (rq ! 0)) s)"

definition handle_diag_get_stats :: "'h handler" where
  "handle_diag_get_stats P rq cap s =
     (if length rq \<noteq> 0 then (s, RESP_ERR_INVALID, [])
      else if cap < 16 then (s, RESP_ERR_NO_MEM, [])
      else (s, RESP_OK, put_le32 (g_frames_ok s) @ put_le32 (g_frames_err s)
                          @ put_le32 (g_worker_execs s) @ put_le32 (g_retry_latch_hits s)))"

definition handle_get_diag_info :: "'h handler" where
  "handle_get_diag_info P rq cap s =
     (if length rq \<noteq> 0 then (s, RESP_ERR_INVALID, [])
      else if cap < 16 then (s, RESP_ERR_NO_MEM, [])
      else case hw_call (hw_reset_cause (sys P)) s of (s1, cause) \<Rightarrow>
        let base =
             put_le16 (FW_VERSION_U16 P)
             @ [cause, hw_radio_role (sys P) (hw s1)]
             @ put_le32 (hw_uptime_ms (sys P) (hw s1)) @ put_le32 (hw_free_heap_bytes (sys P) (hw s1))
             @ [resp_val P (g_last_error s1),
                ucast (hw_wifi_last_event_id (wifi P) (hw s1) AND 0xFF),
                snd (hw_ota_fault (ota P) (hw s1)), spi_boot_mark (link P) (hw s1)]
        in if cap \<ge> 18
           then case hw_call (hw_wifi_dhcp_diag (wifi P)) s1 of
             (s', dhcp_state, dhcp_flags) \<Rightarrow> (s', RESP_OK, base @ [dhcp_state, dhcp_flags])
           else (s1, RESP_OK, base))"

definition handle_get_pending_events :: "'h handler" where
  "handle_get_pending_events P rq cap s =
     (if length rq \<noteq> 0 then (s, RESP_ERR_INVALID, [])
      else case event_ring_drain cap (ring s) of (r, bytes) \<Rightarrow> (s\<lparr>ring := r\<rparr>, RESP_OK, bytes))"

end
