(* ===== verification/Sockets.thy ===== *)
theory Sockets
  imports Routed
begin

text \<open>
  The socket handlers of \<^verbatim>\<open>src/protocol_sockets.c\<close> and the SPI1 passthrough handlers of
  \<^verbatim>\<open>src/protocol_spi.c\<close>: the two families that carry their own replay protection.
\<close>

section \<open>Control\<close>

definition handle_sock_open :: "'h handler" where
  "handle_sock_open P rq cap s =
     (if length rq \<noteq> SIZEOF_sock_open then (s, RESP_ERR_INVALID, [])
      else if rq ! 0 \<noteq> SOCK_FAMILY_IPV4 P then (s, RESP_ERR_INVALID, [])
      else handle_worker_routed_payload_reply CMD_SOCK_OPEN SIZEOF_sock_handle P rq cap s)"

definition handle_sock_connect :: "'h handler" where
  "handle_sock_connect P rq cap s =
     (if length rq \<noteq> SIZEOF_sock_connect then (s, RESP_ERR_INVALID, [])
      else if rq ! 4 \<noteq> SOCK_FAMILY_IPV4 P then (s, RESP_ERR_INVALID, [])
      else handle_worker_routed_payload CMD_SOCK_CONNECT P rq s)"

definition handle_sock_bind :: "'h handler" where
  "handle_sock_bind P rq cap s =
     (if length rq \<noteq> SIZEOF_sock_bind then (s, RESP_ERR_INVALID, [])
      else if rq ! 4 \<noteq> SOCK_FAMILY_IPV4 P then (s, RESP_ERR_INVALID, [])
      else handle_worker_routed_payload CMD_SOCK_BIND P rq s)"

definition handle_sock_listen :: "'h handler" where
  "handle_sock_listen P rq cap s =
     (if length rq \<noteq> SIZEOF_sock_listen then (s, RESP_ERR_INVALID, [])
      else if rq ! 0 = 0 \<and> rq ! 1 = 0 then (s, RESP_ERR_INVALID, [])
      else handle_worker_routed_payload CMD_SOCK_LISTEN P rq s)"

definition handle_sock_close :: "'h handler" where
  "handle_sock_close P rq cap s =
     (if length rq \<noteq> SIZEOF_sock_close then (s, RESP_ERR_INVALID, [])
      else let c = sock_recv s;
               c' = (if wk_cached c \<and> get_le16 rq 0 = wk_handle c then c\<lparr>wk_cached := False\<rparr> else c)
           in handle_worker_routed_payload CMD_SOCK_CLOSE P rq (s\<lparr>sock_recv := c'\<rparr>))"

section \<open>Send\<close>

definition SOCK_SEND_SEQ_OFF :: nat where "SOCK_SEND_SEQ_OFF = 3"

text \<open>A send under a new sequence number forgets the cached result of the previous one.\<close>

definition sock_send_expire :: "byte \<Rightarrow> sock_send_cache \<Rightarrow> sock_send_cache" where
  "sock_send_expire sq c =
     (if send_cached c \<and> sq \<noteq> send_seq c then c\<lparr>send_cached := False\<rparr> else c)"

definition handle_sock_send :: "'h handler" where
  "handle_sock_send P rq cap s =
     (if length rq < SIZEOF_sock_send then (s, RESP_ERR_INVALID, [])
      else if length rq \<noteq> SIZEOF_sock_send + unat (get_le16 rq 4) then (s, RESP_ERR_INVALID, [])
      else let sq = rq ! SOCK_SEND_SEQ_OFF;
               s1 = s\<lparr>sock_send := sock_send_expire sq (sock_send s)\<rparr>; c = sock_send s1
           in if send_cached c then
                let s2 = fst (worker_reclaim_matching_terminal CMD_SOCK_SEND SOCK_SEND_SEQ_OFF sq s1)
                in if send_status c = RESP_OK then
                     if cap < 2 then (s2, RESP_ERR_NO_MEM, [])
                     else (s2, RESP_OK, send_reply c)
                   else (s2, send_status c, [])
              else
                let s2 = fst (worker_discard_stale_terminal CMD_SOCK_SEND SOCK_SEND_SEQ_OFF sq s1)
                in handle_worker_routed_payload_reply CMD_SOCK_SEND 2 P rq cap s2)"

section \<open>Receive\<close>

definition sock_recv_expire :: "byte \<Rightarrow> u16 \<Rightarrow> u16 \<Rightarrow> sock_recv_cache \<Rightarrow> sock_recv_cache" where
  "sock_recv_expire sq handle max_len c =
     (if wk_cached c \<and> (sq \<noteq> wk_seq c \<or> handle \<noteq> wk_handle c \<or> max_len \<noteq> wk_max_len c)
      then c\<lparr>wk_cached := False\<rparr> else c)"

definition sock_recv_replay :: "byte \<Rightarrow> u16 \<Rightarrow> u16 \<Rightarrow> sock_recv_cache \<Rightarrow> bool" where
  "sock_recv_replay sq handle max_len c \<longleftrightarrow>
     sq \<noteq> 0 \<and> sq = last_recv_seq c \<and> handle = last_recv_handle c \<and> max_len = last_recv_max_len c"

definition sock_recv_room :: "nat \<Rightarrow> u16 \<Rightarrow> nat" where
  "sock_recv_room cap max_len =
     (let room = cap - SIZEOF_sock_recv_resp
      in if max_len = 0 then 0 else if room > unat max_len then unat max_len else room)"

text \<open>The reply header of the ring path: a zeroed address and the byte count after it.\<close>

definition sock_recv_ring_reply :: "byte list \<Rightarrow> byte list" where
  "sock_recv_ring_reply got =
     replicate SIZEOF_sock_addr 0 @ put_le16 (word_of_nat (length got)) @ [0, 0] @ got"

text \<open>The prefetch-ring path; \<open>None\<close> when the ring does not serve this socket.\<close>

definition sock_recv_from_ring ::
    "'h platform \<Rightarrow> u16 \<Rightarrow> u16 \<Rightarrow> nat \<Rightarrow> 'h fw \<Rightarrow> 'h fw \<times> (resp \<times> byte list) option" where
  "sock_recv_from_ring P handle max_len cap s =
     (if cap \<le> SIZEOF_sock_recv_resp then (s, None)
      else let sq = s_current_req_seq s;
               replay = sock_recv_replay sq handle max_len (sock_recv s)
           in case hw_call (hw_sock_recv_ring (sock P) handle
                             (word_of_nat (sock_recv_room cap max_len)) replay) s of
                (s1, rc, got) \<Rightarrow>
                  let s2 = s1\<lparr>sock_recv := (sock_recv s1)\<lparr>last_recv_seq := sq,
                                last_recv_handle := handle, last_recv_max_len := max_len\<rparr>\<rparr>
                  in if rc = -2 then
                       if max_len = 0
                       then (s2, Some (RESP_OK, replicate SIZEOF_sock_recv_resp 0))
                       else (s2, Some (RESP_ERR_BUSY, []))
                     else if rc = -3 then (s2, Some (RESP_ERR_RADIO, []))
                     else if rc \<ge> 0 then (s2, Some (RESP_OK, sock_recv_ring_reply got))
                     else (s2, None))"

definition sock_recv_from_worker :: "'h platform \<Rightarrow> byte list \<Rightarrow> nat \<Rightarrow> 'h fw \<Rightarrow> 'h fw \<times> resp \<times> byte list"
where
  "sock_recv_from_worker P rq cap s =
     (let c = sock_recv s; sq = s_current_req_seq s; handle = get_le16 rq 0
      in if wk_cached c then
           let s1 = (if sq = 0 then s\<lparr>sock_recv := c\<lparr>wk_cached := False\<rparr>\<rparr> else s);
               s2 = fst (worker_reclaim_matching_terminal CMD_SOCK_RECV 0 (ucast (handle AND 0xFF)) s1)
           in if wk_status c = RESP_OK then
                if cap < wk_reply_len c then (s2, RESP_ERR_NO_MEM, [])
                else (s2, RESP_OK, take (wk_reply_len c) (wk_reply c))
              else (s2, wk_status c, [])
         else handle_worker_routed_payload_reply CMD_SOCK_RECV SIZEOF_sock_recv_resp P rq cap
                (fst (worker_discard_stale_recv s)))"

definition handle_sock_recv :: "'h handler" where
  "handle_sock_recv P rq cap s =
     (if length rq \<noteq> SIZEOF_sock_recv then (s, RESP_ERR_INVALID, [])
      else let handle = get_le16 rq 0; max_len = get_le16 rq 2; sq = protocol_current_req_seq s;
               s1 = s\<lparr>sock_recv := sock_recv_expire sq handle max_len (sock_recv s)\<rparr>
           in case sock_recv_from_ring P handle max_len cap s1 of
                (s2, Some reply) \<Rightarrow> (s2, reply)
              | (s2, None) \<Rightarrow> sock_recv_from_worker P rq cap s2)"

section \<open>The SPI1 passthrough\<close>

definition SPI1_XFER_FLAGS_ALL :: "'h platform \<Rightarrow> byte" where
  "SPI1_XFER_FLAGS_ALL P = SPI1_XFER_CS_HOLD P OR SPI1_XFER_NO_RX P OR SPI1_XFER_NO_TX P"

definition handle_spi1_configure :: "'h handler" where
  "handle_spi1_configure P rq cap s =
     (if length rq \<noteq> SIZEOF_spi1_configure then (s, RESP_ERR_INVALID, [])
      else if rq ! 4 > 3 then (s, RESP_ERR_INVALID, [])
      else if rq ! 5 \<noteq> 8 then (s, RESP_ERR_INVALID, [])
      else if rq ! 6 > SPI1_CS1 P then (s, RESP_ERR_INVALID, [])
      else if g_cs_held s then (s, RESP_ERR_STATE, [])
      else case handle_worker_routed_payload_reply CMD_SPI1_CONFIGURE SIZEOF_spi1_config_resp P rq cap s of
        (s', st, dat) \<Rightarrow>
          (if st = RESP_OK then s'\<lparr>g_configured := True, g_cs_held := False\<rparr> else s', st, dat))"

definition spi1_transfer_errors :: "'h platform \<Rightarrow> byte list \<Rightarrow> nat \<Rightarrow> 'h fw \<Rightarrow> resp option" where
  "spi1_transfer_errors P rq cap s =
     (if length rq < SIZEOF_spi1_transfer then Some RESP_ERR_INVALID
      else let len = get_le16 rq 0; flags = rq ! 2;
               no_rx = flags AND SPI1_XFER_NO_RX P \<noteq> 0; no_tx = flags AND SPI1_XFER_NO_TX P \<noteq> 0;
               want = (if no_tx then SIZEOF_spi1_transfer else SIZEOF_spi1_transfer + unat len);
               min_cap = SIZEOF_spi1_transfer_resp + (if no_rx then 0 else unat len)
           in if flags AND NOT (SPI1_XFER_FLAGS_ALL P) \<noteq> 0 then Some RESP_ERR_INVALID
              else if unat len > CC3501E_SPI1_MAX_XFER_V4 (WIRE_CRC P) then Some RESP_ERR_INVALID
              else if length rq \<noteq> want then Some RESP_ERR_INVALID
              else if \<not> g_configured s then Some RESP_ERR_NOT_READY
              else if cap < min_cap then Some RESP_ERR_NO_MEM
              else None)"

definition handle_spi1_transfer :: "'h handler" where
  "handle_spi1_transfer P rq cap s =
     (case spi1_transfer_errors P rq cap s of
        Some e \<Rightarrow> (s, e, [])
      | None \<Rightarrow>
          case worker_poll CMD_SPI1_TRANSFER cap s of
            (s1, st, dat, e) \<Rightarrow>
              if st = WORKER_DONE \<and> length dat \<ge> SIZEOF_spi1_transfer_resp \<and> dat ! 3 = rq ! 3
              then (s1\<lparr>g_cs_held := (dat ! 2 AND SPI1_XFER_CS_HOLD P \<noteq> 0)\<rparr>, RESP_OK, dat)
              else if st = WORKER_DONE
              then (fst (worker_submit_payload P CMD_SPI1_TRANSFER rq (worker_reset s1)), RESP_ERR_BUSY, [])
              else if st = WORKER_ERR then
                ((worker_reset s1)\<lparr>g_cs_held := False\<rparr>,
                 if e = CC3501E_HW_ERR_NOTIMPL then RESP_ERR_NOT_READY
                 else if e = CC3501E_HW_ERR_INVAL then RESP_ERR_INVALID
                 else RESP_ERR_STATE, [])
              else if st = WORKER_IDLE
              then (fst (worker_submit_payload P CMD_SPI1_TRANSFER rq s1), RESP_ERR_BUSY, [])
              else (s1, RESP_ERR_BUSY, []))"

definition handle_spi1_release :: "'h handler" where
  "handle_spi1_release P rq cap s =
     (if length rq \<noteq> 0 then (s, RESP_ERR_INVALID, [])
      else case handle_worker_routed CMD_SPI1_RELEASE 0 P (length rq) cap s of
        (s', st, dat) \<Rightarrow>
          (if st \<noteq> RESP_ERR_BUSY then s'\<lparr>g_configured := False, g_cs_held := False\<rparr> else s', st, dat))"

end
