(* ===== verification/Dispatch.thy ===== *)
theory Dispatch
  imports Handlers Sockets
begin

text \<open>
  The dispatcher and the framing layer of \<^verbatim>\<open>src/protocol.c\<close>: opcode byte to handler, and the
  two builds of \<open>protocol_build_reply\<close> (with and without the CRC trailer).
\<close>

section \<open>Opcode to handler\<close>

definition system_handler :: "cmd \<Rightarrow> 'h handler" where
  "system_handler c =
     (case c of
        CMD_PING \<Rightarrow> handle_ping
      | CMD_GET_VERSION \<Rightarrow> handle_get_version
      | CMD_GET_MAC \<Rightarrow> handle_get_mac
      | CMD_RESET \<Rightarrow> handle_reset
      | CMD_GET_DIAG_INFO \<Rightarrow> handle_get_diag_info
      | CMD_GET_PENDING_EVENTS \<Rightarrow> handle_get_pending_events
      | CMD_GET_CAPABILITIES \<Rightarrow> handle_get_capabilities
      | CMD_OTA_BEGIN \<Rightarrow> handle_ota_begin
      | CMD_OTA_WRITE \<Rightarrow> handle_ota_write
      | CMD_OTA_FINISH \<Rightarrow> handle_ota_finish
      | CMD_OTA_ABORT \<Rightarrow> handle_ota_abort
      | CMD_OTA_STATUS \<Rightarrow> handle_ota_status
      | CMD_OTA_PROMOTE \<Rightarrow> handle_ota_promote
      | CMD_OTA_UPDATE_MODE \<Rightarrow> handle_ota_update_mode
      | CMD_STREAM_WRITE \<Rightarrow> handle_stream_write
      | CMD_GPIO_CONFIGURE \<Rightarrow> handle_gpio_configure
      | CMD_GPIO_WRITE \<Rightarrow> handle_gpio_write
      | CMD_GPIO_READ \<Rightarrow> handle_gpio_read
      | CMD_GPIO_SET_INTERRUPT \<Rightarrow> handle_gpio_set_interrupt
      | CMD_SPI1_CONFIGURE \<Rightarrow> handle_spi1_configure
      | CMD_SPI1_TRANSFER \<Rightarrow> handle_spi1_transfer
      | CMD_SPI1_RELEASE \<Rightarrow> handle_spi1_release
      | CMD_CAM_ENABLE \<Rightarrow> handle_cam_enable
      | CMD_CAM_DISABLE \<Rightarrow> handle_cam_disable
      | CMD_POWER_POLICY \<Rightarrow> handle_power_policy
      | CMD_DIAG_GET_STATS \<Rightarrow> handle_diag_get_stats
      | _ \<Rightarrow> handle_diag_log_level)"

definition radio_handler :: "cmd \<Rightarrow> 'h handler" where
  "radio_handler c =
     (case c of
        CMD_WIFI_SCAN_START \<Rightarrow> handle_wifi_scan_start
      | CMD_WIFI_SCAN_STOP \<Rightarrow> handle_wifi_scan_stop
      | CMD_WIFI_CONNECT_STA \<Rightarrow> handle_wifi_connect_sta
      | CMD_WIFI_DISCONNECT \<Rightarrow> handle_wifi_disconnect
      | CMD_WIFI_AP_START \<Rightarrow> handle_wifi_ap_start
      | CMD_WIFI_AP_STOP \<Rightarrow> handle_wifi_ap_stop
      | CMD_WIFI_GET_RSSI \<Rightarrow> handle_wifi_get_rssi
      | CMD_WIFI_GET_IP \<Rightarrow> handle_wifi_get_ip
      | CMD_WIFI_STATUS \<Rightarrow> handle_wifi_status
      | CMD_SOCK_OPEN \<Rightarrow> handle_sock_open
      | CMD_SOCK_CONNECT \<Rightarrow> handle_sock_connect
      | CMD_SOCK_SEND \<Rightarrow> handle_sock_send
      | CMD_SOCK_RECV \<Rightarrow> handle_sock_recv
      | CMD_SOCK_CLOSE \<Rightarrow> handle_sock_close
      | CMD_SOCK_BIND \<Rightarrow> handle_sock_bind
      | CMD_SOCK_LISTEN \<Rightarrow> handle_sock_listen
      | CMD_BLE_ENABLE \<Rightarrow> handle_ble_enable
      | CMD_BLE_DISABLE \<Rightarrow> handle_ble_disable
      | CMD_BLE_ADV_START \<Rightarrow> handle_ble_adv_start
      | CMD_BLE_ADV_STOP \<Rightarrow> handle_ble_adv_stop
      | CMD_BLE_SCAN_START \<Rightarrow> handle_ble_scan_start
      | CMD_BLE_SCAN_STOP \<Rightarrow> handle_ble_scan_stop
      | CMD_BLE_CONNECT \<Rightarrow> handle_ble_connect
      | CMD_BLE_DISCONNECT \<Rightarrow> handle_ble_disconnect
      | CMD_BLE_GATT_REGISTER \<Rightarrow> handle_ble_gatt_register
      | CMD_BLE_GATT_NOTIFY \<Rightarrow> handle_ble_gatt_notify
      | CMD_BLE_GATT_READ \<Rightarrow> handle_ble_gatt_read
      | _ \<Rightarrow> handle_ble_gatt_write)"

definition radio_cmds :: "cmd list" where
  "radio_cmds =
    [CMD_WIFI_SCAN_START, CMD_WIFI_SCAN_STOP, CMD_WIFI_CONNECT_STA, CMD_WIFI_DISCONNECT,
     CMD_WIFI_AP_START, CMD_WIFI_AP_STOP, CMD_WIFI_GET_RSSI, CMD_WIFI_GET_IP, CMD_WIFI_STATUS,
     CMD_SOCK_OPEN, CMD_SOCK_CONNECT, CMD_SOCK_SEND, CMD_SOCK_RECV, CMD_SOCK_CLOSE,
     CMD_SOCK_BIND, CMD_SOCK_LISTEN,
     CMD_BLE_ENABLE, CMD_BLE_DISABLE, CMD_BLE_ADV_START, CMD_BLE_ADV_STOP,
     CMD_BLE_SCAN_START, CMD_BLE_SCAN_STOP, CMD_BLE_CONNECT, CMD_BLE_DISCONNECT,
     CMD_BLE_GATT_REGISTER, CMD_BLE_GATT_NOTIFY, CMD_BLE_GATT_READ, CMD_BLE_GATT_WRITE]"

definition handler_of :: "cmd \<Rightarrow> 'h handler" where
  "handler_of c = (if c \<in> set radio_cmds then radio_handler c else system_handler c)"

definition protocol_dispatch ::
    "'h platform \<Rightarrow> byte \<Rightarrow> byte \<Rightarrow> byte list \<Rightarrow> nat \<Rightarrow> 'h fw \<Rightarrow> 'h fw \<times> resp \<times> byte list" where
  "protocol_dispatch P b flags rq reply_cap s =
     (let s1 = s\<lparr>s_current_req_seq := req_seq_of_flags flags\<rparr>
      in case decode_cmd P b of
           None \<Rightarrow> (s1, RESP_ERR_INVALID, [])
         | Some c \<Rightarrow> handler_of c P rq reply_cap s1)"

section \<open>Framing\<close>

definition fw_crc :: "'h platform \<Rightarrow> u16 \<Rightarrow> byte list \<Rightarrow> 'h fw \<Rightarrow> 'h fw \<times> u16" where
  "fw_crc P v bytes s =
     (case crc16_table_update (alp_crc16_update P) (crc s) v bytes of
        (t, v') \<Rightarrow> (s\<lparr>crc := t\<rparr>, v'))"

text \<open>The request side of the CRC build: which frames reach the dispatcher.\<close>

definition serve_request_crc ::
    "'h platform \<Rightarrow> byte list \<Rightarrow> nat \<Rightarrow> 'h fw \<Rightarrow> 'h fw \<times> resp \<times> byte list" where
  "serve_request_crc P frame reply_cap s =
     (if length frame < HEADER_BYTES then (s, RESP_ERR_PROTOCOL, [])
      else let cmd_echo = frame ! 0; flags = frame ! 1; payload_len = unat (get_le16 frame 2);
               cap = reply_cap - CC3501E_REPLY_DATA_OFF - CRC_BYTES
           in if HEADER_BYTES + payload_len \<noteq> length frame then (s, RESP_ERR_PROTOCOL, [])
              else if cmd_echo = cmd_val P CMD_GET_VERSION \<and> payload_len = 0
              then protocol_dispatch P cmd_echo flags [] cap s
              else if payload_len \<ge> CRC_BYTES then
                let logical_len = payload_len - CRC_BYTES;
                    rq = take logical_len (drop HEADER_BYTES frame)
                in case fw_crc P CRC16_INIT (take HEADER_BYTES frame) s of (s1, c1) \<Rightarrow>
                   case (if logical_len > 0 then fw_crc P c1 rq s1 else (s1, c1)) of (s2, c2) \<Rightarrow>
                     if c2 = get_le16 frame (HEADER_BYTES + logical_len)
                     then protocol_dispatch P cmd_echo flags rq cap s2
                     else (s2, RESP_ERR_PROTOCOL, [])
              else (s, RESP_ERR_PROTOCOL, []))"

definition serve_request_nocrc ::
    "'h platform \<Rightarrow> byte list \<Rightarrow> nat \<Rightarrow> 'h fw \<Rightarrow> 'h fw \<times> resp \<times> byte list" where
  "serve_request_nocrc P frame reply_cap s =
     (if length frame < HEADER_BYTES then (s, RESP_ERR_PROTOCOL, [])
      else let cmd_echo = frame ! 0; flags = frame ! 1; payload_len = unat (get_le16 frame 2);
               cap = reply_cap - CC3501E_REPLY_DATA_OFF
           in if HEADER_BYTES + payload_len \<noteq> length frame then (s, RESP_ERR_PROTOCOL, [])
              else if cmd_echo = cmd_val P CMD_GET_VERSION \<and> payload_len = CRC_BYTES then
                case fw_crc P CRC16_INIT (take HEADER_BYTES frame) s of (s1, c1) \<Rightarrow>
                  if c1 = get_le16 frame HEADER_BYTES
                  then protocol_dispatch P cmd_echo flags [] cap s1
                  else (s1, RESP_ERR_PROTOCOL, [])
              else protocol_dispatch P cmd_echo flags (drop HEADER_BYTES frame) cap s)"

text \<open>A reply that would not fit is replaced by \<open>NO_MEM\<close>; then the frame counters move.\<close>

definition clamp_reply :: "nat \<Rightarrow> resp \<times> byte list \<Rightarrow> resp \<times> byte list" where
  "clamp_reply data_cap r = (if length (snd r) > data_cap then (RESP_ERR_NO_MEM, []) else r)"

definition count_frame :: "resp \<Rightarrow> 'h fw \<Rightarrow> 'h fw" where
  "count_frame status s =
     (if status = RESP_OK then s\<lparr>g_frames_ok := g_frames_ok s + 1\<rparr>
      else s\<lparr>g_frames_err := g_frames_err s + 1, g_last_error := status\<rparr>)"

text \<open>The padding that lifts the payload to a multiple of \<open>CC3501E_REPLY_PAD\<close>, when it fits.\<close>

definition reply_pad :: "nat \<Rightarrow> nat \<Rightarrow> nat" where
  "reply_pad reply_payload reply_cap =
     (let rem = reply_payload mod CC3501E_REPLY_PAD; pad = CC3501E_REPLY_PAD - rem
      in if rem \<noteq> 0 \<and> HEADER_BYTES + reply_payload + pad \<le> reply_cap then pad else 0)"

definition cmd_echo_of :: "byte list \<Rightarrow> byte" where
  "cmd_echo_of frame = (if length frame \<ge> 1 then frame ! 0 else 0)"

definition reply_header :: "byte \<Rightarrow> nat \<Rightarrow> byte list" where
  "reply_header cmd_echo reply_payload = [cmd_echo, 0] @ put_le16 (word_of_nat reply_payload)"

definition emit_reply_crc ::
    "'h platform \<Rightarrow> byte \<Rightarrow> nat \<Rightarrow> resp \<Rightarrow> byte list \<Rightarrow> 'h fw \<Rightarrow> 'h fw \<times> byte list" where
  "emit_reply_crc P cmd_echo reply_cap status dat s =
     (let payload0 = unat (word_of_nat (1 + length dat + CRC_BYTES) :: u16);
          pad = reply_pad payload0 reply_cap;
          reply_payload = unat (word_of_nat (payload0 + pad) :: u16);
          hdr = reply_header cmd_echo reply_payload;
          body = take (reply_payload - CRC_BYTES) (resp_val P status # dat @ replicate pad 0)
      in case fw_crc P CRC16_INIT hdr s of (s1, c1) \<Rightarrow>
         case fw_crc P c1 body s1 of (s2, c2) \<Rightarrow> (s2, hdr @ body @ put_le16 c2))"

definition emit_reply_nocrc ::
    "'h platform \<Rightarrow> byte \<Rightarrow> nat \<Rightarrow> resp \<Rightarrow> byte list \<Rightarrow> 'h fw \<Rightarrow> 'h fw \<times> byte list" where
  "emit_reply_nocrc P cmd_echo reply_cap status dat s =
     (let payload0 = unat (word_of_nat (1 + length dat) :: u16);
          pad = reply_pad payload0 reply_cap;
          reply_payload = unat (word_of_nat (payload0 + pad) :: u16);
          st = (if status = RESP_OK then resp_ok_legacy P else resp_val P status)
      in (s, reply_header cmd_echo reply_payload
               @ take reply_payload (st # dat @ replicate pad 0)))"

definition protocol_build_reply_crc ::
    "'h platform \<Rightarrow> byte list \<Rightarrow> nat \<Rightarrow> 'h fw \<Rightarrow> 'h fw \<times> byte list" where
  "protocol_build_reply_crc P frame reply_cap s =
     (if reply_cap < CC3501E_REPLY_DATA_OFF + CRC_BYTES then (s, [])
      else case serve_request_crc P frame reply_cap s of (s1, reply) \<Rightarrow>
           case clamp_reply (reply_cap - CC3501E_REPLY_DATA_OFF - CRC_BYTES) reply of (status, dat) \<Rightarrow>
             emit_reply_crc P (cmd_echo_of frame) reply_cap status dat (count_frame status s1))"

definition protocol_build_reply_nocrc ::
    "'h platform \<Rightarrow> byte list \<Rightarrow> nat \<Rightarrow> 'h fw \<Rightarrow> 'h fw \<times> byte list" where
  "protocol_build_reply_nocrc P frame reply_cap s =
     (if reply_cap < CC3501E_REPLY_DATA_OFF then (s, [])
      else case serve_request_nocrc P frame reply_cap s of (s1, reply) \<Rightarrow>
           case clamp_reply (reply_cap - CC3501E_REPLY_DATA_OFF) reply of (status, dat) \<Rightarrow>
             emit_reply_nocrc P (cmd_echo_of frame) reply_cap status dat (count_frame status s1))"

definition protocol_build_reply ::
    "'h platform \<Rightarrow> byte list \<Rightarrow> nat \<Rightarrow> 'h fw \<Rightarrow> 'h fw \<times> byte list" where
  "protocol_build_reply P =
     (if WIRE_CRC P then protocol_build_reply_crc P else protocol_build_reply_nocrc P)"

end
