(* ===== verification/Fw_Inv.thy ===== *)
theory Fw_Inv
  imports Routed
begin

text \<open>
  The well-formedness invariant of the firmware state and its preservation by the worker: every
  buffer has its declared size, every length stays within its buffer, the latch and the caches
  hold only what may be replayed, the CRC table is the one built from the header's routine.
\<close>

definition job_wf :: "worker_job \<Rightarrow> bool" where
  "job_wf j \<longleftrightarrow> length (result j) = MAX_PAYLOAD \<and> length (req j) = MAX_PAYLOAD
     \<and> result_len j \<le> MAX_PAYLOAD \<and> req_len j \<le> MAX_PAYLOAD
     \<and> (state j \<noteq> WORKER_DONE \<longrightarrow> result_len j = 0) \<and> (state j \<noteq> WORKER_ERR \<longrightarrow> err j = 0)"

definition latch_wf :: "retry_latch \<Rightarrow> bool" where
  "latch_wf l \<longleftrightarrow> (valid l \<longrightarrow> length (latch_data l) \<le> RETRY_LATCH_DATA
     \<and> latch_seq l \<noteq> CC3501E_REQ_SEQ_NONE \<and> latch_seq l \<le> CC3501E_REQ_SEQ_MASK
     \<and> retry_latch_applies (latch_cmd l))"

definition recv_wf :: "'h platform \<Rightarrow> sock_recv_cache \<Rightarrow> bool" where
  "recv_wf P c \<longleftrightarrow> length (wk_reply c) = CC3501E_REPLY_DATA_MAX (WIRE_CRC P)
     \<and> wk_reply_len c \<le> CC3501E_REPLY_DATA_MAX (WIRE_CRC P)"

definition fw_inv :: "'h platform \<Rightarrow> 'h fw \<Rightarrow> bool" where
  "fw_inv P s \<longleftrightarrow> job_wf (job s) \<and> latch_wf (s_retry_latch s) \<and> recv_wf P (sock_recv s)
     \<and> length (send_reply (sock_send s)) = 2 \<and> s_current_req_seq s \<le> CC3501E_REQ_SEQ_MASK
     \<and> crc_inv (alp_crc16_update P) (crc s) \<and> ring_inv (ring s)"

lemma fw_inv_ring: "fw_inv P s \<Longrightarrow> ring_inv (ring s)"
  by (simp add: fw_inv_def)

lemma fw_inv_crc: "fw_inv P s \<Longrightarrow> crc_inv (alp_crc16_update P) (crc s)"
  by (simp add: fw_inv_def)

lemma fw_inv_reset: "fw_inv P (fw_reset P h)"
  by (simp add: fw_inv_def fw_reset_def job_wf_def job_reset_def latch_wf_def recv_wf_def
      crc_inv_reset ring_inv_reset)

section \<open>Polling\<close>

lemma poll_terminal:
  "fst (snd (worker_poll c cap s)) \<in> {WORKER_DONE, WORKER_ERR} \<Longrightarrow>
   fst (worker_poll c cap s) = s \<and> terminal (state (job s))"
  by (cases "state (job s)"; cases "job_cmd (job s) = c")
    (simp_all add: worker_poll_def Let_def terminal_def)

lemma poll_idle:
  "fst (snd (worker_poll c cap s)) = WORKER_IDLE \<Longrightarrow>
   state (job (fst (worker_poll c cap s))) = WORKER_IDLE"
  by (cases "state (job s)"; cases "job_cmd (job s) = c")
    (simp_all add: worker_poll_def Let_def job_clear_def split: if_splits)

text \<open>A poll delivers bytes only of a finished job of its own opcode, and all of them.\<close>

lemma poll_done:
  "fst (snd (worker_poll c cap s)) = WORKER_DONE \<longleftrightarrow>
   state (job s) = WORKER_DONE \<and> job_cmd (job s) = c \<and> result_len (job s) \<le> cap"
  by (cases "state (job s)"; cases "job_cmd (job s) = c")
    (simp_all add: worker_poll_def Let_def not_less)

lemma length_poll_data: "length (fst (snd (snd (worker_poll c cap s)))) \<le> cap"
  by (simp add: worker_poll_def Let_def) arith

section \<open>Preservation by the worker\<close>

lemma job_wf_clear [simp]: "job_wf j \<Longrightarrow> job_wf (job_clear j)"
  by (simp add: job_wf_def job_clear_def)

lemma req_seq_le: "req_seq_of_flags fl \<le> CC3501E_REQ_SEQ_MASK"
  by (simp add: req_seq_of_flags_def word_and_le1)

lemma fw_inv_publish:
  assumes "fw_inv P s" and "result_len (job s) = 0" and "err (job s) = 0"
  shows "fw_inv P (worker_publish c rv bytes s)"
  using assms
  by (auto simp: fw_inv_def worker_publish_def Let_def job_wf_def recv_wf_def
      protocol_sock_recv_worker_invalidate_def protocol_sock_recv_worker_copy_def
      protocol_sock_recv_worker_publish_def protocol_sock_send_on_worker_complete_def)

lemma fw_inv_execute:
  assumes "fw_inv P s" and "result_len (job s) = 0" and "err (job s) = 0"
  shows "fw_inv P (worker_execute P c s)"
proof -
  obtain h rv bytes where b: "worker_body P c (req (job s)) (req_len (job s)) (hw s) = (h, rv, bytes)"
    by (metis prod_cases3)
  have "fw_inv P (s\<lparr>g_worker_execs := g_worker_execs s + 1, hw := h\<rparr>)"
    using assms(1) by (simp add: fw_inv_def)
  from fw_inv_publish [OF this] assms show ?thesis by (simp add: worker_execute_def b)
qed

lemma job_wf_start:
  assumes "job_wf j" and "state j = WORKER_IDLE" and "st \<noteq> WORKER_DONE"
  shows "job_wf (j\<lparr>state := st, job_cmd := c, result_len := 0, err := 0\<rparr>)"
  using assms by (simp add: job_wf_def)

lemma fw_inv_job: "fw_inv P s \<Longrightarrow> job_wf j \<Longrightarrow> fw_inv P (s\<lparr>job := j\<rparr>)"
  by (simp add: fw_inv_def)

lemma fw_inv_sync:
  assumes "fw_inv P s" and "result_len (job s) = 0" and "err (job s) = 0"
    and "state (job s) = WORKER_QUEUED"
  shows "fw_inv P (run_if_sync P c s)"
proof (cases "BUILD_WIFI P")
  case False
  have "fw_inv P (s\<lparr>job := (job s)\<lparr>state := WORKER_RUNNING\<rparr>\<rparr>)"
    using assms by (simp add: fw_inv_def job_wf_def)
  from fw_inv_execute [OF this] assms False show ?thesis by (simp add: run_if_sync_def)
qed (simp add: run_if_sync_def assms)

lemma fw_inv_submit: "fw_inv P s \<Longrightarrow> fw_inv P (fst (worker_submit P c s))"
  by (auto simp: worker_submit_def intro!: fw_inv_sync fw_inv_job)
     (simp add: fw_inv_def job_wf_def)

lemma fw_inv_submit_payload: "fw_inv P s \<Longrightarrow> fw_inv P (fst (worker_submit_payload P c rq s))"
  by (auto simp: worker_submit_payload_def intro!: fw_inv_sync fw_inv_job)
     (simp add: fw_inv_def job_wf_def)

lemma fw_inv_hw: "fw_inv P s \<Longrightarrow> fw_inv P (s\<lparr>hw := h\<rparr>)"
  by (simp add: fw_inv_def)

lemma fw_inv_reset_job: "fw_inv P s \<Longrightarrow> fw_inv P (worker_reset s)"
  by (simp add: worker_reset_def fw_inv_def)

lemma fw_inv_run_pending:
  assumes "fw_inv P s"
  shows "fw_inv P (worker_run_pending P s)"
proof (cases "state (job s) = WORKER_QUEUED")
  case True
  let ?s = "s\<lparr>job := (job s)\<lparr>state := WORKER_RUNNING\<rparr>, hw := bridge_busy (link P) (hw s)\<rparr>"
  have "fw_inv P ?s" and "result_len (job ?s) = 0" and "err (job ?s) = 0"
    using assms True by (auto simp: fw_inv_def job_wf_def)
  then have "fw_inv P (worker_execute P c ?s)" for c by (rule fw_inv_execute)
  with worker_run_pending_queued [OF True, of P] show ?thesis
    by (auto simp: Let_def fw_inv_hw fw_inv_reset_job)
qed (simp add: worker_run_pending_idle assms)

end
