(* ===== verification/Handler_Inv.thy ===== *)
theory Handler_Inv
  imports Dispatch Fw_Inv
begin

text \<open>
  What every opcode handler leaves alone.  The locale \<open>handler_invariant\<close> is the contract between
  the dispatcher and the state it works on: a predicate on the firmware state that survives the
  few primitive state changes handlers are made of (a driver call, a latch or cache update, a
  submit to an idle slot, clearing a finished job, draining the ring) survives every request.
  The interpretations at the end instantiate it with the well-formedness of the whole state and
  with the identity of a job in flight.
\<close>

section \<open>The contract\<close>

locale handler_invariant =
  fixes P :: "'h platform" and I :: "'h fw \<Rightarrow> bool"
  assumes I_hw: "I s \<Longrightarrow> I (s\<lparr>hw := h\<rparr>)"
    and I_seq: "I s \<Longrightarrow> I (s\<lparr>s_current_req_seq := req_seq_of_flags fl\<rparr>)"
    and I_hits: "I s \<Longrightarrow> I (s\<lparr>g_retry_latch_hits := n\<rparr>)"
    and I_unlatch: "I s \<Longrightarrow> I (s\<lparr>s_retry_latch := (s_retry_latch s)\<lparr>valid := False\<rparr>\<rparr>)"
    and I_latch: "I s \<Longrightarrow> length dat \<le> RETRY_LATCH_DATA \<Longrightarrow> s_current_req_seq s \<noteq> 0 \<Longrightarrow>
      retry_latch_applies c \<Longrightarrow> I (s\<lparr>s_retry_latch := \<lparr>valid = True, latch_cmd = c, latch_seq = s_current_req_seq s,
             latch_status = st, latch_data = dat\<rparr>\<rparr>)"
    and I_clear: "I s \<Longrightarrow> terminal (state (job s)) \<Longrightarrow> I (s\<lparr>job := job_clear (job s)\<rparr>)"
    and I_submit: "I s \<Longrightarrow> state (job s) = WORKER_IDLE \<Longrightarrow> I (fst (worker_submit P c s))"
    and I_submit_payload: "I s \<Longrightarrow> state (job s) = WORKER_IDLE \<Longrightarrow>
      I (fst (worker_submit_payload P c rq s))"
    and I_send: "I s \<Longrightarrow> I (s\<lparr>sock_send := sock_send_expire q (sock_send s)\<rparr>)"
    and I_recv: "I s \<Longrightarrow> wk_reply k = wk_reply (sock_recv s) \<Longrightarrow>
      wk_reply_len k = wk_reply_len (sock_recv s) \<Longrightarrow> I (s\<lparr>sock_recv := k\<rparr>)"
    and I_spi1: "I s \<Longrightarrow> I (s\<lparr>g_configured := a, g_cs_held := b\<rparr>)"
    and I_held: "I s \<Longrightarrow> I (s\<lparr>g_cs_held := b\<rparr>)"
    and I_stream: "I s \<Longrightarrow> I (s\<lparr>g_stream_bytes := n\<rparr>)"
    and I_drain: "I s \<Longrightarrow> I (s\<lparr>ring := fst (event_ring_drain cap (ring s))\<rparr>)"
begin

lemma I_void: "I s \<Longrightarrow> I (hw_void f s)"
  by (simp add: hw_void_def I_hw)

lemma I_call: "I s \<Longrightarrow> I (fst (hw_call f s))"
  by (simp add: fst_hw_call I_hw)

lemma I_forward: "I s \<Longrightarrow> I (fst (hw_forward f s))"
  by (simp add: hw_forward_def split_beta I_call)

lemma I_serve: "I s \<Longrightarrow> I (fst (retry_latch_serve c cap s))"
  by (simp add: retry_latch_serve_def Let_def I_hits I_unlatch)

lemma I_store: "I s \<Longrightarrow> I (retry_latch_store c st dat s)"
  by (simp add: retry_latch_store_def protocol_reset_retry_latch_def CC3501E_REQ_SEQ_NONE_def
      I_unlatch I_latch)

lemma I_poll: "I s \<Longrightarrow> I (fst (worker_poll c cap s))"
  using I_clear [of s] by (auto simp: worker_poll_def Let_def terminal_def)

lemma I_reset: "I s \<Longrightarrow> terminal (state (job s)) \<Longrightarrow> I (worker_reset s)"
  by (simp add: worker_reset_def I_clear)

lemma I_collect:
  assumes "I s" and "\<And>t. I t \<Longrightarrow> state (job t) = WORKER_IDLE \<Longrightarrow> I (f t)"
  shows "I (fst (worker_collect c f (worker_poll c' cap s)))"
proof -
  obtain t st dat e where p: "worker_poll c' cap s = (t, st, dat, e)"
    by (metis prod_cases4)
  have "I t" using I_poll [OF assms(1), of c' cap] p by simp
  then show ?thesis
    using poll_terminal [of c' cap s] poll_idle [of c' cap s] assms
    by (cases st) (auto simp: worker_collect_def p I_store I_reset)
qed

lemma I_routed:
  assumes "I s"
  shows "I (fst (handle_worker_routed c m P n cap s))"
proof -
  obtain s1 r where sv: "retry_latch_serve c cap s = (s1, r)" by fastforce
  then have "I s1" using I_serve [OF assms, of c cap] by simp
  from I_collect [OF this, of "\<lambda>s. fst (worker_submit P c s)"] show ?thesis
    using assms \<open>I s1\<close> by (cases r) (simp_all add: handle_worker_routed_def sv I_submit)
qed

lemma I_routed_payload:
  assumes "I s"
  shows "I (fst (handle_worker_routed_payload c P rq s))"
proof -
  let ?f = "\<lambda>s. fst (worker_submit_payload P c rq
    (if c = CMD_WIFI_CONNECT_STA then hw_void (hw_wifi_mark_connecting (wifi P)) s else s))"
  have f: "I (?f t)" if "I t" "state (job t) = WORKER_IDLE" for t
    using that by (simp add: I_submit_payload I_hw hw_void_def)
  obtain s1 r where sv: "retry_latch_serve c 0 s = (s1, r)" by fastforce
  then have "I s1" using I_serve [OF assms, of c 0] by simp
  from I_collect [OF this f] show ?thesis
    using \<open>I s1\<close> by (cases r) (simp_all add: handle_worker_routed_payload_def sv)
qed

lemma I_routed_payload_reply:
  assumes "I s"
  shows "I (fst (handle_worker_routed_payload_reply c m P rq cap s))"
proof -
  let ?f = "\<lambda>s. fst (worker_submit_payload P c rq (if c = CMD_SOCK_RECV
    then s\<lparr>sock_recv := protocol_sock_recv_note_submit (s_current_req_seq s) (sock_recv s)\<rparr> else s))"
  have f: "I (?f t)" if "I t" "state (job t) = WORKER_IDLE" for t
    using that by (simp add: I_submit_payload I_recv protocol_sock_recv_note_submit_def)
  obtain s1 r where sv: "retry_latch_serve c cap s = (s1, r)" by fastforce
  then have "I s1" using I_serve [OF assms, of c cap] by simp
  from I_collect [OF this f] show ?thesis
    using assms \<open>I s1\<close> by (cases r) (simp_all add: handle_worker_routed_payload_reply_def sv)
qed

lemmas I_rules = I_hw I_void I_call I_forward I_routed I_routed_payload I_routed_payload_reply

subsection \<open>Every handler\<close>

lemma I_meta_handlers:
  assumes "I s"
  shows "I (fst (handle_ping P rq cap s))" "I (fst (handle_get_version P rq cap s))"
    "I (fst (handle_get_capabilities P rq cap s))" "I (fst (handle_stream_write P rq cap s))"
    "I (fst (handle_get_mac P rq cap s))" "I (fst (handle_reset P rq cap s))"
  using assms
  by (simp_all add: handle_ping_def handle_get_version_def handle_get_capabilities_def
      handle_stream_write_def handle_get_mac_def handle_reset_def I_rules I_stream)

lemma I_wifi_handlers:
  assumes "I s"
  shows "I (fst (handle_wifi_scan_start P rq cap s))" "I (fst (handle_wifi_scan_stop P rq cap s))"
    "I (fst (handle_wifi_connect_sta P rq cap s))" "I (fst (handle_wifi_ap_start P rq cap s))"
    "I (fst (handle_wifi_disconnect P rq cap s))" "I (fst (handle_wifi_ap_stop P rq cap s))"
    "I (fst (handle_wifi_get_rssi P rq cap s))" "I (fst (handle_wifi_get_ip P rq cap s))"
    "I (fst (handle_wifi_status P rq cap s))"
  using assms
  by (simp_all add: handle_wifi_scan_start_def handle_wifi_scan_stop_def
      handle_wifi_connect_sta_def handle_wifi_ap_start_def handle_wifi_disconnect_def
      handle_wifi_ap_stop_def handle_wifi_get_rssi_def handle_wifi_get_ip_def
      handle_wifi_status_def wifi_join_def I_rules Let_def split_beta)

lemma I_ble_handlers:
  assumes "I s"
  shows "I (fst (handle_ble_enable P rq cap s))" "I (fst (handle_ble_disable P rq cap s))"
    "I (fst (handle_ble_adv_start P rq cap s))" "I (fst (handle_ble_adv_stop P rq cap s))"
    "I (fst (handle_ble_scan_start P rq cap s))" "I (fst (handle_ble_scan_stop P rq cap s))"
    "I (fst (handle_ble_connect P rq cap s))" "I (fst (handle_ble_disconnect P rq cap s))"
    "I (fst (handle_ble_gatt_register P rq cap s))" "I (fst (handle_ble_gatt_notify P rq cap s))"
    "I (fst (handle_ble_gatt_read P rq cap s))" "I (fst (handle_ble_gatt_write P rq cap s))"
  using assms
  by (simp_all add: handle_ble_enable_def handle_ble_disable_def handle_ble_adv_start_def
      handle_ble_adv_stop_def handle_ble_scan_start_def handle_ble_scan_stop_def
      handle_ble_connect_def handle_ble_disconnect_def handle_ble_gatt_register_def
      handle_ble_gatt_notify_def handle_ble_gatt_read_def handle_ble_gatt_write_def I_rules
      split: option.split)

lemma I_board_handlers:
  assumes "I s"
  shows "I (fst (handle_gpio_configure P rq cap s))" "I (fst (handle_gpio_write P rq cap s))"
    "I (fst (handle_gpio_read P rq cap s))" "I (fst (handle_gpio_set_interrupt P rq cap s))"
    "I (fst (handle_cam_enable P rq cap s))" "I (fst (handle_cam_disable P rq cap s))"
    "I (fst (handle_power_policy P rq cap s))" "I (fst (handle_diag_log_level P rq cap s))"
    "I (fst (handle_diag_get_stats P rq cap s))" "I (fst (handle_get_diag_info P rq cap s))"
    "I (fst (handle_get_pending_events P rq cap s))"
  using assms
  by (simp_all add: handle_gpio_configure_def handle_gpio_write_def handle_gpio_read_def
      handle_gpio_set_interrupt_def handle_cam_enable_def handle_cam_disable_def
      handle_power_policy_def handle_diag_log_level_def handle_diag_get_stats_def
      handle_get_diag_info_def handle_get_pending_events_def I_rules I_drain Let_def split_beta)

lemma I_ota_handlers:
  assumes "I s"
  shows "I (fst (handle_ota_begin P rq cap s))" "I (fst (handle_ota_write P rq cap s))"
    "I (fst (handle_ota_finish P rq cap s))" "I (fst (handle_ota_abort P rq cap s))"
    "I (fst (handle_ota_promote P rq cap s))" "I (fst (handle_ota_update_mode P rq cap s))"
    "I (fst (handle_ota_status P rq cap s))"
  using assms
  by (simp_all add: handle_ota_begin_def handle_ota_write_def handle_ota_finish_def
      handle_ota_abort_def handle_ota_promote_def handle_ota_update_mode_def
      handle_ota_status_def ota_link_byte_def I_rules Let_def split_beta)

lemma I_reclaim:
  assumes "I s"
  shows "I (fst (worker_reclaim_matching_terminal c i b s))"
    "I (fst (worker_discard_stale_terminal c i b s))" "I (fst (worker_discard_stale_recv s))"
  using assms I_clear [of s]
  by (simp_all add: worker_reclaim_matching_terminal_def worker_discard_stale_terminal_def
      worker_discard_stale_recv_def)

lemma I_sock_control_handlers:
  assumes "I s"
  shows "I (fst (handle_sock_open P rq cap s))" "I (fst (handle_sock_connect P rq cap s))"
    "I (fst (handle_sock_bind P rq cap s))" "I (fst (handle_sock_listen P rq cap s))"
    "I (fst (handle_sock_close P rq cap s))"
  using assms I_recv [of s]
  by (simp_all add: handle_sock_open_def handle_sock_connect_def handle_sock_bind_def
      handle_sock_listen_def handle_sock_close_def I_rules Let_def)

lemma I_sock_send: "I s \<Longrightarrow> I (fst (handle_sock_send P rq cap s))"
  by (simp add: handle_sock_send_def Let_def I_rules I_reclaim I_send)

lemma I_from_ring: "I s \<Longrightarrow> I (fst (sock_recv_from_ring P hd' ml cap s))"
  by (simp add: sock_recv_from_ring_def Let_def split_beta I_call I_recv)

lemma I_from_worker: "I s \<Longrightarrow> I (fst (sock_recv_from_worker P rq cap s))"
  by (simp add: sock_recv_from_worker_def Let_def I_rules I_reclaim I_recv)

lemma I_sock_recv:
  assumes "I s"
  shows "I (fst (handle_sock_recv P rq cap s))"
proof -
  let ?s = "s\<lparr>sock_recv := sock_recv_expire (protocol_current_req_seq s) (get_le16 rq 0)
    (get_le16 rq 2) (sock_recv s)\<rparr>"
  have "I ?s" using assms by (simp add: I_recv sock_recv_expire_def)
  moreover obtain s2 r where
    "sock_recv_from_ring P (get_le16 rq 0) (get_le16 rq 2) cap ?s = (s2, r)" by fastforce
  ultimately show ?thesis
    using assms I_from_ring [of ?s "get_le16 rq 0" "get_le16 rq 2" cap] I_from_worker [of s2 rq cap]
    by (cases r) (simp_all add: handle_sock_recv_def Let_def)
qed

lemma I_spi1_configure: "I s \<Longrightarrow> I (fst (handle_spi1_configure P rq cap s))"
  by (simp add: handle_spi1_configure_def split_beta I_rules I_spi1)

lemma I_spi1_release: "I s \<Longrightarrow> I (fst (handle_spi1_release P rq cap s))"
  by (simp add: handle_spi1_release_def split_beta I_rules I_spi1)

lemma I_spi1_transfer:
  assumes "I s"
  shows "I (fst (handle_spi1_transfer P rq cap s))"
proof -
  obtain t st dat e where p: "worker_poll CMD_SPI1_TRANSFER cap s = (t, st, dat, e)"
    by (metis prod_cases4)
  have t: "I t" using I_poll [OF assms, of CMD_SPI1_TRANSFER cap] p by simp
  have fin: "terminal (state (job t))" if "st = WORKER_DONE \<or> st = WORKER_ERR"
    using poll_terminal [of CMD_SPI1_TRANSFER cap s] p that by auto
  have idle: "state (job t) = WORKER_IDLE" if "st = WORKER_IDLE"
    using poll_idle [of CMD_SPI1_TRANSFER cap s] p that by simp
  have reset: "I (worker_reset t)" "state (job (worker_reset t)) = WORKER_IDLE"
    if "st = WORKER_DONE \<or> st = WORKER_ERR"
    using t fin [OF that] by (simp_all add: I_reset) (simp add: worker_reset_def job_clear_def)
  show ?thesis
    using assms t idle reset
    by (cases st)
      (simp_all add: handle_spi1_transfer_def p I_held I_submit_payload split: option.split)
qed

lemma I_handler: "I s \<Longrightarrow> I (fst (handler_of c P rq cap s))"
  by (cases c)
    (simp_all add: handler_of_def radio_cmds_def radio_handler_def system_handler_def
      I_meta_handlers I_wifi_handlers I_ble_handlers I_board_handlers I_ota_handlers
      I_sock_control_handlers I_sock_send I_sock_recv I_spi1_configure I_spi1_release
      I_spi1_transfer)

lemma I_dispatch:
  assumes "I s"
  shows "I (fst (protocol_dispatch P b fl rq cap s))"
  using I_handler [OF I_seq [OF assms, of fl]] I_seq [OF assms, of fl]
  by (cases "decode_cmd P b") (simp_all add: protocol_dispatch_def Let_def)

end

section \<open>Whole frames\<close>

text \<open>The same contract one level up: also the CRC table and the frame counters may change.\<close>

locale frame_invariant = handler_invariant P I for P :: "'h platform" and I :: "'h fw \<Rightarrow> bool" +
  assumes I_crc: "I s \<Longrightarrow> I (fst (fw_crc P v bs s))"
    and I_count: "I s \<Longrightarrow> I (count_frame st s)"
begin

lemma I_serve_crc:
  assumes "I s"
  shows "I (fst (serve_request_crc P fr cap s))"
proof -
  have two: "I (fst (case fw_crc P v xs s of (s1, c1) \<Rightarrow>
      case (if b then fw_crc P c1 ys s1 else (s1, c1)) of (s2, c2) \<Rightarrow>
        if c2 = w then protocol_dispatch P o1 fl rq cp s2 else (s2, RESP_ERR_PROTOCOL, [])))"
    for v xs b ys w o1 fl rq cp
    using I_crc [OF assms, of v xs] I_crc I_dispatch by (auto simp: split_beta)
  show ?thesis
    using assms I_dispatch [OF assms] two by (simp add: serve_request_crc_def Let_def)
qed

lemma I_serve_nocrc:
  assumes "I s"
  shows "I (fst (serve_request_nocrc P fr cap s))"
  using assms I_dispatch I_crc by (simp add: serve_request_nocrc_def Let_def split_beta)

lemma I_emit: "I s \<Longrightarrow> I (fst (emit_reply_crc P b cap st dat s))"
  "I s \<Longrightarrow> I (fst (emit_reply_nocrc P b cap st dat s))"
  using I_crc by (simp_all add: emit_reply_crc_def emit_reply_nocrc_def Let_def split_beta)

lemma I_build_reply: "I s \<Longrightarrow> I (fst (protocol_build_reply P fr cap s))"
  by (simp add: protocol_build_reply_def protocol_build_reply_crc_def
      protocol_build_reply_nocrc_def split_beta I_serve_crc I_serve_nocrc I_emit I_count)

lemma I_frames: "I s \<Longrightarrow> I (fold (\<lambda>fr s. fst (protocol_build_reply P fr cap s)) frs s)"
  by (induction frs arbitrary: s) (simp_all add: I_build_reply)

end

section \<open>Interpretations\<close>

text \<open>The well-formedness of the whole state.\<close>

interpretation wf: frame_invariant P "fw_inv P" for P :: "'h platform"
proof
  fix s :: "'h fw" and fl :: byte and cap :: nat
  show "fw_inv P s \<Longrightarrow> fw_inv P (s\<lparr>s_current_req_seq := req_seq_of_flags fl\<rparr>)"
    by (simp add: fw_inv_def req_seq_le)
  show "fw_inv P s \<Longrightarrow> fw_inv P (s\<lparr>ring := fst (event_ring_drain cap (ring s))\<rparr>)"
    by (simp add: fw_inv_def event_ring_drain_spec)
  show "fw_inv P s \<Longrightarrow> fw_inv P (fst (fw_crc P v bs s))" for v bs
    using crc_inv_update [of "alp_crc16_update P" "crc s" v bs]
    by (auto simp: fw_crc_def fw_inv_def split: prod.split)
  show "fw_inv P s \<Longrightarrow> fw_inv P (count_frame st s)" for st
    by (simp add: count_frame_def fw_inv_def)
qed (simp_all add: fw_inv_submit fw_inv_submit_payload,
     simp_all add: fw_inv_def latch_wf_def recv_wf_def CC3501E_REQ_SEQ_NONE_def sock_send_expire_def)

text \<open>A job that is queued or running, and the number of executions so far.\<close>

definition live :: "worker_job \<Rightarrow> bool" where
  "live j \<longleftrightarrow> state j = WORKER_QUEUED \<or> state j = WORKER_RUNNING"

definition in_flight :: "worker_job \<Rightarrow> u32 \<Rightarrow> 'h fw \<Rightarrow> bool" where
  "in_flight j n s \<longleftrightarrow> live j \<and> job s = j \<and> g_worker_execs s = n"

interpretation fly: frame_invariant P "in_flight j n" for P :: "'h platform" and j n
  by unfold_locales
     (auto simp: in_flight_def live_def terminal_def fw_crc_def count_frame_def split: prod.split)

end
