(* ===== verification/Reply_Bounds.thy ===== *)
theory Reply_Bounds
  imports Handler_Inv
begin

text \<open>
  No handler writes past the reply buffer it was given: for every opcode, payload and state, the
  reply data fits the capacity the framing layer passed down.  The only driver promise this rests
  on is that a ring read returns at most the bytes it was asked for.
\<close>

definition recv_ring_ok :: "'h platform \<Rightarrow> bool" where
  "recv_ring_ok P \<longleftrightarrow>
     (\<forall>handle cap replay h h' rc got.
        hw_sock_recv_ring (sock P) handle cap replay h = (h', rc, got) \<longrightarrow> length got \<le> unat cap)"

section \<open>Routed requests\<close>

lemma serve_bound:
  "retry_latch_serve c cap s = (s', Some (st, dat)) \<Longrightarrow> length dat \<le> cap"
  by (auto simp: retry_latch_serve_def Let_def split: if_splits)

lemma collect_bound:
  assumes "length (fst (snd (snd p))) \<le> cap"
  shows "length (snd (snd (worker_collect c f p))) \<le> cap"
proof -
  obtain s st dat e where p: "p = (s, st, dat, e)" by (metis prod_cases4)
  show ?thesis using assms by (cases st) (simp_all add: worker_collect_def p)
qed

lemma routed_bound: "length (snd (snd (handle_worker_routed c m P n cap s))) \<le> cap"
  using serve_bound [of c cap s] collect_bound [OF length_poll_data, of _ _ c cap]
  by (auto simp: handle_worker_routed_def split: prod.split option.split)

lemma routed_payload_bound: "snd (snd (handle_worker_routed_payload c P rq s)) = []"
  using serve_bound [of c 0 s] collect_bound [OF length_poll_data, of _ _ c 0]
  by (auto simp: handle_worker_routed_payload_def split: prod.split option.split)

lemma routed_payload_reply_bound:
  "length (snd (snd (handle_worker_routed_payload_reply c m P rq cap s))) \<le> cap"
  using serve_bound [of c cap s] collect_bound [OF length_poll_data, of _ _ c cap]
  by (auto simp: handle_worker_routed_payload_reply_def split: prod.split option.split)

lemma forward_bound: "snd (snd (hw_forward f s)) = []"
  by (simp add: hw_forward_def split_beta)

lemmas routed_bounds = routed_bound routed_payload_bound routed_payload_reply_bound forward_bound

section \<open>Every handler\<close>

lemma meta_bounds:
  "length (snd (snd (handle_ping P rq cap s))) \<le> cap"
  "length (snd (snd (handle_get_version P rq cap s))) \<le> cap"
  "length (snd (snd (handle_get_capabilities P rq cap s))) \<le> cap"
  "length (snd (snd (handle_stream_write P rq cap s))) \<le> cap"
  "length (snd (snd (handle_get_mac P rq cap s))) \<le> cap"
  "length (snd (snd (handle_reset P rq cap s))) \<le> cap"
  by (simp_all add: handle_ping_def handle_get_version_def handle_get_capabilities_def
      handle_stream_write_def handle_get_mac_def handle_reset_def routed_bounds
      SIZEOF_capabilities_def)

lemma wifi_bounds:
  "length (snd (snd (handle_wifi_scan_start P rq cap s))) \<le> cap"
  "length (snd (snd (handle_wifi_scan_stop P rq cap s))) \<le> cap"
  "length (snd (snd (handle_wifi_connect_sta P rq cap s))) \<le> cap"
  "length (snd (snd (handle_wifi_ap_start P rq cap s))) \<le> cap"
  "length (snd (snd (handle_wifi_disconnect P rq cap s))) \<le> cap"
  "length (snd (snd (handle_wifi_ap_stop P rq cap s))) \<le> cap"
  "length (snd (snd (handle_wifi_get_rssi P rq cap s))) \<le> cap"
  "length (snd (snd (handle_wifi_get_ip P rq cap s))) \<le> cap"
  "length (snd (snd (handle_wifi_status P rq cap s))) \<le> cap"
  by (simp_all add: handle_wifi_scan_start_def handle_wifi_scan_stop_def
      handle_wifi_connect_sta_def handle_wifi_ap_start_def handle_wifi_disconnect_def
      handle_wifi_ap_stop_def handle_wifi_get_rssi_def handle_wifi_get_ip_def
      handle_wifi_status_def wifi_join_def routed_bounds Let_def split_beta)

lemma ble_bounds:
  "length (snd (snd (handle_ble_enable P rq cap s))) \<le> cap"
  "length (snd (snd (handle_ble_disable P rq cap s))) \<le> cap"
  "length (snd (snd (handle_ble_adv_start P rq cap s))) \<le> cap"
  "length (snd (snd (handle_ble_adv_stop P rq cap s))) \<le> cap"
  "length (snd (snd (handle_ble_scan_start P rq cap s))) \<le> cap"
  "length (snd (snd (handle_ble_scan_stop P rq cap s))) \<le> cap"
  "length (snd (snd (handle_ble_connect P rq cap s))) \<le> cap"
  "length (snd (snd (handle_ble_disconnect P rq cap s))) \<le> cap"
  "length (snd (snd (handle_ble_gatt_register P rq cap s))) \<le> cap"
  "length (snd (snd (handle_ble_gatt_notify P rq cap s))) \<le> cap"
  "length (snd (snd (handle_ble_gatt_read P rq cap s))) \<le> cap"
  "length (snd (snd (handle_ble_gatt_write P rq cap s))) \<le> cap"
  by (simp_all add: handle_ble_enable_def handle_ble_disable_def handle_ble_adv_start_def
      handle_ble_adv_stop_def handle_ble_scan_start_def handle_ble_scan_stop_def
      handle_ble_connect_def handle_ble_disconnect_def handle_ble_gatt_register_def
      handle_ble_gatt_notify_def handle_ble_gatt_read_def handle_ble_gatt_write_def routed_bounds
      split: option.split)

lemma board_bounds:
  "length (snd (snd (handle_gpio_configure P rq cap s))) \<le> cap"
  "length (snd (snd (handle_gpio_write P rq cap s))) \<le> cap"
  "length (snd (snd (handle_gpio_read P rq cap s))) \<le> cap"
  "length (snd (snd (handle_gpio_set_interrupt P rq cap s))) \<le> cap"
  "length (snd (snd (handle_cam_enable P rq cap s))) \<le> cap"
  "length (snd (snd (handle_cam_disable P rq cap s))) \<le> cap"
  "length (snd (snd (handle_power_policy P rq cap s))) \<le> cap"
  "length (snd (snd (handle_diag_log_level P rq cap s))) \<le> cap"
  "length (snd (snd (handle_diag_get_stats P rq cap s))) \<le> cap"
  "length (snd (snd (handle_get_diag_info P rq cap s))) \<le> cap"
  by (simp_all add: handle_gpio_configure_def handle_gpio_write_def handle_gpio_read_def
      handle_gpio_set_interrupt_def handle_cam_enable_def handle_cam_disable_def
      handle_power_policy_def handle_diag_log_level_def handle_diag_get_stats_def
      handle_get_diag_info_def routed_bounds Let_def split_beta)

lemma pending_events_bound:
  "ring_inv (ring s) \<Longrightarrow> length (snd (snd (handle_get_pending_events P rq cap s))) \<le> cap"
  by (simp add: handle_get_pending_events_def split_beta event_ring_drain_spec fit_bytes
      del: length_concat)

lemma ota_bounds:
  "length (snd (snd (handle_ota_begin P rq cap s))) \<le> cap"
  "length (snd (snd (handle_ota_write P rq cap s))) \<le> cap"
  "length (snd (snd (handle_ota_finish P rq cap s))) \<le> cap"
  "length (snd (snd (handle_ota_abort P rq cap s))) \<le> cap"
  "length (snd (snd (handle_ota_promote P rq cap s))) \<le> cap"
  "length (snd (snd (handle_ota_update_mode P rq cap s))) \<le> cap"
  "length (snd (snd (handle_ota_status P rq cap s))) \<le> cap"
  by (simp_all add: handle_ota_begin_def handle_ota_write_def handle_ota_finish_def
      handle_ota_abort_def handle_ota_promote_def handle_ota_update_mode_def
      handle_ota_status_def routed_bounds Let_def split_beta)

lemma sock_control_bounds:
  "length (snd (snd (handle_sock_open P rq cap s))) \<le> cap"
  "length (snd (snd (handle_sock_connect P rq cap s))) \<le> cap"
  "length (snd (snd (handle_sock_bind P rq cap s))) \<le> cap"
  "length (snd (snd (handle_sock_listen P rq cap s))) \<le> cap"
  "length (snd (snd (handle_sock_close P rq cap s))) \<le> cap"
  by (simp_all add: handle_sock_open_def handle_sock_connect_def handle_sock_bind_def
      handle_sock_listen_def handle_sock_close_def routed_bounds Let_def)

lemma sock_send_bound:
  assumes "fw_inv P s"
  shows "length (snd (snd (handle_sock_send P rq cap s))) \<le> cap"
proof -
  have "length (send_reply (sock_send_expire q (sock_send s))) = 2" for q
    using assms by (simp add: fw_inv_def sock_send_expire_def)
  then show ?thesis by (simp add: handle_sock_send_def Let_def routed_bounds)
qed

lemma room_le: "SIZEOF_sock_recv_resp + unat (word_of_nat (sock_recv_room cap ml) :: u16) \<le> cap"
  if "SIZEOF_sock_recv_resp < cap"
proof -
  have "unat (word_of_nat (sock_recv_room cap ml) :: u16) \<le> sock_recv_room cap ml"
    by (simp add: unat_of_nat)
  moreover have "sock_recv_room cap ml \<le> cap - SIZEOF_sock_recv_resp"
    by (simp add: sock_recv_room_def Let_def)
  ultimately show ?thesis using that by linarith
qed

lemma from_ring_bound:
  assumes "recv_ring_ok P" and "sock_recv_from_ring P handle ml cap s = (s', Some (st, dat))"
  shows "length dat \<le> cap"
proof -
  have cap: "SIZEOF_sock_recv_resp < cap"
    using assms(2) by (auto simp: sock_recv_from_ring_def split: if_splits)
  obtain h rc got where r: "hw_sock_recv_ring (sock P) handle
      (word_of_nat (sock_recv_room cap ml))
      (sock_recv_replay (s_current_req_seq s) handle ml (sock_recv s)) (hw s) = (h, rc, got)"
    by (metis prod_cases3)
  then have "length got \<le> unat (word_of_nat (sock_recv_room cap ml) :: u16)"
    using assms(1) unfolding recv_ring_ok_def by blast
  then have "SIZEOF_sock_recv_resp + length got \<le> cap" using room_le [OF cap, of ml] by linarith
  then show ?thesis
    using assms(2) cap r
    by (auto simp: sock_recv_from_ring_def hw_call_def Let_def sock_recv_ring_reply_def sizeof_defs
        split: if_splits)
qed

lemma from_worker_bound:
  assumes "fw_inv P s"
  shows "length (snd (snd (sock_recv_from_worker P rq cap s))) \<le> cap"
  using assms
  by (auto simp: sock_recv_from_worker_def Let_def routed_bounds fw_inv_def recv_wf_def)

lemma sock_recv_bound:
  assumes inv: "fw_inv P s" and ok: "recv_ring_ok P"
  shows "length (snd (snd (handle_sock_recv P rq cap s))) \<le> cap"
proof -
  let ?s = "s\<lparr>sock_recv := sock_recv_expire (protocol_current_req_seq s) (get_le16 rq 0)
    (get_le16 rq 2) (sock_recv s)\<rparr>"
  have "fw_inv P ?s" using inv by (simp add: fw_inv_def recv_wf_def sock_recv_expire_def)
  obtain s2 r where fr: "sock_recv_from_ring P (get_le16 rq 0) (get_le16 rq 2) cap ?s = (s2, r)"
    by fastforce
  have "fw_inv P s2"
    using wf.I_from_ring [OF \<open>fw_inv P ?s\<close>, of "get_le16 rq 0" "get_le16 rq 2" cap] fr by simp
  then show ?thesis
    using fr from_ring_bound [OF ok, of "get_le16 rq 0" "get_le16 rq 2" cap ?s s2]
    by (cases r) (auto simp: handle_sock_recv_def Let_def from_worker_bound)
qed

lemma spi1_bounds:
  "length (snd (snd (handle_spi1_configure P rq cap s))) \<le> cap"
  "length (snd (snd (handle_spi1_release P rq cap s))) \<le> cap"
  "length (snd (snd (handle_spi1_transfer P rq cap s))) \<le> cap"
  using length_poll_data [of CMD_SPI1_TRANSFER cap s]
  by (simp_all add: handle_spi1_configure_def handle_spi1_release_def handle_spi1_transfer_def
      split_beta routed_bounds split: option.split)

lemma handler_bound:
  assumes "fw_inv P s" and "recv_ring_ok P"
  shows "length (snd (snd (handler_of c P rq cap s))) \<le> cap"
  using assms
  by (cases c)
    (simp_all add: handler_of_def radio_cmds_def radio_handler_def system_handler_def
      meta_bounds wifi_bounds ble_bounds board_bounds ota_bounds sock_control_bounds
      sock_send_bound sock_recv_bound spi1_bounds pending_events_bound fw_inv_ring)

lemma dispatch_bound:
  assumes "fw_inv P s" and "recv_ring_ok P"
  shows "length (snd (snd (protocol_dispatch P b fl rq cap s))) \<le> cap"
  using handler_bound [OF wf.I_seq [OF assms(1), of fl] assms(2)]
  by (cases "decode_cmd P b") (simp_all add: protocol_dispatch_def Let_def)

end
