(* ===== verification/Hal_Stub.thy ===== *)
theory Hal_Stub
  imports Hal
begin

text \<open>
  The stub backend, \<^verbatim>\<open>hal/cc3501e_hw_stub.c\<close>, with the weak transport seam of
  \<^verbatim>\<open>src/transport_spi.c\<close>, \<^verbatim>\<open>src/transport_sdio.c\<close> and \<^verbatim>\<open>src/worker.c\<close>: a GPIO level table,
  two camera switches, an SPI1 loopback, and "not implemented" for the radio.  The header
  constants it returns are fields of \<open>stub_consts\<close>.
\<close>

record stub_consts =
  WIFI_DISCONNECTED :: byte
  WIFI_FAIL_NONE :: byte
  OTA_PENDING_NONE :: byte
  RESET_POWER_ON :: byte
  ROLE_OFF :: byte

record stub_hw =
  stub_gpio_level :: "byte list"
  stub_cam :: "byte list"
  stub_spi1_open :: bool
  stub_wifi_last_reason :: u16

definition STUB_GPIO_MAX :: nat where "STUB_GPIO_MAX = 32"

definition stub_reset :: stub_hw where
  "stub_reset = \<lparr>stub_gpio_level = replicate STUB_GPIO_MAX 0, stub_cam = [0, 0],
     stub_spi1_open = False, stub_wifi_last_reason = 0\<rparr>"

definition notimpl :: "stub_hw drv" where
  "notimpl h = (h, CC3501E_HW_ERR_NOTIMPL)"

definition notimpl_out :: "'o \<Rightarrow> (stub_hw, 'o) drv_out" where
  "notimpl_out x h = (h, CC3501E_HW_ERR_NOTIMPL, x)"

definition hw_ok :: "stub_hw drv" where
  "hw_ok h = (h, CC3501E_HW_OK)"

section \<open>GPIO, camera, SPI1\<close>

definition stub_gpio_configure :: "byte \<Rightarrow> byte \<Rightarrow> byte \<Rightarrow> stub_hw drv" where
  "stub_gpio_configure pad dir pull h =
     (if unat pad \<ge> STUB_GPIO_MAX then (h, CC3501E_HW_ERR_INVAL) else (h, CC3501E_HW_OK))"

definition stub_gpio_write :: "byte \<Rightarrow> byte \<Rightarrow> stub_hw drv" where
  "stub_gpio_write pad level h =
     (if unat pad \<ge> STUB_GPIO_MAX then (h, CC3501E_HW_ERR_INVAL)
      else (h\<lparr>stub_gpio_level := (stub_gpio_level h)[unat pad := if level \<noteq> 0 then 1 else 0]\<rparr>,
            CC3501E_HW_OK))"

definition stub_gpio_read :: "byte \<Rightarrow> (stub_hw, byte) drv_out" where
  "stub_gpio_read pad h =
     (if unat pad \<ge> STUB_GPIO_MAX then (h, CC3501E_HW_ERR_INVAL, 0)
      else (h, CC3501E_HW_OK, stub_gpio_level h ! unat pad))"

definition stub_cam_enable :: "byte \<Rightarrow> byte \<Rightarrow> stub_hw drv" where
  "stub_cam_enable which on h =
     (if which > 1 then (h, CC3501E_HW_ERR_INVAL)
      else (h\<lparr>stub_cam := (stub_cam h)[unat which := if on \<noteq> 0 then 1 else 0]\<rparr>, CC3501E_HW_OK))"

definition stub_spi1_configure :: "u32 \<Rightarrow> byte \<Rightarrow> byte \<Rightarrow> byte \<Rightarrow> (stub_hw, u32) drv_out" where
  "stub_spi1_configure freq_hz mode bits cs h = (h\<lparr>stub_spi1_open := True\<rparr>, CC3501E_HW_OK, freq_hz)"

definition stub_spi1_transfer ::
    "byte list option \<Rightarrow> bool \<Rightarrow> u16 \<Rightarrow> byte \<Rightarrow> bool \<Rightarrow> (stub_hw, byte list) drv_out" where
  "stub_spi1_transfer tx rx len tx_fill cs_hold h =
     (if \<not> stub_spi1_open h then (h, CC3501E_HW_ERR_NOTIMPL, [])
      else (h, CC3501E_HW_OK,
            if rx \<and> len \<noteq> 0
            then (case tx of Some t \<Rightarrow> take (unat len) t | None \<Rightarrow> replicate (unat len) tx_fill)
            else []))"

definition stub_spi1_release :: "stub_hw drv" where
  "stub_spi1_release h = (h\<lparr>stub_spi1_open := False\<rparr>, CC3501E_HW_OK)"

definition stub_io :: "stub_hw hal_io" where
  "stub_io = \<lparr>hw_gpio_configure = stub_gpio_configure, hw_gpio_write = stub_gpio_write,
     hw_gpio_read = stub_gpio_read, hw_gpio_set_interrupt = stub_gpio_configure,
     hw_cam_enable = stub_cam_enable, hw_spi1_configure = stub_spi1_configure,
     hw_spi1_transfer = stub_spi1_transfer, hw_spi1_release = stub_spi1_release\<rparr>"

section \<open>Radio, OTA, system, link\<close>

definition stub_wifi :: "stub_consts \<Rightarrow> stub_hw hal_wifi" where
  "stub_wifi K = \<lparr>hw_wifi_scan_stop = notimpl, hw_wifi_scan = (\<lambda>cap. notimpl_out []),
     hw_wifi_connect_sta = (\<lambda>ssid psk security. notimpl), hw_wifi_disconnect = notimpl,
     hw_wifi_ap_start = (\<lambda>ssid psk security. notimpl), hw_wifi_ap_stop = notimpl,
     hw_wifi_ap_role_publish = id, hw_wifi_get_rssi = notimpl_out 0,
     hw_wifi_get_ip = (\<lambda>iface. notimpl_out []),
     hw_wifi_connect_sta_take_reinit = (\<lambda>h. (h, False, False)),
     hw_wifi_get_rssi_take_reinit_skip = (\<lambda>h. (h, False, False)),
     hw_wifi_connect_sta_take_fail_skip = (\<lambda>h. (h, False, False)),
     hw_wifi_mark_connecting = (\<lambda>h. h\<lparr>stub_wifi_last_reason := 0\<rparr>),
     hw_wifi_conn_status = (\<lambda>h. (h, CC3501E_HW_OK, WIFI_DISCONNECTED K, WIFI_FAIL_NONE K, 0)),
     hw_wifi_last_reason = stub_wifi_last_reason, hw_wifi_last_event_id = (\<lambda>h. 0),
     hw_wifi_dhcp_diag = (\<lambda>h. (h, 0, 0))\<rparr>"

definition stub_sock :: "stub_hw hal_sock" where
  "stub_sock = \<lparr>hw_sock_open = (\<lambda>family type protocol. notimpl_out 0),
     hw_sock_connect = (\<lambda>handle family port addr. notimpl),
     hw_sock_bind = (\<lambda>handle family port addr. notimpl),
     hw_sock_listen = (\<lambda>handle backlog. notimpl),
     hw_sock_send = (\<lambda>handle flags dat. notimpl_out 0),
     hw_sock_recv = (\<lambda>handle max_len cap. notimpl_out ([], replicate 4 0, 0)),
     hw_sock_close = (\<lambda>handle. notimpl),
     hw_sock_recv_ring = (\<lambda>handle cap replay h. (h, -1, []))\<rparr>"

definition stub_ble :: "stub_hw hal_ble" where
  "stub_ble = \<lparr>hw_ble_enable = notimpl, hw_ble_disable = notimpl,
     hw_ble_adv_start = (\<lambda>connectable itvl_min itvl_max adv. notimpl), hw_ble_adv_stop = notimpl,
     hw_ble_scan_stop = notimpl, hw_ble_scan = (\<lambda>cap. notimpl_out []),
     hw_ble_connect = (\<lambda>addr_type addr. notimpl), hw_ble_disconnect = notimpl,
     hw_ble_gatt_register = (\<lambda>desc cap. notimpl_out []),
     hw_ble_gatt_notify = (\<lambda>handle dat. notimpl),
     hw_ble_gatt_read = (\<lambda>handle cap. notimpl_out []),
     hw_ble_gatt_write = (\<lambda>handle dat. notimpl)\<rparr>"

definition stub_ota :: "stub_consts \<Rightarrow> stub_hw hal_ota" where
  "stub_ota K = \<lparr>hw_ota_begin = (\<lambda>total_len. notimpl), hw_ota_write = (\<lambda>offset dat. notimpl),
     hw_ota_finish = notimpl, hw_ota_abort = notimpl, hw_ota_promote = notimpl,
     hw_ota_reboot_rc = (\<lambda>h. 0), hw_ota_pending = (\<lambda>h. OTA_PENDING_NONE K),
     hw_ota_flush_pending = (\<lambda>h. False), hw_ota_fault = (\<lambda>h. (0, 0)),
     hw_ota_status = notimpl_out (0, 0, 0)\<rparr>"

definition stub_sys :: "stub_consts \<Rightarrow> stub_hw hal_sys" where
  "stub_sys K = \<lparr>hw_get_mac = notimpl_out (replicate 6 0), hw_request_reset = id, hw_tick = id,
     hw_set_power_policy = (\<lambda>policy wake_events idle_ms. hw_ok), hw_power_radio_ok = (\<lambda>h. True),
     hw_set_log_level = (\<lambda>level. hw_ok), hw_reset_cause = (\<lambda>h. (h, RESET_POWER_ON K)),
     hw_uptime_ms = (\<lambda>h. 0), hw_free_heap_bytes = (\<lambda>h. 0), hw_radio_role = (\<lambda>h. ROLE_OFF K)\<rparr>"

definition weak_worker_link :: "('h \<Rightarrow> 'h) \<times> ('h \<Rightarrow> 'h) \<times> ('h \<Rightarrow> 'h)" where
  "weak_worker_link = (id, id, id)"

definition weak_link :: "'h hal_link" where
  "weak_link = \<lparr>bridge_busy = fst weak_worker_link, bridge_ready = fst (snd weak_worker_link),
     bridge_attn_pulse = snd (snd weak_worker_link),
     spi_hw_init = id, sdio_hw_init = id, spi_hw_reinit = (\<lambda>h. (h, True)),
     spi_polled = (\<lambda>h. (h, False)), spi_request_polled_boot = (\<lambda>h. (h, False)),
     spi_clear_polled_boot = (\<lambda>h. (h, False)), spi_boot_mark = (\<lambda>h. 0), spi_phase = (\<lambda>h. 0)\<rparr>"

text \<open>The stub build: no Wi-Fi task, no BLE; the CRC switch and the firmware version are given.\<close>

definition stub_platform :: "wire_hdr \<Rightarrow> stub_consts \<Rightarrow> bool \<Rightarrow> u16 \<Rightarrow> stub_hw platform" where
  "stub_platform H K wire_crc ver =
     wire_hdr.extend H (platform.fields wire_crc False False True ver (stub_sys K) stub_io
       (stub_wifi K) stub_sock stub_ble (stub_ota K) weak_link)"

lemmas stub_defs = stub_io_def stub_wifi_def stub_sock_def stub_ble_def stub_ota_def stub_sys_def
  weak_link_def weak_worker_link_def notimpl_def notimpl_out_def hw_ok_def
  stub_gpio_configure_def stub_gpio_write_def stub_gpio_read_def stub_cam_enable_def
  stub_spi1_configure_def stub_spi1_transfer_def stub_spi1_release_def

section \<open>A wire header\<close>

text \<open>
  The opcode and status values the wire-vector generator states, with distinct values for the
  codes it does not list; the concrete runs of the development use this header.
\<close>

definition demo_hdr :: wire_hdr where
  "demo_hdr = \<lparr>cmd_val = (\<lambda>c. case c of
       CMD_PING \<Rightarrow> 0x00 | CMD_GET_VERSION \<Rightarrow> 0x01 | CMD_RESET \<Rightarrow> 0x02 | CMD_GET_MAC \<Rightarrow> 0x03
     | CMD_GET_DIAG_INFO \<Rightarrow> 0x04 | CMD_GET_PENDING_EVENTS \<Rightarrow> 0x05 | CMD_GET_CAPABILITIES \<Rightarrow> 0x06
     | CMD_WIFI_SCAN_START \<Rightarrow> 0x10 | CMD_WIFI_SCAN_STOP \<Rightarrow> 0x11 | CMD_WIFI_CONNECT_STA \<Rightarrow> 0x12
     | CMD_WIFI_DISCONNECT \<Rightarrow> 0x13 | CMD_WIFI_AP_START \<Rightarrow> 0x14 | CMD_WIFI_AP_STOP \<Rightarrow> 0x15
     | CMD_WIFI_GET_RSSI \<Rightarrow> 0x16 | CMD_WIFI_GET_IP \<Rightarrow> 0x17 | CMD_WIFI_STATUS \<Rightarrow> 0x18
     | CMD_SOCK_OPEN \<Rightarrow> 0x20 | CMD_SOCK_CONNECT \<Rightarrow> 0x21 | CMD_SOCK_SEND \<Rightarrow> 0x22
     | CMD_SOCK_RECV \<Rightarrow> 0x23 | CMD_SOCK_CLOSE \<Rightarrow> 0x24 | CMD_SOCK_BIND \<Rightarrow> 0x25
     | CMD_SOCK_LISTEN \<Rightarrow> 0x26
     | CMD_BLE_ENABLE \<Rightarrow> 0x30 | CMD_BLE_DISABLE \<Rightarrow> 0x31 | CMD_BLE_ADV_START \<Rightarrow> 0x32
     | CMD_BLE_ADV_STOP \<Rightarrow> 0x33 | CMD_BLE_SCAN_START \<Rightarrow> 0x34 | CMD_BLE_SCAN_STOP \<Rightarrow> 0x35
     | CMD_BLE_CONNECT \<Rightarrow> 0x36 | CMD_BLE_DISCONNECT \<Rightarrow> 0x37 | CMD_BLE_GATT_REGISTER \<Rightarrow> 0x38
     | CMD_BLE_GATT_NOTIFY \<Rightarrow> 0x39 | CMD_BLE_GATT_READ \<Rightarrow> 0x3A | CMD_BLE_GATT_WRITE \<Rightarrow> 0x3B
     | CMD_CAM_ENABLE \<Rightarrow> 0x40 | CMD_CAM_DISABLE \<Rightarrow> 0x41
     | CMD_GPIO_CONFIGURE \<Rightarrow> 0x50 | CMD_GPIO_WRITE \<Rightarrow> 0x51 | CMD_GPIO_READ \<Rightarrow> 0x52
     | CMD_GPIO_SET_INTERRUPT \<Rightarrow> 0x53
     | CMD_SPI1_CONFIGURE \<Rightarrow> 0x55 | CMD_SPI1_TRANSFER \<Rightarrow> 0x56 | CMD_SPI1_RELEASE \<Rightarrow> 0x57
     | CMD_POWER_POLICY \<Rightarrow> 0x60
     | CMD_DIAG_GET_STATS \<Rightarrow> 0x70 | CMD_DIAG_LOG_LEVEL \<Rightarrow> 0x71
     | CMD_OTA_BEGIN \<Rightarrow> 0x80 | CMD_OTA_WRITE \<Rightarrow> 0x81 | CMD_OTA_FINISH \<Rightarrow> 0x82
     | CMD_OTA_ABORT \<Rightarrow> 0x83 | CMD_OTA_STATUS \<Rightarrow> 0x84 | CMD_OTA_PROMOTE \<Rightarrow> 0x85
     | CMD_OTA_UPDATE_MODE \<Rightarrow> 0x86 | CMD_STREAM_WRITE \<Rightarrow> 0x8F),
     resp_val = (\<lambda>r. case r of RESP_OK \<Rightarrow> 0x5A | RESP_ERR_INVALID \<Rightarrow> 0x01 | RESP_ERR_BUSY \<Rightarrow> 0x02
       | RESP_ERR_NOT_READY \<Rightarrow> 0x05 | RESP_ERR_PROTOCOL \<Rightarrow> 0x07 | RESP_ERR_NO_MEM \<Rightarrow> 0x06
       | RESP_ERR_RADIO \<Rightarrow> 0x08 | RESP_ERR_STATE \<Rightarrow> 0x09),
     resp_ok_legacy = 0x00, alp_crc16_update = crc16_ccitt_false,
     SOCK_FAMILY_IPV4 = 0, WIFI_IFACE_STA = 0, WIFI_IFACE_AP = 1, SPI1_CS1 = 1,
     SPI1_XFER_CS_HOLD = 1, SPI1_XFER_NO_RX = 2, SPI1_XFER_NO_TX = 4,
     BLE_GATT_REGISTER_VERSION = 1,
     gpio_configure_of = (\<lambda>p. (p ! 0, p ! 1, p ! 2)), gpio_write_of = (\<lambda>p. (p ! 0, p ! 1)),
     gpio_set_interrupt_of = (\<lambda>p. (p ! 0, p ! 1, p ! 2)),
     wifi_connect_of = (\<lambda>p. (p ! 0, p ! 1, p ! 2)),
     sizeof_gpio_set_interrupt = 4, sizeof_wifi_connect = 4\<rparr>"

definition demo_consts :: stub_consts where
  "demo_consts = \<lparr>WIFI_DISCONNECTED = 0, WIFI_FAIL_NONE = 0, OTA_PENDING_NONE = 0,
     RESET_POWER_ON = 0, ROLE_OFF = 0\<rparr>"

definition demo_platform :: "bool \<Rightarrow> stub_hw platform" where
  "demo_platform wire_crc = stub_platform demo_hdr demo_consts wire_crc 0x0200"

lemma stub_platform_sel [simp]:
  "cmd_val (stub_platform H K w v) = cmd_val H" "resp_val (stub_platform H K w v) = resp_val H"
  "resp_ok_legacy (stub_platform H K w v) = resp_ok_legacy H"
  "alp_crc16_update (stub_platform H K w v) = alp_crc16_update H"
  "SOCK_FAMILY_IPV4 (stub_platform H K w v) = SOCK_FAMILY_IPV4 H"
  "WIFI_IFACE_STA (stub_platform H K w v) = WIFI_IFACE_STA H"
  "WIFI_IFACE_AP (stub_platform H K w v) = WIFI_IFACE_AP H"
  "SPI1_CS1 (stub_platform H K w v) = SPI1_CS1 H"
  "SPI1_XFER_CS_HOLD (stub_platform H K w v) = SPI1_XFER_CS_HOLD H"
  "SPI1_XFER_NO_RX (stub_platform H K w v) = SPI1_XFER_NO_RX H"
  "SPI1_XFER_NO_TX (stub_platform H K w v) = SPI1_XFER_NO_TX H"
  "BLE_GATT_REGISTER_VERSION (stub_platform H K w v) = BLE_GATT_REGISTER_VERSION H"
  "gpio_configure_of (stub_platform H K w v) = gpio_configure_of H"
  "gpio_write_of (stub_platform H K w v) = gpio_write_of H"
  "gpio_set_interrupt_of (stub_platform H K w v) = gpio_set_interrupt_of H"
  "wifi_connect_of (stub_platform H K w v) = wifi_connect_of H"
  "sizeof_gpio_set_interrupt (stub_platform H K w v) = sizeof_gpio_set_interrupt H"
  "sizeof_wifi_connect (stub_platform H K w v) = sizeof_wifi_connect H"
  "WIRE_CRC (stub_platform H K w v) = w" "BUILD_WIFI (stub_platform H K w v) = False"
  "BUILD_BLE (stub_platform H K w v) = False" "HAL_STUB (stub_platform H K w v) = True"
  "FW_VERSION_U16 (stub_platform H K w v) = v" "sys (stub_platform H K w v) = stub_sys K"
  "io (stub_platform H K w v) = stub_io" "wifi (stub_platform H K w v) = stub_wifi K"
  "sock (stub_platform H K w v) = stub_sock" "ble (stub_platform H K w v) = stub_ble"
  "ota (stub_platform H K w v) = stub_ota K" "link (stub_platform H K w v) = weak_link"
  by (simp_all add: stub_platform_def wire_hdr.defs platform.defs)

lemma hdr_ok_stub: "hdr_ok (stub_platform H K w v) = hdr_ok H"
  unfolding hdr_ok_def by simp

lemma inj_cmd_val: "distinct (map f all_cmds) \<Longrightarrow> inj f"
proof -
  have "set all_cmds = UNIV" using all_cmds_complete by blast
  then show "distinct (map f all_cmds) \<Longrightarrow> inj f" by (simp add: distinct_map)
qed

lemma demo_hdr_ok: "hdr_ok demo_hdr"
  unfolding hdr_ok_def
proof (intro conjI)
  show "inj (cmd_val demo_hdr)"
    by (rule inj_cmd_val) (simp add: all_cmds_def demo_hdr_def)
  show "inj (resp_val demo_hdr)"
    by (rule injI) (simp add: demo_hdr_def split: resp.splits)
  show "alp_crc16_update demo_hdr = crc16_ccitt_false" by (simp add: demo_hdr_def)
qed

lemma demo_platform_ok [simp]: "hdr_ok (demo_platform w)" "WIRE_CRC (demo_platform w) = w"
  by (simp_all add: demo_platform_def hdr_ok_stub demo_hdr_ok)

lemma demo_resp_val [simp]:
  "resp_val (demo_platform w) st = resp_val demo_hdr st" "resp_val demo_hdr RESP_OK = 0x5A"
  "resp_val demo_hdr RESP_ERR_INVALID = 1" "resp_val demo_hdr RESP_ERR_BUSY = 2"
  "resp_val demo_hdr RESP_ERR_NOT_READY = 5" "resp_val demo_hdr RESP_ERR_PROTOCOL = 7"
  by (simp_all add: demo_platform_def demo_hdr_def)

end
