(* ===== verification/Framing.thy ===== *)
theory Framing
  imports Reply_Bounds Hal_Stub
begin

text \<open>
  The framing layer against the host's view of the wire.  \<open>parse_reply\<close> and \<open>request_frame\<close> are
  what the host does: build a request with its CRC trailer, and check and split a reply.
\<close>

section \<open>The host's side\<close>

definition request_frame :: "byte \<Rightarrow> byte \<Rightarrow> byte list \<Rightarrow> byte list" where
  "request_frame b flags pl =
     (let hdr = [b, flags] @ put_le16 (word_of_nat (length pl + CRC_BYTES))
      in hdr @ pl @ put_le16 (crc16_ccitt_false CRC16_INIT (hdr @ pl)))"

definition parse_reply :: "byte list \<Rightarrow> (byte \<times> byte \<times> byte list) option" where
  "parse_reply fr =
     (if length fr < CC3501E_REPLY_DATA_OFF + CRC_BYTES then None
      else let n = unat (get_le16 fr 2); covered = HEADER_BYTES + n - CRC_BYTES
           in if length fr \<noteq> HEADER_BYTES + n then None
              else if get_le16 fr covered \<noteq> crc16_ccitt_false CRC16_INIT (take covered fr) then None
              else Some (fr ! 0, fr ! CC3501E_REPLY_STATUS_OFF,
                         take (n - 1 - CRC_BYTES) (drop CC3501E_REPLY_DATA_OFF fr)))"

section \<open>CRC steps\<close>

lemma fw_crc_spec:
  assumes "alp_crc16_update P = crc16_ccitt_false" and "crc_inv (alp_crc16_update P) (crc s)"
  obtains t where "fw_crc P v bs s = (s\<lparr>crc := t\<rparr>, crc16_ccitt_false v bs)"
    and "crc_inv (alp_crc16_update P) t"
proof -
  obtain t v' where u: "crc16_table_update (alp_crc16_update P) (crc s) v bs = (t, v')" by fastforce
  have "v' = crc16_ccitt_false v bs"
    using crc16_table_update_reference [of "crc s" v bs] assms u by simp
  moreover have "crc_inv (alp_crc16_update P) t"
    using crc_inv_update [OF assms(2), of v bs] u by simp
  ultimately show ?thesis using that [of t] u by (simp add: fw_crc_def)
qed

section \<open>Padding\<close>

lemma reply_pad_less: "reply_pad n cap < CC3501E_REPLY_PAD"
  by (simp add: reply_pad_def Let_def CC3501E_REPLY_PAD_def)

lemma reply_pad_fits: "HEADER_BYTES + n \<le> cap \<Longrightarrow> HEADER_BYTES + (n + reply_pad n cap) \<le> cap"
  by (simp add: reply_pad_def Let_def)

lemma reply_pad_aligned:
  assumes "HEADER_BYTES + n \<le> CC3501E_FRAME_MAX_BYTES"
  shows "(n + reply_pad n CC3501E_FRAME_MAX_BYTES) mod CC3501E_REPLY_PAD = 0"
proof -
  obtain q r where n: "n = 8 * q + r" "r < 8"
    by (metis mod_less_divisor mult_div_mod_eq zero_less_numeral)
  have r: "n mod 8 = r" using n by simp
  have "r = 0 \<or> 4 + n + (8 - r) \<le> 4100"
    using assms n by (simp add: HEADER_BYTES_def CC3501E_FRAME_MAX_BYTES_def MAX_PAYLOAD_def) presburger
  then show ?thesis
    using n by (auto simp: reply_pad_def Let_def r HEADER_BYTES_def CC3501E_FRAME_MAX_BYTES_def
        MAX_PAYLOAD_def CC3501E_REPLY_PAD_def)
qed

section \<open>Emitting a reply\<close>

definition wire_reply :: "byte \<Rightarrow> byte \<Rightarrow> byte list \<Rightarrow> nat \<Rightarrow> byte list" where
  "wire_reply ce st dat pad =
     (let hdr = reply_header ce (1 + length dat + pad + CRC_BYTES);
          body = st # dat @ replicate pad 0
      in hdr @ body @ put_le16 (crc16_ccitt_false CRC16_INIT (hdr @ body)))"

lemma unat_word16: "n < 2 ^ 16 \<Longrightarrow> unat (word_of_nat n :: u16) = n"
  by (simp add: unat_of_nat)

lemma emit_reply_crc_spec:
  assumes "hdr_ok P" and "crc_inv (alp_crc16_update P) (crc s)"
    and "CC3501E_REPLY_DATA_OFF + CRC_BYTES + length dat \<le> cap" and "cap \<le> CC3501E_FRAME_MAX_BYTES"
  obtains t where "emit_reply_crc P ce cap st dat s = (s\<lparr>crc := t\<rparr>,
      wire_reply ce (resp_val P st) dat (reply_pad (1 + length dat + CRC_BYTES) cap))"
    and "crc_inv (alp_crc16_update P) t"
proof -
  note upd = hdr_ok_crc [OF assms(1)]
  define n where "n = 1 + length dat + CRC_BYTES"
  define pad where "pad = reply_pad n cap"
  have fit: "HEADER_BYTES + (n + pad) \<le> cap"
    using reply_pad_fits [of n cap] assms(3) by (simp add: pad_def n_def frame_size_defs)
  then have "n + pad < 2 ^ 16"
    using assms(4) by (simp add: CC3501E_FRAME_MAX_BYTES_def MAX_PAYLOAD_def HEADER_BYTES_def)
  then have u: "unat (word_of_nat n :: u16) = n" "unat (word_of_nat (n + pad) :: u16) = n + pad"
    by (simp_all only: unat_word16)
  define hdr where "hdr = reply_header ce (n + pad)"
  define body where "body = resp_val P st # dat @ replicate pad 0"
  have body: "take (n + pad - CRC_BYTES) body = body" by (simp add: body_def n_def)
  obtain t1 where t1: "fw_crc P CRC16_INIT hdr s = (s\<lparr>crc := t1\<rparr>, crc16_ccitt_false CRC16_INIT hdr)"
    and i1: "crc_inv (alp_crc16_update P) t1"
    using fw_crc_spec [OF upd assms(2)] by blast
  obtain t2 where t2: "fw_crc P (crc16_ccitt_false CRC16_INIT hdr) body (s\<lparr>crc := t1\<rparr>) =
      (s\<lparr>crc := t1\<rparr>\<lparr>crc := t2\<rparr>, crc16_ccitt_false (crc16_ccitt_false CRC16_INIT hdr) body)"
    and i2: "crc_inv (alp_crc16_update P) t2"
    using fw_crc_spec [OF upd, of "s\<lparr>crc := t1\<rparr>"] i1 by auto
  have "emit_reply_crc P ce cap st dat s = (case fw_crc P CRC16_INIT hdr s of (s1, c1) \<Rightarrow>
      case fw_crc P c1 (take (n + pad - CRC_BYTES) body) s1 of
        (s2, c2) \<Rightarrow> (s2, hdr @ take (n + pad - CRC_BYTES) body @ put_le16 c2))"
    unfolding emit_reply_crc_def Let_def n_def [symmetric] u(1) pad_def [symmetric] u(2)
      hdr_def [symmetric] body_def [symmetric] by (rule refl)
  then have "emit_reply_crc P ce cap st dat s =
      (s\<lparr>crc := t2\<rparr>, hdr @ body @ put_le16 (crc16_ccitt_false CRC16_INIT (hdr @ body)))"
    by (simp add: body t1 t2 crc16_ccitt_false_append)
  then show ?thesis
    using that [of t2] i2
    by (simp add: wire_reply_def Let_def hdr_def body_def pad_def n_def ac_simps)
qed

lemma length_wire_reply [simp]:
  "length (wire_reply ce st dat pad) = HEADER_BYTES + (1 + length dat + pad + CRC_BYTES)"
  by (simp add: wire_reply_def reply_header_def frame_size_defs)

lemma parse_wire_reply:
  assumes "1 + length dat + pad + CRC_BYTES < 2 ^ 16"
  shows "parse_reply (wire_reply ce st dat pad) = Some (ce, st, dat @ replicate pad 0)"
proof -
  define n where "n = 1 + length dat + pad + CRC_BYTES"
  define body where "body = st # dat @ replicate pad 0"
  define v where "v = crc16_ccitt_false CRC16_INIT (reply_header ce n @ body)"
  have w: "wire_reply ce st dat pad = (reply_header ce n @ body) @ put_le16 v"
    by (simp add: wire_reply_def Let_def n_def body_def v_def)
  have len: "length (reply_header ce n @ body) = HEADER_BYTES + n - CRC_BYTES"
    by (simp add: reply_header_def body_def n_def frame_size_defs)
  have "get_le16 (wire_reply ce st dat pad) 2 = word_of_nat n"
    using get_le16_append [of "[ce, 0]" "put_le16 (word_of_nat n) @ body @ put_le16 v" 0]
    by (simp add: w reply_header_def get_put_le16 numeral_2_eq_2)
  then have nn: "unat (get_le16 (wire_reply ce st dat pad) 2) = n"
    using assms by (simp only: unat_word16 n_def)
  have tr: "get_le16 (wire_reply ce st dat pad) (HEADER_BYTES + n - CRC_BYTES) = v"
    unfolding w len [symmetric] using get_le16_append [of "reply_header ce n @ body" "put_le16 v" 0]
      get_put_le16 [of v "[]"] by simp
  have tk: "take (HEADER_BYTES + n - CRC_BYTES) (wire_reply ce st dat pad) = reply_header ce n @ body"
    unfolding w len [symmetric] by simp
  have "take (n - 1 - CRC_BYTES) (drop CC3501E_REPLY_DATA_OFF (wire_reply ce st dat pad))
      = dat @ replicate pad 0"
    by (simp add: w reply_header_def put_le16_def body_def n_def frame_size_defs)
  moreover have "wire_reply ce st dat pad ! 0 = ce"
    "wire_reply ce st dat pad ! CC3501E_REPLY_STATUS_OFF = st"
    by (simp_all add: w reply_header_def put_le16_def body_def frame_size_defs)
  moreover have L: "length (wire_reply ce st dat pad) = HEADER_BYTES + n"
    and "\<not> HEADER_BYTES + n < CC3501E_REPLY_DATA_OFF + CRC_BYTES"
    by (simp_all add: n_def frame_size_defs)
  ultimately show ?thesis
    unfolding parse_reply_def Let_def nn tr tk L v_def [symmetric] by simp
qed

section \<open>The whole reply\<close>

lemma serve_request_crc_wf:
  assumes "fw_inv P s" and "recv_ring_ok P" and "hdr_ok P"
    and "serve_request_crc P fr cap s = (s', st, dat)"
  shows "fw_inv P s' \<and> length dat \<le> cap - CC3501E_REPLY_DATA_OFF - CRC_BYTES"
proof -
  have crc: "fw_inv P (fst (fw_crc P v bs t))" if "fw_inv P t" for v bs t
    using that by (rule wf.I_crc)
  have disp: "fw_inv P (fst (protocol_dispatch P b fl rq c t))
      \<and> length (snd (snd (protocol_dispatch P b fl rq c t))) \<le> c" if "fw_inv P t" for b fl rq c t
    using wf.I_dispatch [OF that] dispatch_bound [OF that assms(2)] by blast
  show ?thesis
    using assms(1,4) disp crc
    by (auto simp: serve_request_crc_def Let_def split: if_splits prod.splits; metis fst_conv snd_conv)
qed

section \<open>Which requests are served\<close>

lemma crc_of_frame:
  assumes "hdr_ok P" and "crc_inv (alp_crc16_update P) (crc s)"
  obtains t where "(case fw_crc P CRC16_INIT xs s of (s1, c1) \<Rightarrow>
      if ys \<noteq> [] then fw_crc P c1 ys s1 else (s1, c1))
      = (s\<lparr>crc := t\<rparr>, crc16_ccitt_false CRC16_INIT (xs @ ys))"
    and "crc_inv (alp_crc16_update P) t"
proof -
  note upd = hdr_ok_crc [OF assms(1)]
  obtain t1 where t1: "fw_crc P CRC16_INIT xs s = (s\<lparr>crc := t1\<rparr>, crc16_ccitt_false CRC16_INIT xs)"
    and i1: "crc_inv (alp_crc16_update P) t1"
    using fw_crc_spec [OF upd assms(2)] by blast
  obtain t2 where t2: "fw_crc P (crc16_ccitt_false CRC16_INIT xs) ys (s\<lparr>crc := t1\<rparr>) =
      (s\<lparr>crc := t1\<rparr>\<lparr>crc := t2\<rparr>, crc16_ccitt_false (crc16_ccitt_false CRC16_INIT xs) ys)"
    and i2: "crc_inv (alp_crc16_update P) t2"
    using fw_crc_spec [OF upd, of "s\<lparr>crc := t1\<rparr>"] i1 by auto
  show ?thesis
  proof (cases "ys = []")
    case True
    then show ?thesis using that [of t1] t1 i1 by simp
  next
    case False
    then show ?thesis using that [of t2] t1 t2 i2 by (simp add: crc16_ccitt_false_append)
  qed
qed

lemma serve_request_crc_framed:
  assumes "hdr_ok P" and "crc_inv (alp_crc16_update P) (crc s)"
    and len: "length fr = HEADER_BYTES + unat (get_le16 fr 2)" and n: "CRC_BYTES \<le> unat (get_le16 fr 2)"
  obtains t where "crc_inv (alp_crc16_update P) t"
    and "serve_request_crc P fr cap s =
      (if crc16_ccitt_false CRC16_INIT (take (length fr - CRC_BYTES) fr) = get_le16 fr (length fr - CRC_BYTES)
       then protocol_dispatch P (fr ! 0) (fr ! 1)
              (take (length fr - HEADER_BYTES - CRC_BYTES) (drop HEADER_BYTES fr))
              (cap - CC3501E_REPLY_DATA_OFF - CRC_BYTES) (s\<lparr>crc := t\<rparr>)
       else (s\<lparr>crc := t\<rparr>, RESP_ERR_PROTOCOL, []))"
proof -
  define m where "m = unat (get_le16 fr 2)"
  define rq where "rq = take (m - CRC_BYTES) (drop HEADER_BYTES fr)"
  have m: "length fr = HEADER_BYTES + m" "CRC_BYTES \<le> m" using len n by (simp_all add: m_def)
  have "length rq = m - CRC_BYTES" using m by (simp add: rq_def)
  then have ne: "m - CRC_BYTES > 0 \<longleftrightarrow> rq \<noteq> []" by (metis length_greater_0_conv)
  have whole: "take HEADER_BYTES fr @ rq = take (length fr - CRC_BYTES) fr"
    using m by (simp add: rq_def take_add [symmetric])
  obtain t where t: "(case fw_crc P CRC16_INIT (take HEADER_BYTES fr) s of (s1, c1) \<Rightarrow>
      if rq \<noteq> [] then fw_crc P c1 rq s1 else (s1, c1))
      = (s\<lparr>crc := t\<rparr>, crc16_ccitt_false CRC16_INIT (take (length fr - CRC_BYTES) fr))"
    and i: "crc_inv (alp_crc16_update P) t"
    by (rule crc_of_frame [OF assms(1,2), of rq "take HEADER_BYTES fr", unfolded whole])
  have "serve_request_crc P fr cap s = (case (case fw_crc P CRC16_INIT (take HEADER_BYTES fr) s of
      (s1, c1) \<Rightarrow> if rq \<noteq> [] then fw_crc P c1 rq s1 else (s1, c1)) of (s2, c2) \<Rightarrow>
        if c2 = get_le16 fr (HEADER_BYTES + (m - CRC_BYTES))
        then protocol_dispatch P (fr ! 0) (fr ! 1) rq (cap - CC3501E_REPLY_DATA_OFF - CRC_BYTES) s2
        else (s2, RESP_ERR_PROTOCOL, []))"
  proof -
    have "m \<noteq> 0" "\<not> length fr < HEADER_BYTES" using m by (simp_all add: CRC_BYTES_def)
    moreover obtain s1 c1 where "fw_crc P CRC16_INIT (take HEADER_BYTES fr) s = (s1, c1)"
      by fastforce
    ultimately show ?thesis
      unfolding serve_request_crc_def Let_def m_def [symmetric] rq_def [symmetric] ne
      using m by (simp only: prod.case if_True if_False not_not simp_thms)
  qed
  moreover have "HEADER_BYTES + (m - CRC_BYTES) = length fr - CRC_BYTES"
    and "take (length fr - HEADER_BYTES - CRC_BYTES) (drop HEADER_BYTES fr) = rq"
    using m by (simp_all add: rq_def)
  ultimately have "serve_request_crc P fr cap s =
      (if crc16_ccitt_false CRC16_INIT (take (length fr - CRC_BYTES) fr) = get_le16 fr (length fr - CRC_BYTES)
       then protocol_dispatch P (fr ! 0) (fr ! 1)
              (take (length fr - HEADER_BYTES - CRC_BYTES) (drop HEADER_BYTES fr))
              (cap - CC3501E_REPLY_DATA_OFF - CRC_BYTES) (s\<lparr>crc := t\<rparr>)
       else (s\<lparr>crc := t\<rparr>, RESP_ERR_PROTOCOL, []))"
    by (simp only: t prod.case)
  with i show ?thesis by (rule that)
qed

section \<open>Requests built by the host\<close>

lemma length_request_frame [simp]:
  "length (request_frame b fl pl) = HEADER_BYTES + (length pl + CRC_BYTES)"
  by (simp add: request_frame_def Let_def frame_size_defs)

lemma request_frame_parts:
  fixes b fl :: byte
  assumes "length pl + CRC_BYTES < 2 ^ 16"
  defines "fr \<equiv> request_frame b fl pl"
  shows "fr ! 0 = b" and "fr ! 1 = fl" and "unat (get_le16 fr 2) = length pl + CRC_BYTES"
    and "take (length fr - HEADER_BYTES - CRC_BYTES) (drop HEADER_BYTES fr) = pl"
    and "get_le16 fr (length fr - CRC_BYTES) =
      crc16_ccitt_false CRC16_INIT (take (length fr - CRC_BYTES) fr)"
proof -
  define hdr where "hdr = [b, fl] @ put_le16 (word_of_nat (length pl + CRC_BYTES))"
  define v where "v = crc16_ccitt_false CRC16_INIT (hdr @ pl)"
  have fr: "fr = (hdr @ pl) @ put_le16 v"
    by (simp add: fr_def request_frame_def Let_def hdr_def v_def)
  have lh: "length (hdr @ pl) = length fr - CRC_BYTES" by (simp add: fr frame_size_defs)
  show "fr ! 0 = b" "fr ! 1 = fl" by (simp_all add: fr hdr_def put_le16_def)
  have "get_le16 fr 2 = word_of_nat (length pl + CRC_BYTES)"
    using get_le16_append [of "[b, fl]" "put_le16 (word_of_nat (length pl + CRC_BYTES)) @ pl @ put_le16 v" 0]
    by (simp add: fr hdr_def get_put_le16 numeral_2_eq_2)
  then show "unat (get_le16 fr 2) = length pl + CRC_BYTES"
    using assms(1) by (simp only: unat_word16)
  show "take (length fr - HEADER_BYTES - CRC_BYTES) (drop HEADER_BYTES fr) = pl"
    by (simp add: fr hdr_def put_le16_def frame_size_defs)
  show "get_le16 fr (length fr - CRC_BYTES) =
      crc16_ccitt_false CRC16_INIT (take (length fr - CRC_BYTES) fr)"
    unfolding lh [symmetric] using get_le16_append [of "hdr @ pl" "put_le16 v" 0]
      get_put_le16 [of v "[]"] by (simp add: fr v_def)
qed

text \<open>A request built by the host reaches the dispatcher with its payload.\<close>

lemma serve_request_frame:
  assumes "hdr_ok P" and "crc_inv (alp_crc16_update P) (crc s)" and "length pl + CRC_BYTES < 2 ^ 16"
  obtains t where "crc_inv (alp_crc16_update P) t"
    and "serve_request_crc P (request_frame b fl pl) cap s =
      protocol_dispatch P b fl pl (cap - CC3501E_REPLY_DATA_OFF - CRC_BYTES) (s\<lparr>crc := t\<rparr>)"
proof -
  let ?fr = "request_frame b fl pl"
  note parts = request_frame_parts [OF assms(3), of b fl]
  have len: "length ?fr = HEADER_BYTES + unat (get_le16 ?fr 2)" "CRC_BYTES \<le> unat (get_le16 ?fr 2)"
    by (simp_all add: parts)
  obtain t where t: "crc_inv (alp_crc16_update P) t" and eq: "serve_request_crc P ?fr cap s =
      (if crc16_ccitt_false CRC16_INIT (take (length ?fr - CRC_BYTES) ?fr) = get_le16 ?fr (length ?fr - CRC_BYTES)
       then protocol_dispatch P (?fr ! 0) (?fr ! 1)
              (take (length ?fr - HEADER_BYTES - CRC_BYTES) (drop HEADER_BYTES ?fr))
              (cap - CC3501E_REPLY_DATA_OFF - CRC_BYTES) (s\<lparr>crc := t\<rparr>)
       else (s\<lparr>crc := t\<rparr>, RESP_ERR_PROTOCOL, []))"
    by (rule serve_request_crc_framed [OF assms(1,2) len])
  from eq have "serve_request_crc P ?fr cap s =
      protocol_dispatch P b fl pl (cap - CC3501E_REPLY_DATA_OFF - CRC_BYTES) (s\<lparr>crc := t\<rparr>)"
    by (simp only: parts simp_thms if_True)
  with t show ?thesis by (rule that)
qed

lemma get_le16_drop: "get_le16 fr i = get_le16 (drop i fr) 0" if "i + 1 < length fr"
  using that by (simp add: get_le16_def)

text \<open>A frame with one wrong byte fails the length check or the CRC check.\<close>

lemma corrupted_crc:
  assumes "length pl + CRC_BYTES < 2 ^ 16" and "i < length (request_frame b fl pl)"
    and "x \<noteq> request_frame b fl pl ! i"
  defines "fr \<equiv> (request_frame b fl pl)[i := x]"
  shows "crc16_ccitt_false CRC16_INIT (take (length fr - CRC_BYTES) fr) \<noteq> get_le16 fr (length fr - CRC_BYTES)"
proof -
  let ?fr = "request_frame b fl pl" and ?n = "length (request_frame b fl pl) - CRC_BYTES"
  have len: "length fr = length ?fr" "CRC_BYTES \<le> length ?fr" "?n + 1 < length ?fr"
    by (simp_all add: fr_def frame_size_defs)
  note good = request_frame_parts(5) [OF assms(1), of b fl]
  show ?thesis
  proof (cases "i < ?n")
    case True
    have "take ?n fr = (take ?n ?fr)[i := x]" by (simp add: fr_def take_update_swap)
    moreover have "i < length (take ?n ?fr)" "x \<noteq> take ?n ?fr ! i" using True assms(3) by simp_all
    ultimately have "crc16_ccitt_false CRC16_INIT (take ?n fr) \<noteq> crc16_ccitt_false CRC16_INIT (take ?n ?fr)"
      using crc16_single_byte [of i "take ?n ?fr" x] by simp
    moreover have "get_le16 fr ?n = get_le16 ?fr ?n"
      using True by (simp add: fr_def get_le16_def)
    ultimately show ?thesis using good len by simp
  next
    case False
    have same: "take ?n fr = take ?n ?fr" using False by (simp add: fr_def)
    have two: "length (drop ?n fr) = 2" "length (drop ?n ?fr) = 2"
      by (simp_all add: fr_def frame_size_defs)
    have "fr \<noteq> ?fr" using assms(2,3) by (metis fr_def nth_list_update_eq)
    then have "drop ?n fr \<noteq> drop ?n ?fr" using same by (metis append_take_drop_id)
    then have "get_le16 (drop ?n fr) 0 \<noteq> get_le16 (drop ?n ?fr) 0"
      using put_get_le16 [OF two(1)] put_get_le16 [OF two(2)] by metis
    then have "get_le16 fr ?n \<noteq> get_le16 ?fr ?n"
      using get_le16_drop [of ?n fr] get_le16_drop [of ?n ?fr] len by simp
    then show ?thesis using good len same by simp
  qed
qed

lemma serve_corrupted:
  assumes "hdr_ok P" and "crc_inv (alp_crc16_update P) (crc s)" and "length pl + CRC_BYTES < 2 ^ 16"
    and "i < length (request_frame b fl pl)" and "x \<noteq> request_frame b fl pl ! i"
  obtains t where "crc_inv (alp_crc16_update P) t"
    and "serve_request_crc P ((request_frame b fl pl)[i := x]) cap s
      = (s\<lparr>crc := t\<rparr>, RESP_ERR_PROTOCOL, [])"
proof -
  let ?fr = "(request_frame b fl pl)[i := x]"
  have L: "length ?fr = HEADER_BYTES + (length pl + CRC_BYTES)" by simp
  show ?thesis
  proof (cases "unat (get_le16 ?fr 2) = length pl + CRC_BYTES")
    case False
    then have "serve_request_crc P ?fr cap s = (s\<lparr>crc := crc s\<rparr>, RESP_ERR_PROTOCOL, [])"
      by (simp add: serve_request_crc_def Let_def)
    with assms(2) show ?thesis by (rule that)
  next
    case True
    then have len: "length ?fr = HEADER_BYTES + unat (get_le16 ?fr 2)"
      "CRC_BYTES \<le> unat (get_le16 ?fr 2)" by simp_all
    obtain t where t: "crc_inv (alp_crc16_update P) t" and eq: "serve_request_crc P ?fr cap s =
      (if crc16_ccitt_false CRC16_INIT (take (length ?fr - CRC_BYTES) ?fr) = get_le16 ?fr (length ?fr - CRC_BYTES)
       then protocol_dispatch P (?fr ! 0) (?fr ! 1)
              (take (length ?fr - HEADER_BYTES - CRC_BYTES) (drop HEADER_BYTES ?fr))
              (cap - CC3501E_REPLY_DATA_OFF - CRC_BYTES) (s\<lparr>crc := t\<rparr>)
       else (s\<lparr>crc := t\<rparr>, RESP_ERR_PROTOCOL, []))"
      by (rule serve_request_crc_framed [OF assms(1,2) len])
    from eq corrupted_crc [OF assms(3-5)] have "serve_request_crc P ?fr cap s
        = (s\<lparr>crc := t\<rparr>, RESP_ERR_PROTOCOL, [])" by (simp only: if_False)
    with t show ?thesis by (rule that)
  qed
qed

section \<open>The reply frame\<close>

lemma build_reply_crc_shape:
  assumes "WIRE_CRC P" and "hdr_ok P" and "fw_inv P s" and "recv_ring_ok P"
    and serve: "serve_request_crc P fr CC3501E_FRAME_MAX_BYTES s = (s1, st, dat)"
  obtains t where "crc_inv (alp_crc16_update P) t"
    and "protocol_build_reply P fr CC3501E_FRAME_MAX_BYTES s = ((count_frame st s1)\<lparr>crc := t\<rparr>,
      wire_reply (cmd_echo_of fr) (resp_val P st) dat
        (reply_pad (1 + length dat + CRC_BYTES) CC3501E_FRAME_MAX_BYTES))"
proof -
  have inv: "fw_inv P (count_frame st s1)"
    and len: "length dat \<le> CC3501E_FRAME_MAX_BYTES - CC3501E_REPLY_DATA_OFF - CRC_BYTES"
    using serve_request_crc_wf [OF assms(3,4,2) serve] by (simp_all add: wf.I_count)
  have fit: "CC3501E_REPLY_DATA_OFF + CRC_BYTES + length dat \<le> CC3501E_FRAME_MAX_BYTES"
    using len by (simp add: CC3501E_FRAME_MAX_BYTES_def MAX_PAYLOAD_def frame_size_defs)
  obtain t where i: "crc_inv (alp_crc16_update P) t"
    and e: "emit_reply_crc P (cmd_echo_of fr) CC3501E_FRAME_MAX_BYTES st dat (count_frame st s1) =
      ((count_frame st s1)\<lparr>crc := t\<rparr>, wire_reply (cmd_echo_of fr) (resp_val P st) dat
        (reply_pad (1 + length dat + CRC_BYTES) CC3501E_FRAME_MAX_BYTES))"
    by (rule emit_reply_crc_spec [OF assms(2) fw_inv_crc [OF inv] fit]) auto
  have "protocol_build_reply P fr CC3501E_FRAME_MAX_BYTES s =
      emit_reply_crc P (cmd_echo_of fr) CC3501E_FRAME_MAX_BYTES st dat (count_frame st s1)"
    using len fit assms(1) by (simp add: protocol_build_reply_def protocol_build_reply_crc_def serve
        clamp_reply_def)
  with i e show ?thesis using that by metis
qed

lemma reply_pad_total:
  assumes "length dat \<le> CC3501E_FRAME_MAX_BYTES - CC3501E_REPLY_DATA_OFF - CRC_BYTES"
  defines "pad \<equiv> reply_pad (1 + length dat + CRC_BYTES) CC3501E_FRAME_MAX_BYTES"
  shows "HEADER_BYTES + (1 + length dat + pad + CRC_BYTES) \<le> CC3501E_FRAME_MAX_BYTES"
    and "(1 + length dat + pad + CRC_BYTES) mod CC3501E_REPLY_PAD = 0"
    and "1 + length dat + pad + CRC_BYTES < 2 ^ 16"
proof -
  have n: "HEADER_BYTES + (1 + length dat + CRC_BYTES) \<le> CC3501E_FRAME_MAX_BYTES"
    using assms(1) by (simp add: CC3501E_FRAME_MAX_BYTES_def MAX_PAYLOAD_def frame_size_defs)
  show fit: "HEADER_BYTES + (1 + length dat + pad + CRC_BYTES) \<le> CC3501E_FRAME_MAX_BYTES"
    using reply_pad_fits [OF n] by (simp add: pad_def ac_simps)
  show "(1 + length dat + pad + CRC_BYTES) mod CC3501E_REPLY_PAD = 0"
    using reply_pad_aligned [OF n] by (simp add: pad_def ac_simps)
  show "1 + length dat + pad + CRC_BYTES < 2 ^ 16"
    using fit by (simp add: CC3501E_FRAME_MAX_BYTES_def MAX_PAYLOAD_def HEADER_BYTES_def)
qed

text \<open>
  C31: Every reply is a well-formed frame that the host decodes to what the request was answered
  with.  For any received bytes, the frame handed to the transport fits the transmit buffer,
  carries a payload length that is a multiple of eight and a CRC that verifies, and decodes to the
  echoed opcode, the status and the reply data followed by fewer than eight zero bytes.
\<close>

theorem reply_frame_roundtrip:
  assumes "WIRE_CRC P" and "hdr_ok P" and "fw_inv P s" and "recv_ring_ok P"
    and "serve_request_crc P fr CC3501E_FRAME_MAX_BYTES s = (s1, st, dat)"
    and "protocol_build_reply P fr CC3501E_FRAME_MAX_BYTES s = (s', reply)"
  shows "\<exists>pad < CC3501E_REPLY_PAD.
    parse_reply reply = Some (cmd_echo_of fr, resp_val P st, dat @ replicate pad 0)
    \<and> length reply \<le> CC3501E_FRAME_MAX_BYTES
    \<and> (length reply - HEADER_BYTES) mod CC3501E_REPLY_PAD = 0 \<and> fw_inv P s'"
proof -
  obtain t where t: "crc_inv (alp_crc16_update P) t"
    and b: "protocol_build_reply P fr CC3501E_FRAME_MAX_BYTES s = ((count_frame st s1)\<lparr>crc := t\<rparr>,
      wire_reply (cmd_echo_of fr) (resp_val P st) dat
        (reply_pad (1 + length dat + CRC_BYTES) CC3501E_FRAME_MAX_BYTES))"
    by (rule build_reply_crc_shape [OF assms(1-5)])
  have wf: "fw_inv P s1" and len: "length dat \<le> CC3501E_FRAME_MAX_BYTES - CC3501E_REPLY_DATA_OFF - CRC_BYTES"
    using serve_request_crc_wf [OF assms(3,4,2,5)] by auto
  define pad where "pad = reply_pad (1 + length dat + CRC_BYTES) CC3501E_FRAME_MAX_BYTES"
  note total = reply_pad_total [OF len, folded pad_def]
  have s': "s' = (count_frame st s1)\<lparr>crc := t\<rparr>"
    and reply: "reply = wire_reply (cmd_echo_of fr) (resp_val P st) dat pad"
    using b assms(6) by (simp_all add: pad_def)
  have "fw_inv P s'" using wf.I_count [OF wf, of st] t by (simp add: s' fw_inv_def)
  moreover have "length reply = HEADER_BYTES + (1 + length dat + pad + CRC_BYTES)"
    unfolding reply by (rule length_wire_reply)
  then have "length reply \<le> CC3501E_FRAME_MAX_BYTES"
    and "(length reply - HEADER_BYTES) mod CC3501E_REPLY_PAD = 0"
    using total(1,2) by (simp_all only: diff_add_inverse)
  moreover have "pad < CC3501E_REPLY_PAD" unfolding pad_def by (rule reply_pad_less)
  moreover have "parse_reply reply = Some (cmd_echo_of fr, resp_val P st, dat @ replicate pad 0)"
    unfolding reply by (rule parse_wire_reply [OF total(3)])
  ultimately show ?thesis by (intro exI [of _ pad] conjI)
qed

lemma demo_recv_ring_ok: "recv_ring_ok (demo_platform w)"
  by (simp add: recv_ring_ok_def demo_platform_def stub_sock_def)

theorem reply_frame_roundtrip_witness:
  "\<exists>reply pad. pad < CC3501E_REPLY_PAD
     \<and> snd (protocol_build_reply (demo_platform True) [1, 2, 3] CC3501E_FRAME_MAX_BYTES
             (fw_reset (demo_platform True) stub_reset)) = reply
     \<and> parse_reply reply = Some (1, 7, replicate pad 0)"
proof -
  let ?P = "demo_platform True" let ?s = "fw_reset (demo_platform True) stub_reset"
  have "serve_request_crc ?P [1, 2, 3] CC3501E_FRAME_MAX_BYTES ?s = (?s, RESP_ERR_PROTOCOL, [])"
    by (simp add: serve_request_crc_def HEADER_BYTES_def)
  from reply_frame_roundtrip [OF _ _ fw_inv_reset demo_recv_ring_ok this surjective_pairing]
  show ?thesis by (auto simp: cmd_echo_of_def)
qed

text \<open>
  C32: A request damaged in any single byte is refused without being executed.  Whatever byte of a
  host-built frame is altered (opcode, flags, length, payload or trailer), the firmware answers
  \<open>ERR_PROTOCOL\<close>, and the only state that changes is the CRC table, the error counter and the
  last error.
\<close>

theorem corrupted_request_refused:
  assumes "WIRE_CRC P" and "hdr_ok P" and "fw_inv P s" and "recv_ring_ok P"
    and "length pl + CRC_BYTES < 2 ^ 16"
    and "i < length (request_frame b fl pl)" and "x \<noteq> request_frame b fl pl ! i"
    and "protocol_build_reply P ((request_frame b fl pl)[i := x]) CC3501E_FRAME_MAX_BYTES s = (s', reply)"
  shows "(\<exists>t. s' = s\<lparr>crc := t, g_frames_err := g_frames_err s + 1, g_last_error := RESP_ERR_PROTOCOL\<rparr>)
    \<and> (\<exists>pad. parse_reply reply = Some (((request_frame b fl pl)[i := x]) ! 0,
                 resp_val P RESP_ERR_PROTOCOL, replicate pad 0))"
proof -
  let ?fr = "(request_frame b fl pl)[i := x]"
  obtain t0 where sv: "serve_request_crc P ?fr CC3501E_FRAME_MAX_BYTES s
      = (s\<lparr>crc := t0\<rparr>, RESP_ERR_PROTOCOL, [])"
    by (rule serve_corrupted [OF assms(2) fw_inv_crc [OF assms(3)] assms(5-7)])
  obtain t where b: "protocol_build_reply P ?fr CC3501E_FRAME_MAX_BYTES s =
      ((count_frame RESP_ERR_PROTOCOL (s\<lparr>crc := t0\<rparr>))\<lparr>crc := t\<rparr>,
       wire_reply (cmd_echo_of ?fr) (resp_val P RESP_ERR_PROTOCOL) []
        (reply_pad (1 + length ([] :: byte list) + CRC_BYTES) CC3501E_FRAME_MAX_BYTES))"
    by (rule build_reply_crc_shape [OF assms(1-4) sv])
  have "cmd_echo_of ?fr = ?fr ! 0" by (simp add: cmd_echo_of_def HEADER_BYTES_def)
  then have "parse_reply reply = Some (?fr ! 0, resp_val P RESP_ERR_PROTOCOL,
      [] @ replicate (reply_pad (1 + length ([] :: byte list) + CRC_BYTES) CC3501E_FRAME_MAX_BYTES) 0)"
    using parse_wire_reply [OF reply_pad_total(3) [of "[]"]] b assms(8) by auto
  moreover have "s' = s\<lparr>crc := t, g_frames_err := g_frames_err s + 1, g_last_error := RESP_ERR_PROTOCOL\<rparr>"
    using b assms(8) by (auto simp: count_frame_def)
  ultimately show ?thesis by auto
qed

theorem corrupted_request_refused_witness:
  "\<exists>s' reply pad. protocol_build_reply (demo_platform True) ((request_frame 0 0 [])[1 := 8])
       CC3501E_FRAME_MAX_BYTES (fw_reset (demo_platform True) stub_reset) = (s', reply)
     \<and> g_frames_err s' = 1 \<and> parse_reply reply = Some (0, 7, replicate pad 0)"
proof -
  obtain s' reply where b: "protocol_build_reply (demo_platform True) ((request_frame 0 0 [])[1 := 8])
       CC3501E_FRAME_MAX_BYTES (fw_reset (demo_platform True) stub_reset) = (s', reply)" by fastforce
  have "request_frame 0 0 [] ! 1 = 0" "request_frame 0 0 [] ! 0 = 0"
    by (simp_all add: request_frame_def Let_def)
  with corrupted_request_refused [OF _ _ fw_inv_reset demo_recv_ring_ok _ _ _ b] b show ?thesis
    by (fastforce simp: CRC_BYTES_def HEADER_BYTES_def fw_reset_counters)
qed

end
