(* ===== verification/Transport.thy ===== *)
theory Transport
  imports Dispatch
begin

text \<open>
  The portable transports: the byte-level SPI slave of \<^verbatim>\<open>src/transport_spi.c\<close>, the SDIO mailbox
  of \<^verbatim>\<open>src/transport_sdio.c\<close>, and the boot sequence and main loop of \<^verbatim>\<open>src/main.c\<close>.
\<close>

section \<open>SPI\<close>

record spi_slave =
  spi_rx_buf :: "byte list"
  spi_rx_len :: nat
  spi_tx_buf :: "byte list"
  spi_tx_len :: nat
  spi_tx_cursor :: nat

definition spi_reset :: spi_slave where
  "spi_reset = \<lparr>spi_rx_buf = replicate CC3501E_FRAME_MAX_BYTES 0, spi_rx_len = 0,
     spi_tx_buf = replicate CC3501E_FRAME_MAX_BYTES 0, spi_tx_len = 0, spi_tx_cursor = 0\<rparr>"

definition spi_slave_cs_low :: "spi_slave \<Rightarrow> spi_slave" where
  "spi_slave_cs_low t = t\<lparr>spi_rx_len := 0\<rparr>"

definition spi_slave_rx_byte :: "byte \<Rightarrow> spi_slave \<Rightarrow> spi_slave" where
  "spi_slave_rx_byte b t =
     (if spi_rx_len t < length (spi_rx_buf t)
      then t\<lparr>spi_rx_buf := (spi_rx_buf t)[spi_rx_len t := b], spi_rx_len := spi_rx_len t + 1\<rparr>
      else t)"

definition spi_slave_cs_high ::
    "'h platform \<Rightarrow> spi_slave \<Rightarrow> 'h fw \<Rightarrow> spi_slave \<times> 'h fw" where
  "spi_slave_cs_high P t s =
     (if spi_rx_len t = 0 then (t\<lparr>spi_tx_cursor := 0\<rparr>, s)
      else case protocol_build_reply P (take (spi_rx_len t) (spi_rx_buf t)) (length (spi_tx_buf t)) s of
        (s', reply) \<Rightarrow>
          (t\<lparr>spi_tx_buf := blit (spi_tx_buf t) reply, spi_tx_len := length reply, spi_tx_cursor := 0\<rparr>, s'))"

definition spi_slave_tx_next_byte :: "spi_slave \<Rightarrow> spi_slave \<times> byte" where
  "spi_slave_tx_next_byte t =
     (if spi_tx_cursor t < spi_tx_len t
      then (t\<lparr>spi_tx_cursor := spi_tx_cursor t + 1\<rparr>, spi_tx_buf t ! spi_tx_cursor t)
      else (t, 0xFF))"

definition spi_slave_tx_pending :: "spi_slave \<Rightarrow> bool" where
  "spi_slave_tx_pending t \<longleftrightarrow> spi_tx_cursor t < spi_tx_len t"

definition spi_slave_tx_take :: "nat \<Rightarrow> spi_slave \<Rightarrow> spi_slave \<times> byte list" where
  "spi_slave_tx_take cap t =
     (if cap = 0 then (t, [])
      else let n = min (spi_tx_len t - spi_tx_cursor t) cap
           in (t\<lparr>spi_tx_cursor := spi_tx_cursor t + n\<rparr>,
               take n (drop (spi_tx_cursor t) (spi_tx_buf t))))"

definition transport_spi_init :: "'h platform \<Rightarrow> spi_slave \<Rightarrow> 'h fw \<Rightarrow> spi_slave \<times> 'h fw" where
  "transport_spi_init P t s =
     (t\<lparr>spi_rx_len := 0, spi_tx_len := 0, spi_tx_cursor := 0\<rparr>, hw_void (spi_hw_init (link P)) s)"

section \<open>SDIO\<close>

record sdio_slave =
  sdio_reply_buf :: "byte list"
  sdio_reply_len :: u16

definition sdio_slave_on_request ::
    "'h platform \<Rightarrow> byte list \<Rightarrow> sdio_slave \<Rightarrow> 'h fw \<Rightarrow> sdio_slave \<times> 'h fw" where
  "sdio_slave_on_request P frame t s =
     (case protocol_build_reply P frame (length (sdio_reply_buf t)) s of
        (s', reply) \<Rightarrow>
          (t\<lparr>sdio_reply_buf := blit (sdio_reply_buf t) reply,
             sdio_reply_len := word_of_nat (length reply)\<rparr>, s'))"

definition sdio_slave_reply :: "sdio_slave \<Rightarrow> byte list" where
  "sdio_slave_reply t = sdio_reply_buf t"

definition sdio_slave_reply_len :: "sdio_slave \<Rightarrow> u16" where
  "sdio_slave_reply_len t = sdio_reply_len t"

definition transport_sdio_init :: "'h platform \<Rightarrow> sdio_slave \<Rightarrow> 'h fw \<Rightarrow> sdio_slave \<times> 'h fw" where
  "transport_sdio_init P t s = (t\<lparr>sdio_reply_len := 0\<rparr>, hw_void (sdio_hw_init (link P)) s)"

section \<open>Boot and main loop\<close>

definition main_boot :: "'h platform \<Rightarrow> ('h \<Rightarrow> 'h) \<Rightarrow> spi_slave \<Rightarrow> 'h fw \<Rightarrow> spi_slave \<times> 'h fw" where
  "main_boot P hw_init t s =
     (let s1 = worker_init (hw_void hw_init s)
      in transport_spi_init P t (s1\<lparr>ring := event_ring_init (ring s1)\<rparr>))"

definition main_loop_pass :: "'h platform \<Rightarrow> 'h fw \<Rightarrow> 'h fw" where
  "main_loop_pass P s = hw_void (hw_tick (sys P)) (worker_run_pending P s)"

section \<open>A full-duplex exchange\<close>

text \<open>The host asserts CS, clocks the request bytes in, releases CS, and clocks \<open>n\<close> bytes out.\<close>

definition spi_request :: "'h platform \<Rightarrow> byte list \<Rightarrow> spi_slave \<times> 'h fw \<Rightarrow> spi_slave \<times> 'h fw" where
  "spi_request P frame = (\<lambda>(t, s).
     spi_slave_cs_high P (fold spi_slave_rx_byte frame (spi_slave_cs_low t)) s)"

primrec spi_clock_out :: "nat \<Rightarrow> spi_slave \<Rightarrow> spi_slave \<times> byte list" where
  "spi_clock_out 0 t = (t, [])"
| "spi_clock_out (Suc n) t =
     (case spi_slave_tx_next_byte t of (t1, b) \<Rightarrow>
      case spi_clock_out n t1 of (t2, bs) \<Rightarrow> (t2, b # bs))"

end
