(* ===== verification/System.thy ===== *)
theory System
  imports Framing Transport
begin

text \<open>
  The firmware as a whole: its reachable states under every interleaving of host frames, task
  passes, queued events and driver activity, the invariant they all satisfy, and the life of a
  job from its submission to its execution.
\<close>

section \<open>Reachable states\<close>

text \<open>
  \<open>request\<close> is a frame served in the transport's interrupt; \<open>pass\<close> an iteration of the main loop.
  \<open>claim\<close>, \<open>complete\<close> and \<open>release\<close> are the same pass cut where an interrupt can fall between its
  critical sections: the claim of a queued job, the blocking driver call with its publication,
  and the unconditional reset after a fire-and-forget job.  \<open>event\<close> is a driver callback queueing
  an event, \<open>driver\<close> any other change of the hardware state.
\<close>

inductive reachable :: "'h platform \<Rightarrow> 'h fw \<Rightarrow> bool" for P :: "'h platform" where
  boot: "reachable P (snd (main_boot P hw_init t (fw_reset P h)))"
| request: "reachable P s \<Longrightarrow> reachable P (fst (protocol_build_reply P fr cap s))"
| pass: "reachable P s \<Longrightarrow> reachable P (main_loop_pass P s)"
| claim: "reachable P s \<Longrightarrow> worker_claim s = Some (s', c) \<Longrightarrow> reachable P s'"
| complete: "reachable P s \<Longrightarrow> state (job s) = WORKER_RUNNING \<Longrightarrow>
    reachable P (worker_execute P (job_cmd (job s)) s)"
| release: "reachable P s \<Longrightarrow> reachable P (worker_reset s)"
| event: "reachable P s \<Longrightarrow> payload_given pl len \<Longrightarrow>
    event_ring_push (bridge_attn_pulse (link P)) op pl len (ring s) (hw s) = (r, h', rv) \<Longrightarrow>
    reachable P (s\<lparr>ring := r, hw := h'\<rparr>)"
| driver: "reachable P s \<Longrightarrow> reachable P (s\<lparr>hw := h\<rparr>)"

lemma ring_inv_push:
  assumes "ring_inv r" and "payload_given pl len"
    and "event_ring_push attn op pl len r h = (r', h', rv)"
  shows "ring_inv r'"
proof (cases "count r < EVENT_RING_SLOTS")
  case True
  with event_ring_push_room [OF assms(1) True assms(2,3)] show ?thesis by simp
next
  case False
  with event_ring_push_full [of r attn op pl len h] assms(1,3) show ?thesis by simp
qed

lemma fw_inv_boot: "fw_inv P s \<Longrightarrow> fw_inv P (snd (main_boot P f t s))"
  by (simp add: main_boot_def transport_spi_init_def Let_def hw_void_def worker_init_def
      fw_inv_def ring_inv_init)

text \<open>
  C1: Every reachable state is well-formed.  Through any interleaving of received frames (valid
  or not, of any length and for any reply capacity), worker passes cut at any critical section,
  queued events and driver activity, on every backend and in both builds: buffers keep their
  sizes, every stored length stays within its buffer, the latch holds only a replayable reply
  under a non-zero sequence number, the CRC table is the one built from the header's routine, and
  the event ring stays consistent.
\<close>

theorem reachable_wf:
  assumes "reachable P s"
  shows "fw_inv P s"
  using assms
proof induction
  case (boot f t h)
  show ?case by (rule fw_inv_boot [OF fw_inv_reset])
next
  case (request s fr cap)
  from request.IH show ?case by (rule wf.I_build_reply)
next
  case (pass s)
  then show ?case by (simp add: main_loop_pass_def hw_void_def fw_inv_hw fw_inv_run_pending)
next
  case (claim s s' c)
  then show ?case by (auto simp: worker_claim_def fw_inv_def job_wf_def split: if_splits)
next
  case (complete s)
  then show ?case by (intro fw_inv_execute) (auto simp: fw_inv_def job_wf_def)
next
  case (release s)
  from release.IH show ?case by (rule fw_inv_reset_job)
next
  case (event s pl len op r h' rv)
  then show ?case using ring_inv_push [of "ring s"] by (auto simp: fw_inv_def)
next
  case (driver s h)
  from driver.IH show ?case by (rule fw_inv_hw)
qed

theorem reachable_wf_witness:
  "fw_inv (demo_platform True) (main_loop_pass (demo_platform True)
     (fst (protocol_build_reply (demo_platform True) [3, 0, 2, 0, 0x7E, 0x79] CC3501E_FRAME_MAX_BYTES
       (snd (main_boot (demo_platform True) id spi_reset (fw_reset (demo_platform True) stub_reset))))))"
  by (rule reachable_wf) (intro reachable.pass reachable.request reachable.boot)

text \<open>
  No handler overruns the reply buffer.  For every opcode byte, payload and capacity, in every
  well-formed state, the reply data fits the capacity the framing layer passed down, so the
  firmware's last-resort clamp never has anything to drop.
\<close>

theorem dispatch_reply_fits:
  assumes "fw_inv P s" and "recv_ring_ok P"
  shows "length (snd (snd (protocol_dispatch P b fl rq cap s))) \<le> cap
    \<and> clamp_reply cap (snd (protocol_dispatch P b fl rq cap s)) = snd (protocol_dispatch P b fl rq cap s)"
  using dispatch_bound [OF assms, of b fl rq cap] by (simp add: clamp_reply_def)

theorem dispatch_reply_fits_witness:
  "length (snd (snd (protocol_dispatch (demo_platform True) 5 0 [] 1
     (fw_reset (demo_platform True) stub_reset)))) \<le> 1"
  using dispatch_reply_fits [OF fw_inv_reset [of "demo_platform True" stub_reset] demo_recv_ring_ok,
    of 5 0 "[]" 1] by simp

section \<open>The life of a job\<close>

lemma live_job_frames:
  assumes "live (job s)"
  shows "in_flight (job s) (g_worker_execs s)
    (fold (\<lambda>fr s. fst (protocol_build_reply P fr cap s)) frs s)"
  using assms by (intro fly.I_frames) (simp add: in_flight_def)

lemma publish_job:
  "job (worker_publish c rv bytes s) =
     (let buf = take (length (result (job s))) bytes; j = job s
      in if rv = CC3501E_HW_OK
         then j\<lparr>result := blit (result j) buf, result_len := length buf, err := 0, state := WORKER_DONE\<rparr>
         else j\<lparr>result_len := 0, err := to_int8 rv, state := WORKER_ERR\<rparr>)"
  by (simp add: worker_publish_def Let_def)

lemma publish_execs: "g_worker_execs (worker_publish c rv bytes s) = g_worker_execs s"
  by (simp add: worker_publish_def Let_def)

lemma execute_execs: "g_worker_execs (worker_execute P c s) = g_worker_execs s + 1"
  by (simp add: worker_execute_def publish_execs split: prod.split)

lemma run_pending_execs:
  "g_worker_execs (worker_run_pending P s) =
     (if state (job s) = WORKER_QUEUED then g_worker_execs s + 1 else g_worker_execs s)"
proof (cases "state (job s) = WORKER_QUEUED")
  case True
  from worker_run_pending_queued [OF True, of P] obtain h where
    "worker_run_pending P s = (let e = worker_execute P (job_cmd (job s))
        (s\<lparr>job := (job s)\<lparr>state := WORKER_RUNNING\<rparr>, hw := bridge_busy (link P) (hw s)\<rparr>)
      in (if auto_release (job_cmd (job s)) then worker_reset e else e)\<lparr>hw := h\<rparr>)" ..
  with True show ?thesis by (simp add: Let_def worker_reset_def execute_execs)
qed (simp add: worker_run_pending_idle)

text \<open>
  The job a pass leaves: the outcome of the body, published in the slot; the two fire-and-forget
  joins (station connect, soft-AP start), whose outcome the host reads from the connection state,
  have their slot released by the pass itself.
\<close>

definition outcome_job :: "int \<Rightarrow> byte list \<Rightarrow> worker_job \<Rightarrow> worker_job" where
  "outcome_job rv bytes j =
     (if rv = CC3501E_HW_OK
      then j\<lparr>result := blit (result j) (take (length (result j)) bytes),
             result_len := length (take (length (result j)) bytes), err := 0, state := WORKER_DONE\<rparr>
      else j\<lparr>result_len := 0, err := to_int8 rv, state := WORKER_ERR\<rparr>)"

lemma run_pending_outcome:
  assumes "state (job s) = WORKER_QUEUED"
    and "worker_body P (job_cmd (job s)) (req (job s)) (req_len (job s)) (bridge_busy (link P) (hw s))
          = (h, rv, bytes)"
  shows "job (worker_run_pending P s) =
    (if auto_release (job_cmd (job s)) then job_clear (outcome_job rv bytes (job s))
     else outcome_job rv bytes (job s))"
proof -
  let ?e = "worker_execute P (job_cmd (job s))
        (s\<lparr>job := (job s)\<lparr>state := WORKER_RUNNING\<rparr>, hw := bridge_busy (link P) (hw s)\<rparr>)"
  have e: "job ?e = outcome_job rv bytes (job s)"
    by (simp add: worker_execute_def assms(2) publish_job outcome_job_def Let_def)
  from worker_run_pending_queued [OF assms(1), of P] obtain h' where
    "worker_run_pending P s = (if auto_release (job_cmd (job s)) then worker_reset ?e else ?e)\<lparr>hw := h'\<rparr>"
    by (auto simp: Let_def)
  then show ?thesis by (simp add: worker_reset_def e)
qed

lemma run_pending_job:
  assumes "state (job s) = WORKER_QUEUED" and "\<not> auto_release (job_cmd (job s))"
    and "worker_body P (job_cmd (job s)) (req (job s)) (req_len (job s)) (bridge_busy (link P) (hw s))
          = (h, rv, bytes)"
  shows "job (worker_run_pending P s) =
    (let buf = take (length (result (job s))) bytes; j = job s
     in if rv = CC3501E_HW_OK
        then j\<lparr>result := blit (result j) buf, result_len := length buf, err := 0, state := WORKER_DONE\<rparr>
        else j\<lparr>result_len := 0, err := to_int8 rv, state := WORKER_ERR\<rparr>)"
  using run_pending_outcome [OF assms(1,3)] assms(2) by (simp add: outcome_job_def Let_def)

lemma publish_keeps:
  "s_retry_latch (worker_publish c rv bytes s) = s_retry_latch s"
  "s_current_req_seq (worker_publish c rv bytes s) = s_current_req_seq s"
  "g_configured (worker_publish c rv bytes s) = g_configured s"
  "g_cs_held (worker_publish c rv bytes s) = g_cs_held s"
  by (simp_all add: worker_publish_def Let_def)

text \<open>A pass of the main loop touches neither the latch nor what the frames left of their own state.\<close>

lemma pass_keeps:
  "s_retry_latch (main_loop_pass P s) = s_retry_latch s"
  "s_current_req_seq (main_loop_pass P s) = s_current_req_seq s"
  "g_configured (main_loop_pass P s) = g_configured s"
  "g_cs_held (main_loop_pass P s) = g_cs_held s"
proof -
  have "s_retry_latch (main_loop_pass P s) = s_retry_latch s
    \<and> s_current_req_seq (main_loop_pass P s) = s_current_req_seq s
    \<and> g_configured (main_loop_pass P s) = g_configured s \<and> g_cs_held (main_loop_pass P s) = g_cs_held s"
  proof (cases "state (job s) = WORKER_QUEUED")
    case True
    from worker_run_pending_queued [OF True, of P] obtain h where
      "worker_run_pending P s = (let e = worker_execute P (job_cmd (job s))
          (s\<lparr>job := (job s)\<lparr>state := WORKER_RUNNING\<rparr>, hw := bridge_busy (link P) (hw s)\<rparr>)
        in (if auto_release (job_cmd (job s)) then worker_reset e else e)\<lparr>hw := h\<rparr>)" ..
    then show ?thesis
      by (simp add: main_loop_pass_def hw_void_def Let_def worker_reset_def worker_execute_def
          publish_keeps split: prod.split)
  qed (simp add: main_loop_pass_def hw_void_def worker_run_pending_idle)
  then show "s_retry_latch (main_loop_pass P s) = s_retry_latch s"
    "s_current_req_seq (main_loop_pass P s) = s_current_req_seq s"
    "g_configured (main_loop_pass P s) = g_configured s"
    "g_cs_held (main_loop_pass P s) = g_cs_held s" by simp_all
qed

lemma outcome_not_queued:
  "state (job_clear j) \<noteq> WORKER_QUEUED" "state (outcome_job rv bytes j) \<noteq> WORKER_QUEUED"
  by (simp_all add: job_clear_def outcome_job_def)

lemma pass_not_left_queued: "state (job (main_loop_pass P s)) \<noteq> WORKER_QUEUED"
proof (cases "state (job s) = WORKER_QUEUED")
  case True
  obtain h rv bytes where
    "worker_body P (job_cmd (job s)) (req (job s)) (req_len (job s)) (bridge_busy (link P) (hw s))
      = (h, rv, bytes)" by (metis prod_cases3)
  from run_pending_outcome [OF True this] show ?thesis
    by (simp add: main_loop_pass_def hw_void_def outcome_not_queued)
qed (simp add: main_loop_pass_def hw_void_def worker_run_pending_idle)

lemma pass_execs:
  "g_worker_execs (main_loop_pass P s) =
     (if state (job s) = WORKER_QUEUED then g_worker_execs s + 1 else g_worker_execs s)"
  by (simp add: main_loop_pass_def hw_void_def run_pending_execs)

text \<open>
  C2: A job in the slot is executed exactly once, as submitted.  While a job is queued, no
  sequence of received frames, of whatever opcodes and payloads, can drop it, replace it, alter
  its request bytes or run it; the next worker pass runs its body once, on the driver it was
  submitted for.  The outcome of that run is published in the slot under the job's opcode (the
  result bytes cut to the result buffer, or the error code), except for a station connect and a
  soft-AP start, whose slot the same pass releases, leaving it idle.
\<close>

theorem queued_job_runs_once:
  assumes "state (job s) = WORKER_QUEUED"
    and "fold (\<lambda>fr s. fst (protocol_build_reply P fr cap s)) frs s = s1"
    and "worker_body P (job_cmd (job s)) (req (job s)) (req_len (job s)) (bridge_busy (link P) (hw s1))
          = (h, rv, bytes)"
  shows "job s1 = job s \<and> g_worker_execs s1 = g_worker_execs s
    \<and> g_worker_execs (worker_run_pending P s1) = g_worker_execs s + 1
    \<and> state (job (worker_run_pending P s1)) =
        (if job_cmd (job s) \<in> {CMD_WIFI_CONNECT_STA, CMD_WIFI_AP_START} then WORKER_IDLE
         else if rv = CC3501E_HW_OK then WORKER_DONE else WORKER_ERR)
    \<and> (job_cmd (job s) \<notin> {CMD_WIFI_CONNECT_STA, CMD_WIFI_AP_START} \<longrightarrow>
        job_cmd (job (worker_run_pending P s1)) = job_cmd (job s)
        \<and> req (job (worker_run_pending P s1)) = req (job s)
        \<and> (if rv = CC3501E_HW_OK
           then take (result_len (job (worker_run_pending P s1))) (result (job (worker_run_pending P s1)))
                  = take (length (result (job s))) bytes
           else err (job (worker_run_pending P s1)) = to_int8 rv))"
proof -
  have "in_flight (job s) (g_worker_execs s) s1"
    using live_job_frames [of s P cap frs] assms(1,2) by (simp add: live_def)
  then have s1: "job s1 = job s" "g_worker_execs s1 = g_worker_execs s"
    by (simp_all add: in_flight_def)
  have j: "job (worker_run_pending P s1) =
    (if auto_release (job_cmd (job s)) then job_clear (outcome_job rv bytes (job s))
     else outcome_job rv bytes (job s))"
    using run_pending_outcome [of s1 P h rv bytes] assms s1 by simp
  have t: "take (length (take (length xs) bytes)) (blit xs (take (length xs) bytes))
      = take (length xs) bytes" for xs
    by (rule take_blit)
  show ?thesis
    using s1 run_pending_execs [of P s1] assms(1) t
    by (simp add: j auto_release_def job_clear_def outcome_job_def del: length_take)
qed

definition demo_queued :: "stub_hw fw" where
  "demo_queued = (fw_reset (demo_platform True) stub_reset)
     \<lparr>job := job_reset\<lparr>state := WORKER_QUEUED, job_cmd := CMD_GET_MAC\<rparr>\<rparr>"

theorem queued_job_runs_once_witness:
  "\<exists>s1. fold (\<lambda>fr s. fst (protocol_build_reply (demo_platform True) fr CC3501E_FRAME_MAX_BYTES s))
       [[0, 0, 2, 0, 0xA2, 0xE2], [0x24, 0], []] demo_queued = s1
     \<and> g_worker_execs (worker_run_pending (demo_platform True) s1) = 1
     \<and> state (job (worker_run_pending (demo_platform True) s1)) = WORKER_ERR"
proof -
  let ?P = "demo_platform True"
  have q: "state (job demo_queued) = WORKER_QUEUED" "job_cmd (job demo_queued) = CMD_GET_MAC"
    "g_worker_execs demo_queued = 0"
    by (simp_all add: demo_queued_def fw_reset_counters)
  have b: "worker_body ?P CMD_GET_MAC rq n h = (h, CC3501E_HW_ERR_NOTIMPL, [])" for rq n h
    by (simp add: worker_body_def exec_meta_def on_ok_def demo_platform_def stub_sys_def
        notimpl_out_def hw_rc_defs)
  show ?thesis
    using queued_job_runs_once [of demo_queued ?P CC3501E_FRAME_MAX_BYTES
        "[[0, 0, 2, 0, 0xA2, 0xE2], [0x24, 0], []]"] q b
    by (simp add: auto_release_def hw_rc_defs)
qed

end
