(* ===== verification/Exactly_Once.thy ===== *)
theory Exactly_Once
  imports System
begin

text \<open>
  \<open>SOCK_SEND\<close> under retry: the replay cache of \<^verbatim>\<open>src/protocol_sockets.c\<close>, filled by the worker
  when the driver call completes, against a host that repeats a send until it is answered.
\<close>

section \<open>A host that repeats one request\<close>

text \<open>
  The host sends the same payload again (the frame's flags, and so its transport sequence number,
  may differ each time), the main loop makes a pass, or the hardware state changes on its own.
\<close>

datatype 'h retry_step = Resend byte | Pass | Driver 'h

fun retry_run ::
    "'h platform \<Rightarrow> cmd \<Rightarrow> byte list \<Rightarrow> nat \<Rightarrow> 'h retry_step list \<Rightarrow> 'h fw \<Rightarrow> 'h fw \<times> (resp \<times> byte list) list"
where
  "retry_run P c rq cap [] s = (s, [])"
| "retry_run P c rq cap (Resend fl # xs) s =
     (case protocol_dispatch P (cmd_val P c) fl rq cap s of
        (s1, r) \<Rightarrow> (case retry_run P c rq cap xs s1 of (s2, rs) \<Rightarrow> (s2, r # rs)))"
| "retry_run P c rq cap (Pass # xs) s = retry_run P c rq cap xs (main_loop_pass P s)"
| "retry_run P c rq cap (Driver h # xs) s = retry_run P c rq cap xs (s\<lparr>hw := h\<rparr>)"

lemma pass_not_queued:
  "state (job s) \<noteq> WORKER_QUEUED \<Longrightarrow> main_loop_pass P s = s\<lparr>hw := hw_tick (sys P) (hw s)\<rparr>"
  by (simp add: main_loop_pass_def worker_run_pending_idle hw_void_def)

section \<open>Settled requests\<close>

text \<open>
  The contract of a replay cache: a condition on the state under which a repeated request has one
  answer, which neither the repetition nor any hardware activity disturbs.  Under it every
  further repetition gets that answer and nothing is executed.
\<close>

locale settled_phase =
  fixes P :: "'h platform" and c :: cmd and rq :: "byte list" and cap :: nat
    and Settled :: "'h fw \<Rightarrow> bool" and answer :: "resp \<times> byte list"
  assumes resend: "Settled s \<Longrightarrow> \<exists>s1. protocol_dispatch P (cmd_val P c) fl rq cap s = (s1, answer)
      \<and> Settled s1 \<and> g_worker_execs s1 = g_worker_execs s"
    and not_queued: "Settled s \<Longrightarrow> state (job s) \<noteq> WORKER_QUEUED"
    and hw_change: "Settled s \<Longrightarrow> Settled (s\<lparr>hw := h\<rparr>)"
begin

lemma settled_run:
  assumes "Settled s" and "retry_run P c rq cap xs s = (s', rs)"
  shows "set rs \<subseteq> {answer} \<and> g_worker_execs s' = g_worker_execs s"
  using assms
proof (induction xs arbitrary: s rs)
  case (Cons x xs)
  show ?case
  proof (cases x)
    case (Resend fl)
    from resend [OF Cons.prems(1), of fl] obtain s1 where
      s1: "protocol_dispatch P (cmd_val P c) fl rq cap s = (s1, answer)" "Settled s1"
        "g_worker_execs s1 = g_worker_execs s" by blast
    obtain s2 rs2 where r: "retry_run P c rq cap xs s1 = (s2, rs2)" by fastforce
    with Cons.prems(2) Resend s1(1) have "s' = s2" "rs = answer # rs2" by simp_all
    with Cons.IH [OF s1(2), of rs2] r s1(3) show ?thesis by simp
  next
    case Pass
    note p = pass_not_queued [OF not_queued [OF Cons.prems(1)], of P]
    show ?thesis using Cons.IH [OF hw_change [OF Cons.prems(1)]] Cons.prems(2) Pass by (simp add: p)
  next
    case (Driver h)
    show ?thesis using Cons.IH [OF hw_change [OF Cons.prems(1)]] Cons.prems(2) Driver by simp
  qed
qed simp

end

section \<open>Sends\<close>

definition send_request_ok :: "byte list \<Rightarrow> bool" where
  "send_request_ok rq \<longleftrightarrow> length rq = SIZEOF_sock_send + unat (get_le16 rq 4) \<and> length rq \<le> MAX_PAYLOAD"

text \<open>The answers one call of the driver's send, in some hardware state, can give the host.\<close>

definition send_answer :: "int \<Rightarrow> u16 \<Rightarrow> resp \<times> byte list" where
  "send_answer rv n =
     (if rv = CC3501E_HW_OK then (RESP_OK, put_le16 n) else (sock_worker_hw_err_to_resp rv, []))"

definition send_outcome :: "'h platform \<Rightarrow> byte list \<Rightarrow> resp \<times> byte list \<Rightarrow> bool" where
  "send_outcome P rq a \<longleftrightarrow> (\<exists>h h' rv n.
     hw_sock_send (sock P) (get_le16 rq 0) (rq ! 2) (take (unat (get_le16 rq 4)) (drop 8 rq)) h
       = (h', rv, n) \<and> a = send_answer rv n)"

text \<open>
  A new send: the cache does not answer for its sequence number, and the slot is idle or holds a
  finished job of something else (a finished send of another sequence number included).
\<close>

definition send_ready :: "byte \<Rightarrow> 'h fw \<Rightarrow> bool" where
  "send_ready sq s \<longleftrightarrow> (send_cached (sock_send s) \<longrightarrow> send_seq (sock_send s) \<noteq> sq)
     \<and> (state (job s) = WORKER_IDLE
        \<or> terminal (state (job s))
          \<and> (job_cmd (job s) = CMD_SOCK_SEND \<longrightarrow> 3 < req_len (job s) \<and> req (job s) ! 3 \<noteq> sq))"

definition send_waiting :: "byte list \<Rightarrow> 'h fw \<Rightarrow> bool" where
  "send_waiting rq s \<longleftrightarrow> \<not> send_cached (sock_send s) \<and> state (job s) = WORKER_QUEUED
     \<and> job_cmd (job s) = CMD_SOCK_SEND \<and> req_len (job s) = length rq
     \<and> take (length rq) (req (job s)) = rq"

definition send_settled :: "byte \<Rightarrow> resp \<times> byte list \<Rightarrow> 'h fw \<Rightarrow> bool" where
  "send_settled sq a s \<longleftrightarrow> send_cached (sock_send s) \<and> send_seq (sock_send s) = sq
     \<and> a = (send_status (sock_send s), if send_status (sock_send s) = RESP_OK then send_reply (sock_send s) else [])
     \<and> \<not> live (job s)"

section \<open>The three phases\<close>

lemma send_latch [simp]: "retry_latch_serve CMD_SOCK_SEND cap s = (s, None)"
  by (simp add: retry_latch_serve_def retry_latch_applies_def)

lemma send_request_bounds:
  "send_request_ok rq \<Longrightarrow> 8 \<le> length rq \<and> length rq \<le> MAX_PAYLOAD"
  by (simp add: send_request_ok_def sizeof_defs)

lemma send_dispatch:
  assumes "hdr_ok P"
  shows "protocol_dispatch P (cmd_val P CMD_SOCK_SEND) fl rq cap s =
    handle_sock_send P rq cap (s\<lparr>s_current_req_seq := req_seq_of_flags fl\<rparr>)"
  using assms
  by (simp add: protocol_dispatch_def Let_def handler_of_def radio_cmds_def radio_handler_def)

lemma send_settled_handle:
  assumes "send_settled (rq ! 3) a s" and "send_request_ok rq" and "2 \<le> cap"
  shows "\<exists>s1. handle_sock_send P rq cap s = (s1, a) \<and> send_settled (rq ! 3) a s1
    \<and> g_worker_execs s1 = g_worker_execs s"
proof -
  let ?s1 = "fst (worker_reclaim_matching_terminal CMD_SOCK_SEND SOCK_SEND_SEQ_OFF (rq ! 3) s)"
  have e: "sock_send_expire (rq ! 3) (sock_send s) = sock_send s"
    using assms(1) by (simp add: send_settled_def sock_send_expire_def)
  have "handle_sock_send P rq cap s = (?s1, a)"
    using assms e
    by (simp add: handle_sock_send_def send_settled_def send_request_ok_def Let_def
        SOCK_SEND_SEQ_OFF_def)
  moreover have "send_settled (rq ! 3) a ?s1" "g_worker_execs ?s1 = g_worker_execs s"
    using assms(1)
    by (simp_all add: worker_reclaim_matching_terminal_def send_settled_def live_def job_clear_def)
  ultimately show ?thesis by blast
qed

lemma send_body:
  assumes "take (length rq) req' = rq" and "send_request_ok rq"
  shows "worker_body P CMD_SOCK_SEND req' n h =
    on_ok put_le16 (hw_sock_send (sock P) (get_le16 rq 0) (rq ! 2) (take (unat (get_le16 rq 4)) (drop 8 rq)) h)"
proof -
  have n: "8 \<le> length rq" and l: "length rq = 8 + unat (get_le16 rq 4)"
    using assms(2) by (simp_all add: send_request_ok_def sizeof_defs)
  obtain zs where z: "req' = rq @ zs" by (metis append_take_drop_id assms(1))
  have "get_le16 req' 0 = get_le16 rq 0" "get_le16 req' 4 = get_le16 rq 4" "req' ! 2 = rq ! 2"
    using n by (auto simp add: z get_le16_def nth_append)
  moreover have "take (unat (get_le16 rq 4)) (drop 8 req') = take (unat (get_le16 rq 4)) (drop 8 rq)"
    using l by (simp add: z)
  ultimately show ?thesis by (simp add: worker_body_def exec_sock_def)
qed

lemma send_publish:
  assumes "2 \<le> length (result (job s))"
  shows "send_settled (req (job s) ! 3) (send_answer rv n)
    (worker_publish CMD_SOCK_SEND rv (if rv = CC3501E_HW_OK then put_le16 n else []) s)"
  using assms
  by (simp add: worker_publish_def Let_def send_settled_def send_answer_def live_def
      protocol_sock_send_on_worker_complete_def sock_worker_hw_err_to_resp_def)

lemma send_execute:
  assumes "fw_inv P s" and "take (length rq) (req (job s)) = rq" and "send_request_ok rq"
  shows "\<exists>a. send_outcome P rq a \<and> send_settled (rq ! 3) a (worker_execute P CMD_SOCK_SEND s)"
proof -
  obtain h' rv n where call: "hw_sock_send (sock P) (get_le16 rq 0) (rq ! 2)
      (take (unat (get_le16 rq 4)) (drop 8 rq)) (hw s) = (h', rv, n)"
    by (metis prod_cases3)
  let ?s = "s\<lparr>g_worker_execs := g_worker_execs s + 1, hw := h'\<rparr>"
  have r: "req (job s) ! 3 = rq ! 3"
    using assms(2) send_request_bounds [OF assms(3)] nth_take [of 3 "length rq" "req (job s)"] by simp
  have x: "worker_execute P CMD_SOCK_SEND s =
      worker_publish CMD_SOCK_SEND rv (if rv = CC3501E_HW_OK then put_le16 n else []) ?s"
    by (simp add: worker_execute_def send_body [OF assms(2,3)] call on_ok_def)
  have "send_settled (rq ! 3) (send_answer rv n) (worker_execute P CMD_SOCK_SEND s)"
    using send_publish [of ?s rv n] assms(1) r
    by (simp add: x fw_inv_def job_wf_def MAX_PAYLOAD_def)
  with call show ?thesis unfolding send_outcome_def by blast
qed

lemma send_settled_frame:
  "send_settled sq a s \<Longrightarrow> send_settled sq a (s\<lparr>s_current_req_seq := q\<rparr>)"
  "send_settled sq a s \<Longrightarrow> send_settled sq a (s\<lparr>hw := h\<rparr>)"
  by (simp_all add: send_settled_def)

lemma send_submit:
  assumes "fw_inv P s" and "send_request_ok rq" and "state (job s) = WORKER_IDLE"
    and "\<not> send_cached (sock_send s)"
  defines "s1 \<equiv> fst (worker_submit_payload P CMD_SOCK_SEND rq s)"
  shows "if BUILD_WIFI P then send_waiting rq s1 \<and> g_worker_execs s1 = g_worker_execs s
     else (\<exists>a. send_outcome P rq a \<and> send_settled (rq ! 3) a s1) \<and> g_worker_execs s1 = g_worker_execs s + 1"
proof -
  let ?q = "s\<lparr>job := (job s)\<lparr>job_cmd := CMD_SOCK_SEND, result_len := 0, err := 0,
     req := blit (req (job s)) rq, req_len := length rq, state := WORKER_QUEUED\<rparr>\<rparr>"
  let ?r = "?q\<lparr>job := (job ?q)\<lparr>state := WORKER_RUNNING\<rparr>\<rparr>"
  have s1: "s1 = run_if_sync P CMD_SOCK_SEND ?q"
    using assms(3) send_request_bounds [OF assms(2)] by (simp add: s1_def worker_submit_payload_def)
  have "fw_inv P ?r"
    using assms(1) send_request_bounds [OF assms(2)] by (simp add: fw_inv_def job_wf_def)
  from send_execute [OF this _ assms(2)] show ?thesis
    using assms(4) by (simp add: s1 run_if_sync_def send_waiting_def execute_execs)
qed

lemma send_ready_handle:
  assumes "fw_inv P s" and "send_ready (rq ! 3) s" and "send_request_ok rq" and "2 \<le> cap"
  shows "\<exists>s1. handle_sock_send P rq cap s = (s1, RESP_ERR_BUSY, [])
    \<and> (if BUILD_WIFI P then send_waiting rq s1 \<and> g_worker_execs s1 = g_worker_execs s
       else (\<exists>a. send_outcome P rq a \<and> send_settled (rq ! 3) a s1)
            \<and> g_worker_execs s1 = g_worker_execs s + 1)"
proof -
  let ?s1 = "s\<lparr>sock_send := sock_send_expire (rq ! 3) (sock_send s)\<rparr>"
  let ?s2 = "fst (worker_discard_stale_terminal CMD_SOCK_SEND SOCK_SEND_SEQ_OFF (rq ! 3) ?s1)"
  define t where "t = ?s1\<lparr>job := if state (job s) = WORKER_IDLE then job s else job_clear (job s)\<rparr>"
  have nc: "\<not> send_cached (sock_send ?s1)"
    using assms(2) by (auto simp: send_ready_def sock_send_expire_def)
  have poll: "worker_poll CMD_SOCK_SEND cap ?s2 = (t, WORKER_IDLE, [], 0)"
    using assms(2)
    by (cases "state (job s)"; cases "job_cmd (job s) = CMD_SOCK_SEND")
       (simp_all add: send_ready_def terminal_def t_def worker_discard_stale_terminal_def
         worker_poll_def Let_def job_clear_def SOCK_SEND_SEQ_OFF_def)
  have h: "handle_sock_send P rq cap s =
      (fst (worker_submit_payload P CMD_SOCK_SEND rq t), RESP_ERR_BUSY, [])"
    using assms(3,4) nc poll
    by (simp add: handle_sock_send_def send_request_ok_def Let_def SOCK_SEND_SEQ_OFF_def
        handle_worker_routed_payload_reply_def worker_collect_def)
  have "fw_inv P t" using assms(1) by (auto simp: t_def fw_inv_def sock_send_expire_def)
  from send_submit [OF this assms(3)] nc h show ?thesis
    by (auto simp: t_def job_clear_def)
qed

lemma send_waiting_handle:
  assumes "send_waiting rq s" and "send_request_ok rq" and "2 \<le> cap"
  shows "handle_sock_send P rq cap s = (s, RESP_ERR_BUSY, [])"
proof -
  have e: "sock_send_expire (rq ! 3) (sock_send s) = sock_send s"
    using assms(1) by (simp add: send_waiting_def sock_send_expire_def)
  show ?thesis
    using assms e
    by (simp add: handle_sock_send_def send_waiting_def send_request_ok_def Let_def
        SOCK_SEND_SEQ_OFF_def worker_discard_stale_terminal_def terminal_def
        handle_worker_routed_payload_reply_def worker_collect_def worker_poll_def)
qed

lemma send_waiting_pass:
  assumes "fw_inv P s" and "send_waiting rq s" and "send_request_ok rq"
  shows "(\<exists>a. send_outcome P rq a \<and> send_settled (rq ! 3) a (main_loop_pass P s))
    \<and> g_worker_execs (main_loop_pass P s) = g_worker_execs s + 1"
proof -
  let ?s = "s\<lparr>job := (job s)\<lparr>state := WORKER_RUNNING\<rparr>, hw := bridge_busy (link P) (hw s)\<rparr>"
  have q: "state (job s) = WORKER_QUEUED" "job_cmd (job s) = CMD_SOCK_SEND"
    "take (length rq) (req (job s)) = rq"
    using assms(2) by (simp_all add: send_waiting_def)
  have "fw_inv P ?s" using assms(1) q by (simp add: fw_inv_def job_wf_def)
  from send_execute [OF this _ assms(3)] q obtain a where
    a: "send_outcome P rq a" "send_settled (rq ! 3) a (worker_execute P CMD_SOCK_SEND ?s)" by auto
  from worker_run_pending_queued [OF q(1), of P] q(2) obtain h where
    "worker_run_pending P s = (worker_execute P CMD_SOCK_SEND ?s)\<lparr>hw := h\<rparr>"
    by (auto simp: Let_def auto_release_def)
  then have p: "main_loop_pass P s = (worker_execute P CMD_SOCK_SEND ?s)\<lparr>hw := hw_tick (sys P) h\<rparr>"
    by (simp add: main_loop_pass_def hw_void_def)
  from a(1) send_settled_frame(2) [OF a(2)] show ?thesis
    unfolding p by (intro conjI exI) (simp_all add: execute_execs)
qed

lemma send_ready_frame:
  "send_ready sq (s\<lparr>s_current_req_seq := q\<rparr>) = send_ready sq s"
  "send_ready sq (s\<lparr>hw := h\<rparr>) = send_ready sq s"
  "send_waiting rq (s\<lparr>s_current_req_seq := q\<rparr>) = send_waiting rq s"
  "send_waiting rq (s\<lparr>hw := h\<rparr>) = send_waiting rq s"
  by (simp_all add: send_ready_def send_waiting_def)

section \<open>Every run\<close>

interpretation send: settled_phase P CMD_SOCK_SEND rq cap
    "\<lambda>s. hdr_ok P \<and> send_request_ok rq \<and> 2 \<le> cap \<and> send_settled (rq ! 3) a s" a
  for P :: "'h platform" and rq :: "byte list" and cap :: nat and a :: "resp \<times> byte list"
proof
  fix s :: "'h fw" and fl :: byte and h :: 'h
  assume s: "hdr_ok P \<and> send_request_ok rq \<and> 2 \<le> cap \<and> send_settled (rq ! 3) a s"
  then have "send_settled (rq ! 3) a (s\<lparr>s_current_req_seq := req_seq_of_flags fl\<rparr>)"
    by (simp add: send_settled_frame)
  from send_settled_handle [OF this, of cap P] s
  show "\<exists>s1. protocol_dispatch P (cmd_val P CMD_SOCK_SEND) fl rq cap s = (s1, a)
      \<and> (hdr_ok P \<and> send_request_ok rq \<and> 2 \<le> cap \<and> send_settled (rq ! 3) a s1)
      \<and> g_worker_execs s1 = g_worker_execs s"
    by (auto simp: send_dispatch)
  from s show "state (job s) \<noteq> WORKER_QUEUED" by (auto simp: send_settled_def live_def)
  from s show "hdr_ok P \<and> send_request_ok rq \<and> 2 \<le> cap \<and> send_settled (rq ! 3) a (s\<lparr>hw := h\<rparr>)"
    by (simp add: send_settled_frame)
qed

definition send_runs_ok ::
    "'h platform \<Rightarrow> byte list \<Rightarrow> u32 \<Rightarrow> 'h fw \<Rightarrow> (resp \<times> byte list) list \<Rightarrow> bool" where
  "send_runs_ok P rq n s rs \<longleftrightarrow> (\<exists>a. send_outcome P rq a \<and> set rs \<subseteq> {(RESP_ERR_BUSY, []), a}
     \<and> (g_worker_execs s = n \<and> set rs \<subseteq> {(RESP_ERR_BUSY, [])} \<or> g_worker_execs s = n + 1))"

lemma send_outcome_ex: "\<exists>a. send_outcome P rq a"
  unfolding send_outcome_def by (metis prod_cases3)

lemma send_runs_settled:
  assumes "hdr_ok P" and "send_request_ok rq" and "2 \<le> cap"
    and "(\<exists>a. send_outcome P rq a \<and> send_settled (rq ! 3) a s) \<and> g_worker_execs s = n + 1"
    and "retry_run P CMD_SOCK_SEND rq cap xs s = (s', rs)"
  shows "send_runs_ok P rq n s' rs"
proof -
  from assms(4) obtain a where a: "send_outcome P rq a" "send_settled (rq ! 3) a s" by blast
  have "hdr_ok P \<and> send_request_ok rq \<and> 2 \<le> cap \<and> send_settled (rq ! 3) a s" using assms(1-3) a(2) by blast
  from send.settled_run [OF this assms(5)] a(1) assms(4) show ?thesis
    unfolding send_runs_ok_def by (intro exI [of _ a]) auto
qed

lemma send_runs_busy: "send_runs_ok P rq n s rs \<Longrightarrow> send_runs_ok P rq n s ((RESP_ERR_BUSY, []) # rs)"
  unfolding send_runs_ok_def by auto

lemma send_runs_nil: "g_worker_execs s = n \<Longrightarrow> send_runs_ok P rq n s []"
  using send_outcome_ex [of P rq] unfolding send_runs_ok_def by auto

lemma send_waiting_run:
  assumes "hdr_ok P" and "send_request_ok rq" and "2 \<le> cap" and "fw_inv P s" and "send_waiting rq s"
    and "retry_run P CMD_SOCK_SEND rq cap xs s = (s', rs)"
  shows "send_runs_ok P rq (g_worker_execs s) s' rs"
  using assms(4-6)
proof (induction xs arbitrary: s rs)
  case Nil
  then show ?case by (simp add: send_runs_nil)
next
  case (Cons x xs)
  show ?case
  proof (cases x)
    case (Resend fl)
    let ?s = "s\<lparr>s_current_req_seq := req_seq_of_flags fl\<rparr>"
    have w: "send_waiting rq ?s" using Cons.prems(2) by (simp add: send_ready_frame)
    have i: "fw_inv P ?s" using Cons.prems(1) by (rule wf.I_seq)
    obtain s2 rs2 where r: "retry_run P CMD_SOCK_SEND rq cap xs ?s = (s2, rs2)" by fastforce
    with Cons.prems(3) Resend send_waiting_handle [OF w assms(2,3), of P]
    have "s' = s2" "rs = (RESP_ERR_BUSY, []) # rs2" by (simp_all add: send_dispatch [OF assms(1)])
    with Cons.IH [OF i w, of rs2] r show ?thesis by (simp add: send_runs_busy)
  next
    case Pass
    from Cons.prems(3) Pass show ?thesis
      using send_runs_settled [OF assms(1-3) send_waiting_pass [OF Cons.prems(1,2) assms(2)]] by simp
  next
    case (Driver h)
    show ?thesis
      using Cons.IH [OF fw_inv_hw [OF Cons.prems(1)], of h] Cons.prems(2,3) Driver
      by (simp add: send_ready_frame)
  qed
qed

lemma send_ready_run:
  assumes "hdr_ok P" and "send_request_ok rq" and "2 \<le> cap" and "fw_inv P s" and "send_ready (rq ! 3) s"
    and "retry_run P CMD_SOCK_SEND rq cap xs s = (s', rs)"
  shows "send_runs_ok P rq (g_worker_execs s) s' rs"
  using assms(4-6)
proof (induction xs arbitrary: s rs)
  case Nil
  then show ?case by (simp add: send_runs_nil)
next
  case (Cons x xs)
  show ?case
  proof (cases x)
    case (Resend fl)
    let ?s = "s\<lparr>s_current_req_seq := req_seq_of_flags fl\<rparr>"
    have r: "send_ready (rq ! 3) ?s" using Cons.prems(2) by (simp add: send_ready_frame)
    have i: "fw_inv P ?s" using Cons.prems(1) by (rule wf.I_seq)
    have g: "g_worker_execs ?s = g_worker_execs s" by simp
    obtain s1 where
      s1: "handle_sock_send P rq cap ?s = (s1, RESP_ERR_BUSY, [])"
        "if BUILD_WIFI P then send_waiting rq s1 \<and> g_worker_execs s1 = g_worker_execs s
         else (\<exists>a. send_outcome P rq a \<and> send_settled (rq ! 3) a s1) \<and> g_worker_execs s1 = g_worker_execs s + 1"
      using send_ready_handle [OF i r assms(2,3)] unfolding g by blast
    have i1: "fw_inv P s1" using wf.I_sock_send [OF i, of rq cap] s1(1) by simp
    obtain s2 rs2 where run: "retry_run P CMD_SOCK_SEND rq cap xs s1 = (s2, rs2)" by fastforce
    with Cons.prems(3) Resend s1(1) have eq: "s' = s2" "rs = (RESP_ERR_BUSY, []) # rs2"
      by (simp_all add: send_dispatch [OF assms(1)])
    have "send_runs_ok P rq (g_worker_execs s) s2 rs2"
      using s1(2) send_waiting_run [OF assms(1-3) i1 _ run] send_runs_settled [OF assms(1-3) _ run]
      by (cases "BUILD_WIFI P") auto
    with eq show ?thesis by (simp add: send_runs_busy)
  next
    case Pass
    have "state (job s) \<noteq> WORKER_QUEUED"
      using Cons.prems(2) by (auto simp: send_ready_def terminal_def)
    note p = pass_not_queued [OF this, of P]
    show ?thesis
      using Cons.IH [OF fw_inv_hw [OF Cons.prems(1)], of "hw_tick (sys P) (hw s)"] Cons.prems(2,3) Pass
      by (simp add: p send_ready_frame)
  next
    case (Driver h)
    show ?thesis
      using Cons.IH [OF fw_inv_hw [OF Cons.prems(1)], of h] Cons.prems(2,3) Driver
      by (simp add: send_ready_frame)
  qed
qed

text \<open>
  C4: A socket send is executed at most once, however often it is repeated.  For every
  interleaving of repetitions of one well-formed send (under any frame flags), main-loop passes
  and hardware activity, on every backend and in both the threaded and the synchronous build, the
  driver's send runs at most once; every reply is \<open>BUSY\<close> or the outcome of that one run, and a
  final reply is given only after it has run.
\<close>

theorem sock_send_exactly_once:
  assumes "hdr_ok P" and "send_request_ok rq" and "2 \<le> cap" and "fw_inv P s"
    and "send_ready (rq ! 3) s" and "retry_run P CMD_SOCK_SEND rq cap xs s = (s', replies)"
  shows "\<exists>a. send_outcome P rq a \<and> set replies \<subseteq> {(RESP_ERR_BUSY, []), a}
    \<and> (g_worker_execs s' = g_worker_execs s \<and> set replies \<subseteq> {(RESP_ERR_BUSY, [])}
       \<or> g_worker_execs s' = g_worker_execs s + 1)"
  using send_ready_run [OF assms] by (simp add: send_runs_ok_def)

lemma send_ready_reset: "send_ready sq (fw_reset P h)"
  by (simp add: send_ready_def fw_reset_def job_reset_def)

theorem sock_send_exactly_once_witness:
  "\<exists>s' replies. retry_run (demo_platform True) CMD_SOCK_SEND [1, 0, 0, 7, 1, 0, 0, 0, 0x41] 64
       [Resend 8, Pass, Resend 8, Resend 16] (fw_reset (demo_platform True) stub_reset) = (s', replies)
     \<and> (\<exists>a. send_outcome (demo_platform True) [1, 0, 0, 7, 1, 0, 0, 0, 0x41] a
            \<and> set replies \<subseteq> {(RESP_ERR_BUSY, []), a})"
proof -
  let ?P = "demo_platform True" and ?rq = "[1, 0, 0, 7, 1, 0, 0, 0, 0x41] :: byte list"
  have ok: "send_request_ok ?rq"
    by (simp add: send_request_ok_def sizeof_defs get_le16_def MAX_PAYLOAD_def)
  obtain s' replies where r: "retry_run ?P CMD_SOCK_SEND ?rq 64 [Resend 8, Pass, Resend 8, Resend 16]
      (fw_reset ?P stub_reset) = (s', replies)" by fastforce
  from sock_send_exactly_once [OF demo_platform_ok(1) ok _ fw_inv_reset send_ready_reset r] r
  show ?thesis by auto
qed

text \<open>
  C6: A socket send completes.  In the threaded build a new send is queued and answered \<open>BUSY\<close>;
  after one pass of the main loop the repeated request is answered with the driver's outcome.
\<close>

theorem sock_send_completes:
  assumes "hdr_ok P" and "BUILD_WIFI P" and "send_request_ok rq" and "2 \<le> cap" and "fw_inv P s"
    and "send_ready (rq ! 3) s"
  shows "\<exists>s' a. retry_run P CMD_SOCK_SEND rq cap [Resend f1, Pass, Resend f2] s = (s', [(RESP_ERR_BUSY, []), a])
    \<and> send_outcome P rq a \<and> g_worker_execs s' = g_worker_execs s + 1"
proof -
  let ?s = "s\<lparr>s_current_req_seq := req_seq_of_flags f1\<rparr>"
  have r: "send_ready (rq ! 3) ?s" using assms(6) by (simp add: send_ready_frame)
  have i: "fw_inv P ?s" using assms(5) by (rule wf.I_seq)
  from send_ready_handle [OF i r assms(3,4)] assms(2) obtain s1 where
    s1: "handle_sock_send P rq cap ?s = (s1, RESP_ERR_BUSY, [])" "send_waiting rq s1"
      "g_worker_execs s1 = g_worker_execs s" by auto
  have "fw_inv P s1" using wf.I_sock_send [OF i, of rq cap] s1(1) by simp
  from send_waiting_pass [OF this s1(2) assms(3)] obtain a where
    a: "send_outcome P rq a" "send_settled (rq ! 3) a (main_loop_pass P s1)"
      "g_worker_execs (main_loop_pass P s1) = g_worker_execs s + 1" using s1(3) by auto
  from send_settled_handle [OF send_settled_frame(1) [OF a(2)] assms(3,4), of P "req_seq_of_flags f2"] a(3)
  obtain s2 where "handle_sock_send P rq cap ((main_loop_pass P s1)\<lparr>s_current_req_seq := req_seq_of_flags f2\<rparr>)
      = (s2, a)" "g_worker_execs s2 = g_worker_execs s + 1" by auto
  with s1(1) a(1) show ?thesis by (auto simp: send_dispatch [OF assms(1)])
qed

definition demo_threaded :: "stub_hw platform" where
  "demo_threaded = (demo_platform True)\<lparr>BUILD_WIFI := True\<rparr>"

lemma demo_threaded_ok: "hdr_ok demo_threaded" "BUILD_WIFI demo_threaded"
  using demo_platform_ok(1) [of True] unfolding hdr_ok_def demo_threaded_def by simp_all

theorem sock_send_completes_witness:
  "\<exists>s' a. retry_run demo_threaded CMD_SOCK_SEND [1, 0, 0, 7, 1, 0, 0, 0, 0x41] 64
       [Resend 8, Pass, Resend 8] (fw_reset demo_threaded stub_reset) = (s', [(RESP_ERR_BUSY, []), a])
     \<and> send_outcome demo_threaded [1, 0, 0, 7, 1, 0, 0, 0, 0x41] a"
proof -
  have ok: "send_request_ok [1, 0, 0, 7, 1, 0, 0, 0, 0x41]"
    by (simp add: send_request_ok_def sizeof_defs get_le16_def MAX_PAYLOAD_def)
  have cap: "(2 :: nat) \<le> 64" by simp
  show ?thesis
    using sock_send_completes [OF demo_threaded_ok ok cap fw_inv_reset send_ready_reset, where ?f1.0 = 8 and ?f2.0 = 8]
    by blast
qed

end
