(* ===== verification/Latch.thy ===== *)
theory Latch
  imports Exactly_Once
begin

text \<open>
  The retry latch end to end: a host that lost a reply and sends the same request again, under
  the same sequence number, gets the same answer without a second execution, however often it
  asks and whatever the worker and the hardware do in between.
\<close>

section \<open>What the latch holds\<close>

definition latched_reply :: "cmd \<Rightarrow> nat \<Rightarrow> resp \<Rightarrow> byte list \<Rightarrow> 'h fw \<Rightarrow> bool" where
  "latched_reply c cap st dat s \<longleftrightarrow>
     retry_latch_applies c \<and> s_current_req_seq s \<noteq> CC3501E_REQ_SEQ_NONE \<and> length dat \<le> cap
     \<and> s_retry_latch s = \<lparr>valid = True, latch_cmd = c, latch_seq = s_current_req_seq s,
                          latch_status = st, latch_data = dat\<rparr>"

text \<open>The opcodes whose replies are latched: worker-routed, sockets' data path excepted.\<close>

definition latched_cmds :: "cmd list" where
  "latched_cmds =
    [CMD_GET_MAC, CMD_WIFI_SCAN_START, CMD_WIFI_CONNECT_STA, CMD_WIFI_DISCONNECT,
     CMD_WIFI_AP_START, CMD_WIFI_AP_STOP, CMD_WIFI_GET_RSSI,
     CMD_BLE_ENABLE, CMD_BLE_DISABLE, CMD_BLE_ADV_START, CMD_BLE_ADV_STOP,
     CMD_BLE_SCAN_START, CMD_BLE_SCAN_STOP, CMD_BLE_CONNECT, CMD_BLE_DISCONNECT,
     CMD_BLE_GATT_REGISTER, CMD_BLE_GATT_NOTIFY, CMD_BLE_GATT_READ, CMD_BLE_GATT_WRITE,
     CMD_SOCK_OPEN, CMD_SOCK_CONNECT, CMD_SOCK_CLOSE, CMD_SOCK_BIND, CMD_SOCK_LISTEN,
     CMD_SPI1_CONFIGURE, CMD_SPI1_RELEASE]"

lemma latched_cmds_apply: "c \<in> set latched_cmds \<Longrightarrow> retry_latch_applies c"
  by (auto simp: latched_cmds_def retry_latch_applies_def)

definition one_hit :: "'h fw \<Rightarrow> 'h fw" where
  "one_hit s = s\<lparr>g_retry_latch_hits := g_retry_latch_hits s + 1\<rparr>"

lemma serve_latched:
  "latched_reply c cap st dat s \<Longrightarrow> retry_latch_serve c cap s = (one_hit s, Some (st, dat))"
  by (simp add: latched_reply_def retry_latch_serve_def one_hit_def)

section \<open>The three shapes\<close>

text \<open>A served or collected reply leaves the latch holding it, and touches nothing else of interest.\<close>

definition settled :: "cmd \<Rightarrow> nat \<Rightarrow> 'h fw \<Rightarrow> 'h fw \<times> resp \<times> byte list \<Rightarrow> bool" where
  "settled c cap s r \<longleftrightarrow> (case r of (s1, st, dat) \<Rightarrow>
     latched_reply c cap st dat s1 \<and> s_current_req_seq s1 = s_current_req_seq s
     \<and> sock_recv s1 = sock_recv s \<and> g_configured s1 = g_configured s \<and> g_cs_held s1 = g_cs_held s)"

lemma serve_settled:
  assumes "retry_latch_serve c cap s = (s1, Some r)"
  shows "settled c cap s (s1, r)"
proof -
  have "valid (s_retry_latch s)" "latch_cmd (s_retry_latch s) = c"
    "latch_seq (s_retry_latch s) = s_current_req_seq s"
    "r = (latch_status (s_retry_latch s), latch_data (s_retry_latch s))"
    "length (latch_data (s_retry_latch s)) \<le> cap" "retry_latch_applies c"
    "s_current_req_seq s \<noteq> CC3501E_REQ_SEQ_NONE" "s1 = one_hit s"
    using assms by (auto simp: retry_latch_serve_def Let_def one_hit_def split: if_splits)
  then show ?thesis
    by (cases "s_retry_latch s") (simp add: settled_def latched_reply_def one_hit_def)
qed

lemma serve_miss:
  assumes "retry_latch_serve c cap s = (s1, None)"
  shows "s_current_req_seq s1 = s_current_req_seq s \<and> sock_recv s1 = sock_recv s
    \<and> g_configured s1 = g_configured s \<and> g_cs_held s1 = g_cs_held s"
  using assms by (auto simp: retry_latch_serve_def Let_def split: if_splits)

lemma store_latched:
  assumes "retry_latch_applies c" and "s_current_req_seq s \<noteq> CC3501E_REQ_SEQ_NONE"
    and "length dat \<le> RETRY_LATCH_DATA" and "length dat \<le> cap"
  shows "settled c cap s (retry_latch_store c st dat s, st, dat)"
  using assms by (simp add: settled_def latched_reply_def retry_latch_store_def)

lemma poll_keeps:
  "s_current_req_seq (fst (worker_poll c cap s)) = s_current_req_seq s"
  "sock_recv (fst (worker_poll c cap s)) = sock_recv s"
  "g_configured (fst (worker_poll c cap s)) = g_configured s"
  "g_cs_held (fst (worker_poll c cap s)) = g_cs_held s"
  by (simp_all add: worker_poll_def Let_def)

lemma reset_keeps:
  "s_current_req_seq (worker_reset s) = s_current_req_seq s" "sock_recv (worker_reset s) = sock_recv s"
  "g_configured (worker_reset s) = g_configured s" "g_cs_held (worker_reset s) = g_cs_held s"
  by (simp_all add: worker_reset_def)

lemma settled_from: "settled c cap t r \<Longrightarrow> s_current_req_seq t = s_current_req_seq s \<Longrightarrow>
    sock_recv t = sock_recv s \<Longrightarrow> g_configured t = g_configured s \<Longrightarrow> g_cs_held t = g_cs_held s \<Longrightarrow>
    settled c cap s r"
  by (simp add: settled_def split: prod.splits)

lemma collect_settled:
  assumes "retry_latch_applies c" and "s_current_req_seq s \<noteq> CC3501E_REQ_SEQ_NONE"
    and r: "worker_collect c f (worker_poll c cap s) = (s1, st, dat)"
    and "st \<noteq> RESP_ERR_BUSY" and "length dat \<le> RETRY_LATCH_DATA"
  shows "settled c cap s (s1, st, dat)"
proof -
  obtain t w d e where p: "worker_poll c cap s = (t, w, d, e)" by (metis prod_cases4)
  have t: "s_current_req_seq t = s_current_req_seq s" "sock_recv t = sock_recv s"
    "g_configured t = g_configured s" "g_cs_held t = g_cs_held s"
    using poll_keeps [of c cap s] by (simp_all add: p)
  have cap: "length dat \<le> cap"
    using collect_bound [OF length_poll_data, of c f c cap s] by (simp add: r)
  have "s1 = retry_latch_store c st dat (worker_reset t)"
    using r assms(4) by (cases w) (auto simp: worker_collect_def p)
  then have "settled c cap (worker_reset t) (s1, st, dat)"
    using store_latched [OF assms(1) _ assms(5) cap, of "worker_reset t" st] assms(2) t
    by (simp add: reset_keeps)
  then show ?thesis by (rule settled_from) (simp_all add: reset_keeps t)
qed

lemma serve_or_collect_settled:
  assumes "retry_latch_applies c" and "s_current_req_seq s \<noteq> CC3501E_REQ_SEQ_NONE"
    and r: "(case retry_latch_serve c cap s of (t, Some reply) \<Rightarrow> (t, reply)
       | (t, None) \<Rightarrow> worker_collect c f (worker_poll c cap t)) = (s1, st, dat)"
    and "st \<noteq> RESP_ERR_BUSY" and "length dat \<le> RETRY_LATCH_DATA"
  shows "settled c cap s (s1, st, dat)"
proof -
  obtain t x where sv: "retry_latch_serve c cap s = (t, x)" by fastforce
  show ?thesis
  proof (cases x)
    case None
    have col: "worker_collect c f (worker_poll c cap t) = (s1, st, dat)" using r sv None by simp
    note keep = serve_miss [OF sv [unfolded None]]
    have "settled c cap t (s1, st, dat)"
      by (rule collect_settled [OF assms(1) _ col assms(4,5)]) (simp add: keep assms(2))
    then show ?thesis by (rule settled_from) (simp_all add: keep)
  next
    case (Some y)
    then show ?thesis using r sv serve_settled [of c cap s t y] by simp
  qed
qed

text \<open>
  Each shape is idempotent: from a settled state, possibly with the flags its caller updates, the
  same request is answered from the latch.
\<close>

lemma hits_refl: "\<exists>k. s = s\<lparr>g_retry_latch_hits := k\<rparr>"
  by (rule exI [of _ "g_retry_latch_hits s"]) simp

text \<open>What a repeated request's answer depends on: the latch, the frame's identity, the SPI1 flags.\<close>

definition latch_view :: "'h fw \<Rightarrow> retry_latch \<times> byte \<times> bool \<times> bool" where
  "latch_view s = (s_retry_latch s, s_current_req_seq s, g_configured s, g_cs_held s)"

lemma routed_again:
  assumes "retry_latch_applies c" and "s_current_req_seq s \<noteq> CC3501E_REQ_SEQ_NONE"
    and r: "handle_worker_routed c m P n cap s = (s1, st, dat)"
    and "st \<noteq> RESP_ERR_BUSY" and "length dat \<le> RETRY_LATCH_DATA"
  shows "s_current_req_seq s1 = s_current_req_seq s \<and>
    (\<forall>t. s_retry_latch t = s_retry_latch s1 \<longrightarrow> s_current_req_seq t = s_current_req_seq s1 \<longrightarrow>
      (\<exists>k. handle_worker_routed c m P n cap t = (t\<lparr>g_retry_latch_hits := k\<rparr>, st, dat)))"
proof (cases "n \<noteq> 0 \<or> cap < m")
  case True
  then show ?thesis
    using r by (auto simp: handle_worker_routed_def split: if_splits intro!: hits_refl)
next
  case False
  have st: "settled c cap s (s1, st, dat)"
    by (rule serve_or_collect_settled [OF assms(1,2) _ assms(4,5)])
       (use r False in \<open>simp add: handle_worker_routed_def\<close>)
  have "latched_reply c cap st dat t"
    if "s_retry_latch t = s_retry_latch s1" "s_current_req_seq t = s_current_req_seq s1" for t :: "'a fw"
    using st that by (auto simp: settled_def latched_reply_def)
  from serve_latched [OF this] st False show ?thesis
    by (auto simp: handle_worker_routed_def settled_def one_hit_def)
qed

lemma routed_payload_again:
  assumes "retry_latch_applies c" and "s_current_req_seq s \<noteq> CC3501E_REQ_SEQ_NONE"
    and r: "handle_worker_routed_payload c P rq s = (s1, st, dat)"
    and "st \<noteq> RESP_ERR_BUSY" and "length dat \<le> RETRY_LATCH_DATA"
  shows "s_current_req_seq s1 = s_current_req_seq s \<and> sock_recv s1 = sock_recv s \<and>
    (\<forall>t. s_retry_latch t = s_retry_latch s1 \<longrightarrow> s_current_req_seq t = s_current_req_seq s1 \<longrightarrow>
      (\<exists>k. handle_worker_routed_payload c P rq t = (t\<lparr>g_retry_latch_hits := k\<rparr>, st, dat)))"
proof -
  have st: "settled c 0 s (s1, st, dat)"
    by (rule serve_or_collect_settled [OF assms(1,2) _ assms(4,5)])
       (use r in \<open>simp add: handle_worker_routed_payload_def\<close>)
  have "latched_reply c 0 st dat t"
    if "s_retry_latch t = s_retry_latch s1" "s_current_req_seq t = s_current_req_seq s1" for t :: "'a fw"
    using st that by (auto simp: settled_def latched_reply_def)
  from serve_latched [OF this] st show ?thesis
    by (auto simp: handle_worker_routed_payload_def settled_def one_hit_def)
qed

lemma routed_payload_reply_again:
  assumes "retry_latch_applies c" and "s_current_req_seq s \<noteq> CC3501E_REQ_SEQ_NONE"
    and r: "handle_worker_routed_payload_reply c m P rq cap s = (s1, st, dat)"
    and "st \<noteq> RESP_ERR_BUSY" and "length dat \<le> RETRY_LATCH_DATA"
  shows "s_current_req_seq s1 = s_current_req_seq s \<and> g_cs_held s1 = g_cs_held s \<and>
    (\<forall>t. s_retry_latch t = s_retry_latch s1 \<longrightarrow> s_current_req_seq t = s_current_req_seq s1 \<longrightarrow>
      (\<exists>k. handle_worker_routed_payload_reply c m P rq cap t = (t\<lparr>g_retry_latch_hits := k\<rparr>, st, dat)))"
proof (cases "cap < m")
  case True
  then show ?thesis
    using r by (auto simp: handle_worker_routed_payload_reply_def intro!: hits_refl)
next
  case False
  have st: "settled c cap s (s1, st, dat)"
    by (rule serve_or_collect_settled [OF assms(1,2) _ assms(4,5)])
       (use r False in \<open>simp add: handle_worker_routed_payload_reply_def\<close>)
  have "latched_reply c cap st dat t"
    if "s_retry_latch t = s_retry_latch s1" "s_current_req_seq t = s_current_req_seq s1" for t :: "'a fw"
    using st that by (auto simp: settled_def latched_reply_def)
  from serve_latched [OF this] st False show ?thesis
    by (auto simp: handle_worker_routed_payload_reply_def settled_def one_hit_def)
qed

section \<open>Every latched opcode\<close>

text \<open>
  A handler that answers a repeated request the same way from every later state with the same
  view of the latch, and changes nothing but the hit counter (and, for \<open>SOCK_CLOSE\<close>, a receive
  cache that was filled again meanwhile).
\<close>

definition repeats :: "'h handler \<Rightarrow> 'h platform \<Rightarrow> byte list \<Rightarrow> nat \<Rightarrow> 'h fw \<Rightarrow> bool" where
  "repeats hd' P rq cap s \<longleftrightarrow> (case hd' P rq cap s of (s1, st, dat) \<Rightarrow>
     st \<noteq> RESP_ERR_BUSY \<longrightarrow> length dat \<le> RETRY_LATCH_DATA \<longrightarrow>
       s_current_req_seq s1 = s_current_req_seq s
       \<and> (\<forall>t. latch_view t = latch_view s1 \<longrightarrow> (\<exists>k r.
           hd' P rq cap t = (t\<lparr>g_retry_latch_hits := k, sock_recv := r\<rparr>, st, dat)
           \<and> (sock_recv t = sock_recv s1 \<longrightarrow> r = sock_recv t))))"

lemma repeatsI_cache:
  assumes "\<And>s1 st dat. hd' P rq cap s = (s1, st, dat) \<Longrightarrow> st \<noteq> RESP_ERR_BUSY \<Longrightarrow>
      length dat \<le> RETRY_LATCH_DATA \<Longrightarrow> s_current_req_seq s1 = s_current_req_seq s
       \<and> (\<forall>t. latch_view t = latch_view s1 \<longrightarrow> (\<exists>k r.
           hd' P rq cap t = (t\<lparr>g_retry_latch_hits := k, sock_recv := r\<rparr>, st, dat)
           \<and> (sock_recv t = sock_recv s1 \<longrightarrow> r = sock_recv t)))"
  shows "repeats hd' P rq cap s"
  unfolding repeats_def by (rule case_prodI2) (use assms in blast)

lemma repeatsI:
  assumes "\<And>s1 st dat. hd' P rq cap s = (s1, st, dat) \<Longrightarrow> st \<noteq> RESP_ERR_BUSY \<Longrightarrow>
      length dat \<le> RETRY_LATCH_DATA \<Longrightarrow> s_current_req_seq s1 = s_current_req_seq s
       \<and> (\<forall>t. latch_view t = latch_view s1 \<longrightarrow>
           (\<exists>k. hd' P rq cap t = (t\<lparr>g_retry_latch_hits := k\<rparr>, st, dat)))"
  shows "repeats hd' P rq cap s"
proof (rule repeatsI_cache)
  fix s1 st dat
  assume "hd' P rq cap s = (s1, st, dat)" "st \<noteq> RESP_ERR_BUSY" "length dat \<le> RETRY_LATCH_DATA"
  note again = assms [OF this]
  have same: "t\<lparr>g_retry_latch_hits := k, sock_recv := sock_recv t\<rparr> = t\<lparr>g_retry_latch_hits := k\<rparr>"
    for k and t :: "'a fw" by simp
  have "\<exists>k r. hd' P rq cap t = (t\<lparr>g_retry_latch_hits := k, sock_recv := r\<rparr>, st, dat)
           \<and> (sock_recv t = sock_recv s1 \<longrightarrow> r = sock_recv t)" if "latch_view t = latch_view s1" for t
  proof -
    from again that obtain k where "hd' P rq cap t = (t\<lparr>g_retry_latch_hits := k\<rparr>, st, dat)" by blast
    then show ?thesis
      by (intro exI [of _ k] exI [of _ "sock_recv t"] conjI impI) (simp_all add: same)
  qed
  with again show "s_current_req_seq s1 = s_current_req_seq s
     \<and> (\<forall>t. latch_view t = latch_view s1 \<longrightarrow> (\<exists>k r.
           hd' P rq cap t = (t\<lparr>g_retry_latch_hits := k, sock_recv := r\<rparr>, st, dat)
           \<and> (sock_recv t = sock_recv s1 \<longrightarrow> r = sock_recv t)))" by blast
qed

lemma repeats_refused:
  assumes "\<And>t. hd' P rq cap t = (t, st, [])"
  shows "repeats hd' P rq cap s"
  by (rule repeatsI) (auto simp: assms intro: hits_refl)

lemma repeats_routed:
  assumes "retry_latch_applies c" and "s_current_req_seq s \<noteq> CC3501E_REQ_SEQ_NONE"
    and eq: "\<And>t. hd' P rq cap t = handle_worker_routed c m P n cap t"
  shows "repeats hd' P rq cap s"
  by (rule repeatsI, unfold eq) (use routed_again [OF assms(1,2)] in \<open>auto simp: latch_view_def\<close>)

lemma repeats_routed_payload:
  assumes "retry_latch_applies c" and "s_current_req_seq s \<noteq> CC3501E_REQ_SEQ_NONE"
    and eq: "\<And>t. hd' P rq cap t = handle_worker_routed_payload c P rq t"
  shows "repeats hd' P rq cap s"
  by (rule repeatsI, unfold eq) (use routed_payload_again [OF assms(1,2)] in \<open>auto simp: latch_view_def\<close>)

lemma repeats_routed_payload_reply:
  assumes "retry_latch_applies c" and "s_current_req_seq s \<noteq> CC3501E_REQ_SEQ_NONE"
    and eq: "\<And>t. hd' P rq cap t = handle_worker_routed_payload_reply c m P rq cap t"
  shows "repeats hd' P rq cap s"
  by (rule repeatsI, unfold eq)
     (use routed_payload_reply_again [OF assms(1,2)] in \<open>auto simp: latch_view_def\<close>)

text \<open>The two SPI1 handlers and \<open>SOCK_CLOSE\<close> also update flags of their own.\<close>

lemma repeats_spi1_configure:
  assumes "s_current_req_seq s \<noteq> CC3501E_REQ_SEQ_NONE"
  shows "repeats handle_spi1_configure P rq cap s"
proof (rule repeatsI)
  fix s1 st dat
  assume r: "handle_spi1_configure P rq cap s = (s1, st, dat)" "st \<noteq> RESP_ERR_BUSY"
    "length dat \<le> RETRY_LATCH_DATA"
  let ?bad = "\<lambda>t. length rq \<noteq> SIZEOF_spi1_configure \<or> rq ! 4 > 3 \<or> rq ! 5 \<noteq> 8 \<or> rq ! 6 > SPI1_CS1 P
    \<or> g_cs_held t"
  show "s_current_req_seq s1 = s_current_req_seq s
    \<and> (\<forall>t. latch_view t = latch_view s1 \<longrightarrow>
        (\<exists>k. handle_spi1_configure P rq cap t = (t\<lparr>g_retry_latch_hits := k\<rparr>, st, dat)))"
  proof (cases "?bad s")
    case True
    have ref: "handle_spi1_configure P rq cap t = (t, snd (handle_spi1_configure P rq cap s))"
      if "g_cs_held t = g_cs_held s" for t :: "'a fw"
      using True that by (auto simp: handle_spi1_configure_def)
    have s1: "s1 = s" using ref(1) [of s] r by simp
    have "\<exists>k. handle_spi1_configure P rq cap t = (t\<lparr>g_retry_latch_hits := k\<rparr>, st, dat)"
      if v: "latch_view t = latch_view s1" for t
    proof -
      have "handle_spi1_configure P rq cap t = (t, st, dat)"
        using ref(1) [of t] v r(1) by (simp add: latch_view_def s1)
      then show ?thesis using hits_refl [of t] by simp
    qed
    then show ?thesis by (simp add: s1)
  next
    case False
    let ?R = "handle_worker_routed_payload_reply CMD_SPI1_CONFIGURE SIZEOF_spi1_config_resp P rq cap"
    obtain u where u: "?R s = (u, st, dat)"
      and s1: "s1 = (if st = RESP_OK then u\<lparr>g_configured := True, g_cs_held := False\<rparr> else u)"
      using r False by (auto simp: handle_spi1_configure_def split: prod.splits)
    have "retry_latch_applies CMD_SPI1_CONFIGURE" by (simp add: retry_latch_applies_def)
    note again = routed_payload_reply_again [OF this assms u r(2,3)]
    have keep: "s_current_req_seq u = s_current_req_seq s" "g_cs_held u = g_cs_held s"
      using again by auto
    have "\<exists>k. handle_spi1_configure P rq cap t = (t\<lparr>g_retry_latch_hits := k\<rparr>, st, dat)"
      if v: "latch_view t = latch_view s1" for t
    proof -
      have "s_retry_latch t = s_retry_latch u" "s_current_req_seq t = s_current_req_seq u"
        using v by (auto simp: latch_view_def s1 split: if_splits)
      with again obtain k where k: "?R t = (t\<lparr>g_retry_latch_hits := k\<rparr>, st, dat)" by blast
      have f: "\<not> g_cs_held t" "st = RESP_OK \<Longrightarrow> g_configured t"
        using v False keep by (auto simp: latch_view_def s1 split: if_splits)
      then have id: "st = RESP_OK \<Longrightarrow> t\<lparr>g_retry_latch_hits := k, g_configured := True, g_cs_held := False\<rparr>
          = t\<lparr>g_retry_latch_hits := k\<rparr>" by (cases t) simp
      show ?thesis
        using False k f id by (intro exI [of _ k]) (simp add: handle_spi1_configure_def)
    qed
    then show ?thesis using keep by (auto simp: s1)
  qed
qed

lemma repeats_spi1_release:
  assumes "s_current_req_seq s \<noteq> CC3501E_REQ_SEQ_NONE"
  shows "repeats handle_spi1_release P rq cap s"
proof (cases "length rq \<noteq> 0")
  case True
  then show ?thesis by (intro repeats_refused [of _ _ _ _ RESP_ERR_INVALID]) (simp add: handle_spi1_release_def)
next
  case False
  show ?thesis
  proof (rule repeatsI)
    fix s1 st dat
    assume r: "handle_spi1_release P rq cap s = (s1, st, dat)" "st \<noteq> RESP_ERR_BUSY"
      "length dat \<le> RETRY_LATCH_DATA"
    let ?R = "handle_worker_routed CMD_SPI1_RELEASE 0 P (length rq) cap"
    obtain u where u: "?R s = (u, st, dat)" and s1: "s1 = u\<lparr>g_configured := False, g_cs_held := False\<rparr>"
      using r False by (auto simp: handle_spi1_release_def split: prod.splits)
    have "retry_latch_applies CMD_SPI1_RELEASE" by (simp add: retry_latch_applies_def)
    note again = routed_again [OF this assms u r(2,3)]
    have "\<exists>k. handle_spi1_release P rq cap t = (t\<lparr>g_retry_latch_hits := k\<rparr>, st, dat)"
      if v: "latch_view t = latch_view s1" for t
    proof -
      have "s_retry_latch t = s_retry_latch u" "s_current_req_seq t = s_current_req_seq u"
        using v by (auto simp: latch_view_def s1)
      with again obtain k where k: "?R t = (t\<lparr>g_retry_latch_hits := k\<rparr>, st, dat)" by blast
      have "\<not> g_cs_held t" "\<not> g_configured t" using v by (auto simp: latch_view_def s1)
      then have "t\<lparr>g_retry_latch_hits := k, g_configured := False, g_cs_held := False\<rparr>
          = t\<lparr>g_retry_latch_hits := k\<rparr>" by (cases t) simp
      then show ?thesis
        using False r(2) k by (intro exI [of _ k]) (simp add: handle_spi1_release_def)
    qed
    then show "s_current_req_seq s1 = s_current_req_seq s
      \<and> (\<forall>t. latch_view t = latch_view s1 \<longrightarrow>
          (\<exists>k. handle_spi1_release P rq cap t = (t\<lparr>g_retry_latch_hits := k\<rparr>, st, dat)))"
      using again by (auto simp: s1)
  qed
qed

lemma repeats_sock_close:
  assumes "s_current_req_seq s \<noteq> CC3501E_REQ_SEQ_NONE"
  shows "repeats handle_sock_close P rq cap s"
proof (cases "length rq \<noteq> SIZEOF_sock_close")
  case True
  then show ?thesis by (intro repeats_refused [of _ _ _ _ RESP_ERR_INVALID]) (simp add: handle_sock_close_def)
next
  case False
  define drop_c where "drop_c c = (if wk_cached c \<and> get_le16 rq 0 = wk_handle c
    then c\<lparr>wk_cached := False\<rparr> else c)" for c :: sock_recv_cache
  have twice: "drop_c (drop_c c) = drop_c c" for c by (simp add: drop_c_def)
  let ?R = "handle_worker_routed_payload CMD_SOCK_CLOSE P rq"
  have eq: "handle_sock_close P rq cap t = ?R (t\<lparr>sock_recv := drop_c (sock_recv t)\<rparr>)" for t
    using False by (simp add: handle_sock_close_def Let_def drop_c_def)
  have app: "retry_latch_applies CMD_SOCK_CLOSE" by (simp add: retry_latch_applies_def)
  have seq: "s_current_req_seq (s\<lparr>sock_recv := drop_c (sock_recv s)\<rparr>) \<noteq> CC3501E_REQ_SEQ_NONE"
    using assms by simp
  show ?thesis
  proof (rule repeatsI_cache, unfold eq)
    fix s1 st dat
    assume "?R (s\<lparr>sock_recv := drop_c (sock_recv s)\<rparr>) = (s1, st, dat)"
      "st \<noteq> RESP_ERR_BUSY" "length dat \<le> RETRY_LATCH_DATA"
    note again = routed_payload_again [OF app seq this]
    have fix1: "drop_c (sock_recv s1) = sock_recv s1" using again by (simp add: twice)
    have "\<exists>k r. ?R (t\<lparr>sock_recv := drop_c (sock_recv t)\<rparr>)
          = (t\<lparr>g_retry_latch_hits := k, sock_recv := r\<rparr>, st, dat)
        \<and> (sock_recv t = sock_recv s1 \<longrightarrow> r = sock_recv t)" if v: "latch_view t = latch_view s1" for t
    proof -
      let ?t = "t\<lparr>sock_recv := drop_c (sock_recv t)\<rparr>"
      have "s_retry_latch ?t = s_retry_latch s1" "s_current_req_seq ?t = s_current_req_seq s1"
        using v by (simp_all add: latch_view_def)
      with again obtain k where "?R ?t = (?t\<lparr>g_retry_latch_hits := k\<rparr>, st, dat)" by blast
      then show ?thesis
        by (intro exI [of _ k] exI [of _ "drop_c (sock_recv t)"]) (simp add: fix1)
    qed
    with again show "s_current_req_seq s1 = s_current_req_seq s \<and> (\<forall>t. latch_view t = latch_view s1 \<longrightarrow>
      (\<exists>k r. ?R (t\<lparr>sock_recv := drop_c (sock_recv t)\<rparr>)
          = (t\<lparr>g_retry_latch_hits := k, sock_recv := r\<rparr>, st, dat)
        \<and> (sock_recv t = sock_recv s1 \<longrightarrow> r = sock_recv t)))" by auto
  qed
qed

lemma repeats_payload_guarded:
  assumes "retry_latch_applies c" and "s_current_req_seq s \<noteq> CC3501E_REQ_SEQ_NONE"
    and "\<And>t. hd' P rq cap t = (if bad then (t, RESP_ERR_INVALID, []) else handle_worker_routed_payload c P rq t)"
  shows "repeats hd' P rq cap s"
  using repeats_refused [of hd' P rq cap RESP_ERR_INVALID s] repeats_routed_payload [OF assms(1,2), of hd' P rq cap] assms(3)
  by (cases bad) simp_all

lemma repeats_reply_guarded:
  assumes "retry_latch_applies c" and "s_current_req_seq s \<noteq> CC3501E_REQ_SEQ_NONE"
    and "\<And>t. hd' P rq cap t = (if bad then (t, RESP_ERR_INVALID, [])
      else handle_worker_routed_payload_reply c m P rq cap t)"
  shows "repeats hd' P rq cap s"
  using repeats_refused [of hd' P rq cap RESP_ERR_INVALID s] repeats_routed_payload_reply [OF assms(1,2), of hd' P rq cap m]
    assms(3)
  by (cases bad) simp_all

lemmas handler_select = handler_of_def radio_cmds_def radio_handler_def system_handler_def

lemma repeats_routed_handlers:
  assumes "s_current_req_seq s \<noteq> CC3501E_REQ_SEQ_NONE"
  shows "repeats (handler_of CMD_GET_MAC) P rq cap s"
    "repeats (handler_of CMD_WIFI_SCAN_START) P rq cap s"
    "repeats (handler_of CMD_WIFI_AP_STOP) P rq cap s"
    "repeats (handler_of CMD_WIFI_GET_RSSI) P rq cap s"
    "repeats (handler_of CMD_BLE_ENABLE) P rq cap s"
    "repeats (handler_of CMD_BLE_DISABLE) P rq cap s"
    "repeats (handler_of CMD_BLE_ADV_STOP) P rq cap s"
    "repeats (handler_of CMD_BLE_SCAN_START) P rq cap s"
    "repeats (handler_of CMD_WIFI_DISCONNECT) P rq cap s"
    "repeats (handler_of CMD_BLE_SCAN_STOP) P rq cap s"
    "repeats (handler_of CMD_BLE_DISCONNECT) P rq cap s"
  subgoal
    by (rule repeats_routed [where c = CMD_GET_MAC and m = "6" and n = "length rq", OF _ assms])
       (simp_all add: retry_latch_applies_def handler_select handle_get_mac_def handle_worker_routed_def)
  subgoal
    by (rule repeats_routed [where c = CMD_WIFI_SCAN_START and m = "0" and n = "length rq", OF _ assms])
       (simp_all add: retry_latch_applies_def handler_select handle_wifi_scan_start_def handle_worker_routed_def)
  subgoal
    by (rule repeats_routed [where c = CMD_WIFI_AP_STOP and m = "0" and n = "length rq", OF _ assms])
       (simp_all add: retry_latch_applies_def handler_select handle_wifi_ap_stop_def handle_worker_routed_def)
  subgoal
    by (rule repeats_routed [where c = CMD_WIFI_GET_RSSI and m = "1" and n = "length rq", OF _ assms])
       (simp_all add: retry_latch_applies_def handler_select handle_wifi_get_rssi_def handle_worker_routed_def)
  subgoal
    by (rule repeats_routed [where c = CMD_BLE_ENABLE and m = "0" and n = "length rq", OF _ assms])
       (simp_all add: retry_latch_applies_def handler_select handle_ble_enable_def handle_worker_routed_def)
  subgoal
    by (rule repeats_routed [where c = CMD_BLE_DISABLE and m = "0" and n = "length rq", OF _ assms])
       (simp_all add: retry_latch_applies_def handler_select handle_ble_disable_def handle_worker_routed_def)
  subgoal
    by (rule repeats_routed [where c = CMD_BLE_ADV_STOP and m = "0" and n = "length rq", OF _ assms])
       (simp_all add: retry_latch_applies_def handler_select handle_ble_adv_stop_def handle_worker_routed_def)
  subgoal
    by (rule repeats_routed [where c = CMD_BLE_SCAN_START and m = "0" and n = "length rq", OF _ assms])
       (simp_all add: retry_latch_applies_def handler_select handle_ble_scan_start_def handle_worker_routed_def)
  subgoal
    by (rule repeats_routed [where c = CMD_WIFI_DISCONNECT and m = "0" and n = "length rq", OF _ assms])
       (simp_all add: retry_latch_applies_def handler_select handle_wifi_disconnect_def handle_worker_routed_def)
  subgoal
    by (rule repeats_routed [where c = CMD_BLE_SCAN_STOP and m = "0" and n = "length rq", OF _ assms])
       (simp_all add: retry_latch_applies_def handler_select handle_ble_scan_stop_def handle_worker_routed_def)
  subgoal
    by (rule repeats_routed [where c = CMD_BLE_DISCONNECT and m = "0" and n = "length rq", OF _ assms])
       (simp_all add: retry_latch_applies_def handler_select handle_ble_disconnect_def handle_worker_routed_def)
  done

lemma repeats_payload_handlers:
  assumes "s_current_req_seq s \<noteq> CC3501E_REQ_SEQ_NONE"
  shows "repeats (handler_of CMD_BLE_ADV_START) P rq cap s"
    "repeats (handler_of CMD_BLE_CONNECT) P rq cap s"
    "repeats (handler_of CMD_BLE_GATT_NOTIFY) P rq cap s"
    "repeats (handler_of CMD_BLE_GATT_WRITE) P rq cap s"
    "repeats (handler_of CMD_SOCK_CONNECT) P rq cap s"
    "repeats (handler_of CMD_SOCK_BIND) P rq cap s"
    "repeats (handler_of CMD_SOCK_LISTEN) P rq cap s"
  subgoal
    by (rule repeats_payload_guarded [where c = CMD_BLE_ADV_START and
          bad = "length rq < BLE_ADV_START_HDR \<or> length rq \<noteq> BLE_ADV_START_HDR + unat (rq ! 6)", OF _ assms])
       (simp_all add: retry_latch_applies_def handler_select handle_ble_adv_start_def)
  subgoal
    by (rule repeats_payload_guarded [where c = CMD_BLE_CONNECT and
          bad = "length rq \<noteq> 7", OF _ assms])
       (simp_all add: retry_latch_applies_def handler_select handle_ble_connect_def)
  subgoal
    by (rule repeats_payload_guarded [where c = CMD_BLE_GATT_NOTIFY and
          bad = "length rq < 2", OF _ assms])
       (simp_all add: retry_latch_applies_def handler_select handle_ble_gatt_notify_def)
  subgoal
    by (rule repeats_payload_guarded [where c = CMD_BLE_GATT_WRITE and
          bad = "length rq < 2", OF _ assms])
       (simp_all add: retry_latch_applies_def handler_select handle_ble_gatt_write_def)
  subgoal
    by (rule repeats_payload_guarded [where c = CMD_SOCK_CONNECT and
          bad = "length rq \<noteq> SIZEOF_sock_connect \<or> rq ! 4 \<noteq> SOCK_FAMILY_IPV4 P", OF _ assms])
       (simp_all add: retry_latch_applies_def handler_select handle_sock_connect_def)
  subgoal
    by (rule repeats_payload_guarded [where c = CMD_SOCK_BIND and
          bad = "length rq \<noteq> SIZEOF_sock_bind \<or> rq ! 4 \<noteq> SOCK_FAMILY_IPV4 P", OF _ assms])
       (simp_all add: retry_latch_applies_def handler_select handle_sock_bind_def)
  subgoal
    by (rule repeats_payload_guarded [where c = CMD_SOCK_LISTEN and
          bad = "length rq \<noteq> SIZEOF_sock_listen \<or> rq ! 0 = 0 \<and> rq ! 1 = 0", OF _ assms])
       (simp_all add: retry_latch_applies_def handler_select handle_sock_listen_def)
  done

lemma repeats_wifi_join:
  assumes "s_current_req_seq s \<noteq> CC3501E_REQ_SEQ_NONE"
  shows "repeats (handler_of CMD_WIFI_CONNECT_STA) P rq cap s" "repeats (handler_of CMD_WIFI_AP_START) P rq cap s"
proof -
  let ?bad = "length rq < sizeof_wifi_connect P \<or> length rq \<noteq> sizeof_wifi_connect P
    + unat (fst (wifi_connect_of P rq)) + unat (fst (snd (wifi_connect_of P rq)))"
  show "repeats (handler_of CMD_WIFI_CONNECT_STA) P rq cap s"
    by (rule repeats_payload_guarded [where c = CMD_WIFI_CONNECT_STA and bad = ?bad, OF _ assms])
       (simp_all add: retry_latch_applies_def handler_select handle_wifi_connect_sta_def wifi_join_def split_beta)
  show "repeats (handler_of CMD_WIFI_AP_START) P rq cap s"
    by (rule repeats_payload_guarded [where c = CMD_WIFI_AP_START and bad = ?bad, OF _ assms])
       (simp_all add: retry_latch_applies_def handler_select handle_wifi_ap_start_def wifi_join_def split_beta)
qed

lemma repeats_reply_handlers:
  assumes "s_current_req_seq s \<noteq> CC3501E_REQ_SEQ_NONE"
  shows "repeats (handler_of CMD_SOCK_OPEN) P rq cap s"
    "repeats (handler_of CMD_BLE_GATT_READ) P rq cap s"
    "repeats (handler_of CMD_BLE_GATT_REGISTER) P rq cap s"
  subgoal
    by (rule repeats_reply_guarded [where c = CMD_SOCK_OPEN and m = "SIZEOF_sock_handle" and
          bad = "length rq \<noteq> SIZEOF_sock_open \<or> rq ! 0 \<noteq> SOCK_FAMILY_IPV4 P", OF _ assms])
       (simp_all add: retry_latch_applies_def handler_select handle_sock_open_def split: option.split)
  subgoal
    by (rule repeats_reply_guarded [where c = CMD_BLE_GATT_READ and m = "0" and
          bad = "length rq \<noteq> 2", OF _ assms])
       (simp_all add: retry_latch_applies_def handler_select handle_ble_gatt_read_def split: option.split)
  subgoal
    by (rule repeats_reply_guarded [where c = CMD_BLE_GATT_REGISTER and m = "2 + 2 * unat (the (ble_gatt_register_validate P rq))" and
          bad = "ble_gatt_register_validate P rq = None", OF _ assms])
       (simp_all add: retry_latch_applies_def handler_select handle_ble_gatt_register_def split: option.split)
  done

lemma handler_repeats:
  assumes "c \<in> set latched_cmds" and "s_current_req_seq s \<noteq> CC3501E_REQ_SEQ_NONE"
  shows "repeats (handler_of c) P rq cap s"
proof -
  have own: "repeats (handler_of CMD_SOCK_CLOSE) P rq cap s"
    "repeats (handler_of CMD_SPI1_CONFIGURE) P rq cap s" "repeats (handler_of CMD_SPI1_RELEASE) P rq cap s"
    using repeats_sock_close [OF assms(2)] repeats_spi1_configure [OF assms(2)]
      repeats_spi1_release [OF assms(2)]
    by (simp_all add: handler_select)
  show ?thesis
    using assms(1)
    by (auto simp: latched_cmds_def own repeats_routed_handlers [OF assms(2)]
        repeats_payload_handlers [OF assms(2)] repeats_wifi_join [OF assms(2)]
        repeats_reply_handlers [OF assms(2)])
qed

text \<open>A finished job waiting to be collected, for the concrete run below.\<close>

definition demo_failed :: "stub_hw fw" where
  "demo_failed = (fw_reset (demo_platform True) stub_reset)
     \<lparr>job := job_reset\<lparr>state := WORKER_ERR, job_cmd := CMD_GET_MAC, err := CC3501E_HW_ERR_NOTIMPL\<rparr>\<rparr>"

lemma resend_idempotent:
  assumes "hdr_ok P" and "c \<in> set latched_cmds"
    and "req_seq_of_flags fl \<noteq> CC3501E_REQ_SEQ_NONE"
    and "protocol_dispatch P (cmd_val P c) fl rq cap s = (s1, st, dat)"
    and "st \<noteq> RESP_ERR_BUSY" and "length dat \<le> RETRY_LATCH_DATA"
    and "req_seq_of_flags fl' = req_seq_of_flags fl" and "latch_view t = latch_view s1"
  shows "\<exists>k r. protocol_dispatch P (cmd_val P c) fl' rq cap t
        = (t\<lparr>g_retry_latch_hits := k, sock_recv := r\<rparr>, st, dat)
      \<and> (sock_recv t = sock_recv s1 \<longrightarrow> r = sock_recv t)"
proof -
  let ?s = "s\<lparr>s_current_req_seq := req_seq_of_flags fl\<rparr>"
  have d: "protocol_dispatch P (cmd_val P c) f rq cap u =
      handler_of c P rq cap (u\<lparr>s_current_req_seq := req_seq_of_flags f\<rparr>)" for f u
    using assms(1) by (simp add: protocol_dispatch_def Let_def)
  have "repeats (handler_of c) P rq cap ?s"
    using assms(2,3) by (intro handler_repeats) simp_all
  then have seq: "s_current_req_seq s1 = req_seq_of_flags fl"
    and again: "\<exists>k r. handler_of c P rq cap t = (t\<lparr>g_retry_latch_hits := k, sock_recv := r\<rparr>, st, dat)
           \<and> (sock_recv t = sock_recv s1 \<longrightarrow> r = sock_recv t)"
    using assms(4-6,8) by (simp_all add: repeats_def d)
  have "s_current_req_seq t = req_seq_of_flags fl" using seq assms(8) by (simp add: latch_view_def)
  then have "t\<lparr>s_current_req_seq := req_seq_of_flags fl'\<rparr> = t" by (simp flip: assms(7))
  with again show ?thesis by (simp add: d)
qed

lemma latch_view_pass: "latch_view (main_loop_pass P s) = latch_view s"
  by (simp add: latch_view_def pass_keeps)

lemma latch_view_updates [simp]:
  "latch_view (s\<lparr>g_retry_latch_hits := k, sock_recv := r\<rparr>) = latch_view s"
  "latch_view (s\<lparr>hw := h\<rparr>) = latch_view s"
  by (simp_all add: latch_view_def)

text \<open>The executions of a run: at most the job that was already waiting in the slot.\<close>

definition waiting_run :: "'h retry_step list \<Rightarrow> 'h fw \<Rightarrow> 32 word" where
  "waiting_run xs s = (if state (job s) = WORKER_QUEUED \<and> Pass \<in> set xs then 1 else 0)"

lemma resend_run:
  assumes "hdr_ok P" and "c \<in> set latched_cmds"
    and "req_seq_of_flags fl \<noteq> CC3501E_REQ_SEQ_NONE"
    and "protocol_dispatch P (cmd_val P c) fl rq cap s = (s1, st, dat)"
    and "st \<noteq> RESP_ERR_BUSY" and "length dat \<le> RETRY_LATCH_DATA"
    and "\<forall>fl'. Resend fl' \<in> set xs \<longrightarrow> req_seq_of_flags fl' = req_seq_of_flags fl"
    and "latch_view t = latch_view s1" and "retry_run P c rq cap xs t = (t', rs)"
  shows "set rs \<subseteq> {(st, dat)} \<and> g_worker_execs t' = g_worker_execs t + waiting_run xs t"
  using assms(7-9)
proof (induction xs arbitrary: t rs)
  case (Cons x xs)
  show ?case
  proof (cases x)
    case (Resend fl')
    with Cons.prems(1) have fl': "req_seq_of_flags fl' = req_seq_of_flags fl" by simp
    from resend_idempotent [OF assms(1-6) fl' Cons.prems(2)] obtain k r where
      d: "protocol_dispatch P (cmd_val P c) fl' rq cap t
        = (t\<lparr>g_retry_latch_hits := k, sock_recv := r\<rparr>, st, dat)" by blast
    obtain u rs2 where ru: "retry_run P c rq cap xs (t\<lparr>g_retry_latch_hits := k, sock_recv := r\<rparr>) = (u, rs2)"
      by fastforce
    with Cons.prems(3) Resend d have e: "t' = u" "rs = (st, dat) # rs2" by simp_all
    have "set rs2 \<subseteq> {(st, dat)} \<and> g_worker_execs u = g_worker_execs t
        + waiting_run xs (t\<lparr>g_retry_latch_hits := k, sock_recv := r\<rparr>)"
      using Cons.IH [of "t\<lparr>g_retry_latch_hits := k, sock_recv := r\<rparr>" rs2] Cons.prems(1,2) ru e(1)
      by (simp add: Resend)
    then show ?thesis by (simp add: e waiting_run_def Resend)
  next
    case Pass
    have "set rs \<subseteq> {(st, dat)} \<and> g_worker_execs t' = g_worker_execs (main_loop_pass P t)
        + waiting_run xs (main_loop_pass P t)"
      using Cons.IH [of "main_loop_pass P t" rs] Cons.prems Pass by (simp add: latch_view_pass)
    then show ?thesis by (simp add: waiting_run_def pass_not_left_queued pass_execs Pass)
  next
    case (Driver h)
    have "set rs \<subseteq> {(st, dat)} \<and> g_worker_execs t' = g_worker_execs t + waiting_run xs (t\<lparr>hw := h\<rparr>)"
      using Cons.IH [of "t\<lparr>hw := h\<rparr>" rs] Cons.prems Driver by simp
    then show ?thesis by (simp add: waiting_run_def Driver)
  qed
qed (simp add: waiting_run_def)

text \<open>
  C3: A retried request is idempotent.  Take a request of a latched opcode sent under a non-zero
  sequence number and answered with anything but \<open>BUSY\<close> and with at most the 32 bytes the latch
  holds.  Sent again at once it gets the same status and the same data and changes nothing but
  the latch's hit counter.  Sent again any number of times under that sequence number, with any
  passes of the main loop and any hardware activity in between but no other request of the host,
  it gets that same answer every time, and the only job the passes may run is one that was already
  waiting in the slot.  (Longer replies and requests without a sequence number are not latched;
  another latched request overwrites the single latch.)
\<close>

theorem retried_request_idempotent:
  assumes "hdr_ok P" and "c \<in> set latched_cmds"
    and "req_seq_of_flags fl \<noteq> CC3501E_REQ_SEQ_NONE"
    and "protocol_dispatch P (cmd_val P c) fl rq cap s = (s1, st, dat)"
    and "st \<noteq> RESP_ERR_BUSY" and "length dat \<le> RETRY_LATCH_DATA"
  shows "(\<exists>k. protocol_dispatch P (cmd_val P c) fl rq cap s1 = (s1\<lparr>g_retry_latch_hits := k\<rparr>, st, dat))
    \<and> (\<forall>xs s2 rs. (\<forall>fl'. Resend fl' \<in> set xs \<longrightarrow> req_seq_of_flags fl' = req_seq_of_flags fl) \<longrightarrow>
        retry_run P c rq cap xs s1 = (s2, rs) \<longrightarrow>
        set rs \<subseteq> {(st, dat)}
        \<and> g_worker_execs s2 = g_worker_execs s1
            + (if state (job s1) = WORKER_QUEUED \<and> Pass \<in> set xs then 1 else 0))"
proof -
  from resend_idempotent [OF assms refl refl] obtain k where
    "protocol_dispatch P (cmd_val P c) fl rq cap s1
      = (s1\<lparr>g_retry_latch_hits := k, sock_recv := sock_recv s1\<rparr>, st, dat)" by auto
  then have "\<exists>k. protocol_dispatch P (cmd_val P c) fl rq cap s1 = (s1\<lparr>g_retry_latch_hits := k\<rparr>, st, dat)"
    by (intro exI [of _ k]) simp
  with resend_run [OF assms _ refl, unfolded waiting_run_def] show ?thesis by simp
qed

theorem retried_request_idempotent_witness:
  "\<exists>s1 k. protocol_dispatch (demo_platform True) 3 8 [] 64 demo_failed = (s1, RESP_ERR_NOT_READY, [])
     \<and> protocol_dispatch (demo_platform True) 3 8 [] 64 s1
       = (s1\<lparr>g_retry_latch_hits := k\<rparr>, RESP_ERR_NOT_READY, [])"
proof -
  have first: "snd (protocol_dispatch (demo_platform True) (cmd_val (demo_platform True) CMD_GET_MAC) 8 [] 64
      demo_failed) = (RESP_ERR_NOT_READY, [])"
    using hdr_ok_inj [OF demo_platform_ok(1), of True]
    by (simp add: protocol_dispatch_def Let_def handler_select handle_get_mac_def
        handle_worker_routed_def retry_latch_serve_def retry_latch_applies_def demo_failed_def
        worker_poll_def worker_collect_def worker_err_to_resp_def fw_reset_def hw_rc_defs
        job_reset_def req_seq_of_flags_def)
  have v: "cmd_val (demo_platform True) CMD_GET_MAC = 3" by (simp add: demo_platform_def demo_hdr_def)
  have "req_seq_of_flags 8 \<noteq> CC3501E_REQ_SEQ_NONE"
    by (simp add: req_seq_of_flags_def CC3501E_REQ_SEQ_SHIFT_def CC3501E_REQ_SEQ_MASK_def
        CC3501E_REQ_SEQ_NONE_def)
  from retried_request_idempotent [OF demo_platform_ok(1) _ this, of CMD_GET_MAC True "[]" 64 demo_failed]
    first show ?thesis
    by (auto simp: v latched_cmds_def prod_eq_iff)
qed

end
