(* ===== verification/Completion.thy ===== *)
theory Completion
  imports Exactly_Once
begin

text \<open>
  Worker-routed requests complete: the poll protocol between the host and the worker's slot, for
  the opcodes that carry no request payload.
\<close>

section \<open>Opcodes routed without a payload\<close>

definition plain_routed_cmds :: "cmd list" where
  "plain_routed_cmds =
    [CMD_GET_MAC, CMD_WIFI_SCAN_START, CMD_WIFI_DISCONNECT, CMD_WIFI_AP_STOP, CMD_WIFI_GET_RSSI,
     CMD_BLE_ENABLE, CMD_BLE_DISABLE, CMD_BLE_ADV_STOP, CMD_BLE_SCAN_START, CMD_BLE_SCAN_STOP,
     CMD_BLE_DISCONNECT, CMD_SPI1_RELEASE]"

definition plain_min_cap :: "cmd \<Rightarrow> nat" where
  "plain_min_cap c = (if c = CMD_GET_MAC then 6 else if c = CMD_WIFI_GET_RSSI then 1 else 0)"

text \<open>
  All of them are the routed poll; the SPI1 release also forgets the configuration and the hold
  once it is answered (\<^verbatim>\<open>src/protocol_spi.c\<close>).
\<close>

definition routed_done :: "cmd \<Rightarrow> 'h fw \<times> resp \<times> byte list \<Rightarrow> 'h fw \<times> resp \<times> byte list" where
  "routed_done c r = (case r of (s, st, dat) \<Rightarrow>
     (if c = CMD_SPI1_RELEASE \<and> st \<noteq> RESP_ERR_BUSY
      then s\<lparr>g_configured := False, g_cs_held := False\<rparr> else s, st, dat))"

lemma routed_done_other: "c \<noteq> CMD_SPI1_RELEASE \<Longrightarrow> routed_done c r = r"
  by (simp add: routed_done_def split: prod.split)

lemma routed_done_busy: "routed_done c (s, RESP_ERR_BUSY, dat) = (s, RESP_ERR_BUSY, dat)"
  by (simp add: routed_done_def)

lemma routed_done_reply:
  "snd (routed_done c r) = snd r" "job (fst (routed_done c r)) = job (fst r)"
  by (simp_all add: routed_done_def split: prod.split)

lemma plain_routed:
  assumes "c \<in> set plain_routed_cmds"
  shows "handler_of c P [] cap s = routed_done c (handle_worker_routed c (plain_min_cap c) P 0 cap s)"
proof (cases "c = CMD_SPI1_RELEASE")
  case True
  then show ?thesis
    by (simp add: handler_of_def radio_cmds_def system_handler_def handle_spi1_release_def
        plain_min_cap_def routed_done_def)
next
  case False
  then show ?thesis
    using assms
    by (auto simp: plain_routed_cmds_def plain_min_cap_def handler_of_def radio_cmds_def routed_done_other
        radio_handler_def system_handler_def handle_get_mac_def handle_wifi_scan_start_def
        handle_wifi_disconnect_def handle_wifi_ap_stop_def handle_wifi_get_rssi_def
        handle_ble_enable_def handle_ble_disable_def handle_ble_adv_stop_def
        handle_ble_scan_start_def handle_ble_scan_stop_def handle_ble_disconnect_def)
qed

lemma plain_not_released: "c \<in> set plain_routed_cmds \<Longrightarrow> \<not> auto_release c"
  by (auto simp: plain_routed_cmds_def auto_release_def)

lemma plain_dispatch:
  assumes "hdr_ok P" and "c \<in> set plain_routed_cmds" and "plain_min_cap c \<le> cap"
  shows "protocol_dispatch P (cmd_val P c) fl [] cap s = routed_done c
    (case retry_latch_serve c cap (s\<lparr>s_current_req_seq := req_seq_of_flags fl\<rparr>) of
       (s1, Some reply) \<Rightarrow> (s1, reply)
     | (s1, None) \<Rightarrow> worker_collect c (\<lambda>s. fst (worker_submit P c s)) (worker_poll c cap s1))"
  using assms by (simp add: protocol_dispatch_def Let_def plain_routed handle_worker_routed_def)

section \<open>Submit, run, collect\<close>

definition latch_misses :: "cmd \<Rightarrow> byte \<Rightarrow> 'h fw \<Rightarrow> bool" where
  "latch_misses c fl s \<longleftrightarrow> \<not> (valid (s_retry_latch s) \<and> latch_cmd (s_retry_latch s) = c
     \<and> latch_seq (s_retry_latch s) = req_seq_of_flags fl)"

lemma latch_miss:
  assumes "latch_misses c fl s"
  shows "\<exists>b. retry_latch_serve c cap (s\<lparr>s_current_req_seq := req_seq_of_flags fl\<rparr>) =
    (s\<lparr>s_current_req_seq := req_seq_of_flags fl, s_retry_latch := (s_retry_latch s)\<lparr>valid := b\<rparr>\<rparr>, None)
    \<and> (b \<longrightarrow> valid (s_retry_latch s))"
proof -
  have id: "s_retry_latch s = (s_retry_latch s)\<lparr>valid := valid (s_retry_latch s)\<rparr>" by simp
  show ?thesis
    using assms id
    by (auto simp: latch_misses_def retry_latch_serve_def Let_def
        intro: exI [of _ "valid (s_retry_latch s)"] exI [of _ False])
qed

text \<open>A slot free for \<open>c\<close>: idle, or holding a finished job of another opcode.\<close>

definition slot_free :: "cmd \<Rightarrow> 'h fw \<Rightarrow> bool" where
  "slot_free c s \<longleftrightarrow> state (job s) = WORKER_IDLE \<or> terminal (state (job s)) \<and> job_cmd (job s) \<noteq> c"

lemma poll_free:
  assumes "slot_free c s"
  shows "\<exists>j. worker_poll c cap s = (s\<lparr>job := j\<rparr>, WORKER_IDLE, [], 0) \<and> state j = WORKER_IDLE"
proof (cases "state (job s) = WORKER_IDLE")
  case True
  then show ?thesis by (intro exI [of _ "job s"]) (simp add: worker_poll_def Let_def)
next
  case False
  then show ?thesis
    using assms by (intro exI [of _ "job_clear (job s)"])
      (auto simp: slot_free_def terminal_def worker_poll_def Let_def job_clear_def)
qed

lemma submit_threaded:
  assumes "BUILD_WIFI P" and "state (job s) = WORKER_IDLE"
  shows "fst (worker_submit P c s) =
    s\<lparr>job := (job s)\<lparr>job_cmd := c, result_len := 0, err := 0, state := WORKER_QUEUED\<rparr>\<rparr>"
  using assms by (simp add: worker_submit_def run_if_sync_def)

lemma plain_submit:
  assumes "hdr_ok P" and "BUILD_WIFI P" and "c \<in> set plain_routed_cmds" and "plain_min_cap c \<le> cap"
    and "latch_misses c fl s" and "slot_free c s"
  shows "\<exists>s1. protocol_dispatch P (cmd_val P c) fl [] cap s = (s1, RESP_ERR_BUSY, [])
    \<and> state (job s1) = WORKER_QUEUED \<and> job_cmd (job s1) = c \<and> latch_misses c fl s1 \<and> hw s1 = hw s"
proof -
  from latch_miss [OF assms(5), of cap] obtain b where
    b: "retry_latch_serve c cap (s\<lparr>s_current_req_seq := req_seq_of_flags fl\<rparr>) =
      (s\<lparr>s_current_req_seq := req_seq_of_flags fl, s_retry_latch := (s_retry_latch s)\<lparr>valid := b\<rparr>\<rparr>, None)"
      "b \<longrightarrow> valid (s_retry_latch s)" by blast
  let ?t = "s\<lparr>s_current_req_seq := req_seq_of_flags fl, s_retry_latch := (s_retry_latch s)\<lparr>valid := b\<rparr>\<rparr>"
  have "slot_free c ?t" using assms(6) by (simp add: slot_free_def)
  from poll_free [OF this, of cap] obtain j where
    j: "worker_poll c cap ?t = (?t\<lparr>job := j\<rparr>, WORKER_IDLE, [], 0)" "state j = WORKER_IDLE" by blast
  show ?thesis
    using assms(5) b(2) j(2)
    by (simp add: plain_dispatch [OF assms(1,3,4)] b(1) j(1) worker_collect_def routed_done_busy
        submit_threaded [OF assms(2)] latch_misses_def)
qed

text \<open>What a finished driver call means to the host.\<close>

definition routed_reply :: "nat \<Rightarrow> int \<Rightarrow> byte list \<Rightarrow> resp \<times> byte list" where
  "routed_reply cap rv bytes =
     (if rv \<noteq> CC3501E_HW_OK then (worker_err_to_resp (to_int8 rv), [])
      else if length (take MAX_PAYLOAD bytes) > cap then (RESP_ERR_NO_MEM, [])
      else (RESP_OK, take MAX_PAYLOAD bytes))"

lemma plain_collect:
  assumes "hdr_ok P" and "c \<in> set plain_routed_cmds" and "plain_min_cap c \<le> cap"
    and "latch_misses c fl s" and "job_cmd (job s) = c"
    and "if rv = CC3501E_HW_OK then state (job s) = WORKER_DONE
           \<and> result_len (job s) = length (take MAX_PAYLOAD bytes)
           \<and> take (result_len (job s)) (result (job s)) = take MAX_PAYLOAD bytes
         else state (job s) = WORKER_ERR \<and> err (job s) = to_int8 rv"
  shows "\<exists>s1. protocol_dispatch P (cmd_val P c) fl [] cap s = (s1, routed_reply cap rv bytes)
    \<and> state (job s1) = WORKER_IDLE"
proof -
  from latch_miss [OF assms(4), of cap] obtain b where
    b: "retry_latch_serve c cap (s\<lparr>s_current_req_seq := req_seq_of_flags fl\<rparr>) =
      (s\<lparr>s_current_req_seq := req_seq_of_flags fl, s_retry_latch := (s_retry_latch s)\<lparr>valid := b\<rparr>\<rparr>, None)"
    by blast
  have st: "state (job (retry_latch_store c x d (worker_reset t))) = WORKER_IDLE" for x d t
    by (simp add: retry_latch_store_def protocol_reset_retry_latch_def worker_reset_def job_clear_def)
  have nm: "worker_err_to_resp CC3501E_HW_ERR_NO_MEM = RESP_ERR_NO_MEM"
    by (simp add: worker_err_to_resp_def hw_rc_defs)
  let ?r = "worker_collect c (\<lambda>s. fst (worker_submit P c s)) (worker_poll c cap
    (s\<lparr>s_current_req_seq := req_seq_of_flags fl, s_retry_latch := (s_retry_latch s)\<lparr>valid := b\<rparr>\<rparr>))"
  have "snd ?r = routed_reply cap rv bytes \<and> state (job (fst ?r)) = WORKER_IDLE"
    using assms(5,6)
    by (cases "rv = CC3501E_HW_OK"; cases "length (take MAX_PAYLOAD bytes) > cap")
       (simp_all add: worker_poll_def Let_def worker_collect_def
         routed_reply_def nm st del: length_take)
  then show ?thesis
    using routed_done_reply [of c ?r]
    by (intro exI [of _ "fst (routed_done c ?r)"]) (simp add: plain_dispatch [OF assms(1-3)] b prod_eq_iff)
qed

lemma plain_pass:
  assumes "fw_inv P s" and "state (job s) = WORKER_QUEUED" and "\<not> auto_release (job_cmd (job s))"
    and "worker_body P (job_cmd (job s)) (req (job s)) (req_len (job s)) (bridge_busy (link P) (hw s))
          = (h, rv, bytes)"
  defines "j \<equiv> job (main_loop_pass P s)"
  shows "job_cmd j = job_cmd (job s) \<and> (if rv = CC3501E_HW_OK then state j = WORKER_DONE
           \<and> result_len j = length (take MAX_PAYLOAD bytes)
           \<and> take (result_len j) (result j) = take MAX_PAYLOAD bytes
         else state j = WORKER_ERR \<and> err j = to_int8 rv)"
proof -
  have "j = job (worker_run_pending P s)" by (simp add: j_def main_loop_pass_def hw_void_def)
  moreover have "length (result (job s)) = MAX_PAYLOAD"
    using assms(1) by (simp add: fw_inv_def job_wf_def)
  ultimately show ?thesis
    using run_pending_job [OF assms(2-4)] take_blit [of "take MAX_PAYLOAD bytes" "result (job s)"]
    by (simp add: Let_def del: take_blit)
qed

text \<open>
  C5: A worker-routed request completes.  For the twelve routed opcodes that carry no payload, in
  the threaded build, with room in the reply for the opcode's fixed result: a request that finds
  the slot free (idle, or holding a finished job of another opcode) and no latched answer of its
  own is answered \<open>BUSY\<close>; after one pass of the main loop the same request is answered with the
  result of the driver call that the pass made (its bytes, or its error code translated, or
  \<open>NO_MEM\<close> when the reply buffer is too small for them), and the slot is free again.
\<close>

theorem routed_request_completes:
  assumes "hdr_ok P" and "BUILD_WIFI P" and "fw_inv P s" and "c \<in> set plain_routed_cmds"
    and "plain_min_cap c \<le> cap" and "latch_misses c fl s" and "slot_free c s"
  shows "\<exists>s1 s2 h rv bytes n.
    protocol_dispatch P (cmd_val P c) fl [] cap s = (s1, RESP_ERR_BUSY, [])
    \<and> worker_body P c (req (job s1)) n (bridge_busy (link P) (hw s)) = (h, rv, bytes)
    \<and> protocol_dispatch P (cmd_val P c) fl [] cap (main_loop_pass P s1) = (s2, routed_reply cap rv bytes)
    \<and> state (job s2) = WORKER_IDLE"
proof -
  from plain_submit [OF assms(1,2,4-7)] obtain s1 where
    s1: "protocol_dispatch P (cmd_val P c) fl [] cap s = (s1, RESP_ERR_BUSY, [])"
      "state (job s1) = WORKER_QUEUED" "job_cmd (job s1) = c" "latch_misses c fl s1" "hw s1 = hw s"
    by blast
  have i1: "fw_inv P s1" using wf.I_dispatch [OF assms(3), of "cmd_val P c" fl "[]" cap] s1(1) by simp
  obtain h rv bytes where
    b: "worker_body P c (req (job s1)) (req_len (job s1)) (bridge_busy (link P) (hw s1)) = (h, rv, bytes)"
    by (metis prod_cases3)
  have rel: "\<not> auto_release (job_cmd (job s1))" using plain_not_released [OF assms(4)] s1(3) by simp
  have "latch_misses c fl (main_loop_pass P s1)" using s1(4) by (simp add: latch_misses_def pass_keeps)
  from plain_collect [OF assms(1,4,5) this, of rv bytes] plain_pass [OF i1 s1(2) rel, of h rv bytes] b s1(3)
  obtain s2 where "protocol_dispatch P (cmd_val P c) fl [] cap (main_loop_pass P s1) = (s2, routed_reply cap rv bytes)"
    "state (job s2) = WORKER_IDLE" by auto
  with s1(1,5) b show ?thesis by auto
qed

theorem routed_request_completes_witness:
  "\<exists>s1 s2 h rv bytes n.
    protocol_dispatch demo_threaded 3 8 [] 64 (fw_reset demo_threaded stub_reset) = (s1, RESP_ERR_BUSY, [])
    \<and> worker_body demo_threaded CMD_GET_MAC (req (job s1)) n (bridge_busy (link demo_threaded) stub_reset) = (h, rv, bytes)
    \<and> protocol_dispatch demo_threaded 3 8 [] 64 (main_loop_pass demo_threaded s1) = (s2, routed_reply 64 rv bytes)
    \<and> state (job s2) = WORKER_IDLE"
proof -
  let ?s = "fw_reset demo_threaded stub_reset"
  have v: "cmd_val demo_threaded CMD_GET_MAC = 3"
    by (simp add: demo_threaded_def demo_platform_def demo_hdr_def)
  have h: "hw ?s = stub_reset" by (simp add: fw_reset_def)
  have "CMD_GET_MAC \<in> set plain_routed_cmds" "plain_min_cap CMD_GET_MAC \<le> 64"
    by (simp_all add: plain_routed_cmds_def plain_min_cap_def)
  moreover have "latch_misses CMD_GET_MAC 8 ?s" "slot_free CMD_GET_MAC ?s"
    by (simp_all add: latch_misses_def slot_free_def fw_reset_def job_reset_def)
  ultimately show ?thesis
    using routed_request_completes [OF demo_threaded_ok fw_inv_reset, of CMD_GET_MAC 64 8 stub_reset]
    by (simp add: v h)
qed

end
