(* ===== verification/Spi1.thy ===== *)
theory Spi1
  imports Exactly_Once
begin

text \<open>
  The SPI1 passthrough of \<^verbatim>\<open>src/protocol_spi.c\<close> under retry.  A finished transfer stays in the
  worker's slot under its transaction byte, so that a repeated request is answered from it
  without clocking the bus again.
\<close>

section \<open>The request and its reply\<close>

definition spi1_no_rx :: "'h platform \<Rightarrow> byte list \<Rightarrow> bool" where
  "spi1_no_rx P rq \<longleftrightarrow> rq ! 2 AND SPI1_XFER_NO_RX P \<noteq> 0"

definition spi1_call :: "'h platform \<Rightarrow> byte list \<Rightarrow> ('h, byte list) drv_out" where
  "spi1_call P rq =
     (let len = get_le16 rq 0
      in hw_spi1_transfer (io P)
           (if rq ! 2 AND SPI1_XFER_NO_TX P \<noteq> 0 then None else Some (take (unat len) (drop 8 rq)))
           (\<not> spi1_no_rx P rq) len (rq ! 4) (rq ! 2 AND SPI1_XFER_CS_HOLD P \<noteq> 0))"

definition spi1_reply :: "'h platform \<Rightarrow> byte list \<Rightarrow> byte list \<Rightarrow> byte list" where
  "spi1_reply P rq rx =
     (let len = get_le16 rq 0
      in put_le16 (if spi1_no_rx P rq then 0 else len)
         @ [if rq ! 2 AND SPI1_XFER_CS_HOLD P \<noteq> 0 then SPI1_XFER_CS_HOLD P else 0, rq ! 3]
         @ (if spi1_no_rx P rq then [] else out_buf (unat len) rx))"

lemma spi1_errors_none:
  assumes "spi1_transfer_errors P rq cap s = None"
  shows "8 \<le> length rq" and "length rq \<le> MAX_PAYLOAD" and "g_configured s"
    and "length (spi1_reply P rq rx) \<le> cap" and "length (spi1_reply P rq rx) \<le> MAX_PAYLOAD"
    and "rq ! 2 AND SPI1_XFER_NO_TX P = 0 \<Longrightarrow> length rq = 8 + unat (get_le16 rq 0)"
proof -
  let ?len = "unat (get_le16 rq 0)"
  have m: "CC3501E_SPI1_MAX_XFER_V4 w \<le> 4088" for w
    by (simp add: CC3501E_SPI1_MAX_XFER_V4_def SPI1_MAX_XFER_def)
  have f: "8 \<le> length rq" "?len \<le> CC3501E_SPI1_MAX_XFER_V4 (WIRE_CRC P)" "g_configured s"
    "length rq = (if rq ! 2 AND SPI1_XFER_NO_TX P \<noteq> 0 then 8 else 8 + ?len)"
    "4 + (if rq ! 2 AND SPI1_XFER_NO_RX P \<noteq> 0 then 0 else ?len) \<le> cap"
    using assms unfolding spi1_transfer_errors_def Let_def sizeof_defs
    by (simp_all split: if_split_asm)
  have l: "?len \<le> 4088" using f(2) m [of "WIRE_CRC P"] by linarith
  show "8 \<le> length rq" "g_configured s" by (fact f)+
  show "length rq \<le> MAX_PAYLOAD" using f(4) l by (simp add: MAX_PAYLOAD_def)
  show "length (spi1_reply P rq rx) \<le> cap" "length (spi1_reply P rq rx) \<le> MAX_PAYLOAD"
    using f(5) l by (simp_all add: spi1_reply_def Let_def spi1_no_rx_def MAX_PAYLOAD_def split: if_splits)
  show "rq ! 2 AND SPI1_XFER_NO_TX P = 0 \<Longrightarrow> length rq = 8 + unat (get_le16 rq 0)"
    using f(4) by simp
qed

lemma spi1_body:
  assumes "spi1_transfer_errors P rq cap s = None" and "take (length rq) req' = rq"
    and "spi1_call P rq h = (h', CC3501E_HW_OK, rx)"
  shows "worker_body P CMD_SPI1_TRANSFER req' n h = (h', CC3501E_HW_OK, spi1_reply P rq rx)"
proof -
  note e = spi1_errors_none [OF assms(1)]
  obtain zs where z: "req' = rq @ zs" by (metis append_take_drop_id assms(2))
  have p: "get_le16 req' 0 = get_le16 rq 0" "req' ! 2 = rq ! 2" "req' ! 3 = rq ! 3" "req' ! 4 = rq ! 4"
    using e(1) by (auto simp: z get_le16_def nth_append)
  have d: "take (unat (get_le16 rq 0)) (drop 8 req') = take (unat (get_le16 rq 0)) (drop 8 rq)"
    if "rq ! 2 AND SPI1_XFER_NO_TX P = 0"
    using e(6) [OF that] by (simp add: z)
  have call: "hw_spi1_transfer (io P)
      (if rq ! 2 AND SPI1_XFER_NO_TX P \<noteq> 0 then None else Some (take (unat (get_le16 rq 0)) (drop 8 req')))
      (\<not> rq ! 2 AND SPI1_XFER_NO_RX P \<noteq> 0) (get_le16 rq 0) (rq ! 4) (rq ! 2 AND SPI1_XFER_CS_HOLD P \<noteq> 0) h
      = (h', CC3501E_HW_OK, rx)"
    using assms(3) d
    by (cases "rq ! 2 AND SPI1_XFER_NO_TX P = 0") (simp_all add: spi1_call_def spi1_no_rx_def Let_def)
  have "worker_body P CMD_SPI1_TRANSFER req' n h = exec_spi1 P CMD_SPI1_TRANSFER req' h"
    by (simp add: worker_body_def)
  also have "\<dots> = (h', CC3501E_HW_OK, spi1_reply P rq rx)"
    unfolding exec_spi1_def Let_def p cmd.case spi1_reply_def spi1_no_rx_def call on_ok_def by simp
  finally show ?thesis .
qed

section \<open>Phases\<close>

definition spi1_ready :: "byte list \<Rightarrow> 'h fw \<Rightarrow> bool" where
  "spi1_ready rq s \<longleftrightarrow> state (job s) = WORKER_IDLE
     \<or> terminal (state (job s)) \<and> job_cmd (job s) \<noteq> CMD_SPI1_TRANSFER"

definition spi1_done :: "byte list \<Rightarrow> nat \<Rightarrow> byte list \<Rightarrow> 'h fw \<Rightarrow> bool" where
  "spi1_done rq cap dat s \<longleftrightarrow> state (job s) = WORKER_DONE \<and> job_cmd (job s) = CMD_SPI1_TRANSFER
     \<and> take (result_len (job s)) (result (job s)) = dat \<and> length dat = result_len (job s)
     \<and> 4 \<le> length dat \<and> length dat \<le> cap \<and> dat ! 3 = rq ! 3"

lemma spi1_dispatch:
  assumes "hdr_ok P"
  shows "protocol_dispatch P (cmd_val P CMD_SPI1_TRANSFER) fl rq cap s =
    handle_spi1_transfer P rq cap (s\<lparr>s_current_req_seq := req_seq_of_flags fl\<rparr>)"
  using assms
  by (simp add: protocol_dispatch_def Let_def handler_of_def radio_cmds_def system_handler_def)

lemma spi1_errors_cong:
  "g_configured t = g_configured s \<Longrightarrow> spi1_transfer_errors P rq cap t = spi1_transfer_errors P rq cap s"
  by (simp only: spi1_transfer_errors_def)

lemma spi1_errors_frame:
  "spi1_transfer_errors P rq cap (s\<lparr>s_current_req_seq := q\<rparr>) = spi1_transfer_errors P rq cap s"
  "spi1_transfer_errors P rq cap (s\<lparr>hw := h\<rparr>) = spi1_transfer_errors P rq cap s"
  "spi1_transfer_errors P rq cap (s\<lparr>g_cs_held := b\<rparr>) = spi1_transfer_errors P rq cap s"
  by (rule spi1_errors_cong, simp)+

lemma spi1_done_handle:
  assumes "spi1_transfer_errors P rq cap s = None" and "spi1_done rq cap dat s"
  shows "handle_spi1_transfer P rq cap s =
    (s\<lparr>g_cs_held := (dat ! 2 AND SPI1_XFER_CS_HOLD P \<noteq> 0)\<rparr>, RESP_OK, dat)"
proof -
  have "worker_poll CMD_SPI1_TRANSFER cap s = (s, WORKER_DONE, dat, 0)"
    using assms(2) by (simp add: spi1_done_def worker_poll_def Let_def)
  then show ?thesis
    using assms by (simp add: handle_spi1_transfer_def spi1_done_def sizeof_defs)
qed

interpretation spi1: settled_phase P CMD_SPI1_TRANSFER rq cap
    "\<lambda>s. hdr_ok P \<and> spi1_transfer_errors P rq cap s = None \<and> spi1_done rq cap dat s" "(RESP_OK, dat)"
  for P :: "'h platform" and rq :: "byte list" and cap :: nat and dat :: "byte list"
proof
  fix s :: "'h fw" and fl :: byte and h :: 'h
  assume s: "hdr_ok P \<and> spi1_transfer_errors P rq cap s = None \<and> spi1_done rq cap dat s"
  let ?s = "s\<lparr>s_current_req_seq := req_seq_of_flags fl\<rparr>"
  have "spi1_transfer_errors P rq cap ?s = None" "spi1_done rq cap dat ?s"
    using s by (simp_all add: spi1_errors_frame spi1_done_def)
  from spi1_done_handle [OF this] s
  show "\<exists>s1. protocol_dispatch P (cmd_val P CMD_SPI1_TRANSFER) fl rq cap s = (s1, RESP_OK, dat)
      \<and> (hdr_ok P \<and> spi1_transfer_errors P rq cap s1 = None \<and> spi1_done rq cap dat s1)
      \<and> g_worker_execs s1 = g_worker_execs s"
    by (simp add: spi1_dispatch spi1_errors_frame spi1_done_def)
  from s show "state (job s) \<noteq> WORKER_QUEUED" by (simp add: spi1_done_def)
  from s show "hdr_ok P \<and> spi1_transfer_errors P rq cap (s\<lparr>hw := h\<rparr>) = None
      \<and> spi1_done rq cap dat (s\<lparr>hw := h\<rparr>)"
    by (simp add: spi1_errors_frame spi1_done_def)
qed

lemma spi1_submit:
  assumes "BUILD_WIFI P" and "fw_inv P s" and "spi1_transfer_errors P rq cap s = None" and "spi1_ready rq s"
  shows "\<exists>s1. handle_spi1_transfer P rq cap s = (s1, RESP_ERR_BUSY, [])
    \<and> state (job s1) = WORKER_QUEUED \<and> job_cmd (job s1) = CMD_SPI1_TRANSFER
    \<and> take (length rq) (req (job s1)) = rq \<and> hw s1 = hw s
    \<and> g_worker_execs s1 = g_worker_execs s \<and> g_configured s1 = g_configured s"
proof -
  define t where "t = s\<lparr>job := if state (job s) = WORKER_IDLE then job s else job_clear (job s)\<rparr>"
  have poll: "worker_poll CMD_SPI1_TRANSFER cap s = (t, WORKER_IDLE, [], 0)"
    using assms(4)
    by (cases "state (job s)") (simp_all add: spi1_ready_def terminal_def t_def worker_poll_def Let_def)
  have h: "handle_spi1_transfer P rq cap s =
      (fst (worker_submit_payload P CMD_SPI1_TRANSFER rq t), RESP_ERR_BUSY, [])"
    using assms(3) by (simp add: handle_spi1_transfer_def poll)
  have "state (job t) = WORKER_IDLE" by (simp add: t_def job_clear_def)
  then show ?thesis
    using assms(1) spi1_errors_none(2) [OF assms(3)]
    by (simp add: h worker_submit_payload_def run_if_sync_def) (simp add: t_def)
qed

lemma publish_configured: "g_configured (worker_publish c rv bytes s) = g_configured s"
  by (simp add: worker_publish_def Let_def)

lemma execute_configured: "g_configured (worker_execute P c s) = g_configured s"
  by (simp add: worker_execute_def publish_configured split: prod.split)

lemma pass_configured: "g_configured (main_loop_pass P s) = g_configured s"
proof (cases "state (job s) = WORKER_QUEUED")
  case True
  from worker_run_pending_queued [OF True, of P] obtain h where
    "worker_run_pending P s = (let e = worker_execute P (job_cmd (job s))
        (s\<lparr>job := (job s)\<lparr>state := WORKER_RUNNING\<rparr>, hw := bridge_busy (link P) (hw s)\<rparr>)
      in (if auto_release (job_cmd (job s)) then worker_reset e else e)\<lparr>hw := h\<rparr>)" ..
  then show ?thesis
    by (simp add: main_loop_pass_def hw_void_def Let_def worker_reset_def execute_configured)
qed (simp add: main_loop_pass_def hw_void_def worker_run_pending_idle)

lemma spi1_pass:
  assumes "fw_inv P s" and "spi1_transfer_errors P rq cap s = None"
    and "state (job s) = WORKER_QUEUED" and "job_cmd (job s) = CMD_SPI1_TRANSFER"
    and "take (length rq) (req (job s)) = rq"
    and "spi1_call P rq (bridge_busy (link P) (hw s)) = (h, CC3501E_HW_OK, rx)"
  shows "spi1_done rq cap (spi1_reply P rq rx) (main_loop_pass P s)
    \<and> g_worker_execs (main_loop_pass P s) = g_worker_execs s + 1"
proof -
  note e = spi1_errors_none [OF assms(2)]
  have b: "worker_body P (job_cmd (job s)) (req (job s)) (req_len (job s)) (bridge_busy (link P) (hw s))
      = (h, CC3501E_HW_OK, spi1_reply P rq rx)"
    unfolding assms(4) by (rule spi1_body [OF assms(2,5,6)])
  have len: "length (result (job s)) = MAX_PAYLOAD" using assms(1) by (simp add: fw_inv_def job_wf_def)
  have nr: "\<not> auto_release (job_cmd (job s))" by (simp add: assms(4) auto_release_def)
  have j: "job (main_loop_pass P s) = (job s)\<lparr>result := blit (result (job s)) (spi1_reply P rq rx),
      result_len := length (spi1_reply P rq rx), err := 0, state := WORKER_DONE\<rparr>"
    using run_pending_job [OF assms(3) nr b] e(5) [of rx]
    by (simp add: main_loop_pass_def hw_void_def Let_def len)
  have "spi1_reply P rq rx ! 3 = rq ! 3" "4 \<le> length (spi1_reply P rq rx)"
    by (simp_all add: spi1_reply_def Let_def put_le16_def)
  then show ?thesis
    using run_pending_execs [of P s] assms(3,4) e(4) [of rx]
    by (simp add: spi1_done_def j) (simp add: main_loop_pass_def hw_void_def)
qed

text \<open>
  C7: An SPI1 transfer that succeeded is clocked onto the bus exactly once.  In the threaded build
  a valid transfer that finds the slot free is queued and answered \<open>BUSY\<close>; if the driver call made
  by the next pass succeeds, then however often the request is repeated afterwards, under whatever
  frame flags and interleaved with passes and hardware activity, every reply is the one built from
  that single driver call, and nothing is executed again.
\<close>

theorem spi1_transfer_exactly_once:
  assumes "hdr_ok P" and "BUILD_WIFI P" and "fw_inv P s" and "spi1_ready rq s"
    and "spi1_transfer_errors P rq cap s = None"
    and "spi1_call P rq (bridge_busy (link P) (hw s)) = (h, CC3501E_HW_OK, rx)"
    and "retry_run P CMD_SPI1_TRANSFER rq cap (Resend fl # Pass # xs) s = (s', replies)"
  shows "\<exists>rs. replies = (RESP_ERR_BUSY, []) # rs \<and> set rs \<subseteq> {(RESP_OK, spi1_reply P rq rx)}
    \<and> g_worker_execs s' = g_worker_execs s + 1"
proof -
  let ?s = "s\<lparr>s_current_req_seq := req_seq_of_flags fl\<rparr>"
  have e: "spi1_transfer_errors P rq cap ?s = None" using assms(5) by (simp add: spi1_errors_frame)
  have i: "fw_inv P ?s" using assms(3) by (rule wf.I_seq)
  have r: "spi1_ready rq ?s" using assms(4) by (simp add: spi1_ready_def)
  from spi1_submit [OF assms(2) i e r] obtain s1 where
    s1: "handle_spi1_transfer P rq cap ?s = (s1, RESP_ERR_BUSY, [])" "state (job s1) = WORKER_QUEUED"
      "job_cmd (job s1) = CMD_SPI1_TRANSFER" "take (length rq) (req (job s1)) = rq" "hw s1 = hw s"
      "g_worker_execs s1 = g_worker_execs s" "g_configured s1 = g_configured s" by auto
  have i1: "fw_inv P s1" using wf.I_spi1_transfer [OF i, of rq cap] s1(1) by simp
  have e1: "spi1_transfer_errors P rq cap s1 = None"
    using assms(5) spi1_errors_cong [OF s1(7)] by simp
  have c1: "spi1_call P rq (bridge_busy (link P) (hw s1)) = (h, CC3501E_HW_OK, rx)"
    using assms(6) by (simp add: s1(5))
  note p = spi1_pass [OF i1 e1 s1(2-4) c1]
  have e2: "spi1_transfer_errors P rq cap (main_loop_pass P s1) = None"
    using e1 spi1_errors_cong [OF pass_configured, of P rq cap P s1] by simp
  obtain s2 rs where run: "retry_run P CMD_SPI1_TRANSFER rq cap xs (main_loop_pass P s1) = (s2, rs)"
    by fastforce
  with assms(7) s1(1) have "s' = s2" "replies = (RESP_ERR_BUSY, []) # rs"
    by (simp_all add: spi1_dispatch [OF assms(1)])
  moreover have "hdr_ok P \<and> spi1_transfer_errors P rq cap (main_loop_pass P s1) = None
      \<and> spi1_done rq cap (spi1_reply P rq rx) (main_loop_pass P s1)"
    using assms(1) e2 p by blast
  ultimately show ?thesis using spi1.settled_run [OF _ run] p s1(6) by auto
qed

definition demo_spi1 :: "stub_hw fw" where
  "demo_spi1 = (fw_reset demo_threaded (stub_reset\<lparr>stub_spi1_open := True\<rparr>))\<lparr>g_configured := True\<rparr>"

theorem spi1_transfer_exactly_once_witness:
  "\<exists>s' rs. retry_run demo_threaded CMD_SPI1_TRANSFER [2, 0, 0, 9, 0, 0, 0, 0, 0xAA, 0x55] 64
       [Resend 8, Pass, Resend 8, Pass, Resend 16] demo_spi1 = (s', (RESP_ERR_BUSY, []) # rs)
     \<and> set rs \<subseteq> {(RESP_OK, [2, 0, 0, 9, 0xAA, 0x55])}"
proof -
  let ?P = demo_threaded and ?rq = "[2, 0, 0, 9, 0, 0, 0, 0, 0xAA, 0x55] :: byte list"
  have i: "fw_inv ?P demo_spi1"
    using fw_inv_reset [of ?P "stub_reset\<lparr>stub_spi1_open := True\<rparr>"] by (simp add: demo_spi1_def fw_inv_def)
  have r: "spi1_ready ?rq demo_spi1"
    by (simp add: spi1_ready_def demo_spi1_def fw_reset_def job_reset_def)
  have f: "SPI1_XFER_CS_HOLD ?P = 1" "SPI1_XFER_NO_RX ?P = 2" "SPI1_XFER_NO_TX ?P = 4" "WIRE_CRC ?P"
    by (simp_all add: demo_threaded_def demo_platform_def) (simp_all add: demo_hdr_def)
  have drv: "hw_spi1_transfer (io ?P) = stub_spi1_transfer" "bridge_busy (link ?P) = id"
    by (simp_all add: demo_threaded_def demo_platform_def stub_io_def weak_link_def weak_worker_link_def)
  have e: "spi1_transfer_errors ?P ?rq 64 demo_spi1 = None"
    by (simp add: spi1_transfer_errors_def Let_def f sizeof_defs get_le16_def SPI1_XFER_FLAGS_ALL_def
        CC3501E_SPI1_MAX_XFER_V4_def SPI1_MAX_XFER_def CRC_BYTES_def demo_spi1_def)
  have c: "\<exists>h. spi1_call ?P ?rq (bridge_busy (link ?P) (hw demo_spi1)) = (h, CC3501E_HW_OK, [0xAA, 0x55])"
    by (simp add: spi1_call_def drv f spi1_no_rx_def get_le16_def stub_spi1_transfer_def
        demo_spi1_def fw_reset_def)
  then obtain h where c: "spi1_call ?P ?rq (bridge_busy (link ?P) (hw demo_spi1)) = (h, CC3501E_HW_OK, [0xAA, 0x55])" ..
  have rep: "spi1_reply ?P ?rq [0xAA, 0x55] = [2, 0, 0, 9, 0xAA, 0x55]"
    by (simp add: spi1_reply_def f spi1_no_rx_def get_le16_def put_le16_def out_buf_def)
  obtain s' replies where run: "retry_run ?P CMD_SPI1_TRANSFER ?rq 64
      [Resend 8, Pass, Resend 8, Pass, Resend 16] demo_spi1 = (s', replies)" by fastforce
  from spi1_transfer_exactly_once [OF demo_threaded_ok i r e c run] run show ?thesis
    unfolding rep by blast
qed

end
