(* ===== verification/Vectors.thy ===== *)
theory Vectors
  imports System
begin

text \<open>
  Conformance with the canonical wire vectors of \<^verbatim>\<open>tests/protocol_vectors.txt\<close>: the byte-exact
  requests and replies, from the power-on state of the stub build, and the version handshake that
  both builds answer in both shapes.
\<close>

section \<open>A well-framed request\<close>

lemma answered:
  assumes "WIRE_CRC P" and "hdr_ok P" and "recv_ring_ok P" and "fw_inv P s"
    and "length pl + CRC_BYTES < 2 ^ 16"
    and dsp: "\<And>t. protocol_dispatch P b fl pl (CC3501E_FRAME_MAX_BYTES - CC3501E_REPLY_DATA_OFF - CRC_BYTES)
           (s\<lparr>crc := t\<rparr>) = (f t, st, dat)"
  shows "\<exists>t u. protocol_build_reply P (request_frame b fl pl) CC3501E_FRAME_MAX_BYTES s =
    ((count_frame st (f t))\<lparr>crc := u\<rparr>,
     wire_reply b (resp_val P st) dat (reply_pad (1 + length dat + CRC_BYTES) CC3501E_FRAME_MAX_BYTES))"
proof -
  obtain t where "serve_request_crc P (request_frame b fl pl) CC3501E_FRAME_MAX_BYTES s =
      protocol_dispatch P b fl pl (CC3501E_FRAME_MAX_BYTES - CC3501E_REPLY_DATA_OFF - CRC_BYTES) (s\<lparr>crc := t\<rparr>)"
    by (rule serve_request_frame [OF assms(2) fw_inv_crc [OF assms(4)] assms(5)])
  then have t: "serve_request_crc P (request_frame b fl pl) CC3501E_FRAME_MAX_BYTES s = (f t, st, dat)"
    unfolding dsp .
  have e: "cmd_echo_of (request_frame b fl pl) = b"
    using request_frame_parts(1) [OF assms(5)] by (simp add: cmd_echo_of_def frame_size_defs)
  show ?thesis
    by (rule build_reply_crc_shape [OF assms(1,2,4,3) t]) (auto simp: e)
qed

lemma refused_unframed:
  assumes "WIRE_CRC P" and "hdr_ok P" and "recv_ring_ok P" and "fw_inv P s" and "fr \<noteq> []"
    and "serve_request_crc P fr CC3501E_FRAME_MAX_BYTES s = (s1, st, dat)"
  shows "snd (protocol_build_reply P fr CC3501E_FRAME_MAX_BYTES s) =
    wire_reply (fr ! 0) (resp_val P st) dat (reply_pad (1 + length dat + CRC_BYTES) CC3501E_FRAME_MAX_BYTES)"
proof -
  have e: "cmd_echo_of fr = fr ! 0" using assms(5) by (cases fr) (simp_all add: cmd_echo_of_def)
  show ?thesis by (rule build_reply_crc_shape [OF assms(1,2,4,3,6)]) (simp add: e)
qed

section \<open>The vectors\<close>

abbreviation vec_P :: "stub_hw platform" where "vec_P \<equiv> demo_platform True"

abbreviation vec_boot :: "stub_hw fw" where "vec_boot \<equiv> fw_reset (demo_platform True) stub_reset"

lemmas frame_eval = request_frame_def wire_reply_def reply_header_def reply_pad_def Let_def
  frame_size_defs put_le16_def put_le32_def CC3501E_FRAME_MAX_BYTES_def MAX_PAYLOAD_def crc_eval

lemma pad_zeros: "replicate 3 (0 :: byte) = [0, 0, 0]" "replicate 5 (0 :: byte) = [0, 0, 0, 0, 0]"
  by (simp_all add: eval_nat_numeral)

text \<open>The requests as the host library frames them.\<close>

lemma vec_requests:
  "request_frame 0 0 [] = [0, 0, 2, 0, 0xA2, 0xE2]"
  "request_frame 6 0 [] = [6, 0, 2, 0, 0x3B, 0xC5]"
  "request_frame 2 0 [] = [2, 0, 2, 0, 0xCA, 0x0F]"
  "request_frame 5 0 [] = [5, 0, 2, 0, 0xE7, 0x5E]"
  "request_frame 3 0 [] = [3, 0, 2, 0, 0x7E, 0x79]"
  "request_frame 1 0 [] = [1, 0, 2, 0, 0x16, 0x94]"
  "request_frame 0x20 0 [0, 0, 0, 0] = [0x20, 0, 6, 0, 0, 0, 0, 0, 0xB7, 0xC7]"
  by (simp_all add: frame_eval)

lemma vec_replies:
  "wire_reply 0 0x5A [] 5 = [0, 0, 8, 0, 0x5A, 0, 0, 0, 0, 0, 0x75, 0x09]"
  "wire_reply 6 0x5A (put_le32 0xC00 @ put_le32 0) 5 =
     [6, 0, 16, 0, 0x5A, 0, 0x0C, 0, 0, 0, 0, 0, 0, 0, 0, 0, 0, 0, 0xD8, 0x80]"
  "wire_reply 2 0x5A [] 5 = [2, 0, 8, 0, 0x5A, 0, 0, 0, 0, 0, 0xFF, 0xD7]"
  "wire_reply 5 0x5A [] 5 = [5, 0, 8, 0, 0x5A, 0, 0, 0, 0, 0, 0x05, 0xCB]"
  "wire_reply 3 2 [] 5 = [3, 0, 8, 0, 2, 0, 0, 0, 0, 0, 0x6C, 0xC5]"
  "wire_reply 3 5 [] 5 = [3, 0, 8, 0, 5, 0, 0, 0, 0, 0, 0x2D, 0x0D]"
  "wire_reply 0 7 [] 5 = [0, 0, 8, 0, 7, 0, 0, 0, 0, 0, 0xA2, 0x37]"
  "wire_reply 1 0x5A (put_le16 0x400) 3 = [1, 0, 8, 0, 0x5A, 0, 4, 0, 0, 0, 0xC1, 0xAC]"
  "wire_reply 0x20 2 [] 5 = [0x20, 0, 8, 0, 2, 0, 0, 0, 0, 0, 0xAE, 0x4D]"
  by (simp_all add: frame_eval pad_zeros)

lemma vec_cmd_val:
  "cmd_val vec_P CMD_PING = 0" "cmd_val vec_P CMD_GET_VERSION = 1" "cmd_val vec_P CMD_RESET = 2"
  "cmd_val vec_P CMD_GET_MAC = 3" "cmd_val vec_P CMD_GET_PENDING_EVENTS = 5"
  "cmd_val vec_P CMD_GET_CAPABILITIES = 6" "cmd_val vec_P CMD_SOCK_OPEN = 0x20"
  by (simp_all add: demo_platform_def demo_hdr_def)

lemma vec_decode:
  "decode_cmd vec_P 0 = Some CMD_PING" "decode_cmd vec_P 1 = Some CMD_GET_VERSION"
  "decode_cmd vec_P 2 = Some CMD_RESET" "decode_cmd vec_P 3 = Some CMD_GET_MAC"
  "decode_cmd vec_P 5 = Some CMD_GET_PENDING_EVENTS"
  "decode_cmd vec_P 6 = Some CMD_GET_CAPABILITIES"
  by (simp_all only: decode_cmd_Some_iff [OF hdr_ok_inj [OF demo_platform_ok(1)]] vec_cmd_val)

lemma vec_capabilities: "cc3501e_build_capabilities vec_P = 0xC00"
  by (simp add: cc3501e_build_capabilities_def demo_platform_def CAP_EVENTS_def CAP_DIAG_STATS_def)

lemma vec_dispatch:
  "protocol_dispatch vec_P 0 0 [] cap s = (s\<lparr>s_current_req_seq := 0\<rparr>, RESP_OK, [])"
  "8 \<le> cap \<Longrightarrow> protocol_dispatch vec_P 6 0 [] cap s
     = (s\<lparr>s_current_req_seq := 0\<rparr>, RESP_OK, put_le32 0xC00 @ put_le32 0)"
  "2 \<le> cap \<Longrightarrow> protocol_dispatch vec_P 1 0 [] cap s
     = (s\<lparr>s_current_req_seq := 0\<rparr>, RESP_OK, put_le16 0x400)"
proof -
  have f: "req_seq_of_flags 0 = 0" by (simp add: req_seq_of_flags_def)
  show "protocol_dispatch vec_P 0 0 [] cap s = (s\<lparr>s_current_req_seq := 0\<rparr>, RESP_OK, [])"
    by (simp add: protocol_dispatch_def Let_def vec_decode f handler_of_def radio_cmds_def
        system_handler_def handle_ping_def)
  show "8 \<le> cap \<Longrightarrow> protocol_dispatch vec_P 6 0 [] cap s
     = (s\<lparr>s_current_req_seq := 0\<rparr>, RESP_OK, put_le32 0xC00 @ put_le32 0)"
    by (simp add: protocol_dispatch_def Let_def vec_decode f handler_of_def radio_cmds_def
        system_handler_def handle_get_capabilities_def vec_capabilities SIZEOF_capabilities_def)
  show "2 \<le> cap \<Longrightarrow> protocol_dispatch vec_P 1 0 [] cap s
     = (s\<lparr>s_current_req_seq := 0\<rparr>, RESP_OK, put_le16 0x400)"
    by (simp add: protocol_dispatch_def Let_def vec_decode f handler_of_def radio_cmds_def
        system_handler_def handle_get_version_def FW_WIRE_VERSION_def)
qed

lemma vec_room: "CC3501E_FRAME_MAX_BYTES - CC3501E_REPLY_DATA_OFF - CRC_BYTES = 4093"
  by (simp add: CC3501E_FRAME_MAX_BYTES_def MAX_PAYLOAD_def frame_size_defs)

lemma vec_answer:
  assumes "fw_inv vec_P s" and "\<And>t. protocol_dispatch vec_P b 0 [] 4093 (s\<lparr>crc := t\<rparr>) = (f t, st, dat)"
    and "reply_pad (1 + length dat + CRC_BYTES) CC3501E_FRAME_MAX_BYTES = pad"
  shows "snd (protocol_build_reply vec_P (request_frame b 0 []) CC3501E_FRAME_MAX_BYTES s) =
    wire_reply b (resp_val vec_P st) dat pad"
proof -
  have n: "length ([] :: byte list) + CRC_BYTES < 2 ^ 16" by (simp add: CRC_BYTES_def)
  have w: "WIRE_CRC vec_P" by simp
  have "\<And>t. protocol_dispatch vec_P b 0 [] (CC3501E_FRAME_MAX_BYTES - CC3501E_REPLY_DATA_OFF - CRC_BYTES)
      (s\<lparr>crc := t\<rparr>) = (f t, st, dat)"
    unfolding vec_room by (rule assms(2))
  from answered [OF w demo_platform_ok(1) demo_recv_ring_ok assms(1) n this]
  show ?thesis unfolding assms(3) by auto
qed

lemma vec_pad_lengths:
  "reply_pad (1 + length ([] :: byte list) + CRC_BYTES) CC3501E_FRAME_MAX_BYTES = 5"
  "reply_pad (1 + length (put_le16 v) + CRC_BYTES) CC3501E_FRAME_MAX_BYTES = 3"
  "reply_pad (1 + length (put_le32 u @ put_le32 z) + CRC_BYTES) CC3501E_FRAME_MAX_BYTES = 5"
  by (simp_all add: frame_eval)

text \<open>
  Conformance with the canonical wire vectors.  In every well-formed state, the stub build
  with the CRC trailer answers the canonical \<open>PING\<close>, \<open>GET_VERSION\<close> (with and without a trailer)
  and \<open>GET_CAPABILITIES\<close> requests with exactly the bytes the vector file lists, and refuses a
  \<open>PING\<close> without a trailer and one with a wrong trailer with the listed \<open>ERR_PROTOCOL\<close> reply.
\<close>

theorem wire_vectors:
  assumes "fw_inv vec_P s"
  defines "answer fr \<equiv> snd (protocol_build_reply vec_P fr CC3501E_FRAME_MAX_BYTES s)"
  shows "answer [0, 0, 2, 0, 0xA2, 0xE2] = [0, 0, 8, 0, 0x5A, 0, 0, 0, 0, 0, 0x75, 0x09]
    \<and> answer [6, 0, 2, 0, 0x3B, 0xC5]
        = [6, 0, 16, 0, 0x5A, 0, 0x0C, 0, 0, 0, 0, 0, 0, 0, 0, 0, 0, 0, 0xD8, 0x80]
    \<and> answer [1, 0, 2, 0, 0x16, 0x94] = [1, 0, 8, 0, 0x5A, 0, 4, 0, 0, 0, 0xC1, 0xAC]
    \<and> answer [1, 0, 0, 0] = [1, 0, 8, 0, 0x5A, 0, 4, 0, 0, 0, 0xC1, 0xAC]
    \<and> answer [0, 0, 0, 0] = [0, 0, 8, 0, 7, 0, 0, 0, 0, 0, 0xA2, 0x37]
    \<and> answer [0, 0, 2, 0, 0x5D, 0x1D] = [0, 0, 8, 0, 7, 0, 0, 0, 0, 0, 0xA2, 0x37]"
proof -
  have w: "WIRE_CRC vec_P" by simp
  note un = refused_unframed [OF w demo_platform_ok(1) demo_recv_ring_ok assms(1)]
  have ping: "answer [0, 0, 2, 0, 0xA2, 0xE2] = [0, 0, 8, 0, 0x5A, 0, 0, 0, 0, 0, 0x75, 0x09]"
    using vec_answer [OF assms(1) vec_dispatch(1) vec_pad_lengths(1)]
    by (simp add: answer_def vec_requests vec_replies)
  have caps: "answer [6, 0, 2, 0, 0x3B, 0xC5]
        = [6, 0, 16, 0, 0x5A, 0, 0x0C, 0, 0, 0, 0, 0, 0, 0, 0, 0, 0, 0, 0xD8, 0x80]"
    using vec_answer [OF assms(1) vec_dispatch(2) vec_pad_lengths(3)]
    by (simp add: answer_def vec_requests vec_replies)
  have ver: "answer [1, 0, 2, 0, 0x16, 0x94] = [1, 0, 8, 0, 0x5A, 0, 4, 0, 0, 0, 0xC1, 0xAC]"
    using vec_answer [OF assms(1) vec_dispatch(3) vec_pad_lengths(2)]
    by (simp add: answer_def vec_requests vec_replies)
  have "serve_request_crc vec_P [1, 0, 0, 0] CC3501E_FRAME_MAX_BYTES s
      = (s\<lparr>s_current_req_seq := 0\<rparr>, RESP_OK, put_le16 0x400)"
    using vec_dispatch(3) [of 4093 s]
    by (simp add: serve_request_crc_def HEADER_BYTES_def get_le16_def vec_cmd_val vec_room [simplified])
  from un [OF _ this] have bare: "answer [1, 0, 0, 0] = [1, 0, 8, 0, 0x5A, 0, 4, 0, 0, 0, 0xC1, 0xAC]"
    by (simp add: answer_def vec_pad_lengths [simplified] vec_replies)
  have "serve_request_crc vec_P [0, 0, 0, 0] CC3501E_FRAME_MAX_BYTES s = (s, RESP_ERR_PROTOCOL, [])"
    by (simp add: serve_request_crc_def HEADER_BYTES_def CRC_BYTES_def get_le16_def vec_cmd_val)
  from un [OF _ this] have naked: "answer [0, 0, 0, 0] = [0, 0, 8, 0, 7, 0, 0, 0, 0, 0, 0xA2, 0x37]"
    by (simp add: answer_def vec_pad_lengths [simplified] vec_replies)
  obtain t where "serve_request_crc vec_P [0, 0, 2, 0, 0x5D, 0x1D] CC3501E_FRAME_MAX_BYTES s
      = (s\<lparr>crc := t\<rparr>, RESP_ERR_PROTOCOL, [])"
    by (rule serve_request_crc_framed [OF demo_platform_ok(1) fw_inv_crc [OF assms(1)],
          of "[0, 0, 2, 0, 0x5D, 0x1D]" CC3501E_FRAME_MAX_BYTES])
       (simp_all add: get_le16_def HEADER_BYTES_def CRC_BYTES_def crc_eval)
  from un [OF _ this] have bad: "answer [0, 0, 2, 0, 0x5D, 0x1D] = [0, 0, 8, 0, 7, 0, 0, 0, 0, 0, 0xA2, 0x37]"
    by (simp add: answer_def vec_pad_lengths [simplified] vec_replies)
  show ?thesis using ping caps ver bare naked bad by blast
qed

theorem wire_vectors_witness:
  "snd (protocol_build_reply vec_P [0, 0, 2, 0, 0xA2, 0xE2] CC3501E_FRAME_MAX_BYTES vec_boot)
     = [0, 0, 8, 0, 0x5A, 0, 0, 0, 0, 0, 0x75, 0x09]"
  using wire_vectors [OF fw_inv_reset, of stub_reset] by blast

section \<open>Unknown opcodes\<close>

lemma dispatch_unknown:
  assumes "b \<notin> range (cmd_val P)"
  shows "protocol_dispatch P b fl rq cap s =
    (s\<lparr>s_current_req_seq := req_seq_of_flags fl\<rparr>, RESP_ERR_INVALID, [])"
proof -
  have "decode_cmd P b = None" using assms unfolding decode_cmd_None_iff .
  then show ?thesis by (simp add: protocol_dispatch_def Let_def)
qed

text \<open>
  An opcode the firmware does not know is refused and does nothing.  A well-framed request
  with such an opcode, whatever its flags and payload, is answered \<open>ERR_INVALID\<close> under the echoed
  opcode, and changes only the CRC table, the error counters and the noted sequence number.
\<close>

theorem unknown_opcode_refused:
  assumes "WIRE_CRC P" and "hdr_ok P" and "recv_ring_ok P" and "fw_inv P s"
    and "length pl + CRC_BYTES < 2 ^ 16" and "b \<notin> range (cmd_val P)"
    and "protocol_build_reply P (request_frame b fl pl) CC3501E_FRAME_MAX_BYTES s = (s', reply)"
  shows "(\<exists>t. s' = s\<lparr>crc := t, g_frames_err := g_frames_err s + 1, g_last_error := RESP_ERR_INVALID,
                     s_current_req_seq := req_seq_of_flags fl\<rparr>)
    \<and> parse_reply reply = Some (b, resp_val P RESP_ERR_INVALID, replicate 5 0)"
proof -
  have pad: "reply_pad (1 + length ([] :: byte list) + CRC_BYTES) CC3501E_FRAME_MAX_BYTES = 5"
    by (rule vec_pad_lengths)
  from answered [OF assms(1-5) dispatch_unknown [OF assms(6)]] obtain t u where
    "protocol_build_reply P (request_frame b fl pl) CC3501E_FRAME_MAX_BYTES s =
      ((count_frame RESP_ERR_INVALID (s\<lparr>crc := t, s_current_req_seq := req_seq_of_flags fl\<rparr>))\<lparr>crc := u\<rparr>,
       wire_reply b (resp_val P RESP_ERR_INVALID) [] 5)" unfolding pad by blast
  then show ?thesis
    using assms(7) parse_wire_reply [of "[]" 5 b "resp_val P RESP_ERR_INVALID"]
    by (intro conjI exI [of _ u]) (simp_all add: count_frame_def CRC_BYTES_def)
qed

theorem unknown_opcode_refused_witness:
  "\<exists>s' reply. protocol_build_reply vec_P (request_frame 0xFE 8 [1, 2]) CC3501E_FRAME_MAX_BYTES vec_boot
       = (s', reply)
     \<and> job s' = job vec_boot \<and> parse_reply reply = Some (0xFE, 1, replicate 5 0)"
proof -
  obtain s' reply where r: "protocol_build_reply vec_P (request_frame 0xFE 8 [1, 2]) CC3501E_FRAME_MAX_BYTES
      vec_boot = (s', reply)" by fastforce
  have b: "0xFE \<notin> range (cmd_val vec_P)"
    by (auto simp: demo_platform_def demo_hdr_def split: cmd.splits)
  have w: "WIRE_CRC vec_P" and n: "length [1, 2 :: byte] + CRC_BYTES < 2 ^ 16"
    by (simp_all add: CRC_BYTES_def)
  from unknown_opcode_refused [OF w demo_platform_ok(1) demo_recv_ring_ok fw_inv_reset n b r] r
  show ?thesis by auto
qed

section \<open>The version handshake\<close>

lemma serve_nocrc_version:
  assumes "hdr_ok P" and "crc_inv (alp_crc16_update P) (crc s)"
  obtains t where "serve_request_nocrc P (request_frame (cmd_val P CMD_GET_VERSION) fl []) cap s =
    protocol_dispatch P (cmd_val P CMD_GET_VERSION) fl [] (cap - CC3501E_REPLY_DATA_OFF) (s\<lparr>crc := t\<rparr>)"
proof -
  let ?b = "cmd_val P CMD_GET_VERSION" let ?fr = "request_frame (cmd_val P CMD_GET_VERSION) fl []"
  have n: "length ([] :: byte list) + CRC_BYTES < 2 ^ 16" by (simp add: CRC_BYTES_def)
  note parts = request_frame_parts [OF n, of ?b fl]
  obtain t where t: "fw_crc P CRC16_INIT (take HEADER_BYTES ?fr) s =
      (s\<lparr>crc := t\<rparr>, crc16_ccitt_false CRC16_INIT (take HEADER_BYTES ?fr))"
    by (rule fw_crc_spec [OF hdr_ok_crc [OF assms(1)] assms(2)])
  have "get_le16 ?fr HEADER_BYTES = crc16_ccitt_false CRC16_INIT (take HEADER_BYTES ?fr)"
    using get_put_le16 [of "crc16_ccitt_false CRC16_INIT ([?b, fl] @ put_le16 2)" "[]"]
    by (simp add: request_frame_def Let_def frame_size_defs get_le16_def put_le16_def)
  then have "serve_request_nocrc P ?fr cap s =
      protocol_dispatch P ?b fl [] (cap - CC3501E_REPLY_DATA_OFF) (s\<lparr>crc := t\<rparr>)"
    using parts by (simp add: serve_request_nocrc_def t)
  then show thesis by (rule that)
qed

text \<open>
  The version handshake works across wire versions.  A build with the CRC trailer and a build
  without it both answer \<open>GET_VERSION\<close> in both request shapes, with and without a trailer, each
  with its own wire version, so a host can find out which protocol to speak.
\<close>

theorem version_handshake:
  assumes "hdr_ok P" and "fw_inv P s" and "9 \<le> cap"
  defines "b \<equiv> cmd_val P CMD_GET_VERSION"
  shows "snd (serve_request_crc P [b, fl, 0, 0] cap s) = (RESP_OK, put_le16 (FW_WIRE_VERSION (WIRE_CRC P)))
    \<and> snd (serve_request_crc P (request_frame b fl []) cap s) = (RESP_OK, put_le16 (FW_WIRE_VERSION (WIRE_CRC P)))
    \<and> snd (serve_request_nocrc P [b, fl, 0, 0] cap s) = (RESP_OK, put_le16 (FW_WIRE_VERSION (WIRE_CRC P)))
    \<and> snd (serve_request_nocrc P (request_frame b fl []) cap s)
        = (RESP_OK, put_le16 (FW_WIRE_VERSION (WIRE_CRC P)))"
proof -
  have d: "snd (protocol_dispatch P b fl [] (cap - n) t) = (RESP_OK, put_le16 (FW_WIRE_VERSION (WIRE_CRC P)))"
    if "n \<le> 7" for t n
    using assms(1,3) that
    by (simp add: b_def protocol_dispatch_def Let_def handler_of_def radio_cmds_def system_handler_def
        handle_get_version_def)
  have n: "length ([] :: byte list) + CRC_BYTES < 2 ^ 16" by (simp add: CRC_BYTES_def)
  note inv = fw_inv_crc [OF assms(2)]
  obtain t where t: "serve_request_crc P (request_frame b fl []) cap s =
      protocol_dispatch P b fl [] (cap - CC3501E_REPLY_DATA_OFF - CRC_BYTES) (s\<lparr>crc := t\<rparr>)"
    by (rule serve_request_frame [OF assms(1) inv n])
  obtain u where u: "serve_request_nocrc P (request_frame b fl []) cap s =
      protocol_dispatch P b fl [] (cap - CC3501E_REPLY_DATA_OFF) (s\<lparr>crc := u\<rparr>)"
    unfolding b_def by (rule serve_nocrc_version [OF assms(1) inv])
  have bare: "serve_request_crc P [b, fl, 0, 0] cap s = protocol_dispatch P b fl [] (cap - 7) s"
    "serve_request_nocrc P [b, fl, 0, 0] cap s = protocol_dispatch P b fl [] (cap - 5) s"
    by (simp_all add: serve_request_crc_def serve_request_nocrc_def b_def get_le16_def frame_size_defs)
  show ?thesis
    using d [of 7] d [of 5] by (simp add: bare t u frame_size_defs)
qed

theorem version_handshake_witness:
  "snd (serve_request_nocrc (demo_platform False) (request_frame 1 0 []) 64
      (fw_reset (demo_platform False) stub_reset)) = (RESP_OK, [1, 3])"
proof -
  have v: "cmd_val (demo_platform False) CMD_GET_VERSION = 1"
    by (simp add: demo_platform_def demo_hdr_def)
  show ?thesis
    using version_handshake [OF demo_platform_ok(1) fw_inv_reset, of 64 False 0 stub_reset]
    by (simp add: v FW_WIRE_VERSION_def put_le16_def)
qed

end
