(* ===== verification/Spi_Link.thy ===== *)
theory Spi_Link
  imports System
begin

text \<open>
  The transports around the dispatcher: what the host clocks out of the SPI slave
  (\<^verbatim>\<open>src/transport_spi.c\<close>) or reads from the SDIO mailbox (\<^verbatim>\<open>src/transport_sdio.c\<close>) is the
  reply to what it clocked in.
\<close>

section \<open>Replies fit the transport's buffer\<close>

lemma emit_crc_length:
  assumes "CC3501E_REPLY_DATA_OFF + CRC_BYTES + length dat \<le> cap" and "cap \<le> 2 ^ 16"
  shows "length (snd (emit_reply_crc P ce cap st dat s)) \<le> cap"
proof -
  let ?n = "1 + length dat + CRC_BYTES"
  have n: "HEADER_BYTES + ?n \<le> cap" using assms(1) by (simp add: frame_size_defs)
  have f: "HEADER_BYTES + (?n + reply_pad ?n cap) \<le> cap" by (rule reply_pad_fits [OF n])
  have u: "unat (word_of_nat ?n :: u16) = ?n"
    using n assms(2) by (intro unat_word16) (simp add: HEADER_BYTES_def)
  have v: "unat (word_of_nat (?n + reply_pad ?n cap) :: u16) = ?n + reply_pad ?n cap"
    using f assms(2) by (intro unat_word16) (simp add: HEADER_BYTES_def)
  show ?thesis
    using f unfolding emit_reply_crc_def Let_def u v
    by (simp add: split_beta reply_header_def frame_size_defs)
qed

lemma emit_nocrc_length:
  assumes "CC3501E_REPLY_DATA_OFF + length dat \<le> cap" and "cap \<le> 2 ^ 16"
  shows "length (snd (emit_reply_nocrc P ce cap st dat s)) \<le> cap"
proof -
  let ?n = "1 + length dat"
  have n: "HEADER_BYTES + ?n \<le> cap" using assms(1) by (simp add: frame_size_defs)
  have f: "HEADER_BYTES + (?n + reply_pad ?n cap) \<le> cap" by (rule reply_pad_fits [OF n])
  have u: "unat (word_of_nat ?n :: u16) = ?n"
    using n assms(2) by (intro unat_word16) (simp add: HEADER_BYTES_def)
  have v: "unat (word_of_nat (?n + reply_pad ?n cap) :: u16) = ?n + reply_pad ?n cap"
    using f assms(2) by (intro unat_word16) (simp add: HEADER_BYTES_def)
  show ?thesis
    using f unfolding emit_reply_nocrc_def Let_def u v
    by (simp add: reply_header_def frame_size_defs)
qed

lemma clamp_length: "length (snd (clamp_reply n r)) \<le> n"
  by (simp add: clamp_reply_def)

lemma build_reply_length:
  assumes "cap \<le> 2 ^ 16"
  shows "length (snd (protocol_build_reply P fr cap s)) \<le> cap"
proof -
  have a: "length (snd (protocol_build_reply_crc P fr cap s)) \<le> cap"
    using emit_crc_length [OF _ assms] clamp_length [of "cap - CC3501E_REPLY_DATA_OFF - CRC_BYTES"]
    by (auto simp: protocol_build_reply_crc_def split_beta frame_size_defs
        intro!: emit_crc_length [OF _ assms] order_trans [OF add_left_mono [OF clamp_length]])
  have b: "length (snd (protocol_build_reply_nocrc P fr cap s)) \<le> cap"
    by (auto simp: protocol_build_reply_nocrc_def split_beta frame_size_defs
        intro!: emit_nocrc_length [OF _ assms] order_trans [OF add_left_mono [OF clamp_length]])
  show ?thesis using a b by (simp add: protocol_build_reply_def)
qed

text \<open>
  A reply never overruns the buffer it is built in: for every frame (of any bytes and length),
  every capacity up to 65536 bytes, both builds, every state, well-formed or not, and every
  backend, even one whose handler returns too much.
\<close>

theorem build_reply_bound:
  assumes "cap \<le> 2 ^ 16"
  shows "length (snd (protocol_build_reply P fr cap s)) \<le> cap"
  by (rule build_reply_length [OF assms])

theorem build_reply_bound_witness:
  "length (snd (protocol_build_reply (demo_platform False) [6, 0, 0, 0] 9
     (fw_reset (demo_platform False) stub_reset))) \<le> 9"
  using build_reply_bound [of 9 "demo_platform False" "[6, 0, 0, 0]"] by simp

section \<open>The SPI slave\<close>

definition spi_wf :: "spi_slave \<Rightarrow> bool" where
  "spi_wf t \<longleftrightarrow> length (spi_rx_buf t) = CC3501E_FRAME_MAX_BYTES \<and> spi_rx_len t \<le> CC3501E_FRAME_MAX_BYTES
     \<and> length (spi_tx_buf t) = CC3501E_FRAME_MAX_BYTES \<and> spi_tx_len t \<le> CC3501E_FRAME_MAX_BYTES
     \<and> spi_tx_cursor t \<le> spi_tx_len t"

lemma spi_wf_reset: "spi_wf spi_reset"
  by (simp add: spi_wf_def spi_reset_def)

lemma frame_max_16: "CC3501E_FRAME_MAX_BYTES \<le> 2 ^ 16"
  by (simp add: CC3501E_FRAME_MAX_BYTES_def HEADER_BYTES_def MAX_PAYLOAD_def)

lemma spi_rx_fold:
  assumes "spi_wf t"
  shows "let r = fold spi_slave_rx_byte bs t in spi_wf r \<and> take (spi_rx_len r) (spi_rx_buf r)
      = take CC3501E_FRAME_MAX_BYTES (take (spi_rx_len t) (spi_rx_buf t) @ bs)
    \<and> spi_tx_buf r = spi_tx_buf t \<and> spi_tx_len r = spi_tx_len t \<and> spi_tx_cursor r = spi_tx_cursor t"
  using assms
proof (induction bs arbitrary: t)
  case Nil
  then show ?case by (simp add: Let_def spi_wf_def min_def)
next
  case (Cons b bs)
  show ?case
  proof (cases "spi_rx_len t < CC3501E_FRAME_MAX_BYTES")
    case True
    let ?t = "t\<lparr>spi_rx_buf := (spi_rx_buf t)[spi_rx_len t := b], spi_rx_len := spi_rx_len t + 1\<rparr>"
    have s: "spi_slave_rx_byte b t = ?t" using True Cons.prems by (simp add: spi_slave_rx_byte_def spi_wf_def)
    have "spi_wf ?t" using True Cons.prems by (simp add: spi_wf_def)
    moreover have "take (spi_rx_len ?t) (spi_rx_buf ?t) = take (spi_rx_len t) (spi_rx_buf t) @ [b]"
      using True Cons.prems by (simp add: spi_wf_def take_Suc_conv_app_nth)
    ultimately show ?thesis using Cons.IH [of ?t] by (simp add: Let_def s)
  next
    case False
    then have s: "spi_slave_rx_byte b t = t"
      using Cons.prems by (simp add: spi_slave_rx_byte_def spi_wf_def)
    then show ?thesis using Cons.IH [of t] Cons.prems False by (simp add: Let_def spi_wf_def)
  qed
qed

text \<open>The bytes still to be clocked out.\<close>

definition spi_pending :: "spi_slave \<Rightarrow> byte list" where
  "spi_pending t = drop (spi_tx_cursor t) (take (spi_tx_len t) (spi_tx_buf t))"

lemma spi_request_spec:
  assumes "spi_wf t" and "frame \<noteq> []"
    and "protocol_build_reply P (take CC3501E_FRAME_MAX_BYTES frame) CC3501E_FRAME_MAX_BYTES s = (s', reply)"
    and "spi_request P frame (t, s) = (t', s'')"
  shows "s'' = s' \<and> spi_wf t' \<and> spi_tx_cursor t' = 0 \<and> spi_pending t' = reply
    \<and> spi_tx_len t' = length reply"
proof -
  define r where "r = fold spi_slave_rx_byte frame (spi_slave_cs_low t)"
  have "spi_wf (spi_slave_cs_low t)" using assms(1) by (simp add: spi_slave_cs_low_def spi_wf_def)
  from spi_rx_fold [OF this, of frame] have r: "spi_wf r"
    "take (spi_rx_len r) (spi_rx_buf r) = take CC3501E_FRAME_MAX_BYTES frame"
    by (simp_all add: Let_def r_def spi_slave_cs_low_def)
  have len: "length (spi_tx_buf r) = CC3501E_FRAME_MAX_BYTES" using r(1) by (simp add: spi_wf_def)
  have "spi_rx_len r \<noteq> 0"
    using r(2) assms(2) by (cases "spi_rx_len r") (auto simp: CC3501E_FRAME_MAX_BYTES_def HEADER_BYTES_def)
  then have eq: "spi_slave_cs_high P r s =
      (r\<lparr>spi_tx_buf := blit (spi_tx_buf r) reply, spi_tx_len := length reply, spi_tx_cursor := 0\<rparr>, s')"
    by (simp add: spi_slave_cs_high_def r(2) len assms(3))
  have "length reply \<le> CC3501E_FRAME_MAX_BYTES"
    using build_reply_length [OF frame_max_16, of P "take CC3501E_FRAME_MAX_BYTES frame" s]
    by (simp add: assms(3))
  then show ?thesis
    using assms(4) eq r(1) len by (auto simp: spi_request_def r_def [symmetric] spi_wf_def spi_pending_def)
qed

lemma length_spi_pending: "spi_wf t \<Longrightarrow> length (spi_pending t) = spi_tx_len t - spi_tx_cursor t"
  by (simp add: spi_pending_def spi_wf_def)

lemma spi_next_byte:
  assumes "spi_wf t"
  shows "(spi_pending t = [] \<and> spi_slave_tx_next_byte t = (t, 0xFF))
    \<or> (\<exists>b t'. spi_slave_tx_next_byte t = (t', b) \<and> t' = t\<lparr>spi_tx_cursor := spi_tx_cursor t + 1\<rparr>
          \<and> spi_wf t' \<and> spi_pending t = b # spi_pending t')"
proof (cases "spi_tx_cursor t < spi_tx_len t")
  case True
  then show ?thesis
    using assms
    by (intro disjI2) (simp add: spi_slave_tx_next_byte_def spi_wf_def spi_pending_def Cons_nth_drop_Suc
        [of "spi_tx_cursor t" "take (spi_tx_len t) (spi_tx_buf t)", simplified, symmetric])
next
  case False
  then show ?thesis using assms by (simp add: spi_slave_tx_next_byte_def spi_wf_def spi_pending_def)
qed

lemma spi_clock_out_spec:
  assumes "spi_wf t"
  shows "spi_clock_out n t = (t\<lparr>spi_tx_cursor := spi_tx_cursor t + length (take n (spi_pending t))\<rparr>,
    take n (spi_pending t) @ replicate (n - length (spi_pending t)) 0xFF)"
  using assms
proof (induction n arbitrary: t)
  case (Suc n)
  from spi_next_byte [OF Suc.prems] show ?case
  proof (elim disjE exE conjE)
    fix b t' assume "spi_slave_tx_next_byte t = (t', b)" "t' = t\<lparr>spi_tx_cursor := spi_tx_cursor t + 1\<rparr>"
      "spi_wf t'" "spi_pending t = b # spi_pending t'"
    then show ?thesis using Suc.IH [of t'] by simp
  qed (use Suc.IH [OF Suc.prems] in simp)
qed simp

lemma spi_clock_out_wf: "spi_wf t \<Longrightarrow> spi_wf (fst (spi_clock_out n t))"
  using length_spi_pending [of t] spi_clock_out_spec [of t n] by (auto simp: spi_wf_def)

text \<open>
  An SPI exchange delivers the reply.  After the host has asserted chip select, clocked a
  non-empty request in and released it, clocking any number of bytes out yields exactly the reply
  \<open>protocol_build_reply\<close> computes for the request (its first 4100 bytes, the buffer's size, if it is
  longer) followed by \<open>0xFF\<close> filler; nothing is lost, repeated or left over from an earlier reply.
\<close>

theorem spi_exchange:
  assumes "spi_wf t" and "frame \<noteq> []"
    and "protocol_build_reply P (take CC3501E_FRAME_MAX_BYTES frame) CC3501E_FRAME_MAX_BYTES s = (s', reply)"
    and "spi_request P frame (t, s) = (t', s'')"
  shows "s'' = s' \<and> snd (spi_clock_out n t') = take n (reply @ replicate n 0xFF)
    \<and> (spi_slave_tx_pending (fst (spi_clock_out n t')) \<longleftrightarrow> n < length reply)
    \<and> spi_wf (fst (spi_clock_out n t'))"
proof -
  note r = spi_request_spec [OF assms]
  then have wf: "spi_wf t'" and pend: "spi_pending t' = reply" by blast+
  show ?thesis
    using r spi_clock_out_spec [OF wf, of n] spi_clock_out_wf [OF wf, of n] pend
    by (auto simp: spi_slave_tx_pending_def)
qed

theorem spi_exchange_witness:
  "\<exists>t' s''. spi_request (demo_platform True) [9, 9, 9] (spi_reset, fw_reset (demo_platform True) stub_reset) = (t', s'')
     \<and> length (snd (spi_clock_out 20 t')) = 20 \<and> spi_wf (fst (spi_clock_out 20 t'))"
proof -
  let ?P = "demo_platform True" and ?s = "fw_reset (demo_platform True) stub_reset"
  obtain s' reply where b: "protocol_build_reply ?P (take CC3501E_FRAME_MAX_BYTES [9, 9, 9])
      CC3501E_FRAME_MAX_BYTES ?s = (s', reply)" by fastforce
  obtain t' s'' where r: "spi_request ?P [9, 9, 9] (spi_reset, ?s) = (t', s'')" by fastforce
  from spi_exchange [OF spi_wf_reset _ b r, of 20] r show ?thesis by simp
qed

text \<open>
  The block path of the DMA transport (\<open>spi_slave_tx_take\<close>) and the byte path of the
  interrupt-driven one (\<open>spi_slave_tx_next_byte\<close>) are interchangeable: taking a block of \<open>n\<close>
  leaves the slave in the state that clocking \<open>n\<close> single bytes would, and delivers the same bytes
  up to the filler.
\<close>

theorem spi_take_clock_equivalence:
  assumes "spi_wf t" and "spi_slave_tx_take n t = (t', got)"
  shows "spi_clock_out n t = (t', got @ replicate (n - length got) 0xFF)"
proof -
  note l = length_spi_pending [OF assms(1)]
  have "take (min (spi_tx_len t - spi_tx_cursor t) n) (drop (spi_tx_cursor t) (spi_tx_buf t)) = take n (spi_pending t)"
    by (simp add: spi_pending_def drop_take min.commute)
  then have "t' = t\<lparr>spi_tx_cursor := spi_tx_cursor t + length (take n (spi_pending t))\<rparr>" "got = take n (spi_pending t)"
    using assms(2) l by (auto simp: spi_slave_tx_take_def Let_def split: if_splits)
  then show ?thesis using spi_clock_out_spec [OF assms(1), of n] by (simp add: min_def)
qed

theorem spi_take_clock_equivalence_witness:
  "\<exists>t' got. spi_slave_tx_take 4 spi_reset = (t', got) \<and> spi_clock_out 4 spi_reset = (t', replicate 4 0xFF)"
proof -
  obtain t' got where g: "spi_slave_tx_take 4 spi_reset = (t', got)" by fastforce
  then have "got = []" by (simp add: spi_slave_tx_take_def spi_reset_def)
  with g spi_take_clock_equivalence [OF spi_wf_reset g] show ?thesis by simp
qed

section \<open>The SDIO mailbox\<close>

lemma sdio_request_spec:
  assumes "length (sdio_reply_buf t) = CC3501E_FRAME_MAX_BYTES"
    and "protocol_build_reply P frame CC3501E_FRAME_MAX_BYTES s = (s', reply)"
    and "sdio_slave_on_request P frame t s = (t', s'')"
  shows "s'' = s' \<and> unat (sdio_slave_reply_len t') = length reply
    \<and> take (unat (sdio_slave_reply_len t')) (sdio_slave_reply t') = reply
    \<and> length (sdio_slave_reply t') = CC3501E_FRAME_MAX_BYTES"
proof -
  have b: "length reply \<le> CC3501E_FRAME_MAX_BYTES"
    using build_reply_length [OF frame_max_16, of P frame s] by (simp add: assms(2))
  have "CC3501E_FRAME_MAX_BYTES < 2 ^ 16"
    by (simp add: CC3501E_FRAME_MAX_BYTES_def HEADER_BYTES_def MAX_PAYLOAD_def)
  with b have "unat (word_of_nat (length reply) :: u16) = length reply" by (intro unat_word16) simp
  with b show ?thesis
    using assms by (auto simp: sdio_slave_on_request_def sdio_slave_reply_def sdio_slave_reply_len_def)
qed

text \<open>
  The two transports agree.  For the same request in the same state the SDIO mailbox holds
  exactly the bytes an SPI host would clock out, its 16-bit length register gives their number
  without truncation, and the firmware is left in the same state.
\<close>

theorem sdio_agrees_with_spi:
  assumes "spi_wf t" and "length (sdio_reply_buf m) = CC3501E_FRAME_MAX_BYTES"
    and "frame \<noteq> []" and "length frame \<le> CC3501E_FRAME_MAX_BYTES"
    and "spi_request P frame (t, s) = (t', s1)" and "sdio_slave_on_request P frame m s = (m', s2)"
  shows "s1 = s2 \<and> snd (spi_clock_out (unat (sdio_slave_reply_len m')) t')
      = take (unat (sdio_slave_reply_len m')) (sdio_slave_reply m')
    \<and> \<not> spi_slave_tx_pending (fst (spi_clock_out (unat (sdio_slave_reply_len m')) t'))"
proof -
  obtain s' reply where b: "protocol_build_reply P frame CC3501E_FRAME_MAX_BYTES s = (s', reply)" by fastforce
  have tk: "protocol_build_reply P (take CC3501E_FRAME_MAX_BYTES frame) CC3501E_FRAME_MAX_BYTES s = (s', reply)"
    using b assms(4) by simp
  note r = spi_request_spec [OF assms(1,3) tk assms(5)]
  then have wf: "spi_wf t'" and pend: "spi_pending t' = reply" by blast+
  note m = sdio_request_spec [OF assms(2) b assms(6)]
  then have tk': "take (length reply) (sdio_slave_reply m') = reply" by metis
  from m r spi_clock_out_spec [OF wf, of "length reply"]
  show ?thesis by (simp add: spi_slave_tx_pending_def pend tk')
qed

theorem sdio_agrees_with_spi_witness:
  "\<exists>t' s1 m'. spi_request (demo_platform True) [9] (spi_reset, fw_reset (demo_platform True) stub_reset) = (t', s1)
     \<and> sdio_slave_on_request (demo_platform True) [9]
         \<lparr>sdio_reply_buf = replicate CC3501E_FRAME_MAX_BYTES 0, sdio_reply_len = 0\<rparr>
         (fw_reset (demo_platform True) stub_reset) = (m', s1)"
proof -
  let ?P = "demo_platform True" and ?s = "fw_reset (demo_platform True) stub_reset"
  let ?m = "\<lparr>sdio_reply_buf = replicate CC3501E_FRAME_MAX_BYTES 0, sdio_reply_len = 0\<rparr>"
  obtain t' s1 where r: "spi_request ?P [9] (spi_reset, ?s) = (t', s1)" by fastforce
  obtain m' s2 where m: "sdio_slave_on_request ?P [9] ?m ?s = (m', s2)" by fastforce
  have "length [9 :: byte] \<le> CC3501E_FRAME_MAX_BYTES"
    by (simp add: CC3501E_FRAME_MAX_BYTES_def HEADER_BYTES_def)
  from sdio_agrees_with_spi [OF spi_wf_reset _ _ this r m] r m show ?thesis by simp
qed

end
