(* ===== verification/Board.thy ===== *)
theory Board
  imports Dispatch Hal_Stub
begin

text \<open>
  Requests with a structured payload and requests served in the interrupt: the grammar of the GATT
  table descriptor of \<^verbatim>\<open>src/protocol_ble.c\<close>, and the GPIO proxy of \<^verbatim>\<open>src/protocol_gpio.c\<close> on the
  stub's level table.
\<close>

section \<open>GATT table descriptors\<close>

text \<open>
  The documented layout: version, service UUID, number of characteristics, then for each
  characteristic its UUID, its property byte and its length-prefixed initial value.
\<close>

record gatt_char =
  gatt_uuid :: "byte list"
  gatt_props :: byte
  gatt_value :: "byte list"

definition gatt_char_ok :: "gatt_char \<Rightarrow> bool" where
  "gatt_char_ok c \<longleftrightarrow> length (gatt_uuid c) = 16 \<and> length (gatt_value c) < 2 ^ 16"

definition gatt_char_bytes :: "gatt_char \<Rightarrow> byte list" where
  "gatt_char_bytes c = gatt_uuid c @ [gatt_props c] @ put_le16 (word_of_nat (length (gatt_value c))) @ gatt_value c"

definition gatt_table_bytes :: "'h platform \<Rightarrow> byte list \<Rightarrow> gatt_char list \<Rightarrow> byte list" where
  "gatt_table_bytes P uuid cs =
     [BLE_GATT_REGISTER_VERSION P] @ uuid @ [word_of_nat (length cs)] @ concat (map gatt_char_bytes cs)"

lemma gatt_char_parse:
  assumes "19 + unat (get_le16 xs 17) \<le> length xs"
  shows "\<exists>c. gatt_char_ok c \<and> xs = gatt_char_bytes c @ drop (19 + unat (get_le16 xs 17)) xs
    \<and> length (gatt_char_bytes c) = 19 + unat (get_le16 xs 17)"
proof -
  let ?n = "unat (get_le16 xs 17)"
  let ?c = "\<lparr>gatt_uuid = take 16 xs, gatt_props = xs ! 16, gatt_value = take ?n (drop 19 xs)\<rparr>"
  have l: "length (take ?n (drop 19 xs)) = ?n" using assms by simp
  have g: "get_le16 (take 2 (drop 17 xs)) 0 = get_le16 xs 17" using assms by (simp add: get_le16_def)
  have p: "put_le16 (word_of_nat ?n) = take 2 (drop 17 xs)"
    using put_get_le16 [of "take 2 (drop 17 xs)"] assms by (simp add: g)
  have "xs = take 16 xs @ drop 16 xs" by simp
  also have "drop 16 xs = xs ! 16 # drop 17 xs" using assms by (simp add: Cons_nth_drop_Suc [symmetric])
  also have "drop 17 xs = take 2 (drop 17 xs) @ drop 19 xs"
    using append_take_drop_id [of 2 "drop 17 xs"] by simp
  also have "drop 19 xs = take ?n (drop 19 xs) @ drop (19 + ?n) xs"
    using append_take_drop_id [of ?n "drop 19 xs"] by (simp add: add.commute)
  finally have "xs = gatt_char_bytes ?c @ drop (19 + ?n) xs"
    unfolding gatt_char_bytes_def using l p by simp
  moreover have "gatt_char_ok ?c"
    using assms unsigned_less [of "get_le16 xs 17"] by (simp add: gatt_char_ok_def)
  moreover have "length (gatt_char_bytes ?c) = 19 + ?n"
    using assms l by (simp add: gatt_char_bytes_def)
  ultimately show ?thesis by blast
qed

lemma gatt_char_header:
  assumes "gatt_char_ok c"
  shows "length (gatt_char_bytes c) = 19 + length (gatt_value c)"
    and "unat (get_le16 (gatt_char_bytes c @ ys) 17) = length (gatt_value c)"
proof -
  show "length (gatt_char_bytes c) = 19 + length (gatt_value c)"
    using assms by (simp add: gatt_char_bytes_def gatt_char_ok_def)
  have "get_le16 (gatt_char_bytes c @ ys) (length (gatt_uuid c @ [gatt_props c]) + 0)
      = word_of_nat (length (gatt_value c))"
    using get_put_le16 [of "word_of_nat (length (gatt_value c))" "gatt_value c @ ys"]
      get_le16_append [of "gatt_uuid c @ [gatt_props c]" _ 0]
    by (simp add: gatt_char_bytes_def)
  with assms show "unat (get_le16 (gatt_char_bytes c @ ys) 17) = length (gatt_value c)"
    by (simp add: gatt_char_ok_def unat_of_nat)
qed

lemma get_le16_shift: "i + 1 < length (drop pos xs) \<Longrightarrow> get_le16 xs (pos + i) = get_le16 (drop pos xs) i"
  by (simp add: get_le16_def add.assoc)

lemma gatt_walk_iff:
  assumes "pos \<le> length rq"
  shows "gatt_walk k rq pos = Some (length rq) \<longleftrightarrow>
    (\<exists>cs. length cs = k \<and> list_all gatt_char_ok cs \<and> drop pos rq = concat (map gatt_char_bytes cs))"
  using assms
proof (induction k arbitrary: pos)
  case 0
  then show ?case by auto
next
  case (Suc k)
  define xs where "xs = drop pos rq"
  have len: "length rq = pos + length xs" using Suc.prems by (simp add: xs_def)
  show ?case
  proof
    assume w: "gatt_walk (Suc k) rq pos = Some (length rq)"
    let ?n = "unat (get_le16 rq (pos + 17))"
    have l: "19 \<le> length xs" using w len by (simp split: if_splits)
    have sh: "get_le16 rq (pos + 17) = get_le16 xs 17"
      using l get_le16_shift [of 17 pos rq] by (simp add: xs_def)
    have b: "19 + ?n \<le> length xs" and rest: "gatt_walk k rq (pos + (19 + ?n)) = Some (length rq)"
      using w len by (simp_all add: Let_def split: if_splits)
    from gatt_char_parse [of xs] b sh obtain c where
      c: "gatt_char_ok c" "xs = gatt_char_bytes c @ drop (19 + ?n) xs" by auto
    have "drop (pos + (19 + ?n)) rq = drop (19 + ?n) xs" by (simp add: xs_def add.commute)
    with Suc.IH [of "pos + (19 + ?n)"] rest b len obtain cs where
      "length cs = k" "list_all gatt_char_ok cs" "drop (19 + ?n) xs = concat (map gatt_char_bytes cs)" by auto
    with c show "\<exists>cs. length cs = Suc k \<and> list_all gatt_char_ok cs \<and> drop pos rq = concat (map gatt_char_bytes cs)"
      unfolding xs_def [symmetric] by (intro exI [of _ "c # cs"]) simp
  next
    assume "\<exists>cs. length cs = Suc k \<and> list_all gatt_char_ok cs \<and> drop pos rq = concat (map gatt_char_bytes cs)"
    then obtain c cs where cs: "length cs = k" "gatt_char_ok c" "list_all gatt_char_ok cs"
      "xs = gatt_char_bytes c @ concat (map gatt_char_bytes cs)"
      unfolding xs_def [symmetric] by (auto simp: length_Suc_conv)
    let ?n = "length (gatt_value c)"
    note h = gatt_char_header [OF cs(2)]
    have l: "19 + ?n \<le> length xs" using cs(4) h(1) by simp
    have sh: "unat (get_le16 rq (pos + 17)) = ?n"
      using h(2) [of "concat (map gatt_char_bytes cs)"] l get_le16_shift [of 17 pos rq]
      by (simp add: cs(4) [symmetric] xs_def [symmetric])
    have d: "drop (pos + (19 + ?n)) rq = concat (map gatt_char_bytes cs)"
      using arg_cong [OF cs(4), of "drop (19 + ?n)"] h(1) by (simp add: xs_def add.commute)
    have "gatt_walk k rq (pos + (19 + ?n)) = Some (length rq)"
      using Suc.IH [of "pos + (19 + ?n)"] l len cs(1,3) d by auto
    then show "gatt_walk (Suc k) rq pos = Some (length rq)"
      using l len by (simp add: sh Let_def)
  qed
qed

text \<open>
  C29: The GATT descriptor check accepts exactly the well-formed tables.  A \<open>GATT_REGISTER\<close> payload
  passes, with \<open>n\<close> characteristics, if and only if it is the documented encoding of a service UUID
  and \<open>n\<close> characteristics, 1 to 8 of them, each value's 16-bit length prefix being its length: no
  truncated, padded or overlong payload reaches the driver.
\<close>

theorem gatt_register_grammar:
  "ble_gatt_register_validate P rq = Some n \<longleftrightarrow>
   (\<exists>uuid cs. length uuid = 16 \<and> cs \<noteq> [] \<and> length cs \<le> BLE_GATT_MAX_CHARS \<and> list_all gatt_char_ok cs
      \<and> n = word_of_nat (length cs) \<and> rq = gatt_table_bytes P uuid cs)"
proof
  assume v: "ble_gatt_register_validate P rq = Some n"
  have f: "18 \<le> length rq" "rq ! 0 = BLE_GATT_REGISTER_VERSION P" "n = rq ! 17" "n \<noteq> 0"
    "unat n \<le> BLE_GATT_MAX_CHARS" "gatt_walk (unat n) rq 18 = Some (length rq)"
    using v by (simp_all add: ble_gatt_register_validate_def Let_def BLE_GATT_REG_HDR_def split: if_splits)
  then obtain cs where cs: "length cs = unat n" "list_all gatt_char_ok cs"
    "drop 18 rq = concat (map gatt_char_bytes cs)"
    using gatt_walk_iff [of 18 rq "unat n"] by auto
  have "rq = rq ! 0 # drop 1 rq" using f(1) by (cases rq) auto
  also have "drop 1 rq = take 16 (drop 1 rq) @ drop 17 rq"
    using append_take_drop_id [of 16 "drop 1 rq"] by simp
  also have "drop 17 rq = rq ! 17 # drop 18 rq" using f(1) by (simp add: Cons_nth_drop_Suc [symmetric])
  finally have "rq = gatt_table_bytes P (take 16 (drop 1 rq)) cs"
    using f(2,3) cs(1,3) by (simp add: gatt_table_bytes_def)
  moreover have "length (take 16 (drop 1 rq)) = 16" "cs \<noteq> []" "n = word_of_nat (length cs)"
    using f(1,4) cs(1) by (auto simp: unat_eq_0)
  ultimately show "\<exists>uuid cs. length uuid = 16 \<and> cs \<noteq> [] \<and> length cs \<le> BLE_GATT_MAX_CHARS
      \<and> list_all gatt_char_ok cs \<and> n = word_of_nat (length cs) \<and> rq = gatt_table_bytes P uuid cs"
    using cs f(5) by metis
next
  assume "\<exists>uuid cs. length uuid = 16 \<and> cs \<noteq> [] \<and> length cs \<le> BLE_GATT_MAX_CHARS
      \<and> list_all gatt_char_ok cs \<and> n = word_of_nat (length cs) \<and> rq = gatt_table_bytes P uuid cs"
  then obtain uuid cs where a: "length uuid = 16" "cs \<noteq> []" "length cs \<le> 8" "list_all gatt_char_ok cs"
    "n = word_of_nat (length cs)" "rq = gatt_table_bytes P uuid cs" by (auto simp: BLE_GATT_MAX_CHARS_def)
  have u: "unat n = length cs" using a(3,5) by (simp add: unat_of_nat)
  have r: "18 \<le> length rq" "rq ! 0 = BLE_GATT_REGISTER_VERSION P" "rq ! 17 = n"
    "drop 18 rq = concat (map gatt_char_bytes cs)"
    using a(1,5) by (simp_all add: a(6) gatt_table_bytes_def nth_append)
  have "n \<noteq> 0" using u a(2) by auto
  moreover have "gatt_walk (unat n) rq 18 = Some (length rq)"
    using gatt_walk_iff [OF r(1), of "unat n"] u a(4) r(4) by auto
  ultimately show "ble_gatt_register_validate P rq = Some n"
    using r u a(3) by (simp add: ble_gatt_register_validate_def Let_def BLE_GATT_REG_HDR_def BLE_GATT_MAX_CHARS_def)
qed

section \<open>GPIO on the stub\<close>

lemma gpio_dispatch:
  assumes "hdr_ok P"
  shows "protocol_dispatch P (cmd_val P CMD_GPIO_WRITE) fl rq cap s =
      handle_gpio_write P rq cap (s\<lparr>s_current_req_seq := req_seq_of_flags fl\<rparr>)"
    and "protocol_dispatch P (cmd_val P CMD_GPIO_READ) fl rq cap s =
      handle_gpio_read P rq cap (s\<lparr>s_current_req_seq := req_seq_of_flags fl\<rparr>)"
  using assms
  by (simp_all add: protocol_dispatch_def Let_def handler_of_def radio_cmds_def system_handler_def)

lemma stub_io_sel: "hw_gpio_write stub_io = stub_gpio_write" "hw_gpio_read stub_io = stub_gpio_read"
  by (simp_all add: stub_io_def)

lemma stub_write_handler:
  fixes s :: "stub_hw fw" and K w v
  assumes "gpio_write_of H rq = (pad, level)" and "length rq = SIZEOF_gpio_write"
  defines "P \<equiv> stub_platform H K w v"
  shows "handle_gpio_write P rq cap s =
    (if unat pad < STUB_GPIO_MAX
     then (s\<lparr>hw := (hw s)\<lparr>stub_gpio_level := (stub_gpio_level (hw s))[unat pad := if level \<noteq> 0 then 1 else 0]\<rparr>\<rparr>,
           RESP_OK, [])
     else (s, RESP_ERR_INVALID, []))"
  using assms
  by (simp add: handle_gpio_write_def hw_forward_def hw_call_def stub_io_sel stub_gpio_write_def
      hw_to_resp_def hw_rc_defs not_less)

lemma stub_read_handler:
  fixes s :: "stub_hw fw"
  assumes "1 \<le> cap"
  shows "handle_gpio_read (stub_platform H K w v) [pad] cap s =
    (if unat pad < STUB_GPIO_MAX then (s, RESP_OK, [stub_gpio_level (hw s) ! unat pad])
     else (s, RESP_ERR_INVALID, []))"
  using assms
  by (simp add: handle_gpio_read_def hw_call_def stub_io_sel stub_gpio_read_def hw_to_resp_def
      hw_rc_defs not_less)

text \<open>
  A GPIO level written through the bridge is the level read back.  On the stub backend, after a
  well-formed write to one of its 32 pads, a read of that pad returns the written level as 0 or 1
  and a read of any other pad returns what it returned before; pads from 32 up are refused with
  \<open>ERR_INVALID\<close> on both paths and change nothing.
\<close>

theorem gpio_write_read_roundtrip:
  fixes s :: "stub_hw fw" and H :: wire_hdr and K w v
  assumes "hdr_ok H" and "length (stub_gpio_level (hw s)) = STUB_GPIO_MAX" and "1 \<le> cap"
    and "gpio_write_of H rq = (pad, level)" and "length rq = SIZEOF_gpio_write"
  defines "P \<equiv> stub_platform H K w v"
  assumes "protocol_dispatch P (cmd_val P CMD_GPIO_WRITE) fl rq cap s = (s1, st, dat)"
  shows "snd (protocol_dispatch P (cmd_val P CMD_GPIO_READ) fl [q] cap s1) =
      (if STUB_GPIO_MAX \<le> unat q then (RESP_ERR_INVALID, [])
       else if q = pad then (RESP_OK, [if level \<noteq> 0 then 1 else 0])
       else (RESP_OK, [stub_gpio_level (hw s) ! unat q]))
    \<and> st = (if unat pad < STUB_GPIO_MAX then RESP_OK else RESP_ERR_INVALID) \<and> dat = []
    \<and> (STUB_GPIO_MAX \<le> unat pad \<longrightarrow> hw s1 = hw s)"
proof -
  have ok: "hdr_ok P" using assms(1) by (simp add: P_def hdr_ok_stub)
  note d = gpio_dispatch [OF ok]
  have u: "unat pad = unat q \<longleftrightarrow> q = pad" by (auto simp: word_unat_eq_iff)
  let ?s = "s\<lparr>s_current_req_seq := req_seq_of_flags fl\<rparr>"
  let ?lv = "(stub_gpio_level (hw s))[unat pad := if level \<noteq> 0 then 1 else 0]"
  have wr: "(s1, st, dat) = (if unat pad < STUB_GPIO_MAX
      then (?s\<lparr>hw := (hw s)\<lparr>stub_gpio_level := ?lv\<rparr>\<rparr>, RESP_OK, []) else (?s, RESP_ERR_INVALID, []))"
    using assms(7) unfolding d unfolding P_def stub_write_handler [OF assms(4,5)]
    by (cases "unat pad < STUB_GPIO_MAX") simp_all
  have rd: "snd (protocol_dispatch P (cmd_val P CMD_GPIO_READ) fl [q] cap s1) =
      (if unat q < STUB_GPIO_MAX then (RESP_OK, [stub_gpio_level (hw s1) ! unat q]) else (RESP_ERR_INVALID, []))"
    unfolding d unfolding P_def stub_read_handler [OF assms(3)] by simp
  show ?thesis
    using wr assms(2) unfolding rd
    by (cases "unat pad < STUB_GPIO_MAX"; cases "unat q < STUB_GPIO_MAX"; cases "q = pad")
       (simp_all add: nth_list_update u)
qed

theorem gpio_write_read_roundtrip_witness:
  "\<exists>s1. protocol_dispatch (demo_platform True) 0x51 0 [5, 1, 0, 0] 8 (fw_reset (demo_platform True) stub_reset)
       = (s1, RESP_OK, [])
     \<and> snd (protocol_dispatch (demo_platform True) 0x52 0 [5] 8 s1) = (RESP_OK, [1])
     \<and> snd (protocol_dispatch (demo_platform True) 0x52 0 [6] 8 s1) = (RESP_OK, [0])"
proof -
  let ?s = "fw_reset (demo_platform True) stub_reset" and ?P = "stub_platform demo_hdr demo_consts True 0x0200"
  have l: "length (stub_gpio_level (hw ?s)) = STUB_GPIO_MAX" "stub_gpio_level (hw ?s) ! 6 = 0"
    by (simp_all add: fw_reset_def stub_reset_def STUB_GPIO_MAX_def)
  have c: "cmd_val ?P CMD_GPIO_WRITE = 0x51" "cmd_val ?P CMD_GPIO_READ = 0x52"
    by (simp_all add: demo_hdr_def)
  have w: "gpio_write_of demo_hdr [5, 1, 0, 0] = (5, 1)" "length [5, 1, 0, 0 :: byte] = SIZEOF_gpio_write"
    by (simp_all add: demo_hdr_def SIZEOF_gpio_write_def)
  obtain s1 st dat where d: "protocol_dispatch ?P (cmd_val ?P CMD_GPIO_WRITE) 0 [5, 1, 0, 0] 8 ?s = (s1, st, dat)"
    by (metis prod_cases3)
  note rt = gpio_write_read_roundtrip [OF demo_hdr_ok l(1) _ w d]
  from rt [of 5] rt [of 6] l(2) d show ?thesis
    unfolding demo_platform_def [symmetric] c [unfolded demo_platform_def [symmetric]]
    by (auto simp: STUB_GPIO_MAX_def)
qed

end
