(* ===== verification/Ti_Ota.thy ===== *)
theory Ti_Ota
  imports Hal
begin

text \<open>
  The over-the-bridge firmware update of \<^verbatim>\<open>hal/ti/cc3501e_hw_ti_ota.c\<close>: the session state, the
  entry points the dispatcher calls (which only queue and copy), and the pump that runs the flash
  work on the task.  The PSA firmware-update service, the transport and the clock are not part of
  this file's sources; they are the fields of a record \<open>ota_env\<close> over an environment state \<open>'e\<close>.
\<close>

section \<open>The environment\<close>

datatype vendor_slot = Vendor_Image_Slot_1 | Vendor_Image_Slot_2

datatype fwu_state = PSA_FWU_READY | PSA_FWU_WRITING | PSA_FWU_CANDIDATE | PSA_FWU_STAGED
  | PSA_FWU_TRIAL | PSA_FWU_FAILED | PSA_FWU_UPDATED | PSA_FWU_OTHER

record 'e ota_env =
  TI_FWU_MANIFEST_SIZE :: u32
  OTA_CHUNK_MAX :: u32
  PSA_SUCCESS :: int
  PSA_SUCCESS_REBOOT :: int
  PSA_ERROR_GENERIC_ERROR :: int
  psa_fwu_init :: "'e \<Rightarrow> 'e"
  psa_fwu_query :: "vendor_slot \<Rightarrow> 'e \<Rightarrow> 'e \<times> int \<times> bool \<times> fwu_state"
  psa_fwu_start :: "vendor_slot \<Rightarrow> byte list \<Rightarrow> 'e \<Rightarrow> 'e \<times> int"
  psa_fwu_write :: "vendor_slot \<Rightarrow> u32 \<Rightarrow> byte list \<Rightarrow> 'e \<Rightarrow> 'e \<times> int"
  psa_fwu_finish :: "vendor_slot \<Rightarrow> 'e \<Rightarrow> 'e \<times> int"
  psa_fwu_install :: "'e \<Rightarrow> 'e \<times> int"
  psa_fwu_reject :: "int \<Rightarrow> 'e \<Rightarrow> 'e"
  psa_fwu_cancel :: "vendor_slot \<Rightarrow> 'e \<Rightarrow> 'e"
  psa_fwu_clean :: "vendor_slot \<Rightarrow> 'e \<Rightarrow> 'e"
  psa_fwu_request_reboot :: "'e \<Rightarrow> 'e \<times> int"
  env_bridge_busy :: "'e \<Rightarrow> 'e"
  env_bridge_ready :: "'e \<Rightarrow> 'e"
  env_spi_polled :: "'e \<Rightarrow> bool"
  env_spi_quiesce :: "bool \<Rightarrow> 'e \<Rightarrow> 'e"
  env_spi_release :: "'e \<Rightarrow> 'e"
  env_spi_reinit :: "'e \<Rightarrow> 'e"
  env_clear_polled_boot :: "'e \<Rightarrow> 'e"
  env_usleep :: "u32 \<Rightarrow> 'e \<Rightarrow> 'e"

section \<open>The session\<close>

datatype ota_state = OTA_STATE_IDLE | OTA_STATE_WRITING | OTA_STATE_STAGED | OTA_STATE_ERROR

datatype ota_opcode = OTA_OP_IDLE | OTA_OP_BEGIN | OTA_OP_FINISH | OTA_OP_FLUSH

datatype ota_pending = OTA_PENDING_NONE_V | OTA_PENDING_CANDIDATE | OTA_PENDING_STAGED
  | OTA_PENDING_TRIAL | OTA_PENDING_FAILED | OTA_PENDING_UNKNOWN

definition CC3501E_OTA_IMAGE_MAX :: u32 where "CC3501E_OTA_IMAGE_MAX = 2 * 1024 * 1024"
definition CC3501E_OTA_FINISH_FLASH_BLOCK :: u32 where "CC3501E_OTA_FINISH_FLASH_BLOCK = 4096"
definition CC3501E_OTA_WINDOW :: u32 where "CC3501E_OTA_WINDOW = 4 * CC3501E_OTA_FINISH_FLASH_BLOCK"
definition OTA_OP_INFLIGHT :: int where "OTA_OP_INFLIGHT = 2"

record 'e ti_ota =
  ota_st :: ota_state
  ota_target :: vendor_slot
  total_len :: u32
  cursor :: u32
  ota_op :: ota_opcode
  op_rc :: int
  op_total :: u32
  fail_stage :: byte
  fail_psa :: byte
  window_base :: u32
  window_used :: u32
  flushed :: u32
  started :: bool
  window :: "byte list"
  ota_pending_primed :: bool
  ota_pending_cached :: ota_pending
  reply_drained :: bool
  ota_reboot_pending :: bool
  ota_reboot_rc :: int
  env :: 'e

definition ota_reset :: "'e \<Rightarrow> 'e ti_ota" where
  "ota_reset e = \<lparr>ota_st = OTA_STATE_IDLE, ota_target = Vendor_Image_Slot_1, total_len = 0, cursor = 0,
     ota_op = OTA_OP_IDLE, op_rc = 0, op_total = 0, fail_stage = 0, fail_psa = 0, window_base = 0,
     window_used = 0, flushed = 0, started = False, window = replicate (unat CC3501E_OTA_WINDOW) 0,
     ota_pending_primed = False, ota_pending_cached = OTA_PENDING_UNKNOWN, reply_drained = False,
     ota_reboot_pending = False, ota_reboot_rc = 0, env = e\<rparr>"

text \<open>Calling into the environment.\<close>

definition env_do :: "('e \<Rightarrow> 'e) \<Rightarrow> 'e ti_ota \<Rightarrow> 'e ti_ota" where
  "env_do f o1 = o1\<lparr>env := f (env o1)\<rparr>"

definition env_call :: "('e \<Rightarrow> 'e \<times> 'a) \<Rightarrow> 'e ti_ota \<Rightarrow> 'e ti_ota \<times> 'a" where
  "env_call f o1 = (case f (env o1) of (e, x) \<Rightarrow> (o1\<lparr>env := e\<rparr>, x))"

section \<open>The deferred operations\<close>

definition ota_submit :: "ota_opcode \<Rightarrow> 'e ti_ota \<Rightarrow> 'e ti_ota \<times> int" where
  "ota_submit q o1 =
     (if op_rc o1 = OTA_OP_INFLIGHT then (o1, CC3501E_HW_BUSY)
      else (o1\<lparr>ota_op := q, op_rc := OTA_OP_INFLIGHT\<rparr>, CC3501E_HW_BUSY))"

text \<open>The slot that is not the primary one; both are walked back when that is ambiguous.\<close>

definition ota_pick_target :: "'e ota_env \<Rightarrow> 'e ti_ota \<Rightarrow> 'e ti_ota \<times> vendor_slot option" where
  "ota_pick_target E o1 =
     (case env_call (psa_fwu_query E Vendor_Image_Slot_1) o1 of (o2, q1, prim1, st1) \<Rightarrow>
      if q1 \<noteq> PSA_SUCCESS E then (o2, None)
      else case env_call (psa_fwu_query E Vendor_Image_Slot_2) o2 of (o3, q2, prim2, st2) \<Rightarrow>
      if q2 \<noteq> PSA_SUCCESS E then (o3, None)
      else if prim1 \<and> \<not> prim2 then (o3, Some Vendor_Image_Slot_2)
      else if prim2 \<and> \<not> prim1 then (o3, Some Vendor_Image_Slot_1)
      else let o4 = env_do (psa_fwu_reject E (PSA_ERROR_GENERIC_ERROR E)) o3;
               o5 = env_do (psa_fwu_clean E Vendor_Image_Slot_1)
                      (env_do (psa_fwu_cancel E Vendor_Image_Slot_1) o4);
               o6 = env_do (psa_fwu_clean E Vendor_Image_Slot_2)
                      (env_do (psa_fwu_cancel E Vendor_Image_Slot_2) o5)
           in case env_call (psa_fwu_query E Vendor_Image_Slot_2) o6 of (o7, q3, prim3, st3) \<Rightarrow>
                (o7, Some (if q3 = PSA_SUCCESS E \<and> prim3 then Vendor_Image_Slot_1
                           else Vendor_Image_Slot_2)))"

definition ota_walk_back :: "'e ota_env \<Rightarrow> vendor_slot \<Rightarrow> fwu_state \<Rightarrow> 'e ti_ota \<Rightarrow> 'e ti_ota" where
  "ota_walk_back E t st o1 =
     (if st = PSA_FWU_READY then o1
      else if st = PSA_FWU_WRITING \<or> st = PSA_FWU_CANDIDATE
      then env_do (psa_fwu_clean E t) (env_do (psa_fwu_cancel E t) o1)
      else if st = PSA_FWU_STAGED \<or> st = PSA_FWU_TRIAL
      then env_do (psa_fwu_clean E t) (env_do (psa_fwu_reject E (PSA_ERROR_GENERIC_ERROR E)) o1)
      else env_do (psa_fwu_clean E t) o1)"

definition ota_do_begin :: "'e ota_env \<Rightarrow> 'e ti_ota \<Rightarrow> 'e ti_ota \<times> int" where
  "ota_do_begin E o1 =
     (case ota_pick_target E (env_do (psa_fwu_init E) o1) of
        (o2, None) \<Rightarrow> (o2, CC3501E_HW_ERR_IO)
      | (o2, Some t) \<Rightarrow>
          (case env_call (psa_fwu_query E t) o2 of (o3, q, prim, st) \<Rightarrow>
             if q \<noteq> PSA_SUCCESS E then (o3, CC3501E_HW_ERR_IO)
             else ((ota_walk_back E t st o3)\<lparr>ota_target := t, total_len := op_total o1, cursor := 0,
                      window_base := 0, window_used := 0, flushed := 0, started := False,
                      fail_stage := 0, fail_psa := 0, ota_st := OTA_STATE_WRITING\<rparr>,
                   CC3501E_HW_OK)))"

definition psa_low_byte :: "int \<Rightarrow> byte" where
  "psa_low_byte ps = ucast (word_of_int ps AND (0xFF :: u32))"

text \<open>The block loop of \<open>ota_flush\<close>: at most one flash block per call, the failing status if any.\<close>

function ota_write_blocks ::
    "'e ota_env \<Rightarrow> vendor_slot \<Rightarrow> byte list \<Rightarrow> u32 \<Rightarrow> u32 \<Rightarrow> u32 \<Rightarrow> 'e \<Rightarrow> 'e \<times> int option" where
  "ota_write_blocks E t win base off stop e =
     (if off < stop
      then let n = (if stop - off > CC3501E_OTA_FINISH_FLASH_BLOCK
                    then CC3501E_OTA_FINISH_FLASH_BLOCK else stop - off)
           in case psa_fwu_write E t off (take (unat n) (drop (unat (off - base)) win)) e of
                (e1, pw) \<Rightarrow>
                  if pw \<noteq> PSA_SUCCESS E then (e1, Some pw)
                  else ota_write_blocks E t win base (off + n) stop e1
      else (e, None))"
  by auto

lemma block_step_less:
  fixes off stop n :: u32
  assumes "off < stop" and "n \<le> stop - off" and "n \<noteq> 0"
  shows "unat (stop - (off + n)) < unat (stop - off)"
proof -
  have "unat (stop - (off + n)) = unat (stop - off) - unat n"
    using unat_sub [OF assms(2)] by (simp add: diff_diff_eq)
  moreover have "0 < unat n" using assms(3) by (simp add: unat_gt_0)
  moreover have "unat n \<le> unat (stop - off)" using assms(2) by (simp add: word_le_nat_alt)
  ultimately show ?thesis by linarith
qed

termination ota_write_blocks
proof (relation "measure (\<lambda>(E, t, win, base, off, stop, e). unat (stop - off))")
  fix E :: "'e ota_env" and t :: vendor_slot and win :: "byte list" and base off stop :: u32
    and e e1 :: 'e and n :: u32 and pw x :: int and p
  assume "off < stop" and n: "n = (if stop - off > CC3501E_OTA_FINISH_FLASH_BLOCK
      then CC3501E_OTA_FINISH_FLASH_BLOCK else stop - off)"
  moreover have "n \<le> stop - off" "n \<noteq> 0"
    using \<open>off < stop\<close> by (auto simp: n CC3501E_OTA_FINISH_FLASH_BLOCK_def)
  ultimately have "unat (stop - (off + n)) < unat (stop - off)" by (intro block_step_less)
  then show "((E, t, win, base, off + n, stop, e1), E, t, win, base, off, stop, e)
      \<in> measure (\<lambda>(E, t, win, base, off, stop, e). unat (stop - off))" by simp
qed simp

declare ota_write_blocks.simps [simp del]

definition ota_open_slot :: "'e ota_env \<Rightarrow> 'e ti_ota \<Rightarrow> 'e ti_ota \<times> int" where
  "ota_open_slot E o1 =
     (if started o1 then (o1, CC3501E_HW_OK)
      else if window_used o1 < TI_FWU_MANIFEST_SIZE E then (o1\<lparr>fail_stage := 5\<rparr>, CC3501E_HW_ERR_INVAL)
      else case env_call (psa_fwu_start E (ota_target o1) (take (unat (TI_FWU_MANIFEST_SIZE E)) (window o1))) o1 of
        (o2, ps) \<Rightarrow>
          if ps \<noteq> PSA_SUCCESS E
          then (o2\<lparr>fail_stage := 1, fail_psa := psa_low_byte ps\<rparr>, CC3501E_HW_ERR_IO)
          else (o2\<lparr>started := True, flushed := TI_FWU_MANIFEST_SIZE E\<rparr>, CC3501E_HW_OK))"

definition ota_ready_bytes :: "bool \<Rightarrow> 'e ti_ota \<Rightarrow> u32" where
  "ota_ready_bytes final o1 =
     (let end_off = window_base o1 + window_used o1;
          n_ready = (if end_off > flushed o1 then end_off - flushed o1 else 0);
          whole = n_ready AND NOT (CC3501E_OTA_FINISH_FLASH_BLOCK - 1)
      in if final then n_ready
         else if whole = 0 \<and> window_used o1 \<ge> CC3501E_OTA_WINDOW then n_ready else whole)"

definition ota_flush :: "'e ota_env \<Rightarrow> bool \<Rightarrow> 'e ti_ota \<Rightarrow> 'e ti_ota \<times> int" where
  "ota_flush E final o0 =
     (case ota_open_slot E o0 of (o1, rc) \<Rightarrow>
        if rc \<noteq> CC3501E_HW_OK then (o1, rc)
        else let end_off = window_base o1 + window_used o1; n_ready = ota_ready_bytes final o1
             in if n_ready = 0 then (o1, CC3501E_HW_OK)
                else let stop = flushed o1 + n_ready; base = window_base o1
                     in case env_call (ota_write_blocks E (ota_target o1) (window o1) base (flushed o1) stop) o1 of
                          (o2, Some pw) \<Rightarrow>
                            (o2\<lparr>fail_stage := 2, fail_psa := psa_low_byte pw\<rparr>, CC3501E_HW_ERR_IO)
                        | (o2, None) \<Rightarrow>
                            let keep = end_off - stop;
                                kept = take (unat keep) (drop (unat (stop - base)) (window o2))
                            in (o2\<lparr>flushed := stop,
                                  window := (if keep \<noteq> 0 then blit (window o2) kept else window o2),
                                  window_base := stop, window_used := keep\<rparr>, CC3501E_HW_OK))"

definition ota_do_finish :: "'e ota_env \<Rightarrow> 'e ti_ota \<Rightarrow> 'e ti_ota \<times> int" where
  "ota_do_finish E o1 =
     (if cursor o1 \<noteq> total_len o1 \<or> total_len o1 \<le> TI_FWU_MANIFEST_SIZE E then (o1, CC3501E_HW_ERR_INVAL)
      else case ota_flush E True o1 of (o2, fr) \<Rightarrow>
        if fr \<noteq> CC3501E_HW_OK then (o2, fr)
        else if flushed o2 \<noteq> total_len o2 then (o2, CC3501E_HW_ERR_IO)
        else case env_call (psa_fwu_finish E (ota_target o2)) o2 of (o3, pf) \<Rightarrow>
          if pf \<noteq> PSA_SUCCESS E \<and> pf \<noteq> PSA_SUCCESS_REBOOT E
          then (o3\<lparr>fail_stage := 3, fail_psa := psa_low_byte pf\<rparr>, CC3501E_HW_ERR_IO)
          else case env_call (psa_fwu_install E) o3 of (o4, pi) \<Rightarrow>
            if pi \<noteq> PSA_SUCCESS E \<and> pi \<noteq> PSA_SUCCESS_REBOOT E
            then (o4\<lparr>fail_stage := 4, fail_psa := psa_low_byte pi\<rparr>, CC3501E_HW_ERR_IO)
            else (o4\<lparr>ota_st := OTA_STATE_STAGED\<rparr>, CC3501E_HW_OK))"

section \<open>The pump\<close>

definition ota_pending_from_psa :: "fwu_state \<Rightarrow> ota_pending" where
  "ota_pending_from_psa st =
     (case st of PSA_FWU_READY \<Rightarrow> OTA_PENDING_NONE_V | PSA_FWU_UPDATED \<Rightarrow> OTA_PENDING_NONE_V
      | PSA_FWU_CANDIDATE \<Rightarrow> OTA_PENDING_CANDIDATE | PSA_FWU_STAGED \<Rightarrow> OTA_PENDING_STAGED
      | PSA_FWU_TRIAL \<Rightarrow> OTA_PENDING_TRIAL | PSA_FWU_FAILED \<Rightarrow> OTA_PENDING_FAILED
      | _ \<Rightarrow> OTA_PENDING_UNKNOWN)"

definition ota_pending_refresh :: "'e ota_env \<Rightarrow> 'e ti_ota \<Rightarrow> 'e ti_ota" where
  "ota_pending_refresh E o1 =
     (case env_call (psa_fwu_query E Vendor_Image_Slot_1) (env_do (psa_fwu_init E) o1) of
        (o2, q1, prim1, st1) \<Rightarrow>
      if q1 \<noteq> PSA_SUCCESS E then o2\<lparr>ota_pending_cached := OTA_PENDING_UNKNOWN\<rparr>
      else case env_call (psa_fwu_query E Vendor_Image_Slot_2) o2 of (o3, q2, prim2, st2) \<Rightarrow>
      if q2 \<noteq> PSA_SUCCESS E then o3\<lparr>ota_pending_cached := OTA_PENDING_UNKNOWN\<rparr>
      else o3\<lparr>ota_pending_cached :=
             (if prim1 \<and> \<not> prim2 then ota_pending_from_psa st2
              else if prim2 \<and> \<not> prim1 then ota_pending_from_psa st1 else OTA_PENDING_UNKNOWN)\<rparr>)"

definition ota_prime :: "'e ota_env \<Rightarrow> 'e ti_ota \<Rightarrow> 'e ti_ota" where
  "ota_prime E o1 =
     (if ota_pending_primed o1 then o1
      else let o2 = ota_pending_refresh E (env_do (env_bridge_busy E) (o1\<lparr>ota_pending_primed := True\<rparr>))
           in if env_spi_polled E (env o2) then o2 else env_do (env_bridge_ready E) o2)"

definition ota_run_op :: "'e ota_env \<Rightarrow> 'e ti_ota \<Rightarrow> 'e ti_ota \<times> int" where
  "ota_run_op E o1 =
     (case ota_op o1 of OTA_OP_BEGIN \<Rightarrow> ota_do_begin E o1 | OTA_OP_FINISH \<Rightarrow> ota_do_finish E o1
      | OTA_OP_FLUSH \<Rightarrow> ota_flush E False o1 | OTA_OP_IDLE \<Rightarrow> (o1, CC3501E_HW_ERR_INVAL))"

definition cc3501e_hw_ota_pump :: "'e ota_env \<Rightarrow> 'e ti_ota \<Rightarrow> 'e ti_ota" where
  "cc3501e_hw_ota_pump E o0 =
     (let o1 = ota_prime E o0
      in if op_rc o1 \<noteq> OTA_OP_INFLIGHT then o1
         else let polled = env_spi_polled E (env o1);
                  o2 = env_do (env_bridge_busy E) o1;
                  o3 = (if polled then o2
                        else env_do (env_spi_release E) (env_do (env_usleep E 20000)
                               (env_do (env_spi_quiesce E True) o2)))
              in case ota_run_op E o3 of (o4, rc) \<Rightarrow>
                let o5 = (if rc \<noteq> CC3501E_HW_OK \<and> rc \<noteq> CC3501E_HW_BUSY
                          then o4\<lparr>ota_st := OTA_STATE_ERROR\<rparr> else o4);
                    o6 = (if ota_op o5 = OTA_OP_FINISH \<and> rc = CC3501E_HW_OK
                          then env_do (env_clear_polled_boot E) o5 else o5);
                    o7 = (if polled then o6
                          else env_do (env_spi_reinit E) (env_do (env_spi_quiesce E False) o6));
                    o8 = (ota_pending_refresh E o7)\<lparr>ota_op := OTA_OP_IDLE, op_rc := to_int8 rc\<rparr>
                in if polled then o8 else env_do (env_bridge_ready E) o8)"

section \<open>The entry points\<close>

definition cc3501e_hw_ota_begin :: "'e ota_env \<Rightarrow> u32 \<Rightarrow> 'e ti_ota \<Rightarrow> 'e ti_ota \<times> int" where
  "cc3501e_hw_ota_begin E tot o1 =
     (if tot \<le> TI_FWU_MANIFEST_SIZE E \<or> tot > CC3501E_OTA_IMAGE_MAX then (o1, CC3501E_HW_ERR_INVAL)
      else if op_rc o1 = OTA_OP_INFLIGHT then (o1, CC3501E_HW_BUSY)
      else if ota_st o1 = OTA_STATE_WRITING
      then (o1, if tot = total_len o1 \<and> cursor o1 = 0 then CC3501E_HW_OK else CC3501E_HW_ERR_INVAL)
      else let o2 = (if ota_st o1 = OTA_STATE_ERROR
                     then o1\<lparr>ota_st := OTA_STATE_IDLE, op_rc := CC3501E_HW_OK\<rparr> else o1)
           in ota_submit OTA_OP_BEGIN (o2\<lparr>op_total := tot\<rparr>))"

text \<open>The chunk's length is that of \<open>dat\<close>; the sums compared with the cursor are 64 bits wide.\<close>

definition cc3501e_hw_ota_write ::
    "'e ota_env \<Rightarrow> u32 \<Rightarrow> byte list \<Rightarrow> 'e ti_ota \<Rightarrow> 'e ti_ota \<times> int" where
  "cc3501e_hw_ota_write E offset dat o1 =
     (if ota_st o1 \<noteq> OTA_STATE_WRITING then (o1, CC3501E_HW_ERR_INVAL)
      else if length dat = 0 \<or> length dat > unat (OTA_CHUNK_MAX E) then (o1, CC3501E_HW_ERR_INVAL)
      else if op_rc o1 = OTA_OP_INFLIGHT then (o1, CC3501E_HW_BUSY)
      else if unat offset + length dat \<le> unat (cursor o1) then (o1, CC3501E_HW_OK)
      else if offset \<noteq> cursor o1 then (o1, CC3501E_HW_ERR_INVAL)
      else if unat offset + length dat > unat (total_len o1) then (o1, CC3501E_HW_ERR_INVAL)
      else if length dat > unat (CC3501E_OTA_WINDOW - window_used o1) then ota_submit OTA_OP_FLUSH o1
      else let o2 = o1\<lparr>window := take (unat (window_used o1)) (window o1) @ dat
                          @ drop (unat (window_used o1) + length dat) (window o1),
                       window_used := window_used o1 + word_of_nat (length dat),
                       cursor := cursor o1 + word_of_nat (length dat)\<rparr>
           in if \<not> started o2 \<and> window_used o2 \<ge> TI_FWU_MANIFEST_SIZE E
              then ota_submit OTA_OP_FLUSH o2 else (o2, CC3501E_HW_OK))"

definition cc3501e_hw_ota_flush_pending :: "'e ti_ota \<Rightarrow> bool" where
  "cc3501e_hw_ota_flush_pending o1 \<longleftrightarrow> op_rc o1 = OTA_OP_INFLIGHT"

definition cc3501e_hw_ota_fault :: "'e ti_ota \<Rightarrow> byte \<times> byte" where
  "cc3501e_hw_ota_fault o1 = (fail_stage o1, fail_psa o1)"

definition cc3501e_hw_ota_finish :: "'e ti_ota \<Rightarrow> 'e ti_ota \<times> int" where
  "cc3501e_hw_ota_finish o1 =
     (if ota_st o1 = OTA_STATE_STAGED then (o1, CC3501E_HW_OK)
      else if ota_st o1 \<noteq> OTA_STATE_WRITING then (o1, CC3501E_HW_ERR_INVAL)
      else if op_rc o1 = OTA_OP_INFLIGHT then (o1, CC3501E_HW_BUSY)
      else ota_submit OTA_OP_FINISH o1)"

definition cc3501e_hw_ota_abort :: "'e ti_ota \<Rightarrow> 'e ti_ota \<times> int" where
  "cc3501e_hw_ota_abort o1 =
     (o1\<lparr>ota_st := OTA_STATE_IDLE, cursor := 0, total_len := 0, window_base := 0, window_used := 0,
         flushed := 0, started := False, fail_stage := 0, fail_psa := 0, ota_op := OTA_OP_IDLE,
         op_rc := 0\<rparr>, CC3501E_HW_OK)"

definition cc3501e_hw_ota_promote :: "'e ota_env \<Rightarrow> 'e ti_ota \<Rightarrow> 'e ti_ota \<times> int" where
  "cc3501e_hw_ota_promote E o1 =
     ((env_do (env_clear_polled_boot E) o1)\<lparr>reply_drained := False, ota_reboot_pending := True\<rparr>,
      CC3501E_HW_OK)"

definition cc3501e_hw_ota_pending :: "'e ti_ota \<Rightarrow> ota_pending" where
  "cc3501e_hw_ota_pending o1 = ota_pending_cached o1"

definition cc3501e_hw_ota_reboot_rc :: "'e ti_ota \<Rightarrow> int" where
  "cc3501e_hw_ota_reboot_rc o1 = ota_reboot_rc o1"

definition cc3501e_hw_ota_status :: "'e ti_ota \<Rightarrow> int \<times> ota_state \<times> u32 \<times> u32" where
  "cc3501e_hw_ota_status o1 = (CC3501E_HW_OK, ota_st o1, cursor o1, total_len o1)"

text \<open>The two places of \<^verbatim>\<open>hal/ti/cc3501e_hw_ti.c\<close> that sequence the swap reboot.\<close>

definition ota_notify_reply_sent :: "'e ti_ota \<Rightarrow> 'e ti_ota" where
  "ota_notify_reply_sent o1 = o1\<lparr>reply_drained := True\<rparr>"

definition ota_reboot_tick :: "'e ota_env \<Rightarrow> 'e ti_ota \<Rightarrow> 'e ti_ota" where
  "ota_reboot_tick E o1 =
     (if ota_reboot_pending o1 \<and> reply_drained o1
      then case env_call (psa_fwu_request_reboot E) (o1\<lparr>ota_reboot_pending := False\<rparr>) of
             (o2, rc) \<Rightarrow> o2\<lparr>ota_reboot_rc := to_int8 rc\<rparr>
      else o1)"

end
