(* ===== verification/Ota_Image.thy ===== *)
theory Ota_Image
  imports Ti_Ota
begin

text \<open>
  The invariant of a firmware update: what has been streamed into the vendor slot is a prefix of
  the image the host sends and the window holds the bytes after it, whatever is flushed when.
\<close>

section \<open>What the flash service promises\<close>

text \<open>
  \<open>img e t\<close> stands for the bytes streamed into slot \<open>t\<close>: opening the slot starts it with the
  manifest, a successful write at its end extends it, and the calls that only query, finish or
  restart leave it alone.  Nothing is said of failing calls or of the calls that walk a slot back.
\<close>

definition psa_stages :: "'e ota_env \<Rightarrow> ('e \<Rightarrow> vendor_slot \<Rightarrow> byte list) \<Rightarrow> bool" where
  "psa_stages E img \<longleftrightarrow>
     (\<forall>t m e e'. psa_fwu_start E t m e = (e', PSA_SUCCESS E) \<longrightarrow> img e' t = m)
     \<and> (\<forall>t off d e e'. psa_fwu_write E t off d e = (e', PSA_SUCCESS E) \<longrightarrow> unat off = length (img e t)
          \<longrightarrow> img e' t = img e t @ d)
     \<and> (\<forall>e. img (psa_fwu_init E e) = img e) \<and> (\<forall>t e. img (fst (psa_fwu_query E t e)) = img e)
     \<and> (\<forall>t e. img (fst (psa_fwu_finish E t e)) = img e) \<and> (\<forall>e. img (fst (psa_fwu_install E e)) = img e)
     \<and> (\<forall>e. img (fst (psa_fwu_request_reboot E e)) = img e)
     \<and> (\<forall>e. img (env_bridge_busy E e) = img e) \<and> (\<forall>e. img (env_bridge_ready E e) = img e)
     \<and> (\<forall>b e. img (env_spi_quiesce E b e) = img e) \<and> (\<forall>e. img (env_spi_release E e) = img e)
     \<and> (\<forall>e. img (env_spi_reinit E e) = img e) \<and> (\<forall>e. img (env_clear_polled_boot E e) = img e)
     \<and> (\<forall>n e. img (env_usleep E n e) = img e)"

lemma psa_stages_start:
  "psa_stages E img \<Longrightarrow> psa_fwu_start E t m e = (e', PSA_SUCCESS E) \<Longrightarrow> img e' t = m"
  by (simp add: psa_stages_def)

lemma psa_stages_write:
  "psa_stages E img \<Longrightarrow> psa_fwu_write E t off d e = (e', PSA_SUCCESS E) \<Longrightarrow>
   unat off = length (img e t) \<Longrightarrow> img e' t = img e t @ d"
  by (simp add: psa_stages_def)

lemma psa_stages_keep:
  assumes "psa_stages E img"
  shows "img (psa_fwu_init E e) = img e" "img (fst (psa_fwu_query E t e)) = img e"
    "img (fst (psa_fwu_finish E t e)) = img e" "img (fst (psa_fwu_install E e)) = img e"
    "img (fst (psa_fwu_request_reboot E e)) = img e" "img (env_bridge_busy E e) = img e"
    "img (env_bridge_ready E e) = img e" "img (env_spi_quiesce E b e) = img e"
    "img (env_spi_release E e) = img e" "img (env_spi_reinit E e) = img e"
    "img (env_clear_polled_boot E e) = img e" "img (env_usleep E n e) = img e"
  using assms by (simp_all add: psa_stages_def)

section \<open>Sizes and slices\<close>

lemma ota_window_size: "unat CC3501E_OTA_WINDOW = 16384"
  by (simp add: CC3501E_OTA_WINDOW_def CC3501E_OTA_FINISH_FLASH_BLOCK_def)

lemma ota_image_max: "unat CC3501E_OTA_IMAGE_MAX = 2097152"
  by (simp add: CC3501E_OTA_IMAGE_MAX_def)

lemma unat_add_small: "unat x + unat y < 2 ^ 32 \<Longrightarrow> unat (x + y) = unat x + unat y" for x y :: u32
  using unat_add_lem [of x y] by simp

lemma slice_eq:
  assumes "take u win = take u (drop b im)" and "a + n \<le> u"
  shows "take n (drop a win) = take n (drop (b + a) im)"
proof -
  have "take (a + n) win = take (a + n) (drop b im)"
    using arg_cong [OF assms(1), of "take (a + n)"] assms(2) by (simp add: min_absorb1)
  then have "drop a (take (a + n) win) = drop a (take (a + n) (drop b im))" by simp
  then show ?thesis by (simp add: drop_take add.commute)
qed

section \<open>The session invariant\<close>

definition ota_writing ::
    "byte list \<Rightarrow> ('e \<Rightarrow> vendor_slot \<Rightarrow> byte list) \<Rightarrow> 'e ti_ota \<Rightarrow> bool" where
  "ota_writing im img o1 \<longleftrightarrow>
     length im \<le> 2097152 \<and> length (window o1) = 16384 \<and> unat (window_used o1) \<le> 16384
     \<and> unat (cursor o1) = unat (window_base o1) + unat (window_used o1)
     \<and> unat (cursor o1) \<le> length im \<and> unat (total_len o1) = length im
     \<and> take (unat (window_used o1)) (window o1)
         = take (unat (window_used o1)) (drop (unat (window_base o1)) im)
     \<and> (if started o1
        then unat (window_base o1) \<le> unat (flushed o1) \<and> unat (flushed o1) \<le> unat (cursor o1)
             \<and> img (env o1) (ota_target o1) = take (unat (flushed o1)) im
        else window_base o1 = 0 \<and> flushed o1 = 0)"

lemma ota_writing_window:
  "ota_writing im img o1 \<Longrightarrow> take (unat (window_used o1)) (window o1)
     = take (unat (window_used o1)) (drop (unat (window_base o1)) im)"
  unfolding ota_writing_def by blast

lemma ota_writing_total: "ota_writing im img o1 \<Longrightarrow> unat (total_len o1) = length im"
  unfolding ota_writing_def by blast

definition ota_queue_ok :: "byte list \<Rightarrow> 'e ti_ota \<Rightarrow> bool" where
  "ota_queue_ok im o1 \<longleftrightarrow> op_rc o1 = OTA_OP_INFLIGHT \<longrightarrow>
     (ota_op o1 = OTA_OP_BEGIN \<and> unat (op_total o1) = length im \<and> ota_st o1 \<noteq> OTA_STATE_WRITING
      \<or> ota_op o1 \<in> {OTA_OP_FLUSH, OTA_OP_FINISH} \<and> ota_st o1 = OTA_STATE_WRITING)"

definition ota_inv ::
    "byte list \<Rightarrow> ('e \<Rightarrow> vendor_slot \<Rightarrow> byte list) \<Rightarrow> 'e ti_ota \<Rightarrow> bool" where
  "ota_inv im img o1 \<longleftrightarrow>
     length im \<le> 2097152 \<and> length (window o1) = 16384 \<and> ota_queue_ok im o1
     \<and> (ota_st o1 = OTA_STATE_WRITING \<longrightarrow> ota_writing im img o1)
     \<and> (ota_st o1 = OTA_STATE_STAGED \<longrightarrow>
          img (env o1) (ota_target o1) = im \<and> unat (total_len o1) = length im)"

lemma ota_inv_reset: "length im \<le> 2097152 \<Longrightarrow> ota_inv im img (ota_reset e)"
  by (simp add: ota_inv_def ota_reset_def ota_queue_ok_def OTA_OP_INFLIGHT_def ota_window_size)

section \<open>Flushing\<close>

lemma write_blocks_step:
  fixes off stop n :: u32
  assumes "off < stop" and "n = (if stop - off > CC3501E_OTA_FINISH_FLASH_BLOCK
      then CC3501E_OTA_FINISH_FLASH_BLOCK else stop - off)"
  shows "unat (off + n) = unat off + unat n" "off + n \<le> stop" "off \<le> off + n"
proof -
  have d: "unat (stop - off) = unat stop - unat off" using assms(1) by (intro unat_sub) simp
  have l: "unat off < unat stop" using assms(1) by (simp add: word_less_nat_alt)
  have n: "unat n \<le> unat stop - unat off" using assms(2) d by (auto simp: word_less_nat_alt)
  have "unat stop < 2 ^ 32" using unsigned_less [of stop] by simp
  then show u: "unat (off + n) = unat off + unat n" using n l by (intro unat_add_small) linarith
  show "off + n \<le> stop" "off \<le> off + n" using u n l by (simp_all add: word_le_nat_alt)
qed

lemma write_blocks_stage:
  assumes "psa_stages E img"
    and "ota_write_blocks E t win base off stop e = (e', None)"
    and "take u win = take u (drop (unat base) im)" and "base \<le> off" and "off \<le> stop"
    and "unat stop \<le> unat base + u" and "unat stop \<le> length im"
    and "img e t = take (unat off) im"
  shows "img e' t = take (unat stop) im"
  using assms
proof (induction E t win base off stop e rule: ota_write_blocks.induct)
  case (1 E t win base off stop e)
  show ?case
  proof (cases "off < stop")
    case False
    then have "off = stop" using "1.prems"(5) by simp
    then show ?thesis using "1.prems"(2,8) by (simp add: ota_write_blocks.simps)
  next
    case True
    define n where "n = (if stop - off > CC3501E_OTA_FINISH_FLASH_BLOCK
      then CC3501E_OTA_FINISH_FLASH_BLOCK else stop - off)"
    note st = write_blocks_step [OF True n_def]
    let ?d = "take (unat n) (drop (unat (off - base)) win)"
    obtain e1 pw where w: "psa_fwu_write E t off ?d e = (e1, pw)" by fastforce
    have eq: "ota_write_blocks E t win base off stop e =
        (if pw \<noteq> PSA_SUCCESS E then (e1, Some pw) else ota_write_blocks E t win base (off + n) stop e1)"
      by (subst ota_write_blocks.simps) (simp add: True Let_def n_def [symmetric] w)
    then have ok: "pw = PSA_SUCCESS E" and rest: "ota_write_blocks E t win base (off + n) stop e1 = (e', None)"
      using "1.prems"(2) by (simp_all split: if_splits)
    have ob: "unat (off - base) = unat off - unat base" "unat base \<le> unat off"
      using "1.prems"(4) by (simp_all add: unat_sub word_le_nat_alt)
    have le: "unat off + unat n \<le> unat stop" using st(1,2) by (simp add: word_le_nat_alt)
    have d: "?d = take (unat n) (drop (unat off) im)"
      using slice_eq [OF "1.prems"(3), of "unat (off - base)" "unat n"] ob le "1.prems"(6) by simp
    have "img e1 t = take (unat off) im @ ?d"
      using psa_stages_write [OF "1.prems"(1) w [unfolded ok]] le "1.prems"(7,8) by simp
    then have i: "img e1 t = take (unat (off + n)) im" by (simp add: d st(1) take_add)
    show ?thesis
      by (rule "1.IH" [OF True n_def w [symmetric] _ "1.prems"(1) rest "1.prems"(3) _ st(2) "1.prems"(6,7) i])
         (use ok st(3) "1.prems"(4) in auto)
  qed
qed

lemma whole_blocks:
  fixes n :: u32
  shows "unat (n AND NOT (CC3501E_OTA_FINISH_FLASH_BLOCK - 1)) = 4096 * (unat n div 4096)"
proof -
  have m: "(CC3501E_OTA_FINISH_FLASH_BLOCK - 1 :: u32) = mask 12"
    by (simp add: CC3501E_OTA_FINISH_FLASH_BLOCK_def mask_eq_exp_minus_1)
  have "n AND NOT (mask 12) = push_bit 12 (drop_bit 12 n)"
    by (rule bit_word_eqI) (auto simp: bit_simps not_le)
  then have "unat (n AND NOT (CC3501E_OTA_FINISH_FLASH_BLOCK - 1)) = unat (push_bit 12 (drop_bit 12 n))"
    by (simp add: m)
  also have "\<dots> = take_bit 32 (push_bit 12 (unat (drop_bit 12 n)))"
    by (simp add: unsigned_push_bit_eq)
  also have "unat (drop_bit 12 n) = unat n div 4096"
    by (simp add: drop_bit_eq_div unat_div)
  also have "take_bit 32 (push_bit 12 (unat n div 4096)) = 4096 * (unat n div 4096)"
  proof -
    have "unat n < 2 ^ 32" using unsigned_less [of n] by simp
    then have "4096 * (unat n div 4096) < 2 ^ 32"
      using times_div_less_eq_dividend [of 4096 "unat n"] by linarith
    then show ?thesis by (simp add: push_bit_eq_mult take_bit_eq_mod mult.commute)
  qed
  finally show ?thesis .
qed

lemma open_slot_ok:
  assumes "psa_stages E img" and "ota_writing im img o0" and "unat (TI_FWU_MANIFEST_SIZE E) \<le> 16384"
    and "ota_open_slot E o0 = (o1, CC3501E_HW_OK)"
  shows "ota_writing im img o1 \<and> started o1 \<and> cursor o1 = cursor o0 \<and> total_len o1 = total_len o0
    \<and> ota_st o1 = ota_st o0 \<and> ota_op o1 = ota_op o0 \<and> ota_target o1 = ota_target o0
    \<and> window_used o1 = window_used o0 \<and> window_base o1 = window_base o0"
proof (cases "started o0")
  case True
  then show ?thesis using assms by (simp add: ota_open_slot_def)
next
  case False
  let ?m = "TI_FWU_MANIFEST_SIZE E"
  obtain e ps where c: "psa_fwu_start E (ota_target o0) (take (unat ?m) (window o0)) (env o0) = (e, ps)"
    by fastforce
  have m: "\<not> window_used o0 < ?m" "ps = PSA_SUCCESS E" and o1: "o1 = o0\<lparr>env := e, started := True, flushed := ?m\<rparr>"
    using assms(4) False c
    by (auto simp: ota_open_slot_def env_call_def hw_rc_defs split: if_splits)
  have le: "unat ?m \<le> unat (window_used o0)" using m(1) by (simp add: word_less_nat_alt)
  have base: "window_base o0 = 0" using assms(2) False by (simp add: ota_writing_def)
  have w: "take (unat (window_used o0)) (window o0) = take (unat (window_used o0)) (drop 0 im)"
    using ota_writing_window [OF assms(2)] by (simp add: base)
  have "img e (ota_target o0) = take (unat ?m) im"
    using psa_stages_start [OF assms(1) c [unfolded m(2)]] slice_eq [OF w, of 0 "unat ?m"] le by simp
  then show ?thesis
    using assms(2) le base by (simp add: o1 ota_writing_def)
qed

lemma open_slot_fail:
  assumes "ota_open_slot E o0 = (o1, rc)" and "rc \<noteq> CC3501E_HW_OK"
  shows "rc \<in> {CC3501E_HW_ERR_IO, CC3501E_HW_ERR_INVAL} \<and> length (window o1) = length (window o0) \<and> ota_op o1 = ota_op o0"
  using assms
  by (auto simp: ota_open_slot_def env_call_def hw_rc_defs split: if_splits prod.splits)

lemma ready_bytes_le:
  assumes "ota_writing im img o1" and "started o1"
  shows "unat (flushed o1) + unat (ota_ready_bytes final o1) \<le> unat (cursor o1)"
    and "unat (flushed o1 + ota_ready_bytes final o1) = unat (flushed o1) + unat (ota_ready_bytes final o1)"
    and "final \<Longrightarrow> unat (flushed o1) + unat (ota_ready_bytes final o1) = unat (cursor o1)"
    and "unat (window_base o1 + window_used o1) = unat (cursor o1)"
proof -
  have b: "unat (window_base o1) + unat (window_used o1) = unat (cursor o1)"
    "unat (flushed o1) \<le> unat (cursor o1)" "unat (cursor o1) \<le> 2097152"
    using assms by (auto simp: ota_writing_def)
  show e: "unat (window_base o1 + window_used o1) = unat (cursor o1)"
    using b by (subst unat_add_small) simp_all
  let ?r = "if window_base o1 + window_used o1 > flushed o1
    then window_base o1 + window_used o1 - flushed o1 else 0"
  have r: "unat ?r = unat (cursor o1) - unat (flushed o1)"
    using e b by (simp add: word_less_nat_alt unat_sub word_le_nat_alt)
  have w: "unat (?r AND NOT (CC3501E_OTA_FINISH_FLASH_BLOCK - 1)) \<le> unat ?r"
    unfolding whole_blocks by simp
  have rb: "ota_ready_bytes final o1 = ?r \<or> ota_ready_bytes final o1 = ?r AND NOT (CC3501E_OTA_FINISH_FLASH_BLOCK - 1)"
    "final \<Longrightarrow> ota_ready_bytes final o1 = ?r"
    by (simp_all add: ota_ready_bytes_def Let_def)
  have le: "unat (ota_ready_bytes final o1) \<le> unat ?r" using rb(1) w by auto
  show s: "unat (flushed o1) + unat (ota_ready_bytes final o1) \<le> unat (cursor o1)"
    using le r b(2) by linarith
  show "unat (flushed o1 + ota_ready_bytes final o1) = unat (flushed o1) + unat (ota_ready_bytes final o1)"
    using s b(3) by (intro unat_add_small) simp
  show "final \<Longrightarrow> unat (flushed o1) + unat (ota_ready_bytes final o1) = unat (cursor o1)"
    using rb(2) r b(2) by simp
qed

text \<open>The fields a flush leaves alone.\<close>

definition ota_same_session :: "'e ti_ota \<Rightarrow> 'e ti_ota \<Rightarrow> bool" where
  "ota_same_session o1 o2 \<longleftrightarrow> cursor o2 = cursor o1 \<and> total_len o2 = total_len o1 \<and> ota_st o2 = ota_st o1
     \<and> ota_op o2 = ota_op o1 \<and> ota_target o2 = ota_target o1"

lemma flush_commit:
  assumes "psa_stages E img" and "ota_writing im img o1" and "started o1"
    and "n = ota_ready_bytes final o1" and "stop = flushed o1 + n"
    and "ota_write_blocks E (ota_target o1) (window o1) (window_base o1) (flushed o1) stop (env o1) = (e, None)"
  defines "keep \<equiv> window_base o1 + window_used o1 - stop"
  defines "kept \<equiv> take (unat keep) (drop (unat (stop - window_base o1)) (window o1))"
  shows "ota_writing im img (o1\<lparr>env := e, flushed := stop,
      window := (if keep \<noteq> 0 then blit (window o1) kept else window o1),
      window_base := stop, window_used := keep\<rparr>)"
proof -
  note w = assms(2) [unfolded ota_writing_def]
  note r = ready_bytes_le(1-3) [OF assms(2,3), of final, folded assms(4)] ready_bytes_le(4) [OF assms(2,3)]
  have f: "unat (window_base o1) \<le> unat (flushed o1)" "unat (flushed o1) \<le> unat (cursor o1)"
    "img (env o1) (ota_target o1) = take (unat (flushed o1)) im"
    using w assms(3) by auto
  have stop: "unat stop = unat (flushed o1) + unat n" "unat stop \<le> unat (cursor o1)"
    using r(1,2) assms(5) by simp_all
  have cur: "unat (cursor o1) = unat (window_base o1) + unat (window_used o1)" "unat (cursor o1) \<le> length im"
    using w by auto
  have keep: "unat keep = unat (cursor o1) - unat stop"
    using r(4) stop(2) unfolding keep_def by (subst unat_sub) (simp_all add: word_le_nat_alt)
  have sb: "unat (stop - window_base o1) = unat stop - unat (window_base o1)"
    using stop(1) f(1) by (intro unat_sub) (simp add: word_le_nat_alt)
  have kept: "kept = take (unat keep) (drop (unat stop) im)"
    unfolding kept_def sb
    using slice_eq [OF ota_writing_window [OF assms(2)], of "unat stop - unat (window_base o1)" "unat keep"]
      keep stop f(1) cur by simp
  have len: "length kept = unat keep" using cur(2) stop(2) keep by (simp add: kept)
  have "img e (ota_target o1) = take (unat stop) im"
    by (rule write_blocks_stage [OF assms(1,6) ota_writing_window [OF assms(2)] _ _ _ _ f(3)])
       (use f stop cur in \<open>simp_all add: word_le_nat_alt\<close>)
  moreover have "take (unat keep) (if keep \<noteq> 0 then blit (window o1) kept else window o1)
      = take (unat keep) (drop (unat stop) im)"
    using take_blit [of kept "window o1"] len by (cases "keep = 0") (simp_all add: kept)
  moreover have "length kept \<le> length (window o1)" "unat keep \<le> 16384"
    using w len keep stop f(1) cur(1) by linarith+
  ultimately show ?thesis
    using w assms(3) keep stop by (simp add: ota_writing_def)
qed

lemma flush_ok:
  assumes "psa_stages E img" and "ota_writing im img o0" and "unat (TI_FWU_MANIFEST_SIZE E) \<le> 16384"
    and "ota_flush E final o0 = (o', CC3501E_HW_OK)"
  shows "ota_writing im img o' \<and> started o' \<and> ota_same_session o0 o'
    \<and> (final \<longrightarrow> flushed o' = cursor o')"
proof -
  obtain o1 rc where op: "ota_open_slot E o0 = (o1, rc)" by fastforce
  have rc: "rc = CC3501E_HW_OK" using assms(4) by (auto simp: ota_flush_def op split: if_splits)
  note o1 = open_slot_ok [OF assms(1-3) op [unfolded rc]]
  then have w1: "ota_writing im img o1" and s1: "started o1" by blast+
  have same: "ota_same_session o0 o1" using o1 by (simp add: ota_same_session_def)
  define n where "n = ota_ready_bytes final o1"
  note r = ready_bytes_le(1-3) [OF w1 s1, of final, folded n_def]
  show ?thesis
  proof (cases "n = 0")
    case True
    then have "o' = o1" using assms(4) by (simp add: ota_flush_def op rc n_def [symmetric])
    then show ?thesis using w1 s1 same r(3) True by (simp add: word_unat_eq_iff)
  next
    case False
    define stop where "stop = flushed o1 + n"
    let ?wb = "ota_write_blocks E (ota_target o1) (window o1) (window_base o1) (flushed o1) stop"
    obtain e x where wb: "?wb (env o1) = (e, x)" by fastforce
    have x: "x = None"
      using assms(4) False
      by (cases x) (simp_all add: ota_flush_def op rc n_def [symmetric] stop_def [symmetric] env_call_def wb
          Let_def hw_rc_defs)
    let ?keep = "window_base o1 + window_used o1 - stop"
    let ?kept = "take (unat ?keep) (drop (unat (stop - window_base o1)) (window o1))"
    have o': "o' = o1\<lparr>env := e, flushed := stop,
        window := (if ?keep \<noteq> 0 then blit (window o1) ?kept else window o1),
        window_base := stop, window_used := ?keep\<rparr>"
      using assms(4) False wb [unfolded x]
      by (cases "?keep = 0")
         (simp_all add: ota_flush_def op rc n_def [symmetric] stop_def [symmetric] env_call_def Let_def)
    have "ota_writing im img o'"
      unfolding o' by (rule flush_commit [OF assms(1) w1 s1 n_def stop_def wb [unfolded x]])
    moreover have "final \<longrightarrow> stop = cursor o1" using r(2,3) by (simp add: stop_def word_unat_eq_iff)
    ultimately show ?thesis using s1 same by (simp add: o' ota_same_session_def)
  qed
qed

lemma flush_fail:
  assumes "ota_flush E final o0 = (o', rc)" and "rc \<noteq> CC3501E_HW_OK"
  shows "rc \<in> {CC3501E_HW_ERR_IO, CC3501E_HW_ERR_INVAL} \<and> length (window o') = length (window o0) \<and> ota_op o' = ota_op o0"
proof -
  obtain o1 r where op: "ota_open_slot E o0 = (o1, r)" by fastforce
  show ?thesis
  proof (cases "r = CC3501E_HW_OK")
    case False
    then have "o' = o1" "r = rc" using assms(1) by (simp_all add: ota_flush_def op)
    with open_slot_fail [OF op False] show ?thesis by simp
  next
    case True
    have "ota_op o1 = ota_op o0 \<and> window o1 = window o0"
      using op True by (auto simp: ota_open_slot_def env_call_def split: if_splits prod.splits)
    then show ?thesis
      using assms True
      by (auto simp: ota_flush_def op Let_def env_call_def hw_rc_defs split: if_splits prod.splits option.splits)
  qed
qed

section \<open>Begin and finish\<close>

lemma walk_back_frame: "ota_walk_back E t st o1 = o1\<lparr>env := env (ota_walk_back E t st o1)\<rparr>"
  by (simp add: ota_walk_back_def env_do_def)

lemma env_call_keeps:
  "env_call f o1 = (o2, x) \<Longrightarrow> window o2 = window o1 \<and> ota_op o2 = ota_op o1"
  by (auto simp: env_call_def split: prod.splits)

lemma pick_target_keeps:
  "ota_pick_target E o1 = (o2, x) \<Longrightarrow> window o2 = window o1 \<and> ota_op o2 = ota_op o1"
  by (auto simp: ota_pick_target_def env_call_def env_do_def Let_def split: prod.splits if_splits)

text \<open>A session that \<open>BEGIN\<close> opened is empty.\<close>

lemma do_begin_ok:
  assumes "ota_do_begin E o1 = (o2, CC3501E_HW_OK)" and "length im \<le> 2097152"
    and "unat (op_total o1) = length im" and "length (window o1) = 16384"
  shows "ota_writing im img o2 \<and> ota_st o2 = OTA_STATE_WRITING \<and> ota_op o2 = ota_op o1 \<and> cursor o2 = 0
    \<and> \<not> started o2 \<and> window_used o2 = 0"
proof -
  obtain oa x where pk: "ota_pick_target E (env_do (psa_fwu_init E) o1) = (oa, x)" by fastforce
  obtain t where t: "x = Some t" using assms(1) by (cases x) (simp_all add: ota_do_begin_def pk hw_rc_defs)
  obtain ob q prim st where qr: "env_call (psa_fwu_query E t) oa = (ob, q, prim, st)" by (metis prod_cases4)
  obtain e where wb: "ota_walk_back E t st ob = ob\<lparr>env := e\<rparr>"
    by (rule that [OF walk_back_frame])
  have ob: "length (window ob) = 16384" "ota_op ob = ota_op o1"
    using env_call_keeps [OF qr] pick_target_keeps [OF pk] assms(4) by (simp_all add: env_do_def)
  have "o2 = (ob\<lparr>env := e\<rparr>)\<lparr>ota_target := t, total_len := op_total o1, cursor := 0,
      window_base := 0, window_used := 0, flushed := 0, started := False,
      fail_stage := 0, fail_psa := 0, ota_st := OTA_STATE_WRITING\<rparr>"
    using assms(1) by (simp add: ota_do_begin_def pk t qr wb hw_rc_defs split: if_splits)
  then show ?thesis using assms(2,3) ob by (simp add: ota_writing_def)
qed

lemma do_begin_fail:
  assumes "ota_do_begin E o1 = (o2, rc)" and "rc \<noteq> CC3501E_HW_OK"
  shows "rc \<in> {CC3501E_HW_ERR_IO, CC3501E_HW_ERR_INVAL} \<and> length (window o2) = length (window o1) \<and> ota_op o2 = ota_op o1"
proof -
  obtain oa x where pk: "ota_pick_target E (env_do (psa_fwu_init E) o1) = (oa, x)" by fastforce
  have oa: "window oa = window o1" "ota_op oa = ota_op o1"
    using pick_target_keeps [OF pk] by (simp_all add: env_do_def)
  show ?thesis
  proof (cases x)
    case None
    then show ?thesis using assms oa by (auto simp: ota_do_begin_def pk hw_rc_defs)
  next
    case (Some t)
    obtain ob q prim st where qr: "env_call (psa_fwu_query E t) oa = (ob, q, prim, st)" by (metis prod_cases4)
    have "window ob = window o1" "ota_op ob = ota_op o1"
      using oa env_call_keeps [OF qr] by simp_all
    then show ?thesis
      using assms Some by (auto simp: ota_do_begin_def pk qr hw_rc_defs split: if_splits)
  qed
qed

lemma do_finish_ok:
  assumes "psa_stages E img" and "ota_writing im img o1" and "unat (TI_FWU_MANIFEST_SIZE E) \<le> 16384"
    and "ota_do_finish E o1 = (o2, CC3501E_HW_OK)"
  shows "ota_st o2 = OTA_STATE_STAGED \<and> img (env o2) (ota_target o2) = im
    \<and> unat (total_len o2) = length im \<and> length (window o2) = 16384 \<and> ota_op o2 = ota_op o1"
proof -
  obtain oa r where fl: "ota_flush E True o1 = (oa, r)" by fastforce
  have r: "r = CC3501E_HW_OK" "cursor o1 = total_len o1"
    using assms(4) by (auto simp: ota_do_finish_def fl hw_rc_defs split: if_splits)
  note oa = flush_ok [OF assms(1-3) fl [unfolded r(1)]]
  obtain eb pf where fi: "psa_fwu_finish E (ota_target oa) (env oa) = (eb, pf)" by fastforce
  obtain ec pi where ins: "psa_fwu_install E eb = (ec, pi)" by fastforce
  have "o2 = oa\<lparr>env := ec, ota_st := OTA_STATE_STAGED\<rparr>"
    using assms(4) fl r(1)
    by (auto simp: ota_do_finish_def env_call_def fi ins hw_rc_defs split: if_splits)
  moreover have "img ec = img (env oa)"
    using psa_stages_keep(3) [OF assms(1), of "ota_target oa" "env oa"] psa_stages_keep(4) [OF assms(1), of eb]
    by (simp add: fi ins)
  moreover have "unat (flushed oa) = length im" "img (env oa) (ota_target oa) = take (unat (flushed oa)) im"
    "length (window oa) = 16384" "unat (total_len oa) = length im" "ota_op oa = ota_op o1"
    using oa r(2) by (auto simp: ota_writing_def ota_same_session_def)
  ultimately show ?thesis by simp
qed

lemma do_finish_fail:
  assumes "ota_do_finish E o1 = (o2, rc)" and "rc \<noteq> CC3501E_HW_OK" and "psa_stages E img"
    and "ota_writing im img o1" and "unat (TI_FWU_MANIFEST_SIZE E) \<le> 16384"
  shows "rc \<in> {CC3501E_HW_ERR_IO, CC3501E_HW_ERR_INVAL} \<and> length (window o2) = 16384 \<and> ota_op o2 = ota_op o1"
proof -
  obtain oa r where fl: "ota_flush E True o1 = (oa, r)" by fastforce
  have oa: "(r = CC3501E_HW_OK \<or> r \<in> {CC3501E_HW_ERR_IO, CC3501E_HW_ERR_INVAL}) \<and> length (window oa) = 16384 \<and> ota_op oa = ota_op o1"
    using flush_fail [OF fl] flush_ok [OF assms(3-5), of True oa] fl assms(4)
    by (cases "r = CC3501E_HW_OK") (auto simp: ota_writing_def ota_same_session_def)
  show ?thesis
    using assms(1,2,4) oa
    by (auto simp: ota_do_finish_def fl env_call_def hw_rc_defs ota_writing_def split: if_splits prod.splits)
qed

section \<open>The pump\<close>

text \<open>Equal in everything the session depends on.\<close>

definition ota_like :: "('e \<Rightarrow> vendor_slot \<Rightarrow> byte list) \<Rightarrow> 'e ti_ota \<Rightarrow> 'e ti_ota \<Rightarrow> bool" where
  "ota_like img o1 o2 \<longleftrightarrow> ota_st o2 = ota_st o1 \<and> ota_target o2 = ota_target o1 \<and> total_len o2 = total_len o1
     \<and> cursor o2 = cursor o1 \<and> ota_op o2 = ota_op o1 \<and> op_rc o2 = op_rc o1 \<and> op_total o2 = op_total o1
     \<and> window_base o2 = window_base o1 \<and> window_used o2 = window_used o1 \<and> flushed o2 = flushed o1
     \<and> started o2 = started o1 \<and> window o2 = window o1 \<and> img (env o2) = img (env o1)"

lemma ota_like_inv: "ota_like img o1 o2 \<Longrightarrow> ota_inv im img o2 = ota_inv im img o1"
  by (simp add: ota_like_def ota_inv_def ota_writing_def ota_queue_ok_def)

lemma ota_like_trans: "ota_like img o1 o2 \<Longrightarrow> ota_like img o2 o3 \<Longrightarrow> ota_like img o1 o3"
  by (simp add: ota_like_def)

lemma ota_like_do: "img (f (env o1)) = img (env o1) \<Longrightarrow> ota_like img o1 (env_do f o1)"
  by (simp add: ota_like_def env_do_def)

lemma refresh_like:
  assumes "psa_stages E img"
  shows "ota_like img o1 (ota_pending_refresh E o1)"
proof -
  note k = psa_stages_keep [OF assms]
  obtain e1 q1 where a: "psa_fwu_query E Vendor_Image_Slot_1 (psa_fwu_init E (env o1)) = (e1, q1)" by (metis surj_pair)
  obtain e2 q2 where b: "psa_fwu_query E Vendor_Image_Slot_2 e1 = (e2, q2)" by (metis surj_pair)
  have "img e1 = img (env o1)" "img e2 = img e1"
    using k(2) [of Vendor_Image_Slot_1 "psa_fwu_init E (env o1)"] k(1) [of "env o1"] k(2) [of Vendor_Image_Slot_2 e1]
    by (simp_all add: a b)
  then show ?thesis
    by (simp add: ota_pending_refresh_def env_call_def env_do_def a b ota_like_def split: prod.splits)
qed

lemma prime_like:
  assumes "psa_stages E img"
  shows "ota_like img o1 (ota_prime E o1)"
proof (cases "ota_pending_primed o1")
  case False
  note k = psa_stages_keep [OF assms]
  let ?a = "env_do (env_bridge_busy E) (o1\<lparr>ota_pending_primed := True\<rparr>)"
  have "ota_like img o1 ?a" by (simp add: ota_like_def env_do_def k)
  from ota_like_trans [OF this refresh_like [OF assms]]
  have l: "ota_like img o1 (ota_pending_refresh E ?a)" .
  have "ota_like img o1 (env_do (env_bridge_ready E) (ota_pending_refresh E ?a))"
    by (rule ota_like_trans [OF l ota_like_do]) (rule k)
  with l False show ?thesis by (simp add: ota_prime_def Let_def)
qed (simp add: ota_prime_def ota_like_def)

text \<open>The preparation and the wind-down of a queued operation only touch the environment.\<close>

definition pump_prepare :: "'e ota_env \<Rightarrow> 'e ti_ota \<Rightarrow> 'e ti_ota" where
  "pump_prepare E o1 =
     (let o2 = env_do (env_bridge_busy E) o1
      in if env_spi_polled E (env o1) then o2
         else env_do (env_spi_release E) (env_do (env_usleep E 20000) (env_do (env_spi_quiesce E True) o2)))"

definition pump_settle :: "'e ota_env \<Rightarrow> bool \<Rightarrow> int \<Rightarrow> 'e ti_ota \<Rightarrow> 'e ti_ota" where
  "pump_settle E polled rc o5 =
     (let o6 = (if ota_op o5 = OTA_OP_FINISH \<and> rc = CC3501E_HW_OK
                then env_do (env_clear_polled_boot E) o5 else o5);
          o7 = (if polled then o6
                else env_do (env_spi_reinit E) (env_do (env_spi_quiesce E False) o6));
          o8 = (ota_pending_refresh E o7)\<lparr>ota_op := OTA_OP_IDLE, op_rc := to_int8 rc\<rparr>
      in if polled then o8 else env_do (env_bridge_ready E) o8)"

lemma pump_unfold:
  assumes "ota_run_op E (pump_prepare E (ota_prime E o0)) = (o4, rc)"
  shows "cc3501e_hw_ota_pump E o0 =
    (if op_rc (ota_prime E o0) \<noteq> OTA_OP_INFLIGHT then ota_prime E o0
     else pump_settle E (env_spi_polled E (env (ota_prime E o0))) rc
            (if rc \<noteq> CC3501E_HW_OK \<and> rc \<noteq> CC3501E_HW_BUSY then o4\<lparr>ota_st := OTA_STATE_ERROR\<rparr> else o4))"
  using assms by (simp add: cc3501e_hw_ota_pump_def pump_prepare_def pump_settle_def Let_def)

lemma prepare_like:
  assumes "psa_stages E img"
  shows "ota_like img o1 (pump_prepare E o1)"
  by (simp add: pump_prepare_def Let_def env_do_def ota_like_def psa_stages_keep [OF assms])

lemma settle_like:
  assumes "psa_stages E img"
  shows "ota_like img (o5\<lparr>ota_op := OTA_OP_IDLE, op_rc := to_int8 rc\<rparr>) (pump_settle E polled rc o5)"
proof -
  note k = psa_stages_keep [OF assms]
  define o6 where "o6 = (if ota_op o5 = OTA_OP_FINISH \<and> rc = CC3501E_HW_OK
      then env_do (env_clear_polled_boot E) o5 else o5)"
  define o7 where "o7 = (if polled then o6
      else env_do (env_spi_reinit E) (env_do (env_spi_quiesce E False) o6))"
  have 6: "ota_like img o5 o6" by (simp add: o6_def ota_like_def env_do_def k)
  have 7: "ota_like img o6 o7" by (simp add: o7_def ota_like_def env_do_def k)
  have "ota_like img o5 (ota_pending_refresh E o7)"
    by (rule ota_like_trans [OF 6 ota_like_trans [OF 7 refresh_like [OF assms]]])
  moreover have "pump_settle E polled rc o5 =
      (let o8 = (ota_pending_refresh E o7)\<lparr>ota_op := OTA_OP_IDLE, op_rc := to_int8 rc\<rparr>
       in if polled then o8 else env_do (env_bridge_ready E) o8)"
    unfolding pump_settle_def Let_def o7_def o6_def ..
  ultimately show ?thesis by (simp add: Let_def ota_like_def env_do_def k)
qed

text \<open>What a queued operation leaves, and its return code.\<close>

definition op_result ::
    "byte list \<Rightarrow> ('e \<Rightarrow> vendor_slot \<Rightarrow> byte list) \<Rightarrow> 'e ti_ota \<Rightarrow> int \<Rightarrow> bool" where
  "op_result im img o4 rc \<longleftrightarrow> length (window o4) = 16384
     \<and> (rc \<noteq> CC3501E_HW_OK \<longrightarrow> rc \<in> {CC3501E_HW_ERR_IO, CC3501E_HW_ERR_INVAL})
     \<and> (rc = CC3501E_HW_OK \<longrightarrow>
          ota_st o4 = OTA_STATE_WRITING \<and> ota_writing im img o4
          \<or> ota_st o4 = OTA_STATE_STAGED \<and> img (env o4) (ota_target o4) = im
            \<and> unat (total_len o4) = length im)"

lemma run_op_result:
  assumes "psa_stages E img" and "unat (TI_FWU_MANIFEST_SIZE E) \<le> 16384"
    and "ota_inv im img o3" and "op_rc o3 = OTA_OP_INFLIGHT" and "ota_run_op E o3 = (o4, rc)"
  shows "op_result im img o4 rc"
proof -
  have base: "length im \<le> 2097152" "length (window o3) = 16384" using assms(3) by (simp_all add: ota_inv_def)
  note q = assms(3,4) [unfolded ota_inv_def ota_queue_ok_def]
  show ?thesis
  proof (cases "ota_op o3")
    case OTA_OP_BEGIN
    then have r: "ota_do_begin E o3 = (o4, rc)" and tot: "unat (op_total o3) = length im"
      using assms(5) q by (simp_all add: ota_run_op_def)
    show ?thesis
      using do_begin_ok [OF _ base(1) tot base(2), of E o4 img] do_begin_fail [OF r] r base(2)
      by (cases "rc = CC3501E_HW_OK") (auto simp: op_result_def ota_writing_def)
  next
    case OTA_OP_FINISH
    then have r: "ota_do_finish E o3 = (o4, rc)" and w: "ota_writing im img o3"
      using assms(5) q by (simp_all add: ota_run_op_def)
    show ?thesis
      using do_finish_ok [OF assms(1) w assms(2), of o4] do_finish_fail [OF r _ assms(1) w assms(2)] r
      by (cases "rc = CC3501E_HW_OK") (auto simp: op_result_def)
  next
    case OTA_OP_FLUSH
    then have r: "ota_flush E False o3 = (o4, rc)" and w: "ota_writing im img o3"
      and st: "ota_st o3 = OTA_STATE_WRITING"
      using assms(5) q by (simp_all add: ota_run_op_def)
    show ?thesis
      using flush_ok [OF assms(1) w assms(2), of False o4] flush_fail [OF r] r st base(2)
      by (cases "rc = CC3501E_HW_OK") (auto simp: op_result_def ota_same_session_def ota_writing_def)
  next
    case OTA_OP_IDLE
    then show ?thesis using q by simp
  qed
qed

lemma to_int8_codes: "rc \<in> {CC3501E_HW_OK, CC3501E_HW_ERR_IO, CC3501E_HW_ERR_INVAL} \<Longrightarrow> to_int8 rc \<noteq> OTA_OP_INFLIGHT"
  by (auto simp: to_int8_def hw_rc_defs OTA_OP_INFLIGHT_def)

lemma writing_frame:
  "ota_writing im img (o1\<lparr>ota_op := q, op_rc := r\<rparr>) = ota_writing im img o1"
  by (simp add: ota_writing_def)

lemma op_result_inv:
  assumes "op_result im img o4 rc" and "length im \<le> 2097152"
  defines "o5 \<equiv> if rc \<noteq> CC3501E_HW_OK \<and> rc \<noteq> CC3501E_HW_BUSY then o4\<lparr>ota_st := OTA_STATE_ERROR\<rparr> else o4"
  shows "ota_inv im img (o5\<lparr>ota_op := OTA_OP_IDLE, op_rc := to_int8 rc\<rparr>)"
proof (cases "rc = CC3501E_HW_OK")
  case True
  have "to_int8 rc \<noteq> OTA_OP_INFLIGHT" by (rule to_int8_codes) (simp add: True)
  moreover have "o5 = o4" by (simp add: o5_def True)
  moreover have "ota_st o4 = OTA_STATE_WRITING \<and> ota_writing im img o4
      \<or> ota_st o4 = OTA_STATE_STAGED \<and> img (env o4) (ota_target o4) = im \<and> unat (total_len o4) = length im"
    "length (window o4) = 16384"
    using assms(1) True by (simp_all add: op_result_def)
  ultimately show ?thesis using assms(2) by (auto simp: ota_inv_def ota_queue_ok_def writing_frame)
next
  case False
  then have rc: "rc \<in> {CC3501E_HW_ERR_IO, CC3501E_HW_ERR_INVAL}" and w: "length (window o4) = 16384"
    using assms(1) by (simp_all add: op_result_def)
  have "to_int8 rc \<noteq> OTA_OP_INFLIGHT" using rc by (intro to_int8_codes) simp
  moreover have "o5 = o4\<lparr>ota_st := OTA_STATE_ERROR\<rparr>" using rc by (auto simp: o5_def hw_rc_defs)
  ultimately show ?thesis using w assms(2) by (simp add: ota_inv_def ota_queue_ok_def)
qed

lemma pump_inv:
  assumes "psa_stages E img" and "unat (TI_FWU_MANIFEST_SIZE E) \<le> 16384" and "ota_inv im img o0"
  shows "ota_inv im img (cc3501e_hw_ota_pump E o0)"
proof -
  let ?o1 = "ota_prime E o0" let ?o3 = "pump_prepare E (ota_prime E o0)"
  obtain o4 rc where op: "ota_run_op E ?o3 = (o4, rc)" by fastforce
  have i1: "ota_inv im img ?o1" using ota_like_inv [OF prime_like [OF assms(1)]] assms(3) by blast
  show ?thesis
  proof (cases "op_rc ?o1 = OTA_OP_INFLIGHT")
    case False
    then show ?thesis using i1 by (simp add: pump_unfold [OF op])
  next
    case True
    have l3: "ota_like img ?o1 ?o3" by (rule prepare_like [OF assms(1)])
    have i3: "ota_inv im img ?o3" using ota_like_inv [OF l3] i1 by blast
    have "op_rc ?o3 = OTA_OP_INFLIGHT" using l3 True by (simp add: ota_like_def)
    note res = run_op_result [OF assms(1,2) i3 this op]
    let ?o5 = "if rc \<noteq> CC3501E_HW_OK \<and> rc \<noteq> CC3501E_HW_BUSY then o4\<lparr>ota_st := OTA_STATE_ERROR\<rparr> else o4"
    have "ota_inv im img (?o5\<lparr>ota_op := OTA_OP_IDLE, op_rc := to_int8 rc\<rparr>)"
      using assms(3) by (intro op_result_inv [OF res]) (simp add: ota_inv_def)
    then show ?thesis
      using ota_like_inv [OF settle_like [OF assms(1), of rc ?o5]] True by (simp add: pump_unfold [OF op])
  qed
qed

section \<open>The entry points\<close>

lemma submit_inv:
  assumes "ota_inv im img o1"
    and "q = OTA_OP_BEGIN \<and> unat (op_total o1) = length im \<and> ota_st o1 \<noteq> OTA_STATE_WRITING
      \<or> q \<in> {OTA_OP_FLUSH, OTA_OP_FINISH} \<and> ota_st o1 = OTA_STATE_WRITING"
  shows "ota_inv im img (fst (ota_submit q o1))"
  using assms by (auto simp: ota_submit_def ota_inv_def ota_queue_ok_def writing_frame)

lemma begin_inv:
  assumes "ota_inv im img o1" and "unat tot = length im"
  shows "ota_inv im img (fst (cc3501e_hw_ota_begin E tot o1))"
proof -
  let ?o = "(if ota_st o1 = OTA_STATE_ERROR then o1\<lparr>ota_st := OTA_STATE_IDLE, op_rc := CC3501E_HW_OK\<rparr>
    else o1)\<lparr>op_total := tot\<rparr>"
  have "ota_inv im img (fst (ota_submit OTA_OP_BEGIN ?o))"
    if "ota_st o1 \<noteq> OTA_STATE_WRITING" "op_rc o1 \<noteq> OTA_OP_INFLIGHT"
    using assms that
    by (intro submit_inv) (auto simp: ota_inv_def ota_queue_ok_def hw_rc_defs OTA_OP_INFLIGHT_def)
  then show ?thesis using assms(1) by (simp add: cc3501e_hw_ota_begin_def Let_def)
qed

lemma accept_chunk:
  assumes "ota_writing im img o1" and "dat = take (length dat) (drop (unat (cursor o1)) im)"
    and "unat (cursor o1) + length dat \<le> length im"
    and "unat (window_used o1) + length dat \<le> 16384"
  shows "ota_writing im img (o1\<lparr>window := take (unat (window_used o1)) (window o1) @ dat
       @ drop (unat (window_used o1) + length dat) (window o1),
     window_used := window_used o1 + word_of_nat (length dat),
     cursor := cursor o1 + word_of_nat (length dat)\<rparr>)"
    and "unat (window_used o1 + word_of_nat (length dat)) = unat (window_used o1) + length dat"
    and "unat (cursor o1 + word_of_nat (length dat)) = unat (cursor o1) + length dat"
proof -
  note w = assms(1) [unfolded ota_writing_def]
  have n: "unat (word_of_nat (length dat) :: u32) = length dat" using assms(4) by (simp add: unat_of_nat)
  show u: "unat (window_used o1 + word_of_nat (length dat)) = unat (window_used o1) + length dat"
    using assms(4) n by (subst unat_add_small) simp_all
  show c: "unat (cursor o1 + word_of_nat (length dat)) = unat (cursor o1) + length dat"
    using assms(3) w n by (subst unat_add_small) simp_all
  have l: "length (take (unat (window_used o1)) (window o1)) = unat (window_used o1)"
    using conjunct1 [OF conjunct2 [OF w]] conjunct1 [OF conjunct2 [OF conjunct2 [OF w]]] by simp
  have "take (unat (window_used o1)) (window o1) @ dat =
      take (unat (window_used o1)) (drop (unat (window_base o1)) im)
      @ take (length dat) (drop (unat (window_used o1)) (drop (unat (window_base o1)) im))"
    using ota_writing_window [OF assms(1)] assms(2) w by (simp add: add.commute)
  then have "take (unat (window_used o1)) (window o1) @ dat =
      take (unat (window_used o1) + length dat) (drop (unat (window_base o1)) im)"
    by (simp only: take_add)
  then show "ota_writing im img (o1\<lparr>window := take (unat (window_used o1)) (window o1) @ dat
       @ drop (unat (window_used o1) + length dat) (window o1),
     window_used := window_used o1 + word_of_nat (length dat),
     cursor := cursor o1 + word_of_nat (length dat)\<rparr>)"
    using w assms(3,4) u c l by (cases "started o1") (simp_all add: ota_writing_def)
qed

lemma write_inv:
  assumes "ota_inv im img o1" and "dat = take (length dat) (drop (unat off) im)"
  shows "ota_inv im img (fst (cc3501e_hw_ota_write E off dat o1))"
proof -
  let ?o = "o1\<lparr>window := take (unat (window_used o1)) (window o1) @ dat
       @ drop (unat (window_used o1) + length dat) (window o1),
     window_used := window_used o1 + word_of_nat (length dat),
     cursor := cursor o1 + word_of_nat (length dat)\<rparr>"
  show ?thesis
  proof (cases "ota_st o1 = OTA_STATE_WRITING \<and> op_rc o1 \<noteq> OTA_OP_INFLIGHT \<and> off = cursor o1
      \<and> unat off + length dat \<le> unat (total_len o1)")
    case False
    then show ?thesis using assms(1) by (auto simp: cc3501e_hw_ota_write_def)
  next
    case True
    then have st: "ota_st o1 = OTA_STATE_WRITING" and q: "op_rc o1 \<noteq> OTA_OP_INFLIGHT"
      and w: "ota_writing im img o1" using assms(1) by (simp_all add: ota_inv_def)
    have f: "ota_inv im img (fst (ota_submit OTA_OP_FLUSH o1))"
      using assms(1) st by (intro submit_inv) simp_all
    have off: "off = cursor o1" "unat off + length dat \<le> unat (total_len o1)" using True by blast+
    have c: "dat = take (length dat) (drop (unat (cursor o1)) im)" "unat (cursor o1) + length dat \<le> length im"
      using off(2) assms(2) ota_writing_total [OF w] unfolding off(1) by simp_all
    have new: "ota_inv im img ?o \<and> ota_inv im img (fst (ota_submit OTA_OP_FLUSH ?o))"
      if fit: "\<not> length dat > unat (CC3501E_OTA_WINDOW - window_used o1)"
    proof -
      have "unat (window_used o1) \<le> 16384" using w by (simp add: ota_writing_def)
      then have "unat (CC3501E_OTA_WINDOW - window_used o1) = 16384 - unat (window_used o1)"
        by (subst unat_sub) (simp_all add: word_le_nat_alt ota_window_size)
      then have "unat (window_used o1) + length dat \<le> 16384"
        using fit \<open>unat (window_used o1) \<le> 16384\<close> by linarith
      note a = accept_chunk [OF w c this]
      have "length (window ?o) = 16384" using a(1) unfolding ota_writing_def by blast
      then have i: "ota_inv im img ?o" using assms(1) a(1) st q by (simp add: ota_inv_def ota_queue_ok_def)
      then show ?thesis using st by (auto intro!: submit_inv)
    qed
    show ?thesis using assms(1) f new by (simp add: cc3501e_hw_ota_write_def Let_def)
  qed
qed

lemma finish_inv: "ota_inv im img o1 \<Longrightarrow> ota_inv im img (fst (cc3501e_hw_ota_finish o1))"
  by (auto simp: cc3501e_hw_ota_finish_def intro!: submit_inv)

lemma abort_inv: "ota_inv im img o1 \<Longrightarrow> ota_inv im img (fst (cc3501e_hw_ota_abort o1))"
  by (simp add: cc3501e_hw_ota_abort_def ota_inv_def ota_queue_ok_def OTA_OP_INFLIGHT_def)

section \<open>Whole sessions\<close>

text \<open>
  What happens to the update machinery: the host's five requests, the pump on the task, the
  transport's note that a reply has been clocked out, and the tick's deferred reboot.
\<close>

datatype ota_event = Begin u32 | Write u32 "byte list" | Finish | Abort | Promote | Pump | Drained | Tick

fun ota_step :: "'e ota_env \<Rightarrow> ota_event \<Rightarrow> 'e ti_ota \<Rightarrow> 'e ti_ota" where
  "ota_step E (Begin n) o1 = fst (cc3501e_hw_ota_begin E n o1)"
| "ota_step E (Write off dat) o1 = fst (cc3501e_hw_ota_write E off dat o1)"
| "ota_step E Finish o1 = fst (cc3501e_hw_ota_finish o1)"
| "ota_step E Abort o1 = fst (cc3501e_hw_ota_abort o1)"
| "ota_step E Promote o1 = fst (cc3501e_hw_ota_promote E o1)"
| "ota_step E Pump o1 = cc3501e_hw_ota_pump E o1"
| "ota_step E Drained o1 = ota_notify_reply_sent o1"
| "ota_step E Tick o1 = ota_reboot_tick E o1"

text \<open>The host announces the image's length and sends pieces of it, in any order and repetition.\<close>

fun sends :: "byte list \<Rightarrow> ota_event \<Rightarrow> bool" where
  "sends im (Begin n) \<longleftrightarrow> unat n = length im"
| "sends im (Write off dat) \<longleftrightarrow> dat = take (length dat) (drop (unat off) im)"
| "sends im _ \<longleftrightarrow> True"

lemma reboot_tick_like:
  assumes "psa_stages E img"
  shows "ota_like img o1 (ota_reboot_tick E o1)"
proof -
  obtain e rc where r: "psa_fwu_request_reboot E (env o1) = (e, rc)" by (metis surj_pair)
  have "img e = img (env o1)" using psa_stages_keep(5) [OF assms, of "env o1"] by (simp add: r)
  then show ?thesis by (simp add: ota_reboot_tick_def env_call_def r ota_like_def)
qed

lemma promote_like:
  assumes "psa_stages E img"
  shows "ota_like img o1 (fst (cc3501e_hw_ota_promote E o1))"
  by (simp add: cc3501e_hw_ota_promote_def env_do_def ota_like_def psa_stages_keep [OF assms])

lemma drained_like: "ota_like img o1 (ota_notify_reply_sent o1)"
  by (simp add: ota_notify_reply_sent_def ota_like_def)

lemma step_inv:
  assumes "psa_stages E img" and "unat (TI_FWU_MANIFEST_SIZE E) \<le> 16384" and "ota_inv im img o1"
    and "sends im ev"
  shows "ota_inv im img (ota_step E ev o1)"
  using assms
  by (cases ev)
     (simp_all add: begin_inv write_inv finish_inv abort_inv pump_inv
       ota_like_inv [OF reboot_tick_like [OF assms(1)]] ota_like_inv [OF promote_like [OF assms(1)]]
       ota_like_inv [OF drained_like [where img = img]])

lemma run_inv:
  assumes "psa_stages E img" and "unat (TI_FWU_MANIFEST_SIZE E) \<le> 16384" and "ota_inv im img o1"
    and "list_all (sends im) evs"
  shows "ota_inv im img (fold (ota_step E) evs o1)"
  using assms(3,4) by (induction evs arbitrary: o1) (simp_all add: step_inv [OF assms(1,2)])

end
