(* ===== verification/Ota_Upload.thy ===== *)
theory Ota_Upload
  imports Ota_Image
begin

text \<open>
  What a firmware update delivers: whatever is staged is the image the host sent; when the flash
  service accepts every call, a host that announces an image, sends it in chunks (each of them
  twice, with a pump after each, as a host that waits out the flush would) and finishes, ends with
  the image staged; and only \<open>PROMOTE\<close> arms the swap reboot.
\<close>

definition psa_works :: "'e ota_env \<Rightarrow> bool" where
  "psa_works E \<longleftrightarrow>
     (\<forall>t e. fst (snd (psa_fwu_query E t e)) = PSA_SUCCESS E)
     \<and> (\<forall>t m e. snd (psa_fwu_start E t m e) = PSA_SUCCESS E)
     \<and> (\<forall>t off d e. snd (psa_fwu_write E t off d e) = PSA_SUCCESS E)
     \<and> (\<forall>t e. snd (psa_fwu_finish E t e) = PSA_SUCCESS E) \<and> (\<forall>e. snd (psa_fwu_install E e) = PSA_SUCCESS E)"

lemma psa_worksD:
  assumes "psa_works E"
  shows "psa_fwu_query E t e = (e1, q, p, st) \<Longrightarrow> q = PSA_SUCCESS E"
    and "psa_fwu_start E t m e = (e1, r) \<Longrightarrow> r = PSA_SUCCESS E"
    and "psa_fwu_write E t off d e = (e1, r) \<Longrightarrow> r = PSA_SUCCESS E"
    and "psa_fwu_finish E t e = (e1, r) \<Longrightarrow> r = PSA_SUCCESS E"
    and "psa_fwu_install E e = (e1, r) \<Longrightarrow> r = PSA_SUCCESS E"
  using assms by (metis psa_works_def fst_conv snd_conv)+

section \<open>Every operation succeeds\<close>

lemma write_blocks_works:
  assumes "psa_works E"
  shows "snd (ota_write_blocks E t win base off stop e) = None"
  using assms
proof (induction E t win base off stop e rule: ota_write_blocks.induct)
  case (1 E t win base off stop e)
  define n where "n = (if stop - off > CC3501E_OTA_FINISH_FLASH_BLOCK
      then CC3501E_OTA_FINISH_FLASH_BLOCK else stop - off)"
  obtain e1 pw where w: "psa_fwu_write E t off (take (unat n) (drop (unat (off - base)) win)) e = (e1, pw)"
    by (metis surj_pair)
  note ok = psa_worksD(3) [OF "1.prems" w]
  show ?case
  proof (cases "off < stop")
    case True
    have "snd (ota_write_blocks E t win base (off + n) stop e1) = None"
      by (rule "1.IH" [OF True n_def w [symmetric] _ "1.prems"]) (simp add: ok)
    then show ?thesis
      by (subst ota_write_blocks.simps) (simp add: True Let_def n_def [symmetric] w ok)
  qed (subst ota_write_blocks.simps, simp)
qed

lemma open_slot_works:
  assumes "psa_works E" and "started o0 \<or> TI_FWU_MANIFEST_SIZE E \<le> window_used o0"
  shows "snd (ota_open_slot E o0) = CC3501E_HW_OK"
proof -
  obtain e ps where c: "psa_fwu_start E (ota_target o0) (take (unat (TI_FWU_MANIFEST_SIZE E)) (window o0)) (env o0)
      = (e, ps)" by (metis surj_pair)
  show ?thesis
    using assms(2) psa_worksD(2) [OF assms(1) c]
    by (auto simp: ota_open_slot_def env_call_def c not_less)
qed

lemma flush_works:
  assumes "psa_works E" and "started o0 \<or> TI_FWU_MANIFEST_SIZE E \<le> window_used o0"
  shows "snd (ota_flush E final o0) = CC3501E_HW_OK"
proof -
  obtain o1 where op: "ota_open_slot E o0 = (o1, CC3501E_HW_OK)"
    using open_slot_works [OF assms] by (metis surj_pair snd_conv)
  let ?wb = "ota_write_blocks E (ota_target o1) (window o1) (window_base o1) (flushed o1)
      (flushed o1 + ota_ready_bytes final o1) (env o1)"
  obtain e where wb: "?wb = (e, None)"
    using write_blocks_works [OF assms(1)] by (metis surj_pair snd_conv)
  show ?thesis by (simp add: ota_flush_def op Let_def env_call_def wb)
qed

lemma pick_target_works:
  assumes "psa_works E"
  shows "\<exists>o2 t. ota_pick_target E o1 = (o2, Some t)"
proof -
  obtain e1 q1 p1 s1 where a: "psa_fwu_query E Vendor_Image_Slot_1 (env o1) = (e1, q1, p1, s1)"
    by (metis prod_cases4)
  obtain e2 q2 p2 s2 where b: "psa_fwu_query E Vendor_Image_Slot_2 e1 = (e2, q2, p2, s2)"
    by (metis prod_cases4)
  note ok = psa_worksD(1) [OF assms a] psa_worksD(1) [OF assms b]
  show ?thesis
    by (cases "p1 \<and> \<not> p2"; cases "p2 \<and> \<not> p1")
       (auto simp: ota_pick_target_def env_call_def a b ok Let_def split: prod.split)
qed

lemma do_begin_works:
  assumes "psa_works E"
  shows "snd (ota_do_begin E o1) = CC3501E_HW_OK"
proof -
  obtain o2 t where p: "ota_pick_target E (env_do (psa_fwu_init E) o1) = (o2, Some t)"
    using pick_target_works [OF assms] by blast
  obtain e q pr st where a: "psa_fwu_query E t (env o2) = (e, q, pr, st)" by (metis prod_cases4)
  show ?thesis using psa_worksD(1) [OF assms a] by (simp add: ota_do_begin_def p env_call_def a)
qed

section \<open>Between requests\<close>

text \<open>A session waiting for the chunk at offset \<open>k\<close>, with room for it after at most one flush.\<close>

definition flush_mark :: "'e ota_env \<Rightarrow> 'e ti_ota \<Rightarrow> bool" where
  "flush_mark E o1 \<longleftrightarrow>
     (if started o1 then flushed o1 = window_base o1 \<or> window_base o1 = 0 \<and> flushed o1 = TI_FWU_MANIFEST_SIZE E
      else unat (window_used o1) < unat (TI_FWU_MANIFEST_SIZE E))"

definition awaiting ::
    "'e ota_env \<Rightarrow> byte list \<Rightarrow> ('e \<Rightarrow> vendor_slot \<Rightarrow> byte list) \<Rightarrow> nat \<Rightarrow> 'e ti_ota \<Rightarrow> bool" where
  "awaiting E im img k o1 \<longleftrightarrow> ota_inv im img o1 \<and> ota_st o1 = OTA_STATE_WRITING
     \<and> op_rc o1 \<noteq> OTA_OP_INFLIGHT \<and> unat (cursor o1) = k \<and> flush_mark E o1"

lemma awaiting_like: "ota_like img o1 o2 \<Longrightarrow> awaiting E im img k o2 = awaiting E im img k o1"
  using ota_like_inv [of img o1 o2 im] by (simp add: awaiting_def flush_mark_def ota_like_def)

lemma pump_idle:
  assumes "psa_stages E img" and "op_rc o1 \<noteq> OTA_OP_INFLIGHT"
  shows "ota_like img o1 (cc3501e_hw_ota_pump E o1)"
proof -
  have l: "ota_like img o1 (ota_prime E o1)" by (rule prime_like [OF assms(1)])
  obtain o4 rc where op: "ota_run_op E (pump_prepare E (ota_prime E o1)) = (o4, rc)" by (metis surj_pair)
  show ?thesis using l assms(2) by (simp add: pump_unfold [OF op] ota_like_def)
qed

text \<open>A queued operation that succeeds is run on a state like the one it was queued in.\<close>

lemma pump_op:
  assumes "psa_stages E img" and "op_rc o1 = OTA_OP_INFLIGHT"
    and "\<And>o3. ota_like img o1 o3 \<Longrightarrow> snd (ota_run_op E o3) = CC3501E_HW_OK"
  shows "\<exists>o3 o4. ota_like img o1 o3 \<and> ota_run_op E o3 = (o4, CC3501E_HW_OK)
    \<and> ota_like img (o4\<lparr>ota_op := OTA_OP_IDLE, op_rc := 0\<rparr>) (cc3501e_hw_ota_pump E o1)"
proof -
  let ?o3 = "pump_prepare E (ota_prime E o1)"
  have l1: "ota_like img o1 (ota_prime E o1)" by (rule prime_like [OF assms(1)])
  have l: "ota_like img o1 ?o3" by (rule ota_like_trans [OF l1 prepare_like [OF assms(1)]])
  obtain o4 where op: "ota_run_op E ?o3 = (o4, CC3501E_HW_OK)"
    using assms(3) [OF l] by (metis surj_pair snd_conv)
  have "op_rc (ota_prime E o1) = OTA_OP_INFLIGHT" using l1 assms(2) by (simp add: ota_like_def)
  then have "cc3501e_hw_ota_pump E o1 =
      pump_settle E (env_spi_polled E (env (ota_prime E o1))) CC3501E_HW_OK o4"
    by (simp add: pump_unfold [OF op])
  moreover have "to_int8 CC3501E_HW_OK = 0" by (simp add: to_int8_def hw_rc_defs)
  ultimately show ?thesis using l op settle_like [OF assms(1), of CC3501E_HW_OK o4] by auto
qed

section \<open>A flush makes room\<close>

lemma ready_bytes_nat:
  assumes "ota_writing im img o1" and "started o1"
  defines "r \<equiv> unat (cursor o1) - unat (flushed o1)"
  shows "unat (ota_ready_bytes False o1) =
    (if r div 4096 = 0 \<and> 16384 \<le> unat (window_used o1) then r else 4096 * (r div 4096))"
proof -
  let ?n = "if window_base o1 + window_used o1 > flushed o1
    then window_base o1 + window_used o1 - flushed o1 else 0"
  have e: "unat (window_base o1 + window_used o1) = unat (cursor o1)" by (rule ready_bytes_le(4) [OF assms(1,2)])
  have "unat (flushed o1) \<le> unat (cursor o1)" using assms(1,2) by (simp add: ota_writing_def)
  then have n: "unat ?n = r" using e by (simp add: r_def word_less_nat_alt unat_sub word_le_nat_alt)
  have w: "unat (?n AND NOT (CC3501E_OTA_FINISH_FLASH_BLOCK - 1)) = 4096 * (r div 4096)"
    unfolding whole_blocks n ..
  then have z: "?n AND NOT (CC3501E_OTA_FINISH_FLASH_BLOCK - 1) = 0 \<longleftrightarrow> r div 4096 = 0"
    by (metis mult_eq_0_iff unat_eq_0 zero_neq_numeral)
  have u: "CC3501E_OTA_WINDOW \<le> window_used o1 \<longleftrightarrow> 16384 \<le> unat (window_used o1)"
    by (simp add: word_le_nat_alt ota_window_size)
  show ?thesis
    unfolding ota_ready_bytes_def Let_def using n w z u by simp
qed

lemma flush_room:
  assumes "psa_stages E img" and "ota_writing im img o0" and "unat (TI_FWU_MANIFEST_SIZE E) \<le> 8192"
    and "ota_flush E False o0 = (o', CC3501E_HW_OK)" and "started o0 \<longrightarrow> flush_mark E o0"
  shows "flush_mark E o' \<and> unat (window_used o') < 4096 + unat (TI_FWU_MANIFEST_SIZE E)"
proof -
  let ?m = "TI_FWU_MANIFEST_SIZE E"
  have m: "unat ?m \<le> 16384" using assms(3) by simp
  obtain o1 rc where op: "ota_open_slot E o0 = (o1, rc)" by fastforce
  have rc: "rc = CC3501E_HW_OK" using assms(4) by (auto simp: ota_flush_def op split: if_splits)
  note o1 = open_slot_ok [OF assms(1,2) m op [unfolded rc]]
  then have w1: "ota_writing im img o1" and s1: "started o1" by blast+
  have mark: "flushed o1 = window_base o1 \<or> window_base o1 = 0 \<and> flushed o1 = ?m"
  proof (cases "started o0")
    case True
    then show ?thesis using op rc assms(5) by (simp add: ota_open_slot_def flush_mark_def)
  next
    case False
    then have "window_base o0 = 0" "flushed o1 = ?m"
      using assms(2) op rc
      by (auto simp: ota_writing_def ota_open_slot_def env_call_def hw_rc_defs split: if_splits prod.splits)
    then show ?thesis using o1 by simp
  qed
  define r where "r = unat (cursor o1) - unat (flushed o1)"
  define n where "n = ota_ready_bytes False o1"
  note nn = ready_bytes_nat [OF w1 s1, folded r_def n_def]
  have cur: "unat (cursor o1) = unat (window_base o1) + unat (window_used o1)" "unat (window_used o1) \<le> 16384"
    "unat (flushed o1) \<le> unat (cursor o1)"
    using w1 s1 by (auto simp: ota_writing_def)
  have lt: "r mod 4096 < 4096" "r = 4096 * (r div 4096) + r mod 4096" by simp_all
  show ?thesis
  proof (cases "n = 0")
    case True
    then have "o' = o1" using assms(4) by (simp add: ota_flush_def op rc n_def [symmetric])
    moreover have "r < 4096" using nn True lt by (auto split: if_splits)
    ultimately show ?thesis
      using mark s1 cur(1) by (auto simp: flush_mark_def r_def)
  next
    case False
    define stop where "stop = flushed o1 + n"
    obtain e x where wb: "ota_write_blocks E (ota_target o1) (window o1) (window_base o1) (flushed o1) stop (env o1) = (e, x)"
      by (metis surj_pair)
    have x: "x = None"
      using assms(4) False
      by (cases x) (simp_all add: ota_flush_def op rc n_def [symmetric] stop_def [symmetric] env_call_def wb
          Let_def hw_rc_defs)
    have o': "window_used o' = window_base o1 + window_used o1 - stop" "window_base o' = stop"
      "flushed o' = stop" "started o'"
      using assms(4) False wb [unfolded x] s1
      by (auto simp: ota_flush_def op rc n_def [symmetric] stop_def [symmetric] env_call_def Let_def)
    have st: "unat stop = unat (flushed o1) + unat n" "unat stop \<le> unat (cursor o1)"
      using ready_bytes_le(1,2) [OF w1 s1, of False] by (simp_all add: stop_def n_def)
    have "unat (window_used o') = unat (cursor o1) - unat stop"
      unfolding o'(1) using ready_bytes_le(4) [OF w1 s1] st(2) by (subst unat_sub) (simp_all add: word_le_nat_alt)
    also have "\<dots> = r - unat n" using st(1) by (simp add: r_def)
    also have "\<dots> < 4096" using nn lt by (auto split: if_splits)
    finally show ?thesis using o' by (simp add: flush_mark_def)
  qed
qed

text \<open>The pump after a queued flush: the session goes on, with room for the next chunk.\<close>

lemma pump_flush:
  assumes "psa_stages E img" and "psa_works E" and "unat (TI_FWU_MANIFEST_SIZE E) \<le> 8192"
    and "ota_inv im img o1" and "ota_st o1 = OTA_STATE_WRITING" and "op_rc o1 = OTA_OP_INFLIGHT"
    and "ota_op o1 = OTA_OP_FLUSH" and "unat (cursor o1) = k"
    and "if started o1 then flush_mark E o1 else TI_FWU_MANIFEST_SIZE E \<le> window_used o1"
  shows "awaiting E im img k (cc3501e_hw_ota_pump E o1)
    \<and> unat (window_used (cc3501e_hw_ota_pump E o1)) < 4096 + unat (TI_FWU_MANIFEST_SIZE E)
    \<and> started (cc3501e_hw_ota_pump E o1)"
proof -
  have m: "unat (TI_FWU_MANIFEST_SIZE E) \<le> 16384" using assms(3) by simp
  have run: "ota_run_op E o3 = ota_flush E False o3" if "ota_like img o1 o3" for o3
    using that assms(7) by (simp add: ota_like_def ota_run_op_def)
  have works: "snd (ota_run_op E o3) = CC3501E_HW_OK" if l: "ota_like img o1 o3" for o3
    unfolding run [OF l] using assms(9) l by (intro flush_works [OF assms(2)]) (auto simp: ota_like_def split: if_splits)
  from pump_op [OF assms(1,6) works] obtain o3 o4 where
    l: "ota_like img o1 o3" and r: "ota_run_op E o3 = (o4, CC3501E_HW_OK)"
    and p: "ota_like img (o4\<lparr>ota_op := OTA_OP_IDLE, op_rc := 0\<rparr>) (cc3501e_hw_ota_pump E o1)" by blast
  have fl: "ota_flush E False o3 = (o4, CC3501E_HW_OK)" using r run [OF l] by simp
  have w: "ota_writing im img o3"
    using assms(4,5) ota_like_inv [OF l, of im] l by (simp add: ota_inv_def ota_like_def)
  have mk: "started o3 \<longrightarrow> flush_mark E o3" using assms(9) l by (auto simp: ota_like_def flush_mark_def)
  note o4 = flush_ok [OF assms(1) w m fl] flush_room [OF assms(1) w assms(3) fl mk]
  have inv: "ota_inv im img (cc3501e_hw_ota_pump E o1)" by (rule pump_inv [OF assms(1) m assms(4)])
  show ?thesis
    using o4 p l inv assms(5,8)
    by (auto simp: awaiting_def ota_like_def flush_mark_def ota_same_session_def OTA_OP_INFLIGHT_def)
qed

section \<open>One chunk\<close>

definition chunk_ok :: "'e ota_env \<Rightarrow> byte list \<Rightarrow> u32 \<Rightarrow> byte list \<Rightarrow> bool" where
  "chunk_ok E im off dat \<longleftrightarrow> dat \<noteq> [] \<and> length dat \<le> unat (OTA_CHUNK_MAX E) \<and> length dat \<le> 4096
     \<and> unat off + length dat \<le> length im \<and> dat = take (length dat) (drop (unat off) im)"

lemma awaiting_writing: "awaiting E im img k o1 \<Longrightarrow> ota_writing im img o1"
  by (simp add: awaiting_def ota_inv_def)

lemma awaiting_pump:
  assumes "psa_stages E img" and "awaiting E im img k o1"
  shows "awaiting E im img k (cc3501e_hw_ota_pump E o1)"
  using assms awaiting_like [OF pump_idle [OF assms(1)]] by (simp add: awaiting_def)

lemma write_fits:
  assumes "awaiting E im img (unat off) o1" and "chunk_ok E im off dat"
    and "unat (window_used o1) + length dat \<le> 16384"
  defines "o2 \<equiv> o1\<lparr>window := take (unat (window_used o1)) (window o1) @ dat
       @ drop (unat (window_used o1) + length dat) (window o1),
     window_used := window_used o1 + word_of_nat (length dat),
     cursor := cursor o1 + word_of_nat (length dat)\<rparr>"
  shows "fst (cc3501e_hw_ota_write E off dat o1) =
      (if \<not> started o1 \<and> window_used o2 \<ge> TI_FWU_MANIFEST_SIZE E
       then o2\<lparr>ota_op := OTA_OP_FLUSH, op_rc := OTA_OP_INFLIGHT\<rparr> else o2)"
    and "unat (cursor o2) = unat off + length dat"
proof -
  note w = awaiting_writing [OF assms(1)]
  have a: "ota_st o1 = OTA_STATE_WRITING" "op_rc o1 \<noteq> OTA_OP_INFLIGHT" "off = cursor o1"
    using assms(1) by (simp_all add: awaiting_def word_unat_eq_iff)
  have c: "length dat \<noteq> 0" "length dat \<le> unat (OTA_CHUNK_MAX E)" "unat off + length dat \<le> length im"
    "dat = take (length dat) (drop (unat (cursor o1)) im)"
    using assms(2) a(3) unfolding chunk_ok_def by auto
  have room: "unat (CC3501E_OTA_WINDOW - window_used o1) = 16384 - unat (window_used o1)"
    using assms(3) by (subst unat_sub) (simp_all add: word_le_nat_alt ota_window_size)
  note acc = accept_chunk [OF w c(4) _ assms(3)]
  show "unat (cursor o2) = unat off + length dat" using acc(3) c(3) a(3) by (simp add: o2_def)
  have g: "\<not> unat off + length dat \<le> unat (cursor o1)" "\<not> unat off + length dat > unat (total_len o1)"
    "\<not> length dat > unat (CC3501E_OTA_WINDOW - window_used o1)" "\<not> length dat > unat (OTA_CHUNK_MAX E)"
    using c(1-3) a(3) ota_writing_total [OF w] assms(3) room by simp_all
  show "fst (cc3501e_hw_ota_write E off dat o1) =
      (if \<not> started o1 \<and> window_used o2 \<ge> TI_FWU_MANIFEST_SIZE E
       then o2\<lparr>ota_op := OTA_OP_FLUSH, op_rc := OTA_OP_INFLIGHT\<rparr> else o2)"
    unfolding cc3501e_hw_ota_write_def Let_def o2_def ota_submit_def using a g c(1)
    by (simp del: not_less not_le)
qed

lemma write_fits_pump:
  assumes "psa_stages E img" and "psa_works E" and "unat (TI_FWU_MANIFEST_SIZE E) \<le> 8192"
    and "awaiting E im img (unat off) o1" and "chunk_ok E im off dat"
    and "unat (window_used o1) + length dat \<le> 16384"
  shows "awaiting E im img (unat off + length dat) (ota_step E Pump (ota_step E (Write off dat) o1))"
proof -
  let ?w = "fst (cc3501e_hw_ota_write E off dat o1)"
  note f = write_fits [OF assms(4-6)]
  have d: "dat = take (length dat) (drop (unat off) im)" using assms(5) unfolding chunk_ok_def by blast
  have inv: "ota_inv im img ?w"
    using assms(4) by (intro write_inv [OF _ d]) (simp add: awaiting_def)
  have st: "ota_st o1 = OTA_STATE_WRITING" "op_rc o1 \<noteq> OTA_OP_INFLIGHT" "flush_mark E o1"
    using assms(4) by (simp_all add: awaiting_def)
  show ?thesis
  proof (cases "\<not> started o1 \<and> window_used o1 + word_of_nat (length dat) \<ge> TI_FWU_MANIFEST_SIZE E")
    case True
    have "ota_st ?w = OTA_STATE_WRITING" "op_rc ?w = OTA_OP_INFLIGHT" "ota_op ?w = OTA_OP_FLUSH"
      "unat (cursor ?w) = unat off + length dat"
      "if started ?w then flush_mark E ?w else TI_FWU_MANIFEST_SIZE E \<le> window_used ?w"
      using f True st(1) by simp_all
    from pump_flush [OF assms(1-3) inv this] show ?thesis by simp
  next
    case False
    have "flush_mark E ?w" using f(1) False st(3) by (auto simp: flush_mark_def word_le_nat_alt)
    then have "awaiting E im img (unat off + length dat) ?w"
      using f False st inv by (simp add: awaiting_def)
    from awaiting_pump [OF assms(1) this] show ?thesis by simp
  qed
qed

lemma write_again:
  assumes "awaiting E im img (unat off + length dat) o1" and "chunk_ok E im off dat"
  shows "ota_step E (Write off dat) o1 = o1"
  using assms by (auto simp: awaiting_def chunk_ok_def cc3501e_hw_ota_write_def)

lemma chunk_step:
  assumes "psa_stages E img" and "psa_works E" and "unat (TI_FWU_MANIFEST_SIZE E) \<le> 8192"
    and "awaiting E im img (unat off) o1" and "chunk_ok E im off dat"
  shows "awaiting E im img (unat off + length dat)
    (fold (ota_step E) [Write off dat, Pump, Write off dat, Pump] o1)"
proof (cases "unat (window_used o1) + length dat \<le> 16384")
  case True
  let ?o = "ota_step E Pump (ota_step E (Write off dat) o1)"
  have aw: "awaiting E im img (unat off + length dat) ?o" by (rule write_fits_pump [OF assms True])
  from awaiting_pump [OF assms(1) aw] show ?thesis using write_again [OF aw assms(5)] by simp
next
  case False
  have c: "length dat \<le> 4096" "dat \<noteq> []" "length dat \<le> unat (OTA_CHUNK_MAX E)"
    "unat off + length dat \<le> length im"
    using assms(5) unfolding chunk_ok_def by blast+
  have a: "ota_inv im img o1" "ota_st o1 = OTA_STATE_WRITING" "op_rc o1 \<noteq> OTA_OP_INFLIGHT" "off = cursor o1"
    "flush_mark E o1"
    using assms(4) by (simp_all add: awaiting_def word_unat_eq_iff)
  note w = awaiting_writing [OF assms(4)]
  have st: "started o1" using False c(1) a(5) assms(3) by (auto simp: flush_mark_def split: if_splits)
  have u: "unat (window_used o1) \<le> 16384" using w by (simp add: ota_writing_def)
  then have room: "unat (CC3501E_OTA_WINDOW - window_used o1) = 16384 - unat (window_used o1)"
    by (subst unat_sub) (simp_all add: word_le_nat_alt ota_window_size)
  let ?w = "o1\<lparr>ota_op := OTA_OP_FLUSH, op_rc := OTA_OP_INFLIGHT\<rparr>"
  have wr: "fst (cc3501e_hw_ota_write E off dat o1) = ?w"
    using a c ota_writing_total [OF w] room False u by (simp add: cc3501e_hw_ota_write_def ota_submit_def)
  have "ota_inv im img ?w" using a(1,2) w by (auto simp: ota_inv_def ota_queue_ok_def writing_frame)
  from pump_flush [OF assms(1-3) this, of "unat off"] a st
  have p: "awaiting E im img (unat off) (cc3501e_hw_ota_pump E ?w)"
    "unat (window_used (cc3501e_hw_ota_pump E ?w)) < 4096 + unat (TI_FWU_MANIFEST_SIZE E)"
    by (simp_all add: flush_mark_def)
  have "unat (window_used (cc3501e_hw_ota_pump E ?w)) + length dat \<le> 16384"
    using p(2) assms(3) c(1) by linarith
  from write_fits_pump [OF assms(1-3) p(1) assms(5) this] show ?thesis by (simp add: wr)
qed

section \<open>The whole upload\<close>

fun chunk_events :: "u32 \<Rightarrow> byte list list \<Rightarrow> ota_event list" where
  "chunk_events off [] = []"
| "chunk_events off (d # ds) =
     [Write off d, Pump, Write off d, Pump] @ chunk_events (off + word_of_nat (length d)) ds"

definition upload :: "byte list list \<Rightarrow> ota_event list" where
  "upload ds = [Begin (word_of_nat (length (concat ds))), Pump] @ chunk_events 0 ds @ [Finish, Pump]"

definition chunks_ok :: "'e ota_env \<Rightarrow> byte list list \<Rightarrow> bool" where
  "chunks_ok E ds \<longleftrightarrow> (\<forall>d \<in> set ds. d \<noteq> [] \<and> length d \<le> unat (OTA_CHUNK_MAX E) \<and> length d \<le> 4096)"

lemma chunk_offset:
  fixes off :: u32
  assumes "unat off + length (concat (d # ds)) \<le> 2097152"
  shows "unat (off + word_of_nat (length d)) = unat off + length d"
proof -
  have n: "unat (word_of_nat (length d) :: u32) = length d" using assms by (simp add: unat_of_nat)
  show ?thesis using assms unat_add_small [of off "word_of_nat (length d)"] by (simp add: n)
qed

lemma chunks_run:
  assumes "psa_stages E img" and "psa_works E" and "unat (TI_FWU_MANIFEST_SIZE E) \<le> 8192"
    and "awaiting E im img (unat off) o1" and "drop (unat off) im = concat ds" and "chunks_ok E ds"
    and "unat off + length (concat ds) = length im" and "length im \<le> 2097152"
  shows "awaiting E im img (length im) (fold (ota_step E) (chunk_events off ds) o1)"
  using assms(4-7)
proof (induction ds arbitrary: off o1)
  case Nil
  then show ?case by simp
next
  case (Cons d ds)
  have k: "unat (off + word_of_nat (length d)) = unat off + length d"
    by (rule chunk_offset [of off d ds]) (use Cons.prems(4) assms(8) in simp)
  have c: "chunk_ok E im off d"
    using Cons.prems(2-4) by (auto simp: chunk_ok_def chunks_ok_def)
  have s: "awaiting E im img (unat off + length d) (fold (ota_step E) [Write off d, Pump, Write off d, Pump] o1)"
    by (rule chunk_step [OF assms(1-3) Cons.prems(1) c])
  have "drop (unat off + length d) im = concat ds"
    using Cons.prems(2) by (metis append_eq_conv_conj concat.simps(2) drop_drop add.commute)
  then have "awaiting E im img (length im) (fold (ota_step E) (chunk_events (off + word_of_nat (length d)) ds)
      (fold (ota_step E) [Write off d, Pump, Write off d, Pump] o1))"
    by (intro Cons.IH) (use s k Cons.prems(3,4) in \<open>simp_all add: chunks_ok_def\<close>)
  then show ?case by simp
qed

lemma begin_run_from:
  assumes "psa_stages E img" and "psa_works E" and "TI_FWU_MANIFEST_SIZE E \<noteq> 0"
    and "unat (TI_FWU_MANIFEST_SIZE E) < length im" and "length im \<le> 2097152"
    and "ota_st o0 = OTA_STATE_IDLE" and "op_rc o0 \<noteq> OTA_OP_INFLIGHT" and "length (window o0) = 16384"
  shows "awaiting E im img 0 (ota_step E Pump (ota_step E (Begin (word_of_nat (length im))) o0))"
proof -
  let ?n = "word_of_nat (length im) :: u32"
  let ?o = "o0\<lparr>op_total := ?n, ota_op := OTA_OP_BEGIN, op_rc := OTA_OP_INFLIGHT\<rparr>"
  have n: "unat ?n = length im" using assms(5) by (simp add: unat_of_nat)
  have b: "fst (cc3501e_hw_ota_begin E ?n o0) = ?o"
    using assms(4-7) n
    by (simp add: cc3501e_hw_ota_begin_def word_le_nat_alt word_less_nat_alt ota_image_max ota_submit_def)
  have i0: "ota_inv im img o0" using assms(5-8) by (simp add: ota_inv_def ota_queue_ok_def)
  have i: "ota_inv im img ?o" using begin_inv [OF i0 n, of E] b by simp
  have q: "op_rc ?o = OTA_OP_INFLIGHT" by simp
  have run: "ota_run_op E o3 = ota_do_begin E o3" if "ota_like img ?o o3" for o3
    using that by (simp add: ota_like_def ota_run_op_def)
  obtain o3 o4 where l: "ota_like img ?o o3" and r: "ota_run_op E o3 = (o4, CC3501E_HW_OK)"
    and p: "ota_like img (o4\<lparr>ota_op := OTA_OP_IDLE, op_rc := 0\<rparr>) (cc3501e_hw_ota_pump E ?o)"
    using pump_op [OF assms(1) q] run do_begin_works [OF assms(2)] by metis
  have o3: "unat (op_total o3) = length im" "length (window o3) = 16384"
    using l n i by (simp_all add: ota_like_def ota_inv_def)
  note o4 = do_begin_ok [OF r [unfolded run [OF l]] assms(5) o3, of img]
  have "awaiting E im img 0 (o4\<lparr>ota_op := OTA_OP_IDLE, op_rc := 0\<rparr>)"
    using o4 assms(3,5)
    by (auto simp: awaiting_def ota_inv_def ota_queue_ok_def writing_frame flush_mark_def OTA_OP_INFLIGHT_def
        ota_writing_def unat_gt_0)
  then show ?thesis using awaiting_like [OF p] b by simp
qed

lemma begin_run:
  assumes "psa_stages E img" and "psa_works E" and "TI_FWU_MANIFEST_SIZE E \<noteq> 0"
    and "unat (TI_FWU_MANIFEST_SIZE E) < length im" and "length im \<le> 2097152"
  shows "awaiting E im img 0 (ota_step E Pump (ota_step E (Begin (word_of_nat (length im))) (ota_reset e)))"
  by (rule begin_run_from [OF assms])
     (simp_all add: ota_reset_def OTA_OP_INFLIGHT_def ota_window_size)

lemma finish_run:
  assumes "psa_stages E img" and "psa_works E" and "unat (TI_FWU_MANIFEST_SIZE E) \<le> 8192"
    and "unat (TI_FWU_MANIFEST_SIZE E) < length im" and "awaiting E im img (length im) o1"
  shows "ota_st (ota_step E Pump (ota_step E Finish o1)) = OTA_STATE_STAGED"
proof -
  have m: "unat (TI_FWU_MANIFEST_SIZE E) \<le> 16384" using assms(3) by simp
  note w = awaiting_writing [OF assms(5)]
  have a: "ota_st o1 = OTA_STATE_WRITING" "op_rc o1 \<noteq> OTA_OP_INFLIGHT" "unat (cursor o1) = length im"
    "flush_mark E o1" using assms(5) by (simp_all add: awaiting_def)
  let ?o = "o1\<lparr>ota_op := OTA_OP_FINISH, op_rc := OTA_OP_INFLIGHT\<rparr>"
  have f: "fst (cc3501e_hw_ota_finish o1) = ?o" using a by (simp add: cc3501e_hw_ota_finish_def ota_submit_def)
  have st: "started o1" using a(3,4) w assms(4) by (auto simp: flush_mark_def ota_writing_def split: if_splits)
  have tot: "cursor o1 = total_len o1" using a(3) ota_writing_total [OF w] by (simp add: word_unat_eq_iff)
  have works: "ota_run_op E o3 = ota_do_finish E o3 \<and> snd (ota_do_finish E o3) = CC3501E_HW_OK
      \<and> ota_writing im img o3" if l: "ota_like img ?o o3" for o3
  proof -
    have w3: "ota_writing im img o3" using w l st by (simp add: ota_writing_def ota_like_def)
    have s3: "started o3" "cursor o3 = total_len o3" "ota_op o3 = OTA_OP_FINISH" using l st tot by (simp_all add: ota_like_def)
    obtain oa where fl: "ota_flush E True o3 = (oa, CC3501E_HW_OK)"
      using flush_works [OF assms(2), of o3 True] s3(1) by (metis surj_pair snd_conv)
    have fa: "flushed oa = total_len oa"
      using flush_ok [OF assms(1) w3 m fl] s3(2) by (simp add: ota_same_session_def)
    obtain eb pf where fi: "psa_fwu_finish E (ota_target oa) (env oa) = (eb, pf)" by fastforce
    obtain ec pi where ins: "psa_fwu_install E eb = (ec, pi)" by fastforce
    have big: "\<not> total_len o3 \<le> TI_FWU_MANIFEST_SIZE E"
      using ota_writing_total [OF w3] assms(4) by (simp add: word_le_nat_alt)
    have "snd (ota_do_finish E o3) = CC3501E_HW_OK"
      using psa_worksD(4) [OF assms(2) fi] psa_worksD(5) [OF assms(2) ins] s3(2) big fa
      by (simp add: ota_do_finish_def fl env_call_def fi ins)
    with w3 s3(3) show ?thesis by (simp add: ota_run_op_def)
  qed
  have q: "op_rc ?o = OTA_OP_INFLIGHT" by simp
  obtain o3 o4 where l: "ota_like img ?o o3" and r: "ota_run_op E o3 = (o4, CC3501E_HW_OK)"
    and p: "ota_like img (o4\<lparr>ota_op := OTA_OP_IDLE, op_rc := 0\<rparr>) (cc3501e_hw_ota_pump E ?o)"
    using pump_op [OF assms(1) q] works by metis
  have "ota_st o4 = OTA_STATE_STAGED"
    using do_finish_ok [OF assms(1) _ m, of im o3 o4] works [OF l] r by simp
  then show ?thesis using p f by (simp add: ota_like_def)
qed

lemma upload_staged:
  assumes "psa_stages E img" and "psa_works E" and "TI_FWU_MANIFEST_SIZE E \<noteq> 0"
    and "unat (TI_FWU_MANIFEST_SIZE E) \<le> 8192" and "unat (TI_FWU_MANIFEST_SIZE E) < length (concat ds)"
    and "length (concat ds) \<le> 2097152" and "chunks_ok E ds"
  shows "ota_st (fold (ota_step E) (upload ds) (ota_reset e)) = OTA_STATE_STAGED"
proof -
  let ?im = "concat ds"
  let ?o1 = "fold (ota_step E) [Begin (word_of_nat (length ?im)), Pump] (ota_reset e)"
  have "awaiting E ?im img (unat (0 :: u32)) ?o1" using begin_run [OF assms(1-3,5,6), of e] by simp
  from chunks_run [OF assms(1,2,4) this _ assms(7) _ assms(6)]
  have "awaiting E ?im img (length ?im) (fold (ota_step E) (chunk_events 0 ds) ?o1)" by simp
  from finish_run [OF assms(1,2,4,5) this] show ?thesis by (simp add: upload_def)
qed

lemma upload_sends:
  assumes "unat off + length (concat ds) = length im" and "drop (unat off) im = concat ds"
    and "length im \<le> 2097152"
  shows "list_all (sends im) (chunk_events off ds)"
  using assms(1,2)
proof (induction ds arbitrary: off)
  case (Cons d ds)
  have k: "unat (off + word_of_nat (length d)) = unat off + length d"
    by (rule chunk_offset [of off d ds]) (use Cons.prems(1) assms(3) in simp)
  have "drop (unat off + length d) im = concat ds"
    using Cons.prems(2) by (metis append_eq_conv_conj concat.simps(2) drop_drop add.commute)
  then have "list_all (sends im) (chunk_events (off + word_of_nat (length d)) ds)"
    using Cons.prems(1) k by (intro Cons.IH) simp_all
  then show ?case using Cons.prems(2) by simp
qed simp

section \<open>The swap reboot\<close>

lemma env_call_reboot: "env_call f o1 = (o2, x) \<Longrightarrow> ota_reboot_pending o2 = ota_reboot_pending o1"
  by (auto simp: env_call_def split: prod.splits)

lemma pick_target_reboot:
  "ota_pick_target E o1 = (o2, x) \<Longrightarrow> ota_reboot_pending o2 = ota_reboot_pending o1"
  by (auto simp: ota_pick_target_def env_do_def Let_def dest!: env_call_reboot split: prod.splits if_splits)

lemma do_begin_reboot: "ota_reboot_pending (fst (ota_do_begin E o1)) = ota_reboot_pending o1"
proof -
  have w: "ota_reboot_pending (ota_walk_back E t st o2) = ota_reboot_pending o2" for t st o2
    by (subst walk_back_frame) simp
  show ?thesis
    by (auto simp: ota_do_begin_def env_do_def w dest!: pick_target_reboot env_call_reboot
        split: prod.splits option.splits)
qed

lemma open_slot_reboot: "ota_reboot_pending (fst (ota_open_slot E o1)) = ota_reboot_pending o1"
  by (auto simp: ota_open_slot_def dest!: env_call_reboot split: prod.splits)

lemma flush_reboot: "ota_reboot_pending (fst (ota_flush E final o1)) = ota_reboot_pending o1"
proof -
  obtain o2 rc where o: "ota_open_slot E o1 = (o2, rc)" by fastforce
  then have "ota_reboot_pending o2 = ota_reboot_pending o1" using open_slot_reboot [of E o1] by simp
  then show ?thesis
    by (auto simp: ota_flush_def o Let_def dest!: env_call_reboot split: prod.splits option.splits)
qed

lemma do_finish_reboot: "ota_reboot_pending (fst (ota_do_finish E o1)) = ota_reboot_pending o1"
proof -
  obtain o2 rc where o: "ota_flush E True o1 = (o2, rc)" by fastforce
  then have "ota_reboot_pending o2 = ota_reboot_pending o1" using flush_reboot [of E True o1] by simp
  then show ?thesis by (auto simp: ota_do_finish_def o dest!: env_call_reboot split: prod.splits)
qed

lemma run_op_reboot: "ota_reboot_pending (fst (ota_run_op E o1)) = ota_reboot_pending o1"
  by (simp add: ota_run_op_def do_begin_reboot flush_reboot do_finish_reboot split: ota_opcode.split)

lemma refresh_reboot: "ota_reboot_pending (ota_pending_refresh E o1) = ota_reboot_pending o1"
  by (auto simp: ota_pending_refresh_def env_do_def dest!: env_call_reboot split: prod.splits)

lemma pump_reboot: "ota_reboot_pending (cc3501e_hw_ota_pump E o1) = ota_reboot_pending o1"
proof -
  obtain o4 rc where op: "ota_run_op E (pump_prepare E (ota_prime E o1)) = (o4, rc)" by fastforce
  have p: "ota_reboot_pending (ota_prime E o1) = ota_reboot_pending o1"
    by (simp add: ota_prime_def Let_def env_do_def refresh_reboot)
  have "ota_reboot_pending (pump_prepare E (ota_prime E o1)) = ota_reboot_pending o1"
    using p by (simp add: pump_prepare_def env_do_def Let_def)
  then have "ota_reboot_pending o4 = ota_reboot_pending o1"
    using run_op_reboot [of E "pump_prepare E (ota_prime E o1)"] by (simp add: op)
  then show ?thesis using p by (simp add: pump_unfold [OF op] pump_settle_def Let_def env_do_def refresh_reboot)
qed

lemma step_reboot:
  assumes "ota_reboot_pending (ota_step E ev o1)" and "ev \<noteq> Promote"
  shows "ota_reboot_pending o1"
  using assms
  by (cases ev)
     (auto simp: cc3501e_hw_ota_begin_def cc3501e_hw_ota_write_def cc3501e_hw_ota_finish_def Let_def
       cc3501e_hw_ota_abort_def ota_submit_def pump_reboot ota_notify_reply_sent_def ota_reboot_tick_def
       split: if_splits prod.splits)

lemma run_reboot:
  "ota_reboot_pending (fold (ota_step E) evs o1) \<Longrightarrow> ota_reboot_pending o1 \<or> Promote \<in> set evs"
  by (induction evs arbitrary: o1) (auto dest: step_reboot)

section \<open>A flash service\<close>

text \<open>Both slots as byte lists, every call accepted: the service the witnesses run against.\<close>

definition demo_psa :: "(vendor_slot \<Rightarrow> byte list) ota_env" where
  "demo_psa = \<lparr>TI_FWU_MANIFEST_SIZE = 2, OTA_CHUNK_MAX = 3, PSA_SUCCESS = 0, PSA_SUCCESS_REBOOT = 1,
     PSA_ERROR_GENERIC_ERROR = -132, psa_fwu_init = id,
     psa_fwu_query = (\<lambda>t e. (e, 0, t = Vendor_Image_Slot_1, PSA_FWU_READY)),
     psa_fwu_start = (\<lambda>t m e. (e(t := m), 0)), psa_fwu_write = (\<lambda>t off d e. (e(t := e t @ d), 0)),
     psa_fwu_finish = (\<lambda>t e. (e, 0)), psa_fwu_install = (\<lambda>e. (e, 0)), psa_fwu_reject = (\<lambda>s. id),
     psa_fwu_cancel = (\<lambda>t. id), psa_fwu_clean = (\<lambda>t. id), psa_fwu_request_reboot = (\<lambda>e. (e, 0)),
     env_bridge_busy = id, env_bridge_ready = id, env_spi_polled = (\<lambda>e. False), env_spi_quiesce = (\<lambda>b. id),
     env_spi_release = id, env_spi_reinit = id, env_clear_polled_boot = id, env_usleep = (\<lambda>n. id)\<rparr>"

lemma demo_psa_stages: "psa_stages demo_psa id"
  by (simp add: psa_stages_def demo_psa_def)

lemma demo_psa_works: "psa_works demo_psa"
  by (simp add: psa_works_def demo_psa_def)

definition demo_chunks :: "byte list list" where
  "demo_chunks = [[0x4D], [0x46, 1, 2], [3]]"

lemma demo_upload_staged:
  "ota_st (fold (ota_step demo_psa) (upload demo_chunks) (ota_reset (\<lambda>t. []))) = OTA_STATE_STAGED"
  by (rule upload_staged [OF demo_psa_stages demo_psa_works])
     (simp_all add: demo_psa_def demo_chunks_def chunks_ok_def)

section \<open>A host that reads the answers\<close>

text \<open>
  The host may announce any image at any time, also while another upload is open; it sends pieces
  of an image only after a \<open>BEGIN\<close> for it was answered OK, and stops when a \<open>BEGIN\<close> for another image
  is not.  \<open>h_image\<close> is the image of the last \<open>BEGIN\<close> answered OK, \<open>h_open\<close> whether its pieces may be
  sent.  A piece is any slice of that image at any offset, so repeated, overlapping and out-of-order
  writes are included.  Finishes, aborts, promotes, the pump, the transport's note that a reply was
  sent and the tick's deferred reboot come at any time.
\<close>

record ota_host =
  h_image :: "byte list"
  h_open :: bool

datatype host_event = Announce "byte list" | Piece u32 nat | Close_Upload | Abort_Upload
  | Promote_Upload | Pump_Runs | Reply_Drained | Tick_Runs

fun host_step :: "'e ota_env \<Rightarrow> host_event \<Rightarrow> ota_host \<times> 'e ti_ota \<Rightarrow> ota_host \<times> 'e ti_ota" where
  "host_step E (Announce im) (h, o1) =
     (if length im < 2 ^ 32
      then case cc3501e_hw_ota_begin E (word_of_nat (length im)) o1 of (o2, rc) \<Rightarrow>
             (if rc = CC3501E_HW_OK then \<lparr>h_image = im, h_open = True\<rparr>
              else if im = h_image h then h else h\<lparr>h_open := False\<rparr>, o2)
      else (h, o1))"
| "host_step E (Piece off n) (h, o1) =
     (h, if h_open h then fst (cc3501e_hw_ota_write E off (take n (drop (unat off) (h_image h))) o1) else o1)"
| "host_step E Close_Upload (h, o1) = (h, fst (cc3501e_hw_ota_finish o1))"
| "host_step E Abort_Upload (h, o1) = (h, fst (cc3501e_hw_ota_abort o1))"
| "host_step E Promote_Upload (h, o1) = (h, fst (cc3501e_hw_ota_promote E o1))"
| "host_step E Pump_Runs (h, o1) = (h, cc3501e_hw_ota_pump E o1)"
| "host_step E Reply_Drained (h, o1) = (h, ota_notify_reply_sent o1)"
| "host_step E Tick_Runs (h, o1) = (h, ota_reboot_tick E o1)"

definition host_idle :: ota_host where
  "host_idle = \<lparr>h_image = [], h_open = False\<rparr>"

text \<open>
  The session's image is the host's, or the session is untouched: opened for some length, with
  nothing written, and not yet confirmed to the host.
\<close>

definition session_of ::
    "ota_host \<Rightarrow> ('e \<Rightarrow> vendor_slot \<Rightarrow> byte list) \<Rightarrow> 'e ti_ota \<Rightarrow> byte list \<Rightarrow> bool" where
  "session_of h img o1 im \<longleftrightarrow> im \<noteq> [] \<and> ota_writing im img o1
     \<and> (im = h_image h \<or> \<not> h_open h \<and> cursor o1 = 0)"

definition host_queue_ok :: "ota_host \<Rightarrow> 'e ti_ota \<Rightarrow> bool" where
  "host_queue_ok h o1 \<longleftrightarrow> op_rc o1 = OTA_OP_INFLIGHT \<longrightarrow>
     (ota_op o1 = OTA_OP_BEGIN \<and> op_total o1 \<noteq> 0 \<and> unat (op_total o1) \<le> 2097152
        \<and> ota_st o1 \<noteq> OTA_STATE_WRITING \<and> (h_open h \<longrightarrow> unat (op_total o1) = length (h_image h))
      \<or> ota_op o1 \<in> {OTA_OP_FLUSH, OTA_OP_FINISH} \<and> ota_st o1 = OTA_STATE_WRITING)"

definition host_staged :: "ota_host \<Rightarrow> ('e \<Rightarrow> vendor_slot \<Rightarrow> byte list) \<Rightarrow> 'e ti_ota \<Rightarrow> bool" where
  "host_staged h img o1 \<longleftrightarrow> img (env o1) (ota_target o1) = h_image h \<and> unat (total_len o1) = length (h_image h)"

definition host_inv :: "('e \<Rightarrow> vendor_slot \<Rightarrow> byte list) \<Rightarrow> ota_host \<Rightarrow> 'e ti_ota \<Rightarrow> bool" where
  "host_inv img h o1 \<longleftrightarrow> length (window o1) = 16384 \<and> host_queue_ok h o1
     \<and> (ota_st o1 = OTA_STATE_WRITING \<longrightarrow> (\<exists>im. session_of h img o1 im))
     \<and> (ota_st o1 = OTA_STATE_STAGED \<longrightarrow> host_staged h img o1)"

lemma host_inv_reset: "host_inv img host_idle (ota_reset e)"
  by (simp add: host_inv_def host_queue_ok_def ota_reset_def OTA_OP_INFLIGHT_def ota_window_size)

lemma host_inv_like:
  assumes "ota_like img o1 o2"
  shows "host_inv img h o2 = host_inv img h o1"
  using assms
  by (simp add: ota_like_def host_inv_def host_queue_ok_def host_staged_def session_of_def ota_writing_def)

lemma host_inv_close: "host_inv img h o1 \<Longrightarrow> host_inv img (h\<lparr>h_open := False\<rparr>) o1"
  by (auto simp: host_inv_def host_queue_ok_def host_staged_def session_of_def)

text \<open>An untouched session serves any image of its length.\<close>

lemma fresh_switch:
  assumes "ota_writing im img o1" and "cursor o1 = 0" and "length im' = length im"
  shows "ota_writing im' img o1"
proof -
  have "unat (window_base o1) = 0" "unat (window_used o1) = 0" using assms(1,2) by (auto simp: ota_writing_def)
  moreover have "started o1 \<Longrightarrow> unat (flushed o1) = 0" using assms(1,2) by (simp add: ota_writing_def)
  ultimately show ?thesis using assms by (simp add: ota_writing_def)
qed

lemma ota_inv_of_session:
  assumes "host_inv img h o1" and "session_of h img o1 im" and "ota_st o1 = OTA_STATE_WRITING"
  shows "ota_inv im img o1"
  using assms by (auto simp: host_inv_def host_queue_ok_def session_of_def ota_inv_def ota_queue_ok_def ota_writing_def)

lemma host_inv_of:
  assumes "ota_inv (h_image h) img o1" and "h_image h \<noteq> []"
  shows "host_inv img h o1"
proof -
  have "length (h_image h) \<noteq> 0" using assms(2) by simp
  then show ?thesis
    using assms
    by (auto simp: host_inv_def host_queue_ok_def host_staged_def session_of_def ota_inv_def ota_queue_ok_def)
qed

subsection \<open>The pump\<close>

lemma pump_result:
  assumes "psa_stages E img" and "op_rc o1 = OTA_OP_INFLIGHT"
  shows "\<exists>o3 o4 rc. ota_like img o1 o3 \<and> ota_run_op E o3 = (o4, rc)
    \<and> ota_like img ((if rc \<noteq> CC3501E_HW_OK \<and> rc \<noteq> CC3501E_HW_BUSY then o4\<lparr>ota_st := OTA_STATE_ERROR\<rparr> else o4)
        \<lparr>ota_op := OTA_OP_IDLE, op_rc := to_int8 rc\<rparr>) (cc3501e_hw_ota_pump E o1)"
proof -
  let ?o3 = "pump_prepare E (ota_prime E o1)"
  have l1: "ota_like img o1 (ota_prime E o1)" by (rule prime_like [OF assms(1)])
  have l: "ota_like img o1 ?o3" by (rule ota_like_trans [OF l1 prepare_like [OF assms(1)]])
  obtain o4 rc where op: "ota_run_op E ?o3 = (o4, rc)" by (metis surj_pair)
  have "op_rc (ota_prime E o1) = OTA_OP_INFLIGHT" using l1 assms(2) by (simp add: ota_like_def)
  then have "cc3501e_hw_ota_pump E o1 = pump_settle E (env_spi_polled E (env (ota_prime E o1))) rc
      (if rc \<noteq> CC3501E_HW_OK \<and> rc \<noteq> CC3501E_HW_BUSY then o4\<lparr>ota_st := OTA_STATE_ERROR\<rparr> else o4)"
    by (simp add: pump_unfold [OF op])
  with l op settle_like [OF assms(1), of rc] show ?thesis by metis
qed

definition host_result ::
    "ota_host \<Rightarrow> ('e \<Rightarrow> vendor_slot \<Rightarrow> byte list) \<Rightarrow> 'e ti_ota \<Rightarrow> int \<Rightarrow> bool" where
  "host_result h img o4 rc \<longleftrightarrow> length (window o4) = 16384
     \<and> (rc \<noteq> CC3501E_HW_OK \<longrightarrow> rc \<in> {CC3501E_HW_ERR_IO, CC3501E_HW_ERR_INVAL})
     \<and> (rc = CC3501E_HW_OK \<longrightarrow>
          ota_st o4 = OTA_STATE_WRITING \<and> (\<exists>im. session_of h img o4 im)
          \<or> ota_st o4 = OTA_STATE_STAGED \<and> host_staged h img o4)"

lemma host_result_inv:
  assumes "host_result h img o4 rc"
  shows "host_inv img h ((if rc \<noteq> CC3501E_HW_OK \<and> rc \<noteq> CC3501E_HW_BUSY then o4\<lparr>ota_st := OTA_STATE_ERROR\<rparr> else o4)
        \<lparr>ota_op := OTA_OP_IDLE, op_rc := to_int8 rc\<rparr>)"
proof -
  have "to_int8 rc \<noteq> OTA_OP_INFLIGHT" using assms by (intro to_int8_codes) (auto simp: host_result_def)
  moreover have "rc = CC3501E_HW_OK \<or> rc \<noteq> CC3501E_HW_OK \<and> rc \<noteq> CC3501E_HW_BUSY"
    using assms by (auto simp: host_result_def hw_rc_defs)
  ultimately show ?thesis
    using assms
    by (auto simp: host_result_def host_inv_def host_queue_ok_def session_of_def host_staged_def writing_frame)
qed

lemma begin_result:
  assumes "host_inv img h o3" and "op_rc o3 = OTA_OP_INFLIGHT" and "ota_op o3 = OTA_OP_BEGIN"
    and "ota_do_begin E o3 = (o4, rc)"
  shows "host_result h img o4 rc"
proof (cases "rc = CC3501E_HW_OK")
  case False
  then show ?thesis using do_begin_fail [OF assms(4)] assms(1) by (simp add: host_result_def host_inv_def)
next
  case True
  define im where "im = (if h_open h then h_image h else replicate (unat (op_total o3)) 0)"
  have q: "op_total o3 \<noteq> 0" "unat (op_total o3) \<le> 2097152" "h_open h \<longrightarrow> unat (op_total o3) = length (h_image h)"
    "length (window o3) = 16384"
    using assms(1-3) by (auto simp: host_inv_def host_queue_ok_def)
  have len: "length im = unat (op_total o3)" using q(3) by (simp add: im_def)
  then have ne: "im \<noteq> []" using q(1) unat_eq_0 [of "op_total o3"] by force
  have len2: "length im \<le> 2097152" using len q(2) by (simp only: len)
  have b: "ota_writing im img o4" "ota_st o4 = OTA_STATE_WRITING" "cursor o4 = 0"
    using do_begin_ok [OF assms(4) [unfolded True] len2 len [symmetric] q(4)] by blast+
  have "im = h_image h \<or> \<not> h_open h" by (simp add: im_def)
  then have "session_of h img o4 im" using b ne unfolding session_of_def by blast
  moreover note b(2)
  moreover have "length (window o4) = 16384" using b(1) by (simp add: ota_writing_def)
  ultimately show ?thesis using True by (auto simp: host_result_def)
qed

lemma session_result:
  assumes "psa_stages E img" and "unat (TI_FWU_MANIFEST_SIZE E) \<le> 16384" and "session_of h img o3 im"
    and "ota_st o3 = OTA_STATE_WRITING"
  shows "ota_flush E False o3 = (o4, rc) \<Longrightarrow> host_result h img o4 rc"
    and "ota_do_finish E o3 = (o4, rc) \<Longrightarrow> host_result h img o4 rc"
proof -
  have w: "ota_writing im img o3" and ne: "im \<noteq> []" and im: "im = h_image h \<or> \<not> h_open h \<and> cursor o3 = 0"
    using assms(3) by (simp_all add: session_of_def)
  have win: "length (window o3) = 16384" using w by (simp add: ota_writing_def)
  show "host_result h img o4 rc" if r: "ota_flush E False o3 = (o4, rc)"
  proof (cases "rc = CC3501E_HW_OK")
    case True
    note f = flush_ok [OF assms(1) w assms(2) r [unfolded True]]
    then have "session_of h img o4 im" "ota_st o4 = OTA_STATE_WRITING" "length (window o4) = 16384"
      using ne im assms(4) by (auto simp: session_of_def ota_same_session_def ota_writing_def)
    then show ?thesis using True by (auto simp: host_result_def)
  qed (use flush_fail [OF r] win in \<open>simp add: host_result_def\<close>)
  show "host_result h img o4 rc" if r: "ota_do_finish E o3 = (o4, rc)"
  proof (cases "rc = CC3501E_HW_OK")
    case True
    note f = do_finish_ok [OF assms(1) w assms(2) r [unfolded True]]
    have "cursor o3 = total_len o3" using r True by (auto simp: ota_do_finish_def hw_rc_defs split: if_splits)
    then have "cursor o3 \<noteq> 0" using ota_writing_total [OF w] ne by (auto simp: unat_eq_0)
    then show ?thesis using f im True by (auto simp: host_result_def host_staged_def)
  qed (use do_finish_fail [OF r _ assms(1) w assms(2)] in \<open>simp add: host_result_def\<close>)
qed

lemma host_pump:
  assumes "psa_stages E img" and "unat (TI_FWU_MANIFEST_SIZE E) \<le> 16384" and "host_inv img h o1"
  shows "host_inv img h (cc3501e_hw_ota_pump E o1)"
proof (cases "op_rc o1 = OTA_OP_INFLIGHT")
  case False
  from host_inv_like [OF pump_idle [OF assms(1) this]] assms(3) show ?thesis by simp
next
  case True
  from pump_result [OF assms(1) True] obtain o3 o4 rc where
    l: "ota_like img o1 o3" and r: "ota_run_op E o3 = (o4, rc)"
    and p: "ota_like img ((if rc \<noteq> CC3501E_HW_OK \<and> rc \<noteq> CC3501E_HW_BUSY then o4\<lparr>ota_st := OTA_STATE_ERROR\<rparr> else o4)
        \<lparr>ota_op := OTA_OP_IDLE, op_rc := to_int8 rc\<rparr>) (cc3501e_hw_ota_pump E o1)" by blast
  have i3: "host_inv img h o3" using host_inv_like [OF l] assms(3) by simp
  have q: "op_rc o3 = OTA_OP_INFLIGHT" using l True by (simp add: ota_like_def)
  have "host_result h img o4 rc"
  proof (cases "ota_op o3 = OTA_OP_BEGIN")
    case True
    then show ?thesis using begin_result [OF i3 q True] r by (simp add: ota_run_op_def)
  next
    case False
    with i3 q have w: "ota_op o3 \<in> {OTA_OP_FLUSH, OTA_OP_FINISH}" "ota_st o3 = OTA_STATE_WRITING"
      by (auto simp: host_inv_def host_queue_ok_def)
    then obtain im where "session_of h img o3 im" using i3 by (auto simp: host_inv_def)
    from session_result [OF assms(1,2) this w(2)] show ?thesis using r w(1) by (auto simp: ota_run_op_def)
  qed
  from host_inv_like [OF p] host_result_inv [OF this] show ?thesis by blast
qed

subsection \<open>The requests\<close>

lemma host_announce:
  assumes "host_inv img h o1" and "length im < 2 ^ 32"
    and "cc3501e_hw_ota_begin E (word_of_nat (length im)) o1 = (o2, rc)"
  shows "host_inv img (if rc = CC3501E_HW_OK then \<lparr>h_image = im, h_open = True\<rparr>
              else if im = h_image h then h else h\<lparr>h_open := False\<rparr>) o2"
proof -
  let ?tot = "word_of_nat (length im) :: u32"
  let ?h = "if im = h_image h then h else h\<lparr>h_open := False\<rparr>"
  have n: "unat ?tot = length im" using assms(2) by (simp add: unat_of_nat)
  have keep: "host_inv img ?h o1" using assms(1) host_inv_close [OF assms(1)] by simp
  show ?thesis
  proof (cases "?tot \<le> TI_FWU_MANIFEST_SIZE E \<or> ?tot > CC3501E_OTA_IMAGE_MAX \<or> op_rc o1 = OTA_OP_INFLIGHT")
    case True
    then have "o2 = o1" "rc \<noteq> CC3501E_HW_OK"
      using assms(3) by (auto simp: cc3501e_hw_ota_begin_def hw_rc_defs split: if_splits)
    then show ?thesis using keep by simp
  next
    case False
    then have len: "im \<noteq> []" "length im \<le> 2097152" "?tot \<noteq> 0"
      using n ota_image_max by (auto simp: word_le_nat_alt word_less_nat_alt)
    show ?thesis
    proof (cases "ota_st o1 = OTA_STATE_WRITING")
      case True
      then obtain im' where w: "session_of h img o1 im'" using assms(1) by (auto simp: host_inv_def)
      have o2: "o2 = o1" "rc = CC3501E_HW_OK \<longleftrightarrow> ?tot = total_len o1 \<and> cursor o1 = 0"
        using assms(3) False True by (auto simp: cc3501e_hw_ota_begin_def hw_rc_defs split: if_splits)
      show ?thesis
      proof (cases "rc = CC3501E_HW_OK")
        case ok: True
        have "length im = length im'" "cursor o1 = 0"
          using o2(2) ok n ota_writing_total [of im' img o1] w by (auto simp: session_of_def)
        then have "ota_writing im img o1" using fresh_switch [of im' img o1 im] w by (simp add: session_of_def)
        then show ?thesis
          using ok o2(1) len True False assms(1)
          by (auto simp: host_inv_def host_queue_ok_def session_of_def)
      qed (use keep o2(1) in simp)
    next
      case nw: False
      let ?o = "(if ota_st o1 = OTA_STATE_ERROR then o1\<lparr>ota_st := OTA_STATE_IDLE, op_rc := CC3501E_HW_OK\<rparr>
        else o1)\<lparr>op_total := ?tot\<rparr>"
      have o2: "o2 = ?o\<lparr>ota_op := OTA_OP_BEGIN, op_rc := OTA_OP_INFLIGHT\<rparr>" "rc \<noteq> CC3501E_HW_OK"
        using assms(3) False nw
        by (auto simp: cc3501e_hw_ota_begin_def ota_submit_def Let_def hw_rc_defs OTA_OP_INFLIGHT_def split: if_splits)
      show ?thesis
        using keep nw o2(2) len n
        by (auto simp: o2(1) host_inv_def host_queue_ok_def host_staged_def)
    qed
  qed
qed

lemma host_piece:
  assumes "host_inv img h o1" and "h_open h"
  shows "host_inv img h (fst (cc3501e_hw_ota_write E off (take n (drop (unat off) (h_image h))) o1))"
proof (cases "ota_st o1 = OTA_STATE_WRITING")
  case True
  then have s: "session_of h img o1 (h_image h)" using assms by (auto simp: host_inv_def session_of_def)
  let ?d = "take n (drop (unat off) (h_image h))"
  have "?d = take (length ?d) (drop (unat off) (h_image h))" by (simp add: min_def)
  from write_inv [OF ota_inv_of_session [OF assms(1) s True] this] show ?thesis
    using s by (intro host_inv_of) (simp_all add: session_of_def)
next
  case False
  then show ?thesis using assms(1) by (simp add: cc3501e_hw_ota_write_def)
qed

lemma host_close: "host_inv img h o1 \<Longrightarrow> host_inv img h (fst (cc3501e_hw_ota_finish o1))"
  by (auto simp: cc3501e_hw_ota_finish_def ota_submit_def host_inv_def host_queue_ok_def session_of_def writing_frame)

lemma host_abort: "host_inv img h o1 \<Longrightarrow> host_inv img h (fst (cc3501e_hw_ota_abort o1))"
  by (simp add: cc3501e_hw_ota_abort_def host_inv_def host_queue_ok_def OTA_OP_INFLIGHT_def)

lemma host_step_inv:
  assumes "psa_stages E img" and "unat (TI_FWU_MANIFEST_SIZE E) \<le> 16384" and "host_inv img h o1"
    and "host_step E ev (h, o1) = (h', o')"
  shows "host_inv img h' o'"
proof (cases ev)
  case (Announce im)
  then show ?thesis
    using assms(3,4) host_announce [OF assms(3), of im E] by (auto split: if_splits prod.splits)
next
  case (Piece off n)
  then show ?thesis using assms(3,4) host_piece [OF assms(3), of E off n] by auto
next
  case Close_Upload then show ?thesis using assms(3,4) host_close by auto
next
  case Abort_Upload then show ?thesis using assms(3,4) host_abort by auto
next
  case Promote_Upload
  then show ?thesis using assms(3,4) host_inv_like [OF promote_like [OF assms(1)]] by auto
next
  case Pump_Runs then show ?thesis using assms(4) host_pump [OF assms(1-3)] by auto
next
  case Reply_Drained
  then show ?thesis using assms(3,4) host_inv_like [OF drained_like] by auto
next
  case Tick_Runs
  then show ?thesis using assms(3,4) host_inv_like [OF reboot_tick_like [OF assms(1)]] by auto
qed

lemma host_run_inv:
  assumes "psa_stages E img" and "unat (TI_FWU_MANIFEST_SIZE E) \<le> 16384" and "host_inv img h o1"
    and "fold (host_step E) evs (h, o1) = (h', o')"
  shows "host_inv img h' o'"
  using assms(3,4)
proof (induction evs arbitrary: h o1)
  case (Cons ev evs)
  obtain h2 o2 where s: "host_step E ev (h, o1) = (h2, o2)" by fastforce
  show ?case
    using Cons.IH [OF host_step_inv [OF assms(1,2) Cons.prems(1) s]] Cons.prems(2) s by simp
qed simp

subsection \<open>A complete upload\<close>

fun as_host :: "ota_event \<Rightarrow> host_event" where
  "as_host (Begin n) = Announce []"
| "as_host (Write off dat) = Piece off (length dat)"
| "as_host Finish = Close_Upload"
| "as_host Abort = Abort_Upload"
| "as_host Promote = Promote_Upload"
| "as_host Pump = Pump_Runs"
| "as_host Drained = Reply_Drained"
| "as_host Tick = Tick_Runs"

lemma host_open_run:
  assumes "list_all (sends im) evs" and "list_all (\<lambda>ev. \<forall>n. ev \<noteq> Begin n) evs"
  shows "fold (host_step E) (map as_host evs) (\<lparr>h_image = im, h_open = True\<rparr>, o1)
    = (\<lparr>h_image = im, h_open = True\<rparr>, fold (ota_step E) evs o1)"
  using assms
proof (induction evs arbitrary: o1)
  case (Cons ev evs)
  have "host_step E (as_host ev) (\<lparr>h_image = im, h_open = True\<rparr>, o1)
      = (\<lparr>h_image = im, h_open = True\<rparr>, ota_step E ev o1)"
    using Cons.prems by (cases ev) auto
  then show ?case using Cons by simp
qed simp

lemma chunk_events_no_begin: "list_all (\<lambda>ev. \<forall>n. ev \<noteq> Begin n) (chunk_events off ds)"
  by (induction off ds rule: chunk_events.induct) simp_all

definition host_upload :: "byte list list \<Rightarrow> host_event list" where
  "host_upload ds = [Announce (concat ds), Pump_Runs, Announce (concat ds)]
     @ map as_host (chunk_events 0 ds @ [Finish, Pump])"

lemma host_upload_staged:
  assumes "psa_stages E img" and "psa_works E" and "TI_FWU_MANIFEST_SIZE E \<noteq> 0"
    and "unat (TI_FWU_MANIFEST_SIZE E) \<le> 8192" and "unat (TI_FWU_MANIFEST_SIZE E) < length (concat ds)"
    and "length (concat ds) \<le> 2097152" and "chunks_ok E ds"
    and "ota_st o0 = OTA_STATE_IDLE" and "op_rc o0 \<noteq> OTA_OP_INFLIGHT" and "length (window o0) = 16384"
  shows "\<exists>o1. fold (host_step E) (host_upload ds) (h, o0) = (\<lparr>h_image = concat ds, h_open = True\<rparr>, o1)
    \<and> ota_st o1 = OTA_STATE_STAGED"
proof -
  let ?im = "concat ds" let ?n = "word_of_nat (length (concat ds)) :: u32"
  define o1 where "o1 = ota_step E Pump (ota_step E (Begin ?n) o0)"
  have n: "unat ?n = length ?im" using assms(6) by (simp add: unat_of_nat)
  have aw: "awaiting E ?im img (unat (0 :: u32)) o1"
    unfolding o1_def using begin_run_from [OF assms(1-3,5,6,8-10)] by simp
  have "total_len o1 = ?n" "cursor o1 = 0" "ota_st o1 = OTA_STATE_WRITING" "op_rc o1 \<noteq> OTA_OP_INFLIGHT"
    using aw n ota_writing_total [OF awaiting_writing [OF aw]]
    by (simp_all add: awaiting_def word_unat_eq_iff)
  then have b: "cc3501e_hw_ota_begin E ?n o1 = (o1, CC3501E_HW_OK)"
    using n assms(5,6) by (simp add: cc3501e_hw_ota_begin_def word_le_nat_alt word_less_nat_alt ota_image_max)
  have small: "length ?im < 2 ^ 32" using assms(6) by simp
  obtain ob rc where ob: "cc3501e_hw_ota_begin E ?n o0 = (ob, rc)" by fastforce
  have "o1 = cc3501e_hw_ota_pump E ob" by (simp add: o1_def ob)
  then have first: "fold (host_step E) [Announce ?im, Pump_Runs, Announce ?im] (h, o0)
      = (\<lparr>h_image = ?im, h_open = True\<rparr>, o1)"
    using small b ob by simp
  have "awaiting E ?im img (length ?im) (fold (ota_step E) (chunk_events 0 ds) o1)"
    using chunks_run [OF assms(1,2,4) aw _ assms(7) _ assms(6)] by simp
  from finish_run [OF assms(1,2,4,5) this]
  have st: "ota_st (fold (ota_step E) (chunk_events 0 ds @ [Finish, Pump]) o1) = OTA_STATE_STAGED" by simp
  have "list_all (sends ?im) (chunk_events 0 ds @ [Finish, Pump])"
    using upload_sends [of 0 ds ?im] assms(6) by simp
  from host_open_run [OF this, of E o1] first st show ?thesis
    unfolding host_upload_def fold_append comp_def by (simp add: chunk_events_no_begin del: fold.simps map_append)
qed

section \<open>What an update delivers\<close>

text \<open>
  C8: A staged update is the image the host was told to send.  The host announces images, one or
  several, of whatever length, also while an upload is open; it sends pieces of an image (repeated,
  overlapping, out of order) only after a \<open>BEGIN\<close> for it was answered OK and not after a \<open>BEGIN\<close> for
  another one was answered otherwise; it finishes, aborts, promotes, and the pump and the tick run,
  in any order.  Whenever the session reports \<open>STAGED\<close>, the bytes streamed into the target slot are
  exactly the image of the last \<open>BEGIN\<close> answered OK, from its first byte to its last: no piece of an
  earlier upload is spliced in.  The flash service is only assumed to put a successful write where
  it was told to.
\<close>

theorem ota_staged_image:
  assumes "psa_stages E img" and "unat (TI_FWU_MANIFEST_SIZE E) \<le> unat CC3501E_OTA_WINDOW"
    and "fold (host_step E) evs (host_idle, ota_reset e) = (h, o1)" and "ota_st o1 = OTA_STATE_STAGED"
  shows "img (env o1) (ota_target o1) = h_image h \<and> unat (total_len o1) = length (h_image h)"
proof -
  have "host_inv img h o1"
    using host_run_inv [OF assms(1) _ host_inv_reset assms(3)] assms(2) by (simp add: ota_window_size)
  with assms(4) show ?thesis by (simp add: host_inv_def host_staged_def)
qed

text \<open>One image is announced and begun, its first byte sent, the upload aborted; then another is uploaded.\<close>

theorem ota_staged_image_witness:
  "\<exists>h o1. fold (host_step demo_psa) ([Announce [7, 8, 9], Pump_Runs, Announce [7, 8, 9], Piece 0 1, Abort_Upload]
        @ host_upload demo_chunks) (host_idle, ota_reset (\<lambda>t. [])) = (h, o1)
      \<and> ota_st o1 = OTA_STATE_STAGED \<and> env o1 (ota_target o1) = [0x4D, 0x46, 1, 2, 3]"
proof -
  let ?pre = "[Announce [7, 8, 9], Pump_Runs, Announce [7, 8, 9], Piece 0 1]"
  let ?s0 = "(host_idle, ota_reset (\<lambda>t. []))"
  obtain h0 o0 where r0: "fold (host_step demo_psa) ?pre ?s0 = (h0, o0)" by fastforce
  let ?o = "fst (cc3501e_hw_ota_abort o0)"
  have m: "unat (TI_FWU_MANIFEST_SIZE demo_psa) \<le> 16384" by (simp add: demo_psa_def)
  have "length (window o0) = 16384"
    using host_run_inv [OF demo_psa_stages m host_inv_reset r0] by (simp add: host_inv_def)
  then have ab: "ota_st ?o = OTA_STATE_IDLE" "op_rc ?o \<noteq> OTA_OP_INFLIGHT" "length (window ?o) = 16384"
    by (simp_all add: cc3501e_hw_ota_abort_def OTA_OP_INFLIGHT_def)
  have h: "TI_FWU_MANIFEST_SIZE demo_psa \<noteq> 0" "unat (TI_FWU_MANIFEST_SIZE demo_psa) \<le> 8192"
    "unat (TI_FWU_MANIFEST_SIZE demo_psa) < length (concat demo_chunks)" "length (concat demo_chunks) \<le> 2097152"
    "chunks_ok demo_psa demo_chunks"
    by (simp_all add: demo_psa_def demo_chunks_def chunks_ok_def)
  from host_upload_staged [OF demo_psa_stages demo_psa_works h ab, of h0] obtain o1 where
    up: "fold (host_step demo_psa) (host_upload demo_chunks) (h0, ?o)
        = (\<lparr>h_image = concat demo_chunks, h_open = True\<rparr>, o1)" "ota_st o1 = OTA_STATE_STAGED" by blast
  have all: "fold (host_step demo_psa) (?pre @ [Abort_Upload] @ host_upload demo_chunks) ?s0
      = (\<lparr>h_image = concat demo_chunks, h_open = True\<rparr>, o1)"
    unfolding fold_append comp_def r0 using up(1) by simp
  have w: "unat (TI_FWU_MANIFEST_SIZE demo_psa) \<le> unat CC3501E_OTA_WINDOW" using m by (simp add: ota_window_size)
  from ota_staged_image [OF demo_psa_stages w all up(2)] have "env o1 (ota_target o1) = [0x4D, 0x46, 1, 2, 3]"
    by (simp add: demo_chunks_def)
  with all up(2) show ?thesis by auto
qed

text \<open>
  C9: An upload completes.  When the flash service accepts every call, a host that announces the
  image, sends it chunk by chunk (each of at most a flash block and the protocol's chunk limit, sent
  twice with a run of the pump after each, since the first may be answered busy while the window is
  flushed) and finishes, ends with the session \<open>STAGED\<close> and the whole image in the target slot: no
  flush can leave the window too full for the next chunk, and the tail of the image is written.
\<close>

theorem ota_upload_completes:
  assumes "psa_stages E img" and "psa_works E" and "TI_FWU_MANIFEST_SIZE E \<noteq> 0"
    and "unat (TI_FWU_MANIFEST_SIZE E) \<le> 2 * unat CC3501E_OTA_FINISH_FLASH_BLOCK"
    and "unat (TI_FWU_MANIFEST_SIZE E) < length (concat ds)"
    and "length (concat ds) \<le> unat CC3501E_OTA_IMAGE_MAX" and "chunks_ok E ds"
    and "fold (ota_step E) (upload ds) (ota_reset e) = o1"
  shows "ota_st o1 = OTA_STATE_STAGED \<and> img (env o1) (ota_target o1) = concat ds"
proof -
  let ?im = "concat ds"
  have m: "unat (TI_FWU_MANIFEST_SIZE E) \<le> 8192" and len: "length ?im \<le> 2097152"
    using assms(4,6) by (simp_all add: CC3501E_OTA_FINISH_FLASH_BLOCK_def ota_image_max)
  have st: "ota_st o1 = OTA_STATE_STAGED"
    unfolding assms(8) [symmetric] by (rule upload_staged [OF assms(1-3) m assms(5) len assms(7)])
  have "list_all (sends ?im) (upload ds)"
    using upload_sends [of 0 ds ?im] len by (simp add: upload_def unat_of_nat)
  then have "ota_inv ?im img o1"
    unfolding assms(8) [symmetric] using run_inv [OF assms(1) _ ota_inv_reset [OF len]] m by simp
  with st show ?thesis by (simp add: ota_inv_def)
qed

theorem ota_upload_completes_witness:
  "let o1 = fold (ota_step demo_psa) (upload demo_chunks) (ota_reset (\<lambda>t. []))
   in ota_st o1 = OTA_STATE_STAGED \<and> env o1 (ota_target o1) = [0x4D, 0x46, 1, 2, 3]"
  using ota_upload_completes [OF demo_psa_stages demo_psa_works _ _ _ _ _ refl, of demo_chunks "\<lambda>t. []"]
  by (simp add: demo_psa_def demo_chunks_def chunks_ok_def CC3501E_OTA_FINISH_FLASH_BLOCK_def ota_image_max)

text \<open>
  C30: The part never reboots into an update on its own: in every run from reset, the swap reboot is
  pending only if the host sent \<open>PROMOTE\<close>.  Staging an image, aborting and pumping never arm it.
\<close>

theorem ota_reboot_only_after_promote:
  assumes "ota_reboot_pending (fold (ota_step E) evs (ota_reset e))"
  shows "Promote \<in> set evs"
  using run_reboot [OF assms] by (simp add: ota_reset_def)

theorem ota_reboot_only_after_promote_witness: "Promote \<in> set [Drained, Promote]"
  by (rule ota_reboot_only_after_promote [of demo_psa _ "\<lambda>t. []"])
     (simp add: ota_notify_reply_sent_def cc3501e_hw_ota_promote_def)

end
