(* ===== verification/Seams.thy ===== *)
theory Seams
  imports Prelude
begin

text \<open>
  The decisions the firmware keeps apart from the vendor stack so that they can be tested on a
  host: the link-heal detector (\<^verbatim>\<open>link_quiet_rearm.h\<close>), the access-point role latch
  (\<^verbatim>\<open>ap_role_latch.h\<close>), the sticky end-of-file table (\<^verbatim>\<open>sock_worker_recv_eof.h\<close>), the
  retry decisions (\<^verbatim>\<open>wifi_retry.c\<close>), the poll for a host frame (\<^verbatim>\<open>wifi_connect_fail_skip.c\<close>)
  and the non-blocking connect (\<^verbatim>\<open>sock_connect_wait.h\<close>).  The calls the last two make through
  function pointers are parameters over a context \<open>'c\<close>.
\<close>

section \<open>Link heal\<close>

record link_quiet_rearm_state =
  healed_pending :: bool
  heal_fired_xfer_count :: u32

definition link_quiet_rearm_init :: link_quiet_rearm_state where
  "link_quiet_rearm_init = \<lparr>healed_pending = False, heal_fired_xfer_count = 0\<rparr>"

definition link_quiet_rearm_tick ::
    "bool \<Rightarrow> u32 \<Rightarrow> u32 \<Rightarrow> u32 \<Rightarrow> link_quiet_rearm_state \<Rightarrow> link_quiet_rearm_state \<times> bool" where
  "link_quiet_rearm_tick at_idle_header quiet_ms rearm_ms xfer_count st =
     (if healed_pending st \<and> xfer_count = heal_fired_xfer_count st then (st, False)
      else let st1 = st\<lparr>healed_pending := False\<rparr>
           in if \<not> at_idle_header then (st1, False)
              else if quiet_ms < rearm_ms then (st1, False)
              else (st1\<lparr>healed_pending := True, heal_fired_xfer_count := xfer_count\<rparr>, True))"

section \<open>Access-point role latch\<close>

record ap_role_latch =
  pending :: bool
  up :: bool

definition ap_role_latch_started :: "bool \<Rightarrow> ap_role_latch \<Rightarrow> ap_role_latch" where
  "ap_role_latch_started ok l = (if ok then l\<lparr>pending := True\<rparr> else l)"

definition ap_role_latch_publish :: "ap_role_latch \<Rightarrow> ap_role_latch" where
  "ap_role_latch_publish l = (if pending l then l\<lparr>pending := False, up := True\<rparr> else l)"

definition ap_role_latch_stopped :: "ap_role_latch \<Rightarrow> ap_role_latch" where
  "ap_role_latch_stopped l = l\<lparr>pending := False, up := False\<rparr>"

section \<open>Sticky end of file\<close>

definition sock_worker_recv_eof_should_latch :: "int \<Rightarrow> u32 \<Rightarrow> bool \<Rightarrow> bool" where
  "sock_worker_recv_eof_should_latch n want is_stream \<longleftrightarrow> n = 0 \<and> want > 0 \<and> is_stream"

definition sock_worker_recv_eof_check :: "bool list \<Rightarrow> int \<Rightarrow> bool" where
  "sock_worker_recv_eof_check table fd \<longleftrightarrow> fd \<ge> 0 \<and> fd < int (length table) \<and> table ! nat fd"

definition sock_worker_recv_eof_set :: "int \<Rightarrow> bool \<Rightarrow> bool list \<Rightarrow> bool list" where
  "sock_worker_recv_eof_set fd val table =
     (if fd \<ge> 0 \<and> fd < int (length table) then table[nat fd := val] else table)"

lemma eof_check_set [simp]:
  "sock_worker_recv_eof_check (sock_worker_recv_eof_set fd val table) fd' =
     (if fd' = fd \<and> 0 \<le> fd \<and> fd < int (length table) then val else sock_worker_recv_eof_check table fd')"
  by (auto simp: sock_worker_recv_eof_check_def sock_worker_recv_eof_set_def nth_list_update)

lemma eof_set_length [simp]: "length (sock_worker_recv_eof_set fd val table) = length table"
  by (simp add: sock_worker_recv_eof_set_def)

section \<open>Retry decisions\<close>

datatype wifi_retry_event = WIFI_RETRY_EVENT_NONE | WIFI_RETRY_EVENT_ASSOCIATION_REJECTED
  | WIFI_RETRY_EVENT_AUTHENTICATION_REJECTED | WIFI_RETRY_EVENT_DISCONNECT

definition wifi_retry_delay_ms :: "wifi_retry_event \<Rightarrow> u32 \<Rightarrow> u32 \<Rightarrow> u32" where
  "wifi_retry_delay_ms event comeback_delay_ms denylist_delay_ms =
     (if event = WIFI_RETRY_EVENT_ASSOCIATION_REJECTED then comeback_delay_ms else denylist_delay_ms)"

definition wifi_retry_should_restore_first_pass :: "16 word \<Rightarrow> bool" where
  "wifi_retry_should_restore_first_pass retry_pass_reason \<longleftrightarrow> retry_pass_reason = 3 \<or> retry_pass_reason = 0"

definition wifi_retry_sanitize_reason :: "16 word \<Rightarrow> bool \<Rightarrow> 16 word" where
  "wifi_retry_sanitize_reason reason own_disconnect_issued =
     (if reason = 3 \<and> own_disconnect_issued then 0 else reason)"

section \<open>Waiting for a host frame\<close>

text \<open>The loop counter is 32 bits wide; a zero step never ends.\<close>

partial_function (option) wait_host_frame_loop ::
    "('c \<Rightarrow> 'c \<times> u32) \<Rightarrow> (u32 \<Rightarrow> 'c \<Rightarrow> 'c) \<Rightarrow> u32 \<Rightarrow> u32 \<Rightarrow> u32 \<Rightarrow> u32 \<Rightarrow> 'c \<Rightarrow> ('c \<times> bool) option" where
  "wait_host_frame_loop count_fn sleep_ms_fn window_ms step_ms baseline elapsed_ms c =
     (if elapsed_ms < window_ms
      then case count_fn (sleep_ms_fn step_ms c) of (c1, n) \<Rightarrow>
             if n \<noteq> baseline then Some (c1, True)
             else wait_host_frame_loop count_fn sleep_ms_fn window_ms step_ms baseline (elapsed_ms + step_ms) c1
      else Some (c, False))"

declare wait_host_frame_loop.simps [code]

definition wifi_wait_host_frame ::
    "('c \<Rightarrow> 'c \<times> u32) \<Rightarrow> (u32 \<Rightarrow> 'c \<Rightarrow> 'c) \<Rightarrow> u32 \<Rightarrow> u32 \<Rightarrow> 'c \<Rightarrow> ('c \<times> bool) option" where
  "wifi_wait_host_frame count_fn sleep_ms_fn window_ms step_ms c =
     (case count_fn c of (c1, baseline) \<Rightarrow>
        wait_host_frame_loop count_fn sleep_ms_fn window_ms step_ms baseline 0 c1)"

section \<open>The connect wait\<close>

definition CC3501E_SOCK_CONNECT_SLICE_MS :: u32 where "CC3501E_SOCK_CONNECT_SLICE_MS = 100"
definition CC3501E_SOCK_CONNECT_CAP_MS :: u32 where "CC3501E_SOCK_CONNECT_CAP_MS = 60000"

record 'c sock_connect_ops =
  get_flags :: "'c \<Rightarrow> 'c \<times> int"
  set_flags :: "int \<Rightarrow> 'c \<Rightarrow> 'c \<times> int"
  start_connect :: "'c \<Rightarrow> 'c \<times> int"
  in_progress :: "'c \<Rightarrow> bool"
  wait_writable :: "u32 \<Rightarrow> 'c \<Rightarrow> 'c \<times> int"
  so_error :: "'c \<Rightarrow> 'c \<times> int \<times> int"
  now_ms :: "'c \<Rightarrow> u32"
  heal :: "'c \<Rightarrow> 'c"
  nonblock_flag :: int

definition sock_connect_slice_ms :: "u32 \<Rightarrow> u32" where
  "sock_connect_slice_ms elapsed_ms =
     (if elapsed_ms \<ge> CC3501E_SOCK_CONNECT_CAP_MS then 0
      else let left = CC3501E_SOCK_CONNECT_CAP_MS - elapsed_ms
           in if left < CC3501E_SOCK_CONNECT_SLICE_MS then left else CC3501E_SOCK_CONNECT_SLICE_MS)"

text \<open>\<open>None\<close> when the loop never leaves; the error word is the one \<open>so_error\<close> writes.\<close>

partial_function (option) sock_connect_loop ::
    "'c sock_connect_ops \<Rightarrow> u32 \<Rightarrow> 'c \<Rightarrow> ('c \<times> int) option" where
  "sock_connect_loop ops t0 c =
     (let slice = sock_connect_slice_ms (now_ms ops c - t0)
      in if slice = 0 then Some (c, -1)
         else case wait_writable ops slice c of (c1, n) \<Rightarrow>
           if n > 0
           then case so_error ops c1 of (c2, g, err) \<Rightarrow>
                  Some (c2, if g = 0 \<and> err = 0 then 0 else -1)
           else if n < 0 then Some (c1, -1)
           else sock_connect_loop ops t0 (heal ops c1))"

declare sock_connect_loop.simps [code]

definition sock_connect_run :: "'c sock_connect_ops \<Rightarrow> 'c \<Rightarrow> ('c \<times> int) option" where
  "sock_connect_run ops c =
     (case get_flags ops c of (c1, orig) \<Rightarrow>
        if orig < 0 then Some (c1, -1)
        else case set_flags ops (orig OR nonblock_flag ops) c1 of (c2, s) \<Rightarrow>
          if s < 0 then Some (c2, -1)
          else case start_connect ops c2 of (c3, rc0) \<Rightarrow>
            case (if rc0 = 0 then Some (c3, 0)
                  else if \<not> in_progress ops c3 then Some (c3, -1)
                  else sock_connect_loop ops (now_ms ops c3) c3) of
              None \<Rightarrow> None
            | Some (c4, rc) \<Rightarrow>
                case set_flags ops orig c4 of (c5, s2) \<Rightarrow> Some (c5, if s2 < 0 then -1 else rc))"

section \<open>Facts\<close>

subsection \<open>Heals are separated by real transfers\<close>

record heal_sample =
  at_idle :: bool
  quiet :: u32
  xfers :: u32

fun heal_run :: "u32 \<Rightarrow> heal_sample list \<Rightarrow> link_quiet_rearm_state \<Rightarrow> link_quiet_rearm_state \<times> bool list" where
  "heal_run rearm [] st = (st, [])"
| "heal_run rearm (t # ts) st =
     (case link_quiet_rearm_tick (at_idle t) (quiet t) rearm (xfers t) st of (st1, f) \<Rightarrow>
        case heal_run rearm ts st1 of (st2, fs) \<Rightarrow> (st2, f # fs))"

text \<open>A heal fired before tick \<open>j\<close> and the transfer count has been \<open>c\<close> from there on.\<close>

definition healed_at :: "heal_sample list \<Rightarrow> bool list \<Rightarrow> nat \<Rightarrow> u32 \<Rightarrow> bool" where
  "healed_at ts fs j c \<longleftrightarrow>
     (\<exists>i < j. fs ! i \<and> xfers (ts ! i) = c \<and> (\<forall>k. i < k \<and> k < j \<longrightarrow> xfers (ts ! k) = c))"

lemma heal_run_snoc:
  "heal_run rearm (ts @ [t]) st =
     (case heal_run rearm ts st of (st1, fs) \<Rightarrow>
        case link_quiet_rearm_tick (at_idle t) (quiet t) rearm (xfers t) st1 of (st2, f) \<Rightarrow> (st2, fs @ [f]))"
  by (induction ts arbitrary: st) (simp_all split: prod.split)

lemma heal_run_length: "heal_run rearm ts st = (st', fs) \<Longrightarrow> length fs = length ts"
  by (induction ts arbitrary: st st' fs) (auto split: prod.splits)

lemma healed_at_Suc:
  "healed_at ts fs (Suc n) c \<longleftrightarrow> xfers (ts ! n) = c \<and> (fs ! n \<or> healed_at ts fs n c)"
  unfolding healed_at_def less_Suc_eq by auto

lemma healed_at_append:
  "j \<le> length ts \<Longrightarrow> length fs = length ts \<Longrightarrow> healed_at (ts @ us) (fs @ gs) j c = healed_at ts fs j c"
  unfolding healed_at_def by (auto simp: nth_append)

lemma heal_run_spec:
  assumes "heal_run rearm ts link_quiet_rearm_init = (st, fs)"
  shows "(\<forall>c. healed_pending st \<and> heal_fired_xfer_count st = c \<longleftrightarrow> healed_at ts fs (length ts) c)
    \<and> (\<forall>j < length ts. fs ! j \<longleftrightarrow> at_idle (ts ! j) \<and> rearm \<le> quiet (ts ! j) \<and> \<not> healed_at ts fs j (xfers (ts ! j)))"
  using assms
proof (induction ts arbitrary: st fs rule: rev_induct)
  case Nil
  then show ?case by (auto simp: link_quiet_rearm_init_def healed_at_def)
next
  case (snoc t ts)
  obtain st1 gs where r: "heal_run rearm ts link_quiet_rearm_init = (st1, gs)" by fastforce
  obtain f where tick: "link_quiet_rearm_tick (at_idle t) (quiet t) rearm (xfers t) st1 = (st, f)"
    and fs: "fs = gs @ [f]"
    using snoc.prems r by (auto simp: heal_run_snoc split: prod.splits)
  have len: "length gs = length ts" by (rule heal_run_length [OF r])
  note old = snoc.IH [OF r]
  have app: "healed_at (ts @ [t]) fs j c = healed_at ts gs j c" if "j \<le> length ts" for j c
    unfolding fs using that len by (rule healed_at_append)
  have f: "f \<longleftrightarrow> at_idle t \<and> rearm \<le> quiet t \<and> \<not> healed_at ts gs (length ts) (xfers t)"
    using tick conjunct1 [OF old, rule_format, of "xfers t"]
    by (auto simp: link_quiet_rearm_tick_def Let_def not_less split: if_splits)
  have last: "healed_at (ts @ [t]) fs (length (ts @ [t])) c \<longleftrightarrow>
      xfers t = c \<and> (f \<or> healed_pending st1 \<and> heal_fired_xfer_count st1 = c)" for c
    using conjunct1 [OF old, rule_format, of c] app [of "length ts" c] by (simp add: healed_at_Suc fs nth_append len)
  have "healed_pending st \<and> heal_fired_xfer_count st = c \<longleftrightarrow> healed_at (ts @ [t]) fs (length (ts @ [t])) c" for c
    unfolding last using tick
    by (cases "healed_pending st1 \<and> xfers t = heal_fired_xfer_count st1")
       (auto simp: link_quiet_rearm_tick_def Let_def split: if_splits)
  moreover have "fs ! j \<longleftrightarrow> at_idle ((ts @ [t]) ! j) \<and> rearm \<le> quiet ((ts @ [t]) ! j)
      \<and> \<not> healed_at (ts @ [t]) fs j (xfers ((ts @ [t]) ! j))" if "j < length (ts @ [t])" for j
    using that f conjunct2 [OF old, rule_format, of j] app [of j] fs len
    by (cases "j = length ts") (auto simp: nth_append)
  ultimately show ?case by blast
qed

text \<open>
  The link-heal detector fires exactly when it should.  Over any sequence of samples it fires
  at a sample if and only if the slave is parked at the request header, has been quiet for the
  threshold, and no earlier fire has been left without a real transfer since: two fires are always
  separated by a change of the host's transfer count, so a heal's own re-arm cannot trigger the next.
\<close>

theorem link_heal_once_per_episode:
  assumes "heal_run rearm ts link_quiet_rearm_init = (st, fs)"
  shows "length fs = length ts \<and> (\<forall>j < length ts. fs ! j \<longleftrightarrow>
     at_idle (ts ! j) \<and> rearm \<le> quiet (ts ! j)
     \<and> \<not> (\<exists>i < j. fs ! i \<and> (\<forall>k. i < k \<and> k \<le> j \<longrightarrow> xfers (ts ! k) = xfers (ts ! i))))"
proof -
  have "healed_at ts fs j (xfers (ts ! j)) \<longleftrightarrow>
      (\<exists>i < j. fs ! i \<and> (\<forall>k. i < k \<and> k \<le> j \<longrightarrow> xfers (ts ! k) = xfers (ts ! i)))" for j
    unfolding healed_at_def le_less by (metis order.strict_trans)
  then show ?thesis using heal_run_spec [OF assms] heal_run_length [OF assms] by simp
qed

theorem link_heal_once_per_episode_witness:
  "let q = \<lparr>at_idle = True, quiet = 3000, xfers = 7\<rparr>; r = heal_run 3000 [q, q, q\<lparr>xfers := 8\<rparr>] link_quiet_rearm_init
   in snd r = [True, False, True] \<and> length (snd r) = 3"
  using link_heal_once_per_episode [OF surjective_pairing, of 3000 "[\<lparr>at_idle = True, quiet = 3000, xfers = 7\<rparr>,
    \<lparr>at_idle = True, quiet = 3000, xfers = 7\<rparr>, \<lparr>at_idle = True, quiet = 3000, xfers = 8\<rparr>]"]
  by (simp add: link_quiet_rearm_tick_def link_quiet_rearm_init_def Let_def)

subsection \<open>The poll for a host frame\<close>

definition poll_ctx :: "('c \<Rightarrow> 'c \<times> u32) \<Rightarrow> (u32 \<Rightarrow> 'c \<Rightarrow> 'c) \<Rightarrow> u32 \<Rightarrow> nat \<Rightarrow> 'c \<Rightarrow> 'c" where
  "poll_ctx count_fn sleep_ms_fn step_ms k = (\<lambda>c. fst (count_fn (sleep_ms_fn step_ms c))) ^^ k"

definition poll_count :: "('c \<Rightarrow> 'c \<times> u32) \<Rightarrow> (u32 \<Rightarrow> 'c \<Rightarrow> 'c) \<Rightarrow> u32 \<Rightarrow> nat \<Rightarrow> 'c \<Rightarrow> u32" where
  "poll_count count_fn sleep_ms_fn step_ms k c =
     snd (count_fn (sleep_ms_fn step_ms (poll_ctx count_fn sleep_ms_fn step_ms k c)))"

lemma poll_count_Suc:
  "count_fn (sleep_ms_fn step_ms c) = (c1, n) \<Longrightarrow>
   poll_count count_fn sleep_ms_fn step_ms (Suc k) c = poll_count count_fn sleep_ms_fn step_ms k c1"
  by (simp add: poll_count_def poll_ctx_def funpow_Suc_right del: funpow.simps)

lemma ex_less_Suc_shift: "(\<exists>k < Suc N. P k) \<longleftrightarrow> P 0 \<or> (\<exists>k < N. P (Suc k))"
  using Ex_less_Suc2 by auto

lemma wait_loop_spec:
  assumes "step_ms \<noteq> 0" and "unat window_ms + unat step_ms \<le> 2 ^ 32"
  shows "unat elapsed < unat window_ms + unat step_ms \<Longrightarrow>
    N = (unat window_ms - unat elapsed + unat step_ms - 1) div unat step_ms \<Longrightarrow>
    \<exists>c'. wait_host_frame_loop count_fn sleep_ms_fn window_ms step_ms base elapsed c =
      Some (c', \<exists>k < N. poll_count count_fn sleep_ms_fn step_ms k c \<noteq> base)"
proof (induction N arbitrary: elapsed c)
  case 0
  have "0 < unat step_ms" using assms(1) by (simp add: unat_gt_0)
  moreover have "unat window_ms - unat elapsed + unat step_ms - 1 < unat step_ms"
    using "0.prems"(2) calculation by (metis div_eq_0_iff not_gr0)
  ultimately have "unat window_ms - unat elapsed = 0" by linarith
  then show ?case by (subst wait_host_frame_loop.simps) (simp add: word_less_nat_alt)
next
  case (Suc N)
  let ?s = "unat step_ms" and ?w = "unat window_ms" and ?e = "unat elapsed"
  have s: "0 < ?s" using assms(1) by (simp add: unat_gt_0)
  have lt: "?e < ?w"
    by (rule ccontr) (use Suc.prems(2) s in simp)
  obtain c1 n where cf: "count_fn (sleep_ms_fn step_ms c) = (c1, n)" by fastforce
  have e: "unat (elapsed + step_ms) = ?e + ?s"
    using unat_add_lem [of elapsed step_ms] lt assms(2) by simp
  have "N = (?w - (?e + ?s) + ?s - 1) div ?s"
  proof (cases "?e + ?s \<le> ?w")
    case True
    then have "?w - ?e + ?s - 1 = (?w - (?e + ?s) + ?s - 1) + ?s" using s by linarith
    then have "(?w - ?e + ?s - 1) div ?s = Suc ((?w - (?e + ?s) + ?s - 1) div ?s)"
      using s by (simp only: div_add_self2)
    then show ?thesis using Suc.prems(2) by simp
  next
    case False
    then have "?w - ?e + ?s - 1 < 2 * ?s" using s by linarith
    then have "Suc N < 2" using Suc.prems(2) by (metis less_mult_imp_div_less)
    then show ?thesis using False s by simp
  qed
  then obtain c' where "wait_host_frame_loop count_fn sleep_ms_fn window_ms step_ms base (elapsed + step_ms) c1 =
      Some (c', \<exists>k < N. poll_count count_fn sleep_ms_fn step_ms k c1 \<noteq> base)"
    using Suc.IH [of "elapsed + step_ms" c1] lt e by auto
  moreover have "poll_count count_fn sleep_ms_fn step_ms 0 c = n"
    by (simp add: poll_count_def poll_ctx_def cf)
  ultimately show ?case
    using lt by (subst wait_host_frame_loop.simps)
      (simp add: cf word_less_nat_alt ex_less_Suc_shift poll_count_Suc [of count_fn sleep_ms_fn step_ms c c1 n, OF cf])
qed

text \<open>
  The poll for a host frame terminates with the right answer.  For a nonzero step whose sum
  with the window does not overflow 32 bits it returns, and reports a frame if and only if one of
  its \<open>window / step\<close> polls (rounded up) read a count different from the sample it took on entry.
\<close>

theorem wait_host_frame_decides:
  assumes "step_ms \<noteq> 0" and "unat window_ms + unat step_ms \<le> 2 ^ 32" and "count_fn c = (c1, baseline)"
  shows "\<exists>c'. wifi_wait_host_frame count_fn sleep_ms_fn window_ms step_ms c =
    Some (c', \<exists>k < (unat window_ms + unat step_ms - 1) div unat step_ms.
                poll_count count_fn sleep_ms_fn step_ms k c1 \<noteq> baseline)"
  using wait_loop_spec [OF assms(1,2), of 0 _ count_fn sleep_ms_fn baseline c1] assms(1,3)
  by (simp add: wifi_wait_host_frame_def unat_gt_0)

text \<open>A clock that counts its sleeps, with a frame that lands at the second poll.\<close>

theorem wait_host_frame_decides_witness:
  "wifi_wait_host_frame (\<lambda>n. (n, if n < 2 then 5 else 6)) (\<lambda>ms n. n + 1) 150 50 (0 :: nat) = Some (2, True)"
proof -
  obtain c' b where r: "wifi_wait_host_frame (\<lambda>n. (n, if n < 2 then 5 else 6)) (\<lambda>ms n. n + 1) 150 50 (0 :: nat) = Some (c', b)"
    using wait_host_frame_decides [of 50 150 "\<lambda>n :: nat. (n, if n < 2 then 5 else 6)" 0 0 5 "\<lambda>ms n. n + 1"] by auto
  moreover have "wifi_wait_host_frame (\<lambda>n. (n, if n < 2 then 5 else 6)) (\<lambda>ms n. n + 1) 150 50 (0 :: nat) = Some (2, True)"
    by (simp add: wifi_wait_host_frame_def wait_host_frame_loop.simps)
  ultimately show ?thesis by simp
qed

subsection \<open>The connect wait ends and restores the flags\<close>

text \<open>
  A wait that timed out, with the heal after it, takes at least the slice it was given and less
  than 24 days.
\<close>

definition waits_take_time :: "'c sock_connect_ops \<Rightarrow> bool" where
  "waits_take_time ops \<longleftrightarrow> (\<forall>s c c1. wait_writable ops s c = (c1, 0) \<longrightarrow>
     s \<le> now_ms ops (heal ops c1) - now_ms ops c \<and> now_ms ops (heal ops c1) - now_ms ops c \<le> 0x7FFFFFFF)"

lemma slice_le: "sock_connect_slice_ms e \<noteq> 0 \<Longrightarrow> unat e < 60000"
  by (auto simp: sock_connect_slice_ms_def CC3501E_SOCK_CONNECT_CAP_MS_def word_le_nat_alt split: if_splits)

text \<open>How the loop can end: at the cap, on an error, or with the pending error read back.\<close>

definition connect_outcome :: "'c sock_connect_ops \<Rightarrow> int \<Rightarrow> bool" where
  "connect_outcome ops rc \<longleftrightarrow> rc = -1 \<or> rc = 0 \<and> (\<exists>s c c1 n c2. wait_writable ops s c = (c1, n) \<and> n > 0
     \<and> so_error ops c1 = (c2, 0, 0))"

lemma connect_loop_ends:
  assumes "waits_take_time ops"
  shows "\<exists>c' rc. sock_connect_loop ops t0 c = Some (c', rc) \<and> connect_outcome ops rc"
proof (induction "60000 - unat (now_ms ops c - t0)" arbitrary: c rule: less_induct)
  case less
  define slice where "slice = sock_connect_slice_ms (now_ms ops c - t0)"
  obtain c1 n where w: "wait_writable ops slice c = (c1, n)" by fastforce
  obtain c2 g err where so: "so_error ops c1 = (c2, g, err)" by (metis prod_cases3)
  consider (cap) "slice = 0" | (ready) "slice \<noteq> 0" "n > 0" | (error) "slice \<noteq> 0" "n < 0" | (again) "slice \<noteq> 0" "n = 0"
    by linarith
  then show ?case
  proof cases
    case again
    let ?c = "heal ops c1"
    let ?e = "now_ms ops c - t0" and ?d = "now_ms ops ?c - now_ms ops c"
    have d: "slice \<le> ?d" "?d \<le> 0x7FFFFFFF" using assms w again(2) unfolding waits_take_time_def by blast+
    have e: "unat ?e < 60000" using again(1) unfolding slice_def by (rule slice_le)
    have "unat ?d \<le> 0x7FFFFFFF" using d(2) by (simp add: word_le_nat_alt)
    then have "unat (?e + ?d) = unat ?e + unat ?d" using e unat_add_lem [of ?e ?d] by simp
    moreover have "?e + ?d = now_ms ops ?c - t0" by simp
    moreover have "0 < unat ?d" using d(1) again(1) by (metis unat_gt_0 word_le_0_iff)
    ultimately have "60000 - unat (now_ms ops ?c - t0) < 60000 - unat ?e" using e by simp
    from less.hyps [OF this] show ?thesis
      using again w by (subst sock_connect_loop.simps) (simp add: slice_def [symmetric])
  next
    case ready
    then have "connect_outcome ops (if g = 0 \<and> err = 0 then 0 else -1)"
      using w so unfolding connect_outcome_def by (cases "g = 0 \<and> err = 0") (auto intro!: exI)
    then show ?thesis
      using ready by (subst sock_connect_loop.simps) (simp add: slice_def [symmetric] w so)
  qed (subst sock_connect_loop.simps, simp add: slice_def [symmetric] w connect_outcome_def)+
qed

text \<open>
  C40: The connect wait ends and puts the socket back.  As long as a wait that times out takes the
  time it was given, the
  non-blocking connect returns (0 or -1, at the latest once its 60 s cap is spent); once the flags
  were read and the socket made non-blocking, its last call restores the flags it read, 0 is
  returned only if that restore worked, and only after the connect was accepted at once or the
  socket became writable with no pending error.
\<close>

theorem sock_connect_ends_and_restores:
  assumes "waits_take_time ops"
  shows "\<exists>c' rc. sock_connect_run ops c = Some (c', rc) \<and> (rc = 0 \<or> rc = -1)
     \<and> (\<forall>c1 orig c2 s. get_flags ops c = (c1, orig) \<and> orig \<ge> 0
          \<and> set_flags ops (orig OR nonblock_flag ops) c1 = (c2, s) \<and> s \<ge> 0 \<longrightarrow>
          (\<exists>c4 s2. set_flags ops orig c4 = (c', s2) \<and> (rc = 0 \<longrightarrow> s2 \<ge> 0
             \<and> (snd (start_connect ops c2) = 0 \<or> connect_outcome ops 0))))"
proof -
  obtain c1 orig where g: "get_flags ops c = (c1, orig)" by fastforce
  obtain c2 s where sf: "set_flags ops (orig OR nonblock_flag ops) c1 = (c2, s)" by fastforce
  obtain c3 rc0 where sc: "start_connect ops c2 = (c3, rc0)" by fastforce
  define r where "r = (if rc0 = 0 then Some (c3, 0) else if \<not> in_progress ops c3 then Some (c3, -1)
    else sock_connect_loop ops (now_ms ops c3) c3)"
  have "\<exists>c4 rc. r = Some (c4, rc) \<and> (rc = -1 \<or> rc = 0 \<and> (rc0 = 0 \<or> connect_outcome ops 0))"
    using connect_loop_ends [OF assms, of "now_ms ops c3" c3] by (auto simp: r_def connect_outcome_def)
  then obtain c4 rc where r: "r = Some (c4, rc)" "rc = -1 \<or> rc = 0 \<and> (rc0 = 0 \<or> connect_outcome ops 0)" by blast
  obtain c5 s2 where re: "set_flags ops orig c4 = (c5, s2)" by fastforce
  show ?thesis
  proof (cases "orig < 0 \<or> s < 0")
    case True
    then show ?thesis using g sf by (auto simp: sock_connect_run_def)
  next
    case False
    then have "sock_connect_run ops c = Some (c5, if s2 < 0 then -1 else rc)"
      using r(1) by (simp add: sock_connect_run_def g sf sc r_def [symmetric] re)
    moreover have "\<exists>c4 s2. set_flags ops orig c4 = (c5, s2) \<and> ((if s2' < 0 then -1 else rc) = 0 \<longrightarrow> s2 \<ge> 0
        \<and> (snd (start_connect ops c2) = 0 \<or> connect_outcome ops 0))" if "s2' = s2" for s2'
      using re r(2) sc that by (intro exI [of _ c4] exI [of _ s2]) auto
    ultimately show ?thesis using g sf r(2) by auto
  qed
qed

text \<open>A socket whose third slice reports it writable: clock, flags and slices as the context.\<close>

definition demo_connect :: "(nat \<times> int) sock_connect_ops" where
  "demo_connect = \<lparr>get_flags = (\<lambda>c. (c, snd c)), set_flags = (\<lambda>f c. ((fst c, f), 0)),
     start_connect = (\<lambda>c. (c, -1)), in_progress = (\<lambda>c. True),
     wait_writable = (\<lambda>ms c. ((fst c + unat ms, snd c), if fst c \<ge> 200 then 1 else if ms > 1000 then -1 else 0)),
     so_error = (\<lambda>c. (c, 0, 0)), now_ms = (\<lambda>c. word_of_nat (fst c)), heal = id, nonblock_flag = 4\<rparr>"

theorem sock_connect_ends_and_restores_witness:
  "sock_connect_run demo_connect (0, 2) = Some ((300, 2), 0)"
proof -
  have "s \<le> 1000 \<Longrightarrow> s \<le> 0x7FFFFFFF" for s :: u32 by (erule order_trans) simp
  then have "waits_take_time demo_connect"
    by (auto simp: waits_take_time_def demo_connect_def not_less split: if_splits)
  then obtain c' rc where "sock_connect_run demo_connect (0, 2) = Some (c', rc)"
    using sock_connect_ends_and_restores [of demo_connect "(0, 2)"] by blast
  then show ?thesis
    by (simp add: sock_connect_run_def sock_connect_loop.simps demo_connect_def sock_connect_slice_ms_def
        CC3501E_SOCK_CONNECT_CAP_MS_def CC3501E_SOCK_CONNECT_SLICE_MS_def)
qed

end
