(* ===== verification/Ti_Sock.thy ===== *)
theory Ti_Sock
  imports Rx_Ring Event_Ring Seams Hal
begin

text \<open>
  The socket driver of \<^verbatim>\<open>hal/ti/cc3501e_hw_ti_sock.c\<close> beside its receive ring (\<open>Rx_Ring\<close>):
  opening, connecting, binding, listening, accepting, sending, receiving and closing.  The lwIP
  stack and the protocol's constants are the fields of a record over a network state \<open>'n\<close>; what
  \<open>errno\<close> tells the code is part of a call's result.
\<close>

section \<open>The stack below\<close>

datatype so_type = SOCK_STREAM | SOCK_DGRAM

datatype send_result = Sent u16 | Would_Block | Send_Failed

record 'n sock_env =
  SOCK_FAMILY_IPV4 :: byte
  SOCK_TYPE_DGRAM :: byte
  EVT_SOCK_ACCEPTED :: byte
  lwip_socket :: "so_type \<Rightarrow> byte \<Rightarrow> 'n \<Rightarrow> 'n \<times> int"
  lwip_close :: "int \<Rightarrow> 'n \<Rightarrow> 'n \<times> int"
  lwip_set_rcvtimeo_ms :: "int \<Rightarrow> nat \<Rightarrow> 'n \<Rightarrow> 'n \<times> int"
  lwip_set_reuseaddr :: "int \<Rightarrow> 'n \<Rightarrow> 'n"
  lwip_set_nonblock :: "int \<Rightarrow> 'n \<Rightarrow> 'n \<times> int"
  lwip_connect_ops :: "int \<Rightarrow> u16 \<Rightarrow> byte list \<Rightarrow> 'n sock_connect_ops"
  lwip_get_so_type :: "int \<Rightarrow> 'n \<Rightarrow> so_type option"
  lwip_bind :: "int \<Rightarrow> u16 \<Rightarrow> byte list \<Rightarrow> 'n \<Rightarrow> 'n \<times> int"
  lwip_listen :: "int \<Rightarrow> int \<Rightarrow> 'n \<Rightarrow> 'n \<times> int"
  lwip_accept :: "int \<Rightarrow> 'n \<Rightarrow> 'n \<times> int \<times> u16 \<times> byte list"
  lwip_send :: "int \<Rightarrow> byte list \<Rightarrow> 'n \<Rightarrow> 'n \<times> send_result"
  lwip_recv :: "int \<Rightarrow> nat \<Rightarrow> 'n \<Rightarrow> 'n \<times> recv_result"
  lwip_recvfrom :: "int \<Rightarrow> nat \<Rightarrow> 'n \<Rightarrow> 'n \<times> recv_result \<times> (byte list \<times> u16) option"
  bridge_attn :: "'n \<Rightarrow> 'n"

definition CC3501E_SOCK_RCVTIMEO_MS :: nat where "CC3501E_SOCK_RCVTIMEO_MS = 2"
definition CC3501E_SOCK_LISTEN_MAX :: nat where "CC3501E_SOCK_LISTEN_MAX = 4"
definition CC3501E_SOCK_LISTEN_BACKLOG_DEFAULT :: int where "CC3501E_SOCK_LISTEN_BACKLOG_DEFAULT = 4"

section \<open>State\<close>

record 'n ti_sock =
  listen_handles :: "u16 list"
  sock_eof :: "bool list"
  ts_ring :: rx_ring
  ts_events :: event_ring
  net :: 'n

text \<open>A handle is its descriptor plus one; 0 is no socket.\<close>

definition handle_fd :: "u16 \<Rightarrow> int" where
  "handle_fd h = uint h - 1"

definition sock_is_stream :: "'n sock_env \<Rightarrow> int \<Rightarrow> 'n \<Rightarrow> bool" where
  "sock_is_stream S fd n \<longleftrightarrow> lwip_get_so_type S fd n = Some SOCK_STREAM"

section \<open>Operations\<close>

definition cc3501e_hw_sock_open ::
    "'n sock_env \<Rightarrow> byte \<Rightarrow> byte \<Rightarrow> byte \<Rightarrow> 'n ti_sock \<Rightarrow> 'n ti_sock \<times> int \<times> u16" where
  "cc3501e_hw_sock_open S family ty protocol s =
     (if family \<noteq> SOCK_FAMILY_IPV4 S then (s, CC3501E_HW_ERR_INVAL, 0)
      else case lwip_socket S (if ty = SOCK_TYPE_DGRAM S then SOCK_DGRAM else SOCK_STREAM) protocol (net s) of
        (n1, fd) \<Rightarrow>
          if fd < 0 then (s\<lparr>net := n1\<rparr>, CC3501E_HW_ERR_NOTIMPL, 0)
          else if fd \<ge> 0xFFFF then (s\<lparr>net := fst (lwip_close S fd n1)\<rparr>, CC3501E_HW_ERR_IO, 0)
          else (s\<lparr>net := fst (lwip_set_rcvtimeo_ms S fd CC3501E_SOCK_RCVTIMEO_MS n1)\<rparr>,
                CC3501E_HW_OK, word_of_int (fd + 1)))"

text \<open>\<open>None\<close> is a connect wait that never leaves (see \<open>sock_connect_run\<close>).\<close>

definition cc3501e_hw_sock_connect ::
    "'n sock_env \<Rightarrow> u16 \<Rightarrow> byte \<Rightarrow> u16 \<Rightarrow> byte list \<Rightarrow> 'n ti_sock \<Rightarrow> ('n ti_sock \<times> int) option" where
  "cc3501e_hw_sock_connect S handle family port addr s =
     (if handle = 0 then Some (s, CC3501E_HW_ERR_INVAL)
      else if family \<noteq> SOCK_FAMILY_IPV4 S then Some (s, CC3501E_HW_ERR_INVAL)
      else let fd = handle_fd handle
           in case sock_connect_run (lwip_connect_ops S fd port addr) (net s) of
                None \<Rightarrow> None
              | Some (n1, rc) \<Rightarrow>
                  if rc \<noteq> 0 then Some (s\<lparr>net := n1\<rparr>, CC3501E_HW_ERR_IO)
                  else if sock_is_stream S fd n1
                  then Some (s\<lparr>net := n1, ts_ring := cc3501e_hw_sock_prefetch handle True (ts_ring s)\<rparr>, CC3501E_HW_OK)
                  else Some (s\<lparr>net := n1\<rparr>, CC3501E_HW_OK))"

definition listen_table_remove :: "u16 \<Rightarrow> u16 list \<Rightarrow> u16 list" where
  "listen_table_remove handle tab = map (\<lambda>h. if h = handle then 0 else h) tab"

definition cc3501e_hw_sock_bind ::
    "'n sock_env \<Rightarrow> u16 \<Rightarrow> byte \<Rightarrow> u16 \<Rightarrow> byte list \<Rightarrow> 'n ti_sock \<Rightarrow> 'n ti_sock \<times> int" where
  "cc3501e_hw_sock_bind S handle family port addr s =
     (if handle = 0 then (s, CC3501E_HW_ERR_INVAL)
      else if family \<noteq> SOCK_FAMILY_IPV4 S then (s, CC3501E_HW_ERR_INVAL)
      else let fd = handle_fd handle
           in case lwip_bind S fd port addr (lwip_set_reuseaddr S fd (net s)) of (n1, b) \<Rightarrow>
                (s\<lparr>net := n1\<rparr>, if b \<noteq> 0 then CC3501E_HW_ERR_IO else CC3501E_HW_OK))"

text \<open>The first free slot of the table, its length when there is none.\<close>

definition listen_free_slot :: "u16 list \<Rightarrow> nat" where
  "listen_free_slot tab = length (takeWhile (\<lambda>h. h \<noteq> 0) tab)"

definition cc3501e_hw_sock_listen :: "'n sock_env \<Rightarrow> u16 \<Rightarrow> byte \<Rightarrow> 'n ti_sock \<Rightarrow> 'n ti_sock \<times> int" where
  "cc3501e_hw_sock_listen S handle backlog s =
     (if handle = 0 then (s, CC3501E_HW_ERR_INVAL)
      else let fd = handle_fd handle
           in case lwip_set_nonblock S fd (net s) of (n1, f) \<Rightarrow>
              case (if f < 0 then lwip_set_rcvtimeo_ms S fd 1 n1 else (n1, 0)) of (n2, t) \<Rightarrow>
                if f < 0 \<and> t \<noteq> 0 then (s\<lparr>net := n2\<rparr>, CC3501E_HW_ERR_IO)
                else let tab = listen_table_remove handle (listen_handles s); i = listen_free_slot tab
                     in if i = CC3501E_SOCK_LISTEN_MAX
                        then (s\<lparr>net := n2, listen_handles := tab\<rparr>, CC3501E_HW_ERR_STATE)
                        else case lwip_listen S fd
                                    (if backlog = 0 then CC3501E_SOCK_LISTEN_BACKLOG_DEFAULT else uint backlog) n2 of
                          (n3, l) \<Rightarrow>
                            if l \<noteq> 0 then (s\<lparr>net := n3, listen_handles := tab[i := 0]\<rparr>, CC3501E_HW_ERR_IO)
                            else (s\<lparr>net := n3, listen_handles := tab[i := handle]\<rparr>, CC3501E_HW_OK))"

text \<open>One turn of the accept loop, for the handle \<open>lh\<close> in the slot.\<close>

definition accept_event :: "'n sock_env \<Rightarrow> u16 \<Rightarrow> u16 \<Rightarrow> u16 \<Rightarrow> byte list \<Rightarrow> byte list" where
  "accept_event S lh nh pport addr =
     put_le16 lh @ put_le16 nh @ put_le16 pport @ [SOCK_FAMILY_IPV4 S, 0] @ addr"

definition accept_one :: "'n sock_env \<Rightarrow> u16 \<Rightarrow> 'n ti_sock \<Rightarrow> 'n ti_sock" where
  "accept_one S lh s =
     (if lh = 0 then s
      else case lwip_accept S (handle_fd lh) (net s) of (n1, nfd, pport, addr) \<Rightarrow>
        if nfd < 0 then s\<lparr>net := n1\<rparr>
        else if nfd \<ge> 0xFFFF then s\<lparr>net := fst (lwip_close S nfd n1)\<rparr>
        else let n2 = fst (lwip_set_rcvtimeo_ms S nfd CC3501E_SOCK_RCVTIMEO_MS n1);
                 ev = accept_event S lh (word_of_int (nfd + 1)) pport addr
             in case event_ring_push (bridge_attn S) (EVT_SOCK_ACCEPTED S) (Some ev) 12 (ts_events s) n2 of
                  (r, n3, q) \<Rightarrow>
                    s\<lparr>ts_events := r, net := (if q = 0 then fst (lwip_close S nfd n3) else n3)\<rparr>)"

definition cc3501e_hw_sock_accept_pump :: "'n sock_env \<Rightarrow> 'n ti_sock \<Rightarrow> 'n ti_sock" where
  "cc3501e_hw_sock_accept_pump S s = fold (accept_one S) (listen_handles s) s"

definition cc3501e_hw_sock_send ::
    "'n sock_env \<Rightarrow> u16 \<Rightarrow> byte \<Rightarrow> byte list \<Rightarrow> 'n ti_sock \<Rightarrow> 'n ti_sock \<times> int \<times> u16" where
  "cc3501e_hw_sock_send S handle flags dat s =
     (if handle = 0 then (s, CC3501E_HW_ERR_INVAL, 0)
      else case lwip_send S (handle_fd handle) dat (net s) of
        (n1, Sent k) \<Rightarrow> (s\<lparr>net := n1\<rparr>, CC3501E_HW_OK, k)
      | (n1, Would_Block) \<Rightarrow> (s\<lparr>net := n1\<rparr>, CC3501E_HW_OK, 0)
      | (n1, Send_Failed) \<Rightarrow> (s\<lparr>net := n1\<rparr>, CC3501E_HW_ERR_IO, 0))"

text \<open>The bytes received (at most \<open>min max_len cap\<close> are asked for), the sender's address and port.\<close>

definition received :: "recv_result \<Rightarrow> byte list" where
  "received r = (case r of Data bs \<Rightarrow> bs | _ \<Rightarrow> [])"

definition cc3501e_hw_sock_recv ::
    "'n sock_env \<Rightarrow> u16 \<Rightarrow> u16 \<Rightarrow> u16 \<Rightarrow> 'n ti_sock \<Rightarrow> 'n ti_sock \<times> int \<times> byte list \<times> byte list \<times> u16" where
  "cc3501e_hw_sock_recv S handle max_len cap s =
     (if handle = 0 then (s, CC3501E_HW_ERR_INVAL, [], replicate 4 0, 0)
      else let fd = handle_fd handle; want = (if max_len < cap then max_len else cap)
           in if sock_worker_recv_eof_check (sock_eof s) fd then (s, CC3501E_HW_OK, [], replicate 4 0, 0)
              else if want = 0 then (s, CC3501E_HW_OK, [], replicate 4 0, 0)
              else case lwip_recvfrom S fd (unat want) (net s) of (n1, r, from) \<Rightarrow>
                case r of
                  Again \<Rightarrow> (s\<lparr>net := n1\<rparr>, CC3501E_HW_OK, [], replicate 4 0, 0)
                | Failed \<Rightarrow> (s\<lparr>net := n1\<rparr>, CC3501E_HW_ERR_IO, [], replicate 4 0, 0)
                | _ \<Rightarrow>
                    (s\<lparr>net := n1,
                       sock_eof := (if sock_worker_recv_eof_should_latch (int (length (received r))) (ucast want)
                                         (sock_is_stream S fd n1)
                                    then sock_worker_recv_eof_set fd True (sock_eof s) else sock_eof s)\<rparr>,
                     CC3501E_HW_OK, received r,
                     case from of Some (a, p) \<Rightarrow> a | None \<Rightarrow> replicate 4 0,
                     case from of Some (a, p) \<Rightarrow> p | None \<Rightarrow> 0))"

definition cc3501e_hw_sock_close :: "'n sock_env \<Rightarrow> u16 \<Rightarrow> 'n ti_sock \<Rightarrow> 'n ti_sock \<times> int" where
  "cc3501e_hw_sock_close S handle s =
     (let s1 = s\<lparr>ts_ring := cc3501e_hw_sock_prefetch handle False (ts_ring s),
                 listen_handles := listen_table_remove handle (listen_handles s)\<rparr>
      in if handle = 0 then (s1, CC3501E_HW_ERR_INVAL)
         else let fd = handle_fd handle;
                  s2 = s1\<lparr>sock_eof := sock_worker_recv_eof_set fd False (sock_eof s1)\<rparr>
              in case lwip_close S fd (net s2) of (n1, c) \<Rightarrow>
                   (s2\<lparr>net := n1\<rparr>, if c \<noteq> 0 then CC3501E_HW_ERR_IO else CC3501E_HW_OK))"

text \<open>The receive pump of \<open>Rx_Ring\<close> on this driver's network state.\<close>

definition sock_pump :: "'n sock_env \<Rightarrow> 'n ti_sock \<Rightarrow> 'n ti_sock" where
  "sock_pump S s =
     (case cc3501e_hw_sock_pump (lwip_recv S (handle_fd (fd_plus1 (ts_ring s)))) (ts_ring s) (net s) of
        (r, n1) \<Rightarrow> s\<lparr>ts_ring := r, net := n1\<rparr>)"

end
