(* ===== verification/Sock_Table.thy ===== *)
theory Sock_Table
  imports Ti_Sock
begin

text \<open>
  What the socket driver keeps true over any sequence of operations: an end of stream stays
  reported until the socket is closed, only listening handles are in the accept table, and every
  accepted connection is announced to the host or closed again.
\<close>

section \<open>Runs\<close>

datatype sock_op = Open byte byte byte | Connect u16 byte u16 "byte list" | Bind u16 byte u16 "byte list"
  | Listen u16 byte | Accept_Pump | Send u16 byte "byte list" | Recv u16 u16 u16 | Close u16
  | Rx_Pump | Recv_Ring u16 u16 bool | Prefetch u16 bool

fun sock_step :: "'n sock_env \<Rightarrow> sock_op \<Rightarrow> 'n ti_sock \<Rightarrow> 'n ti_sock option" where
  "sock_step S (Open f t p) s = Some (fst (cc3501e_hw_sock_open S f t p s))"
| "sock_step S (Connect h f p a) s = map_option fst (cc3501e_hw_sock_connect S h f p a s)"
| "sock_step S (Bind h f p a) s = Some (fst (cc3501e_hw_sock_bind S h f p a s))"
| "sock_step S (Listen h b) s = Some (fst (cc3501e_hw_sock_listen S h b s))"
| "sock_step S Accept_Pump s = Some (cc3501e_hw_sock_accept_pump S s)"
| "sock_step S (Send h f d) s = Some (fst (cc3501e_hw_sock_send S h f d s))"
| "sock_step S (Recv h m c) s = Some (fst (cc3501e_hw_sock_recv S h m c s))"
| "sock_step S (Close h) s = Some (fst (cc3501e_hw_sock_close S h s))"
| "sock_step S Rx_Pump s = Some (sock_pump S s)"
| "sock_step S (Recv_Ring h c r) s = Some (s\<lparr>ts_ring := fst (cc3501e_hw_sock_recv_ring h c r (ts_ring s))\<rparr>)"
| "sock_step S (Prefetch h on) s = Some (s\<lparr>ts_ring := cc3501e_hw_sock_prefetch h on (ts_ring s)\<rparr>)"

fun sock_run :: "'n sock_env \<Rightarrow> sock_op list \<Rightarrow> 'n ti_sock \<Rightarrow> 'n ti_sock option" where
  "sock_run S [] s = Some s"
| "sock_run S (x # xs) s = Option.bind (sock_step S x s) (sock_run S xs)"

lemma sock_run_append: "sock_run S (xs @ ys) s = Option.bind (sock_run S xs s) (sock_run S ys)"
  by (induction xs arbitrary: s) (simp_all split: bind_split)

section \<open>What each operation leaves alone\<close>

lemma handle_fd_inj [simp]: "handle_fd h = handle_fd h' \<longleftrightarrow> h = h'"
  by (simp add: handle_fd_def word_uint_eq_iff)

lemma accept_one_frame [simp]:
  "listen_handles (accept_one S lh s) = listen_handles s" "sock_eof (accept_one S lh s) = sock_eof s"
  by (simp_all add: accept_one_def Let_def split: prod.split)

lemma accept_fold_frame [simp]:
  "listen_handles (fold (accept_one S) hs s) = listen_handles s" "sock_eof (fold (accept_one S) hs s) = sock_eof s"
  by (induction hs arbitrary: s) simp_all

lemma send_frame [simp]:
  "listen_handles (fst (cc3501e_hw_sock_send S h f d s)) = listen_handles s"
  "sock_eof (fst (cc3501e_hw_sock_send S h f d s)) = sock_eof s"
  by (simp_all add: cc3501e_hw_sock_send_def split: prod.split send_result.split)

lemma open_frame [simp]:
  "listen_handles (fst (cc3501e_hw_sock_open S f t p s)) = listen_handles s"
  "sock_eof (fst (cc3501e_hw_sock_open S f t p s)) = sock_eof s"
  by (simp_all add: cc3501e_hw_sock_open_def split: prod.split)

lemma bind_frame [simp]:
  "listen_handles (fst (cc3501e_hw_sock_bind S h f p a s)) = listen_handles s"
  "sock_eof (fst (cc3501e_hw_sock_bind S h f p a s)) = sock_eof s"
  by (simp_all add: cc3501e_hw_sock_bind_def Let_def split: prod.split)

lemma pump_frame [simp]:
  "listen_handles (sock_pump S s) = listen_handles s" "sock_eof (sock_pump S s) = sock_eof s"
  by (simp_all add: sock_pump_def split: prod.split)

lemma connect_frame:
  assumes "cc3501e_hw_sock_connect S h f p a s = Some (s', rc)"
  shows "listen_handles s' = listen_handles s" "sock_eof s' = sock_eof s"
  using assms by (auto simp: cc3501e_hw_sock_connect_def Let_def split: if_splits option.splits prod.splits)

lemma recv_frame [simp]: "listen_handles (fst (cc3501e_hw_sock_recv S h m c s)) = listen_handles s"
  by (simp add: cc3501e_hw_sock_recv_def Let_def split: prod.split recv_result.split)

lemma listen_frame [simp]: "sock_eof (fst (cc3501e_hw_sock_listen S h b s)) = sock_eof s"
  by (simp add: cc3501e_hw_sock_listen_def Let_def split: prod.split)

section \<open>End of stream\<close>

lemma ucast_up_pos: "w \<noteq> 0 \<Longrightarrow> (0 :: u32) < ucast w" for w :: u16
proof -
  have "unat (ucast w :: u32) = unat w" using unsigned_less [of w, where 'a = nat] by (simp add: unsigned_ucast_eq take_bit_nat_eq_self)
  then show "w \<noteq> 0 \<Longrightarrow> (0 :: u32) < ucast w" by (simp add: word_less_nat_alt unat_gt_0)
qed

lemma recv_keeps_eof:
  "sock_worker_recv_eof_check (sock_eof s) fd \<Longrightarrow>
   sock_worker_recv_eof_check (sock_eof (fst (cc3501e_hw_sock_recv S h m c s))) fd"
  by (auto simp: cc3501e_hw_sock_recv_def Let_def split: prod.split recv_result.split)

lemma step_keeps_eof:
  assumes "sock_step S x s = Some s'" and "Close h \<noteq> x"
    and "sock_worker_recv_eof_check (sock_eof s) (handle_fd h)"
  shows "sock_worker_recv_eof_check (sock_eof s') (handle_fd h)"
  using assms
  by (cases x)
     (auto simp: recv_keeps_eof cc3501e_hw_sock_accept_pump_def cc3501e_hw_sock_close_def Let_def
       dest: connect_frame split: prod.splits)

lemma run_keeps_eof:
  assumes "sock_run S xs s = Some s'" and "Close h \<notin> set xs"
    and "sock_worker_recv_eof_check (sock_eof s) (handle_fd h)"
  shows "sock_worker_recv_eof_check (sock_eof s') (handle_fd h)"
  using assms by (induction xs arbitrary: s) (auto simp: Option.bind_eq_Some_conv dest: step_keeps_eof)

text \<open>
  End of stream is sticky.  Once a read of at least one byte on a stream socket met the peer's
  orderly close, every later read on that handle reports success with no data and no longer asks
  the stack, whatever other operations run in between, until the handle is closed.
\<close>

theorem eof_sticky:
  assumes "handle \<noteq> 0" and "handle_fd handle < int (length (sock_eof s))" and "0 < max_len" and "0 < cap"
    and "lwip_recvfrom S (handle_fd handle) (unat (min max_len cap)) (net s) = (n1, Eof, from)"
    and "sock_is_stream S (handle_fd handle) n1"
    and "sock_run S xs (fst (cc3501e_hw_sock_recv S handle max_len cap s)) = Some s'"
    and "Close handle \<notin> set xs"
  shows "cc3501e_hw_sock_recv S handle m c s' = (s', CC3501E_HW_OK, [], [0, 0, 0, 0], 0)"
proof -
  let ?fd = "handle_fd handle" let ?s = "fst (cc3501e_hw_sock_recv S handle max_len cap s)"
  have w: "(if max_len < cap then max_len else cap) = min max_len cap" "min max_len cap \<noteq> 0"
    using assms(3,4) by (auto simp: min_def)
  have "0 < uint handle" using assms(1) by (metis uint_0_iff order_le_less uint_ge_0)
  then have fd: "0 \<le> ?fd" by (simp add: handle_fd_def)
  have pos: "(0 :: u32) < ucast (min max_len cap)" using w(2) by (rule ucast_up_pos)
  have "sock_worker_recv_eof_check (sock_eof ?s) ?fd"
    using assms(1,2,5,6) w(2) fd pos unfolding cc3501e_hw_sock_recv_def w(1)
    by (simp add: Let_def received_def sock_worker_recv_eof_should_latch_def)
  from run_keeps_eof [OF assms(7,8) this] show ?thesis
    using assms(1) by (simp add: cc3501e_hw_sock_recv_def numeral_eq_Suc)
qed

section \<open>The accept table\<close>

definition listen_table_ok :: "u16 list \<Rightarrow> bool" where
  "listen_table_ok tab \<longleftrightarrow> length tab = CC3501E_SOCK_LISTEN_MAX \<and> distinct (filter (\<lambda>h. h \<noteq> 0) tab)"

lemma remove_set: "h \<noteq> 0 \<Longrightarrow> h \<in> set (listen_table_remove g tab) \<longleftrightarrow> h \<in> set tab \<and> h \<noteq> g"
  by (auto simp: listen_table_remove_def)

lemma remove_filter:
  "filter (\<lambda>h. h \<noteq> 0) (listen_table_remove g tab) = filter (\<lambda>h. h \<noteq> 0 \<and> h \<noteq> g) tab"
  by (induction tab) (simp_all add: listen_table_remove_def)

lemma remove_ok: "listen_table_ok tab \<Longrightarrow> listen_table_ok (listen_table_remove g tab)"
  using distinct_filter [of "filter (\<lambda>h. h \<noteq> 0) tab" "\<lambda>h. h \<noteq> g"]
  unfolding listen_table_ok_def remove_filter filter_filter
  by (simp add: listen_table_remove_def conj_commute)

lemma free_slot:
  assumes "i = listen_free_slot tab" and "i < length tab"
  shows "\<exists>xs ys. tab = xs @ 0 # ys \<and> length xs = i"
proof -
  let ?p = "\<lambda>h :: u16. h \<noteq> 0"
  have "length (takeWhile ?p tab) + length (dropWhile ?p tab) = length tab"
    by (metis length_append takeWhile_dropWhile_id)
  then have "length (dropWhile ?p tab) > 0" using assms unfolding listen_free_slot_def by linarith
  then have "dropWhile ?p tab \<noteq> []" by (metis length_greater_0_conv)
  then obtain y ys where d: "dropWhile ?p tab = y # ys" by (cases "dropWhile ?p tab") auto
  then have "\<not> ?p y" using hd_dropWhile [of ?p tab] by simp
  then have "tab = takeWhile ?p tab @ 0 # ys" using takeWhile_dropWhile_id [of ?p tab] d by simp
  then show ?thesis using assms(1) by (auto simp: listen_free_slot_def)
qed

lemma insert_ok:
  assumes "listen_table_ok tab" and "h \<noteq> 0" and "h \<notin> set tab" and "i = listen_free_slot tab" and "i < length tab"
  shows "listen_table_ok (tab[i := h]) \<and> set (tab[i := h]) \<subseteq> insert h (set tab) \<and> h \<in> set (tab[i := h])"
proof -
  obtain xs ys where t: "tab = xs @ 0 # ys" "length xs = i" using free_slot [OF assms(4,5)] by blast
  show ?thesis using assms(1-3) t by (auto simp: listen_table_ok_def)
qed

lemma free_slot_le: "listen_free_slot tab \<le> length tab"
  by (simp add: listen_free_slot_def length_takeWhile_le)

text \<open>What listening does to the table, and that success puts the handle into it.\<close>

lemma listen_effect:
  assumes "listen_table_ok (listen_handles s)" and "cc3501e_hw_sock_listen S h b s = (s', rc)"
  shows "listen_table_ok (listen_handles s') \<and> set (listen_handles s') \<subseteq> {0, h} \<union> set (listen_handles s)
    \<and> (rc = CC3501E_HW_OK \<longrightarrow> h \<in> set (listen_handles s') \<and> h \<noteq> 0)
    \<and> (rc \<noteq> CC3501E_HW_OK \<longrightarrow> h \<in> set (listen_handles s') \<longrightarrow> h \<in> set (listen_handles s))"
proof -
  let ?tab = "listen_table_remove h (listen_handles s)" let ?i = "listen_free_slot ?tab"
  have tab: "listen_table_ok ?tab" by (rule remove_ok [OF assms(1)])
  have sub: "set ?tab \<subseteq> insert 0 (set (listen_handles s))" by (auto simp: listen_table_remove_def)
  have len: "length ?tab = CC3501E_SOCK_LISTEN_MAX" using tab by (simp add: listen_table_ok_def)
  show ?thesis
  proof (cases "h = 0")
    case True
    then show ?thesis using assms by (auto simp: cc3501e_hw_sock_listen_def hw_rc_defs)
  next
    case False
    have nin: "h \<notin> set ?tab" using remove_set [OF False] by simp
    have lt: "?i < length ?tab" if "?i \<noteq> CC3501E_SOCK_LISTEN_MAX" using that free_slot_le [of ?tab] len by simp
    note ins = insert_ok [OF tab False nin refl lt]
    have z: "?tab[?i := 0] = ?tab" if "?i \<noteq> CC3501E_SOCK_LISTEN_MAX"
      using free_slot [OF refl lt [OF that]] by (metis list_update_length)
    have "listen_handles s' = listen_handles s \<and> rc \<noteq> CC3501E_HW_OK
        \<or> listen_handles s' = ?tab \<and> rc \<noteq> CC3501E_HW_OK
        \<or> ?i \<noteq> CC3501E_SOCK_LISTEN_MAX \<and> listen_handles s' = ?tab[?i := h] \<and> rc = CC3501E_HW_OK"
      using assms(2) False z
      by (auto simp: cc3501e_hw_sock_listen_def Let_def hw_rc_defs split: prod.splits if_splits)
    then consider "listen_handles s' = listen_handles s" "rc \<noteq> CC3501E_HW_OK"
      | "listen_handles s' = ?tab" "rc \<noteq> CC3501E_HW_OK"
      | "?i \<noteq> CC3501E_SOCK_LISTEN_MAX" "listen_handles s' = ?tab[?i := h]" "rc = CC3501E_HW_OK" by blast
    then show ?thesis
    proof cases
      case 1
      then show ?thesis using assms(1) by auto
    next
      case 2
      then show ?thesis using tab sub nin by auto
    next
      case 3
      show ?thesis using ins [OF 3(1)] sub False unfolding 3(2) by (auto simp: 3(3))
    qed
  qed
qed

definition listened :: "'n sock_env \<Rightarrow> u16 \<Rightarrow> sock_op \<Rightarrow> 'n ti_sock \<Rightarrow> bool" where
  "listened S h x s \<longleftrightarrow> (\<exists>b. x = Listen h b \<and> snd (cc3501e_hw_sock_listen S h b s) = CC3501E_HW_OK)"

lemma step_listen:
  assumes "sock_step S x s = Some s'" and "listen_table_ok (listen_handles s)"
  shows "listen_table_ok (listen_handles s')
    \<and> (h \<noteq> 0 \<longrightarrow> h \<in> set (listen_handles s') \<longrightarrow> listened S h x s \<or> h \<in> set (listen_handles s) \<and> x \<noteq> Close h)"
proof (cases x)
  case (Listen g b)
  obtain rc where l: "cc3501e_hw_sock_listen S g b s = (s', rc)" using assms(1) Listen by (metis sock_step.simps(4) option.inject surjective_pairing)
  from listen_effect [OF assms(2) l] show ?thesis using Listen l by (cases "h = g") (auto simp: listened_def)
next
  case (Close g)
  then show ?thesis using assms
    by (auto simp: cc3501e_hw_sock_close_def Let_def remove_ok remove_set split: if_splits prod.splits)
qed (use assms in \<open>auto simp: cc3501e_hw_sock_accept_pump_def dest: connect_frame\<close>)

text \<open>
  The accept pump polls listening sockets only.  In every run from an empty table, the table
  holds distinct handles, at most four, and every handle in it was put there by a listen that
  reported success and that no close of the same handle followed.
\<close>

theorem accept_table_listening:
  assumes "sock_run S xs s = Some s'" and "listen_handles s = replicate CC3501E_SOCK_LISTEN_MAX 0"
  shows "listen_table_ok (listen_handles s') \<and> (\<forall>h \<in> set (listen_handles s'). h \<noteq> 0 \<longrightarrow>
    (\<exists>ys b zs s1. xs = ys @ Listen h b # zs \<and> sock_run S ys s = Some s1
       \<and> snd (cc3501e_hw_sock_listen S h b s1) = CC3501E_HW_OK \<and> Close h \<notin> set zs))"
  using assms(1)
proof (induction xs arbitrary: s' rule: rev_induct)
  case Nil
  then show ?case using assms(2) by (auto simp: listen_table_ok_def)
next
  case (snoc x xs)
  obtain s1 where r: "sock_run S xs s = Some s1" "sock_step S x s1 = Some s'"
    using snoc.prems by (auto simp: sock_run_append Option.bind_eq_Some_conv)
  note IH = snoc.IH [OF r(1)]
  have ok: "listen_table_ok (listen_handles s1)" using IH by blast
  have hist: "\<exists>ys b zs s1. xs @ [x] = ys @ Listen h b # zs \<and> sock_run S ys s = Some s1
       \<and> snd (cc3501e_hw_sock_listen S h b s1) = CC3501E_HW_OK \<and> Close h \<notin> set zs"
    if h: "h \<in> set (listen_handles s')" "h \<noteq> 0" for h
  proof (cases "listened S h x s1")
    case True
    then show ?thesis using r(1) by (force simp: listened_def)
  next
    case False
    then have "h \<in> set (listen_handles s1)" and nc: "x \<noteq> Close h" using step_listen [OF r(2) ok, of h] h by blast+
    then obtain ys b zs s2 where "xs = ys @ Listen h b # zs" "sock_run S ys s = Some s2"
        "snd (cc3501e_hw_sock_listen S h b s2) = CC3501E_HW_OK" "Close h \<notin> set zs"
      using IH h(2) by blast
    moreover have "Close h \<notin> set (zs @ [x])" using calculation(4) nc by auto
    ultimately show ?thesis by (metis append.assoc append_Cons)
  qed
  have "listen_table_ok (listen_handles s')" using step_listen [OF r(2) ok] by blast
  then show ?case by (intro conjI ballI impI hist)
qed

section \<open>Accepted connections\<close>

text \<open>The sockets open in a network state, as accepting and closing change them.\<close>

definition tracks_open :: "'n sock_env \<Rightarrow> ('n \<Rightarrow> int set) \<Rightarrow> bool" where
  "tracks_open S opened \<longleftrightarrow>
     (\<forall>fd n n1 nfd p a. lwip_accept S fd n = (n1, nfd, p, a) \<longrightarrow> length a = 4
        \<and> (if nfd < 0 then opened n1 = opened n else nfd \<notin> opened n \<and> opened n1 = insert nfd (opened n)))
     \<and> (\<forall>fd n. opened (fst (lwip_close S fd n)) = opened n - {fd})
     \<and> (\<forall>fd ms n. opened (fst (lwip_set_rcvtimeo_ms S fd ms n)) = opened n)
     \<and> (\<forall>n. opened (bridge_attn S n) = opened n)"

lemma tracks_openD:
  assumes "tracks_open S opened"
  shows "lwip_accept S fd n = (n1, nfd, p, a) \<Longrightarrow> length a = 4"
    and "lwip_accept S fd n = (n1, nfd, p, a) \<Longrightarrow>
      if nfd < 0 then opened n1 = opened n else nfd \<notin> opened n \<and> opened n1 = insert nfd (opened n)"
    and "opened (fst (lwip_close S fd n)) = opened n - {fd}"
    and "opened (fst (lwip_set_rcvtimeo_ms S fd ms n)) = opened n"
    and "opened (bridge_attn S n) = opened n"
  using assms unfolding tracks_open_def by metis+

definition announced_listener :: "event \<Rightarrow> u16" where "announced_listener e = get_le16 (snd e) 0"
definition announced_fd :: "event \<Rightarrow> int" where "announced_fd e = handle_fd (get_le16 (snd e) 2)"

lemma accept_event_reads:
  assumes "0 \<le> nfd" and "nfd < 0xFFFF"
  shows "announced_listener (op, accept_event S lh (word_of_int (nfd + 1)) p a) = lh"
    and "announced_fd (op, accept_event S lh (word_of_int (nfd + 1)) p a) = nfd"
proof -
  let ?nh = "word_of_int (nfd + 1) :: u16"
  have u: "uint ?nh = nfd + 1" unfolding uint_word_of_int using assms by simp
  show "announced_listener (op, accept_event S lh ?nh p a) = lh"
    by (simp add: announced_listener_def accept_event_def get_put_le16)
  have "get_le16 (accept_event S lh ?nh p a) 2 = ?nh"
    using get_le16_append [of "put_le16 lh" _ 0] by (simp add: accept_event_def get_put_le16)
  then show "announced_fd (op, accept_event S lh ?nh p a) = nfd"
    using u by (simp add: announced_fd_def handle_fd_def)
qed

lemma accept_one_accounted:
  assumes "tracks_open S opened" and "ring_inv (ts_events s)"
  shows "\<exists>evs. ring_inv (ts_events (accept_one S lh s))
    \<and> ring_events (ts_events (accept_one S lh s)) = ring_events (ts_events s) @ evs
    \<and> opened (net (accept_one S lh s)) = opened (net s) \<union> announced_fd ` set evs
    \<and> (\<forall>e \<in> set evs. fst e = EVT_SOCK_ACCEPTED S \<and> lh \<noteq> 0 \<and> announced_listener e = lh)"
proof (cases "lh = 0")
  case True
  then show ?thesis using assms(2) by (auto simp: accept_one_def)
next
  case False
  obtain n1 nfd p a where acc: "lwip_accept S (handle_fd lh) (net s) = (n1, nfd, p, a)" by (metis prod_cases4)
  note a = tracks_openD(1) [OF assms(1) acc] and op = tracks_openD(2) [OF assms(1) acc]
  note cl = tracks_openD(3) [OF assms(1)] and keep = tracks_openD(4,5) [OF assms(1)]
  consider "nfd < 0" | "0xFFFF \<le> nfd" | "0 \<le> nfd" "nfd < 0xFFFF" by linarith
  then show ?thesis
  proof cases
    case 1
    then have "accept_one S lh s = s\<lparr>net := n1\<rparr>" using False acc by (simp add: accept_one_def)
    then show ?thesis using 1 op assms(2) by (intro exI [of _ "[]"]) simp
  next
    case 2
    then have "accept_one S lh s = s\<lparr>net := fst (lwip_close S nfd n1)\<rparr>" using False acc by (simp add: accept_one_def)
    moreover have "opened n1 - {nfd} = opened (net s)" using op 2 by auto
    ultimately show ?thesis using assms(2) by (intro exI [of _ "[]"]) (simp add: cl)
  next
    case 3
    let ?ev = "accept_event S lh (word_of_int (nfd + 1)) p a"
    let ?n2 = "fst (lwip_set_rcvtimeo_ms S nfd CC3501E_SOCK_RCVTIMEO_MS n1)"
    obtain r n3 q where push: "event_ring_push (bridge_attn S) (EVT_SOCK_ACCEPTED S) (Some ?ev) 12 (ts_events s) ?n2 = (r, n3, q)"
      by (metis prod_cases3)
    have len: "length ?ev = 12" using a by (simp add: accept_event_def)
    have ones: "accept_one S lh s = s\<lparr>ts_events := r, net := (if q = 0 then fst (lwip_close S nfd n3) else n3)\<rparr>"
      using False acc 3 push by (simp add: accept_one_def)
    have opn: "nfd \<notin> opened (net s)" "opened n1 = insert nfd (opened (net s))" using op 3 by auto
    show ?thesis
    proof (cases "count (ts_events s) < EVENT_RING_SLOTS")
      case True
      have "payload_given (Some ?ev) 12" using len by (simp add: payload_given_def)
      note room = event_ring_push_room [OF assms(2) True this push]
      have "push_event (EVT_SOCK_ACCEPTED S) (Some ?ev) 12 (ts_events s) = (EVT_SOCK_ACCEPTED S, ?ev)"
        using len by (simp add: push_event_def EVENT_PAYLOAD_MAX_def)
      then show ?thesis
        using room opn False by (intro exI [of _ "[(EVT_SOCK_ACCEPTED S, ?ev)]"])
          (simp add: ones keep accept_event_reads [OF 3, simplified])
    next
      case nroom: False
      then have "r = ts_events s" "n3 = bridge_attn S ?n2" "q = 0"
        using push event_ring_push_full [of "ts_events s" "bridge_attn S"] by auto
      then show ?thesis using opn assms(2) by (intro exI [of _ "[]"]) (simp add: ones cl keep)
    qed
  qed
qed

lemma accept_fold_accounted:
  assumes "tracks_open S opened" and "ring_inv (ts_events s)"
  shows "\<exists>evs. ring_inv (ts_events (fold (accept_one S) hs s))
    \<and> ring_events (ts_events (fold (accept_one S) hs s)) = ring_events (ts_events s) @ evs
    \<and> opened (net (fold (accept_one S) hs s)) = opened (net s) \<union> announced_fd ` set evs
    \<and> (\<forall>e \<in> set evs. fst e = EVT_SOCK_ACCEPTED S \<and> announced_listener e \<in> set hs - {0})"
  using assms(2)
proof (induction hs arbitrary: s)
  case Nil
  then show ?case by simp
next
  case (Cons h hs)
  let ?s = "accept_one S h s"
  obtain es where e: "ring_inv (ts_events ?s)" "ring_events (ts_events ?s) = ring_events (ts_events s) @ es"
    "opened (net ?s) = opened (net s) \<union> announced_fd ` set es"
    "\<forall>e \<in> set es. fst e = EVT_SOCK_ACCEPTED S \<and> h \<noteq> 0 \<and> announced_listener e = h"
    using accept_one_accounted [OF assms(1) Cons.prems, of h] by blast
  obtain fs where f: "ring_inv (ts_events (fold (accept_one S) hs ?s))"
    "ring_events (ts_events (fold (accept_one S) hs ?s)) = ring_events (ts_events ?s) @ fs"
    "opened (net (fold (accept_one S) hs ?s)) = opened (net ?s) \<union> announced_fd ` set fs"
    "\<forall>e \<in> set fs. fst e = EVT_SOCK_ACCEPTED S \<and> announced_listener e \<in> set hs - {0}"
    using Cons.IH [OF e(1)] by blast
  show ?case using e f by (intro exI [of _ "es @ fs"]) auto
qed

text \<open>
  C34: No accepted connection is lost track of.  A run of the accept pump leaves open exactly the
  sockets that were open before and those it has announced: each event it queued names the
  listening handle and the new socket, and a connection whose event found the ring full, or whose
  descriptor has no handle, has been closed again.
\<close>

theorem accepted_sockets_accounted:
  assumes "tracks_open S opened" and "ring_inv (ts_events s)" and "cc3501e_hw_sock_accept_pump S s = s'"
  shows "\<exists>evs. ring_events (ts_events s') = ring_events (ts_events s) @ evs
    \<and> opened (net s') = opened (net s) \<union> announced_fd ` set evs
    \<and> (\<forall>e \<in> set evs. fst e = EVT_SOCK_ACCEPTED S \<and> announced_listener e \<in> set (listen_handles s) - {0})"
  using accept_fold_accounted [OF assms(1,2), of "listen_handles s"] assms(3)
  by (auto simp: cc3501e_hw_sock_accept_pump_def)

section \<open>A stack for the witnesses\<close>

text \<open>The open descriptors as a list; a socket that is accepted gets the next number.\<close>

definition demo_env :: "int list sock_env" where
  "demo_env = \<lparr>SOCK_FAMILY_IPV4 = 1, SOCK_TYPE_DGRAM = 2, EVT_SOCK_ACCEPTED = 0x19,
     lwip_socket = (\<lambda>t p n. (n, -1)), lwip_close = (\<lambda>fd n. (filter (\<lambda>x. x \<noteq> fd) n, 0)),
     lwip_set_rcvtimeo_ms = (\<lambda>fd ms n. (n, 0)), lwip_set_reuseaddr = (\<lambda>fd n. n),
     lwip_set_nonblock = (\<lambda>fd n. (n, 0)),
     lwip_connect_ops = (\<lambda>fd p a. \<lparr>get_flags = (\<lambda>c. (c, -1)), set_flags = (\<lambda>f c. (c, -1)),
       start_connect = (\<lambda>c. (c, -1)), in_progress = (\<lambda>c. False), wait_writable = (\<lambda>ms c. (c, -1)),
       so_error = (\<lambda>c. (c, -1, 0)), now_ms = (\<lambda>c. 0), heal = id, nonblock_flag = 4\<rparr>),
     lwip_get_so_type = (\<lambda>fd n. Some SOCK_STREAM), lwip_bind = (\<lambda>fd p a n. (n, 0)),
     lwip_listen = (\<lambda>fd b n. (n, 0)),
     lwip_accept = (\<lambda>fd n. let f = 1 + fold max n 0 in (f # n, f, 80, [10, 0, 0, 2])),
     lwip_send = (\<lambda>fd d n. (n, Would_Block)), lwip_recv = (\<lambda>fd k n. (n, Again)),
     lwip_recvfrom = (\<lambda>fd k n. (n, Eof, None)), bridge_attn = id\<rparr>"

definition demo_sock :: "int list ti_sock" where
  "demo_sock = \<lparr>listen_handles = replicate CC3501E_SOCK_LISTEN_MAX 0, sock_eof = [False, False], ts_ring = demo_ring,
     ts_events = ring_reset, net = [0]\<rparr>"

lemma fold_max_start: "k \<le> fold max n (k :: int)"
proof (induction n arbitrary: k)
  case (Cons a n)
  show ?case using Cons [of "max a k"] by simp
qed simp

lemma fold_max_ge: "x \<in> set n \<Longrightarrow> x \<le> fold max n (k :: int)"
proof (induction n arbitrary: k)
  case (Cons a n)
  then show ?case using fold_max_start [of "max a k" n] by auto
qed simp

theorem eof_sticky_witness:
  "cc3501e_hw_sock_recv demo_env 1 8 8 (fst (cc3501e_hw_sock_recv demo_env 1 4 16 demo_sock))
     = (fst (cc3501e_hw_sock_recv demo_env 1 4 16 demo_sock), CC3501E_HW_OK, [], [0, 0, 0, 0], 0)"
  by (rule eof_sticky [of 1 demo_sock 4 16 demo_env "[0]" None "[]"])
     (simp_all add: demo_sock_def demo_env_def handle_fd_def sock_is_stream_def)

lemma demo_listen:
  "sock_run demo_env [Listen 1 0] demo_sock = Some (demo_sock\<lparr>listen_handles := [1, 0, 0, 0]\<rparr>)"
  by (simp add: cc3501e_hw_sock_listen_def demo_env_def demo_sock_def listen_table_remove_def listen_free_slot_def
      CC3501E_SOCK_LISTEN_MAX_def numeral_eq_Suc)

theorem accept_table_listening_witness: "listen_table_ok [1, 0, 0, 0]"
  using accept_table_listening [OF demo_listen] by (simp add: demo_sock_def)

lemma demo_tracks: "tracks_open demo_env set"
proof -
  have "1 + fold max n 0 \<notin> set n" for n :: "int list" using fold_max_ge [of _ n 0] by fastforce
  moreover have "\<not> 1 + fold max n 0 < (0 :: int)" for n using fold_max_start [of 0 n] by linarith
  ultimately show ?thesis by (auto simp: tracks_open_def demo_env_def Let_def)
qed

theorem accepted_sockets_accounted_witness:
  "\<exists>evs. set (net (cc3501e_hw_sock_accept_pump demo_env (demo_sock\<lparr>listen_handles := [1, 0, 0, 0]\<rparr>)))
     = {0} \<union> announced_fd ` set evs"
  using accepted_sockets_accounted [OF demo_tracks _ refl, of "demo_sock\<lparr>listen_handles := [1, 0, 0, 0]\<rparr>"]
  by (auto simp: demo_sock_def ring_inv_reset)

end
