(* ===== verification/Ti_Spi.thy ===== *)
theory Ti_Spi
  imports Transport
begin

text \<open>
  The SPI slave of \<^verbatim>\<open>hal/ti/transport_hw_ti_spi.c\<close>: a frame is four transfers (request header,
  request payload, reply header, reply payload), each armed by the completion of the one before;
  an update-mode boot runs the same machine with blocking transfers.  The vendor driver, the FIFO
  registers and the no-init memory test are the fields of a record \<open>spi_drv\<close>.
\<close>

section \<open>State\<close>

datatype spi_phase = PH_REQ_HEADER | PH_REQ_PAYLOAD | PH_REPLY_HEADER | PH_REPLY_PAYLOAD

text \<open>Where a transfer stores what it receives, and which bytes it sends.\<close>

datatype spi_rx = Rx_None | Rx_Frame nat

datatype spi_tx = Tx_Sync | Tx_Zero | Tx_Reply nat

record spi_xfer =
  x_rx :: spi_rx
  x_tx :: spi_tx
  x_count :: u32

datatype spi_status = SPI_TRANSFER_COMPLETED | SPI_TRANSFER_CANCELED | SPI_TRANSFER_OTHER

record 'h spi_drv =
  CMD_RESERVED_VENDOR_BASE :: byte
  SYNC_IDLE :: byte
  persist_writable :: bool
  SPI_transfer :: "'h \<Rightarrow> 'h \<times> bool"
  SPI_transferCancel :: "'h \<Rightarrow> 'h"
  SPI_open :: "bool \<Rightarrow> 'h \<Rightarrow> 'h \<times> bool"
  SPI_close :: "'h \<Rightarrow> 'h"
  spi_usleep :: "u32 \<Rightarrow> 'h \<Rightarrow> 'h"
  fifo_trigger_reset :: "'h \<Rightarrow> 'h"
  fifo_reset_pending :: "'h \<Rightarrow> 'h \<times> bool"
  rx_overrun_set :: "'h \<Rightarrow> bool"
  rx_overrun_clear :: "'h \<Rightarrow> 'h"
  notify_reply_sent :: "'h \<Rightarrow> 'h"

record 'h ti_spi =
  spi_handle :: bool
  phase :: spi_phase
  frame_buf :: "byte list"
  reply_buf :: "byte list"
  reply_len :: u32
  cur_payload_len :: u16
  sync_idle :: "byte list"
  g_resync_count :: u32
  g_spi_reopen_count :: u32
  g_arm_fail_count :: u32
  g_rx_overrun_count :: u32
  g_fiforst_timeout_count :: u32
  persist_magic :: u32
  persist_magic_inv :: u32
  persist_boots :: u32
  g_polled :: bool
  g_boot_read :: bool
  g_quiesce :: bool
  armed :: "spi_xfer option"
  pend :: "spi_xfer option"
  reply_armed :: bool
  reply_armed_ms :: u32
  g_last_xfer_ms :: u32
  g_xfer_count :: u32
  g_spi_open_failed :: bool
  slave :: spi_slave
  core :: "'h fw"

definition core_do :: "('h \<Rightarrow> 'h) \<Rightarrow> 'h ti_spi \<Rightarrow> 'h ti_spi" where
  "core_do f t = t\<lparr>core := hw_void f (core t)\<rparr>"

definition core_call :: "('h \<Rightarrow> 'h \<times> 'a) \<Rightarrow> 'h ti_spi \<Rightarrow> 'h ti_spi \<times> 'a" where
  "core_call f t = (case hw_call f (core t) of (s, x) \<Rightarrow> (t\<lparr>core := s\<rparr>, x))"

definition spi_uptime :: "'h platform \<Rightarrow> 'h ti_spi \<Rightarrow> u32" where
  "spi_uptime P t = hw_uptime_ms (sys P) (hw (core t))"

section \<open>The update-mode flag\<close>

definition CC3501E_POLLED_BOOT_MAGIC :: u32 where "CC3501E_POLLED_BOOT_MAGIC = 0x0A7AB007"

definition bridge_transport_spi_polled :: "'h spi_drv \<Rightarrow> 'h ti_spi \<Rightarrow> 'h ti_spi \<times> bool" where
  "bridge_transport_spi_polled D t =
     (if \<not> g_boot_read t
      then let t1 = t\<lparr>g_boot_read := True\<rparr>
           in if \<not> persist_writable D then (t1, False)
              else let ok = (persist_magic t1 = NOT (persist_magic_inv t1));
                       boots = (if ok then persist_boots t1 else 0) + 1;
                       polled = (ok \<and> persist_magic t1 = CC3501E_POLLED_BOOT_MAGIC)
                   in (t1\<lparr>persist_boots := boots, g_polled := polled, persist_magic := 0, persist_magic_inv := NOT 0\<rparr>,
                       polled)
      else (t, g_polled t))"

definition bridge_transport_spi_request_polled_boot :: "'h spi_drv \<Rightarrow> 'h ti_spi \<Rightarrow> 'h ti_spi \<times> bool" where
  "bridge_transport_spi_request_polled_boot D t =
     (if \<not> persist_writable D then (t, False)
      else (t\<lparr>persist_magic := CC3501E_POLLED_BOOT_MAGIC, persist_magic_inv := NOT CC3501E_POLLED_BOOT_MAGIC\<rparr>, True))"

definition bridge_transport_spi_clear_polled_boot :: "'h spi_drv \<Rightarrow> 'h ti_spi \<Rightarrow> 'h ti_spi \<times> bool" where
  "bridge_transport_spi_clear_polled_boot D t =
     (if \<not> persist_writable D then (t, False)
      else (t\<lparr>persist_magic := 0, persist_magic_inv := NOT 0\<rparr>, True))"

definition bridge_transport_spi_boot_mark :: "'h spi_drv \<Rightarrow> 'h ti_spi \<Rightarrow> byte" where
  "bridge_transport_spi_boot_mark D t =
     (if \<not> persist_writable D then 0
      else (if g_polled t then 0x80 else 0) OR ucast (persist_boots t AND 0x7F))"

definition bridge_transport_spi_hw_quiesce :: "'h spi_drv \<Rightarrow> bool \<Rightarrow> 'h ti_spi \<Rightarrow> 'h ti_spi" where
  "bridge_transport_spi_hw_quiesce D on t =
     (case bridge_transport_spi_polled D t of (t1, polled) \<Rightarrow> if polled then t1 else t1\<lparr>g_quiesce := on\<rparr>)"

section \<open>FIFO reset\<close>

definition CC3501E_FIFORST_SPIN_MAX :: nat where "CC3501E_FIFORST_SPIN_MAX = 800"

text \<open>The spin on the reset bit: \<open>True\<close> when the bound is hit.\<close>

primrec fifo_spin :: "'h spi_drv \<Rightarrow> nat \<Rightarrow> 'h \<Rightarrow> 'h \<times> bool" where
  "fifo_spin D 0 h = (h, True)"
| "fifo_spin D (Suc k) h =
     (case fifo_reset_pending D h of (h1, b) \<Rightarrow>
        if \<not> b then (h1, False) else if k = 0 then (h1, True) else fifo_spin D k h1)"

definition spi_fifo_reset :: "'h spi_drv \<Rightarrow> 'h ti_spi \<Rightarrow> 'h ti_spi" where
  "spi_fifo_reset D t =
     (if \<not> spi_handle t then t
      else case core_call (fifo_spin D CC3501E_FIFORST_SPIN_MAX) (core_do (fifo_trigger_reset D) t) of
        (t1, expired) \<Rightarrow>
          let t2 = (if expired then t1\<lparr>g_fiforst_timeout_count := g_fiforst_timeout_count t1 + 1\<rparr> else t1);
              t3 = (if rx_overrun_set D (hw (core t2))
                    then t2\<lparr>g_rx_overrun_count := g_rx_overrun_count t2 + 1\<rparr> else t2)
          in core_do (rx_overrun_clear D) t3)"

section \<open>Arming\<close>

definition arm_transfer ::
    "'h platform \<Rightarrow> 'h spi_drv \<Rightarrow> spi_rx \<Rightarrow> spi_tx \<Rightarrow> u32 \<Rightarrow> bool \<Rightarrow> 'h ti_spi \<Rightarrow> 'h ti_spi \<times> bool" where
  "arm_transfer P D rx tx n flush_fifos t =
     (if g_quiesce t then (t, False)
      else case bridge_transport_spi_polled D t of (t1, polled) \<Rightarrow>
        if polled then (t1\<lparr>pend := Some \<lparr>x_rx = rx, x_tx = tx, x_count = n\<rparr>\<rparr>, True)
        else case core_call (SPI_transfer D) (if flush_fifos then spi_fifo_reset D t1 else t1) of (t2, ok) \<Rightarrow>
          if \<not> ok then (t2\<lparr>g_arm_fail_count := g_arm_fail_count t2 + 1\<rparr>, False)
          else (core_do (bridge_ready (link P))
                  (t2\<lparr>armed := Some \<lparr>x_rx = rx, x_tx = tx, x_count = n\<rparr>\<rparr>), True))"

definition arm_request_header :: "'h platform \<Rightarrow> 'h spi_drv \<Rightarrow> 'h ti_spi \<Rightarrow> 'h ti_spi \<times> bool" where
  "arm_request_header P D t =
     arm_transfer P D (Rx_Frame 0) Tx_Sync (word_of_nat HEADER_BYTES) False (t\<lparr>phase := PH_REQ_HEADER\<rparr>)"

definition dispatch_frame :: "'h platform \<Rightarrow> nat \<Rightarrow> 'h ti_spi \<Rightarrow> 'h ti_spi" where
  "dispatch_frame P frame_len t =
     (case spi_slave_cs_high P (fold spi_slave_rx_byte (take frame_len (frame_buf t)) (spi_slave_cs_low (slave t)))
             (core t) of
        (sl, s) \<Rightarrow>
          case spi_slave_tx_take (length (reply_buf t)) sl of (sl1, got) \<Rightarrow>
            t\<lparr>slave := sl1, core := s, reply_buf := blit (reply_buf t) got,
              reply_len := ucast (word_of_nat (length got) :: u16)\<rparr>)"

text \<open>Arming a transfer of the frame's later phases, with the stall stamp set when it took.\<close>

definition arm_stamped ::
    "'h platform \<Rightarrow> 'h spi_drv \<Rightarrow> spi_rx \<Rightarrow> spi_tx \<Rightarrow> u32 \<Rightarrow> bool \<Rightarrow> 'h ti_spi \<Rightarrow> 'h ti_spi" where
  "arm_stamped P D rx tx n flush_fifos t =
     (case arm_transfer P D rx tx n flush_fifos t of (t1, ok) \<Rightarrow>
        if ok then t1\<lparr>reply_armed_ms := spi_uptime P t1, reply_armed := True\<rparr> else t1)"

definition CC3501E_REPLY_STALL_MS :: u32 where "CC3501E_REPLY_STALL_MS = 250"

definition bridge_transport_spi_phase_stalled :: "'h platform \<Rightarrow> 'h ti_spi \<Rightarrow> bool" where
  "bridge_transport_spi_phase_stalled P t \<longleftrightarrow>
     reply_armed t \<and> spi_uptime P t - reply_armed_ms t > CC3501E_REPLY_STALL_MS"

definition bridge_transport_spi_quiet_ms :: "'h platform \<Rightarrow> 'h ti_spi \<Rightarrow> u32" where
  "bridge_transport_spi_quiet_ms P t = spi_uptime P t - g_last_xfer_ms t"

definition bridge_transport_spi_xfer_count :: "'h ti_spi \<Rightarrow> u32" where
  "bridge_transport_spi_xfer_count t = g_xfer_count t"

section \<open>Completion of a transfer\<close>

definition xfer_note :: "'h platform \<Rightarrow> 'h ti_spi \<Rightarrow> 'h ti_spi" where
  "xfer_note P t =
     (let t1 = t\<lparr>reply_armed := False\<rparr>
      in core_do (bridge_busy (link P))
           (t1\<lparr>g_last_xfer_ms := spi_uptime P t1, g_xfer_count := g_xfer_count t1 + 1\<rparr>))"

text \<open>The payload length the header announces, clamped to the buffer.\<close>

definition request_len :: "'h ti_spi \<Rightarrow> u16" where
  "request_len t =
     (let raw = get_le16 (frame_buf t) 2 in if unat raw > MAX_PAYLOAD then word_of_nat MAX_PAYLOAD else raw)"

definition on_request_header :: "'h platform \<Rightarrow> 'h spi_drv \<Rightarrow> 'h ti_spi \<Rightarrow> 'h ti_spi" where
  "on_request_header P D t =
     (if frame_buf t ! 0 \<ge> CMD_RESERVED_VENDOR_BASE D
      then fst (arm_request_header P D (t\<lparr>g_resync_count := g_resync_count t + 1\<rparr>))
      else let plen = request_len t; t1 = t\<lparr>cur_payload_len := plen\<rparr>
           in if plen = 0
              then arm_stamped P D Rx_None (Tx_Reply 0) (word_of_nat HEADER_BYTES) True
                     ((dispatch_frame P HEADER_BYTES t1)\<lparr>phase := PH_REPLY_HEADER\<rparr>)
              else arm_stamped P D (Rx_Frame HEADER_BYTES) Tx_Zero (ucast plen) False
                     (t1\<lparr>phase := PH_REQ_PAYLOAD\<rparr>))"

definition on_transfer :: "'h platform \<Rightarrow> 'h spi_drv \<Rightarrow> spi_status option \<Rightarrow> 'h ti_spi \<Rightarrow> 'h ti_spi" where
  "on_transfer P D st t0 =
     (let t = xfer_note P t0
      in if st \<noteq> Some SPI_TRANSFER_COMPLETED
         then if st \<noteq> None \<and> st \<noteq> Some SPI_TRANSFER_CANCELED then fst (arm_request_header P D t) else t
         else case phase t of
           PH_REQ_HEADER \<Rightarrow> on_request_header P D t
         | PH_REQ_PAYLOAD \<Rightarrow>
             arm_stamped P D Rx_None (Tx_Reply 0) (word_of_nat HEADER_BYTES) True
               ((dispatch_frame P (HEADER_BYTES + unat (cur_payload_len t)) t)\<lparr>phase := PH_REPLY_HEADER\<rparr>)
         | PH_REPLY_HEADER \<Rightarrow>
             arm_stamped P D Rx_None (Tx_Reply HEADER_BYTES) (reply_len t - word_of_nat HEADER_BYTES) True
               (t\<lparr>phase := PH_REPLY_PAYLOAD\<rparr>)
         | PH_REPLY_PAYLOAD \<Rightarrow> fst (arm_request_header P D (core_do (notify_reply_sent D) t)))"

section \<open>Opening and closing\<close>

text \<open>Twelve attempts at most, sleeping between them.\<close>

primrec spi_open_attempts :: "'h spi_drv \<Rightarrow> bool \<Rightarrow> nat \<Rightarrow> nat \<Rightarrow> 'h \<Rightarrow> 'h \<times> bool" where
  "spi_open_attempts D polled attempt 0 h = (h, False)"
| "spi_open_attempts D polled attempt (Suc k) h =
     (case SPI_open D polled h of (h1, ok) \<Rightarrow>
        if ok then (h1, True)
        else spi_open_attempts D polled (attempt + 1) k (spi_usleep D (word_of_nat (2000 + attempt * 1500)) h1))"

definition spi_open_and_arm :: "'h platform \<Rightarrow> 'h spi_drv \<Rightarrow> 'h ti_spi \<Rightarrow> 'h ti_spi \<times> bool" where
  "spi_open_and_arm P D t =
     (let t1 = t\<lparr>reply_armed := False, sync_idle := replicate HEADER_BYTES (SYNC_IDLE D)\<rparr>
      in case bridge_transport_spi_polled D t1 of (t2, polled) \<Rightarrow>
         case core_call (spi_open_attempts D polled 0 12) t2 of (t3, ok) \<Rightarrow>
           let t4 = t3\<lparr>spi_handle := ok, g_spi_reopen_count := g_spi_reopen_count t3 + 1\<rparr>
           in if \<not> ok then (t4\<lparr>g_spi_open_failed := True\<rparr>, False)
              else let t5 = t4\<lparr>g_spi_open_failed := False, g_resync_count := 0,
                              core := (core t4)\<lparr>crc := protocol_crc16_table_init (alp_crc16_update P) (crc (core t4))\<rparr>\<rparr>
                   in arm_request_header P D (t5\<lparr>g_last_xfer_ms := spi_uptime P t5\<rparr>))"

text \<open>Closing the handle takes an armed transfer with it.\<close>

definition spi_close :: "'h spi_drv \<Rightarrow> 'h ti_spi \<Rightarrow> 'h ti_spi" where
  "spi_close D t = (if spi_handle t then (core_do (SPI_close D) t)\<lparr>spi_handle := False, armed := None\<rparr> else t)"

definition bridge_transport_spi_hw_release :: "'h platform \<Rightarrow> 'h spi_drv \<Rightarrow> 'h ti_spi \<Rightarrow> 'h ti_spi" where
  "bridge_transport_spi_hw_release P D t =
     (case bridge_transport_spi_polled D t of (t1, polled) \<Rightarrow>
        if polled then t1
        else let t2 = (spi_close D t1)\<lparr>phase := PH_REQ_HEADER, reply_armed := False\<rparr>
             in t2\<lparr>g_last_xfer_ms := spi_uptime P t2\<rparr>)"

definition bridge_transport_spi_phase :: "'h ti_spi \<Rightarrow> byte" where
  "bridge_transport_spi_phase t =
     (case phase t of PH_REQ_HEADER \<Rightarrow> 0 | PH_REQ_PAYLOAD \<Rightarrow> 1 | PH_REPLY_HEADER \<Rightarrow> 2 | PH_REPLY_PAYLOAD \<Rightarrow> 3)"

definition bridge_transport_spi_at_idle_header :: "'h ti_spi \<Rightarrow> bool" where
  "bridge_transport_spi_at_idle_header t \<longleftrightarrow> phase t = PH_REQ_HEADER"

definition bridge_transport_spi_hw_reinit :: "'h platform \<Rightarrow> 'h spi_drv \<Rightarrow> 'h ti_spi \<Rightarrow> 'h ti_spi \<times> bool" where
  "bridge_transport_spi_hw_reinit P D t =
     (case bridge_transport_spi_polled D t of (t1, polled) \<Rightarrow>
        if polled \<and> spi_handle t1 then (t1, True) else spi_open_and_arm P D (spi_close D t1))"

definition bridge_transport_spi_hw_suspend :: "'h platform \<Rightarrow> 'h spi_drv \<Rightarrow> 'h ti_spi \<Rightarrow> 'h ti_spi" where
  "bridge_transport_spi_hw_suspend P D t =
     (case bridge_transport_spi_polled D t of (t1, polled) \<Rightarrow>
        if polled then t1
        else let t2 = (if spi_handle t1 then spi_close D (core_do (SPI_transferCancel D) t1) else t1);
                 t3 = t2\<lparr>phase := PH_REQ_HEADER, reply_armed := False\<rparr>
             in t3\<lparr>g_last_xfer_ms := spi_uptime P t3\<rparr>)"

definition bridge_transport_spi_hw_init :: "'h platform \<Rightarrow> 'h spi_drv \<Rightarrow> 'h ti_spi \<Rightarrow> 'h ti_spi" where
  "bridge_transport_spi_hw_init P D t = fst (spi_open_and_arm P D t)"

section \<open>The wire\<close>

text \<open>
  What a transfer does when the host clocks it: the bytes the slave sends, and where the bytes it
  receives are stored.
\<close>

definition xfer_out :: "spi_xfer \<Rightarrow> 'h ti_spi \<Rightarrow> byte list" where
  "xfer_out x t =
     (case x_tx x of Tx_Sync \<Rightarrow> take (unat (x_count x)) (sync_idle t)
      | Tx_Zero \<Rightarrow> replicate (unat (x_count x)) 0
      | Tx_Reply off \<Rightarrow> take (unat (x_count x)) (drop off (reply_buf t)))"

definition xfer_in :: "spi_xfer \<Rightarrow> byte list \<Rightarrow> 'h ti_spi \<Rightarrow> 'h ti_spi" where
  "xfer_in x bs t =
     (case x_rx x of Rx_None \<Rightarrow> t
      | Rx_Frame off \<Rightarrow>
          t\<lparr>frame_buf := take off (frame_buf t) @ take (unat (x_count x)) bs
              @ drop (off + unat (x_count x)) (frame_buf t)\<rparr>)"

text \<open>
  The host clocks the armed transfer: the callback runs once all its bytes are clocked, and a
  transfer that has not seen them all stays armed.
\<close>

definition spi_clock :: "'h platform \<Rightarrow> 'h spi_drv \<Rightarrow> byte list \<Rightarrow> 'h ti_spi \<Rightarrow> 'h ti_spi \<times> byte list" where
  "spi_clock P D bs t =
     (case armed t of
        None \<Rightarrow> (t, [])
      | Some x \<Rightarrow>
          if length bs < unat (x_count x) then (t, [])
          else (on_transfer P D (Some SPI_TRANSFER_COMPLETED) (xfer_in x bs (t\<lparr>armed := None\<rparr>)), xfer_out x t))"

section \<open>Update mode\<close>

text \<open>
  The polled service: up to eight blocking transfers, one whole frame.  \<open>hs\<close> are the bytes the
  host clocks in each transfer; \<open>None\<close> is a transfer still waiting for a host that sends no more.
\<close>

primrec poll_loop ::
    "'h platform \<Rightarrow> 'h spi_drv \<Rightarrow> nat \<Rightarrow> byte list list \<Rightarrow> byte list list \<Rightarrow> bool \<Rightarrow> 'h ti_spi
       \<Rightarrow> ('h ti_spi \<times> bool \<times> byte list list) option" where
  "poll_loop P D 0 hs outs serviced t = Some (t, serviced, outs)"
| "poll_loop P D (Suc k) hs outs serviced t =
     (case pend t of
        None \<Rightarrow> Some (t, serviced, outs)
      | Some x \<Rightarrow>
          case core_call (SPI_transfer D) (core_do (bridge_ready (link P)) (t\<lparr>pend := None\<rparr>)) of (t1, ok) \<Rightarrow>
            if \<not> ok
            then Some (core_do (bridge_busy (link P))
                         (fst (arm_request_header P D (t1\<lparr>g_arm_fail_count := g_arm_fail_count t1 + 1\<rparr>))),
                       serviced, outs)
            else case hs of
                   [] \<Rightarrow> None
                 | bs # rest \<Rightarrow>
                     if length bs < unat (x_count x) then None
                     else let t2 = on_transfer P D (Some SPI_TRANSFER_COMPLETED)
                                (core_do (bridge_busy (link P)) (xfer_in x bs t1));
                         outs1 = outs @ [xfer_out x t1]
                     in if phase t2 = PH_REQ_HEADER then Some (t2, True, outs1)
                        else poll_loop P D k rest outs1 True t2)"

definition bridge_transport_spi_poll_service ::
    "'h platform \<Rightarrow> 'h spi_drv \<Rightarrow> byte list list \<Rightarrow> 'h ti_spi \<Rightarrow> ('h ti_spi \<times> bool \<times> byte list list) option" where
  "bridge_transport_spi_poll_service P D hs t =
     (if \<not> spi_handle t \<or> pend t = None then Some (t, False, [])
      else poll_loop P D 8 hs [] False (spi_fifo_reset D t))"

end
