(* ===== verification/Spi_Phases.thy ===== *)
theory Spi_Phases
  imports Ti_Spi Spi_Link
begin

text \<open>
  The four-phase machine step by step: the invariant that keeps every armed transfer inside its
  buffers, and what the completion of each phase does to a slave that is being served.
\<close>

section \<open>Calls that touch the hardware only\<close>

lemma core_call_eq:
  "core_call f t = (t\<lparr>core := (core t)\<lparr>hw := fst (f (hw (core t)))\<rparr>\<rparr>, snd (f (hw (core t))))"
  by (simp add: core_call_def hw_call_def split: prod.split)

lemma core_do_eq: "core_do f t = t\<lparr>core := (core t)\<lparr>hw := f (hw (core t))\<rparr>\<rparr>"
  by (simp add: core_do_def hw_void_def)

lemmas core_simps = core_call_eq core_do_eq

text \<open>Equal in everything a frame depends on: the core differs in its hardware part only.\<close>

definition spi_like :: "'h ti_spi \<Rightarrow> 'h ti_spi \<Rightarrow> bool" where
  "spi_like t t' \<longleftrightarrow> phase t' = phase t \<and> frame_buf t' = frame_buf t \<and> reply_buf t' = reply_buf t
     \<and> reply_len t' = reply_len t \<and> cur_payload_len t' = cur_payload_len t \<and> sync_idle t' = sync_idle t
     \<and> g_polled t' = g_polled t \<and> g_boot_read t' = g_boot_read t \<and> g_quiesce t' = g_quiesce t
     \<and> slave t' = slave t \<and> spi_handle t' = spi_handle t \<and> core t' = (core t)\<lparr>hw := hw (core t')\<rparr>"

lemma spi_like_refl [simp]: "spi_like t t"
  by (simp add: spi_like_def)

lemma fw_hw_upd: "s' = s\<lparr>hw := h\<rparr> \<Longrightarrow> s'' = s'\<lparr>hw := h'\<rparr> \<Longrightarrow> s'' = s\<lparr>hw := h'\<rparr>"
  for s :: "'h fw" by simp

lemma fw_hw_same: "s' = s\<lparr>hw := h\<rparr> \<Longrightarrow> s'\<lparr>hw := k\<rparr> = s\<lparr>hw := k\<rparr>"
  for s :: "'h fw" by simp

lemma spi_like_trans: "spi_like t u \<Longrightarrow> spi_like u v \<Longrightarrow> spi_like t v"
  unfolding spi_like_def by (auto dest: fw_hw_upd)

definition next_xfer :: "'h ti_spi \<Rightarrow> spi_xfer option" where
  "next_xfer t = (if g_polled t then pend t else armed t)"

definition drv_accepts :: "'h spi_drv \<Rightarrow> bool" where
  "drv_accepts D \<longleftrightarrow> (\<forall>h. snd (SPI_transfer D h))"

definition serving :: "'h ti_spi \<Rightarrow> bool" where
  "serving t \<longleftrightarrow> g_boot_read t \<and> \<not> g_quiesce t"

lemma polled_read: "g_boot_read t \<Longrightarrow> bridge_transport_spi_polled D t = (t, g_polled t)"
  by (simp add: bridge_transport_spi_polled_def)

lemma fifo_reset_like:
  "spi_like t (spi_fifo_reset D t) \<and> armed (spi_fifo_reset D t) = armed t \<and> pend (spi_fifo_reset D t) = pend t"
  by (simp add: spi_fifo_reset_def core_simps Let_def spi_like_def)

lemma arm_accepts:
  assumes "serving t" and "drv_accepts D"
  shows "\<exists>t'. arm_transfer P D rx tx n fl t = (t', True) \<and> spi_like t t'
    \<and> next_xfer t' = Some \<lparr>x_rx = rx, x_tx = tx, x_count = n\<rparr>"
proof (cases "g_polled t")
  case True
  then show ?thesis
    using assms(1) by (auto simp: arm_transfer_def serving_def polled_read spi_like_def next_xfer_def)
next
  case False
  let ?u = "if fl then spi_fifo_reset D t else t"
  have l: "spi_like t ?u" using fifo_reset_like [of t D] by simp
  let ?v = "core_do (bridge_ready (link P)) ((fst (core_call (SPI_transfer D) ?u))\<lparr>armed := Some \<lparr>x_rx = rx, x_tx = tx, x_count = n\<rparr>\<rparr>)"
  have "arm_transfer P D rx tx n fl t = (?v, True)"
    using assms False by (simp add: arm_transfer_def serving_def polled_read core_call_eq drv_accepts_def)
  moreover have "spi_like ?u ?v" by (simp add: spi_like_def core_simps)
  moreover have "next_xfer ?v = Some \<lparr>x_rx = rx, x_tx = tx, x_count = n\<rparr>"
    using l False by (simp add: next_xfer_def core_simps spi_like_def)
  ultimately show ?thesis using spi_like_trans [OF l] by blast
qed

lemma arm_stamped_accepts:
  assumes "serving t" and "drv_accepts D"
  shows "spi_like t (arm_stamped P D rx tx n fl t)
    \<and> next_xfer (arm_stamped P D rx tx n fl t) = Some \<lparr>x_rx = rx, x_tx = tx, x_count = n\<rparr>"
  using arm_accepts [OF assms, of P rx tx n fl]
  by (auto simp: arm_stamped_def spi_like_def next_xfer_def)

definition header_xfer :: spi_xfer where
  "header_xfer = \<lparr>x_rx = Rx_Frame 0, x_tx = Tx_Sync, x_count = word_of_nat HEADER_BYTES\<rparr>"

lemma arm_header_accepts:
  assumes "serving t" and "drv_accepts D"
  shows "spi_like (t\<lparr>phase := PH_REQ_HEADER\<rparr>) (fst (arm_request_header P D t))
    \<and> next_xfer (fst (arm_request_header P D t)) = Some header_xfer \<and> snd (arm_request_header P D t)"
  using arm_accepts [of "t\<lparr>phase := PH_REQ_HEADER\<rparr>" D P "Rx_Frame 0" Tx_Sync "word_of_nat HEADER_BYTES" False] assms
  by (auto simp: arm_request_header_def header_xfer_def serving_def)

section \<open>Dispatching a frame\<close>

lemma build_reply_min:
  "HEADER_BYTES \<le> length (snd (protocol_build_reply P fr CC3501E_FRAME_MAX_BYTES s))"
proof -
  have "HEADER_BYTES \<le> length (snd (protocol_build_reply_crc P fr CC3501E_FRAME_MAX_BYTES s))"
    by (simp add: protocol_build_reply_crc_def emit_reply_crc_def split_beta Let_def reply_header_def
        frame_size_defs CC3501E_FRAME_MAX_BYTES_def MAX_PAYLOAD_def)
  moreover have "HEADER_BYTES \<le> length (snd (protocol_build_reply_nocrc P fr CC3501E_FRAME_MAX_BYTES s))"
    by (simp add: protocol_build_reply_nocrc_def emit_reply_nocrc_def split_beta Let_def reply_header_def
        frame_size_defs CC3501E_FRAME_MAX_BYTES_def MAX_PAYLOAD_def)
  ultimately show ?thesis by (simp add: protocol_build_reply_def)
qed

lemma dispatch_spec:
  assumes "spi_wf (slave t)" and "length (frame_buf t) = CC3501E_FRAME_MAX_BYTES"
    and "length (reply_buf t) = CC3501E_FRAME_MAX_BYTES" and "0 < n" and "n \<le> CC3501E_FRAME_MAX_BYTES"
    and "protocol_build_reply P (take n (frame_buf t)) CC3501E_FRAME_MAX_BYTES (core t) = (s1, reply)"
  shows "\<exists>sl. dispatch_frame P n t = t\<lparr>slave := sl, core := s1, reply_buf := blit (reply_buf t) reply,
      reply_len := word_of_nat (length reply)\<rparr> \<and> spi_wf sl
    \<and> unat (word_of_nat (length reply) :: u32) = length reply
    \<and> HEADER_BYTES \<le> length reply \<and> length reply \<le> CC3501E_FRAME_MAX_BYTES"
proof -
  let ?fr = "take n (frame_buf t)"
  obtain sl s' where rq: "spi_request P ?fr (slave t, core t) = (sl, s')" by fastforce
  have fr: "?fr \<noteq> []" "take CC3501E_FRAME_MAX_BYTES ?fr = ?fr" using assms(2,4,5) by auto
  note r = spi_request_spec [OF assms(1) fr(1) _ rq, of s1 reply, unfolded fr(2), OF assms(6)]
  have max: "length reply \<le> CC3501E_FRAME_MAX_BYTES"
    using build_reply_length [OF frame_max_16, of P ?fr "core t"] assms(6) by simp
  have min: "HEADER_BYTES \<le> length reply" using build_reply_min [of P ?fr "core t"] assms(6) by simp
  have small: "length reply < 65536" using max by (simp add: CC3501E_FRAME_MAX_BYTES_def HEADER_BYTES_def MAX_PAYLOAD_def)
  obtain sl1 got where tk: "spi_slave_tx_take CC3501E_FRAME_MAX_BYTES sl = (sl1, got)" by fastforce
  have "got = reply"
    using tk r max assms(3)
    by (auto simp: spi_slave_tx_take_def spi_pending_def Let_def split: if_splits)
  moreover have "spi_wf sl1" using tk r by (auto simp: spi_slave_tx_take_def spi_wf_def Let_def split: if_splits)
  moreover have "ucast (word_of_nat (length reply) :: u16) = (word_of_nat (length reply) :: u32)"
    using small by (simp add: word_unat_eq_iff unsigned_ucast_eq unat_of_nat take_bit_nat_eq_self)
  moreover have "unat (word_of_nat (length reply) :: u32) = length reply" using small by (simp add: unat_of_nat)
  ultimately show ?thesis
    using rq r tk assms(3) min max
    by (auto simp: dispatch_frame_def spi_request_def)
qed

section \<open>Transfers stay inside their buffers\<close>

definition xfer_ok :: "spi_xfer \<Rightarrow> bool" where
  "xfer_ok x \<longleftrightarrow>
     (case x_rx x of Rx_None \<Rightarrow> True | Rx_Frame off \<Rightarrow> off + unat (x_count x) \<le> CC3501E_FRAME_MAX_BYTES)
     \<and> (case x_tx x of Tx_Sync \<Rightarrow> unat (x_count x) \<le> HEADER_BYTES | Tx_Zero \<Rightarrow> unat (x_count x) \<le> MAX_PAYLOAD
        | Tx_Reply off \<Rightarrow> off + unat (x_count x) \<le> CC3501E_FRAME_MAX_BYTES)"

definition spi_inv :: "'h ti_spi \<Rightarrow> bool" where
  "spi_inv t \<longleftrightarrow>
     length (frame_buf t) = CC3501E_FRAME_MAX_BYTES \<and> length (reply_buf t) = CC3501E_FRAME_MAX_BYTES
     \<and> length (sync_idle t) = HEADER_BYTES \<and> spi_wf (slave t)
     \<and> (phase t = PH_REQ_PAYLOAD \<longrightarrow> unat (cur_payload_len t) \<le> MAX_PAYLOAD)
     \<and> (phase t = PH_REPLY_HEADER \<longrightarrow> HEADER_BYTES \<le> unat (reply_len t) \<and> unat (reply_len t) \<le> CC3501E_FRAME_MAX_BYTES)
     \<and> pred_option xfer_ok (armed t) \<and> pred_option xfer_ok (pend t)"

lemma spi_inv_polled: "spi_inv t \<Longrightarrow> spi_inv (fst (bridge_transport_spi_polled D t))"
  by (simp add: bridge_transport_spi_polled_def spi_inv_def Let_def)

lemma spi_inv_fifo: "spi_inv t \<Longrightarrow> spi_inv (spi_fifo_reset D t)"
  using fifo_reset_like [of t D] by (simp add: spi_inv_def spi_like_def)

lemma spi_inv_arm:
  assumes "spi_inv t" and "xfer_ok \<lparr>x_rx = rx, x_tx = tx, x_count = n\<rparr>"
  shows "spi_inv (fst (arm_transfer P D rx tx n fl t))"
proof -
  obtain t1 b where p: "bridge_transport_spi_polled D t = (t1, b)" by fastforce
  have "spi_inv t1" using spi_inv_polled [OF assms(1), of D] p by simp
  then have "spi_inv (if fl then spi_fifo_reset D t1 else t1)" by (simp add: spi_inv_fifo)
  then show ?thesis
    using \<open>spi_inv t1\<close> assms by (simp add: arm_transfer_def p core_simps spi_inv_def)
qed

lemma spi_inv_stamped:
  assumes "spi_inv t" and "xfer_ok \<lparr>x_rx = rx, x_tx = tx, x_count = n\<rparr>"
  shows "spi_inv (arm_stamped P D rx tx n fl t)"
proof -
  obtain t1 ok where a: "arm_transfer P D rx tx n fl t = (t1, ok)" by fastforce
  have "spi_inv t1" using spi_inv_arm [OF assms, of P D fl] a by simp
  then show ?thesis by (simp add: arm_stamped_def a spi_inv_def)
qed

lemma size_facts:
  "unat (word_of_nat HEADER_BYTES :: u32) = HEADER_BYTES" "HEADER_BYTES \<le> CC3501E_FRAME_MAX_BYTES"
  "HEADER_BYTES + MAX_PAYLOAD = CC3501E_FRAME_MAX_BYTES" "0 < HEADER_BYTES" "HEADER_BYTES = 4"
  "unat (word_of_nat MAX_PAYLOAD :: u16) = MAX_PAYLOAD"
  by (simp_all add: HEADER_BYTES_def CC3501E_FRAME_MAX_BYTES_def MAX_PAYLOAD_def)

lemma frame_word: "n \<le> CC3501E_FRAME_MAX_BYTES \<Longrightarrow> unat (word_of_nat n :: u32) = n"
  by (simp add: unat_of_nat HEADER_BYTES_def CC3501E_FRAME_MAX_BYTES_def MAX_PAYLOAD_def)

lemma unat_ucast16: "unat (ucast w :: u32) = unat w" for w :: u16
  using unsigned_less [of w, where 'a = nat] by (simp add: unsigned_ucast_eq take_bit_nat_eq_self)

lemma header_xfer_ok: "xfer_ok \<lparr>x_rx = Rx_Frame 0, x_tx = Tx_Sync, x_count = word_of_nat HEADER_BYTES\<rparr>"
  and reply_xfer_ok: "xfer_ok \<lparr>x_rx = Rx_None, x_tx = Tx_Reply 0, x_count = word_of_nat HEADER_BYTES\<rparr>"
  by (simp_all add: xfer_ok_def size_facts(1,2))

lemma payload_xfer_ok:
  "unat plen \<le> MAX_PAYLOAD \<Longrightarrow> xfer_ok \<lparr>x_rx = Rx_Frame HEADER_BYTES, x_tx = Tx_Zero, x_count = ucast plen\<rparr>"
  for plen :: u16
  using size_facts(3) by (simp add: xfer_ok_def unat_ucast16)

lemma tail_xfer_ok:
  assumes "HEADER_BYTES \<le> unat n" and "unat n \<le> CC3501E_FRAME_MAX_BYTES"
  shows "unat (n - word_of_nat HEADER_BYTES :: u32) = unat n - HEADER_BYTES"
    and "xfer_ok \<lparr>x_rx = Rx_None, x_tx = Tx_Reply HEADER_BYTES, x_count = n - word_of_nat HEADER_BYTES\<rparr>"
proof -
  show u: "unat (n - word_of_nat HEADER_BYTES :: u32) = unat n - HEADER_BYTES"
    using assms(1) size_facts(1) by (subst unat_sub) (simp_all add: word_le_nat_alt)
  show "xfer_ok \<lparr>x_rx = Rx_None, x_tx = Tx_Reply HEADER_BYTES, x_count = n - word_of_nat HEADER_BYTES\<rparr>"
    using assms unfolding xfer_ok_def spi_xfer.simps u by simp
qed

lemma spi_inv_header: "spi_inv t \<Longrightarrow> spi_inv (fst (arm_request_header P D t))"
  unfolding arm_request_header_def by (intro spi_inv_arm header_xfer_ok) (simp add: spi_inv_def)

lemma spi_inv_dispatch:
  assumes "spi_inv t" and "0 < n" and "n \<le> CC3501E_FRAME_MAX_BYTES"
  shows "spi_inv ((dispatch_frame P n t)\<lparr>phase := PH_REPLY_HEADER\<rparr>)"
proof -
  obtain s1 reply where b: "protocol_build_reply P (take n (frame_buf t)) CC3501E_FRAME_MAX_BYTES (core t) = (s1, reply)"
    by fastforce
  have w: "spi_wf (slave t)" "length (frame_buf t) = CC3501E_FRAME_MAX_BYTES" "length (reply_buf t) = CC3501E_FRAME_MAX_BYTES"
    using assms(1) by (simp_all add: spi_inv_def)
  from dispatch_spec [OF w assms(2,3) b] obtain sl where
    "dispatch_frame P n t = t\<lparr>slave := sl, core := s1, reply_buf := blit (reply_buf t) reply,
      reply_len := word_of_nat (length reply)\<rparr>" "spi_wf sl"
    "unat (word_of_nat (length reply) :: u32) = length reply"
    "HEADER_BYTES \<le> length reply" "length reply \<le> CC3501E_FRAME_MAX_BYTES" by blast
  then show ?thesis using assms(1) by (simp add: spi_inv_def blit_def)
qed

lemma request_len_le: "unat (request_len t) \<le> MAX_PAYLOAD"
  by (simp add: request_len_def Let_def size_facts(6))

lemma note_like: "spi_like t (xfer_note P t) \<and> armed (xfer_note P t) = armed t \<and> pend (xfer_note P t) = pend t"
  by (simp add: xfer_note_def spi_like_def core_do_eq Let_def)

lemma spi_inv_like: "spi_like t t' \<Longrightarrow> armed t' = armed t \<Longrightarrow> pend t' = pend t \<Longrightarrow> spi_inv t' = spi_inv t"
  by (simp add: spi_inv_def spi_like_def)

lemma spi_inv_request_header:
  assumes "spi_inv t"
  shows "spi_inv (on_request_header P D t)"
proof -
  let ?n = "request_len t"
  have "spi_inv (arm_stamped P D Rx_None (Tx_Reply 0) (word_of_nat HEADER_BYTES) True
      ((dispatch_frame P HEADER_BYTES (t\<lparr>cur_payload_len := ?n\<rparr>))\<lparr>phase := PH_REPLY_HEADER\<rparr>))"
    using assms request_len_le [of t] size_facts(2,4)
    by (intro spi_inv_stamped reply_xfer_ok spi_inv_dispatch) (simp_all add: spi_inv_def)
  moreover have "spi_inv (arm_stamped P D (Rx_Frame HEADER_BYTES) Tx_Zero (ucast ?n) False
      (t\<lparr>cur_payload_len := ?n, phase := PH_REQ_PAYLOAD\<rparr>))"
    using assms request_len_le [of t] by (intro spi_inv_stamped payload_xfer_ok) (simp_all add: spi_inv_def)
  moreover have "spi_inv (fst (arm_request_header P D (t\<lparr>g_resync_count := g_resync_count t + 1\<rparr>)))"
    using assms by (intro spi_inv_header) (simp add: spi_inv_def)
  ultimately show ?thesis unfolding on_request_header_def Let_def by presburger
qed

lemma spi_inv_on_transfer:
  assumes "spi_inv t0"
  shows "spi_inv (on_transfer P D st t0)"
proof -
  define t where "t = xfer_note P t0"
  have inv: "spi_inv t" using assms note_like [of t0 P] spi_inv_like [of t0 t] by (simp add: t_def)
  show ?thesis
  proof (cases "st = Some SPI_TRANSFER_COMPLETED")
    case False
    then show ?thesis
      unfolding on_transfer_def Let_def t_def [symmetric] using inv spi_inv_header [OF inv, of P D] by simp
  next
    case True
    show ?thesis
    proof (cases "phase t")
      case PH_REQ_HEADER
      then show ?thesis using True spi_inv_request_header [OF inv, of P D] by (simp add: on_transfer_def t_def [symmetric])
    next
      case PH_REQ_PAYLOAD
      then have "unat (cur_payload_len t) \<le> MAX_PAYLOAD" using inv by (simp add: spi_inv_def)
      then have "spi_inv (arm_stamped P D Rx_None (Tx_Reply 0) (word_of_nat HEADER_BYTES) True
          ((dispatch_frame P (HEADER_BYTES + unat (cur_payload_len t)) t)\<lparr>phase := PH_REPLY_HEADER\<rparr>))"
        using inv size_facts(3,4) by (intro spi_inv_stamped reply_xfer_ok spi_inv_dispatch) simp_all
      then show ?thesis using True PH_REQ_PAYLOAD by (simp add: on_transfer_def t_def [symmetric])
    next
      case PH_REPLY_HEADER
      then have "spi_inv (arm_stamped P D Rx_None (Tx_Reply HEADER_BYTES) (reply_len t - word_of_nat HEADER_BYTES) True
          (t\<lparr>phase := PH_REPLY_PAYLOAD\<rparr>))"
        using inv by (intro spi_inv_stamped tail_xfer_ok) (simp_all add: spi_inv_def)
      then show ?thesis using True PH_REPLY_HEADER by (simp add: on_transfer_def t_def [symmetric])
    next
      case PH_REPLY_PAYLOAD
      have "spi_inv (fst (arm_request_header P D (core_do (notify_reply_sent D) t)))"
        using inv by (intro spi_inv_header) (simp add: spi_inv_def core_do_eq)
      then show ?thesis using True PH_REPLY_PAYLOAD by (simp add: on_transfer_def t_def [symmetric])
    qed
  qed
qed

section \<open>Anything can happen\<close>

text \<open>
  The host clocks an armed transfer, a transfer ends with an error, the task re-opens, releases,
  suspends or quiesces the slave, or serves it in update mode.
\<close>

datatype spi_event = Clock "byte list" | Ended "spi_status option" | Init | Reinit | Release | Suspend
  | Quiesce bool | Request_Polled | Clear_Polled | Poll "byte list list"

fun spi_step :: "'h platform \<Rightarrow> 'h spi_drv \<Rightarrow> spi_event \<Rightarrow> 'h ti_spi \<Rightarrow> 'h ti_spi" where
  "spi_step P D (Clock bs) t = fst (spi_clock P D bs t)"
| "spi_step P D (Ended st) t = on_transfer P D st (t\<lparr>armed := None\<rparr>)"
| "spi_step P D Init t = bridge_transport_spi_hw_init P D t"
| "spi_step P D Reinit t = fst (bridge_transport_spi_hw_reinit P D t)"
| "spi_step P D Release t = bridge_transport_spi_hw_release P D t"
| "spi_step P D Suspend t = bridge_transport_spi_hw_suspend P D t"
| "spi_step P D (Quiesce on) t = bridge_transport_spi_hw_quiesce D on t"
| "spi_step P D Request_Polled t = fst (bridge_transport_spi_request_polled_boot D t)"
| "spi_step P D Clear_Polled t = fst (bridge_transport_spi_clear_polled_boot D t)"
| "spi_step P D (Poll hs) t =
     (case bridge_transport_spi_poll_service P D hs t of None \<Rightarrow> t | Some (t', r) \<Rightarrow> t')"

lemma spi_inv_in:
  assumes "spi_inv t" and "xfer_ok x" and "unat (x_count x) \<le> length bs"
  shows "spi_inv (xfer_in x bs t)"
  using assms by (auto simp: xfer_in_def spi_inv_def xfer_ok_def split: spi_rx.splits)

lemma spi_inv_clock:
  assumes "spi_inv t"
  shows "spi_inv (fst (spi_clock P D bs t))"
proof (cases "armed t")
  case (Some x)
  have "spi_inv (t\<lparr>armed := None\<rparr>)" "xfer_ok x" using assms Some by (simp_all add: spi_inv_def)
  from spi_inv_on_transfer [OF spi_inv_in [OF this]] show ?thesis
    using assms Some by (simp add: spi_clock_def not_less)
qed (simp add: spi_clock_def assms)

lemma spi_inv_close: "spi_inv t \<Longrightarrow> spi_inv (spi_close D t)"
  by (simp add: spi_close_def core_do_eq spi_inv_def)

lemma spi_inv_open: "spi_inv t \<Longrightarrow> spi_inv (fst (spi_open_and_arm P D t))"
proof -
  assume i: "spi_inv t"
  let ?t1 = "t\<lparr>reply_armed := False, sync_idle := replicate HEADER_BYTES (SYNC_IDLE D)\<rparr>"
  obtain t2 b where p: "bridge_transport_spi_polled D ?t1 = (t2, b)" by fastforce
  have "spi_inv ?t1" using i by (simp add: spi_inv_def)
  then have t2: "spi_inv t2" using spi_inv_polled [of ?t1 D] p by simp
  show ?thesis
    using t2 unfolding spi_open_and_arm_def Let_def p
    by (auto simp: core_call_eq intro!: spi_inv_header) (simp_all add: spi_inv_def)
qed

lemma spi_inv_poll_loop:
  "spi_inv t \<Longrightarrow> poll_loop P D k hs outs sv t = Some (t', r) \<Longrightarrow> spi_inv t'"
proof (induction k arbitrary: hs outs sv t)
  case (Suc k)
  show ?case
  proof (cases "pend t")
    case (Some x)
    let ?c = "core_call (SPI_transfer D) (core_do (bridge_ready (link P)) (t\<lparr>pend := None\<rparr>))"
    obtain t1 ok where c: "?c = (t1, ok)" by fastforce
    have t1: "spi_inv t1" "xfer_ok x" using c Suc.prems(1) Some by (auto simp: core_simps spi_inv_def)
    have fail: "spi_inv (core_do (bridge_busy (link P)) (fst (arm_request_header P D (t1\<lparr>g_arm_fail_count := g_arm_fail_count t1 + 1\<rparr>))))"
      using spi_inv_header [of "t1\<lparr>g_arm_fail_count := g_arm_fail_count t1 + 1\<rparr>" P D] t1(1)
      by (simp add: spi_inv_def core_do_eq)
    show ?thesis
    proof (cases "ok \<and> hs \<noteq> [] \<and> \<not> length (hd hs) < unat (x_count x)")
      case True
      then obtain bs rest where hs: "hs = bs # rest" by (cases hs) auto
      let ?t2 = "on_transfer P D (Some SPI_TRANSFER_COMPLETED) (core_do (bridge_busy (link P)) (xfer_in x bs t1))"
      have "spi_inv ?t2"
        using spi_inv_in [OF t1, of bs] True hs by (intro spi_inv_on_transfer) (simp add: spi_inv_def core_do_eq)
      then show ?thesis using Suc True hs Some c by (auto simp: Let_def split: if_splits)
    next
      case False
      then show ?thesis using Suc.prems(2) Some c fail by (auto split: if_splits list.splits)
    qed
  qed (use Suc.prems in simp)
qed simp

lemma spi_inv_flags:
  "spi_inv (t\<lparr>g_quiesce := b\<rparr>) = spi_inv t"
  "spi_inv (t\<lparr>persist_magic := m, persist_magic_inv := n\<rparr>) = spi_inv t"
  by (simp_all add: spi_inv_def)

lemma spi_inv_step: "spi_inv t \<Longrightarrow> spi_inv (spi_step P D e t)"
proof -
  assume i: "spi_inv t"
  obtain t1 b where p: "bridge_transport_spi_polled D t = (t1, b)" by fastforce
  have t1: "spi_inv t1" using spi_inv_polled [OF i, of D] p by simp
  have c: "spi_inv (spi_close D (core_do f t1))" for f using t1 by (intro spi_inv_close) (simp add: spi_inv_def core_do_eq)
  show ?thesis
  proof (cases e)
    case (Poll hs)
    have "spi_inv (spi_fifo_reset D t)" by (rule spi_inv_fifo [OF i])
    from spi_inv_poll_loop [OF this] show ?thesis
      using Poll i by (auto simp: bridge_transport_spi_poll_service_def split: option.split)
  next
    case Reinit
    then show ?thesis
      using t1 spi_inv_open [OF spi_inv_close [OF t1, of D], of P D] by (simp add: bridge_transport_spi_hw_reinit_def p)
  next
    case (Ended st)
    have "spi_inv (t\<lparr>armed := None\<rparr>)" using i by (simp add: spi_inv_def)
    then show ?thesis using Ended spi_inv_on_transfer by simp
  next
    case Release
    then show ?thesis using t1 spi_inv_close [OF t1, of D]
      by (simp add: bridge_transport_spi_hw_release_def p Let_def spi_inv_def)
  next
    case Suspend
    then show ?thesis using t1 c
      by (simp add: bridge_transport_spi_hw_suspend_def p Let_def spi_inv_def)
  qed (use i t1 in \<open>auto simp: spi_inv_clock spi_inv_open bridge_transport_spi_hw_init_def
      bridge_transport_spi_hw_quiesce_def p bridge_transport_spi_request_polled_boot_def
      bridge_transport_spi_clear_polled_boot_def spi_inv_flags\<close>)
qed

text \<open>Out of reset: zeroed statics around whatever survived in no-init memory.\<close>

definition spi_boot :: "u32 \<Rightarrow> u32 \<Rightarrow> u32 \<Rightarrow> 'h fw \<Rightarrow> 'h ti_spi" where
  "spi_boot m mi b s = \<lparr>spi_handle = False, phase = PH_REQ_HEADER,
     frame_buf = replicate CC3501E_FRAME_MAX_BYTES 0, reply_buf = replicate CC3501E_FRAME_MAX_BYTES 0,
     reply_len = 0, cur_payload_len = 0, sync_idle = replicate HEADER_BYTES 0, g_resync_count = 0,
     g_spi_reopen_count = 0, g_arm_fail_count = 0, g_rx_overrun_count = 0, g_fiforst_timeout_count = 0,
     persist_magic = m, persist_magic_inv = mi, persist_boots = b, g_polled = False, g_boot_read = False,
     g_quiesce = False, armed = None, pend = None, reply_armed = False, reply_armed_ms = 0,
     g_last_xfer_ms = 0, g_xfer_count = 0, g_spi_open_failed = False, slave = spi_reset, core = s\<rparr>"

lemma spi_inv_boot: "spi_inv (spi_boot m mi b s)"
  by (simp add: spi_inv_def spi_boot_def spi_wf_reset)

lemma spi_inv_run: "spi_inv t \<Longrightarrow> spi_inv (fold (spi_step P D) es t)"
  by (induction es arbitrary: t) (simp_all add: spi_inv_step)

section \<open>One frame\<close>

lemma serving_like: "spi_like t t' \<Longrightarrow> serving t' = serving t"
  by (simp add: serving_def spi_like_def)

lemma next_xfer_note: "next_xfer (xfer_note P t) = next_xfer t" "serving (xfer_note P t) = serving t"
  using note_like [of t P] by (simp_all add: next_xfer_def serving_def spi_like_def)

definition has_reply :: "byte list \<Rightarrow> 'h ti_spi \<Rightarrow> bool" where
  "has_reply reply t \<longleftrightarrow> take (length reply) (reply_buf t) = reply \<and> unat (reply_len t) = length reply
     \<and> HEADER_BYTES \<le> length reply \<and> length reply \<le> CC3501E_FRAME_MAX_BYTES"

text \<open>A request whose last byte has arrived is dispatched and its reply header armed.\<close>

lemma request_done:
  assumes "serving t" and "drv_accepts D" and "spi_inv t" and "0 < n" and "n \<le> CC3501E_FRAME_MAX_BYTES"
    and "u = arm_stamped P D Rx_None (Tx_Reply 0) (word_of_nat HEADER_BYTES) True
       ((dispatch_frame P n t)\<lparr>phase := PH_REPLY_HEADER\<rparr>)"
  shows "\<exists>s1 reply. protocol_build_reply P (take n (frame_buf t)) CC3501E_FRAME_MAX_BYTES (core t) = (s1, reply)
    \<and> has_reply reply u \<and> phase u = PH_REPLY_HEADER \<and> (\<exists>h. core u = s1\<lparr>hw := h\<rparr>)
    \<and> next_xfer u = Some \<lparr>x_rx = Rx_None, x_tx = Tx_Reply 0, x_count = word_of_nat HEADER_BYTES\<rparr>
    \<and> g_polled u = g_polled t \<and> serving u"
proof -
  obtain s1 reply where b: "protocol_build_reply P (take n (frame_buf t)) CC3501E_FRAME_MAX_BYTES (core t) = (s1, reply)"
    by fastforce
  have w: "spi_wf (slave t)" "length (frame_buf t) = CC3501E_FRAME_MAX_BYTES" "length (reply_buf t) = CC3501E_FRAME_MAX_BYTES"
    using assms(3) by (simp_all add: spi_inv_def)
  obtain sl where d: "dispatch_frame P n t = t\<lparr>slave := sl, core := s1, reply_buf := blit (reply_buf t) reply,
      reply_len := word_of_nat (length reply)\<rparr>" "unat (word_of_nat (length reply) :: u32) = length reply"
    "HEADER_BYTES \<le> length reply" "length reply \<le> CC3501E_FRAME_MAX_BYTES"
    using dispatch_spec [OF w assms(4,5) b] by blast
  let ?d = "(dispatch_frame P n t)\<lparr>phase := PH_REPLY_HEADER\<rparr>"
  have "serving ?d" using assms(1) by (simp add: d(1) serving_def)
  from arm_stamped_accepts [OF this assms(2), of P Rx_None "Tx_Reply 0" "word_of_nat HEADER_BYTES" True]
  have l: "spi_like ?d u" "next_xfer u = Some \<lparr>x_rx = Rx_None, x_tx = Tx_Reply 0, x_count = word_of_nat HEADER_BYTES\<rparr>"
    unfolding assms(6) by blast+
  have "has_reply reply u" "phase u = PH_REPLY_HEADER" "g_polled u = g_polled t" "serving u" "core u = s1\<lparr>hw := hw (core u)\<rparr>"
    using l(1) d assms(1) by (simp_all add: spi_like_def has_reply_def blit_def serving_def)
  then show ?thesis using b l(2) by blast
qed

lemma on_reply_header:
  assumes "serving t" and "drv_accepts D" and "phase t = PH_REPLY_HEADER" and "has_reply reply t"
    and "u = on_transfer P D (Some SPI_TRANSFER_COMPLETED) t"
  shows "phase u = PH_REPLY_PAYLOAD \<and> has_reply reply u \<and> (\<exists>h. core u = (core t)\<lparr>hw := h\<rparr>) \<and> serving u
    \<and> g_polled u = g_polled t
    \<and> next_xfer u = Some \<lparr>x_rx = Rx_None, x_tx = Tx_Reply HEADER_BYTES, x_count = word_of_nat (length reply - HEADER_BYTES)\<rparr>"
proof -
  define v where "v = xfer_note P t"
  have lv: "spi_like t v" using note_like [of t P] by (simp add: v_def)
  let ?v = "v\<lparr>phase := PH_REPLY_PAYLOAD\<rparr>"
  have sv: "serving ?v" using lv assms(1) by (simp add: serving_def spi_like_def)
  have rl: "unat (reply_len v) = length reply" "HEADER_BYTES \<le> length reply" "length reply \<le> CC3501E_FRAME_MAX_BYTES"
    using assms(4) lv by (simp_all add: has_reply_def spi_like_def)
  have n: "reply_len v - word_of_nat HEADER_BYTES = word_of_nat (length reply - HEADER_BYTES)"
    using tail_xfer_ok(1) [of "reply_len v"] rl frame_word [of "length reply - HEADER_BYTES"]
    by (simp add: word_unat_eq_iff)
  have u: "u = arm_stamped P D Rx_None (Tx_Reply HEADER_BYTES) (word_of_nat (length reply - HEADER_BYTES)) True ?v"
  proof -
    have "phase v = PH_REPLY_HEADER" using lv assms(3) by (simp add: spi_like_def)
    then show ?thesis by (simp add: assms(5) on_transfer_def v_def [symmetric] n)
  qed
  from arm_stamped_accepts [OF sv assms(2), of P Rx_None "Tx_Reply HEADER_BYTES" "word_of_nat (length reply - HEADER_BYTES)" True]
  have a: "spi_like ?v u" "next_xfer u = Some \<lparr>x_rx = Rx_None, x_tx = Tx_Reply HEADER_BYTES,
      x_count = word_of_nat (length reply - HEADER_BYTES)\<rparr>" unfolding u by blast+
  have "core u = (core t)\<lparr>hw := hw (core u)\<rparr>" using a(1) lv unfolding spi_like_def by (auto dest: fw_hw_upd)
  moreover have "phase u = PH_REPLY_PAYLOAD" "has_reply reply u" "serving u" "g_polled u = g_polled t"
    using a(1) lv assms(1,4) by (simp_all add: spi_like_def has_reply_def serving_def)
  ultimately show ?thesis using a(2) by blast
qed

lemma on_reply_payload:
  assumes "serving t" and "drv_accepts D" and "phase t = PH_REPLY_PAYLOAD"
    and "u = on_transfer P D (Some SPI_TRANSFER_COMPLETED) t"
  shows "phase u = PH_REQ_HEADER \<and> (\<exists>h. core u = (core t)\<lparr>hw := h\<rparr>) \<and> serving u
    \<and> g_polled u = g_polled t \<and> next_xfer u = Some header_xfer"
proof -
  define v where "v = core_do (notify_reply_sent D) (xfer_note P t)"
  have lv: "spi_like t v"
    using note_like [of t P] spi_like_trans [of t "xfer_note P t" v] by (simp add: v_def core_do_eq spi_like_def)
  have sv: "serving v" using serving_like [OF lv] assms(1) by simp
  have u: "u = fst (arm_request_header P D v)"
    using note_like [of t P] assms(3) by (simp add: assms(4) on_transfer_def v_def spi_like_def)
  from arm_header_accepts [OF sv assms(2), of P]
  have a: "spi_like (v\<lparr>phase := PH_REQ_HEADER\<rparr>) u" "next_xfer u = Some header_xfer" unfolding u by blast+
  have "core u = (core t)\<lparr>hw := hw (core u)\<rparr>" using a(1) lv unfolding spi_like_def by (auto dest: fw_hw_upd)
  moreover have "phase u = PH_REQ_HEADER" "serving u" "g_polled u = g_polled t"
    using a(1) lv sv by (simp_all add: spi_like_def serving_def)
  ultimately show ?thesis using a(2) by blast
qed

text \<open>A well-formed request: header and payload, with an opcode the slave does not skip.\<close>

definition frame_ok :: "'h spi_drv \<Rightarrow> byte list \<Rightarrow> bool" where
  "frame_ok D fr \<longleftrightarrow> HEADER_BYTES \<le> length fr \<and> length fr \<le> CC3501E_FRAME_MAX_BYTES
     \<and> fr ! 0 < CMD_RESERVED_VENDOR_BASE D \<and> unat (get_le16 fr 2) = length fr - HEADER_BYTES"

lemma get_le16_take: "4 \<le> n \<Longrightarrow> get_le16 (take n xs) 2 = get_le16 xs 2"
  by (simp add: get_le16_def)

lemma xfer_in_frame:
  assumes "off + unat (x_count x) \<le> length (frame_buf t)" and "x_rx x = Rx_Frame off"
    and "unat (x_count x) \<le> length bs"
  shows "take (off + unat (x_count x)) (frame_buf (xfer_in x bs t)) = take off (frame_buf t) @ take (unat (x_count x)) bs"
  using assms by (simp add: xfer_in_def)

lemma xfer_in_like:
  "spi_like (t\<lparr>frame_buf := frame_buf (xfer_in x bs t)\<rparr>) (xfer_in x bs t)"
  "armed (xfer_in x bs t) = armed t" "pend (xfer_in x bs t) = pend t"
  by (simp_all add: xfer_in_def spi_like_def split: spi_rx.split)

text \<open>The header has arrived: the payload transfer is armed, or the frame is complete.\<close>

lemma on_header:
  assumes "serving t" and "drv_accepts D" and "spi_inv t" and "phase t = PH_REQ_HEADER"
    and "frame_ok D fr" and "take HEADER_BYTES (frame_buf t) = take HEADER_BYTES fr"
    and "u = on_transfer P D (Some SPI_TRANSFER_COMPLETED) t"
  shows "if length fr = HEADER_BYTES
    then \<exists>h1 h2 s1 reply. protocol_build_reply P fr CC3501E_FRAME_MAX_BYTES ((core t)\<lparr>hw := h1\<rparr>) = (s1, reply)
      \<and> has_reply reply u \<and> phase u = PH_REPLY_HEADER \<and> core u = s1\<lparr>hw := h2\<rparr>
      \<and> next_xfer u = Some \<lparr>x_rx = Rx_None, x_tx = Tx_Reply 0, x_count = word_of_nat HEADER_BYTES\<rparr>
      \<and> g_polled u = g_polled t \<and> serving u
    else phase u = PH_REQ_PAYLOAD \<and> serving u \<and> g_polled u = g_polled t \<and> spi_inv u
      \<and> frame_buf u = frame_buf t \<and> unat (cur_payload_len u) = length fr - HEADER_BYTES
      \<and> (\<exists>h. core u = (core t)\<lparr>hw := h\<rparr>)
      \<and> next_xfer u = Some \<lparr>x_rx = Rx_Frame HEADER_BYTES, x_tx = Tx_Zero, x_count = word_of_nat (length fr - HEADER_BYTES)\<rparr>"
proof -
  define v where "v = xfer_note P t"
  have lv: "spi_like t v" and iv: "spi_inv v" and sv: "serving v"
    using note_like [of t P] spi_inv_like [of t v] next_xfer_note(2) [of P t] assms(1,3) by (simp_all add: v_def)
  note fo = assms(5) [unfolded frame_ok_def]
  have fb: "frame_buf v = frame_buf t" "phase v = PH_REQ_HEADER" using lv assms(4) by (simp_all add: spi_like_def)
  have f0: "frame_buf v ! 0 = fr ! 0" using assms(6) fo fb size_facts(4)
    by (metis nth_take)
  have "get_le16 (frame_buf v) 2 = get_le16 fr 2"
    using arg_cong [OF assms(6), of "\<lambda>xs. get_le16 xs 2"] fb(1) by (simp add: get_le16_take size_facts(5))
  then have rl: "unat (request_len v) = length fr - HEADER_BYTES"
  proof -
    have "length fr - HEADER_BYTES \<le> MAX_PAYLOAD" using fo size_facts(3) by linarith
    then show ?thesis using \<open>get_le16 (frame_buf v) 2 = get_le16 fr 2\<close> fo by (simp add: request_len_def Let_def)
  qed
  have u: "u = on_request_header P D v" using fb(2) by (simp add: assms(7) on_transfer_def v_def [symmetric])
  have op: "\<not> frame_buf v ! 0 \<ge> CMD_RESERVED_VENDOR_BASE D" using f0 fo by (simp add: not_le)
  show ?thesis
  proof (cases "length fr = HEADER_BYTES")
    case True
    let ?w = "v\<lparr>cur_payload_len := request_len v\<rparr>"
    have z: "request_len v = 0" using rl True by (simp add: word_unat_eq_iff)
    have sw: "serving ?w" using sv by (simp add: serving_def)
    have iw: "spi_inv ?w" using iv fb(2) by (simp add: spi_inv_def)
    have e: "take HEADER_BYTES (frame_buf ?w) = fr" using assms(6) fb(1) True by simp
    have uu: "u = arm_stamped P D Rx_None (Tx_Reply 0) (word_of_nat HEADER_BYTES) True
       ((dispatch_frame P HEADER_BYTES ?w)\<lparr>phase := PH_REPLY_HEADER\<rparr>)"
      using op z unfolding u on_request_header_def Let_def by presburger
    have "core ?w = (core t)\<lparr>hw := hw (core v)\<rparr>" "g_polled ?w = g_polled t" using lv by (simp_all add: spi_like_def)
    with request_done [OF sw assms(2) iw size_facts(4,2) uu] True show ?thesis unfolding e by metis
  next
    case False
    then have nz: "request_len v \<noteq> 0" using rl fo by (metis diff_is_0_eq' le_antisym unat_0 zero_le diff_is_0_eq)
    let ?w = "v\<lparr>cur_payload_len := request_len v, phase := PH_REQ_PAYLOAD\<rparr>"
    have sw: "serving ?w" using sv by (simp add: serving_def)
    have iu: "spi_inv u" unfolding u by (rule spi_inv_request_header [OF iv])
    have cnt: "(ucast (request_len v) :: u32) = word_of_nat (length fr - HEADER_BYTES)"
    proof -
      have "length fr - HEADER_BYTES \<le> CC3501E_FRAME_MAX_BYTES" using fo by linarith
      from frame_word [OF this] show ?thesis unfolding word_unat_eq_iff unat_ucast16 rl by (rule sym)
    qed
    have uu: "u = arm_stamped P D (Rx_Frame HEADER_BYTES) Tx_Zero (word_of_nat (length fr - HEADER_BYTES)) False ?w"
      using op nz by (simp add: u on_request_header_def cnt)
    from arm_stamped_accepts [OF sw assms(2)] have a: "spi_like ?w u"
      "next_xfer u = Some \<lparr>x_rx = Rx_Frame HEADER_BYTES, x_tx = Tx_Zero, x_count = word_of_nat (length fr - HEADER_BYTES)\<rparr>"
      unfolding uu by blast+
    have "core u = (core t)\<lparr>hw := hw (core u)\<rparr>" using a(1) lv unfolding spi_like_def by (auto dest: fw_hw_upd)
    moreover have "phase u = PH_REQ_PAYLOAD" "serving u" "g_polled u = g_polled t" "frame_buf u = frame_buf t"
      "unat (cur_payload_len u) = length fr - HEADER_BYTES"
      using a(1) lv sv fb rl by (simp_all add: spi_like_def serving_def)
    ultimately show ?thesis using False a(2) iu by auto
  qed
qed

lemma on_payload:
  assumes "serving t" and "drv_accepts D" and "spi_inv t" and "phase t = PH_REQ_PAYLOAD"
    and "length fr \<le> CC3501E_FRAME_MAX_BYTES" and "HEADER_BYTES \<le> length fr" and "take (length fr) (frame_buf t) = fr"
    and "unat (cur_payload_len t) = length fr - HEADER_BYTES"
    and "u = on_transfer P D (Some SPI_TRANSFER_COMPLETED) t"
  shows "\<exists>h1 h2 s1 reply. protocol_build_reply P fr CC3501E_FRAME_MAX_BYTES ((core t)\<lparr>hw := h1\<rparr>) = (s1, reply)
      \<and> has_reply reply u \<and> phase u = PH_REPLY_HEADER \<and> core u = s1\<lparr>hw := h2\<rparr>
      \<and> next_xfer u = Some \<lparr>x_rx = Rx_None, x_tx = Tx_Reply 0, x_count = word_of_nat HEADER_BYTES\<rparr>
      \<and> g_polled u = g_polled t \<and> serving u"
proof -
  define v where "v = xfer_note P t"
  have lv: "spi_like t v" and iv: "spi_inv v" and sv: "serving v"
    using note_like [of t P] spi_inv_like [of t v] next_xfer_note(2) [of P t] assms(1,3) by (simp_all add: v_def)
  have fb: "frame_buf v = frame_buf t" "phase v = PH_REQ_PAYLOAD" "HEADER_BYTES + unat (cur_payload_len v) = length fr"
    using lv assms(4,6,8) by (simp_all add: spi_like_def)
  have pos: "0 < length fr" using assms(6) size_facts(4) by linarith
  have uu: "u = arm_stamped P D Rx_None (Tx_Reply 0) (word_of_nat HEADER_BYTES) True
       ((dispatch_frame P (length fr) v)\<lparr>phase := PH_REPLY_HEADER\<rparr>)"
    using fb(2,3) by (simp add: assms(9) on_transfer_def v_def [symmetric])
  have "core v = (core t)\<lparr>hw := hw (core v)\<rparr>" "g_polled v = g_polled t" using lv by (simp_all add: spi_like_def)
  with request_done [OF sv assms(2) iv pos assms(5) uu] show ?thesis unfolding fb(1) assms(7) by metis
qed

section \<open>A frame in either mode\<close>

definition parked :: "'h ti_spi \<Rightarrow> bool" where
  "parked t \<longleftrightarrow> serving t \<and> spi_inv t \<and> phase t = PH_REQ_HEADER \<and> next_xfer t = Some header_xfer"

definition reply_ready :: "byte list \<Rightarrow> 'h ti_spi \<Rightarrow> bool" where
  "reply_ready reply t \<longleftrightarrow> serving t \<and> spi_inv t \<and> phase t = PH_REPLY_HEADER \<and> has_reply reply t
     \<and> next_xfer t = Some \<lparr>x_rx = Rx_None, x_tx = Tx_Reply 0, x_count = word_of_nat HEADER_BYTES\<rparr>"

text \<open>The armed transfer has been clocked with the bytes \<open>bs\<close>; the callback has yet to run.\<close>

definition fed :: "'h ti_spi \<Rightarrow> byte list \<Rightarrow> 'h ti_spi \<Rightarrow> bool" where
  "fed t bs t1 \<longleftrightarrow> spi_inv t1 \<and> (\<exists>x. next_xfer t = Some x \<and> unat (x_count x) \<le> length bs
     \<and> spi_like (t\<lparr>frame_buf := frame_buf (xfer_in x bs t)\<rparr>) t1)"

lemma fed_quiet:
  assumes "fed t bs t1" and "next_xfer t = Some x" and "x_rx x = Rx_None"
  shows "spi_like t t1" and "spi_inv t1"
  using assms by (auto simp: fed_def xfer_in_def)

lemma request_phases:
  assumes "drv_accepts D" and "parked t" and "frame_ok D fr" and "fed t (take HEADER_BYTES fr) t1"
    and "u1 = on_transfer P D (Some SPI_TRANSFER_COMPLETED) t1"
    and "length fr = HEADER_BYTES \<and> u2 = u1
      \<or> length fr \<noteq> HEADER_BYTES \<and> fed u1 (drop HEADER_BYTES fr) t2 \<and> u2 = on_transfer P D (Some SPI_TRANSFER_COMPLETED) t2"
  shows "\<exists>h1 h2 s1 reply. protocol_build_reply P fr CC3501E_FRAME_MAX_BYTES ((core t)\<lparr>hw := h1\<rparr>) = (s1, reply)
    \<and> reply_ready reply u2 \<and> core u2 = s1\<lparr>hw := h2\<rparr> \<and> g_polled u2 = g_polled t"
proof -
  have len: "HEADER_BYTES \<le> length fr" "length fr \<le> CC3501E_FRAME_MAX_BYTES" using assms(3) by (simp_all add: frame_ok_def)
  have p: "serving t" "spi_inv t" "phase t = PH_REQ_HEADER" "next_xfer t = Some header_xfer"
    using assms(2) by (simp_all add: parked_def)
  let ?fb = "frame_buf (xfer_in header_xfer (take HEADER_BYTES fr) t)"
  have l1: "spi_like (t\<lparr>frame_buf := ?fb\<rparr>) t1" "spi_inv t1" using assms(4) p(4) by (auto simp: fed_def)
  have c: "core t1 = (core t)\<lparr>hw := hw (core t1)\<rparr>" "g_polled t1 = g_polled t" using l1(1) by (simp_all add: spi_like_def)
  have t1: "serving t1" "phase t1 = PH_REQ_HEADER" "frame_buf t1 = ?fb"
    using l1(1) p(1,3) by (simp_all add: spi_like_def serving_def)
  have "take HEADER_BYTES ?fb = take HEADER_BYTES fr"
    using xfer_in_frame [of 0 header_xfer t "take HEADER_BYTES fr"] p(2) len size_facts(1,2)
    by (simp add: header_xfer_def spi_inv_def)
  then have b: "take HEADER_BYTES (frame_buf t1) = take HEADER_BYTES fr" using t1(3) by simp
  note h = on_header [OF t1(1) assms(1) l1(2) t1(2) assms(3) b assms(5)]
  have i1: "spi_inv u1" unfolding assms(5) by (rule spi_inv_on_transfer [OF l1(2)])
  show ?thesis
  proof (cases "length fr = HEADER_BYTES")
    case True
    then obtain h1 h2 s1 reply where "protocol_build_reply P fr CC3501E_FRAME_MAX_BYTES ((core t1)\<lparr>hw := h1\<rparr>) = (s1, reply)"
      "has_reply reply u1" "phase u1 = PH_REPLY_HEADER" "core u1 = s1\<lparr>hw := h2\<rparr>" "serving u1" "g_polled u1 = g_polled t1"
      "next_xfer u1 = Some \<lparr>x_rx = Rx_None, x_tx = Tx_Reply 0, x_count = word_of_nat HEADER_BYTES\<rparr>"
      using h by auto
    moreover have "(core t1)\<lparr>hw := h1\<rparr> = (core t)\<lparr>hw := h1\<rparr>" by (rule fw_hw_same [OF c(1)])
    moreover have "u2 = u1" using assms(6) True by simp
    ultimately show ?thesis using i1 c(2) by (auto simp: reply_ready_def)
  next
    case False
    then have d: "fed u1 (drop HEADER_BYTES fr) t2" and u2: "u2 = on_transfer P D (Some SPI_TRANSFER_COMPLETED) t2"
      using assms(6) by simp_all
    let ?x = "\<lparr>x_rx = Rx_Frame HEADER_BYTES, x_tx = Tx_Zero, x_count = word_of_nat (length fr - HEADER_BYTES)\<rparr>"
    obtain hh where q: "phase u1 = PH_REQ_PAYLOAD" "serving u1" "g_polled u1 = g_polled t1" "frame_buf u1 = frame_buf t1"
      "unat (cur_payload_len u1) = length fr - HEADER_BYTES" "core u1 = (core t1)\<lparr>hw := hh\<rparr>" "next_xfer u1 = Some ?x"
      using h False by auto
    have l2: "spi_like (u1\<lparr>frame_buf := frame_buf (xfer_in ?x (drop HEADER_BYTES fr) u1)\<rparr>) t2" "spi_inv t2"
      using d q(7) by (auto simp: fed_def)
    have t2: "serving t2" "phase t2 = PH_REQ_PAYLOAD" "unat (cur_payload_len t2) = length fr - HEADER_BYTES"
      "g_polled t2 = g_polled t" "core t2 = (core u1)\<lparr>hw := hw (core t2)\<rparr>"
      using l2(1) q c(2) by (simp_all add: spi_like_def serving_def)
    have cnt: "unat (x_count ?x) = length fr - HEADER_BYTES" using frame_word [of "length fr - HEADER_BYTES"] len by simp
    have "take (length fr) (frame_buf t2) = take HEADER_BYTES (frame_buf u1) @ drop HEADER_BYTES fr"
      using xfer_in_frame [of HEADER_BYTES ?x u1 "drop HEADER_BYTES fr"] cnt len i1 l2(1)
      by (simp add: spi_inv_def spi_like_def)
    then have fr: "take (length fr) (frame_buf t2) = fr" using b q(4) by simp
    obtain h1 h2 s1 reply where r: "protocol_build_reply P fr CC3501E_FRAME_MAX_BYTES ((core t2)\<lparr>hw := h1\<rparr>) = (s1, reply)"
      "has_reply reply u2" "phase u2 = PH_REPLY_HEADER" "core u2 = s1\<lparr>hw := h2\<rparr>" "serving u2" "g_polled u2 = g_polled t2"
      "next_xfer u2 = Some \<lparr>x_rx = Rx_None, x_tx = Tx_Reply 0, x_count = word_of_nat HEADER_BYTES\<rparr>"
      using on_payload [OF t2(1) assms(1) l2(2) t2(2) len(2,1) fr t2(3) u2] by blast
    have "(core t2)\<lparr>hw := h1\<rparr> = (core t)\<lparr>hw := h1\<rparr>" by (rule fw_hw_same [OF fw_hw_upd [OF fw_hw_upd [OF c(1) q(6)] t2(5)]])
    moreover have "spi_inv u2" unfolding u2 by (rule spi_inv_on_transfer [OF l2(2)])
    ultimately show ?thesis using r t2(4) by (auto simp: reply_ready_def)
  qed
qed

lemma reply_phases:
  assumes "drv_accepts D" and "reply_ready reply t" and "fed t d3 t3"
    and "u3 = on_transfer P D (Some SPI_TRANSFER_COMPLETED) t3"
    and "fed u3 d4 t4" and "u4 = on_transfer P D (Some SPI_TRANSFER_COMPLETED) t4"
  shows "(\<exists>x. next_xfer t = Some x \<and> xfer_out x t = take HEADER_BYTES reply)
    \<and> (\<exists>y. next_xfer u3 = Some y \<and> xfer_out y u3 = drop HEADER_BYTES reply \<and> unat (x_count y) = length reply - HEADER_BYTES)
    \<and> phase u3 = PH_REPLY_PAYLOAD \<and> spi_inv u3 \<and> g_polled u3 = g_polled t
    \<and> parked u4 \<and> g_polled u4 = g_polled t \<and> (\<exists>h. core u4 = (core t)\<lparr>hw := h\<rparr>)"
proof -
  let ?x = "\<lparr>x_rx = Rx_None, x_tx = Tx_Reply 0, x_count = word_of_nat HEADER_BYTES\<rparr>"
  let ?y = "\<lparr>x_rx = Rx_None, x_tx = Tx_Reply HEADER_BYTES, x_count = word_of_nat (length reply - HEADER_BYTES)\<rparr>"
  have r: "serving t" "phase t = PH_REPLY_HEADER" "has_reply reply t" "next_xfer t = Some ?x"
    using assms(2) by (simp_all add: reply_ready_def)
  have l3: "spi_like t t3" "spi_inv t3" using fed_quiet [OF assms(3) r(4)] by simp_all
  have t3: "serving t3" "phase t3 = PH_REPLY_HEADER" "has_reply reply t3" "g_polled t3 = g_polled t"
    using l3(1) r by (simp_all add: spi_like_def serving_def has_reply_def)
  obtain h where u3: "phase u3 = PH_REPLY_PAYLOAD" "has_reply reply u3" "core u3 = (core t3)\<lparr>hw := h\<rparr>" "serving u3"
    "g_polled u3 = g_polled t3" "next_xfer u3 = Some ?y"
    using on_reply_header [OF t3(1) assms(1) t3(2,3) assms(4)] by blast
  have i3: "spi_inv u3" unfolding assms(4) by (rule spi_inv_on_transfer [OF l3(2)])
  have l4: "spi_like u3 t4" "spi_inv t4" using fed_quiet [OF assms(5) u3(6)] by simp_all
  have t4: "serving t4" "phase t4 = PH_REPLY_PAYLOAD" using l4(1) u3 by (simp_all add: spi_like_def serving_def)
  obtain h' where u4: "phase u4 = PH_REQ_HEADER" "core u4 = (core t4)\<lparr>hw := h'\<rparr>" "serving u4" "g_polled u4 = g_polled t4"
    "next_xfer u4 = Some header_xfer"
    using on_reply_payload [OF t4(1) assms(1) t4(2) assms(6)] by blast
  have i4: "spi_inv u4" unfolding assms(6) by (rule spi_inv_on_transfer [OF l4(2)])
  have len: "HEADER_BYTES \<le> length reply" "length reply \<le> CC3501E_FRAME_MAX_BYTES" using r(3) by (simp_all add: has_reply_def)
  have cy: "unat (x_count ?y) = length reply - HEADER_BYTES" using frame_word [of "length reply - HEADER_BYTES"] len by simp
  have rb: "take (length reply) (reply_buf t) = reply" using r(3) by (simp add: has_reply_def)
  have ox: "xfer_out ?x t = take HEADER_BYTES reply"
    using arg_cong [OF rb, of "take HEADER_BYTES"] len(1) by (simp add: xfer_out_def size_facts(1) min_absorb1)
  have oy: "xfer_out ?y u3 = drop HEADER_BYTES reply"
    using u3(2) cy by (simp add: xfer_out_def has_reply_def take_drop [symmetric] flip: drop_take)
  have c1: "core t3 = (core t)\<lparr>hw := hw (core t3)\<rparr>" "core t4 = (core u3)\<lparr>hw := hw (core t4)\<rparr>" "g_polled t4 = g_polled u3"
    using l3(1) l4(1) by (simp_all add: spi_like_def)
  have "core u4 = (core t)\<lparr>hw := h'\<rparr>"
    using fw_hw_upd [OF fw_hw_upd [OF fw_hw_upd [OF c1(1) u3(3)] c1(2)] u4(2)] .
  then show ?thesis
    using ox oy cy r(4) u3(1,5,6) t3(4) c1(3) i3 i4 u4 unfolding parked_def by auto
qed

end
