(* ===== verification/Spi_Frames.thy ===== *)
theory Spi_Frames
  imports Spi_Phases
begin

text \<open>
  What the four-phase machine guarantees: every transfer it arms stays inside its buffers whatever
  happens, a frame exchanged in either mode delivers the reply the core built, a re-open brings the
  slave back to the request header, and update mode lasts one boot.
\<close>

section \<open>Clocking a frame\<close>

fun spi_clocks :: "'h platform \<Rightarrow> 'h spi_drv \<Rightarrow> byte list list \<Rightarrow> 'h ti_spi \<Rightarrow> 'h ti_spi \<times> byte list list" where
  "spi_clocks P D [] t = (t, [])"
| "spi_clocks P D (bs # bss) t =
     (case spi_clock P D bs t of (t1, out) \<Rightarrow> case spi_clocks P D bss t1 of (t2, outs) \<Rightarrow> (t2, out # outs))"

text \<open>The host's side of a request: the header, then the payload if there is one.\<close>

definition request_clocks :: "byte list \<Rightarrow> byte list list" where
  "request_clocks fr =
     take HEADER_BYTES fr # (if length fr = HEADER_BYTES then [] else [drop HEADER_BYTES fr])"

lemma clock_fed:
  assumes "spi_inv t" and "\<not> g_polled t" and "next_xfer t = Some x" and "unat (x_count x) \<le> length bs"
  shows "\<exists>t1. fed t bs t1 \<and> spi_clock P D bs t = (on_transfer P D (Some SPI_TRANSFER_COMPLETED) t1, xfer_out x t)"
proof -
  have ar: "armed t = Some x" using assms(2,3) by (simp add: next_xfer_def)
  let ?t = "t\<lparr>armed := None\<rparr>"
  have "spi_inv ?t" "xfer_ok x" using assms(1) ar by (simp_all add: spi_inv_def)
  from spi_inv_in [OF this assms(4)] have i: "spi_inv (xfer_in x bs ?t)" .
  have "spi_like (t\<lparr>frame_buf := frame_buf (xfer_in x bs t)\<rparr>) (xfer_in x bs ?t)"
    by (simp add: xfer_in_def spi_like_def split: spi_rx.split)
  then have "fed t bs (xfer_in x bs ?t)" using i assms(3,4) unfolding fed_def by blast
  moreover have "spi_clock P D bs t = (on_transfer P D (Some SPI_TRANSFER_COMPLETED) (xfer_in x bs ?t), xfer_out x t)"
    using ar assms(4) by (simp add: spi_clock_def)
  ultimately show ?thesis by blast
qed

lemma poll_fed:
  assumes "spi_inv t" and "g_polled t" and "next_xfer t = Some x" and "unat (x_count x) \<le> length bs" and "drv_accepts D"
  shows "\<exists>t1. fed t bs t1 \<and> (\<forall>k hs outs sv. poll_loop P D (Suc k) (bs # hs) outs sv t =
    (let t2 = on_transfer P D (Some SPI_TRANSFER_COMPLETED) t1
     in if phase t2 = PH_REQ_HEADER then Some (t2, True, outs @ [xfer_out x t])
        else poll_loop P D k hs (outs @ [xfer_out x t]) True t2))"
proof -
  have pe: "pend t = Some x" using assms(2,3) by (simp add: next_xfer_def)
  let ?c = "core_call (SPI_transfer D) (core_do (bridge_ready (link P)) (t\<lparr>pend := None\<rparr>))"
  obtain t0 where c: "?c = (t0, True)" using assms(5) by (auto simp: core_call_eq drv_accepts_def)
  have l0: "spi_like t t0" "spi_inv t0" "xfer_out x t0 = xfer_out x t" "xfer_ok x"
    using c assms(1) pe by (auto simp: core_simps spi_like_def spi_inv_def xfer_out_def split: spi_tx.split)
  let ?t = "core_do (bridge_busy (link P)) (xfer_in x bs t0)"
  have "spi_inv (xfer_in x bs t0)" by (rule spi_inv_in [OF l0(2,4) assms(4)])
  then have i: "spi_inv ?t" by (simp add: core_do_eq spi_inv_def)
  have "spi_like (t\<lparr>frame_buf := frame_buf (xfer_in x bs t)\<rparr>) ?t"
    using l0(1) by (auto simp: xfer_in_def spi_like_def core_do_eq dest: fw_hw_same split: spi_rx.split)
  then have "fed t bs ?t" using i assms(3,4) unfolding fed_def by blast
  moreover have "poll_loop P D (Suc k) (bs # hs) outs sv t =
    (let t2 = on_transfer P D (Some SPI_TRANSFER_COMPLETED) ?t
     in if phase t2 = PH_REQ_HEADER then Some (t2, True, outs @ [xfer_out x t])
        else poll_loop P D k hs (outs @ [xfer_out x t]) True t2)" for k hs outs sv
    using pe c assms(4) l0(3) by (simp add: Let_def)
  ultimately show ?thesis by blast
qed

text \<open>The transfers armed in the first two phases, and that the machine then waits for the host.\<close>

lemma header_count: "unat (x_count header_xfer) = HEADER_BYTES"
  by (simp add: header_xfer_def size_facts(1))

lemma payload_armed:
  assumes "drv_accepts D" and "parked t" and "frame_ok D fr" and "length fr \<noteq> HEADER_BYTES"
    and "fed t (take HEADER_BYTES fr) t1" and "u1 = on_transfer P D (Some SPI_TRANSFER_COMPLETED) t1"
  shows "\<exists>x. next_xfer u1 = Some x \<and> unat (x_count x) = length fr - HEADER_BYTES \<and> spi_inv u1
    \<and> g_polled u1 = g_polled t \<and> phase u1 = PH_REQ_PAYLOAD"
proof -
  have p: "serving t" "spi_inv t" "phase t = PH_REQ_HEADER" "next_xfer t = Some header_xfer"
    using assms(2) by (simp_all add: parked_def)
  let ?fb = "frame_buf (xfer_in header_xfer (take HEADER_BYTES fr) t)"
  have l1: "spi_like (t\<lparr>frame_buf := ?fb\<rparr>) t1" "spi_inv t1" using assms(5) p(4) by (auto simp: fed_def)
  have t1: "serving t1" "phase t1 = PH_REQ_HEADER" "frame_buf t1 = ?fb" "g_polled t1 = g_polled t"
    using l1(1) p(1,3) by (simp_all add: spi_like_def serving_def)
  have len: "HEADER_BYTES \<le> length fr" "length fr - HEADER_BYTES \<le> CC3501E_FRAME_MAX_BYTES"
    using assms(3) by (auto simp: frame_ok_def)
  have "take HEADER_BYTES ?fb = take HEADER_BYTES fr"
    using xfer_in_frame [of 0 header_xfer t "take HEADER_BYTES fr"] p(2) len size_facts(1,2)
    by (simp add: header_xfer_def spi_inv_def)
  then have b: "take HEADER_BYTES (frame_buf t1) = take HEADER_BYTES fr" using t1(3) by simp
  from on_header [OF t1(1) assms(1) l1(2) t1(2) assms(3) b assms(6)] show ?thesis
    using assms(4) t1(4) frame_word [OF len(2)] by auto
qed

section \<open>What both ways of clocking share\<close>

text \<open>
  \<open>go k sv hs outs t\<close> clocks the host's transfers \<open>hs\<close>, at most \<open>k\<close> of them, collecting what the slave
  sends; \<open>m\<close> is the mode.  The interface is one transfer: it completes and its callback runs, and
  clocking goes on unless the slave is back at the request header.
\<close>

locale frame_clocking =
  fixes P :: "'h platform" and D :: "'h spi_drv" and m :: bool
    and go :: "nat \<Rightarrow> bool \<Rightarrow> byte list list \<Rightarrow> byte list list \<Rightarrow> 'h ti_spi \<Rightarrow> ('h ti_spi \<times> bool \<times> byte list list) option"
  assumes transfer: "drv_accepts D \<Longrightarrow> spi_inv t \<Longrightarrow> g_polled t = m \<Longrightarrow> next_xfer t = Some x \<Longrightarrow>
    unat (x_count x) \<le> length bs \<Longrightarrow>
    \<exists>t1. fed t bs t1
      \<and> (phase (on_transfer P D (Some SPI_TRANSFER_COMPLETED) t1) \<noteq> PH_REQ_HEADER \<longrightarrow>
           (\<forall>k sv hs outs. go (Suc k) sv (bs # hs) outs t =
              go k True hs (outs @ [xfer_out x t]) (on_transfer P D (Some SPI_TRANSFER_COMPLETED) t1)))
      \<and> (phase (on_transfer P D (Some SPI_TRANSFER_COMPLETED) t1) = PH_REQ_HEADER \<longrightarrow>
           (\<forall>k sv outs. go (Suc k) sv [bs] outs t =
              Some (on_transfer P D (Some SPI_TRANSFER_COMPLETED) t1, True, outs @ [xfer_out x t])))"
begin

lemma request_clocked:
  assumes "drv_accepts D" and "parked t" and "g_polled t = m" and "frame_ok D fr"
  shows "\<exists>u n pre h1 h2 s1 reply. n \<le> 2
    \<and> (\<forall>k sv hs. go (n + k) sv (request_clocks fr @ hs) [] t = go k True hs pre u)
    \<and> protocol_build_reply P fr CC3501E_FRAME_MAX_BYTES ((core t)\<lparr>hw := h1\<rparr>) = (s1, reply)
    \<and> reply_ready reply u \<and> core u = s1\<lparr>hw := h2\<rparr> \<and> g_polled u = m"
proof -
  let ?on = "on_transfer P D (Some SPI_TRANSFER_COMPLETED)"
  have p: "spi_inv t" "next_xfer t = Some header_xfer" using assms(2) by (simp_all add: parked_def)
  have hb: "unat (x_count header_xfer) \<le> length (take HEADER_BYTES fr)"
    using assms(4) by (simp add: frame_ok_def header_count)
  obtain t1 where f1: "fed t (take HEADER_BYTES fr) t1" and c1: "phase (?on t1) \<noteq> PH_REQ_HEADER \<longrightarrow>
      (\<forall>k sv hs outs. go (Suc k) sv (take HEADER_BYTES fr # hs) outs t = go k True hs (outs @ [xfer_out header_xfer t]) (?on t1))"
    using transfer [OF assms(1) p(1) assms(3) p(2) hb] by blast
  show ?thesis
  proof (cases "length fr = HEADER_BYTES")
    case True
    then have "length fr = HEADER_BYTES \<and> ?on t1 = ?on t1
        \<or> length fr \<noteq> HEADER_BYTES \<and> fed (?on t1) (drop HEADER_BYTES fr) t1 \<and> ?on t1 = ?on t1" by simp
    from request_phases [OF assms(1,2,4) f1 refl this] obtain h1 h2 s1 reply where
      r: "protocol_build_reply P fr CC3501E_FRAME_MAX_BYTES ((core t)\<lparr>hw := h1\<rparr>) = (s1, reply)"
      "reply_ready reply (?on t1)" "core (?on t1) = s1\<lparr>hw := h2\<rparr>" "g_polled (?on t1) = g_polled t" by blast
    have "\<forall>k sv hs. go (1 + k) sv (request_clocks fr @ hs) [] t = go k True hs [xfer_out header_xfer t] (?on t1)"
      using c1 r(2) True by (simp add: request_clocks_def reply_ready_def)
    with r assms(3) show ?thesis by (intro exI [of _ "?on t1"] exI [of _ 1]) auto
  next
    case False
    obtain x where x: "next_xfer (?on t1) = Some x" "unat (x_count x) = length fr - HEADER_BYTES" "spi_inv (?on t1)"
      "g_polled (?on t1) = m" "phase (?on t1) = PH_REQ_PAYLOAD"
      using payload_armed [OF assms(1,2,4) False f1 refl] assms(3) by blast
    have "unat (x_count x) \<le> length (drop HEADER_BYTES fr)" using x(2) by simp
    from transfer [OF assms(1) x(3,4,1) this] obtain t2 where f2: "fed (?on t1) (drop HEADER_BYTES fr) t2"
      and c2: "phase (?on t2) \<noteq> PH_REQ_HEADER \<longrightarrow> (\<forall>k sv hs outs. go (Suc k) sv (drop HEADER_BYTES fr # hs) outs (?on t1) =
        go k True hs (outs @ [xfer_out x (?on t1)]) (?on t2))" by blast
    have "length fr = HEADER_BYTES \<and> ?on t2 = ?on t1
        \<or> length fr \<noteq> HEADER_BYTES \<and> fed (?on t1) (drop HEADER_BYTES fr) t2 \<and> ?on t2 = ?on t2" using False f2 by simp
    from request_phases [OF assms(1,2,4) f1 refl this] obtain h1 h2 s1 reply where
      r: "protocol_build_reply P fr CC3501E_FRAME_MAX_BYTES ((core t)\<lparr>hw := h1\<rparr>) = (s1, reply)"
      "reply_ready reply (?on t2)" "core (?on t2) = s1\<lparr>hw := h2\<rparr>" "g_polled (?on t2) = g_polled t" by blast
    have "\<forall>k sv hs. go (2 + k) sv (request_clocks fr @ hs) [] t =
        go k True hs [xfer_out header_xfer t, xfer_out x (?on t1)] (?on t2)"
      using c1 c2 x(5) r(2) False by (simp add: request_clocks_def reply_ready_def)
    with r assms(3) show ?thesis by (intro exI [of _ "?on t2"] exI [of _ 2]) auto
  qed
qed

lemma reply_clocked:
  assumes "drv_accepts D" and "reply_ready reply u" and "g_polled u = m"
    and "HEADER_BYTES \<le> length d3" and "CC3501E_FRAME_MAX_BYTES \<le> length d4"
  shows "\<exists>t' h. go (Suc (Suc k)) sv [d3, d4] pre u = Some (t', True, pre @ [take HEADER_BYTES reply, drop HEADER_BYTES reply])
    \<and> parked t' \<and> g_polled t' = m \<and> core t' = (core u)\<lparr>hw := h\<rparr>"
proof -
  let ?on = "on_transfer P D (Some SPI_TRANSFER_COMPLETED)"
  let ?x = "\<lparr>x_rx = Rx_None, x_tx = Tx_Reply 0, x_count = word_of_nat HEADER_BYTES\<rparr>"
  let ?y = "\<lparr>x_rx = Rx_None, x_tx = Tx_Reply HEADER_BYTES, x_count = word_of_nat (length reply - HEADER_BYTES)\<rparr>"
  have r: "spi_inv u" "next_xfer u = Some ?x" "has_reply reply u" using assms(2) by (simp_all add: reply_ready_def)
  have "unat (x_count ?x) \<le> length d3" using assms(4) by (simp add: size_facts(1))
  from transfer [OF assms(1) r(1) assms(3) r(2) this] obtain t3 where f3: "fed u d3 t3"
    and c3: "phase (?on t3) \<noteq> PH_REQ_HEADER \<longrightarrow> go (Suc (Suc k)) sv [d3, d4] pre u =
      go (Suc k) True [d4] (pre @ [xfer_out ?x u]) (?on t3)" by blast
  have t3: "serving t3" "phase t3 = PH_REPLY_HEADER" "has_reply reply t3" "spi_inv t3" "g_polled t3 = m"
    using fed_quiet [OF f3 r(2)] assms(2,3) by (auto simp: reply_ready_def spi_like_def serving_def has_reply_def)
  have o3: "next_xfer (?on t3) = Some ?y" "g_polled (?on t3) = m" "phase (?on t3) \<noteq> PH_REQ_HEADER"
    using on_reply_header [OF t3(1) assms(1) t3(2,3) refl, of P] t3(5) by auto
  have i3: "spi_inv (?on t3)" by (rule spi_inv_on_transfer [OF t3(4)])
  have len: "length reply - HEADER_BYTES \<le> CC3501E_FRAME_MAX_BYTES" using r(3) unfolding has_reply_def by linarith
  have "unat (x_count ?y) \<le> length d4" using assms(5) len frame_word [OF len] by simp
  from transfer [OF assms(1) i3 o3(2,1) this] obtain t4 where f4: "fed (?on t3) d4 t4"
    and c4: "phase (?on t4) = PH_REQ_HEADER \<longrightarrow> go (Suc k) True [d4] (pre @ [xfer_out ?x u]) (?on t3) =
      Some (?on t4, True, (pre @ [xfer_out ?x u]) @ [xfer_out ?y (?on t3)])" by blast
  note fin = reply_phases [OF assms(1,2) f3 refl f4 refl]
  have "phase (?on t4) = PH_REQ_HEADER" using fin by (simp add: parked_def)
  then have "go (Suc (Suc k)) sv [d3, d4] pre u = Some (?on t4, True, pre @ [take HEADER_BYTES reply, drop HEADER_BYTES reply])"
    using c3 c4 o3(1,3) fin r(2) by auto
  with fin assms(3) show ?thesis by blast
qed

lemma frame_clocked:
  assumes "drv_accepts D" and "parked t" and "g_polled t = m" and "frame_ok D fr"
    and "HEADER_BYTES \<le> length d3" and "CC3501E_FRAME_MAX_BYTES \<le> length d4" and "4 \<le> k"
  shows "\<exists>t' outs h1 h2 s1 reply. go k sv (request_clocks fr @ [d3, d4]) [] t = Some (t', True, outs)
    \<and> protocol_build_reply P fr CC3501E_FRAME_MAX_BYTES ((core t)\<lparr>hw := h1\<rparr>) = (s1, reply)
    \<and> concat (drop (length outs - 2) outs) = reply \<and> parked t' \<and> g_polled t' = m \<and> core t' = s1\<lparr>hw := h2\<rparr>"
proof -
  obtain u n pre h1 h2 s1 reply where n: "n \<le> 2"
    and g: "\<And>k sv hs. go (n + k) sv (request_clocks fr @ hs) [] t = go k True hs pre u"
    and b: "protocol_build_reply P fr CC3501E_FRAME_MAX_BYTES ((core t)\<lparr>hw := h1\<rparr>) = (s1, reply)"
    and r: "reply_ready reply u" "core u = s1\<lparr>hw := h2\<rparr>" "g_polled u = m"
    using request_clocked [OF assms(1-4)] by metis
  define j where "j = k - n - 2"
  have k: "k = n + Suc (Suc j)" using n assms(7) unfolding j_def by linarith
  obtain t' h where q: "go (Suc (Suc j)) True [d3, d4] pre u = Some (t', True, pre @ [take HEADER_BYTES reply, drop HEADER_BYTES reply])"
    "parked t'" "g_polled t' = m" "core t' = (core u)\<lparr>hw := h\<rparr>"
    using reply_clocked [OF assms(1) r(1,3) assms(5,6)] by blast
  have "core t' = s1\<lparr>hw := h\<rparr>" by (rule fw_hw_upd [OF r(2) q(4)])
  moreover have "go k sv (request_clocks fr @ [d3, d4]) [] t =
      Some (t', True, pre @ [take HEADER_BYTES reply, drop HEADER_BYTES reply])"
    unfolding k g by (rule q(1))
  ultimately show ?thesis using b q(2,3)
    by (intro exI [of _ t'] exI [of _ "pre @ [take HEADER_BYTES reply, drop HEADER_BYTES reply]"] exI [of _ h1] exI [of _ h]
        exI [of _ s1] exI [of _ reply]) simp
qed

end

text \<open>The two modes: transfers clocked by the host one after the other, and the polled service.\<close>

definition dma_go :: "'h platform \<Rightarrow> 'h spi_drv \<Rightarrow> nat \<Rightarrow> bool \<Rightarrow> byte list list \<Rightarrow> byte list list \<Rightarrow> 'h ti_spi
    \<Rightarrow> ('h ti_spi \<times> bool \<times> byte list list) option" where
  "dma_go P D k sv hs outs t = (case spi_clocks P D hs t of (t', os) \<Rightarrow> Some (t', True, outs @ os))"

interpretation dma: frame_clocking P D False "dma_go P D" for P :: "'h platform" and D :: "'h spi_drv"
proof unfold_locales
  fix t :: "'h ti_spi" and x :: spi_xfer and bs :: "byte list"
  assume a: "spi_inv t" "g_polled t = False" "next_xfer t = Some x" "unat (x_count x) \<le> length bs"
  then obtain t1 where "fed t bs t1"
      "spi_clock P D bs t = (on_transfer P D (Some SPI_TRANSFER_COMPLETED) t1, xfer_out x t)"
    using clock_fed [of t x bs P D] by auto
  then show "\<exists>t1. fed t bs t1
      \<and> (phase (on_transfer P D (Some SPI_TRANSFER_COMPLETED) t1) \<noteq> PH_REQ_HEADER \<longrightarrow>
           (\<forall>k sv hs outs. dma_go P D (Suc k) sv (bs # hs) outs t =
              dma_go P D k True hs (outs @ [xfer_out x t]) (on_transfer P D (Some SPI_TRANSFER_COMPLETED) t1)))
      \<and> (phase (on_transfer P D (Some SPI_TRANSFER_COMPLETED) t1) = PH_REQ_HEADER \<longrightarrow>
           (\<forall>k sv outs. dma_go P D (Suc k) sv [bs] outs t =
              Some (on_transfer P D (Some SPI_TRANSFER_COMPLETED) t1, True, outs @ [xfer_out x t])))"
    by (intro exI [of _ t1]) (simp add: dma_go_def split: prod.split)
qed

definition poll_go :: "'h platform \<Rightarrow> 'h spi_drv \<Rightarrow> nat \<Rightarrow> bool \<Rightarrow> byte list list \<Rightarrow> byte list list \<Rightarrow> 'h ti_spi
    \<Rightarrow> ('h ti_spi \<times> bool \<times> byte list list) option" where
  "poll_go P D k sv hs outs t = poll_loop P D k hs outs sv t"

interpretation polled: frame_clocking P D True "poll_go P D" for P :: "'h platform" and D :: "'h spi_drv"
proof unfold_locales
  fix t :: "'h ti_spi" and x :: spi_xfer and bs :: "byte list"
  assume a: "drv_accepts D" "spi_inv t" "g_polled t = True" "next_xfer t = Some x" "unat (x_count x) \<le> length bs"
  then obtain t1 where "fed t bs t1" "\<And>k hs outs sv. poll_loop P D (Suc k) (bs # hs) outs sv t =
      (let t2 = on_transfer P D (Some SPI_TRANSFER_COMPLETED) t1
       in if phase t2 = PH_REQ_HEADER then Some (t2, True, outs @ [xfer_out x t])
          else poll_loop P D k hs (outs @ [xfer_out x t]) True t2)"
    using poll_fed [of t x bs D P] by auto
  then show "\<exists>t1. fed t bs t1
      \<and> (phase (on_transfer P D (Some SPI_TRANSFER_COMPLETED) t1) \<noteq> PH_REQ_HEADER \<longrightarrow>
           (\<forall>k sv hs outs. poll_go P D (Suc k) sv (bs # hs) outs t =
              poll_go P D k True hs (outs @ [xfer_out x t]) (on_transfer P D (Some SPI_TRANSFER_COMPLETED) t1)))
      \<and> (phase (on_transfer P D (Some SPI_TRANSFER_COMPLETED) t1) = PH_REQ_HEADER \<longrightarrow>
           (\<forall>k sv outs. poll_go P D (Suc k) sv [bs] outs t =
              Some (on_transfer P D (Some SPI_TRANSFER_COMPLETED) t1, True, outs @ [xfer_out x t])))"
    by (intro exI [of _ t1]) (simp add: poll_go_def Let_def)
qed

section \<open>Re-opening\<close>

lemma open_attempts_ok: "\<forall>h. snd (SPI_open D b h) \<Longrightarrow> snd (spi_open_attempts D b a (Suc k) h)"
  by (auto split: prod.split) (metis snd_conv)

lemma polled_settles: "g_boot_read (fst (bridge_transport_spi_polled D t))"
  by (simp add: bridge_transport_spi_polled_def Let_def)

lemma polled_value: "snd (bridge_transport_spi_polled D t) = g_polled (fst (bridge_transport_spi_polled D t))"
  if "g_boot_read t" using that by (simp add: bridge_transport_spi_polled_def)

lemma open_parks:
  assumes "spi_inv t" and "g_boot_read t" and "\<not> g_quiesce t" and "drv_accepts D" and "\<forall>b h. snd (SPI_open D b h)"
  shows "snd (spi_open_and_arm P D t) \<and> parked (fst (spi_open_and_arm P D t))
    \<and> g_polled (fst (spi_open_and_arm P D t)) = g_polled t \<and> spi_handle (fst (spi_open_and_arm P D t))"
proof -
  let ?t1 = "t\<lparr>reply_armed := False, sync_idle := replicate HEADER_BYTES (SYNC_IDLE D)\<rparr>"
  have p: "bridge_transport_spi_polled D ?t1 = (?t1, g_polled t)" using assms(2) by (simp add: polled_read)
  have "snd (spi_open_attempts D b 0 12 h)" for b h
    using open_attempts_ok [of D b 0 11] assms(5) by (simp add: eval_nat_numeral)
  then obtain t3 where c: "core_call (spi_open_attempts D (g_polled t) 0 12) ?t1 = (t3, True)"
    and t3: "g_polled t3 = g_polled t" "g_boot_read t3" "\<not> g_quiesce t3"
    using assms(2,3) by (simp add: core_call_eq)
  define u where "u = (let t4 = t3\<lparr>spi_handle := True, g_spi_reopen_count := g_spi_reopen_count t3 + 1\<rparr>;
      t5 = t4\<lparr>g_spi_open_failed := False, g_resync_count := 0,
              core := (core t4)\<lparr>crc := protocol_crc16_table_init (alp_crc16_update P) (crc (core t4))\<rparr>\<rparr>
      in t5\<lparr>g_last_xfer_ms := spi_uptime P t5\<rparr>)"
  have op: "spi_open_and_arm P D t = arm_request_header P D u"
    by (simp add: spi_open_and_arm_def p c u_def Let_def)
  have u: "serving u" "g_polled u = g_polled t" "spi_handle u" using t3 by (simp_all add: u_def Let_def serving_def)
  have "spi_inv (fst (spi_open_and_arm P D t))" by (rule spi_inv_open [OF assms(1)])
  with arm_header_accepts [OF u(1) assms(4), of P] u show ?thesis
    unfolding op by (auto simp: parked_def spi_like_def serving_def)
qed

section \<open>The update-mode flag within a boot\<close>

text \<open>Once read, the mode and the stored flag change only by a request or a clear.\<close>

definition flag_kept :: "'h ti_spi \<Rightarrow> 'h ti_spi \<Rightarrow> bool" where
  "flag_kept t t' \<longleftrightarrow> (g_boot_read t \<longrightarrow> g_boot_read t' \<and> g_polled t' = g_polled t
     \<and> persist_magic t' = persist_magic t \<and> persist_magic_inv t' = persist_magic_inv t \<and> g_quiesce t' = g_quiesce t)"

lemma flag_kept_refl [simp]: "flag_kept t t"
  by (simp add: flag_kept_def)

lemma flag_kept_trans: "flag_kept t u \<Longrightarrow> flag_kept u v \<Longrightarrow> flag_kept t v"
  by (simp add: flag_kept_def)

lemma flag_kept_fifo: "flag_kept t (spi_fifo_reset D t)"
  by (simp add: flag_kept_def spi_fifo_reset_def core_simps Let_def)

lemma flag_kept_arm: "flag_kept t (fst (arm_transfer P D rx tx n fl t))"
  using flag_kept_fifo [of t D]
  by (simp add: flag_kept_def arm_transfer_def polled_read core_simps)

lemma flag_kept_stamped: "flag_kept t (arm_stamped P D rx tx n fl t)"
  using flag_kept_arm [of t P D rx tx n fl] by (simp add: arm_stamped_def flag_kept_def split_beta)

lemma flag_kept_header: "flag_kept t (fst (arm_request_header P D t))"
  using flag_kept_arm [of "t\<lparr>phase := PH_REQ_HEADER\<rparr>" P D "Rx_Frame 0" Tx_Sync "word_of_nat HEADER_BYTES" False]
  by (simp add: arm_request_header_def flag_kept_def)

lemma flag_kept_dispatch: "flag_kept t (dispatch_frame P n t)"
  by (simp add: flag_kept_def dispatch_frame_def split: prod.split)

lemma flag_kept_update:
  "flag_kept t (t'\<lparr>phase := ph\<rparr>) = flag_kept t t'" "flag_kept (t\<lparr>phase := ph\<rparr>) t' = flag_kept t t'"
  "flag_kept (t\<lparr>cur_payload_len := n\<rparr>) t' = flag_kept t t'" "flag_kept (t\<lparr>g_resync_count := c\<rparr>) t' = flag_kept t t'"
  "flag_kept (core_do f t) t' = flag_kept t t'"
  by (simp_all add: flag_kept_def core_do_eq)

lemma flag_kept_request_header: "flag_kept t (on_request_header P D t)"
proof -
  let ?t = "t\<lparr>cur_payload_len := request_len t\<rparr>"
  have "flag_kept t ((dispatch_frame P HEADER_BYTES ?t)\<lparr>phase := PH_REPLY_HEADER\<rparr>)"
    using flag_kept_dispatch [of ?t P HEADER_BYTES] by (simp only: flag_kept_update)
  from flag_kept_trans [OF this flag_kept_stamped]
  have "flag_kept t (arm_stamped P D Rx_None (Tx_Reply 0) (word_of_nat HEADER_BYTES) True
      ((dispatch_frame P HEADER_BYTES ?t)\<lparr>phase := PH_REPLY_HEADER\<rparr>))" .
  moreover have "flag_kept t (arm_stamped P D (Rx_Frame HEADER_BYTES) Tx_Zero (ucast (request_len t)) False
      (?t\<lparr>phase := PH_REQ_PAYLOAD\<rparr>))"
    using flag_kept_stamped [of "?t\<lparr>phase := PH_REQ_PAYLOAD\<rparr>"] unfolding flag_kept_update .
  moreover have "flag_kept t (fst (arm_request_header P D (t\<lparr>g_resync_count := g_resync_count t + 1\<rparr>)))"
    using flag_kept_header [of "t\<lparr>g_resync_count := g_resync_count t + 1\<rparr>"] unfolding flag_kept_update .
  ultimately show ?thesis unfolding on_request_header_def Let_def by presburger
qed

lemma flag_kept_on_transfer: "flag_kept t (on_transfer P D st t)"
proof -
  define u where "u = xfer_note P t"
  have n: "flag_kept t u" by (simp add: u_def xfer_note_def flag_kept_def core_do_eq Let_def)
  have d: "flag_kept u (arm_stamped P D rx tx n fl ((dispatch_frame P k u)\<lparr>phase := ph\<rparr>))" for rx tx n fl k ph
    using flag_kept_trans [OF flag_kept_dispatch] flag_kept_stamped unfolding flag_kept_update
    by (metis flag_kept_update(2))
  have a: "flag_kept u (arm_stamped P D rx tx n fl (u\<lparr>phase := ph\<rparr>))" for rx tx n fl ph
    using flag_kept_stamped [of "u\<lparr>phase := ph\<rparr>"] unfolding flag_kept_update .
  have h: "flag_kept u (fst (arm_request_header P D (core_do f u)))" for f
    using flag_kept_header [of "core_do f u"] unfolding flag_kept_update .
  have "flag_kept u (on_transfer P D st t)"
    unfolding on_transfer_def Let_def u_def [symmetric]
    using a d h flag_kept_header [of u P D] flag_kept_request_header [of u P D] by (simp split: spi_phase.split)
  from flag_kept_trans [OF n this] show ?thesis .
qed

lemma flag_kept_close: "flag_kept t (spi_close D t)"
  by (simp add: spi_close_def flag_kept_def core_do_eq)

lemma flag_kept_open: "flag_kept t (fst (spi_open_and_arm P D t))"
proof (cases "g_boot_read t")
  case True
  let ?t1 = "t\<lparr>reply_armed := False, sync_idle := replicate HEADER_BYTES (SYNC_IDLE D)\<rparr>"
  have p: "bridge_transport_spi_polled D ?t1 = (?t1, g_polled t)" using True by (simp add: polled_read)
  show ?thesis
    unfolding spi_open_and_arm_def Let_def p
    by (auto simp: core_call_eq intro!: flag_kept_trans [OF _ flag_kept_header]) (simp_all add: flag_kept_def)
qed (simp add: flag_kept_def)

lemma flag_kept_poll: "poll_loop P D k hs outs sv t = Some (t', r) \<Longrightarrow> flag_kept t t'"
proof (induction k arbitrary: hs outs sv t)
  case (Suc k)
  show ?case
  proof (cases "pend t")
    case (Some x)
    obtain t1 ok where c: "core_call (SPI_transfer D) (core_do (bridge_ready (link P)) (t\<lparr>pend := None\<rparr>)) = (t1, ok)"
      by fastforce
    then have t1: "flag_kept t t1" by (auto simp: core_simps flag_kept_def)
    show ?thesis
    proof (cases "ok \<and> hs \<noteq> [] \<and> \<not> length (hd hs) < unat (x_count x)")
      case True
      then obtain bs rest where hs: "hs = bs # rest" by (cases hs) auto
      let ?i = "core_do (bridge_busy (link P)) (xfer_in x bs t1)"
      let ?t2 = "on_transfer P D (Some SPI_TRANSFER_COMPLETED) ?i"
      have "flag_kept t1 ?i" by (simp add: flag_kept_def core_do_eq xfer_in_def split: spi_rx.split)
      then have t2: "flag_kept t ?t2" using flag_kept_trans t1 flag_kept_on_transfer by metis
      have "t' = ?t2 \<or> (\<exists>o1. poll_loop P D k rest o1 True ?t2 = Some (t', r))"
        using Suc.prems True hs Some c by (auto simp: Let_def split: if_splits)
      then show ?thesis using t2 Suc.IH flag_kept_trans by metis
    next
      case False
      let ?f = "t1\<lparr>g_arm_fail_count := g_arm_fail_count t1 + 1\<rparr>"
      have "flag_kept t1 ?f" by (simp add: flag_kept_def)
      from flag_kept_trans [OF t1 flag_kept_trans [OF this flag_kept_header [of _ P D]]]
      have "flag_kept t (core_do (bridge_busy (link P)) (fst (arm_request_header P D ?f)))"
        by (simp add: flag_kept_def core_do_eq)
      then show ?thesis using Suc.prems Some c False by (auto split: if_splits list.splits)
    qed
  qed (use Suc.prems in simp)
qed simp

fun is_flag :: "spi_event \<Rightarrow> bool" where
  "is_flag Request_Polled = True"
| "is_flag Clear_Polled = True"
| "is_flag e = False"

text \<open>Whether the last flag operation among the events, if there is one, was a request.\<close>

definition asked :: "bool \<Rightarrow> spi_event list \<Rightarrow> bool" where
  "asked b es = fold (\<lambda>e b. if is_flag e then e = Request_Polled else b) es b"

text \<open>A quiesce changes the gate but neither the mode nor the flag.\<close>

lemma flag_kept_quiesce:
  "g_boot_read t \<Longrightarrow> bridge_transport_spi_hw_quiesce D on t = (if g_polled t then t else t\<lparr>g_quiesce := on\<rparr>)"
  by (simp add: bridge_transport_spi_hw_quiesce_def polled_read)

fun is_quiesce :: "spi_event \<Rightarrow> bool" where
  "is_quiesce (Quiesce on) = True"
| "is_quiesce e = False"

lemma flag_kept_step:
  assumes "\<not> is_flag e" and "g_boot_read t" and "\<not> is_quiesce e"
  shows "flag_kept t (spi_step P D e t)"
proof (cases e)
  case (Clock bs)
  show ?thesis
  proof (cases "armed t")
    case (Some x)
    have "flag_kept t (xfer_in x bs (t\<lparr>armed := None\<rparr>))" by (simp add: flag_kept_def xfer_in_def split: spi_rx.split)
    from flag_kept_trans [OF this flag_kept_on_transfer] show ?thesis using Clock Some by (simp add: spi_clock_def)
  qed (simp add: Clock spi_clock_def)
next
  case (Ended st)
  have "flag_kept t (t\<lparr>armed := None\<rparr>)" by (simp add: flag_kept_def)
  from flag_kept_trans [OF this flag_kept_on_transfer] show ?thesis using Ended by simp
next
  case Reinit
  show ?thesis
    using flag_kept_trans [OF flag_kept_close [of t D] flag_kept_open [of _ P D]] assms(2) Reinit
    by (simp add: bridge_transport_spi_hw_reinit_def polled_read)
next
  case (Poll hs)
  show ?thesis
    using flag_kept_trans [OF flag_kept_fifo flag_kept_poll] Poll
    by (auto simp: bridge_transport_spi_poll_service_def split: option.split)
qed (use assms flag_kept_open [of t P D] flag_kept_close [of t D] in
  \<open>auto simp: bridge_transport_spi_hw_init_def bridge_transport_spi_hw_release_def bridge_transport_spi_hw_suspend_def
     polled_read flag_kept_def Let_def spi_close_def core_do_eq\<close>)

lemma mode_kept:
  assumes "\<not> is_flag e" and "g_boot_read t"
  shows "g_boot_read (spi_step P D e t) \<and> g_polled (spi_step P D e t) = g_polled t
    \<and> persist_magic (spi_step P D e t) = persist_magic t \<and> persist_magic_inv (spi_step P D e t) = persist_magic_inv t"
proof (cases "is_quiesce e")
  case True
  then show ?thesis using assms(2) by (cases e) (simp_all add: flag_kept_quiesce)
qed (use flag_kept_step [OF assms] assms(2) in \<open>simp add: flag_kept_def\<close>)

lemma boot_read_run: "g_boot_read t \<Longrightarrow> g_boot_read (fold (spi_step P D) es t)"
proof (induction es arbitrary: t)
  case (Cons e es)
  have "g_boot_read (spi_step P D e t)"
  proof (cases "is_flag e")
    case True
    then show ?thesis using Cons.prems
      by (cases e) (simp_all add: bridge_transport_spi_request_polled_boot_def bridge_transport_spi_clear_polled_boot_def)
  qed (use mode_kept [of e t P D] Cons.prems in simp)
  then show ?case using Cons.IH by simp
qed simp

lemma polled_kept_open:
  "flag_kept (fst (bridge_transport_spi_polled D (t\<lparr>reply_armed := False, sync_idle := replicate HEADER_BYTES (SYNC_IDLE D)\<rparr>)))
     (bridge_transport_spi_hw_init P D t)"
proof -
  obtain t2 q where p: "bridge_transport_spi_polled D
      (t\<lparr>reply_armed := False, sync_idle := replicate HEADER_BYTES (SYNC_IDLE D)\<rparr>) = (t2, q)" by fastforce
  show ?thesis
    unfolding bridge_transport_spi_hw_init_def spi_open_and_arm_def Let_def p
    by (auto simp: core_call_eq intro!: flag_kept_trans [OF _ flag_kept_header]) (simp_all add: flag_kept_def)
qed

lemma boot_read_init: "g_boot_read (bridge_transport_spi_hw_init P D t)"
  using polled_kept_open [of D t P] by (simp add: flag_kept_def polled_settles)

definition flag_is :: "bool \<Rightarrow> 'h ti_spi \<Rightarrow> bool" where
  "flag_is b t \<longleftrightarrow> g_boot_read t
     \<and> persist_magic t = (if b then CC3501E_POLLED_BOOT_MAGIC else 0) \<and> persist_magic_inv t = NOT (persist_magic t)"

lemma flag_step:
  assumes "flag_is b t" and "persist_writable D"
  shows "flag_is (if is_flag e then e = Request_Polled else b) (spi_step P D e t)
    \<and> g_polled (spi_step P D e t) = g_polled t"
proof (cases "is_flag e")
  case True
  then show ?thesis using assms
    by (cases e) (simp_all add: flag_is_def bridge_transport_spi_request_polled_boot_def bridge_transport_spi_clear_polled_boot_def)
next
  case False
  then show ?thesis using mode_kept [OF False, of t P D] assms(1) by (simp add: flag_is_def)
qed

lemma flag_run:
  assumes "persist_writable D"
  shows "flag_is b t \<Longrightarrow> flag_is (asked b es) (fold (spi_step P D) es t) \<and> g_polled (fold (spi_step P D) es t) = g_polled t"
proof (induction es arbitrary: b t)
  case (Cons e es)
  from flag_step [OF Cons.prems assms, of e P] Cons.IH show ?case by (auto simp: asked_def)
qed (simp add: asked_def)

lemma flag_boot:
  assumes "persist_writable D" and "t = bridge_transport_spi_hw_init P D (spi_boot m mi b s)"
  shows "flag_is False t \<and> g_polled t = (m = CC3501E_POLLED_BOOT_MAGIC \<and> m = NOT mi)"
proof -
  let ?t1 = "(spi_boot m mi b s)\<lparr>reply_armed := False, sync_idle := replicate HEADER_BYTES (SYNC_IDLE D)\<rparr>"
  obtain t2 q where p: "bridge_transport_spi_polled D ?t1 = (t2, q)" by fastforce
  have t2: "flag_is False t2" "g_polled t2 = (m = CC3501E_POLLED_BOOT_MAGIC \<and> m = NOT mi)"
    using p assms(1) by (auto simp: bridge_transport_spi_polled_def spi_boot_def flag_is_def Let_def)
  have "flag_kept t2 t" using polled_kept_open [of D "spi_boot m mi b s" P] by (simp add: p assms(2))
  then show ?thesis using t2 by (simp add: flag_kept_def flag_is_def)
qed

section \<open>Properties\<close>

text \<open>A driver for the witnesses: it opens, takes every transfer and clears its FIFOs at once.\<close>

definition demo_drv :: "stub_hw spi_drv" where
  "demo_drv = \<lparr>CMD_RESERVED_VENDOR_BASE = 0xF0, SYNC_IDLE = 0xA5, persist_writable = True,
     SPI_transfer = (\<lambda>h. (h, True)), SPI_transferCancel = (\<lambda>h. h), SPI_open = (\<lambda>b h. (h, True)),
     SPI_close = (\<lambda>h. h), spi_usleep = (\<lambda>us h. h), fifo_trigger_reset = (\<lambda>h. h),
     fifo_reset_pending = (\<lambda>h. (h, False)), rx_overrun_set = (\<lambda>h. False), rx_overrun_clear = (\<lambda>h. h),
     notify_reply_sent = (\<lambda>h. h)\<rparr>"

abbreviation demo_boot :: "u32 \<Rightarrow> u32 \<Rightarrow> stub_hw ti_spi" where
  "demo_boot m mi \<equiv> spi_boot m mi 0 (fw_reset (demo_platform True) stub_reset)"

lemma demo_drv_ok: "drv_accepts demo_drv" "\<forall>b h. snd (SPI_open demo_drv b h)" "frame_ok demo_drv [1, 0, 1, 0, 7]"
  by (simp_all add: demo_drv_def drv_accepts_def frame_ok_def get_le16_def HEADER_BYTES_def
      CC3501E_FRAME_MAX_BYTES_def MAX_PAYLOAD_def)

text \<open>A slave that has read its mode and been opened.\<close>

abbreviation demo_open :: "u32 \<Rightarrow> u32 \<Rightarrow> stub_hw ti_spi" where
  "demo_open m mi \<equiv> fst (spi_open_and_arm (demo_platform True) demo_drv (fst (bridge_transport_spi_polled demo_drv (demo_boot m mi))))"

lemma demo_parked:
  "parked (demo_open m mi)" "spi_handle (demo_open m mi)"
  "g_polled (demo_open m mi) = (m = CC3501E_POLLED_BOOT_MAGIC \<and> m = NOT mi)"
proof -
  let ?t = "fst (bridge_transport_spi_polled demo_drv (demo_boot m mi))"
  have "\<not> g_quiesce ?t" "g_polled ?t = (m = CC3501E_POLLED_BOOT_MAGIC \<and> m = NOT mi)"
    by (auto simp: bridge_transport_spi_polled_def spi_boot_def demo_drv_def Let_def)
  then show "parked (demo_open m mi)" "spi_handle (demo_open m mi)"
    "g_polled (demo_open m mi) = (m = CC3501E_POLLED_BOOT_MAGIC \<and> m = NOT mi)"
    using open_parks [OF spi_inv_polled [OF spi_inv_boot [of m mi 0]] polled_settles _ demo_drv_ok(1,2)] by simp_all
qed

text \<open>
  C11: The slave never clocks past a buffer.  Whatever sequence of completed, short, failed and
  cancelled transfers, garbage headers, re-opens, releases, suspends, quiesces and polled services
  happens after reset, every transfer that is armed or pending receives inside the frame buffer and
  sends from inside the idle, dummy or reply buffer; in particular the reply length the second
  reply transfer subtracts the header from is never smaller than the header.
\<close>

theorem spi_transfers_in_bounds:
  assumes "fold (spi_step P D) es (spi_boot m mi b s) = t" and "armed t = Some x \<or> pend t = Some x"
  shows "xfer_ok x \<and> length (frame_buf t) = CC3501E_FRAME_MAX_BYTES \<and> length (reply_buf t) = CC3501E_FRAME_MAX_BYTES
    \<and> length (sync_idle t) = HEADER_BYTES
    \<and> (phase t = PH_REPLY_HEADER \<longrightarrow> HEADER_BYTES \<le> unat (reply_len t) \<and> unat (reply_len t) \<le> CC3501E_FRAME_MAX_BYTES)"
  using spi_inv_run [OF spi_inv_boot, of P D es m mi b s] assms by (auto simp: spi_inv_def)

theorem spi_transfers_in_bounds_witness:
  "\<exists>x. armed (fold (spi_step (demo_platform True) demo_drv) [Init] (demo_boot 0 0)) = Some x \<and> xfer_ok x"
proof -
  let ?t = "fold (spi_step (demo_platform True) demo_drv) [Init] (demo_boot 0 0)"
  have "armed ?t = Some header_xfer"
    by (simp add: bridge_transport_spi_hw_init_def spi_open_and_arm_def bridge_transport_spi_polled_def spi_boot_def demo_drv_def
        core_simps arm_request_header_def arm_transfer_def Let_def eval_nat_numeral header_xfer_def)
  with spi_transfers_in_bounds [OF refl, of "demo_platform True" demo_drv "[Init]" 0 0 0 _ header_xfer] show ?thesis by blast
qed

text \<open>
  C10: A frame over the DMA slave.  From the parked state the host clocks the header, the payload if
  there is one, four bytes for the reply header and the rest; it then has read exactly the reply
  the core builds for that frame, the core is in the state that build left (the hardware apart),
  and the slave is parked again for the next header.
\<close>

theorem spi_frame_exchange:
  assumes "drv_accepts D" and "parked t" and "\<not> g_polled t" and "frame_ok D fr"
    and "HEADER_BYTES \<le> length d3" and "CC3501E_FRAME_MAX_BYTES \<le> length d4"
  shows "\<exists>t' outs h1 h2 s1 reply. spi_clocks P D (request_clocks fr @ [d3, d4]) t = (t', outs)
    \<and> protocol_build_reply P fr CC3501E_FRAME_MAX_BYTES ((core t)\<lparr>hw := h1\<rparr>) = (s1, reply)
    \<and> concat (drop (length outs - 2) outs) = reply \<and> parked t' \<and> \<not> g_polled t' \<and> core t' = s1\<lparr>hw := h2\<rparr>"
proof -
  have "g_polled t = False" using assms(3) by simp
  from dma.frame_clocked [OF assms(1,2) this assms(4-6) order_refl, of P False] show ?thesis
    unfolding dma_go_def by (auto split: prod.splits)
qed

theorem spi_frame_exchange_witness:
  "\<exists>t' outs h1 h2 s1 reply.
    spi_clocks (demo_platform True) demo_drv (request_clocks [1, 0, 1, 0, 7] @ [replicate 4 0, replicate CC3501E_FRAME_MAX_BYTES 0])
      (demo_open 0 0) = (t', outs)
    \<and> protocol_build_reply (demo_platform True) [1, 0, 1, 0, 7] CC3501E_FRAME_MAX_BYTES ((core (demo_open 0 0))\<lparr>hw := h1\<rparr>) = (s1, reply)
    \<and> concat (drop (length outs - 2) outs) = reply \<and> parked t' \<and> \<not> g_polled t' \<and> core t' = s1\<lparr>hw := h2\<rparr>"
  by (rule spi_frame_exchange [OF demo_drv_ok(1) demo_parked(1) _ demo_drv_ok(3)])
    (simp_all add: demo_parked(3) HEADER_BYTES_def CC3501E_POLLED_BOOT_MAGIC_def)

text \<open>
  C26: The same frame in update mode.  One call of the polled service on the same bytes returns
  (it never waits for a further transfer), reports that it serviced a frame, and sends the reply
  the core builds, exactly as the DMA slave does.
\<close>

theorem polled_frame_exchange:
  assumes "drv_accepts D" and "parked t" and "g_polled t" and "spi_handle t" and "frame_ok D fr"
    and "HEADER_BYTES \<le> length d3" and "CC3501E_FRAME_MAX_BYTES \<le> length d4"
  shows "\<exists>t' outs h1 h2 s1 reply.
    bridge_transport_spi_poll_service P D (request_clocks fr @ [d3, d4]) t = Some (t', True, outs)
    \<and> protocol_build_reply P fr CC3501E_FRAME_MAX_BYTES ((core t)\<lparr>hw := h1\<rparr>) = (s1, reply)
    \<and> concat (drop (length outs - 2) outs) = reply \<and> parked t' \<and> g_polled t' \<and> core t' = s1\<lparr>hw := h2\<rparr>"
proof -
  let ?t = "spi_fifo_reset D t"
  have l: "spi_like t ?t" "armed ?t = armed t" "pend ?t = pend t" using fifo_reset_like [of t D] by simp_all
  have p: "parked ?t" "g_polled ?t = True"
    using assms(2,3) l spi_inv_fifo [of t D] by (auto simp: parked_def serving_def next_xfer_def spi_like_def)
  have c: "core ?t = (core t)\<lparr>hw := hw (core ?t)\<rparr>" using l(1) by (simp add: spi_like_def)
  have "pend t \<noteq> None" using assms(2,3) by (auto simp: parked_def next_xfer_def)
  then have e: "bridge_transport_spi_poll_service P D hs t = poll_go P D 8 False hs [] ?t" for hs
    using assms(4) by (auto simp: bridge_transport_spi_poll_service_def poll_go_def)
  have k: "4 \<le> (8::nat)" by simp
  obtain t' outs h1 h2 s1 reply where
    r: "poll_go P D 8 False (request_clocks fr @ [d3, d4]) [] ?t = Some (t', True, outs)"
    "protocol_build_reply P fr CC3501E_FRAME_MAX_BYTES ((core ?t)\<lparr>hw := h1\<rparr>) = (s1, reply)"
    "concat (drop (length outs - 2) outs) = reply" "parked t'" "g_polled t' = True" "core t' = s1\<lparr>hw := h2\<rparr>"
    using polled.frame_clocked [OF assms(1) p assms(5-7) k, of P False] by blast
  have "(core ?t)\<lparr>hw := h1\<rparr> = (core t)\<lparr>hw := h1\<rparr>" by (rule fw_hw_same [OF c])
  with r show ?thesis unfolding e by metis
qed

theorem polled_frame_exchange_witness:
  "\<exists>t' outs h1 h2 s1 reply.
    bridge_transport_spi_poll_service (demo_platform True) demo_drv
      (request_clocks [1, 0, 1, 0, 7] @ [replicate 4 0, replicate CC3501E_FRAME_MAX_BYTES 0])
      (demo_open 0x0A7AB007 (NOT 0x0A7AB007)) = Some (t', True, outs)
    \<and> protocol_build_reply (demo_platform True) [1, 0, 1, 0, 7] CC3501E_FRAME_MAX_BYTES
        ((core (demo_open 0x0A7AB007 (NOT 0x0A7AB007)))\<lparr>hw := h1\<rparr>) = (s1, reply)
    \<and> concat (drop (length outs - 2) outs) = reply \<and> parked t' \<and> g_polled t' \<and> core t' = s1\<lparr>hw := h2\<rparr>"
  by (rule polled_frame_exchange [OF demo_drv_ok(1) demo_parked(1) _ demo_parked(2) demo_drv_ok(3)])
    (simp_all add: demo_parked(3) HEADER_BYTES_def CC3501E_POLLED_BOOT_MAGIC_def)

text \<open>
  C12: A re-open always recovers the link.  After any history of the slave, in any phase and with any
  transfer outstanding, a re-init outside update mode and outside a quiesce succeeds when the driver
  opens and takes transfers, and the next frame the host clocks is answered with the reply the core
  builds for it.
\<close>

theorem spi_reinit_recovers:
  assumes "fold (spi_step P D) (Init # es) (spi_boot m mi b s) = t" and "\<not> g_quiesce t"
    and "\<not> g_polled t" and "drv_accepts D" and "\<forall>b h. snd (SPI_open D b h)"
    and "frame_ok D fr" and "HEADER_BYTES \<le> length d3" and "CC3501E_FRAME_MAX_BYTES \<le> length d4"
  shows "\<exists>t1 t2 outs h1 s1 reply. bridge_transport_spi_hw_reinit P D t = (t1, True) \<and> spi_handle t1
    \<and> bridge_transport_spi_at_idle_header t1
    \<and> spi_clocks P D (request_clocks fr @ [d3, d4]) t1 = (t2, outs)
    \<and> protocol_build_reply P fr CC3501E_FRAME_MAX_BYTES ((core t1)\<lparr>hw := h1\<rparr>) = (s1, reply)
    \<and> concat (drop (length outs - 2) outs) = reply \<and> bridge_transport_spi_at_idle_header t2"
proof -
  have g: "g_boot_read t" using boot_read_run [OF boot_read_init] assms(1) by auto
  have "spi_inv t" using spi_inv_run [OF spi_inv_boot] assms(1) by blast
  then have i: "spi_inv (spi_close D t)" by (rule spi_inv_close)
  have u: "g_boot_read (spi_close D t)" "\<not> g_quiesce (spi_close D t)" "g_polled (spi_close D t) = False"
    using g assms(2,3) by (simp_all add: spi_close_def core_do_eq)
  obtain t1 ok where r: "spi_open_and_arm P D (spi_close D t) = (t1, ok)" by fastforce
  have t1: "ok" "parked t1" "g_polled t1 = False" "spi_handle t1"
    using open_parks [OF i u(1,2) assms(4,5), of P] u(3) by (simp_all add: r)
  have ri: "bridge_transport_spi_hw_reinit P D t = (t1, True)"
    using r t1(1) assms(3) g by (simp add: bridge_transport_spi_hw_reinit_def polled_read)
  obtain t2 outs h1 h2 s1 reply where "dma_go P D 4 False (request_clocks fr @ [d3, d4]) [] t1 = Some (t2, True, outs)"
    and x: "protocol_build_reply P fr CC3501E_FRAME_MAX_BYTES ((core t1)\<lparr>hw := h1\<rparr>) = (s1, reply)"
    "concat (drop (length outs - 2) outs) = reply" "parked t2"
    using dma.frame_clocked [OF assms(4) t1(2,3) assms(6-8) order_refl, of P False] by blast
  then have "spi_clocks P D (request_clocks fr @ [d3, d4]) t1 = (t2, outs)" by (simp add: dma_go_def split: prod.splits)
  with ri x t1(2,4) show ?thesis unfolding bridge_transport_spi_at_idle_header_def parked_def by metis
qed

theorem spi_reinit_recovers_witness:
  "\<exists>t t1 t2 outs. fold (spi_step (demo_platform True) demo_drv) [Init, Suspend] (demo_boot 0 0) = t \<and> \<not> spi_handle t
    \<and> bridge_transport_spi_hw_reinit (demo_platform True) demo_drv t = (t1, True) \<and> spi_handle t1
    \<and> spi_clocks (demo_platform True) demo_drv
        (request_clocks [1, 0, 1, 0, 7] @ [replicate 4 0, replicate CC3501E_FRAME_MAX_BYTES 0]) t1 = (t2, outs)
    \<and> bridge_transport_spi_at_idle_header t2"
proof -
  let ?t = "fold (spi_step (demo_platform True) demo_drv) [Init, Suspend] (demo_boot 0 0)"
  have q: "\<not> g_quiesce ?t" "\<not> g_polled ?t" "\<not> spi_handle ?t"
    by (simp_all add: bridge_transport_spi_hw_init_def spi_open_and_arm_def bridge_transport_spi_polled_def spi_boot_def demo_drv_def
        bridge_transport_spi_hw_suspend_def spi_close_def
        core_simps arm_request_header_def arm_transfer_def Let_def eval_nat_numeral)
  have l: "HEADER_BYTES \<le> length (replicate 4 (0 :: byte))"
    "CC3501E_FRAME_MAX_BYTES \<le> length (replicate CC3501E_FRAME_MAX_BYTES (0 :: byte))"
    by (simp_all add: HEADER_BYTES_def)
  from spi_reinit_recovers [OF refl q(1,2) demo_drv_ok l] q(3) show ?thesis by metis
qed

text \<open>
  C27: Update mode lasts one boot.  A boot consumes the flag it was started with: its mode stays what
  the flag said through every event, and the next warm boot is in update mode exactly when the last
  flag operation of this one was a request, however often the mode was read.  A warm boot is one whose
  reset keeps the flag's words in memory, which the source expects of a warm reset.
\<close>

theorem update_mode_one_boot:
  assumes "persist_writable D" and "fold (spi_step P D) (Init # es) (spi_boot m mi b s) = t"
  shows "g_polled t = (m = CC3501E_POLLED_BOOT_MAGIC \<and> m = NOT mi)
    \<and> g_polled (bridge_transport_spi_hw_init P D (spi_boot (persist_magic t) (persist_magic_inv t) (persist_boots t) s'))
      = asked False es"
proof -
  let ?t0 = "bridge_transport_spi_hw_init P D (spi_boot m mi b s)"
  from flag_boot [OF assms(1) refl] have b: "flag_is False ?t0" "g_polled ?t0 = (m = CC3501E_POLLED_BOOT_MAGIC \<and> m = NOT mi)"
    by blast+
  from flag_run [OF assms(1) b(1), of es P] assms(2) have t: "flag_is (asked False es) t" "g_polled t = g_polled ?t0" by auto
  have "(persist_magic t = CC3501E_POLLED_BOOT_MAGIC \<and> persist_magic t = NOT (persist_magic_inv t)) = asked False es"
    using t(1) by (auto simp: flag_is_def CC3501E_POLLED_BOOT_MAGIC_def)
  with flag_boot [OF assms(1) refl, of P "persist_magic t" "persist_magic_inv t" "persist_boots t" s'] b(2) t(2)
  show ?thesis by blast
qed

theorem update_mode_one_boot_witness:
  "\<exists>t. fold (spi_step (demo_platform True) demo_drv) [Init, Clear_Polled, Request_Polled, Reinit]
      (demo_boot 0x0A7AB007 (NOT 0x0A7AB007)) = t \<and> g_polled t
    \<and> g_polled (bridge_transport_spi_hw_init (demo_platform True) demo_drv
        (spi_boot (persist_magic t) (persist_magic_inv t) (persist_boots t) (fw_reset (demo_platform True) stub_reset)))"
proof -
  have "persist_writable demo_drv" by (simp add: demo_drv_def)
  from update_mode_one_boot [OF this refl, of "demo_platform True" "[Clear_Polled, Request_Polled, Reinit]"
      "0x0A7AB007" "NOT 0x0A7AB007" 0 "fw_reset (demo_platform True) stub_reset" "fw_reset (demo_platform True) stub_reset"]
  show ?thesis by (simp add: asked_def CC3501E_POLLED_BOOT_MAGIC_def)
qed

end
