(* ===== verification/Ti_Board.thy ===== *)
theory Ti_Board
  imports Spi_Frames Seams
begin

text \<open>
  The board glue of \<^verbatim>\<open>hal/ti/cc3501e_hw_ti.c\<close>: the SPI self-heals the housekeeping tick and the
  connect body run, the deferred reset with its mark in no-init memory, and the one-shot accept of a
  trial image.  A heal brings the slave back from every fault it watches and touches no healthy one;
  a reset waits for the acknowledgement of the request that asked for it.
\<close>

section \<open>State\<close>

record 'h ti_board =
  spi :: "'h ti_spi"
  last_resync :: u32
  last_arm_fail :: u32
  quiet_arm_after_xfer_count :: u32
  quiet_fired_this_call :: bool
  quiet_state :: link_quiet_rearm_state
  g_quiet_rearm_heal_count :: u32

definition CC3501E_LINK_QUIET_REARM_MS :: u32 where "CC3501E_LINK_QUIET_REARM_MS = 3000"

section \<open>Self-heals\<close>

definition bridge_transport_spi_is_dead :: "'h ti_spi \<Rightarrow> bool" where
  "bridge_transport_spi_is_dead t \<longleftrightarrow> g_spi_open_failed t"

definition board_reinit :: "'h platform \<Rightarrow> 'h spi_drv \<Rightarrow> 'h ti_board \<Rightarrow> 'h ti_board" where
  "board_reinit P D b = b\<lparr>spi := fst (bridge_transport_spi_hw_reinit P D (spi b))\<rparr>"

definition board_busy :: "'h platform \<Rightarrow> 'h ti_board \<Rightarrow> 'h ti_board" where
  "board_busy P b = b\<lparr>spi := core_do (bridge_busy (link P)) (spi b)\<rparr>"

text \<open>The count the resync burst is measured from: a re-open in between has zeroed the counter.\<close>

definition resync_base :: "'h ti_board \<Rightarrow> u32" where
  "resync_base b = (if g_resync_count (spi b) < last_resync b then 0 else last_resync b)"

definition heal_dead :: "'h platform \<Rightarrow> 'h spi_drv \<Rightarrow> 'h ti_board \<Rightarrow> 'h ti_board" where
  "heal_dead P D b = (if bridge_transport_spi_is_dead (spi b) then board_reinit P D b else b)"

definition heal_resync :: "'h platform \<Rightarrow> 'h spi_drv \<Rightarrow> 'h ti_board \<Rightarrow> 'h ti_board" where
  "heal_resync P D b =
     (let rc = g_resync_count (spi b)
      in if rc - resync_base b \<ge> 3 then (board_reinit P D b)\<lparr>last_resync := 0\<rparr> else b\<lparr>last_resync := rc\<rparr>)"

definition heal_arm_fail :: "'h platform \<Rightarrow> 'h spi_drv \<Rightarrow> 'h ti_board \<Rightarrow> 'h ti_board" where
  "heal_arm_fail P D b =
     (let af = g_arm_fail_count (spi b)
      in if af \<noteq> last_arm_fail b then (board_reinit P D b)\<lparr>last_arm_fail := af\<rparr> else b)"

definition heal_stall :: "'h platform \<Rightarrow> 'h spi_drv \<Rightarrow> 'h ti_board \<Rightarrow> 'h ti_board" where
  "heal_stall P D b =
     (if bridge_transport_spi_phase_stalled P (spi b) then board_reinit P D (board_busy P b) else b)"

definition heal_quiet :: "'h platform \<Rightarrow> 'h spi_drv \<Rightarrow> bool \<Rightarrow> 'h ti_board \<Rightarrow> 'h ti_board" where
  "heal_quiet P D in_connect_wait b =
     (if \<not> in_connect_wait then b
      else if quiet_fired_this_call b then b
      else if bridge_transport_spi_xfer_count (spi b) = quiet_arm_after_xfer_count b then b
      else case link_quiet_rearm_tick (bridge_transport_spi_at_idle_header (spi b))
                  (bridge_transport_spi_quiet_ms P (spi b)) CC3501E_LINK_QUIET_REARM_MS
                  (bridge_transport_spi_xfer_count (spi b)) (quiet_state b) of
             (q, fire) \<Rightarrow>
               let b1 = b\<lparr>quiet_state := q\<rparr>
               in if fire
                  then (board_reinit P D (board_busy P b1))
                         \<lparr>g_quiet_rearm_heal_count := g_quiet_rearm_heal_count b1 + 1, quiet_fired_this_call := True\<rparr>
                  else b1)"

definition cc3501e_hw_link_heal :: "'h platform \<Rightarrow> 'h spi_drv \<Rightarrow> bool \<Rightarrow> 'h ti_board \<Rightarrow> 'h ti_board" where
  "cc3501e_hw_link_heal P D in_connect_wait b =
     heal_quiet P D in_connect_wait (heal_stall P D (heal_arm_fail P D (heal_resync P D (heal_dead P D b))))"

definition cc3501e_hw_link_heal_begin_connect :: "'h ti_board \<Rightarrow> 'h ti_board" where
  "cc3501e_hw_link_heal_begin_connect b =
     b\<lparr>quiet_arm_after_xfer_count := bridge_transport_spi_xfer_count (spi b), quiet_fired_this_call := False\<rparr>"

definition cc3501e_hw_link_quiet_rearm_count :: "'h ti_board \<Rightarrow> u32" where
  "cc3501e_hw_link_quiet_rearm_count b = g_quiet_rearm_heal_count b"

section \<open>Deferred reset\<close>

text \<open>
  \<open>fires\<close> says whether \<^verbatim>\<open>NVIC_SystemReset\<close> is called, which does not return; the mark is meant to
  survive it (whether it does is a question of the next boot, see \<open>Ti_Log\<close>).
\<close>

record ti_reset =
  reset_pending :: bool
  reply_drained :: bool
  g_host_txn_count :: u32
  mark_magic :: u32
  mark_magic_inv :: u32

definition CC3501E_SOFT_RESET_MAGIC :: u32 where "CC3501E_SOFT_RESET_MAGIC = 0x5253464C"

definition cc3501e_hw_take_soft_reset_mark :: "bool \<Rightarrow> ti_reset \<Rightarrow> ti_reset \<times> bool" where
  "cc3501e_hw_take_soft_reset_mark writable r =
     (if \<not> writable then (r, False)
      else (r\<lparr>mark_magic := 0, mark_magic_inv := 0\<rparr>,
            mark_magic r = CC3501E_SOFT_RESET_MAGIC \<and> mark_magic_inv r = NOT CC3501E_SOFT_RESET_MAGIC))"

definition cc3501e_hw_request_reset :: "bool \<Rightarrow> ti_reset \<Rightarrow> ti_reset" where
  "cc3501e_hw_request_reset writable r =
     (let r1 = r\<lparr>reply_drained := False, reset_pending := True\<rparr>
      in if writable
         then r1\<lparr>mark_magic := CC3501E_SOFT_RESET_MAGIC, mark_magic_inv := NOT CC3501E_SOFT_RESET_MAGIC\<rparr>
         else r1)"

definition cc3501e_hw_notify_reply_sent :: "ti_reset \<Rightarrow> ti_reset" where
  "cc3501e_hw_notify_reply_sent r =
     (let r1 = r\<lparr>reply_drained := True\<rparr>
      in if g_host_txn_count r1 \<noteq> 0xFFFFFFFF then r1\<lparr>g_host_txn_count := g_host_txn_count r1 + 1\<rparr> else r1)"

definition cc3501e_hw_host_txn_count :: "ti_reset \<Rightarrow> u32" where
  "cc3501e_hw_host_txn_count r = g_host_txn_count r"

definition tick_resets :: "ti_reset \<Rightarrow> bool" where
  "tick_resets r \<longleftrightarrow> reset_pending r \<and> reply_drained r"

section \<open>What a re-open leaves\<close>

definition good :: "'h ti_spi \<Rightarrow> bool" where
  "good t \<longleftrightarrow> serving t \<and> spi_inv t \<and> \<not> g_polled t"

definition healed :: "'h ti_spi \<Rightarrow> bool" where
  "healed t \<longleftrightarrow> parked t \<and> spi_handle t \<and> \<not> g_polled t \<and> g_resync_count t = 0 \<and> \<not> g_spi_open_failed t
     \<and> \<not> reply_armed t"

lemma healed_good: "healed t \<Longrightarrow> good t"
  by (simp add: healed_def good_def parked_def)

text \<open>Arming touches none of the counters the heals watch.\<close>

lemma arm_counters:
  assumes "good t" and "drv_accepts D" and "t' = fst (arm_request_header P D t)"
  shows "g_resync_count t' = g_resync_count t" and "g_spi_open_failed t' = g_spi_open_failed t"
    and "reply_armed t' = reply_armed t" and "g_arm_fail_count t' = g_arm_fail_count t"
  using assms by (simp_all add: arm_request_header_def arm_transfer_def good_def serving_def polled_read core_simps drv_accepts_def)

lemma good_close: "good t \<Longrightarrow> good (spi_close D t)"
  using spi_inv_close [of t D] by (simp add: good_def serving_def spi_close_def core_do_eq)

lemma reinit_heals:
  assumes "good t" and "drv_accepts D" and "\<forall>b h. snd (SPI_open D b h)"
  shows "healed (fst (bridge_transport_spi_hw_reinit P D t))"
    and "g_arm_fail_count (fst (bridge_transport_spi_hw_reinit P D t)) = g_arm_fail_count t"
proof -
  let ?c = "spi_close D t"
  let ?t1 = "?c\<lparr>reply_armed := False, sync_idle := replicate HEADER_BYTES (SYNC_IDLE D)\<rparr>"
  have c: "good ?c" by (rule good_close [OF assms(1)])
  then have f: "spi_inv ?c" "g_boot_read ?c" "\<not> g_quiesce ?c" "\<not> g_polled ?c" by (simp_all add: good_def serving_def)
  note o = open_parks [OF f(1-3) assms(2,3), of P]
  have r: "bridge_transport_spi_hw_reinit P D t = spi_open_and_arm P D ?c"
    using assms(1) by (simp add: bridge_transport_spi_hw_reinit_def good_def serving_def polled_read)
  have p: "bridge_transport_spi_polled D ?t1 = (?t1, False)" using f by (simp add: polled_read)
  obtain t3 where k: "core_call (spi_open_attempts D False 0 12) ?t1 = (t3, True)"
    using open_attempts_ok [of D False 0 11] assms(3) by (simp add: core_call_eq eval_nat_numeral)
  have t3: "g_arm_fail_count t3 = g_arm_fail_count t" "\<not> reply_armed t3" "spi_inv t3" "serving t3" "\<not> g_polled t3"
    using k f by (auto simp: core_call_eq spi_close_def core_do_eq spi_inv_def serving_def split: if_splits)
  define u where "u = (let t4 = t3\<lparr>spi_handle := True, g_spi_reopen_count := g_spi_reopen_count t3 + 1\<rparr>;
      t5 = t4\<lparr>g_spi_open_failed := False, g_resync_count := 0,
              core := (core t4)\<lparr>crc := protocol_crc16_table_init (alp_crc16_update P) (crc (core t4))\<rparr>\<rparr>
      in t5\<lparr>g_last_xfer_ms := spi_uptime P t5\<rparr>)"
  have e: "spi_open_and_arm P D ?c = arm_request_header P D u"
    by (simp add: spi_open_and_arm_def p k u_def Let_def)
  have u: "good u" "g_resync_count u = 0" "\<not> g_spi_open_failed u" "\<not> reply_armed u" "g_arm_fail_count u = g_arm_fail_count t"
    using t3 by (simp_all add: u_def Let_def good_def serving_def spi_inv_def)
  note a = arm_counters [OF u(1) assms(2) refl, of P]
  show "healed (fst (bridge_transport_spi_hw_reinit P D t))"
    and "g_arm_fail_count (fst (bridge_transport_spi_hw_reinit P D t)) = g_arm_fail_count t"
    unfolding r using o a u f(4) unfolding e by (simp_all add: healed_def)
qed

section \<open>A slave in service\<close>

text \<open>
  A slave the host can reach: open, outside update mode and quiesce, with a transfer armed.  While
  the driver takes transfers, every completed transfer, whatever its bytes, and every failed one
  leaves another armed, so such a slave stays in service.
\<close>

definition usable :: "'h ti_spi \<Rightarrow> bool" where
  "usable t \<longleftrightarrow> good t \<and> spi_handle t \<and> armed t \<noteq> None"

lemma usable_good: "usable t \<Longrightarrow> good t"
  by (simp add: usable_def)

lemma healed_usable: "healed t \<Longrightarrow> usable t"
  by (auto simp: usable_def healed_good) (auto simp: healed_def parked_def next_xfer_def)

definition arms_from :: "'h ti_spi \<Rightarrow> 'h ti_spi \<Rightarrow> bool" where
  "arms_from t t' \<longleftrightarrow> spi_handle t' = spi_handle t \<and> armed t' \<noteq> None"

definition dma_serving :: "'h ti_spi \<Rightarrow> bool" where
  "dma_serving t \<longleftrightarrow> serving t \<and> \<not> g_polled t"

lemma dma_serving_updates [simp]:
  "dma_serving (t\<lparr>phase := ph\<rparr>) = dma_serving t" "dma_serving (t\<lparr>cur_payload_len := n\<rparr>) = dma_serving t"
  "dma_serving (t\<lparr>g_resync_count := c\<rparr>) = dma_serving t" "dma_serving (core_do f t) = dma_serving t"
  "dma_serving (t\<lparr>armed := x\<rparr>) = dma_serving t"
  by (simp_all add: dma_serving_def serving_def core_do_eq)

lemma arms_from_updates [simp]:
  "arms_from (t\<lparr>phase := ph\<rparr>) t' = arms_from t t'" "arms_from (t\<lparr>cur_payload_len := n\<rparr>) t' = arms_from t t'"
  "arms_from (t\<lparr>g_resync_count := c\<rparr>) t' = arms_from t t'" "arms_from (core_do f t) t' = arms_from t t'"
  "arms_from (t\<lparr>armed := x\<rparr>) t' = arms_from t t'"
  by (simp_all add: arms_from_def core_do_eq)

lemma fifo_reset_handle: "spi_handle (spi_fifo_reset D t) = spi_handle t"
  by (simp add: spi_fifo_reset_def core_simps Let_def)

lemma arm_arms:
  assumes "dma_serving t" and "drv_accepts D"
  shows "arms_from t (fst (arm_transfer P D rx tx n fl t))"
  using assms fifo_reset_handle [of D t]
  by (simp add: arm_transfer_def dma_serving_def serving_def polled_read core_simps drv_accepts_def arms_from_def)

lemma stamped_arms:
  assumes "dma_serving t" and "drv_accepts D"
  shows "arms_from t (arm_stamped P D rx tx n fl t)"
  using arm_arms [OF assms, of P rx tx n fl] by (simp add: arm_stamped_def arms_from_def split_beta)

lemma header_arms:
  assumes "dma_serving t" and "drv_accepts D"
  shows "arms_from t (fst (arm_request_header P D t))"
  using arm_arms [of "t\<lparr>phase := PH_REQ_HEADER\<rparr>" D P] assms by (simp add: arm_request_header_def)

lemma dispatch_serving:
  "dma_serving (dispatch_frame P n t) = dma_serving t" "arms_from (dispatch_frame P n t) t' = arms_from t t'"
  by (simp_all add: dispatch_frame_def dma_serving_def serving_def arms_from_def split: prod.split)

lemma request_header_arms:
  assumes "dma_serving t" and "drv_accepts D"
  shows "arms_from t (on_request_header P D t)"
proof -
  let ?d = "\<lambda>u. (dispatch_frame P HEADER_BYTES u)\<lparr>phase := PH_REPLY_HEADER\<rparr>"
  let ?u = "t\<lparr>cur_payload_len := request_len t\<rparr>"
  have "arms_from t (fst (arm_request_header P D (t\<lparr>g_resync_count := g_resync_count t + 1\<rparr>)))"
    using header_arms [of "t\<lparr>g_resync_count := g_resync_count t + 1\<rparr>" D P] assms by simp
  moreover have "arms_from t (arm_stamped P D rx tx n fl (?d ?u))" for rx tx n fl
    using stamped_arms [of "?d ?u" D P rx tx n fl] assms by (simp add: dispatch_serving)
  moreover have "arms_from t (arm_stamped P D rx tx n fl (?u\<lparr>phase := PH_REQ_PAYLOAD\<rparr>))" for rx tx n fl
    using stamped_arms [of "?u\<lparr>phase := PH_REQ_PAYLOAD\<rparr>" D P rx tx n fl] assms by simp
  ultimately show ?thesis unfolding on_request_header_def Let_def by presburger
qed

lemma on_transfer_arms:
  assumes "dma_serving t" and "drv_accepts D" and "st \<in> {SPI_TRANSFER_COMPLETED, SPI_TRANSFER_OTHER}"
  shows "arms_from t (on_transfer P D (Some st) t)"
proof -
  define u where "u = xfer_note P t"
  have u: "dma_serving u" using assms(1) by (simp add: u_def xfer_note_def dma_serving_def serving_def core_do_eq Let_def)
  have d: "arms_from u (arm_stamped P D rx tx n fl ((dispatch_frame P k u)\<lparr>phase := ph\<rparr>))" for rx tx n fl k ph
    using stamped_arms [of "(dispatch_frame P k u)\<lparr>phase := ph\<rparr>" D P rx tx n fl] u assms(2) by (simp add: dispatch_serving)
  have a: "arms_from u (arm_stamped P D rx tx n fl (u\<lparr>phase := ph\<rparr>))" for rx tx n fl ph
    using stamped_arms [of "u\<lparr>phase := ph\<rparr>" D P rx tx n fl] u assms(2) by simp
  have h: "arms_from u (fst (arm_request_header P D (core_do f u)))" for f
    using header_arms [of "core_do f u" D P] u assms(2) by simp
  have "arms_from u (on_transfer P D (Some st) t)"
    unfolding on_transfer_def Let_def u_def [symmetric]
    using a d h header_arms [OF u assms(2), of P] request_header_arms [OF u assms(2), of P] assms(3)
    by (auto split: spi_phase.split)
  then show ?thesis by (simp add: arms_from_def u_def xfer_note_def core_do_eq Let_def)
qed

section \<open>What a heal does\<close>

text \<open>The four faults the unconditional heals watch.\<close>

definition link_faulty :: "'h platform \<Rightarrow> 'h ti_board \<Rightarrow> bool" where
  "link_faulty P b \<longleftrightarrow> bridge_transport_spi_is_dead (spi b) \<or> g_resync_count (spi b) - resync_base b \<ge> 3
     \<or> g_arm_fail_count (spi b) \<noteq> last_arm_fail b \<or> bridge_transport_spi_phase_stalled P (spi b)"

lemma busy_good: "good (spi b) \<Longrightarrow> good (spi (board_busy P b)) \<and> g_arm_fail_count (spi (board_busy P b)) = g_arm_fail_count (spi b)"
  by (simp add: board_busy_def good_def serving_def spi_inv_def core_do_eq)

lemma board_fields [simp]:
  "last_arm_fail (board_reinit P D b) = last_arm_fail b" "last_arm_fail (board_busy P b) = last_arm_fail b"
  "last_resync (board_reinit P D b) = last_resync b" "last_resync (board_busy P b) = last_resync b"
  by (simp_all add: board_reinit_def board_busy_def)

lemma board_reinit_heals:
  assumes "good (spi b)" and "drv_accepts D" and "\<forall>b h. snd (SPI_open D b h)"
  shows "healed (spi (board_reinit P D b))" and "g_arm_fail_count (spi (board_reinit P D b)) = g_arm_fail_count (spi b)"
  using reinit_heals [OF assms, of P] by (simp_all add: board_reinit_def)

text \<open>A stage leaves the slave alone or heals it; a fault met first heals it.\<close>

definition stage :: "'h ti_board \<Rightarrow> 'h ti_board \<Rightarrow> bool \<Rightarrow> bool" where
  "stage b b' f \<longleftrightarrow> g_arm_fail_count (spi b') = g_arm_fail_count (spi b)
     \<and> (if f then healed (spi b') else spi b' = spi b)"

lemma heal_stages:
  assumes "good (spi b)" and "drv_accepts D" and "\<forall>b h. snd (SPI_open D b h)"
  shows "stage b (heal_dead P D b) (bridge_transport_spi_is_dead (spi b))"
    and "stage b (heal_resync P D b) (g_resync_count (spi b) - resync_base b \<ge> 3)"
    and "stage b (heal_arm_fail P D b) (g_arm_fail_count (spi b) \<noteq> last_arm_fail b)"
    and "stage b (heal_stall P D b) (bridge_transport_spi_phase_stalled P (spi b))"
  using board_reinit_heals [OF assms, of P] board_reinit_heals [OF conjunct1 [OF busy_good [OF assms(1)]] assms(2,3), of P P]
    busy_good [OF assms(1), of P]
  by (simp_all add: stage_def heal_dead_def heal_resync_def heal_arm_fail_def heal_stall_def Let_def)

lemma stage_good: "good (spi b) \<Longrightarrow> stage b b' f \<Longrightarrow> good (spi b')"
  by (auto simp: stage_def healed_good split: if_splits)

lemma heal_last:
  "last_arm_fail (heal_dead P D b) = last_arm_fail b" "last_arm_fail (heal_resync P D b) = last_arm_fail b"
  "last_arm_fail (heal_arm_fail P D b) = g_arm_fail_count (spi b)" "last_arm_fail (heal_stall P D b) = last_arm_fail b"
  "last_resync (heal_dead P D b) = last_resync b"
  by (simp_all add: heal_dead_def heal_resync_def heal_arm_fail_def heal_stall_def Let_def)

lemma healed_clear:
  assumes "healed (spi b)" and "g_arm_fail_count (spi b) = last_arm_fail b"
  shows "\<not> link_faulty P b"
  using assms
  by (simp add: link_faulty_def healed_def bridge_transport_spi_is_dead_def resync_base_def bridge_transport_spi_phase_stalled_def
      word_gt_0)

lemma heal_effect:
  assumes "good (spi b)" and "drv_accepts D" and "\<forall>b h. snd (SPI_open D b h)" and "b' = cc3501e_hw_link_heal P D False b"
  shows "if link_faulty P b then healed (spi b') \<and> \<not> link_faulty P b' else spi b' = spi b"
proof -
  define b1 where "b1 = heal_dead P D b"
  define b2 where "b2 = heal_resync P D b1"
  define b3 where "b3 = heal_arm_fail P D b2"
  have b': "b' = heal_stall P D b3" using assms(4) by (simp add: cc3501e_hw_link_heal_def heal_quiet_def b1_def b2_def b3_def)
  have s1: "stage b b1 (bridge_transport_spi_is_dead (spi b))" unfolding b1_def by (rule heal_stages(1) [OF assms(1-3)])
  note g1 = stage_good [OF assms(1) s1]
  have s2: "stage b1 b2 (g_resync_count (spi b1) - resync_base b1 \<ge> 3)" unfolding b2_def by (rule heal_stages(2) [OF g1 assms(2,3)])
  note g2 = stage_good [OF g1 s2]
  have s3: "stage b2 b3 (g_arm_fail_count (spi b2) \<noteq> last_arm_fail b2)" unfolding b3_def by (rule heal_stages(3) [OF g2 assms(2,3)])
  note g3 = stage_good [OF g2 s3]
  have s4: "stage b3 b' (bridge_transport_spi_phase_stalled P (spi b3))" unfolding b' by (rule heal_stages(4) [OF g3 assms(2,3)])
  have l: "last_resync b1 = last_resync b" "last_arm_fail b2 = last_arm_fail b" "last_arm_fail b' = g_arm_fail_count (spi b2)"
    by (simp_all add: b1_def b2_def b3_def b' heal_last)
  have c: "g_arm_fail_count (spi b') = last_arm_fail b'" using s3 s4 l(3) by (simp add: stage_def)
  have "healed (spi b')" if "link_faulty P b"
    using that s1 s2 s3 s4 l(1,2) by (auto simp: stage_def link_faulty_def resync_base_def split: if_splits)
  moreover have "spi b' = spi b" if "\<not> link_faulty P b"
    using that s1 s2 s3 s4 l(1,2) by (simp add: stage_def link_faulty_def resync_base_def split: if_splits)
  ultimately show ?thesis using healed_clear [OF _ c] by simp
qed

text \<open>
  C13: The housekeeping tick heals the link, and only a broken one.  After any history of the slave
  (outside update mode and quiesce, with a driver that opens and takes transfers), if the slave is
  dead, has re-synced three times or failed to arm since the last tick, or holds a reply nobody
  collects, one tick leaves it open, parked at the request header and free of every such fault, and
  the next tick finds nothing to do; a slave with none of these faults is not touched.
\<close>

theorem link_heal_recovers:
  assumes "spi b = fold (spi_step P D) (Init # es) (spi_boot m mi n s)" and "\<not> g_quiesce (spi b)" and "\<not> g_polled (spi b)"
    and "drv_accepts D" and "\<forall>b h. snd (SPI_open D b h)" and "b' = cc3501e_hw_link_heal P D False b"
  shows "if link_faulty P b
    then parked (spi b') \<and> spi_handle (spi b') \<and> \<not> link_faulty P b' \<and> spi (cc3501e_hw_link_heal P D False b') = spi b'
    else spi b' = spi b"
proof -
  have "g_boot_read (spi b)" using boot_read_run [OF boot_read_init] assms(1) by auto
  moreover have "spi_inv (spi b)" using spi_inv_run [OF spi_inv_boot] assms(1) by metis
  ultimately have g: "good (spi b)" using assms(2,3) by (simp add: good_def serving_def)
  note e = heal_effect [OF g assms(4-6)]
  show ?thesis
  proof (cases "link_faulty P b")
    case True
    then have h: "healed (spi b')" "\<not> link_faulty P b'" using e by simp_all
    from heal_effect [OF healed_good [OF h(1)] assms(4,5) refl, of P] show ?thesis
      using True h by (simp add: healed_def)
  qed (use e in simp)
qed

theorem link_heal_recovers_witness:
  "\<exists>b. spi b = fold (spi_step (demo_platform True) demo_drv) [Init, Release] (demo_boot 0 0)
    \<and> \<not> spi_handle (spi b) \<and> link_faulty (demo_platform True) b
    \<and> parked (spi (cc3501e_hw_link_heal (demo_platform True) demo_drv False b))"
proof -
  let ?t = "fold (spi_step (demo_platform True) demo_drv) [Init, Release] (demo_boot 0 0)"
  define b where "b = \<lparr>spi = ?t, last_resync = 0, last_arm_fail = 1, quiet_arm_after_xfer_count = 0,
    quiet_fired_this_call = False, quiet_state = link_quiet_rearm_init, g_quiet_rearm_heal_count = 0\<rparr>"
  have q: "\<not> g_quiesce (spi b)" "\<not> g_polled (spi b)" "\<not> spi_handle (spi b)" "g_arm_fail_count (spi b) = 0"
    by (simp_all add: b_def bridge_transport_spi_hw_init_def spi_open_and_arm_def bridge_transport_spi_polled_def spi_boot_def
        demo_drv_def bridge_transport_spi_hw_release_def spi_close_def
        core_simps arm_request_header_def arm_transfer_def Let_def eval_nat_numeral)
  have f: "link_faulty (demo_platform True) b" using q(4) by (simp add: link_faulty_def b_def)
  have e: "spi b = ?t" by (simp add: b_def)
  from link_heal_recovers [OF e q(1,2) demo_drv_ok(1,2) refl] e q(3) f show ?thesis by auto
qed

section \<open>What a reset waits for\<close>

text \<open>
  The writers of the two flags: the reset request, the promote of an update (which waits for its own
  acknowledgement on the same flag), and the end of a reply.
\<close>

datatype reset_event = Request_Reset | Promote | Reply_Sent

fun reset_step :: "bool \<Rightarrow> reset_event \<Rightarrow> ti_reset \<Rightarrow> ti_reset" where
  "reset_step w Request_Reset r = cc3501e_hw_request_reset w r"
| "reset_step w Promote r = r\<lparr>reply_drained := False\<rparr>"
| "reset_step w Reply_Sent r = cc3501e_hw_notify_reply_sent r"

definition reset_boot :: "u32 \<Rightarrow> u32 \<Rightarrow> ti_reset" where
  "reset_boot m mi = \<lparr>reset_pending = False, reply_drained = False, g_host_txn_count = 0, mark_magic = m, mark_magic_inv = mi\<rparr>"

lemma reset_fields:
  "reset_pending (reset_step w e r) = (e = Request_Reset \<or> reset_pending r)"
  "reply_drained (reset_step w e r) = (e = Reply_Sent)"
  by (cases e; simp add: cc3501e_hw_request_reset_def cc3501e_hw_notify_reply_sent_def Let_def)+

lemma reset_run:
  "reset_pending (fold (reset_step w) es r) = (Request_Reset \<in> set es \<or> reset_pending r)"
  "reply_drained (fold (reset_step w) (es @ [e]) r) = (e = Reply_Sent)"
  by (induction es arbitrary: r) (auto simp: reset_fields)

lemma mark_step:
  "mark_magic (reset_step w e r) = (if w \<and> e = Request_Reset then CC3501E_SOFT_RESET_MAGIC else mark_magic r)"
  "mark_magic_inv (reset_step w e r) = (if w \<and> e = Request_Reset then NOT CC3501E_SOFT_RESET_MAGIC else mark_magic_inv r)"
  by (cases e; simp add: cc3501e_hw_request_reset_def cc3501e_hw_notify_reply_sent_def Let_def)+

lemma mark_run:
  "mark_magic (fold (reset_step w) es r) = (if w \<and> Request_Reset \<in> set es then CC3501E_SOFT_RESET_MAGIC else mark_magic r)"
  "mark_magic_inv (fold (reset_step w) es r) =
     (if w \<and> Request_Reset \<in> set es then NOT CC3501E_SOFT_RESET_MAGIC else mark_magic_inv r)"
  by (induction es arbitrary: r) (auto simp: mark_step)

lemma saturating_inc:
  "unat (if c \<noteq> 0xFFFFFFFF then c + 1 else c) = min (2 ^ 32 - 1) (unat c + 1)" for c :: u32
proof -
  have m: "(0xFFFFFFFF :: u32) = - 1" by simp
  show ?thesis
  proof (cases "c = - 1")
    case True
    have "unat (0xFFFFFFFF :: u32) = 2 ^ 32 - 1" by simp
    then show ?thesis using True m by simp
  next
    case False
    have "1 + c \<noteq> 0" using False by (simp add: add_eq_0_iff)
    from unatSuc [OF this] have "unat (c + 1) = unat c + 1" by (simp add: add.commute)
    moreover have "unat (c + 1) < 2 ^ 32" using unsigned_less [of "c + 1", where 'a = nat] by simp
    moreover have "c \<noteq> 0xFFFFFFFF" using False m by metis
    ultimately show ?thesis by simp
  qed
qed

lemma txn_step:
  "unat (g_host_txn_count (reset_step w e r)) = min (2 ^ 32 - 1) (unat (g_host_txn_count r) + (if e = Reply_Sent then 1 else 0))"
proof (cases e)
  case Reply_Sent
  have "g_host_txn_count (reset_step w e r) = (if g_host_txn_count r \<noteq> 0xFFFFFFFF then g_host_txn_count r + 1 else g_host_txn_count r)"
    by (simp add: Reply_Sent cc3501e_hw_notify_reply_sent_def Let_def)
  then show ?thesis using saturating_inc [of "g_host_txn_count r"] by (simp only: Reply_Sent if_True simp_thms)
qed (use unsigned_less [of "g_host_txn_count r", where 'a = nat] in \<open>simp_all add: cc3501e_hw_request_reset_def Let_def\<close>)

lemma txn_run:
  "unat (g_host_txn_count (fold (reset_step w) es r)) =
     min (2 ^ 32 - 1) (unat (g_host_txn_count r) + length (filter ((=) Reply_Sent) es))"
proof (induction es arbitrary: r)
  case Nil
  then show ?case using unsigned_less [of "g_host_txn_count r", where 'a = nat] by simp
next
  case (Cons e es)
  show ?case unfolding fold.simps comp_apply Cons.IH txn_step by auto
qed

text \<open>
  A reset waits for its acknowledgement.  Over any sequence of reset requests, promotes and
  sent replies, the tick resets the chip exactly when a reset was requested and the last of these
  events is a sent reply; the count of sent replies saturates instead of wrapping; and the mark left
  for the next boot is read as a software reset once, exactly when one was requested and the mark is
  in writable memory, whatever that memory held before.
\<close>

theorem reset_waits_for_ack:
  fixes w m mi es
  defines "r \<equiv> fold (reset_step w) es (fst (cc3501e_hw_take_soft_reset_mark w (reset_boot m mi)))"
  shows "(tick_resets r \<longleftrightarrow> Request_Reset \<in> set es \<and> last es = Reply_Sent)
    \<and> unat (cc3501e_hw_host_txn_count r) = min (2 ^ 32 - 1) (length (filter ((=) Reply_Sent) es))
    \<and> (\<exists>r1 r2. cc3501e_hw_take_soft_reset_mark w (reset_boot (mark_magic r) (mark_magic_inv r))
          = (r1, w \<and> Request_Reset \<in> set es)
        \<and> cc3501e_hw_take_soft_reset_mark w r1 = (r2, False))"
proof -
  let ?b = "fst (cc3501e_hw_take_soft_reset_mark w (reset_boot m mi))"
  have b: "\<not> reset_pending ?b" "g_host_txn_count ?b = 0" "w \<Longrightarrow> mark_magic ?b = 0"
    by (simp_all add: cc3501e_hw_take_soft_reset_mark_def reset_boot_def)
  have d: "reply_drained r = (last es = Reply_Sent)" if "Request_Reset \<in> set es"
    using that reset_run(2) [of w "butlast es" "last es" ?b] by (cases es rule: rev_cases) (auto simp: r_def)
  have "tick_resets r \<longleftrightarrow> Request_Reset \<in> set es \<and> last es = Reply_Sent"
    using d b(1) by (auto simp: tick_resets_def r_def reset_run(1))
  moreover have "unat (cc3501e_hw_host_txn_count r) = min (2 ^ 32 - 1) (length (filter ((=) Reply_Sent) es))"
    unfolding cc3501e_hw_host_txn_count_def r_def txn_run by (simp add: b(2))
  moreover have "cc3501e_hw_take_soft_reset_mark w (reset_boot (mark_magic r) (mark_magic_inv r))
      = (fst (cc3501e_hw_take_soft_reset_mark w (reset_boot (mark_magic r) (mark_magic_inv r))), w \<and> Request_Reset \<in> set es)"
    using b(3) by (simp add: cc3501e_hw_take_soft_reset_mark_def reset_boot_def r_def mark_run CC3501E_SOFT_RESET_MAGIC_def)
  moreover have "\<not> snd (cc3501e_hw_take_soft_reset_mark w (fst (cc3501e_hw_take_soft_reset_mark w q)))" for q
    by (simp add: cc3501e_hw_take_soft_reset_mark_def CC3501E_SOFT_RESET_MAGIC_def)
  ultimately show ?thesis by (intro conjI exI) (auto intro: prod_eqI)
qed

end
