(* ===== verification/Ti_Power.thy ===== *)
theory Ti_Power
  imports Hal
begin

text \<open>
  The power policy of \<^verbatim>\<open>hal/ti/cc3501e_hw_ti_power.c\<close>.  The dispatcher only latches a policy; the
  housekeeping task applies it to the core through reference-counted constraints and to the radio
  through the WLAN settings, the latter only while the station role is up.  The radio's role and the
  station flag belong to the Wi-Fi driver and are arguments here.
\<close>

section \<open>State\<close>

datatype wlan_ps = WLAN_STATION_ACTIVE_MODE | WLAN_STATION_AUTO_PS_MODE | WLAN_STATION_POWER_SAVE_MODE

datatype wlan_pm = POWER_MANAGEMENT_ALWAYS_ACTIVE_MODE | POWER_MANAGEMENT_ELP_MODE

datatype wlan_wake = WAKE_UP_EVENT_DTIM | WAKE_UP_EVENT_N_DTIM

datatype wlan_setting = WLAN_SET_POWER_SAVE wlan_ps | WLAN_SET_POWER_MANAGEMENT wlan_pm
  | WLAN_SET_LSI wlan_wake byte | WLAN_SET_STA_WIFI_BAND

text \<open>The numbers of the wire protocol and the vendor's power and WLAN calls.\<close>

record 'h pwr_env =
  PP_PERFORMANCE :: byte
  PP_BALANCED :: byte
  PP_LOW_POWER :: byte
  PP_DEEP_SLEEP :: byte
  WAKE_NONE :: byte
  DISALLOW_SLEEP :: nat
  DISALLOW_IDLE :: nat
  Power_setConstraint :: "nat \<Rightarrow> 'h \<Rightarrow> 'h"
  Power_releaseConstraint :: "nat \<Rightarrow> 'h \<Rightarrow> 'h"
  Power_enablePolicy :: "'h \<Rightarrow> 'h"
  Wlan_Set :: "wlan_setting \<Rightarrow> 'h \<Rightarrow> 'h \<times> int"

record ti_power =
  pp_constraints_held :: byte
  pp_policy_latched :: byte
  pp_idle_ms_latched :: u32
  pp_host_set_policy :: bool
  pp_radio_dirty :: bool
  pp_core_dirty :: bool
  pp_radio_ok :: bool
  policy_enabled :: bool

section \<open>The core\<close>

definition pp_hold_constraint :: "'h pwr_env \<Rightarrow> nat \<Rightarrow> ti_power \<times> 'h \<Rightarrow> ti_power \<times> 'h" where
  "pp_hold_constraint E cid = (\<lambda>(p, h).
     if and (pp_constraints_held p) (push_bit cid 1) = 0
     then (p\<lparr>pp_constraints_held := or (pp_constraints_held p) (push_bit cid 1)\<rparr>, Power_setConstraint E cid h)
     else (p, h))"

definition pp_release_constraint :: "'h pwr_env \<Rightarrow> nat \<Rightarrow> ti_power \<times> 'h \<Rightarrow> ti_power \<times> 'h" where
  "pp_release_constraint E cid = (\<lambda>(p, h).
     if and (pp_constraints_held p) (push_bit cid 1) \<noteq> 0
     then (p\<lparr>pp_constraints_held := and (pp_constraints_held p) (NOT (push_bit cid 1))\<rparr>, Power_releaseConstraint E cid h)
     else (p, h))"

definition pp_apply_core :: "'h pwr_env \<Rightarrow> byte \<Rightarrow> ti_power \<times> 'h \<Rightarrow> ti_power \<times> 'h" where
  "pp_apply_core E policy = (\<lambda>(p, h).
     let s = (if \<not> policy_enabled p then (p\<lparr>policy_enabled := True\<rparr>, Power_enablePolicy E h) else (p, h))
     in if policy = PP_PERFORMANCE E then pp_hold_constraint E (DISALLOW_IDLE E) (pp_hold_constraint E (DISALLOW_SLEEP E) s)
        else if policy = PP_BALANCED E \<or> policy = PP_LOW_POWER E \<or> policy = PP_DEEP_SLEEP E
        then pp_release_constraint E (DISALLOW_IDLE E) (pp_hold_constraint E (DISALLOW_SLEEP E) s)
        else s)"

section \<open>The radio\<close>

definition pp_idle_ms_to_dtims :: "u32 \<Rightarrow> byte" where
  "pp_idle_ms_to_dtims idle_ms =
     (let dtims = idle_ms div 100; d1 = (if dtims < 2 then 2 else dtims)
      in ucast (if d1 > 255 then 255 else d1))"

text \<open>The three settings a policy stands for; \<open>None\<close> for a policy the switch does not know.\<close>

definition pp_radio_modes :: "'h pwr_env \<Rightarrow> byte \<Rightarrow> (wlan_ps \<times> wlan_pm \<times> bool) option" where
  "pp_radio_modes E policy =
     (if policy = PP_PERFORMANCE E then Some (WLAN_STATION_ACTIVE_MODE, POWER_MANAGEMENT_ALWAYS_ACTIVE_MODE, False)
      else if policy = PP_BALANCED E then Some (WLAN_STATION_AUTO_PS_MODE, POWER_MANAGEMENT_ELP_MODE, False)
      else if policy = PP_LOW_POWER E then Some (WLAN_STATION_POWER_SAVE_MODE, POWER_MANAGEMENT_ELP_MODE, False)
      else if policy = PP_DEEP_SLEEP E then Some (WLAN_STATION_POWER_SAVE_MODE, POWER_MANAGEMENT_ELP_MODE, True)
      else None)"

definition pp_apply_radio :: "'h pwr_env \<Rightarrow> bool \<Rightarrow> byte \<Rightarrow> u32 \<Rightarrow> 'h \<Rightarrow> 'h \<times> bool" where
  "pp_apply_radio E ap_up policy idle_ms h =
     (case pp_radio_modes E policy of
        None \<Rightarrow> (h, False)
      | Some (ps, pm, want_lsi) \<Rightarrow>
          let overridden = (ap_up \<and> pm \<noteq> POWER_MANAGEMENT_ALWAYS_ACTIVE_MODE);
              pm1 = (if overridden then POWER_MANAGEMENT_ALWAYS_ACTIVE_MODE else pm)
          in case Wlan_Set E (WLAN_SET_POWER_SAVE ps) h of (h1, r1) \<Rightarrow>
             case Wlan_Set E (WLAN_SET_POWER_MANAGEMENT pm1) h1 of (h2, r2) \<Rightarrow>
               let ok = (r2 \<ge> 0 \<and> r1 \<ge> 0)
               in if want_lsi \<or> policy = PP_LOW_POWER E
                  then case Wlan_Set E (WLAN_SET_LSI (if want_lsi then WAKE_UP_EVENT_N_DTIM else WAKE_UP_EVENT_DTIM)
                              (if want_lsi then pp_idle_ms_to_dtims idle_ms else 1)) h2 of
                         (h3, r3) \<Rightarrow> (h3, r3 \<ge> 0 \<and> ok \<and> \<not> overridden)
                  else (h2, ok \<and> \<not> overridden))"

definition pp_apply_radio_effective :: "'h pwr_env \<Rightarrow> bool \<Rightarrow> bool \<Rightarrow> ti_power \<times> 'h \<Rightarrow> ti_power \<times> 'h" where
  "pp_apply_radio_effective E ap_up sta_up = (\<lambda>(p, h).
     if \<not> sta_up then (p\<lparr>pp_radio_ok := True\<rparr>, h)
     else let eff = (if pp_host_set_policy p then pp_policy_latched p else PP_PERFORMANCE E)
          in case pp_apply_radio E ap_up eff (pp_idle_ms_latched p) h of (h1, ok) \<Rightarrow> (p\<lparr>pp_radio_ok := ok\<rparr>, h1))"

definition cc3501e_hw_power_apply_radio_now :: "'h pwr_env \<Rightarrow> bool \<Rightarrow> bool \<Rightarrow> ti_power \<times> 'h \<Rightarrow> ti_power \<times> 'h" where
  "cc3501e_hw_power_apply_radio_now E ap_up sta_up = pp_apply_radio_effective E ap_up sta_up"

section \<open>Latching and applying\<close>

definition cc3501e_hw_power_service :: "'h pwr_env \<Rightarrow> bool \<Rightarrow> bool \<Rightarrow> ti_power \<times> 'h \<Rightarrow> ti_power \<times> 'h" where
  "cc3501e_hw_power_service E ap_up sta_up = (\<lambda>(p, h).
     if \<not> pp_radio_dirty p \<and> \<not> pp_core_dirty p then (p, h)
     else let p1 = p\<lparr>pp_radio_dirty := False, pp_core_dirty := False\<rparr>;
              s = (if pp_core_dirty p then pp_apply_core E (pp_policy_latched p1) (p1, h) else (p1, h))
          in if \<not> pp_radio_dirty p then s else pp_apply_radio_effective E ap_up sta_up s)"

definition cc3501e_hw_power_radio_ok :: "ti_power \<Rightarrow> bool" where
  "cc3501e_hw_power_radio_ok p = pp_radio_ok p"

definition cc3501e_hw_set_power_policy :: "'h pwr_env \<Rightarrow> byte \<Rightarrow> byte \<Rightarrow> u32 \<Rightarrow> ti_power \<Rightarrow> ti_power \<times> int" where
  "cc3501e_hw_set_power_policy E policy wake_events idle_ms p =
     (if wake_events = WAKE_NONE E \<and> (policy = PP_LOW_POWER E \<or> policy = PP_DEEP_SLEEP E) then (p, CC3501E_HW_ERR_INVAL)
      else (p\<lparr>pp_policy_latched := policy, pp_host_set_policy := True, pp_idle_ms_latched := idle_ms,
              pp_core_dirty := True, pp_radio_dirty := True\<rparr>, CC3501E_HW_OK))"

definition power_reset :: "'h pwr_env \<Rightarrow> ti_power" where
  "power_reset E = \<lparr>pp_constraints_held = 0, pp_policy_latched = PP_BALANCED E, pp_idle_ms_latched = 0,
     pp_host_set_policy = False, pp_radio_dirty = False, pp_core_dirty = False, pp_radio_ok = True, policy_enabled = False\<rparr>"

section \<open>Runs\<close>

datatype power_op = Set_Policy byte byte u32 | Service bool bool | Apply_Radio bool bool

fun power_step :: "'h pwr_env \<Rightarrow> power_op \<Rightarrow> ti_power \<times> 'h \<Rightarrow> ti_power \<times> 'h" where
  "power_step E (Set_Policy pol wake idle) (p, h) = (fst (cc3501e_hw_set_power_policy E pol wake idle p), h)"
| "power_step E (Service ap sta) (p, h) = cc3501e_hw_power_service E ap sta (p, h)"
| "power_step E (Apply_Radio ap sta) (p, h) = cc3501e_hw_power_apply_radio_now E ap sta (p, h)"

text \<open>The vendor's reference counts, per constraint.\<close>

definition counting :: "(nat \<Rightarrow> int) pwr_env \<Rightarrow> (nat \<Rightarrow> int) pwr_env" where
  "counting E = E\<lparr>Power_setConstraint := (\<lambda>cid h. h(cid := h cid + 1)),
     Power_releaseConstraint := (\<lambda>cid h. h(cid := h cid - 1)), Power_enablePolicy := (\<lambda>h. h),
     Wlan_Set := (\<lambda>s h. (h, snd (Wlan_Set E s h)))\<rparr>"

text \<open>The abstract machine: the policy waiting to be applied, and the one last applied.\<close>

record power_spec =
  latched :: byte
  waiting :: bool
  applied :: "byte option"

definition known_policy :: "'h pwr_env \<Rightarrow> byte \<Rightarrow> bool" where
  "known_policy E pol \<longleftrightarrow> pol \<in> {PP_PERFORMANCE E, PP_BALANCED E, PP_LOW_POWER E, PP_DEEP_SLEEP E}"

fun spec_step :: "'h pwr_env \<Rightarrow> power_op \<Rightarrow> power_spec \<Rightarrow> power_spec" where
  "spec_step E (Set_Policy pol wake idle) a =
     (if wake = WAKE_NONE E \<and> (pol = PP_LOW_POWER E \<or> pol = PP_DEEP_SLEEP E) then a else a\<lparr>latched := pol, waiting := True\<rparr>)"
| "spec_step E (Service ap sta) a =
     (if waiting a then a\<lparr>waiting := False, applied := (if known_policy E (latched a) then Some (latched a) else applied a)\<rparr> else a)"
| "spec_step E (Apply_Radio ap sta) a = a"

definition power_refines :: "'h pwr_env \<Rightarrow> ti_power \<times> (nat \<Rightarrow> int) \<Rightarrow> power_spec \<Rightarrow> bool" where
  "power_refines E = (\<lambda>(p, h) a.
     pp_policy_latched p = latched a \<and> pp_core_dirty p = waiting a \<and> pp_radio_dirty p = waiting a
     \<and> (\<forall>cid. h cid = (if bit (pp_constraints_held p) cid then 1 else 0))
     \<and> bit (pp_constraints_held p) (DISALLOW_SLEEP E) = (applied a \<noteq> None)
     \<and> bit (pp_constraints_held p) (DISALLOW_IDLE E) = (applied a = Some (PP_PERFORMANCE E)))"

lemma counting_sel [simp]:
  "PP_PERFORMANCE (counting E) = PP_PERFORMANCE E" "PP_BALANCED (counting E) = PP_BALANCED E"
  "PP_LOW_POWER (counting E) = PP_LOW_POWER E" "PP_DEEP_SLEEP (counting E) = PP_DEEP_SLEEP E"
  "WAKE_NONE (counting E) = WAKE_NONE E" "DISALLOW_SLEEP (counting E) = DISALLOW_SLEEP E"
  "DISALLOW_IDLE (counting E) = DISALLOW_IDLE E" "known_policy (counting E) = known_policy E"
  "Power_enablePolicy (counting E) h = h"
  by (simp_all add: counting_def known_policy_def fun_eq_iff)

lemma radio_keeps:
  "pp_apply_radio_effective (counting E) ap sta (p, h) = (p', h') \<Longrightarrow>
     h' = h \<and> pp_policy_latched p' = pp_policy_latched p \<and> pp_core_dirty p' = pp_core_dirty p
     \<and> pp_radio_dirty p' = pp_radio_dirty p \<and> pp_constraints_held p' = pp_constraints_held p"
  by (auto simp: pp_apply_radio_effective_def pp_apply_radio_def Let_def counting_def
      split: if_splits option.splits prod.splits)

definition counts_held :: "ti_power \<times> (nat \<Rightarrow> int) \<Rightarrow> bool" where
  "counts_held = (\<lambda>(p, h). \<forall>cid. h cid = (if bit (pp_constraints_held p) cid then 1 else 0))"

lemma mask_test: "and w (2 ^ n) = 0 \<longleftrightarrow> \<not> bit w n" for w :: byte
  by (simp add: and_exp_eq_0_iff_not_bit)

lemma bit_mask: "bit (2 ^ n :: byte) m \<longleftrightarrow> m = n \<and> n < 8"
  by (auto simp: bit_exp_iff possible_bit_word)

lemma constraint_steps:
  assumes "counts_held (p, h)" and "cid < 8"
  shows "\<exists>p' h'. pp_hold_constraint (counting E) cid (p, h) = (p', h') \<and> counts_held (p', h')
      \<and> p' = p\<lparr>pp_constraints_held := pp_constraints_held p'\<rparr>
      \<and> (\<forall>n. bit (pp_constraints_held p') n = (bit (pp_constraints_held p) n \<or> n = cid))"
    and "\<exists>p' h'. pp_release_constraint (counting E) cid (p, h) = (p', h') \<and> counts_held (p', h')
      \<and> p' = p\<lparr>pp_constraints_held := pp_constraints_held p'\<rparr>
      \<and> (\<forall>n. bit (pp_constraints_held p') n = (bit (pp_constraints_held p) n \<and> n \<noteq> cid))"
  using assms
  by (auto simp: pp_hold_constraint_def pp_release_constraint_def mask_test counts_held_def counting_def bit_or_iff
      bit_and_iff bit_not_iff bit_mask possible_bit_word dest: bit_imp_le_length)

lemma core_applies:
  assumes "counts_held (p, h)" and "DISALLOW_SLEEP E < 8" and "DISALLOW_IDLE E < 8" and "DISALLOW_SLEEP E \<noteq> DISALLOW_IDLE E"
    and "known_policy E pol"
  shows "\<exists>p' h'. pp_apply_core (counting E) pol (p, h) = (p', h') \<and> counts_held (p', h')
    \<and> pp_policy_latched p' = pp_policy_latched p \<and> pp_core_dirty p' = pp_core_dirty p \<and> pp_radio_dirty p' = pp_radio_dirty p
    \<and> bit (pp_constraints_held p') (DISALLOW_SLEEP E) \<and> bit (pp_constraints_held p') (DISALLOW_IDLE E) = (pol = PP_PERFORMANCE E)"
proof -
  define q where "q = (if \<not> policy_enabled p then p\<lparr>policy_enabled := True\<rparr> else p)"
  have q: "pp_policy_latched q = pp_policy_latched p" "pp_core_dirty q = pp_core_dirty p" "pp_radio_dirty q = pp_radio_dirty p"
    "counts_held (q, h)" using assms(1) by (simp_all add: q_def counts_held_def)
  obtain p1 h1 where s1: "pp_hold_constraint (counting E) (DISALLOW_SLEEP E) (q, h) = (p1, h1)" "counts_held (p1, h1)"
    "p1 = q\<lparr>pp_constraints_held := pp_constraints_held p1\<rparr>" "bit (pp_constraints_held p1) (DISALLOW_SLEEP E)"
    using constraint_steps(1) [OF q(4) assms(2), of E] by blast
  obtain p2 h2 where s2: "pp_hold_constraint (counting E) (DISALLOW_IDLE E) (p1, h1) = (p2, h2)" "counts_held (p2, h2)"
    "p2 = p1\<lparr>pp_constraints_held := pp_constraints_held p2\<rparr>"
    "\<forall>n. bit (pp_constraints_held p2) n = (bit (pp_constraints_held p1) n \<or> n = DISALLOW_IDLE E)"
    using constraint_steps(1) [OF s1(2) assms(3), of E] by blast
  obtain p3 h3 where s3: "pp_release_constraint (counting E) (DISALLOW_IDLE E) (p1, h1) = (p3, h3)" "counts_held (p3, h3)"
    "p3 = p1\<lparr>pp_constraints_held := pp_constraints_held p3\<rparr>"
    "\<forall>n. bit (pp_constraints_held p3) n = (bit (pp_constraints_held p1) n \<and> n \<noteq> DISALLOW_IDLE E)"
    using constraint_steps(2) [OF s1(2) assms(3), of E] by blast
  have f1: "pp_policy_latched p1 = pp_policy_latched p" "pp_core_dirty p1 = pp_core_dirty p" "pp_radio_dirty p1 = pp_radio_dirty p"
    by (subst s1(3), simp add: q)+
  have f2: "pp_policy_latched p2 = pp_policy_latched p" "pp_core_dirty p2 = pp_core_dirty p" "pp_radio_dirty p2 = pp_radio_dirty p"
    by (subst s2(3), simp add: f1)+
  have f3: "pp_policy_latched p3 = pp_policy_latched p" "pp_core_dirty p3 = pp_core_dirty p" "pp_radio_dirty p3 = pp_radio_dirty p"
    by (subst s3(3), simp add: f1)+
  have e: "(if \<not> policy_enabled p then (p\<lparr>policy_enabled := True\<rparr>, h) else (p, h)) = (q, h)" by (simp add: q_def)
  have "pp_apply_core (counting E) pol (p, h) = (if pol = PP_PERFORMANCE E then (p2, h2) else (p3, h3))"
    using assms(5) unfolding pp_apply_core_def prod.case counting_sel e Let_def s1(1) s2(1) s3(1) known_policy_def
    by simp blast
  then show ?thesis using s1(4) s2(2,4) s3(2,4) f2 f3 assms(4) by (cases "pol = PP_PERFORMANCE E") auto
qed

lemma core_unknown:
  "\<not> known_policy E pol \<Longrightarrow> pp_apply_core (counting E) pol (p, h)
     = (if \<not> policy_enabled p then p\<lparr>policy_enabled := True\<rparr> else p, h)"
  by (simp add: pp_apply_core_def known_policy_def counting_def Let_def)

lemma refines_step:
  assumes "power_refines E (p, h) a" and "DISALLOW_SLEEP E < 8" and "DISALLOW_IDLE E < 8" and "DISALLOW_SLEEP E \<noteq> DISALLOW_IDLE E"
  shows "power_refines E (power_step (counting E) e (p, h)) (spec_step E e a)"
proof (cases e)
  case (Set_Policy pol wake idle)
  then show ?thesis using assms(1) by (auto simp: cc3501e_hw_set_power_policy_def power_refines_def)
next
  case (Apply_Radio ap sta)
  obtain p' h' where r: "pp_apply_radio_effective (counting E) ap sta (p, h) = (p', h')" by fastforce
  from radio_keeps [OF r] show ?thesis
    using assms(1) Apply_Radio r by (simp add: cc3501e_hw_power_apply_radio_now_def power_refines_def)
next
  case (Service ap sta)
  show ?thesis
  proof (cases "waiting a")
    case False
    then show ?thesis using Service assms(1) by (simp add: cc3501e_hw_power_service_def power_refines_def)
  next
    case True
    let ?p = "p\<lparr>pp_radio_dirty := False, pp_core_dirty := False\<rparr>"
    have d: "pp_radio_dirty p" "pp_core_dirty p" "pp_policy_latched p = latched a" using True assms(1) by (simp_all add: power_refines_def)
    have c: "counts_held (?p, h)" using assms(1) by (simp add: power_refines_def counts_held_def)
    obtain p1 h1 where k: "pp_apply_core (counting E) (latched a) (?p, h) = (p1, h1)" by fastforce
    obtain p2 h2 where r: "pp_apply_radio_effective (counting E) ap sta (p1, h1) = (p2, h2)" by fastforce
    have e: "power_step (counting E) e (p, h) = (p2, h2)" using Service d k r by (simp add: cc3501e_hw_power_service_def Let_def)
    show ?thesis
    proof (cases "known_policy E (latched a)")
      case True
      then show ?thesis using core_applies [OF c assms(2-4) True] k radio_keeps [OF r] d \<open>waiting a\<close> Service
        unfolding e by (auto simp: power_refines_def counts_held_def)
    next
      case False
      then show ?thesis using core_unknown [OF False, of ?p h] k radio_keeps [OF r] assms(1) d \<open>waiting a\<close> Service
        unfolding e by (auto simp: power_refines_def split: if_splits)
    qed
  qed
qed

definition spec_reset :: "'h pwr_env \<Rightarrow> power_spec" where
  "spec_reset E = \<lparr>latched = PP_BALANCED E, waiting = False, applied = None\<rparr>"

lemma refines_run:
  assumes "DISALLOW_SLEEP E < 8" and "DISALLOW_IDLE E < 8" and "DISALLOW_SLEEP E \<noteq> DISALLOW_IDLE E"
  shows "power_refines E s a \<Longrightarrow> power_refines E (fold (power_step (counting E)) ops s) (fold (spec_step E) ops a)"
proof (induction ops arbitrary: s a)
  case (Cons e ops)
  obtain p h where "s = (p, h)" by fastforce
  with Cons refines_step [OF _ assms, of p h a e] show ?case by simp
qed simp

section \<open>Properties\<close>

text \<open>
  C36: The power policy is applied once and never lets the chip sleep.  Over any sequence of policy
  requests, services and radio applies, the vendor's reference count of each constraint is 0 or 1 and
  follows an abstract machine that holds the last accepted policy until a service applies it: SLEEP
  is disallowed from the first applied policy on, whatever is requested later, and IDLE exactly
  while the last applied policy is PERFORMANCE.
\<close>

theorem power_constraints_refine:
  assumes "DISALLOW_SLEEP E < 8" and "DISALLOW_IDLE E < 8" and "DISALLOW_SLEEP E \<noteq> DISALLOW_IDLE E"
    and "fold (power_step (counting E)) ops (power_reset E, \<lambda>cid. 0) = (p, h)" and "fold (spec_step E) ops (spec_reset E) = a"
  shows "h (DISALLOW_SLEEP E) = (if applied a = None then 0 else 1)
    \<and> h (DISALLOW_IDLE E) = (if applied a = Some (PP_PERFORMANCE E) then 1 else 0)
    \<and> (\<forall>cid. h cid \<in> {0, 1}) \<and> pp_policy_latched p = latched a"
proof -
  have "power_refines E (power_reset E, \<lambda>cid. 0) (spec_reset E)"
    by (simp add: power_refines_def power_reset_def spec_reset_def)
  from refines_run [OF assms(1-3) this, of ops] show ?thesis
    unfolding assms(4,5) by (auto simp: power_refines_def)
qed

definition demo_power :: "(nat \<Rightarrow> int) pwr_env" where
  "demo_power = \<lparr>PP_PERFORMANCE = 0, PP_BALANCED = 1, PP_LOW_POWER = 2, PP_DEEP_SLEEP = 3, WAKE_NONE = 0,
     DISALLOW_SLEEP = 0, DISALLOW_IDLE = 1, Power_setConstraint = (\<lambda>cid h. h), Power_releaseConstraint = (\<lambda>cid h. h),
     Power_enablePolicy = (\<lambda>h. h), Wlan_Set = (\<lambda>s h. (h, 0))\<rparr>"

theorem power_constraints_refine_witness:
  "\<exists>p h. fold (power_step (counting demo_power)) [Set_Policy 0 0 0, Service False True, Set_Policy 3 1 500, Service False True]
      (power_reset demo_power, \<lambda>cid. 0) = (p, h) \<and> h 0 = 1 \<and> h 1 = 0"
proof -
  let ?ops = "[Set_Policy 0 0 0, Service False True, Set_Policy 3 1 500, Service False True]"
  obtain p h where r: "fold (power_step (counting demo_power)) ?ops (power_reset demo_power, \<lambda>cid. 0) = (p, h)" by fastforce
  have d: "DISALLOW_SLEEP demo_power = 0" "DISALLOW_IDLE demo_power = 1" by (simp_all add: demo_power_def)
  have "fold (spec_step demo_power) ?ops (spec_reset demo_power) = \<lparr>latched = 3, waiting = False, applied = Some 3\<rparr>"
    by (simp add: demo_power_def spec_reset_def known_policy_def)
  from power_constraints_refine [OF _ _ _ r this] show ?thesis using r d by (simp add: demo_power_def) 
qed

end
