(* ===== verification/Ti_Wifi.thy ===== *)
theory Ti_Wifi
  imports Ti_Board Ti_Power
begin

text \<open>
  The Wi-Fi driver of \<^verbatim>\<open>hal/ti/cc3501e_hw_ti_wifi.c\<close>, above the vendor's WLAN calls (\<open>wlan_env\<close>): the
  event callback, the scan, the station connect with its one retry and its DHCP wait, the access
  point, and the latches the worker reads.  The driver works on the board of \<open>Ti_Board\<close>, whose SPI
  slave it re-opens and heals; while it waits or sleeps, radio events and host transfers arrive.
\<close>

section \<open>State\<close>

record wlan_network =
  net_bssid :: "byte list"
  net_rssi :: byte
  net_channel :: byte
  net_security :: u16
  net_ssid :: "byte list"
  net_ssid_len :: byte

text \<open>What the vendor's event thread reports; a null extended scan result is \<open>None\<close>.\<close>

datatype wlan_event = WLAN_EVENT_SCAN_RESULT "wlan_network list"
  | WLAN_EVENT_EXTENDED_SCAN_RESULT "wlan_network list option"
  | WLAN_EVENT_CONNECT int | WLAN_EVENT_DISCONNECT u16
  | WLAN_EVENT_ASSOCIATION_REJECTED u16 | WLAN_EVENT_AUTHENTICATION_REJECTED u16 | WLAN_EVENT_OTHER u32

datatype wlan_sec = WLAN_SEC_TYPE_OPEN | WLAN_SEC_TYPE_WPA_WPA2 | WLAN_SEC_TYPE_WPA2_WPA3

text \<open>
  What comes in while the driver waits: a radio event, bytes the host clocks, or the failure of the
  armed transfer.  (A cancelled transfer is the firmware's own doing.)
\<close>

datatype arrival = Radio wlan_event | Clocked "byte list" | Xfer_Failed

datatype wifi_conn_state = WIFI_DISCONNECTED | WIFI_CONNECTING | WIFI_CONNECTED | WIFI_CONN_FAILED

datatype wifi_fail = WIFI_FAIL_NONE | WIFI_FAIL_KICK | WIFI_FAIL_TIMEOUT | WIFI_FAIL_REJECTED

datatype radio_role = ROLE_OFF | ROLE_WIFI_STA | ROLE_WIFI_AP

text \<open>The interface's link flags, with the DHCP client's state and tries when it has one.\<close>

record netif_view =
  if_up :: bool
  if_link_up :: bool
  if_dhcp :: "(byte \<times> byte) option"

record 'h wlan_env =
  wlan_power :: "'h pwr_env"
  wlan_event_id :: "wlan_event \<Rightarrow> u32"
  WLAN_MAX_SCAN_COUNT :: nat
  WLAN_SSID_MAX_LENGTH :: nat
  WLAN_DISCONNECT_USER_INITIATED :: u16
  EVT_WIFI_CONNECTED :: byte
  EVT_WIFI_DISCONNECTED :: byte
  WIFI_IFACE_STA :: byte
  WIFI_IFACE_AP :: byte
  OSI_WAIT_FOR_SECOND :: u32
  osi_SyncObjCreate :: "'h \<Rightarrow> 'h \<times> bool"
  Wlan_Start :: "'h \<Rightarrow> 'h \<times> int"
  Wlan_RoleUp_STA :: "'h \<Rightarrow> 'h \<times> int"
  Wlan_RoleUp_AP :: "byte list \<Rightarrow> wlan_sec \<Rightarrow> byte list \<Rightarrow> 'h \<Rightarrow> 'h \<times> int"
  Wlan_RoleDown_AP :: "'h \<Rightarrow> 'h \<times> int"
  Wlan_Scan :: "'h \<Rightarrow> 'h \<times> int"
  Wlan_Connect :: "byte list \<Rightarrow> wlan_sec \<Rightarrow> byte list \<Rightarrow> 'h \<Rightarrow> 'h \<times> int"
  Wlan_Disconnect :: "'h \<Rightarrow> 'h \<times> int"
  Wlan_Get_MACADDRESS :: "'h \<Rightarrow> 'h \<times> int \<times> byte list"
  Wlan_Get_RSSI :: "'h \<Rightarrow> 'h \<times> int \<times> byte \<times> byte"
  network_set_up :: "bool \<Rightarrow> 'h \<Rightarrow> 'h"
  network_stack_add_if_ap :: "'h \<Rightarrow> 'h"
  network_stack_get_if_ip :: "bool \<Rightarrow> 'h \<Rightarrow> int \<times> u32"
  network_get_sta_if :: "'h \<Rightarrow> netif_view option"
  dhcp_restart :: "'h \<Rightarrow> 'h"
  wlan_usleep :: "u32 \<Rightarrow> 'h \<Rightarrow> 'h"
  sync_pause :: "u32 \<Rightarrow> 'h \<Rightarrow> 'h"
  arrivals :: "'h \<Rightarrow> 'h \<times> arrival list"
  host_txn_count :: "'h \<Rightarrow> u32"

record 'h ti_wifi =
  board :: "'h ti_board"
  power :: ti_power
  wifi_last_reason_tag :: u32
  wifi_started :: bool
  wifi_own_disconnect_issued :: bool
  wifi_sta_role_up :: bool
  wifi_ap_latch :: ap_role_latch
  wifi_event_sync :: bool
  wifi_last_status :: int
  wifi_scan_cache :: "wlan_network list"
  wifi_cb_event_count :: u32
  wifi_cb_last_id :: u32
  conn_state :: wifi_conn_state
  conn_fail_reason :: wifi_fail
  conn_rssi :: byte
  conn_reason :: u16
  g_connect_reinit_pending :: bool
  g_connect_reinit_armed :: bool
  g_rssi_reinit_skip_pending :: bool
  g_rssi_reinit_skip_ok :: bool
  g_connect_fail_skip_pending :: bool
  g_connect_fail_skip_ok :: bool

text \<open>Calls on the hardware below the board's SPI slave, and on the board.\<close>

definition wifi_do :: "('h \<Rightarrow> 'h) \<Rightarrow> 'h ti_wifi \<Rightarrow> 'h ti_wifi" where
  "wifi_do f w = w\<lparr>board := (board w)\<lparr>spi := core_do f (spi (board w))\<rparr>\<rparr>"

definition wifi_call :: "('h \<Rightarrow> 'h \<times> 'a) \<Rightarrow> 'h ti_wifi \<Rightarrow> 'h ti_wifi \<times> 'a" where
  "wifi_call f w = (case core_call f (spi (board w)) of (t, x) \<Rightarrow> (w\<lparr>board := (board w)\<lparr>spi := t\<rparr>\<rparr>, x))"

definition wifi_hw :: "'h ti_wifi \<Rightarrow> 'h" where
  "wifi_hw w = hw (core (spi (board w)))"

definition wifi_uptime :: "'h platform \<Rightarrow> 'h ti_wifi \<Rightarrow> u32" where
  "wifi_uptime P w = spi_uptime P (spi (board w))"

definition wifi_board :: "('h ti_board \<Rightarrow> 'h ti_board) \<Rightarrow> 'h ti_wifi \<Rightarrow> 'h ti_wifi" where
  "wifi_board f w = w\<lparr>board := f (board w)\<rparr>"

definition wifi_reinit :: "'h platform \<Rightarrow> 'h spi_drv \<Rightarrow> 'h ti_wifi \<Rightarrow> 'h ti_wifi \<times> bool" where
  "wifi_reinit P D w =
     (case bridge_transport_spi_hw_reinit P D (spi (board w)) of (t, ok) \<Rightarrow> (w\<lparr>board := (board w)\<lparr>spi := t\<rparr>\<rparr>, ok))"

definition wifi_heal :: "'h platform \<Rightarrow> 'h spi_drv \<Rightarrow> 'h ti_wifi \<Rightarrow> 'h ti_wifi" where
  "wifi_heal P D = wifi_board (cc3501e_hw_link_heal P D True)"

text \<open>Queueing an event for the host, with the attention pulse.\<close>

definition wifi_push :: "'h platform \<Rightarrow> byte \<Rightarrow> 'h ti_wifi \<Rightarrow> 'h ti_wifi" where
  "wifi_push P opcode w =
     (let c = core (spi (board w))
      in case event_ring_push (bridge_attn_pulse (link P)) opcode None 0 (ring c) (hw c) of (r, h, n) \<Rightarrow>
           w\<lparr>board := (board w)\<lparr>spi := (spi (board w))\<lparr>core := c\<lparr>ring := r, hw := h\<rparr>\<rparr>\<rparr>\<rparr>)"

section \<open>The reason tag\<close>

text \<open>The event that recorded a reason and the reason itself share one word.\<close>

definition retry_event_code :: "wifi_retry_event \<Rightarrow> u16" where
  "retry_event_code ev =
     (case ev of WIFI_RETRY_EVENT_NONE \<Rightarrow> 0 | WIFI_RETRY_EVENT_ASSOCIATION_REJECTED \<Rightarrow> 1
      | WIFI_RETRY_EVENT_AUTHENTICATION_REJECTED \<Rightarrow> 2 | WIFI_RETRY_EVENT_DISCONNECT \<Rightarrow> 3)"

definition wifi_reason_tag_pack :: "wifi_retry_event \<Rightarrow> u16 \<Rightarrow> u32" where
  "wifi_reason_tag_pack ev reason = or (push_bit 16 (ucast (retry_event_code ev))) (ucast reason)"

definition wifi_reason_tag_reason :: "u32 \<Rightarrow> u16" where
  "wifi_reason_tag_reason tag = ucast (and tag 0xFFFF)"

definition wifi_reason_tag_event :: "u32 \<Rightarrow> wifi_retry_event" where
  "wifi_reason_tag_event tag =
     (let v = drop_bit 16 tag
      in if v = 1 then WIFI_RETRY_EVENT_ASSOCIATION_REJECTED else if v = 2 then WIFI_RETRY_EVENT_AUTHENTICATION_REJECTED
         else if v = 3 then WIFI_RETRY_EVENT_DISCONNECT else WIFI_RETRY_EVENT_NONE)"

section \<open>The event callback\<close>

definition CC3501E_WLAN_STATUS_ASSOC_REJECTED_TEMPORARILY :: u16 where
  "CC3501E_WLAN_STATUS_ASSOC_REJECTED_TEMPORARILY = 30"

definition wifi_conn_is_connecting :: "'h ti_wifi \<Rightarrow> bool" where
  "wifi_conn_is_connecting w \<longleftrightarrow> conn_state w = WIFI_CONNECTING"

definition wifi_note_reason :: "wifi_retry_event \<Rightarrow> u16 \<Rightarrow> 'h ti_wifi \<Rightarrow> 'h ti_wifi" where
  "wifi_note_reason ev reason w =
     (if wifi_conn_is_connecting w then w\<lparr>wifi_last_reason_tag := wifi_reason_tag_pack ev reason\<rparr> else w)"

definition wifi_event_cb :: "'h wlan_env \<Rightarrow> wlan_event \<Rightarrow> 'h ti_wifi \<Rightarrow> 'h ti_wifi" where
  "wifi_event_cb W event w0 =
     (let w = w0\<lparr>wifi_cb_event_count := wifi_cb_event_count w0 + 1, wifi_cb_last_id := wlan_event_id W event\<rparr>
      in case event of
           WLAN_EVENT_SCAN_RESULT nets \<Rightarrow>
             w\<lparr>wifi_scan_cache := take (WLAN_MAX_SCAN_COUNT W) nets, wifi_last_status := 0, wifi_event_sync := True\<rparr>
         | WLAN_EVENT_EXTENDED_SCAN_RESULT ext \<Rightarrow>
             w\<lparr>wifi_scan_cache := (case ext of None \<Rightarrow> [] | Some nets \<Rightarrow> take (WLAN_MAX_SCAN_COUNT W) nets),
               wifi_last_status := (if ext = None then -77 else 0), wifi_event_sync := True\<rparr>
         | WLAN_EVENT_CONNECT status \<Rightarrow> w\<lparr>wifi_last_status := status, wifi_event_sync := True\<rparr>
         | WLAN_EVENT_DISCONNECT reason \<Rightarrow>
             (let w1 = w\<lparr>wifi_last_status := -1\<rparr>;
                  w2 = (if wifi_conn_is_connecting w1 \<and> wifi_reason_tag_reason (wifi_last_reason_tag w1) = 0
                           \<and> reason \<noteq> WLAN_DISCONNECT_USER_INITIATED W
                        then w1\<lparr>wifi_last_reason_tag := wifi_reason_tag_pack WIFI_RETRY_EVENT_DISCONNECT reason\<rparr> else w1)
              in w2\<lparr>wifi_event_sync := True\<rparr>)
         | WLAN_EVENT_ASSOCIATION_REJECTED status \<Rightarrow>
             if status = CC3501E_WLAN_STATUS_ASSOC_REJECTED_TEMPORARILY
             then wifi_note_reason WIFI_RETRY_EVENT_ASSOCIATION_REJECTED status w
             else (wifi_note_reason WIFI_RETRY_EVENT_ASSOCIATION_REJECTED status (w\<lparr>wifi_last_status := -1\<rparr>))
                    \<lparr>wifi_event_sync := True\<rparr>
         | WLAN_EVENT_AUTHENTICATION_REJECTED status \<Rightarrow>
             (wifi_note_reason WIFI_RETRY_EVENT_AUTHENTICATION_REJECTED status (w\<lparr>wifi_last_status := -1\<rparr>))
               \<lparr>wifi_event_sync := True\<rparr>
         | WLAN_EVENT_OTHER n \<Rightarrow> w)"

text \<open>What happens while a call, a wait or a sleep of the driver runs.\<close>

definition arrive :: "'h platform \<Rightarrow> 'h spi_drv \<Rightarrow> 'h wlan_env \<Rightarrow> arrival \<Rightarrow> 'h ti_wifi \<Rightarrow> 'h ti_wifi" where
  "arrive P D W a w =
     (case a of
        Radio ev \<Rightarrow> wifi_event_cb W ev w
      | Clocked bs \<Rightarrow> wifi_board (\<lambda>b. b\<lparr>spi := fst (spi_clock P D bs (spi b))\<rparr>) w
      | Xfer_Failed \<Rightarrow> wifi_board (\<lambda>b. if armed (spi b) = None then b
          else b\<lparr>spi := on_transfer P D (Some SPI_TRANSFER_OTHER) ((spi b)\<lparr>armed := None\<rparr>)\<rparr>) w)"

definition deliver :: "'h platform \<Rightarrow> 'h spi_drv \<Rightarrow> 'h wlan_env \<Rightarrow> 'h ti_wifi \<Rightarrow> 'h ti_wifi" where
  "deliver P D W w = (case wifi_call (arrivals W) w of (w1, as) \<Rightarrow> fold (arrive P D W) as w1)"

definition osi_SyncObjWait :: "'h platform \<Rightarrow> 'h spi_drv \<Rightarrow> 'h wlan_env \<Rightarrow> u32 \<Rightarrow> 'h ti_wifi \<Rightarrow> 'h ti_wifi \<times> bool" where
  "osi_SyncObjWait P D W ms w =
     (let w1 = deliver P D W (wifi_do (sync_pause W ms) w)
      in if wifi_event_sync w1 then (w1\<lparr>wifi_event_sync := False\<rparr>, True) else (w1, False))"

section \<open>Roles\<close>

definition cc3501e_hw_wifi_last_event_id :: "'h ti_wifi \<Rightarrow> u32" where
  "cc3501e_hw_wifi_last_event_id w = wifi_cb_last_id w"

definition cc3501e_hw_wifi_dhcp_diag :: "'h wlan_env \<Rightarrow> 'h ti_wifi \<Rightarrow> byte \<times> byte" where
  "cc3501e_hw_wifi_dhcp_diag W w =
     (case network_get_sta_if W (wifi_hw w) of
        None \<Rightarrow> (0, 0)
      | Some nif \<Rightarrow>
          let f = or (if if_up nif then 1 else 0) (if if_link_up nif then 2 else 0)
          in case if_dhcp nif of
               None \<Rightarrow> (0, f)
             | Some (st, tries) \<Rightarrow>
                 (st + 1, or (and f 3) (push_bit 2 (if tries > 63 then 63 else tries))))"

definition cc3501e_hw_radio_role :: "'h ti_wifi \<Rightarrow> radio_role" where
  "cc3501e_hw_radio_role w =
     (if up (wifi_ap_latch w) then ROLE_WIFI_AP else if wifi_sta_role_up w then ROLE_WIFI_STA else ROLE_OFF)"

definition cc3501e_hw_wifi_sta_role_up :: "'h ti_wifi \<Rightarrow> bool" where
  "cc3501e_hw_wifi_sta_role_up w = wifi_sta_role_up w"

text \<open>Applying the power policy to the radio, with the role and station flag of this driver.\<close>

definition wifi_apply_power :: "'h wlan_env \<Rightarrow> 'h ti_wifi \<Rightarrow> 'h ti_wifi" where
  "wifi_apply_power W w =
     (case cc3501e_hw_power_apply_radio_now (wlan_power W) (cc3501e_hw_radio_role w = ROLE_WIFI_AP)
             (cc3501e_hw_wifi_sta_role_up w) (power w, wifi_hw w) of
        (p, h) \<Rightarrow> (wifi_do (\<lambda>h0. h) w)\<lparr>power := p\<rparr>)"

text \<open>
  Starting the radio re-points the host DMA, whether or not the start succeeds: the slave's transfer
  is gone and, until the slave is re-opened, neither the host's clock nor a failure reaches it.
\<close>

definition radio_takes_dma :: "'h ti_wifi \<Rightarrow> 'h ti_wifi" where
  "radio_takes_dma = wifi_board (\<lambda>b. b\<lparr>spi := (spi b)\<lparr>armed := None\<rparr>\<rparr>)"

definition cc3501e_hw_wifi_lazy_start :: "'h platform \<Rightarrow> 'h spi_drv \<Rightarrow> 'h wlan_env \<Rightarrow> 'h ti_wifi \<Rightarrow> 'h ti_wifi \<times> int" where
  "cc3501e_hw_wifi_lazy_start P D W w =
     (if wifi_started w then (w, CC3501E_HW_OK)
      else case wifi_call (osi_SyncObjCreate W) w of (w1, ok) \<Rightarrow>
        if \<not> ok then (w1, CC3501E_HW_ERR_IO)
        else case wifi_call (Wlan_Start W) w1 of (w2, start_rv) \<Rightarrow>
          let w3 = fst (wifi_reinit P D (radio_takes_dma (deliver P D W w2)))
          in if start_rv \<noteq> 0 then (w3, CC3501E_HW_ERR_IO) else (w3\<lparr>wifi_started := True\<rparr>, CC3501E_HW_OK))"

definition cc3501e_hw_wifi_ensure_sta_role :: "'h platform \<Rightarrow> 'h spi_drv \<Rightarrow> 'h wlan_env \<Rightarrow> 'h ti_wifi \<Rightarrow> 'h ti_wifi \<times> int" where
  "cc3501e_hw_wifi_ensure_sta_role P D W w =
     (if wifi_sta_role_up w then (w, CC3501E_HW_OK)
      else case cc3501e_hw_wifi_lazy_start P D W w of (w1, wifi_rv) \<Rightarrow>
        if wifi_rv \<noteq> CC3501E_HW_OK then (w1, wifi_rv)
        else case wifi_call (Wlan_Set (wlan_power W) WLAN_SET_STA_WIFI_BAND) w1 of (w2, r) \<Rightarrow>
          case wifi_call (Wlan_RoleUp_STA W) w2 of (w3, role_rv) \<Rightarrow>
            let w4 = deliver P D W w3
            in if role_rv < 0 then (w4, CC3501E_HW_ERR_IO)
               else (wifi_apply_power W (w4\<lparr>wifi_sta_role_up := True\<rparr>), CC3501E_HW_OK))"

definition cc3501e_hw_wifi_boot_start :: "'h platform \<Rightarrow> 'h spi_drv \<Rightarrow> 'h wlan_env \<Rightarrow> 'h ti_wifi \<Rightarrow> 'h ti_wifi" where
  "cc3501e_hw_wifi_boot_start P D W w =
     (let w1 = fst (cc3501e_hw_wifi_lazy_start P D W (wifi_do (bridge_busy (link P)) w));
          w2 = wifi_board (\<lambda>b. b\<lparr>spi := bridge_transport_spi_hw_suspend P D (spi b)\<rparr>) w1;
          w3 = fst (wifi_reinit P D (fst (cc3501e_hw_wifi_ensure_sta_role P D W w2)))
      in wifi_do (bridge_ready (link P)) w3)"

definition cc3501e_hw_get_mac :: "'h platform \<Rightarrow> 'h spi_drv \<Rightarrow> 'h wlan_env \<Rightarrow> 'h ti_wifi \<Rightarrow> 'h ti_wifi \<times> int \<times> byte list" where
  "cc3501e_hw_get_mac P D W w =
     (case cc3501e_hw_wifi_lazy_start P D W w of (w1, wifi_rv) \<Rightarrow>
        if wifi_rv \<noteq> CC3501E_HW_OK then (w1, wifi_rv, [])
        else case wifi_call (Wlan_Get_MACADDRESS W) w1 of (w2, r, mac) \<Rightarrow>
          if r \<noteq> 0 then (w2, CC3501E_HW_ERR_IO, []) else (w2, CC3501E_HW_OK, take 6 mac))"

section \<open>The connect latch\<close>

definition cc3501e_hw_wifi_mark_connecting :: "'h ti_wifi \<Rightarrow> 'h ti_wifi" where
  "cc3501e_hw_wifi_mark_connecting w =
     w\<lparr>conn_fail_reason := WIFI_FAIL_NONE, conn_rssi := 0, wifi_last_reason_tag := 0, conn_reason := 0,
       conn_state := WIFI_CONNECTING\<rparr>"

definition cc3501e_hw_wifi_conn_status :: "'h ti_wifi \<Rightarrow> int \<times> wifi_conn_state \<times> wifi_fail \<times> byte" where
  "cc3501e_hw_wifi_conn_status w = (CC3501E_HW_OK, conn_state w, conn_fail_reason w, conn_rssi w)"

definition cc3501e_hw_wifi_last_reason :: "'h ti_wifi \<Rightarrow> u16" where
  "cc3501e_hw_wifi_last_reason w = conn_reason w"

definition wifi_conn_set ::
    "'h platform \<Rightarrow> 'h wlan_env \<Rightarrow> wifi_conn_state \<Rightarrow> wifi_fail \<Rightarrow> u16 \<Rightarrow> 'h ti_wifi \<Rightarrow> 'h ti_wifi" where
  "wifi_conn_set P W st fail_reason reason w =
     (let w1 = w\<lparr>conn_fail_reason := fail_reason, conn_rssi := 0\<rparr>;
          w2 = (if st = WIFI_CONNECTED then w1\<lparr>wifi_last_reason_tag := 0, conn_reason := 0\<rparr>
                else w1\<lparr>conn_reason := wifi_retry_sanitize_reason reason (wifi_own_disconnect_issued w1)\<rparr>);
          w3 = w2\<lparr>conn_state := st\<rparr>
      in if st = WIFI_CONNECTED then wifi_push P (EVT_WIFI_CONNECTED W) w3
         else if st = WIFI_CONN_FAILED \<or> st = WIFI_DISCONNECTED then wifi_push P (EVT_WIFI_DISCONNECTED W) w3
         else w3)"

definition wifi_clear_stale_assoc :: "'h platform \<Rightarrow> 'h spi_drv \<Rightarrow> 'h wlan_env \<Rightarrow> 'h ti_wifi \<Rightarrow> 'h ti_wifi" where
  "wifi_clear_stale_assoc P D W w =
     (if wifi_started w
      then (deliver P D W (fst (wifi_call (Wlan_Disconnect W) w)))\<lparr>wifi_own_disconnect_issued := True\<rparr>
      else w)"

text \<open>The one-shot hints the worker takes after a body.\<close>

definition cc3501e_hw_wifi_connect_sta_take_reinit :: "'h ti_wifi \<Rightarrow> 'h ti_wifi \<times> bool \<times> bool" where
  "cc3501e_hw_wifi_connect_sta_take_reinit w =
     (if g_connect_reinit_pending w
      then (w\<lparr>g_connect_reinit_pending := False\<rparr>, True, g_connect_reinit_armed w) else (w, False, False))"

definition cc3501e_hw_wifi_get_rssi_take_reinit_skip :: "'h ti_wifi \<Rightarrow> 'h ti_wifi \<times> bool \<times> bool" where
  "cc3501e_hw_wifi_get_rssi_take_reinit_skip w =
     (if g_rssi_reinit_skip_pending w
      then (w\<lparr>g_rssi_reinit_skip_pending := False\<rparr>, True, g_rssi_reinit_skip_ok w) else (w, False, False))"

definition cc3501e_hw_wifi_connect_sta_take_fail_skip :: "'h ti_wifi \<Rightarrow> 'h ti_wifi \<times> bool \<times> bool" where
  "cc3501e_hw_wifi_connect_sta_take_fail_skip w =
     (if g_connect_fail_skip_pending w
      then (w\<lparr>g_connect_fail_skip_pending := False\<rparr>, True, g_connect_fail_skip_ok w) else (w, False, False))"

section \<open>The scan\<close>

definition cc3501e_hw_wifi_scan_run :: "'h platform \<Rightarrow> 'h spi_drv \<Rightarrow> 'h wlan_env \<Rightarrow> 'h ti_wifi \<Rightarrow> 'h ti_wifi \<times> int" where
  "cc3501e_hw_wifi_scan_run P D W w =
     (case cc3501e_hw_wifi_lazy_start P D W w of (w1, wifi_rv) \<Rightarrow>
        if wifi_rv \<noteq> CC3501E_HW_OK then (w1, wifi_rv)
        else case cc3501e_hw_wifi_ensure_sta_role P D W w1 of (w2, role_rv) \<Rightarrow>
          let w3 = w2\<lparr>wifi_scan_cache := [], wifi_event_sync := False\<rparr>; cb_before = wifi_cb_event_count w3
          in case (if role_rv = CC3501E_HW_OK then wifi_call (Wlan_Scan W) w3 else (w3, -1)) of (w4, scan_rv) \<Rightarrow>
             case (if scan_rv = 0 then osi_SyncObjWait P D W (6 * OSI_WAIT_FOR_SECOND W) w4 else (w4, True)) of (w5, wait_ok) \<Rightarrow>
               let w6 = fst (wifi_reinit P D w5)
               in if role_rv \<noteq> CC3501E_HW_OK then (w6, CC3501E_HW_ERR_INVAL)
                  else if scan_rv \<noteq> 0 then (w6, CC3501E_HW_ERR_INVAL)
                  else if \<not> wait_ok
                  then (w6, if wifi_cb_event_count w6 = cb_before then CC3501E_HW_ERR_NOTIMPL else CC3501E_HW_ERR_IO)
                  else (w6, CC3501E_HW_OK))"

definition scan_ssid_len :: "'h wlan_env \<Rightarrow> wlan_network \<Rightarrow> byte" where
  "scan_ssid_len W e =
     (if unat (net_ssid_len e) > WLAN_SSID_MAX_LENGTH W then word_of_nat (WLAN_SSID_MAX_LENGTH W) else net_ssid_len e)"

definition scan_record :: "'h wlan_env \<Rightarrow> wlan_network \<Rightarrow> byte list" where
  "scan_record W e =
     take 6 (net_bssid e) @ [net_rssi e, net_channel e] @ put_le16 (net_security e) @ [scan_ssid_len W e]
       @ take (unat (scan_ssid_len W e)) (net_ssid e)"

primrec scan_records :: "'h wlan_env \<Rightarrow> nat \<Rightarrow> nat \<Rightarrow> wlan_network list \<Rightarrow> byte list" where
  "scan_records W cap off [] = []"
| "scan_records W cap off (e # es) =
     (let rec = 11 + unat (scan_ssid_len W e)
      in if off + rec > cap then [] else scan_record W e @ scan_records W cap (off + rec) es)"

definition cc3501e_hw_wifi_scan ::
    "'h platform \<Rightarrow> 'h spi_drv \<Rightarrow> 'h wlan_env \<Rightarrow> nat \<Rightarrow> 'h ti_wifi \<Rightarrow> 'h ti_wifi \<times> int \<times> byte list" where
  "cc3501e_hw_wifi_scan P D W cap w =
     (case cc3501e_hw_wifi_scan_run P D W w of (w1, rv) \<Rightarrow>
        if rv \<noteq> CC3501E_HW_OK then (w1, rv, []) else (w1, CC3501E_HW_OK, scan_records W cap 0 (wifi_scan_cache w1)))"

definition cc3501e_hw_wifi_scan_start :: "'h platform \<Rightarrow> 'h spi_drv \<Rightarrow> 'h wlan_env \<Rightarrow> 'h ti_wifi \<Rightarrow> 'h ti_wifi \<times> int" where
  "cc3501e_hw_wifi_scan_start P D W w = cc3501e_hw_wifi_scan_run P D W w"

definition cc3501e_hw_wifi_scan_stop :: "'h ti_wifi \<Rightarrow> 'h ti_wifi \<times> int" where
  "cc3501e_hw_wifi_scan_stop w = (w, CC3501E_HW_OK)"

section \<open>Waiting in slices\<close>

definition CC3501E_WIFI_HEAL_SLICE_MS :: u32 where "CC3501E_WIFI_HEAL_SLICE_MS = 100"

definition heal_slice :: "u32 \<Rightarrow> u32 \<Rightarrow> u32" where
  "heal_slice total_ms elapsed_ms =
     (let remaining_ms = total_ms - elapsed_ms
      in if remaining_ms < CC3501E_WIFI_HEAL_SLICE_MS then remaining_ms else CC3501E_WIFI_HEAL_SLICE_MS)"

text \<open>Both loops measure the clock, which a vendor may leave standing: \<open>None\<close> is a loop that never ends.\<close>

partial_function (option) assoc_wait_loop ::
    "'h platform \<Rightarrow> 'h spi_drv \<Rightarrow> 'h wlan_env \<Rightarrow> u32 \<Rightarrow> u32 \<Rightarrow> bool \<Rightarrow> 'h ti_wifi \<Rightarrow> ('h ti_wifi \<times> bool) option" where
  "assoc_wait_loop P D W total_ms start_ms rv w =
     (let elapsed_ms = wifi_uptime P w - start_ms
      in if elapsed_ms \<ge> total_ms then Some (w, rv)
         else case osi_SyncObjWait P D W (heal_slice total_ms elapsed_ms) w of (w1, ok) \<Rightarrow>
           if ok then Some (w1, True)
           else assoc_wait_loop P D W total_ms start_ms False (wifi_heal P D w1))"

declare assoc_wait_loop.simps [code]

definition wifi_assoc_wait_sliced ::
    "'h platform \<Rightarrow> 'h spi_drv \<Rightarrow> 'h wlan_env \<Rightarrow> u32 \<Rightarrow> 'h ti_wifi \<Rightarrow> ('h ti_wifi \<times> bool) option" where
  "wifi_assoc_wait_sliced P D W total_ms w = assoc_wait_loop P D W total_ms (wifi_uptime P w) True w"

definition wifi_usleep :: "'h platform \<Rightarrow> 'h spi_drv \<Rightarrow> 'h wlan_env \<Rightarrow> u32 \<Rightarrow> 'h ti_wifi \<Rightarrow> 'h ti_wifi" where
  "wifi_usleep P D W us w = deliver P D W (wifi_do (wlan_usleep W us) w)"

partial_function (option) sleep_loop ::
    "'h platform \<Rightarrow> 'h spi_drv \<Rightarrow> 'h wlan_env \<Rightarrow> u32 \<Rightarrow> u32 \<Rightarrow> 'h ti_wifi \<Rightarrow> 'h ti_wifi option" where
  "sleep_loop P D W total_ms start_ms w =
     (let elapsed_ms = wifi_uptime P w - start_ms
      in if elapsed_ms \<ge> total_ms then Some w
         else sleep_loop P D W total_ms start_ms
                (wifi_heal P D (wifi_usleep P D W (heal_slice total_ms elapsed_ms * 1000) w)))"

declare sleep_loop.simps [code]

definition wifi_sleep_sliced :: "'h platform \<Rightarrow> 'h spi_drv \<Rightarrow> 'h wlan_env \<Rightarrow> u32 \<Rightarrow> 'h ti_wifi \<Rightarrow> 'h ti_wifi option" where
  "wifi_sleep_sliced P D W total_ms w = sleep_loop P D W total_ms (wifi_uptime P w) w"

definition CC3501E_WIFI_CONNECT_FAIL_SKIP_WINDOW_MS :: u32 where "CC3501E_WIFI_CONNECT_FAIL_SKIP_WINDOW_MS = 150"
definition CC3501E_WIFI_CONNECT_FAIL_SKIP_STEP_MS :: u32 where "CC3501E_WIFI_CONNECT_FAIL_SKIP_STEP_MS = 10"

definition wifi_connect_fail_mark_skip :: "'h platform \<Rightarrow> 'h spi_drv \<Rightarrow> 'h wlan_env \<Rightarrow> 'h ti_wifi \<Rightarrow> 'h ti_wifi option" where
  "wifi_connect_fail_mark_skip P D W w =
     (case wifi_wait_host_frame (\<lambda>v. (v, host_txn_count W (wifi_hw v))) (\<lambda>ms. wifi_usleep P D W (ms * 1000))
             CC3501E_WIFI_CONNECT_FAIL_SKIP_WINDOW_MS CC3501E_WIFI_CONNECT_FAIL_SKIP_STEP_MS w of
        None \<Rightarrow> None
      | Some (w1, ok) \<Rightarrow> Some (w1\<lparr>g_connect_fail_skip_ok := ok, g_connect_fail_skip_pending := True\<rparr>))"

section \<open>Connecting\<close>

definition cc3501e_wifi_sec :: "byte \<Rightarrow> wlan_sec" where
  "cc3501e_wifi_sec security =
     (if security = 0 then WLAN_SEC_TYPE_OPEN else if security = 2 then WLAN_SEC_TYPE_WPA2_WPA3 else WLAN_SEC_TYPE_WPA_WPA2)"

definition CC3501E_STA_DHCP_TRIES :: nat where "CC3501E_STA_DHCP_TRIES = 150"
definition CC3501E_STA_DHCP_KICKS :: nat where "CC3501E_STA_DHCP_KICKS = 2"
definition CC3501E_STA_DHCP_POLL_US :: u32 where "CC3501E_STA_DHCP_POLL_US = 200000"
definition CC3501E_WIFI_ASSOC_WAIT_MS :: u32 where "CC3501E_WIFI_ASSOC_WAIT_MS = 30000"
definition CC3501E_WIFI_RETRY_DENYLIST_DELAY_MS :: u32 where "CC3501E_WIFI_RETRY_DENYLIST_DELAY_MS = 10000 + 1000"
definition CC3501E_WIFI_RETRY_COMEBACK_DELAY_MS :: u32 where "CC3501E_WIFI_RETRY_COMEBACK_DELAY_MS = 1000"
definition CC3501E_WIFI_RETRY_DISCONNECT_WAIT_MS :: u32 where "CC3501E_WIFI_RETRY_DISCONNECT_WAIT_MS = 2000"
definition CC3501E_WIFI_RETRY_OVERHEAD_MS :: u32 where
  "CC3501E_WIFI_RETRY_OVERHEAD_MS = CC3501E_WIFI_RETRY_DISCONNECT_WAIT_MS + CC3501E_WIFI_RETRY_DENYLIST_DELAY_MS"
definition CC3501E_WIFI_RETRY_MIN_WAIT_MS :: u32 where "CC3501E_WIFI_RETRY_MIN_WAIT_MS = 3000"

text \<open>
  The outcome of one pass of the association loop.  \<open>first\<close> is what the first pass saved when the
  retry fired: its failure and reason; it is \<open>None\<close> until then (the flag \<open>retried\<close>).
\<close>

datatype pass_result = Pass_Ok | Pass_Fail wifi_fail u16 | Pass_Retry u16 wifi_retry_event

definition pass_fail :: "(wifi_fail \<times> u16) option \<Rightarrow> wifi_fail \<Rightarrow> u16 \<Rightarrow> pass_result" where
  "pass_fail first fail reason = (case first of Some (f, r) \<Rightarrow> Pass_Fail f r | None \<Rightarrow> Pass_Fail fail reason)"

definition assoc_rejected :: "'h platform \<Rightarrow> u32 \<Rightarrow> (wifi_fail \<times> u16) option \<Rightarrow> 'h ti_wifi \<Rightarrow> pass_result" where
  "assoc_rejected P assoc_wait_start_ms first w =
     (let reason_tag = wifi_last_reason_tag w;
          elapsed_ms = wifi_uptime P w - assoc_wait_start_ms;
          budget_needed_ms = CC3501E_WIFI_RETRY_OVERHEAD_MS + CC3501E_WIFI_RETRY_MIN_WAIT_MS
      in if first = None
            \<and> wifi_reason_tag_reason reason_tag = CC3501E_WLAN_STATUS_ASSOC_REJECTED_TEMPORARILY
            \<and> elapsed_ms + budget_needed_ms \<le> CC3501E_WIFI_ASSOC_WAIT_MS
         then Pass_Retry (wifi_reason_tag_reason reason_tag) (wifi_reason_tag_event reason_tag)
         else if wifi_retry_should_restore_first_pass (wifi_reason_tag_reason reason_tag)
         then pass_fail first WIFI_FAIL_REJECTED (wifi_reason_tag_reason reason_tag)
         else Pass_Fail WIFI_FAIL_REJECTED (wifi_reason_tag_reason reason_tag))"

definition assoc_pass ::
    "'h platform \<Rightarrow> 'h spi_drv \<Rightarrow> 'h wlan_env \<Rightarrow> byte list \<Rightarrow> byte list \<Rightarrow> byte \<Rightarrow> u32 \<Rightarrow> (wifi_fail \<times> u16) option
       \<Rightarrow> 'h ti_wifi \<Rightarrow> ('h ti_wifi \<times> pass_result) option" where
  "assoc_pass P D W ssid psk security start_ms first w =
     (case wifi_call (Wlan_Connect W ssid (cc3501e_wifi_sec security) psk)
             (w\<lparr>wifi_event_sync := False, wifi_last_status := 0, wifi_last_reason_tag := 0\<rparr>) of
        (w1, kick_rv) \<Rightarrow>
          if kick_rv \<noteq> 0 then Some (w1, pass_fail first WIFI_FAIL_KICK 0)
          else let elapsed_ms = wifi_uptime P w1 - start_ms;
                   wait_ms = (if elapsed_ms < CC3501E_WIFI_ASSOC_WAIT_MS then CC3501E_WIFI_ASSOC_WAIT_MS - elapsed_ms else 0)
               in case (if wait_ms = 0 then Some (w1, False) else wifi_assoc_wait_sliced P D W wait_ms w1) of
                    None \<Rightarrow> None
                  | Some (w2, ok) \<Rightarrow>
                      if \<not> ok
                      then Some (w2, pass_fail first WIFI_FAIL_TIMEOUT (wifi_reason_tag_reason (wifi_last_reason_tag w2)))
                      else if wifi_last_status w2 \<ge> 0 then Some (w2, Pass_Ok)
                      else let w3 = deliver P D W w2 in Some (w3, assoc_rejected P start_ms first w3))"

text \<open>The retry: drop the association, wait for the disconnect, then out the access point's delay.\<close>

definition assoc_retry_delay ::
    "'h platform \<Rightarrow> 'h spi_drv \<Rightarrow> 'h wlan_env \<Rightarrow> wifi_retry_event \<Rightarrow> 'h ti_wifi \<Rightarrow> 'h ti_wifi option" where
  "assoc_retry_delay P D W ev w =
     (let w1 = wifi_clear_stale_assoc P D W (w\<lparr>wifi_event_sync := False\<rparr>);
          w2 = fst (osi_SyncObjWait P D W CC3501E_WIFI_RETRY_DISCONNECT_WAIT_MS w1)
      in wifi_sleep_sliced P D W
           (wifi_retry_delay_ms ev CC3501E_WIFI_RETRY_COMEBACK_DELAY_MS CC3501E_WIFI_RETRY_DENYLIST_DELAY_MS) w2)"

partial_function (option) assoc_loop ::
    "'h platform \<Rightarrow> 'h spi_drv \<Rightarrow> 'h wlan_env \<Rightarrow> byte list \<Rightarrow> byte list \<Rightarrow> byte \<Rightarrow> u32 \<Rightarrow> (wifi_fail \<times> u16) option
       \<Rightarrow> 'h ti_wifi \<Rightarrow> ('h ti_wifi \<times> (wifi_fail \<times> u16) option) option" where
  "assoc_loop P D W ssid psk security start_ms first w =
     (case assoc_pass P D W ssid psk security start_ms first w of
        None \<Rightarrow> None
      | Some (w1, r) \<Rightarrow>
          (case r of
             Pass_Ok \<Rightarrow> Some (w1, None)
           | Pass_Fail f reason \<Rightarrow> Some (w1, Some (f, reason))
           | Pass_Retry reason ev \<Rightarrow>
               (case assoc_retry_delay P D W ev w1 of
                  None \<Rightarrow> None
                | Some w2 \<Rightarrow> assoc_loop P D W ssid psk security start_ms (Some (WIFI_FAIL_REJECTED, reason)) w2)))"

declare assoc_loop.simps [code]

text \<open>The wait for a lease: the address, or 0 when the tries run out.\<close>

definition dhcp_kick :: "'h wlan_env \<Rightarrow> nat \<Rightarrow> 'h ti_wifi \<Rightarrow> 'h ti_wifi \<times> nat" where
  "dhcp_kick W kicks w =
     (if kicks < CC3501E_STA_DHCP_KICKS
      then case network_get_sta_if W (wifi_hw w) of
             Some nif \<Rightarrow>
               (case if_dhcp nif of
                  Some (st, tries) \<Rightarrow> if tries \<ge> 3 then (wifi_do (dhcp_restart W) w, kicks + 1) else (w, kicks)
                | None \<Rightarrow> (w, kicks))
           | None \<Rightarrow> (w, kicks)
      else (w, kicks))"

primrec dhcp_poll ::
    "'h platform \<Rightarrow> 'h spi_drv \<Rightarrow> 'h wlan_env \<Rightarrow> nat \<Rightarrow> nat \<Rightarrow> 'h ti_wifi \<Rightarrow> 'h ti_wifi \<times> u32" where
  "dhcp_poll P D W 0 kicks w = (w, 0)"
| "dhcp_poll P D W (Suc n) kicks w =
     (case network_stack_get_if_ip W False (wifi_hw w) of (rv, ip) \<Rightarrow>
        if rv = 0 \<and> ip \<noteq> 0 then (w, ip)
        else case dhcp_kick W kicks w of (w1, kicks1) \<Rightarrow>
          dhcp_poll P D W n kicks1 (wifi_heal P D (wifi_usleep P D W CC3501E_STA_DHCP_POLL_US w1)))"

definition connect_failed ::
    "'h platform \<Rightarrow> 'h spi_drv \<Rightarrow> 'h wlan_env \<Rightarrow> wifi_fail \<Rightarrow> u16 \<Rightarrow> 'h ti_wifi \<Rightarrow> 'h ti_wifi option" where
  "connect_failed P D W fail reason w =
     (case wifi_connect_fail_mark_skip P D W w of
        None \<Rightarrow> None | Some w1 \<Rightarrow> Some (wifi_conn_set P W WIFI_CONN_FAILED fail reason w1))"

definition connect_lease ::
    "'h platform \<Rightarrow> 'h spi_drv \<Rightarrow> 'h wlan_env \<Rightarrow> 'h ti_wifi \<Rightarrow> ('h ti_wifi \<times> int) option" where
  "connect_lease P D W w =
     (case dhcp_poll P D W CC3501E_STA_DHCP_TRIES 0 (wifi_do (network_set_up W False) w) of (w1, ip) \<Rightarrow>
        if ip = 0
        then (case connect_failed P D W WIFI_FAIL_TIMEOUT (wifi_reason_tag_reason (wifi_last_reason_tag w1)) w1 of
                None \<Rightarrow> None | Some w2 \<Rightarrow> Some (w2, CC3501E_HW_ERR_IO))
        else case wifi_reinit P D (wifi_do (bridge_busy (link P)) w1) of (w2, ok) \<Rightarrow>
          Some (wifi_conn_set P W WIFI_CONNECTED WIFI_FAIL_NONE 0
                  (w2\<lparr>g_connect_reinit_armed := ok, g_connect_reinit_pending := True\<rparr>), CC3501E_HW_OK))"

definition cc3501e_hw_wifi_connect_sta ::
    "'h platform \<Rightarrow> 'h spi_drv \<Rightarrow> 'h wlan_env \<Rightarrow> byte list \<Rightarrow> byte list \<Rightarrow> byte \<Rightarrow> 'h ti_wifi
       \<Rightarrow> ('h ti_wifi \<times> int) option" where
  "cc3501e_hw_wifi_connect_sta P D W ssid psk security w =
     (if ssid = [] then Some (wifi_conn_set P W WIFI_CONN_FAILED WIFI_FAIL_KICK 0 w, CC3501E_HW_ERR_INVAL)
      else case cc3501e_hw_wifi_ensure_sta_role P D W w of (w1, wifi_rv) \<Rightarrow>
        let w2 = (if wifi_sta_role_up w then w1 else fst (wifi_reinit P D (wifi_do (bridge_busy (link P)) w1)));
            w3 = wifi_board cc3501e_hw_link_heal_begin_connect w2
        in if wifi_rv \<noteq> CC3501E_HW_OK
           then (case connect_failed P D W WIFI_FAIL_KICK 0 w3 of None \<Rightarrow> None | Some w4 \<Rightarrow> Some (w4, wifi_rv))
           else (case assoc_loop P D W ssid psk security (wifi_uptime P w3) None w3 of
                   None \<Rightarrow> None
                 | Some (w4, None) \<Rightarrow> connect_lease P D W w4
                 | Some (w4, Some (fail, reason)) \<Rightarrow>
                     (case connect_failed P D W fail reason w4 of
                        None \<Rightarrow> None | Some w5 \<Rightarrow> Some (wifi_clear_stale_assoc P D W w5, CC3501E_HW_ERR_IO))))"

definition cc3501e_hw_wifi_disconnect :: "'h platform \<Rightarrow> 'h spi_drv \<Rightarrow> 'h wlan_env \<Rightarrow> 'h ti_wifi \<Rightarrow> 'h ti_wifi \<times> int" where
  "cc3501e_hw_wifi_disconnect P D W w =
     (if \<not> wifi_started w then (w, CC3501E_HW_OK)
      else case wifi_call (Wlan_Disconnect W) w of (w1, rv) \<Rightarrow>
        let w2 = (deliver P D W w1)\<lparr>wifi_own_disconnect_issued := True\<rparr>
        in if rv \<noteq> 0 then (w2, CC3501E_HW_ERR_IO)
           else (wifi_conn_set P W WIFI_DISCONNECTED WIFI_FAIL_NONE (conn_reason w2) w2, CC3501E_HW_OK))"

section \<open>Access point, RSSI and address\<close>

definition cc3501e_hw_wifi_ap_start ::
    "'h platform \<Rightarrow> 'h spi_drv \<Rightarrow> 'h wlan_env \<Rightarrow> byte list \<Rightarrow> byte list \<Rightarrow> byte \<Rightarrow> 'h ti_wifi \<Rightarrow> 'h ti_wifi \<times> int" where
  "cc3501e_hw_wifi_ap_start P D W ssid psk security w =
     (if ssid = [] \<or> length ssid \<ge> WLAN_SSID_MAX_LENGTH W then (w, CC3501E_HW_ERR_INVAL)
      else case cc3501e_hw_wifi_lazy_start P D W w of (w1, wifi_rv) \<Rightarrow>
        if wifi_rv \<noteq> CC3501E_HW_OK then (w1, wifi_rv)
        else case wifi_call (Wlan_Set (wlan_power W) (WLAN_SET_POWER_MANAGEMENT POWER_MANAGEMENT_ALWAYS_ACTIVE_MODE))
                    (wifi_do (network_stack_add_if_ap W) w1) of (w2, r) \<Rightarrow>
          case wifi_call (Wlan_RoleUp_AP W (ssid @ [0]) (cc3501e_wifi_sec security) psk) w2 of (w3, rv) \<Rightarrow>
            let w4 = deliver P D W w3
            in if rv \<noteq> 0 then (w4, CC3501E_HW_ERR_IO)
               else ((wifi_do (network_set_up W True) w4)\<lparr>wifi_ap_latch := ap_role_latch_started True (wifi_ap_latch w4)\<rparr>,
                     CC3501E_HW_OK))"

definition cc3501e_hw_wifi_ap_role_publish :: "'h ti_wifi \<Rightarrow> 'h ti_wifi" where
  "cc3501e_hw_wifi_ap_role_publish w = w\<lparr>wifi_ap_latch := ap_role_latch_publish (wifi_ap_latch w)\<rparr>"

definition cc3501e_hw_wifi_ap_stop :: "'h platform \<Rightarrow> 'h spi_drv \<Rightarrow> 'h wlan_env \<Rightarrow> 'h ti_wifi \<Rightarrow> 'h ti_wifi \<times> int" where
  "cc3501e_hw_wifi_ap_stop P D W w =
     (if \<not> wifi_started w then (w, CC3501E_HW_OK)
      else case wifi_call (Wlan_RoleDown_AP W) w of (w1, rv) \<Rightarrow>
        let w2 = deliver P D W w1
        in if rv \<noteq> 0 then (w2, CC3501E_HW_ERR_IO)
           else (wifi_apply_power W (w2\<lparr>wifi_ap_latch := ap_role_latch_stopped (wifi_ap_latch w2)\<rparr>), CC3501E_HW_OK))"

definition rssi_plausible :: "byte \<Rightarrow> bool" where
  "rssi_plausible dbm \<longleftrightarrow> sint dbm < 0 \<and> sint dbm > -127"

definition cc3501e_hw_wifi_get_rssi ::
    "'h platform \<Rightarrow> 'h spi_drv \<Rightarrow> 'h wlan_env \<Rightarrow> 'h ti_wifi \<Rightarrow> 'h ti_wifi \<times> int \<times> byte option" where
  "cc3501e_hw_wifi_get_rssi P D W w =
     (case cc3501e_hw_wifi_lazy_start P D W
             (w\<lparr>g_rssi_reinit_skip_ok := wifi_started w, g_rssi_reinit_skip_pending := True\<rparr>) of
        (w1, wifi_rv) \<Rightarrow>
          if wifi_rv \<noteq> CC3501E_HW_OK then (w1, wifi_rv, None)
          else case wifi_call (Wlan_Get_RSSI W) w1 of (w2, rv, beacon, data) \<Rightarrow>
            if rv \<noteq> 0 then (w2, CC3501E_HW_ERR_IO, None)
            else let rssi = (if rssi_plausible beacon then beacon else data)
                 in if \<not> rssi_plausible rssi then (w2, CC3501E_HW_ERR_NOTIMPL, None)
                    else (w2, CC3501E_HW_OK, Some rssi))"

definition cc3501e_hw_wifi_get_ip :: "'h wlan_env \<Rightarrow> byte \<Rightarrow> 'h ti_wifi \<Rightarrow> int \<times> byte list option" where
  "cc3501e_hw_wifi_get_ip W iface w =
     (if iface \<noteq> WIFI_IFACE_STA W \<and> iface \<noteq> WIFI_IFACE_AP W then (CC3501E_HW_ERR_INVAL, None)
      else if \<not> wifi_started w then (CC3501E_HW_ERR_IO, None)
      else if iface = WIFI_IFACE_AP W \<and> \<not> up (wifi_ap_latch w) then (CC3501E_HW_ERR_NOTIMPL, None)
      else case network_stack_get_if_ip W (iface = WIFI_IFACE_AP W) (wifi_hw w) of (rv, ip) \<Rightarrow>
        if rv \<noteq> 0 then (CC3501E_HW_ERR_IO, None)
        else if ip = 0 then (CC3501E_HW_ERR_IO, None)
        else (CC3501E_HW_OK, Some [ucast (and (drop_bit 24 ip) 0xFF), ucast (and (drop_bit 16 ip) 0xFF),
                                   ucast (and (drop_bit 8 ip) 0xFF), ucast (and ip 0xFF)]))"

end
