(* ===== verification/Packing.thy ===== *)
theory Packing
  imports Prelude
begin

text \<open>
  Replies that are a run of variable-length records.  Both scans of the firmware pack whole records
  into the host's buffer until the next one does not fit; what the host reads back is proved once,
  for any record with a self-delimiting encoding.
\<close>

primrec pack_records :: "('a \<Rightarrow> byte list) \<Rightarrow> nat \<Rightarrow> nat \<Rightarrow> 'a list \<Rightarrow> byte list" where
  "pack_records enc cap off [] = []"
| "pack_records enc cap off (e # es) =
     (if off + length (enc e) > cap then [] else enc e @ pack_records enc cap (off + length (enc e)) es)"

lemma pack_records_prefix:
  assumes "off \<le> cap"
  shows "\<exists>k \<le> length es. pack_records enc cap off es = concat (map enc (take k es))
    \<and> off + length (pack_records enc cap off es) \<le> cap
    \<and> (k < length es \<longrightarrow> cap < off + length (pack_records enc cap off es) + length (enc (es ! k)))"
  using assms
proof (induction es arbitrary: off)
  case (Cons e es)
  let ?off = "off + length (enc e)"
  show ?case
  proof (cases "?off > cap")
    case True
    then show ?thesis using Cons.prems by (intro exI [of _ 0]) simp
  next
    case False
    then have "?off \<le> cap" by simp
    from Cons.IH [OF this] obtain k where "k \<le> length es" "pack_records enc cap ?off es = concat (map enc (take k es))"
      "?off + length (pack_records enc cap ?off es) \<le> cap"
      "k < length es \<longrightarrow> cap < ?off + length (pack_records enc cap ?off es) + length (enc (es ! k))"
      by blast
    then show ?thesis using False by (intro exI [of _ "Suc k"] conjI impI) simp_all
  qed
qed simp

text \<open>The contract of a record format: the reader takes one record off the front and goes on.\<close>

locale packed_records =
  fixes enc :: "'a \<Rightarrow> byte list" and ok :: "'a \<Rightarrow> bool" and seen :: "'a \<Rightarrow> 'r" and parse :: "byte list \<Rightarrow> 'r list"
  assumes parse_Nil: "parse [] = []"
    and parse_enc: "ok e \<Longrightarrow> parse (enc e @ rest) = seen e # parse rest"
begin

lemma parse_concat: "\<forall>e \<in> set es. ok e \<Longrightarrow> parse (concat (map enc es)) = map seen es"
  by (induction es) (simp_all add: parse_Nil parse_enc)

lemma packed_roundtrip:
  assumes "\<forall>e \<in> set es. ok e"
  shows "\<exists>k \<le> length es. parse (pack_records enc cap 0 es) = map seen (take k es) \<and> length (pack_records enc cap 0 es) \<le> cap
    \<and> (k < length es \<longrightarrow> cap < length (pack_records enc cap 0 es) + length (enc (es ! k)))"
proof -
  obtain k where k: "k \<le> length es" "pack_records enc cap 0 es = concat (map enc (take k es))"
    "0 + length (pack_records enc cap 0 es) \<le> cap"
    "k < length es \<longrightarrow> cap < 0 + length (pack_records enc cap 0 es) + length (enc (es ! k))"
    using pack_records_prefix [of 0 cap es enc] by blast
  have "\<forall>e \<in> set (take k es). ok e" using assms by (auto dest: in_set_takeD)
  from parse_concat [OF this] k show ?thesis by (intro exI [of _ k]) simp
qed

end

end
