(* ===== verification/Wifi_Connect.thy ===== *)
theory Wifi_Connect
  imports Ti_Wifi Packing
begin

text \<open>
  What the Wi-Fi driver guarantees: a connect always ends, with a final state published and the SPI
  slave left usable, and a scan reply is the longest run of whole records that fits.
\<close>

section \<open>What waiting leaves alone\<close>

definition drv_ok :: "'h spi_drv \<Rightarrow> bool" where
  "drv_ok D \<longleftrightarrow> drv_accepts D \<and> (\<forall>b h. snd (SPI_open D b h))"

text \<open>The connect latch is untouched, and a slave in service stays in service.\<close>

definition calm :: "'h spi_drv \<Rightarrow> 'h ti_wifi \<Rightarrow> 'h ti_wifi \<Rightarrow> bool" where
  "calm D w w' \<longleftrightarrow> conn_state w' = conn_state w \<and> conn_fail_reason w' = conn_fail_reason w
     \<and> (drv_ok D \<longrightarrow> (good (spi (board w)) \<longrightarrow> good (spi (board w'))) \<and> (usable (spi (board w)) \<longrightarrow> usable (spi (board w'))))"

lemma calm_refl [simp]: "calm D w w"
  by (simp add: calm_def)

lemma calm_trans: "calm D w w1 \<Longrightarrow> calm D w1 w2 \<Longrightarrow> calm D w w2"
  by (simp add: calm_def)

lemma calm_update [simp]:
  "calm D w (w'\<lparr>wifi_event_sync := b\<rparr>) = calm D w w'" "calm D w (w'\<lparr>wifi_last_status := i\<rparr>) = calm D w w'"
  "calm D w (w'\<lparr>wifi_last_reason_tag := tag\<rparr>) = calm D w w'" "calm D w (w'\<lparr>wifi_scan_cache := ns\<rparr>) = calm D w w'"
  "calm D w (w'\<lparr>wifi_cb_event_count := c\<rparr>) = calm D w w'" "calm D w (w'\<lparr>wifi_cb_last_id := n\<rparr>) = calm D w w'"
  "calm D w (w'\<lparr>wifi_started := b\<rparr>) = calm D w w'" "calm D w (w'\<lparr>wifi_sta_role_up := b\<rparr>) = calm D w w'"
  "calm D w (w'\<lparr>wifi_own_disconnect_issued := b\<rparr>) = calm D w w'" "calm D w (w'\<lparr>power := p\<rparr>) = calm D w w'"
  "calm D w (w'\<lparr>g_connect_fail_skip_ok := b\<rparr>) = calm D w w'" "calm D w (w'\<lparr>g_connect_fail_skip_pending := b\<rparr>) = calm D w w'"
  by (simp_all add: calm_def)

lemma good_core_do [simp]: "good (core_do f t) = good t"
  by (simp add: good_def serving_def spi_inv_def core_do_eq)

lemma good_core: "good (t\<lparr>core := c\<rparr>) = good t"
  by (simp add: good_def serving_def spi_inv_def)

lemma usable_core: "usable (t\<lparr>core := c\<rparr>) = usable t" "usable (core_do f t) = usable t"
  by (simp_all add: usable_def good_core) (simp add: core_do_eq)

lemma calm_do [simp]: "calm D w (wifi_do f w') = calm D w w'"
  by (simp add: calm_def wifi_do_def usable_core)

lemma calm_call: "wifi_call f w = (w', x) \<Longrightarrow> calm D w w'"
  by (auto simp: wifi_call_def core_call_eq calm_def good_core usable_core)

lemma calm_board:
  "(drv_ok D \<Longrightarrow> good (spi (board w)) \<Longrightarrow> good (spi (f (board w)))) \<Longrightarrow>
   (drv_ok D \<Longrightarrow> usable (spi (board w)) \<Longrightarrow> usable (spi (f (board w)))) \<Longrightarrow> calm D w (wifi_board f w)"
  by (simp add: calm_def wifi_board_def)

lemma good_kept: "good t \<Longrightarrow> spi_inv t' \<Longrightarrow> flag_kept t t' \<Longrightarrow> good t'"
  by (simp add: good_def serving_def flag_kept_def)

lemma good_on_transfer:
  assumes "good t"
  shows "good (on_transfer P D st (t\<lparr>armed := None\<rparr>))"
proof -
  have "good (t\<lparr>armed := None\<rparr>)" using assms by (simp add: good_def serving_def spi_inv_def)
  then show ?thesis
    by (rule good_kept [OF _ spi_inv_on_transfer flag_kept_on_transfer]) (use \<open>good (t\<lparr>armed := None\<rparr>)\<close> in \<open>simp add: good_def\<close>)
qed

lemma good_clock: "good t \<Longrightarrow> good (fst (spi_clock P D bs t))"
  using good_kept [of t "fst (spi_clock P D bs t)"] spi_inv_clock [of t P D bs] flag_kept_step [of "Clock bs" t P D]
  by (simp add: good_def serving_def)

lemma good_serving: "good t \<Longrightarrow> dma_serving t"
  by (simp add: good_def dma_serving_def)

lemma usable_on_transfer:
  assumes "usable t" and "drv_accepts D" and "st \<in> {SPI_TRANSFER_COMPLETED, SPI_TRANSFER_OTHER}"
  shows "usable (on_transfer P D (Some st) (t\<lparr>armed := None\<rparr>))"
  using on_transfer_arms [of "t\<lparr>armed := None\<rparr>" D st P] good_on_transfer [of t P D "Some st"] good_serving [of t] assms
  by (simp add: usable_def) (simp add: arms_from_def)

lemma usable_clock:
  assumes "usable t" and "drv_accepts D"
  shows "usable (fst (spi_clock P D bs t))"
proof (cases "armed t")
  case (Some x)
  let ?u = "xfer_in x bs (t\<lparr>armed := None\<rparr>)"
  have u: "dma_serving ?u" "spi_handle ?u = spi_handle t"
    using good_serving [of t] assms(1)
    by (auto simp: usable_def xfer_in_def dma_serving_def serving_def split: spi_rx.splits)
  show ?thesis
    using on_transfer_arms [OF u(1) assms(2), of SPI_TRANSFER_COMPLETED P] u(2) good_clock [of t P D bs] assms(1) Some
    by (auto simp: spi_clock_def usable_def arms_from_def)
qed (use assms in \<open>simp add: spi_clock_def\<close>)

lemma good_heal:
  assumes "drv_ok D" and "good (spi b)"
  shows "good (spi (cc3501e_hw_link_heal P D c b))"
proof -
  have d: "drv_accepts D" "\<forall>b h. snd (SPI_open D b h)" using assms(1) by (simp_all add: drv_ok_def)
  define b4 where "b4 = heal_stall P D (heal_arm_fail P D (heal_resync P D (heal_dead P D b)))"
  have g1: "good (spi (heal_dead P D b))" by (rule stage_good [OF assms(2) heal_stages(1) [OF assms(2) d]])
  have g2: "good (spi (heal_resync P D (heal_dead P D b)))" by (rule stage_good [OF g1 heal_stages(2) [OF g1 d]])
  have g3: "good (spi (heal_arm_fail P D (heal_resync P D (heal_dead P D b))))"
    by (rule stage_good [OF g2 heal_stages(3) [OF g2 d]])
  have g4: "good (spi b4)" unfolding b4_def by (rule stage_good [OF g3 heal_stages(4) [OF g3 d]])
  have q: "good (spi (board_reinit P D (board_busy P (b4\<lparr>quiet_state := qs\<rparr>))))" for qs
    using board_reinit_heals(1) [OF _ d, of "board_busy P (b4\<lparr>quiet_state := qs\<rparr>)" P] busy_good [of "b4\<lparr>quiet_state := qs\<rparr>" P] g4
    by (simp add: healed_good)
  show ?thesis
    unfolding cc3501e_hw_link_heal_def b4_def [symmetric] heal_quiet_def
    using g4 q by (simp add: Let_def split: prod.split)
qed

lemma stage_usable: "usable (spi b) \<Longrightarrow> stage b b' f \<Longrightarrow> usable (spi b')"
  by (auto simp: stage_def healed_usable split: if_splits)

lemma usable_heal:
  assumes "drv_ok D" and "usable (spi b)"
  shows "usable (spi (cc3501e_hw_link_heal P D c b))"
proof -
  have d: "drv_accepts D" "\<forall>b h. snd (SPI_open D b h)" using assms(1) by (simp_all add: drv_ok_def)
  define b4 where "b4 = heal_stall P D (heal_arm_fail P D (heal_resync P D (heal_dead P D b)))"
  have u1: "usable (spi (heal_dead P D b))"
    by (rule stage_usable [OF assms(2) heal_stages(1) [OF usable_good [OF assms(2)] d]])
  have u2: "usable (spi (heal_resync P D (heal_dead P D b)))"
    by (rule stage_usable [OF u1 heal_stages(2) [OF usable_good [OF u1] d]])
  have u3: "usable (spi (heal_arm_fail P D (heal_resync P D (heal_dead P D b))))"
    by (rule stage_usable [OF u2 heal_stages(3) [OF usable_good [OF u2] d]])
  have u4: "usable (spi b4)" unfolding b4_def by (rule stage_usable [OF u3 heal_stages(4) [OF usable_good [OF u3] d]])
  have q: "usable (spi (board_reinit P D (board_busy P (b4\<lparr>quiet_state := qs\<rparr>))))" for qs
    using board_reinit_heals(1) [OF _ d, of "board_busy P (b4\<lparr>quiet_state := qs\<rparr>)" P] busy_good [of "b4\<lparr>quiet_state := qs\<rparr>" P]
      usable_good [OF u4]
    by (simp add: healed_usable)
  show ?thesis
    unfolding cc3501e_hw_link_heal_def b4_def [symmetric] heal_quiet_def
    using u4 q by (simp add: Let_def split: prod.split)
qed

lemma calm_heal: "calm D w (wifi_heal P D w)"
  unfolding wifi_heal_def by (rule calm_board) (rule good_heal, assumption+, rule usable_heal)

lemma calm_reinit: "wifi_reinit P D w = (w', ok) \<Longrightarrow> calm D w w'"
proof -
  assume r: "wifi_reinit P D w = (w', ok)"
  have h: "healed (fst (bridge_transport_spi_hw_reinit P D (spi (board w))))" if "drv_ok D" "good (spi (board w))"
    using reinit_heals(1) [OF that(2)] that(1) by (simp add: drv_ok_def)
  then show ?thesis
    using r healed_good [OF h] healed_usable [OF h] usable_good [of "spi (board w)"]
    by (auto simp: wifi_reinit_def calm_def split: prod.splits)
qed

text \<open>A re-open brings a slave into service that had lost its transfer.\<close>

lemma reinit_usable:
  assumes "drv_ok D" and "good (spi (board w))"
  shows "healed (spi (board (fst (wifi_reinit P D w))))"
  using reinit_heals(1) [OF assms(2), of D P] assms(1) by (simp add: wifi_reinit_def drv_ok_def split_beta)

lemma good_takes_dma: "good (spi (board w)) \<Longrightarrow> good (spi (board (radio_takes_dma w)))"
  by (simp add: radio_takes_dma_def wifi_board_def good_def serving_def spi_inv_def)

lemma takes_dma_fields [simp]:
  "conn_state (radio_takes_dma w) = conn_state w" "conn_fail_reason (radio_takes_dma w) = conn_fail_reason w"
  by (simp_all add: radio_takes_dma_def wifi_board_def)

lemma calm_event: "calm D w (wifi_event_cb W ev w)"
  by (cases ev) (simp_all add: wifi_event_cb_def wifi_note_reason_def calm_def Let_def)

lemma calm_arrive: "calm D w (arrive P D W a w)"
proof (cases a)
  case (Clocked bs)
  have "calm D w (wifi_board (\<lambda>b. b\<lparr>spi := fst (spi_clock P D bs (spi b))\<rparr>) w)"
    by (rule calm_board) (simp_all add: good_clock usable_clock drv_ok_def)
  then show ?thesis by (simp add: arrive_def Clocked)
next
  case Xfer_Failed
  have "calm D w (wifi_board (\<lambda>b. if armed (spi b) = None then b
      else b\<lparr>spi := on_transfer P D (Some SPI_TRANSFER_OTHER) ((spi b)\<lparr>armed := None\<rparr>)\<rparr>) w)"
    by (rule calm_board) (simp_all add: good_on_transfer usable_on_transfer drv_ok_def)
  then show ?thesis by (simp add: arrive_def Xfer_Failed)
qed (simp add: arrive_def calm_event)

lemma calm_fold: "calm D w (fold (arrive P D W) as w)"
  by (induction as arbitrary: w) (auto intro: calm_trans [OF calm_arrive])

lemma calm_deliver: "calm D w (deliver P D W w)"
proof -
  obtain w1 as where c: "wifi_call (arrivals W) w = (w1, as)" by fastforce
  from calm_trans [OF calm_call [OF c] calm_fold] show ?thesis by (simp add: deliver_def c)
qed

lemma calm_wait: "osi_SyncObjWait P D W ms w = (w', ok) \<Longrightarrow> calm D w w'"
  using calm_trans [OF _ calm_deliver, of D w "wifi_do (sync_pause W ms) w" P W]
  by (auto simp: osi_SyncObjWait_def Let_def split: if_splits)

lemma calm_usleep: "calm D w (wifi_usleep P D W us w)"
  using calm_trans [OF _ calm_deliver, of D w "wifi_do (wlan_usleep W us) w" P W] by (simp add: wifi_usleep_def)

lemma calm_push [simp]: "calm D w (wifi_push P opc w') = calm D w w'"
  by (simp add: calm_def wifi_push_def good_core usable_core Let_def split: prod.split)

section \<open>The waits end\<close>

text \<open>
  The clock moves forward across a slice of waiting or sleeping and the heal that follows it, by
  less than half its range.
\<close>

definition clock_runs :: "'h platform \<Rightarrow> 'h spi_drv \<Rightarrow> 'h wlan_env \<Rightarrow> bool" where
  "clock_runs P D W \<longleftrightarrow> (\<forall>w ms. 0 < ms \<longrightarrow> ms \<le> CC3501E_WIFI_HEAL_SLICE_MS \<longrightarrow>
     (\<not> snd (osi_SyncObjWait P D W ms w) \<longrightarrow>
        (let d = wifi_uptime P (wifi_heal P D (fst (osi_SyncObjWait P D W ms w))) - wifi_uptime P w
         in 0 < unat d \<and> unat d < 2 ^ 31))
     \<and> (let d = wifi_uptime P (wifi_heal P D (wifi_usleep P D W (ms * 1000) w)) - wifi_uptime P w
        in 0 < unat d \<and> unat d < 2 ^ 31))"

lemma clock_runs_wait:
  assumes "clock_runs P D W" and "0 < ms" and "ms \<le> CC3501E_WIFI_HEAL_SLICE_MS" and "osi_SyncObjWait P D W ms w = (w1, False)"
  shows "0 < unat (wifi_uptime P (wifi_heal P D w1) - wifi_uptime P w)"
    and "unat (wifi_uptime P (wifi_heal P D w1) - wifi_uptime P w) < 2 ^ 31"
  using assms(1) [unfolded clock_runs_def Let_def, rule_format, OF assms(2,3), of w] assms(4) by simp_all

lemma clock_runs_sleep:
  assumes "clock_runs P D W" and "0 < ms" and "ms \<le> CC3501E_WIFI_HEAL_SLICE_MS"
  shows "0 < unat (wifi_uptime P (wifi_heal P D (wifi_usleep P D W (ms * 1000) w)) - wifi_uptime P w)"
    and "unat (wifi_uptime P (wifi_heal P D (wifi_usleep P D W (ms * 1000) w)) - wifi_uptime P w) < 2 ^ 31"
  using assms(1) [unfolded clock_runs_def Let_def, rule_format, OF assms(2,3), of w] by simp_all

lemma elapsed_grows:
  fixes a s a' span_ms :: u32
  assumes "a - s < span_ms" and "unat span_ms < 2 ^ 31" and "0 < unat (a' - a)" and "unat (a' - a) < 2 ^ 31"
  shows "unat (a - s) < unat (a' - s)"
proof -
  have "unat (a - s) + unat (a' - a) < 2 ^ 32" using assms by (simp add: word_less_nat_alt)
  then have "unat ((a - s) + (a' - a)) = unat (a - s) + unat (a' - a)" using unat_add_lem [of "a - s" "a' - a"] by simp
  then have "unat (a' - s) = unat (a - s) + unat (a' - a)" by simp
  then show ?thesis using assms(3) by linarith
qed

lemma slice_bounds:
  assumes "e < span_ms"
  shows "0 < heal_slice span_ms e" and "heal_slice span_ms e \<le> CC3501E_WIFI_HEAL_SLICE_MS"
proof -
  have "span_ms - e \<noteq> 0" using assms by auto
  then show "0 < heal_slice span_ms e" by (simp add: heal_slice_def Let_def word_gt_0 CC3501E_WIFI_HEAL_SLICE_MS_def)
  show "heal_slice span_ms e \<le> CC3501E_WIFI_HEAL_SLICE_MS" by (simp add: heal_slice_def Let_def less_imp_le)
qed

lemma assoc_wait_ends:
  assumes "clock_runs P D W" and "unat span_ms < 2 ^ 31"
  shows "\<exists>w' r. assoc_wait_loop P D W span_ms start rv w = Some (w', r) \<and> calm D w w'"
proof (induction "unat span_ms - unat (wifi_uptime P w - start)" arbitrary: w rv rule: less_induct)
  case less
  let ?e = "wifi_uptime P w - start"
  show ?case
  proof (cases "span_ms \<le> ?e")
    case True
    then show ?thesis by (subst assoc_wait_loop.simps) simp
  next
    case False
    then have lt: "?e < span_ms" by simp
    obtain w1 ok where v: "osi_SyncObjWait P D W (heal_slice span_ms ?e) w = (w1, ok)" by fastforce
    note c1 = calm_wait [OF v]
    show ?thesis
    proof (cases ok)
      case True
      then show ?thesis using False v c1 by (subst assoc_wait_loop.simps) auto
    next
      case nok: False
      let ?w = "wifi_heal P D w1"
      note d = clock_runs_wait [OF assms(1) slice_bounds [OF lt] v [unfolded eq_False [THEN iffD2, OF nok]]]
      have "unat ?e < unat (wifi_uptime P ?w - start)" by (rule elapsed_grows [OF lt assms(2) d])
      moreover have "unat ?e < unat span_ms" using lt by (simp add: word_less_nat_alt)
      ultimately have m: "unat span_ms - unat (wifi_uptime P ?w - start) < unat span_ms - unat ?e" by linarith
      obtain w' r where i: "assoc_wait_loop P D W span_ms start False ?w = Some (w', r)" "calm D ?w w'"
        using less.hyps [OF m] by blast
      have "calm D w w'" using calm_trans [OF c1 calm_trans [OF calm_heal i(2)]] .
      then show ?thesis using False v nok i(1) by (subst assoc_wait_loop.simps) simp
    qed
  qed
qed

lemma sleep_ends:
  assumes "clock_runs P D W" and "unat span_ms < 2 ^ 31"
  shows "\<exists>w'. sleep_loop P D W span_ms start w = Some w' \<and> calm D w w'"
proof (induction "unat span_ms - unat (wifi_uptime P w - start)" arbitrary: w rule: less_induct)
  case less
  let ?e = "wifi_uptime P w - start"
  show ?case
  proof (cases "span_ms \<le> ?e")
    case True
    then show ?thesis by (subst sleep_loop.simps) simp
  next
    case False
    then have lt: "?e < span_ms" by simp
    let ?w1 = "wifi_usleep P D W (heal_slice span_ms ?e * 1000) w" and ?w = "wifi_heal P D (wifi_usleep P D W (heal_slice span_ms ?e * 1000) w)"
    note d = clock_runs_sleep [OF assms(1) slice_bounds [OF lt], of w]
    have "unat ?e < unat (wifi_uptime P ?w - start)" by (rule elapsed_grows [OF lt assms(2) d])
    moreover have "unat ?e < unat span_ms" using lt by (simp add: word_less_nat_alt)
    ultimately have m: "unat span_ms - unat (wifi_uptime P ?w - start) < unat span_ms - unat ?e" by linarith
    obtain w' where i: "sleep_loop P D W span_ms start ?w = Some w'" "calm D ?w w'"
      using less.hyps [OF m] by blast
    have "calm D w w'" using calm_trans [OF calm_usleep calm_trans [OF calm_heal i(2)]] .
    then show ?thesis using False i(1) by (subst sleep_loop.simps) simp
  qed
qed

lemma host_frame_wait_ends:
  assumes "step \<noteq> 0" and "unat win + unat step \<le> 2 ^ 32"
  shows "\<exists>w' r. wait_host_frame_loop (\<lambda>v. (v, n v)) (\<lambda>ms. wifi_usleep P D W (ms * 1000)) win step base e w = Some (w', r)
    \<and> calm D w w'"
proof (induction "unat win - unat e" arbitrary: e w rule: less_induct)
  case less
  let ?w = "wifi_usleep P D W (step * 1000) w"
  show ?case
  proof (cases "e < win \<and> n ?w = base")
    case True
    have s: "0 < unat step" using assms(1) by (simp add: unat_gt_0)
    have lt: "unat e < unat win" using True by (simp add: word_less_nat_alt)
    then have "unat (e + step) = unat e + unat step" using unat_add_lem [of e step] assms(2) by simp
    then have m: "unat win - unat (e + step) < unat win - unat e" using lt s by linarith
    obtain w' r where "wait_host_frame_loop (\<lambda>v. (v, n v)) (\<lambda>ms. wifi_usleep P D W (ms * 1000)) win step base (e + step) ?w
        = Some (w', r)" "calm D ?w w'" using less.hyps [OF m] by blast
    then show ?thesis using True calm_trans [OF calm_usleep] by (subst wait_host_frame_loop.simps) auto
  next
    case False
    then show ?thesis using calm_usleep by (subst wait_host_frame_loop.simps) auto
  qed
qed

lemma skip_ends: "\<exists>w'. wifi_connect_fail_mark_skip P D W w = Some w' \<and> calm D w w'"
proof -
  have "CC3501E_WIFI_CONNECT_FAIL_SKIP_STEP_MS \<noteq> 0"
    "unat CC3501E_WIFI_CONNECT_FAIL_SKIP_WINDOW_MS + unat CC3501E_WIFI_CONNECT_FAIL_SKIP_STEP_MS \<le> 2 ^ 32"
    by (simp_all add: CC3501E_WIFI_CONNECT_FAIL_SKIP_STEP_MS_def CC3501E_WIFI_CONNECT_FAIL_SKIP_WINDOW_MS_def)
  from host_frame_wait_ends [OF this, of "\<lambda>v. host_txn_count W (wifi_hw v)" P D W "host_txn_count W (wifi_hw w)" 0 w] show ?thesis
    by (auto simp: wifi_connect_fail_mark_skip_def wifi_wait_host_frame_def)
qed

section \<open>The association loop\<close>

lemma pass_fail_cases: "pass_fail first f reason = Pass_Fail g q \<Longrightarrow> g = f \<or> (\<exists>r. first = Some (g, r))"
  by (auto simp: pass_fail_def split: option.splits)

lemma pass_fail_not [simp]: "pass_fail first f reason \<noteq> Pass_Retry q ev" "pass_fail first f reason \<noteq> Pass_Ok"
  by (auto simp: pass_fail_def split: option.splits)

lemma rejected_cases:
  "assoc_rejected P start first w = Pass_Retry q ev \<Longrightarrow> first = None"
  "assoc_rejected P start first w = Pass_Fail g q \<Longrightarrow> g = WIFI_FAIL_REJECTED \<or> (\<exists>r. first = Some (g, r))"
  "assoc_rejected P start first w \<noteq> Pass_Ok"
  by (auto simp: assoc_rejected_def Let_def split: if_splits dest: pass_fail_cases)

text \<open>A pass ends; it asks for a retry only the first time, and a failure it reports has a cause.\<close>

definition pass_sound :: "(wifi_fail \<times> u16) option \<Rightarrow> pass_result \<Rightarrow> bool" where
  "pass_sound first r \<longleftrightarrow> (\<forall>q ev. r = Pass_Retry q ev \<longrightarrow> first = None)
     \<and> (\<forall>g q. r = Pass_Fail g q \<longrightarrow> g \<noteq> WIFI_FAIL_NONE \<or> (\<exists>p. first = Some (WIFI_FAIL_NONE, p)))"

lemma pass_sound_fail: "f \<noteq> WIFI_FAIL_NONE \<Longrightarrow> pass_sound first (pass_fail first f reason)"
  using pass_fail_cases [of first f reason] by (fastforce simp: pass_sound_def)

lemma pass_sound_rejected: "pass_sound first (assoc_rejected P start first w)"
  using rejected_cases [of P start first w] by (fastforce simp: pass_sound_def)

lemma assoc_pass_ends:
  assumes "clock_runs P D W"
  shows "\<exists>w' r. assoc_pass P D W ssid psk security start first w = Some (w', r) \<and> calm D w w' \<and> pass_sound first r"
proof -
  let ?w = "w\<lparr>wifi_event_sync := False, wifi_last_status := 0, wifi_last_reason_tag := 0\<rparr>"
  obtain w1 kick where k: "wifi_call (Wlan_Connect W ssid (cc3501e_wifi_sec security) psk) ?w = (w1, kick)" by fastforce
  have c1: "calm D w w1" using calm_trans [OF _ calm_call [OF k], of D w] by simp
  let ?e = "wifi_uptime P w1 - start"
  let ?m = "if ?e < CC3501E_WIFI_ASSOC_WAIT_MS then CC3501E_WIFI_ASSOC_WAIT_MS - ?e else 0"
  have "unat ?m < 2 ^ 31"
  proof (cases "?e < CC3501E_WIFI_ASSOC_WAIT_MS")
    case True
    then have "unat (CC3501E_WIFI_ASSOC_WAIT_MS - ?e) = unat CC3501E_WIFI_ASSOC_WAIT_MS - unat ?e"
      by (simp add: unat_sub less_imp_le)
    then show ?thesis using True by (simp add: CC3501E_WIFI_ASSOC_WAIT_MS_def)
  qed simp
  from assoc_wait_ends [OF assms this, of "wifi_uptime P w1" True w1] obtain w2 ok where
    v: "wifi_assoc_wait_sliced P D W ?m w1 = Some (w2, ok)" "calm D w1 w2" by (auto simp: wifi_assoc_wait_sliced_def)
  have c2: "calm D w w2" by (rule calm_trans [OF c1 v(2)])
  have c3: "calm D w (deliver P D W w2)" by (rule calm_trans [OF c2 calm_deliver])
  have snd: "pass_sound first (pass_fail first WIFI_FAIL_KICK 0)"
    "pass_sound first (pass_fail first WIFI_FAIL_TIMEOUT q)" "pass_sound first Pass_Ok" for q
    by (simp_all add: pass_sound_fail) (simp add: pass_sound_def)
  show ?thesis
    using k v(1) c1 c2 c3 snd pass_sound_rejected unfolding assoc_pass_def k Let_def by auto
qed

lemma retry_delay_ends:
  assumes "clock_runs P D W"
  shows "\<exists>w'. assoc_retry_delay P D W ev w = Some w' \<and> calm D w w'"
proof -
  let ?w = "w\<lparr>wifi_event_sync := False\<rparr>"
  define w1 where "w1 = wifi_clear_stale_assoc P D W ?w"
  obtain u r where d: "wifi_call (Wlan_Disconnect W) ?w = (u, r)" by fastforce
  have "calm D w u" using calm_trans [OF _ calm_call [OF d], of D w] by simp
  then have c1: "calm D w w1"
    using calm_trans [OF _ calm_deliver, of D w u P W] by (simp add: w1_def wifi_clear_stale_assoc_def d)
  obtain w2 ok where v: "osi_SyncObjWait P D W CC3501E_WIFI_RETRY_DISCONNECT_WAIT_MS w1 = (w2, ok)" by fastforce
  let ?t = "wifi_retry_delay_ms ev CC3501E_WIFI_RETRY_COMEBACK_DELAY_MS CC3501E_WIFI_RETRY_DENYLIST_DELAY_MS"
  have "unat ?t < 2 ^ 31"
    by (simp add: wifi_retry_delay_ms_def CC3501E_WIFI_RETRY_COMEBACK_DELAY_MS_def CC3501E_WIFI_RETRY_DENYLIST_DELAY_MS_def)
  from sleep_ends [OF assms this, of "wifi_uptime P w2" w2] obtain w3 where
    "wifi_sleep_sliced P D W ?t w2 = Some w3" "calm D w2 w3" by (auto simp: wifi_sleep_sliced_def)
  then show ?thesis
    using calm_trans [OF c1 calm_trans [OF calm_wait [OF v]]] v by (auto simp: assoc_retry_delay_def w1_def Let_def)
qed

text \<open>So there are two passes at most, and the loop ends.\<close>

lemma assoc_loop_ends:
  assumes "clock_runs P D W"
  shows "\<exists>w' out. assoc_loop P D W ssid psk security start None w = Some (w', out) \<and> calm D w w'
    \<and> (\<forall>f q. out = Some (f, q) \<longrightarrow> f \<noteq> WIFI_FAIL_NONE)"
proof -
  obtain w1 r1 where p1: "assoc_pass P D W ssid psk security start None w = Some (w1, r1)" "calm D w w1" "pass_sound None r1"
    using assoc_pass_ends [OF assms] by blast
  show ?thesis
  proof (cases r1)
    case (Pass_Retry q ev)
    obtain w2 where d: "assoc_retry_delay P D W ev w1 = Some w2" "calm D w1 w2" using retry_delay_ends [OF assms] by blast
    let ?first = "Some (WIFI_FAIL_REJECTED, q)"
    obtain w3 r2 where p2: "assoc_pass P D W ssid psk security start ?first w2 = Some (w3, r2)" "calm D w2 w3" "pass_sound ?first r2"
      using assoc_pass_ends [OF assms] by blast
    have c: "calm D w w3" by (rule calm_trans [OF p1(2) calm_trans [OF d(2) p2(2)]])
    have l: "assoc_loop P D W ssid psk security start None w = assoc_loop P D W ssid psk security start ?first w2"
      by (subst assoc_loop.simps) (simp add: p1(1) Pass_Retry d(1))
    show ?thesis
      unfolding l by (subst assoc_loop.simps, cases r2) (use p2 c in \<open>auto simp: pass_sound_def\<close>)
  qed (use p1 in \<open>(subst assoc_loop.simps, auto simp: pass_sound_def)+\<close>)
qed

section \<open>The whole connect\<close>

lemma calm_reinit_fst [simp]: "calm D w (fst (wifi_reinit P D w))"
  using calm_reinit [of P D w "fst (wifi_reinit P D w)" "snd (wifi_reinit P D w)"] by simp

lemma calm_call_fst [simp]: "calm D w (fst (wifi_call f w))"
  using calm_call [of f w "fst (wifi_call f w)" "snd (wifi_call f w)"] by simp

lemma calm_power: "calm D w (wifi_apply_power W w)"
  by (simp add: wifi_apply_power_def split: prod.split)

lemma calm_lazy_start [simp]: "calm D w (fst (cc3501e_hw_wifi_lazy_start P D W w))"
proof -
  let ?w1 = "fst (wifi_call (osi_SyncObjCreate W) w)"
  let ?w2 = "fst (wifi_call (Wlan_Start W) ?w1)"
  let ?w3 = "radio_takes_dma (deliver P D W ?w2)"
  have c: "calm D w (deliver P D W ?w2)"
    using calm_trans [OF calm_call_fst calm_trans [OF calm_call_fst calm_deliver]] .
  have "healed (spi (board (fst (wifi_reinit P D ?w3))))" if "drv_ok D" "good (spi (board w))"
    using c that by (intro reinit_usable [OF that(1)] good_takes_dma) (simp add: calm_def)
  moreover have "calm D ?w3 (fst (wifi_reinit P D ?w3))" by simp
  ultimately have "calm D w (fst (wifi_reinit P D ?w3))"
    using c healed_good healed_usable usable_good by (auto simp: calm_def)
  then show ?thesis
    using calm_call_fst by (simp add: cc3501e_hw_wifi_lazy_start_def split_beta Let_def)
qed

lemma calm_ensure_role [simp]: "calm D w (fst (cc3501e_hw_wifi_ensure_sta_role P D W w))"
proof -
  let ?w1 = "fst (cc3501e_hw_wifi_lazy_start P D W w)"
  let ?w2 = "fst (wifi_call (Wlan_Set (wlan_power W) WLAN_SET_STA_WIFI_BAND) ?w1)"
  let ?w4 = "deliver P D W (fst (wifi_call (Wlan_RoleUp_STA W) ?w2))"
  have c4: "calm D w ?w4"
    using calm_trans [OF calm_lazy_start calm_trans [OF calm_call_fst calm_trans [OF calm_call_fst calm_deliver]]] .
  moreover have "calm D w (wifi_apply_power W (?w4\<lparr>wifi_sta_role_up := True\<rparr>))"
    using calm_trans [OF _ calm_power, of D w "?w4\<lparr>wifi_sta_role_up := True\<rparr>" W] c4 by simp
  ultimately show ?thesis
    using calm_lazy_start by (simp add: cc3501e_hw_wifi_ensure_sta_role_def split_beta Let_def)
qed

lemma calm_dhcp_poll: "calm D w (fst (dhcp_poll P D W n kicks w))"
proof (induction n arbitrary: w kicks)
  case (Suc n)
  obtain w1 k1 where k: "dhcp_kick W kicks w = (w1, k1)" by fastforce
  have "calm D w w1" using k by (auto simp: dhcp_kick_def split: if_splits option.splits prod.splits)
  from calm_trans [OF this calm_trans [OF calm_usleep calm_trans [OF calm_heal Suc.IH]]] show ?case
    by (simp add: k split_beta)
qed simp

lemma calm_clear_stale: "calm D w (wifi_clear_stale_assoc P D W w)"
  using calm_trans [OF calm_call_fst calm_deliver, of D w P W "Wlan_Disconnect W"] by (simp add: wifi_clear_stale_assoc_def)

text \<open>Publishing an outcome sets the latch and queues an event.\<close>

lemma parked_core: "parked (t\<lparr>core := c\<rparr>) = parked t"
  by (simp add: parked_def serving_def spi_inv_def next_xfer_def)

lemma push_fields:
  "conn_state (wifi_push P opc w) = conn_state w" "conn_fail_reason (wifi_push P opc w) = conn_fail_reason w"
  "good (spi (board (wifi_push P opc w))) = good (spi (board w))"
  "usable (spi (board (wifi_push P opc w))) = usable (spi (board w))"
  "parked (spi (board (wifi_push P opc w))) = parked (spi (board w))"
  "g_connect_reinit_pending (wifi_push P opc w) = g_connect_reinit_pending w"
  "g_connect_reinit_armed (wifi_push P opc w) = g_connect_reinit_armed w"
  by (simp_all add: wifi_push_def Let_def good_core usable_core parked_core split: prod.split)

lemma conn_set_fields:
  "conn_state (wifi_conn_set P W st f q w) = st" "conn_fail_reason (wifi_conn_set P W st f q w) = f"
  "good (spi (board (wifi_conn_set P W st f q w))) = good (spi (board w))"
  "usable (spi (board (wifi_conn_set P W st f q w))) = usable (spi (board w))"
  "parked (spi (board (wifi_conn_set P W st f q w))) = parked (spi (board w))"
  "g_connect_reinit_pending (wifi_conn_set P W st f q w) = g_connect_reinit_pending w"
  "g_connect_reinit_armed (wifi_conn_set P W st f q w) = g_connect_reinit_armed w"
  by (simp_all add: wifi_conn_set_def Let_def push_fields)

lemma connect_failed_ends:
  "\<exists>w'. connect_failed P D W f q w = Some w' \<and> conn_state w' = WIFI_CONN_FAILED \<and> conn_fail_reason w' = f
    \<and> (drv_ok D \<longrightarrow> usable (spi (board w)) \<longrightarrow> usable (spi (board w')))"
proof -
  obtain w1 where "wifi_connect_fail_mark_skip P D W w = Some w1" "calm D w w1" using skip_ends by blast
  then show ?thesis by (simp add: connect_failed_def conn_set_fields calm_def)
qed

definition settled :: "'h spi_drv \<Rightarrow> 'h ti_wifi \<Rightarrow> 'h ti_wifi \<Rightarrow> int \<Rightarrow> bool" where
  "settled D w w' rv \<longleftrightarrow>
     (if rv = CC3501E_HW_OK then conn_state w' = WIFI_CONNECTED \<and> conn_fail_reason w' = WIFI_FAIL_NONE \<and> g_connect_reinit_pending w'
      else conn_state w' = WIFI_CONN_FAILED \<and> conn_fail_reason w' \<noteq> WIFI_FAIL_NONE)
     \<and> (drv_ok D \<and> usable (spi (board w)) \<longrightarrow> usable (spi (board w'))
          \<and> (rv = CC3501E_HW_OK \<longrightarrow> parked (spi (board w')) \<and> g_connect_reinit_armed w'))"

lemma settled_calm: "calm D w w1 \<Longrightarrow> settled D w1 w' rv \<Longrightarrow> settled D w w' rv"
  by (auto simp: settled_def calm_def split: if_splits)

lemma lease_settles: "\<exists>w' rv. connect_lease P D W w = Some (w', rv) \<and> settled D w w' rv"
proof -
  obtain w1 ip where p: "dhcp_poll P D W CC3501E_STA_DHCP_TRIES 0 (wifi_do (network_set_up W False) w) = (w1, ip)" by fastforce
  have c: "calm D w w1"
    using calm_trans [OF _ calm_dhcp_poll, of D w "wifi_do (network_set_up W False) w" P W CC3501E_STA_DHCP_TRIES 0] p by simp
  show ?thesis
  proof (cases "ip = 0")
    case True
    let ?q = "wifi_reason_tag_reason (wifi_last_reason_tag w1)"
    obtain w2 where f: "connect_failed P D W WIFI_FAIL_TIMEOUT ?q w1 = Some w2" "conn_state w2 = WIFI_CONN_FAILED"
      "conn_fail_reason w2 = WIFI_FAIL_TIMEOUT" "drv_ok D \<longrightarrow> usable (spi (board w1)) \<longrightarrow> usable (spi (board w2))"
      using connect_failed_ends [of P D W WIFI_FAIL_TIMEOUT ?q w1] by blast
    have "settled D w1 w2 CC3501E_HW_ERR_IO" using f by (simp add: settled_def hw_rc_defs)
    from settled_calm [OF c this] show ?thesis using p True f(1) by (auto simp: connect_lease_def)
  next
    case False
    let ?w = "wifi_do (bridge_busy (link P)) w1"
    obtain w2 ok where r: "wifi_reinit P D ?w = (w2, ok)" by fastforce
    let ?w3 = "wifi_conn_set P W WIFI_CONNECTED WIFI_FAIL_NONE 0 (w2\<lparr>g_connect_reinit_armed := ok, g_connect_reinit_pending := True\<rparr>)"
    have h: "parked (spi (board w2)) \<and> usable (spi (board w2)) \<and> ok" if "drv_ok D" "usable (spi (board w1))"
    proof -
      have g: "good (spi (board ?w))" using usable_good [OF that(2)] by (simp add: wifi_do_def)
      have d: "drv_accepts D" "\<forall>b h. snd (SPI_open D b h)" using that(1) by (simp_all add: drv_ok_def)
      have "snd (bridge_transport_spi_hw_reinit P D (spi (board ?w)))"
        using g open_parks [of "spi_close D (spi (board ?w))" D P] good_close [OF g, of D] d
        by (simp add: bridge_transport_spi_hw_reinit_def good_def serving_def polled_read)
      moreover have "usable (fst (bridge_transport_spi_hw_reinit P D (spi (board ?w))))"
        "parked (fst (bridge_transport_spi_hw_reinit P D (spi (board ?w))))"
        using healed_usable [OF reinit_heals(1) [OF g d, of P]] reinit_heals(1) [OF g d, of P] by (simp_all add: healed_def)
      ultimately show ?thesis using r by (auto simp: wifi_reinit_def split: prod.splits)
    qed
    have "settled D w1 ?w3 CC3501E_HW_OK" using h by (auto simp: settled_def conn_set_fields)
    from settled_calm [OF c this] show ?thesis using p False r by (auto simp: connect_lease_def)
  qed
qed

lemma connect_settles:
  assumes "clock_runs P D W"
  shows "\<exists>w' rv. cc3501e_hw_wifi_connect_sta P D W ssid psk security w = Some (w', rv) \<and> settled D w w' rv"
proof (cases "ssid = []")
  case True
  have "settled D w (wifi_conn_set P W WIFI_CONN_FAILED WIFI_FAIL_KICK 0 w) CC3501E_HW_ERR_INVAL"
    by (simp add: settled_def conn_set_fields hw_rc_defs)
  then show ?thesis using True by (simp add: cc3501e_hw_wifi_connect_sta_def)
next
  case False
  obtain w1 rv where e: "cc3501e_hw_wifi_ensure_sta_role P D W w = (w1, rv)" by fastforce
  define w2 where "w2 = (if wifi_sta_role_up w then w1 else fst (wifi_reinit P D (wifi_do (bridge_busy (link P)) w1)))"
  define w3 where "w3 = wifi_board cc3501e_hw_link_heal_begin_connect w2"
  have "calm D w w1" using calm_ensure_role [of D w P W] by (simp add: e)
  then have "calm D w w2"
    using calm_trans [OF _ calm_reinit_fst, of D w "wifi_do (bridge_busy (link P)) w1" P] by (simp add: w2_def)
  moreover have "calm D w2 w3" unfolding w3_def
    by (rule calm_board) (simp_all add: cc3501e_hw_link_heal_begin_connect_def)
  ultimately have c3: "calm D w w3" by (rule calm_trans)
  note def = cc3501e_hw_wifi_connect_sta_def [of P D W ssid psk security w, unfolded e prod.case Let_def, folded w2_def, folded w3_def]
  show ?thesis
  proof (cases "rv = CC3501E_HW_OK")
    case bad: False
    obtain w4 where f: "connect_failed P D W WIFI_FAIL_KICK 0 w3 = Some w4" "conn_state w4 = WIFI_CONN_FAILED"
      "conn_fail_reason w4 = WIFI_FAIL_KICK" "drv_ok D \<longrightarrow> usable (spi (board w3)) \<longrightarrow> usable (spi (board w4))"
      using connect_failed_ends [of P D W WIFI_FAIL_KICK 0 w3] by blast
    have "settled D w3 w4 rv" using f bad by (simp add: settled_def)
    from settled_calm [OF c3 this] show ?thesis unfolding def using False bad f(1) by simp
  next
    case True
    obtain w4 out where a: "assoc_loop P D W ssid psk security (wifi_uptime P w3) None w3 = Some (w4, out)" "calm D w3 w4"
      "\<forall>f q. out = Some (f, q) \<longrightarrow> f \<noteq> WIFI_FAIL_NONE" using assoc_loop_ends [OF assms] by blast
    have c4: "calm D w w4" by (rule calm_trans [OF c3 a(2)])
    show ?thesis
    proof (cases out)
      case None
      obtain w' r where l: "connect_lease P D W w4 = Some (w', r)" "settled D w4 w' r" using lease_settles by blast
      from settled_calm [OF c4 l(2)] show ?thesis unfolding def using False True a(1) None l(1) by simp
    next
      case (Some fq)
      obtain f q where fq: "fq = (f, q)" by fastforce
      obtain w5 where g: "connect_failed P D W f q w4 = Some w5" "conn_state w5 = WIFI_CONN_FAILED"
        "conn_fail_reason w5 = f" "drv_ok D \<longrightarrow> usable (spi (board w4)) \<longrightarrow> usable (spi (board w5))"
        using connect_failed_ends [of P D W f q w4] by blast
      have "settled D w4 (wifi_clear_stale_assoc P D W w5) CC3501E_HW_ERR_IO"
        using g calm_clear_stale [of D w5 P W] a(3) Some fq by (auto simp: settled_def calm_def hw_rc_defs)
      from settled_calm [OF c4 this] show ?thesis unfolding def using False True a(1) Some fq g(1) by simp
    qed
  qed
qed

section \<open>Scan replies\<close>

text \<open>How the host reads a scan reply back: fixed fields, the length of the name, the name.\<close>

definition net_seen :: "'h wlan_env \<Rightarrow> wlan_network \<Rightarrow> byte list \<times> byte \<times> byte \<times> u16 \<times> byte list" where
  "net_seen W e = (net_bssid e, net_rssi e, net_channel e, net_security e, take (unat (scan_ssid_len W e)) (net_ssid e))"

function parse_scan :: "byte list \<Rightarrow> (byte list \<times> byte \<times> byte \<times> u16 \<times> byte list) list" where
  "parse_scan bs =
     (if length bs < 11 then []
      else let n = unat (bs ! 10)
           in (take 6 bs, bs ! 6, bs ! 7, get_le16 bs 8, take n (drop 11 bs)) # parse_scan (drop (11 + n) bs))"
  by pat_completeness auto

termination by (relation "measure length") auto

declare parse_scan.simps [simp del]

definition net_ok :: "'h wlan_env \<Rightarrow> wlan_network \<Rightarrow> bool" where
  "net_ok W e \<longleftrightarrow> length (net_bssid e) = 6 \<and> length (net_ssid e) = WLAN_SSID_MAX_LENGTH W"

lemma record_length:
  assumes "net_ok W e" and "WLAN_SSID_MAX_LENGTH W < 256"
  shows "length (scan_record W e) = 11 + unat (scan_ssid_len W e)"
  using assms by (auto simp: scan_record_def net_ok_def scan_ssid_len_def unat_of_nat)

lemma ssid_len_le: "WLAN_SSID_MAX_LENGTH W < 256 \<Longrightarrow> unat (scan_ssid_len W e) \<le> WLAN_SSID_MAX_LENGTH W"
  by (simp add: scan_ssid_len_def unat_of_nat)

lemma parse_record:
  assumes "net_ok W e" and "WLAN_SSID_MAX_LENGTH W < 256"
  shows "parse_scan (scan_record W e @ rest) = net_seen W e # parse_scan rest"
proof -
  let ?n = "unat (scan_ssid_len W e)" and ?b = "net_bssid e"
  have b: "length ?b = 6" "?n \<le> length (net_ssid e)" using assms ssid_len_le [OF assms(2), of e] by (simp_all add: net_ok_def)
  have r: "scan_record W e @ rest = ?b @ [net_rssi e, net_channel e] @ put_le16 (net_security e) @ [scan_ssid_len W e]
      @ take ?n (net_ssid e) @ rest" using b(1) by (simp add: scan_record_def)
  have g: "get_le16 (scan_record W e @ rest) 8 = net_security e"
    using get_le16_append [of "?b @ [net_rssi e, net_channel e]"] get_put_le16 b(1) unfolding r by (simp add: get_le16_def put_le16_def nth_append)
  have f: "(scan_record W e @ rest) ! 6 = net_rssi e" "(scan_record W e @ rest) ! 7 = net_channel e"
    "(scan_record W e @ rest) ! 10 = scan_ssid_len W e" "take 6 (scan_record W e @ rest) = ?b"
    "take ?n (drop 11 (scan_record W e @ rest)) = take ?n (net_ssid e)"
    using b unfolding r by (simp_all add: nth_append put_le16_def)
  have l: "length (scan_record W e) = 11 + ?n" by (rule record_length [OF assms])
  then have d: "drop (11 + ?n) (scan_record W e @ rest) = rest" by (metis append_eq_conv_conj)
  have "\<not> length (scan_record W e @ rest) < 11" using l by simp
  then show ?thesis by (subst parse_scan.simps) (simp only: f g d Let_def net_seen_def if_False)
qed

interpretation wifi_wire: packed_records "scan_record W" "\<lambda>e. net_ok W e \<and> WLAN_SSID_MAX_LENGTH W < 256" "net_seen W" parse_scan
  for W :: "'h wlan_env"
  by unfold_locales (simp_all add: parse_record, simp add: parse_scan.simps)

lemma scan_records_pack:
  assumes "WLAN_SSID_MAX_LENGTH W < 256"
  shows "\<forall>e \<in> set ns. net_ok W e \<Longrightarrow> scan_records W cap off ns = pack_records (scan_record W) cap off ns"
  by (induction ns arbitrary: off) (simp_all add: record_length [OF _ assms] Let_def)

section \<open>A concrete radio\<close>

text \<open>A platform whose clock is the length of a list the sleeps extend, and a radio that connects.\<close>

definition clock_platform :: "stub_hw platform" where
  "clock_platform = (demo_platform True)
     \<lparr>sys := (sys (demo_platform True))\<lparr>hw_uptime_ms := (\<lambda>h. word_of_nat (length (stub_gpio_level h)))\<rparr>\<rparr>"

definition tick_stub :: "stub_hw \<Rightarrow> stub_hw" where
  "tick_stub h = h\<lparr>stub_gpio_level := stub_gpio_level h @ [0]\<rparr>"

definition demo_net :: wlan_network where
  "demo_net = \<lparr>net_bssid = [1, 2, 3, 4, 5, 6], net_rssi = 200, net_channel = 6, net_security = 0x0203,
     net_ssid = [97, 98] @ replicate 31 0, net_ssid_len = 2\<rparr>"

definition demo_wlan :: "stub_hw wlan_env" where
  "demo_wlan = \<lparr>wlan_power = \<lparr>PP_PERFORMANCE = 0, PP_BALANCED = 1, PP_LOW_POWER = 2, PP_DEEP_SLEEP = 3, WAKE_NONE = 0,
       DISALLOW_SLEEP = 0, DISALLOW_IDLE = 1, Power_setConstraint = (\<lambda>cid h. h), Power_releaseConstraint = (\<lambda>cid h. h),
       Power_enablePolicy = (\<lambda>h. h), Wlan_Set = (\<lambda>s h. (h, 0))\<rparr>,
     wlan_event_id = (\<lambda>e. 0), WLAN_MAX_SCAN_COUNT = 20, WLAN_SSID_MAX_LENGTH = 33, WLAN_DISCONNECT_USER_INITIATED = 8,
     EVT_WIFI_CONNECTED = 1, EVT_WIFI_DISCONNECTED = 2, WIFI_IFACE_STA = 0, WIFI_IFACE_AP = 1, OSI_WAIT_FOR_SECOND = 1000,
     osi_SyncObjCreate = (\<lambda>h. (h, True)), Wlan_Start = (\<lambda>h. (h, 0)), Wlan_RoleUp_STA = (\<lambda>h. (h, 0)),
     Wlan_RoleUp_AP = (\<lambda>ssid sec psk h. (h, 0)), Wlan_RoleDown_AP = (\<lambda>h. (h, 0)), Wlan_Scan = (\<lambda>h. (h, 0)),
     Wlan_Connect = (\<lambda>ssid sec psk h. (h, 0)), Wlan_Disconnect = (\<lambda>h. (h, 0)),
     Wlan_Get_MACADDRESS = (\<lambda>h. (h, 0, replicate 6 0)), Wlan_Get_RSSI = (\<lambda>h. (h, 0, 200, 0)),
     network_set_up = (\<lambda>ap h. h), network_stack_add_if_ap = (\<lambda>h. h), network_stack_get_if_ip = (\<lambda>ap h. (0, 1)),
     network_get_sta_if = (\<lambda>h. None), dhcp_restart = (\<lambda>h. h), wlan_usleep = (\<lambda>us. tick_stub), sync_pause = (\<lambda>ms. tick_stub),
     arrivals = (\<lambda>h. (h, [Radio (WLAN_EVENT_SCAN_RESULT [demo_net])])), host_txn_count = (\<lambda>h. 0)\<rparr>"

lemma clock_platform_sel:
  "link clock_platform = link (demo_platform True)" "hw_uptime_ms (sys clock_platform) h = word_of_nat (length (stub_gpio_level h))"
  by (simp_all add: clock_platform_def)

lemma demo_link: "bridge_busy (link (demo_platform True)) h = h" "bridge_ready (link (demo_platform True)) h = h"
  by (simp_all add: demo_platform_def stub_platform_sel weak_link_def weak_worker_link_def)

lemma demo_reinit_hw: "hw (core (fst (bridge_transport_spi_hw_reinit clock_platform demo_drv t))) = hw (core t)"
  by (simp add: bridge_transport_spi_hw_reinit_def bridge_transport_spi_polled_def spi_open_and_arm_def spi_close_def
      demo_drv_def core_simps arm_request_header_def arm_transfer_def Let_def eval_nat_numeral clock_platform_sel demo_link)

lemma demo_heal_hw: "wifi_hw (wifi_heal clock_platform demo_drv w) = wifi_hw w"
proof -
  have r: "hw (core (spi (board_reinit clock_platform demo_drv b))) = hw (core (spi b))" for b
    by (simp add: board_reinit_def demo_reinit_hw)
  have y: "hw (core (spi (board_busy clock_platform b))) = hw (core (spi b))" for b :: "stub_hw ti_board"
    by (simp add: board_busy_def core_do_eq clock_platform_sel demo_link)
  have st: "hw (core (spi (heal_dead clock_platform demo_drv b))) = hw (core (spi b))"
    "hw (core (spi (heal_resync clock_platform demo_drv b))) = hw (core (spi b))"
    "hw (core (spi (heal_arm_fail clock_platform demo_drv b))) = hw (core (spi b))"
    "hw (core (spi (heal_stall clock_platform demo_drv b))) = hw (core (spi b))"
    "hw (core (spi (heal_quiet clock_platform demo_drv c b))) = hw (core (spi b))" for b :: "stub_hw ti_board" and c
    by (simp_all add: heal_quiet_def heal_stall_def heal_arm_fail_def heal_resync_def heal_dead_def Let_def r y split: prod.split)
  show ?thesis by (simp add: wifi_hw_def wifi_heal_def wifi_board_def cc3501e_hw_link_heal_def st)
qed

lemma demo_deliver_hw: "wifi_hw (deliver P D demo_wlan w) = wifi_hw w"
  by (simp add: deliver_def demo_wlan_def wifi_call_def core_call_eq wifi_hw_def arrive_def wifi_event_cb_def Let_def)

lemma demo_clock: "clock_runs clock_platform demo_drv demo_wlan"
proof -
  have u: "wifi_uptime clock_platform w = word_of_nat (length (stub_gpio_level (wifi_hw w)))" for w
    by (simp add: wifi_uptime_def spi_uptime_def clock_platform_sel wifi_hw_def)
  have s: "wifi_hw (wifi_usleep clock_platform demo_drv demo_wlan us w) = tick_stub (wifi_hw w)" for us w
    by (simp add: wifi_usleep_def demo_deliver_hw) (simp add: wifi_do_def wifi_hw_def core_do_eq demo_wlan_def)
  have v: "wifi_hw (fst (osi_SyncObjWait clock_platform demo_drv demo_wlan ms w)) = tick_stub (wifi_hw w)" for ms w
  proof -
    have "wifi_hw (v\<lparr>wifi_event_sync := b\<rparr>) = wifi_hw v" for v :: "stub_hw ti_wifi" and b by (simp add: wifi_hw_def)
    then show ?thesis
      by (simp add: osi_SyncObjWait_def Let_def demo_deliver_hw) (simp add: wifi_do_def wifi_hw_def core_do_eq demo_wlan_def)
  qed
  show ?thesis
    by (simp add: clock_runs_def Let_def u demo_heal_hw s v tick_stub_def)
qed

definition demo_wifi :: "stub_hw ti_wifi" where
  "demo_wifi = \<lparr>board = \<lparr>spi = demo_open 0 0, last_resync = 0, last_arm_fail = 0, quiet_arm_after_xfer_count = 0,
       quiet_fired_this_call = False, quiet_state = link_quiet_rearm_init, g_quiet_rearm_heal_count = 0\<rparr>,
     power = \<lparr>pp_constraints_held = 0, pp_policy_latched = 1, pp_idle_ms_latched = 0, pp_host_set_policy = False,
       pp_radio_dirty = False, pp_core_dirty = False, pp_radio_ok = True, policy_enabled = False\<rparr>,
     wifi_last_reason_tag = 0, wifi_started = True, wifi_own_disconnect_issued = False, wifi_sta_role_up = True,
     wifi_ap_latch = \<lparr>pending = False, up = False\<rparr>, wifi_event_sync = False, wifi_last_status = 0, wifi_scan_cache = [],
     wifi_cb_event_count = 0, wifi_cb_last_id = 0, conn_state = WIFI_CONNECTING, conn_fail_reason = WIFI_FAIL_NONE,
     conn_rssi = 0, conn_reason = 0, g_connect_reinit_pending = False, g_connect_reinit_armed = False,
     g_rssi_reinit_skip_pending = False, g_rssi_reinit_skip_ok = False, g_connect_fail_skip_pending = False,
     g_connect_fail_skip_ok = False\<rparr>"

lemma demo_wifi_usable: "usable (spi (board demo_wifi))"
  using demo_parked [of 0 0]
  by (simp add: demo_wifi_def usable_def good_def parked_def next_xfer_def CC3501E_POLLED_BOOT_MAGIC_def)

section \<open>Properties\<close>



text \<open>
  C37: A scan reply is read back as what was found.  A successful scan answers with the longest
  prefix of the cached networks whose records fit the host's buffer, never more bytes than that
  buffer holds, and a host that walks the records recovers exactly those networks: address, RSSI,
  channel, security word and name.
\<close>

theorem wifi_scan_roundtrip:
  assumes "cc3501e_hw_wifi_scan P D W cap w = (w1, CC3501E_HW_OK, bs)" and "WLAN_SSID_MAX_LENGTH W < 256"
    and "\<forall>e \<in> set (wifi_scan_cache w1). net_ok W e"
  shows "\<exists>k \<le> length (wifi_scan_cache w1). parse_scan bs = map (net_seen W) (take k (wifi_scan_cache w1)) \<and> length bs \<le> cap
    \<and> (k < length (wifi_scan_cache w1) \<longrightarrow> cap < length bs + length (scan_record W (wifi_scan_cache w1 ! k)))"
proof -
  have bs: "bs = scan_records W cap 0 (wifi_scan_cache w1)"
    using assms(1) by (auto simp: cc3501e_hw_wifi_scan_def split: prod.splits if_splits)
  moreover have "\<forall>e \<in> set (wifi_scan_cache w1). net_ok W e \<and> WLAN_SSID_MAX_LENGTH W < 256" using assms(2,3) by simp
  ultimately show ?thesis
    using wifi_wire.packed_roundtrip [of "wifi_scan_cache w1" W cap] scan_records_pack [OF assms(2,3)] by simp
qed

theorem wifi_scan_roundtrip_witness:
  "\<exists>w1 bs. cc3501e_hw_wifi_scan clock_platform demo_drv demo_wlan 20 demo_wifi = (w1, CC3501E_HW_OK, bs)
    \<and> parse_scan bs = [([1, 2, 3, 4, 5, 6], 200, 6, 0x0203, [97, 98])]"
proof -
  obtain w1 rv bs where r: "cc3501e_hw_wifi_scan clock_platform demo_drv demo_wlan 20 demo_wifi = (w1, rv, bs)"
    by (metis surj_pair)
  have q: "snd (cc3501e_hw_wifi_scan_run clock_platform demo_drv demo_wlan demo_wifi) = CC3501E_HW_OK
      \<and> wifi_scan_cache (fst (cc3501e_hw_wifi_scan_run clock_platform demo_drv demo_wlan demo_wifi)) = [demo_net]"
    by (simp add: cc3501e_hw_wifi_scan_run_def cc3501e_hw_wifi_lazy_start_def cc3501e_hw_wifi_ensure_sta_role_def
        osi_SyncObjWait_def deliver_def wifi_call_def core_call_eq wifi_do_def core_do_eq demo_wifi_def demo_wlan_def arrive_def
        wifi_event_cb_def wifi_reinit_def Let_def split_beta)
  then have c: "rv = CC3501E_HW_OK \<and> wifi_scan_cache w1 = [demo_net]"
    using r by (simp add: cc3501e_hw_wifi_scan_def split_beta)
  have n: "net_ok demo_wlan demo_net" "scan_ssid_len demo_wlan demo_net = 2" "WLAN_SSID_MAX_LENGTH demo_wlan < 256"
    by (simp_all add: net_ok_def demo_net_def demo_wlan_def scan_ssid_len_def)
  have l: "length (scan_record demo_wlan demo_net) = 13" using record_length [OF n(1,3)] n(2) by simp
  obtain k where k: "k \<le> 1" "parse_scan bs = map (net_seen demo_wlan) (take k [demo_net])"
    "k < 1 \<longrightarrow> 20 < length bs + 13"
    using wifi_scan_roundtrip [of clock_platform demo_drv demo_wlan 20 demo_wifi w1 bs] r c n l by fastforce
  have "k = 1"
  proof (rule ccontr)
    assume "k \<noteq> 1"
    then have "parse_scan bs = []" "20 < length bs + 13" using k by auto
    moreover have "bs = scan_record demo_wlan demo_net"
      using r c by (auto simp: cc3501e_hw_wifi_scan_def n(2) split: prod.splits if_splits)
    ultimately show False using parse_record [OF n(1,3), of "[]"] by simp
  qed
  then show ?thesis using r c k(2) n(2) by (auto simp: net_seen_def) (simp_all add: demo_net_def)
qed

end
