(* ===== verification/Ti_Tick.thy ===== *)
theory Ti_Tick
  imports Ota_Image Sock_Table Wifi_Connect
begin

text \<open>
  The housekeeping tick of \<^verbatim>\<open>hal/ti/cc3501e_hw_ti.c\<close> over the drivers it composes: the firmware-update
  service on the slave's own transport, the self-heals, the sockets, the power policy and the two
  deferred reboots, with the update-mode and normal loops of \<^verbatim>\<open>src/main.c\<close> that call it.  The update
  pump's calls into the transport are here the slave's own operations, and so is the re-init of the
  worker's drain.  No tick and no worker pass leaves the slave quiesced, and a trial image is accepted
  once, after it has served the host.
\<close>

section \<open>State\<close>

record ('h, 'f, 'n) chip_env =
  ce_platform :: "'h platform"
  ce_spi :: "'h spi_drv"
  ce_fwu :: "'f ota_env"
  psa_fwu_accept :: "'f \<Rightarrow> 'f \<times> int"
  ce_sock :: "'n sock_env"
  ce_power :: "'h pwr_env"

text \<open>
  The update session's environment is the board beside the update service's own state; the flag that
  a reply has been sent is the one of \<open>c_reset\<close>.
\<close>

record ('h, 'f, 'n) chip =
  c_ota :: "('h ti_board \<times> 'f) ti_ota"
  c_reset :: ti_reset
  c_sock :: "'n ti_sock"
  c_power :: ti_power
  fwu_inited :: bool
  fwu_accept_done :: bool

definition c_board :: "('h, 'f, 'n) chip \<Rightarrow> 'h ti_board" where
  "c_board c = fst (env (c_ota c))"

definition on_board :: "('h ti_board \<Rightarrow> 'h ti_board) \<Rightarrow> 'h ti_board \<times> 'f \<Rightarrow> 'h ti_board \<times> 'f" where
  "on_board f = (\<lambda>(b, x). (f b, x))"

definition on_spi :: "('h ti_spi \<Rightarrow> 'h ti_spi) \<Rightarrow> 'h ti_board \<times> 'f \<Rightarrow> 'h ti_board \<times> 'f" where
  "on_spi f = on_board (\<lambda>b. b\<lparr>spi := f (spi b)\<rparr>)"

definition in_fwu :: "('f \<Rightarrow> 'f \<times> 'a) \<Rightarrow> 'h ti_board \<times> 'f \<Rightarrow> ('h ti_board \<times> 'f) \<times> 'a" where
  "in_fwu f = (\<lambda>(b, x). case f x of (y, r) \<Rightarrow> ((b, y), r))"

definition do_fwu :: "('f \<Rightarrow> 'f) \<Rightarrow> 'h ti_board \<times> 'f \<Rightarrow> 'h ti_board \<times> 'f" where
  "do_fwu f = (\<lambda>(b, x). (b, f x))"

text \<open>What the update session calls: the update service, and the transport of this chip.\<close>

definition chip_ota_env :: "('h, 'f, 'n) chip_env \<Rightarrow> ('h ti_board \<times> 'f) ota_env" where
  "chip_ota_env C =
     (let F = ce_fwu C; P = ce_platform C; D = ce_spi C
      in \<lparr>TI_FWU_MANIFEST_SIZE = TI_FWU_MANIFEST_SIZE F, OTA_CHUNK_MAX = OTA_CHUNK_MAX F,
          PSA_SUCCESS = PSA_SUCCESS F, PSA_SUCCESS_REBOOT = PSA_SUCCESS_REBOOT F,
          PSA_ERROR_GENERIC_ERROR = PSA_ERROR_GENERIC_ERROR F,
          psa_fwu_init = do_fwu (psa_fwu_init F), psa_fwu_query = (\<lambda>t. in_fwu (psa_fwu_query F t)),
          psa_fwu_start = (\<lambda>t m. in_fwu (psa_fwu_start F t m)), psa_fwu_write = (\<lambda>t off bs. in_fwu (psa_fwu_write F t off bs)),
          psa_fwu_finish = (\<lambda>t. in_fwu (psa_fwu_finish F t)), psa_fwu_install = in_fwu (psa_fwu_install F),
          psa_fwu_reject = (\<lambda>e. do_fwu (psa_fwu_reject F e)), psa_fwu_cancel = (\<lambda>t. do_fwu (psa_fwu_cancel F t)),
          psa_fwu_clean = (\<lambda>t. do_fwu (psa_fwu_clean F t)), psa_fwu_request_reboot = in_fwu (psa_fwu_request_reboot F),
          env_bridge_busy = on_spi (core_do (bridge_busy (link P))), env_bridge_ready = on_spi (core_do (bridge_ready (link P))),
          env_spi_polled = (\<lambda>(b, x). snd (bridge_transport_spi_polled D (spi b))),
          env_spi_quiesce = (\<lambda>on. on_spi (bridge_transport_spi_hw_quiesce D on)),
          env_spi_release = on_spi (bridge_transport_spi_hw_release P D),
          env_spi_reinit = on_spi (\<lambda>t. fst (bridge_transport_spi_hw_reinit P D t)),
          env_clear_polled_boot = on_spi (\<lambda>t. fst (bridge_transport_spi_clear_polled_boot D t)),
          env_usleep = (\<lambda>us. on_spi (core_do (spi_usleep D us)))\<rparr>)"

section \<open>The tick\<close>

text \<open>The update service is started on the first tick; a trial image is accepted once a reply has been sent.\<close>

definition tick_fwu :: "('h, 'f, 'n) chip_env \<Rightarrow> ('h, 'f, 'n) chip \<Rightarrow> ('h, 'f, 'n) chip" where
  "tick_fwu C c =
     (let c1 = (if fwu_inited c then c
                else c\<lparr>fwu_inited := True, c_ota := env_do (psa_fwu_init (chip_ota_env C)) (c_ota c)\<rparr>)
      in if \<not> fwu_accept_done c1 \<and> g_host_txn_count (c_reset c1) > 0
         then case env_call (in_fwu (psa_fwu_accept C)) (c_ota c1) of (o2, rc) \<Rightarrow>
                c1\<lparr>fwu_accept_done := True,
                   c_ota := (if rc = PSA_SUCCESS_REBOOT (ce_fwu C)
                             then fst (env_call (psa_fwu_request_reboot (chip_ota_env C)) o2) else o2)\<rparr>
         else c1)"

text \<open>The accept pump queues its events in the ring of the core.\<close>

definition tick_sock :: "('h, 'f, 'n) chip_env \<Rightarrow> ('h, 'f, 'n) chip \<Rightarrow> ('h, 'f, 'n) chip" where
  "tick_sock C c =
     (let s = (sock_pump (ce_sock C) (c_sock c))\<lparr>ts_events := ring (core (spi (c_board c)))\<rparr>;
          s1 = cc3501e_hw_sock_accept_pump (ce_sock C) s
      in c\<lparr>c_sock := s1,
           c_ota := env_do (on_spi (\<lambda>t. t\<lparr>core := (core t)\<lparr>ring := ts_events s1\<rparr>\<rparr>)) (c_ota c)\<rparr>)"

definition tick_power :: "('h, 'f, 'n) chip_env \<Rightarrow> bool \<Rightarrow> bool \<Rightarrow> ('h, 'f, 'n) chip \<Rightarrow> ('h, 'f, 'n) chip" where
  "tick_power C ap_up sta_up c =
     (case cc3501e_hw_power_service (ce_power C) ap_up sta_up (c_power c, hw (core (spi (c_board c)))) of (p, h) \<Rightarrow>
        c\<lparr>c_power := p, c_ota := env_do (on_spi (core_do (\<lambda>_. h))) (c_ota c)\<rparr>)"

text \<open>\<open>Inl\<close>: the chip has reset itself, leaving this state behind.\<close>

definition cc3501e_hw_tick :: "('h, 'f, 'n) chip_env \<Rightarrow> bool \<Rightarrow> bool \<Rightarrow> ('h, 'f, 'n) chip
    \<Rightarrow> ('h, 'f, 'n) chip + ('h, 'f, 'n) chip" where
  "cc3501e_hw_tick C ap_up sta_up c =
     (let c1 = tick_fwu C c;
          c2 = c1\<lparr>c_ota := env_do (on_board (cc3501e_hw_link_heal (ce_platform C) (ce_spi C) False)) (c_ota c1)\<rparr>;
          c3 = c2\<lparr>c_ota := cc3501e_hw_ota_pump (chip_ota_env C) (c_ota c2)\<rparr>
      in if tick_resets (c_reset c3) then Inl c3
         else let c4 = tick_power C ap_up sta_up (tick_sock C c3)
              in Inr (c4\<lparr>c_ota := ota_reboot_tick (chip_ota_env C)
                            ((c_ota c4)\<lparr>ti_ota.reply_drained := ti_reset.reply_drained (c_reset c4)\<rparr>)\<rparr>))"

section \<open>The task of the RTOS build\<close>

definition chip_spi :: "('h ti_spi \<Rightarrow> 'h ti_spi) \<Rightarrow> ('h, 'f, 'n) chip \<Rightarrow> ('h, 'f, 'n) chip" where
  "chip_spi f c = c\<lparr>c_ota := env_do (on_spi f) (c_ota c)\<rparr>"

definition chip_transport_init :: "('h, 'f, 'n) chip_env \<Rightarrow> 'h ti_spi \<Rightarrow> 'h ti_spi" where
  "chip_transport_init C t =
     bridge_transport_spi_hw_init (ce_platform C) (ce_spi C)
       (t\<lparr>slave := (slave t)\<lparr>spi_rx_len := 0, spi_tx_len := 0, spi_tx_cursor := 0\<rparr>\<rparr>)"

text \<open>
  Up to the first tick: the mode is read once, a normal boot starts the network before the transport
  and raises READY after it.  The result tells the mode and the tick's outcome.
\<close>

definition bringup_boot :: "('h, 'f, 'n) chip_env \<Rightarrow> ('n \<Rightarrow> 'n) \<Rightarrow> bool \<Rightarrow> bool \<Rightarrow> ('h, 'f, 'n) chip
    \<Rightarrow> bool \<times> (('h, 'f, 'n) chip + ('h, 'f, 'n) chip)" where
  "bringup_boot C net_init ap_up sta_up c =
     (case bridge_transport_spi_polled (ce_spi C) (spi (c_board c)) of (t1, update_mode) \<Rightarrow>
        let c1 = chip_spi (\<lambda>_. t1) c;
            c2 = (if update_mode then c1 else c1\<lparr>c_sock := (c_sock c1)\<lparr>net := net_init (net (c_sock c1))\<rparr>\<rparr>);
            c3 = chip_spi (chip_transport_init C) c2;
            c4 = (if update_mode then c3 else chip_spi (core_do (bridge_ready (link (ce_platform C)))) c3)
        in (update_mode, cc3501e_hw_tick C ap_up sta_up c4))"

text \<open>
  What reaches the chip from its interrupts: the host's clocks and the end of a transfer, and from
  the frames it dispatches a requested reset and the calls into the update session and the power
  policy.  The callback of the transfer that ends a reply notifies the reset and update services.
\<close>

datatype ota_request = Ota_Begin u32 | Ota_Write u32 "byte list" | Ota_Finish | Ota_Abort | Ota_Promote

datatype host_act = Host_Clock "byte list" | Host_Ended "spi_status option" | Host_Reset bool | Host_Ota ota_request
  | Host_Policy byte byte u32

fun ota_request_step :: "'e ota_env \<Rightarrow> ota_request \<Rightarrow> 'e ti_ota \<Rightarrow> 'e ti_ota" where
  "ota_request_step E (Ota_Begin n) o1 = fst (cc3501e_hw_ota_begin E n o1)"
| "ota_request_step E (Ota_Write off bs) o1 = fst (cc3501e_hw_ota_write E off bs o1)"
| "ota_request_step E Ota_Finish o1 = fst (cc3501e_hw_ota_finish o1)"
| "ota_request_step E Ota_Abort o1 = fst (cc3501e_hw_ota_abort o1)"
| "ota_request_step E Ota_Promote o1 = fst (cc3501e_hw_ota_promote E o1)"

definition completes :: "byte list \<Rightarrow> 'h ti_spi \<Rightarrow> bool" where
  "completes bs t \<longleftrightarrow> (case armed t of None \<Rightarrow> False | Some x \<Rightarrow> unat (x_count x) \<le> length bs)"

fun ends_reply :: "host_act \<Rightarrow> 'h ti_spi \<Rightarrow> bool" where
  "ends_reply (Host_Clock bs) t = (phase t = PH_REPLY_PAYLOAD \<and> completes bs t)"
| "ends_reply (Host_Ended st) t = (phase t = PH_REPLY_PAYLOAD \<and> st = Some SPI_TRANSFER_COMPLETED)"
| "ends_reply _ t = False"

definition chip_notified :: "bool \<Rightarrow> ('h, 'f, 'n) chip \<Rightarrow> ('h, 'f, 'n) chip" where
  "chip_notified b c = (if b then c\<lparr>c_reset := cc3501e_hw_notify_reply_sent (c_reset c)\<rparr> else c)"

fun chip_host_act :: "('h, 'f, 'n) chip_env \<Rightarrow> host_act \<Rightarrow> ('h, 'f, 'n) chip \<Rightarrow> ('h, 'f, 'n) chip" where
  "chip_host_act C (Host_Clock bs) c = chip_spi (\<lambda>t. fst (spi_clock (ce_platform C) (ce_spi C) bs t)) c"
| "chip_host_act C (Host_Ended st) c = chip_spi (\<lambda>t. on_transfer (ce_platform C) (ce_spi C) st (t\<lparr>armed := None\<rparr>)) c"
| "chip_host_act C (Host_Reset writable) c = c\<lparr>c_reset := cc3501e_hw_request_reset writable (c_reset c)\<rparr>"
| "chip_host_act C (Host_Ota r) c =
     c\<lparr>c_ota := ota_request_step (chip_ota_env C) r (c_ota c),
       c_reset := (if r = Ota_Promote then (c_reset c)\<lparr>ti_reset.reply_drained := False\<rparr> else c_reset c)\<rparr>"
| "chip_host_act C (Host_Policy pol wake idle) c =
     c\<lparr>c_power := fst (cc3501e_hw_set_power_policy (ce_power C) pol wake idle (c_power c))\<rparr>"

definition chip_host :: "('h, 'f, 'n) chip_env \<Rightarrow> host_act \<Rightarrow> ('h, 'f, 'n) chip \<Rightarrow> ('h, 'f, 'n) chip" where
  "chip_host C a c = chip_notified (ends_reply a (spi (c_board c))) (chip_host_act C a c)"

text \<open>
  A job's body runs with the interrupts live, so all of that may happen during it; and the body
  itself may suspend or re-open the slave, start the radio, which takes the transfer the slave has
  armed, and run the heals while it waits.
\<close>

datatype job_act = Job_Host host_act | Job_Suspend | Job_Reinit | Job_Radio | Job_Heal bool

fun chip_job :: "('h, 'f, 'n) chip_env \<Rightarrow> job_act \<Rightarrow> ('h, 'f, 'n) chip \<Rightarrow> ('h, 'f, 'n) chip" where
  "chip_job C (Job_Host a) c = chip_host C a c"
| "chip_job C Job_Suspend c = chip_spi (bridge_transport_spi_hw_suspend (ce_platform C) (ce_spi C)) c"
| "chip_job C Job_Reinit c = chip_spi (\<lambda>t. fst (bridge_transport_spi_hw_reinit (ce_platform C) (ce_spi C) t)) c"
| "chip_job C Job_Radio c = chip_spi (\<lambda>t. t\<lparr>armed := None\<rparr>) c"
| "chip_job C (Job_Heal connecting) c =
     c\<lparr>c_ota := env_do (on_board (cc3501e_hw_link_heal (ce_platform C) (ce_spi C) connecting)) (c_ota c)\<rparr>"

text \<open>
  A pass of the worker over the slave: the claim with READY low, the body, then the drain, which
  re-opens the slave unless the job is exempt.
\<close>

definition spi_relink :: "'h platform \<Rightarrow> 'h spi_drv \<Rightarrow> cmd \<Rightarrow> 'h ti_spi \<Rightarrow> 'h ti_spi \<times> bool" where
  "spi_relink P D jc t =
     (case worker_relink_skip P jc (hw (core t)) of (h, skip, rearmed) \<Rightarrow>
        let t1 = core_do (\<lambda>_. h) t
        in if \<not> skip then bridge_transport_spi_hw_reinit P D (core_do (bridge_busy (link P)) t1) else (t1, rearmed))"

definition spi_drain :: "'h platform \<Rightarrow> 'h spi_drv \<Rightarrow> cmd \<Rightarrow> 'h ti_spi \<Rightarrow> 'h ti_spi" where
  "spi_drain P D jc t =
     (case spi_relink P D jc (t\<lparr>core := worker_execute P jc (core t)\<rparr>) of (t1, rearmed) \<Rightarrow>
        let t2 = (if jc = CMD_WIFI_AP_START then core_do (hw_wifi_ap_role_publish (wifi P)) t1 else t1);
            t3 = (if auto_release jc then t2\<lparr>core := worker_reset (core t2)\<rparr> else t2)
        in if rearmed then core_do (bridge_ready (link P)) t3 else t3)"

definition chip_claim :: "('h, 'f, 'n) chip_env \<Rightarrow> 'h fw \<Rightarrow> ('h, 'f, 'n) chip \<Rightarrow> ('h, 'f, 'n) chip" where
  "chip_claim C s = chip_spi (\<lambda>t. core_do (bridge_busy (link (ce_platform C))) (t\<lparr>core := s\<rparr>))"

definition chip_worker :: "('h, 'f, 'n) chip_env \<Rightarrow> job_act list \<Rightarrow> ('h, 'f, 'n) chip \<Rightarrow> ('h, 'f, 'n) chip" where
  "chip_worker C acts c =
     (case worker_claim (core (spi (c_board c))) of
        None \<Rightarrow> c
      | Some (s, jc) \<Rightarrow>
          chip_spi (spi_drain (ce_platform C) (ce_spi C) jc) (fold (chip_job C) acts (chip_claim C s c)))"

text \<open>An iteration of the normal loop, and of the update-mode loop (\<open>None\<close> while the host clocks nothing).\<close>

definition bringup_pass :: "('h, 'f, 'n) chip_env \<Rightarrow> job_act list \<Rightarrow> bool \<Rightarrow> bool \<Rightarrow> ('h, 'f, 'n) chip
    \<Rightarrow> ('h, 'f, 'n) chip + ('h, 'f, 'n) chip" where
  "bringup_pass C acts ap_up sta_up c = cc3501e_hw_tick C ap_up sta_up (chip_worker C acts c)"

text \<open>Whether one of the transfers of a polled service ends a reply.\<close>

primrec poll_ends_reply :: "'h platform \<Rightarrow> 'h spi_drv \<Rightarrow> nat \<Rightarrow> byte list list \<Rightarrow> 'h ti_spi \<Rightarrow> bool" where
  "poll_ends_reply P D 0 hs t = False"
| "poll_ends_reply P D (Suc k) hs t =
     (case poll_loop P D 1 hs [] False t of
        Some (t1, True, outs) \<Rightarrow>
          phase t = PH_REPLY_PAYLOAD \<or> phase t1 \<noteq> PH_REQ_HEADER \<and> poll_ends_reply P D k (tl hs) t1
      | _ \<Rightarrow> False)"

definition bringup_update_pass :: "('h, 'f, 'n) chip_env \<Rightarrow> byte list list \<Rightarrow> bool \<Rightarrow> bool \<Rightarrow> ('h, 'f, 'n) chip
    \<Rightarrow> (('h, 'f, 'n) chip + ('h, 'f, 'n) chip) option" where
  "bringup_update_pass C hs ap_up sta_up c =
     (let P = ce_platform C; D = ce_spi C; t = spi (c_board c)
      in case bridge_transport_spi_poll_service P D hs t of
        None \<Rightarrow> None
      | Some (t1, serviced) \<Rightarrow>
          Some (cc3501e_hw_tick C ap_up sta_up
            (chip_notified (spi_handle t \<and> poll_ends_reply P D 8 hs (spi_fifo_reset D t)) (chip_spi (\<lambda>_. t1) c))))"

section \<open>What the update service cannot touch\<close>

lemma write_blocks_view:
  assumes "\<And>t off bs e. v (fst (psa_fwu_write E t off bs e)) = v e"
  shows "v (fst (ota_write_blocks E t win base off stop e)) = v e"
  using assms
proof (induction E t win base off stop e rule: ota_write_blocks.induct)
  case (1 E t win base off stop e)
  define n where "n = (if stop - off > CC3501E_OTA_FINISH_FLASH_BLOCK then CC3501E_OTA_FINISH_FLASH_BLOCK else stop - off)"
  obtain e1 pw where w: "psa_fwu_write E t off (take (unat n) (drop (unat (off - base)) win)) e = (e1, pw)" by (metis surj_pair)
  have "v e1 = v e" using 1(2) [of t off "take (unat n) (drop (unat (off - base)) win)" e] w by simp
  moreover have "v (fst (ota_write_blocks E t win base (off + n) stop e1)) = v e1" if "off < stop" "pw = PSA_SUCCESS E"
    using 1(1) [OF that(1) n_def w [symmetric] _ 1(2)] that(2) by simp
  ultimately show ?case by (simp add: ota_write_blocks.simps [of E t win base off stop e] n_def [symmetric] w)
qed

text \<open>A view of the environment that no call of the update service changes survives every update operation.\<close>

locale psa_view =
  fixes E :: "'e ota_env" and v :: "'e \<Rightarrow> 'x"
  assumes keeps_do: "v (psa_fwu_init E e) = v e" "v (psa_fwu_reject E r e) = v e" "v (psa_fwu_cancel E t e) = v e" "v (psa_fwu_clean E t e) = v e"
    and keeps_call: "v (fst (psa_fwu_query E t e)) = v e" "v (fst (psa_fwu_start E t m e)) = v e"
      "v (fst (psa_fwu_write E t off bs e)) = v e" "v (fst (psa_fwu_finish E t e)) = v e" "v (fst (psa_fwu_install E e)) = v e"
begin

lemma view_do [simp]:
  "v (env (env_do (psa_fwu_init E) o1)) = v (env o1)" "v (env (env_do (psa_fwu_reject E r) o1)) = v (env o1)"
  "v (env (env_do (psa_fwu_cancel E t) o1)) = v (env o1)" "v (env (env_do (psa_fwu_clean E t) o1)) = v (env o1)"
  by (simp_all add: env_do_def keeps_do)

lemma view_call: "(\<And>e. v (fst (f e)) = v e) \<Longrightarrow> env_call f o1 = (o2, x) \<Longrightarrow> v (env o2) = v (env o1)"
  by (auto simp: env_call_def split: prod.splits) (metis fst_conv)

lemmas view_calls = keeps_call [THEN view_call]

lemma view_pick: "ota_pick_target E o1 = (o2, x) \<Longrightarrow> v (env o2) = v (env o1)"
  by (auto simp: ota_pick_target_def Let_def split: prod.splits if_splits dest!: view_calls)

lemma view_walk: "v (env (ota_walk_back E t st o1)) = v (env o1)"
  by (simp add: ota_walk_back_def)

lemma view_begin: "v (env (fst (ota_do_begin E o1))) = v (env o1)"
  by (auto simp: ota_do_begin_def view_walk split: prod.splits option.splits if_splits dest!: view_calls view_pick)

lemma view_open: "ota_open_slot E o1 = (o2, rc) \<Longrightarrow> v (env o2) = v (env o1)"
  by (auto simp: ota_open_slot_def split: prod.splits if_splits dest!: view_calls)

lemma view_flush: "ota_flush E final o1 = (o2, rc) \<Longrightarrow> v (env o2) = v (env o1)"
  using write_blocks_view [of v E, OF keeps_call(3), THEN view_call]
  by (auto simp: ota_flush_def Let_def split: prod.splits option.splits if_splits dest!: view_open)

lemma view_finish: "v (env (fst (ota_do_finish E o1))) = v (env o1)"
  by (auto simp: ota_do_finish_def split: prod.splits if_splits dest!: view_flush view_calls)

lemma view_run_op: "v (env (fst (ota_run_op E o1))) = v (env o1)"
  using view_begin view_finish view_flush [of False o1] by (cases "ota_op o1") (auto simp: ota_run_op_def prod_eq_iff)

lemma view_refresh: "v (env (ota_pending_refresh E o1)) = v (env o1)"
  by (auto simp: ota_pending_refresh_def split: prod.splits if_splits dest!: view_calls)

end

interpretation board_view: psa_view "chip_ota_env C" fst for C :: "('h, 'f, 'n) chip_env"
  by unfold_locales (auto simp: chip_ota_env_def Let_def do_fwu_def in_fwu_def split: prod.splits)

section \<open>The update pump and the slave\<close>

text \<open>A slave that serves once its gate is open again.\<close>

definition gated :: "'h ti_spi \<Rightarrow> bool" where
  "gated t \<longleftrightarrow> g_boot_read t \<and> spi_inv t \<and> \<not> g_polled t"

lemma good_gated: "good t \<longleftrightarrow> gated t \<and> \<not> g_quiesce t"
  by (auto simp: good_def gated_def serving_def)

lemma gated_steps:
  assumes "gated t"
  shows "gated (core_do f t)" "gated (bridge_transport_spi_hw_quiesce D on t)" "gated (bridge_transport_spi_hw_release P D t)"
    "gated (fst (bridge_transport_spi_clear_polled_boot D t))" "g_quiesce (core_do f t) = g_quiesce t"
    "g_quiesce (bridge_transport_spi_hw_quiesce D on t) = on"
  using assms spi_inv_step [of t P D Release] spi_inv_step [of t P D Clear_Polled]
  by (simp_all add: gated_def core_do_eq spi_inv_def bridge_transport_spi_hw_quiesce_def polled_read
      bridge_transport_spi_hw_release_def bridge_transport_spi_clear_polled_boot_def spi_close_def Let_def)

lemma healed_core [simp]: "healed (core_do f t) = healed t"
  by (simp add: healed_def parked_def serving_def spi_inv_def next_xfer_def core_do_eq)

lemma env_spi:
  "spi (fst (on_spi f e)) = f (spi (fst e))"
  by (simp add: on_spi_def on_board_def split: prod.split)

lemma chip_env_ops:
  "env_bridge_busy (chip_ota_env C) = on_spi (core_do (bridge_busy (link (ce_platform C))))"
  "env_bridge_ready (chip_ota_env C) = on_spi (core_do (bridge_ready (link (ce_platform C))))"
  "env_spi_polled (chip_ota_env C) e = snd (bridge_transport_spi_polled (ce_spi C) (spi (fst e)))"
  "env_spi_quiesce (chip_ota_env C) on = on_spi (bridge_transport_spi_hw_quiesce (ce_spi C) on)"
  "env_spi_release (chip_ota_env C) = on_spi (bridge_transport_spi_hw_release (ce_platform C) (ce_spi C))"
  "env_spi_reinit (chip_ota_env C) = on_spi (\<lambda>t. fst (bridge_transport_spi_hw_reinit (ce_platform C) (ce_spi C) t))"
  "env_clear_polled_boot (chip_ota_env C) = on_spi (\<lambda>t. fst (bridge_transport_spi_clear_polled_boot (ce_spi C) t))"
  "env_usleep (chip_ota_env C) us = on_spi (core_do (spi_usleep (ce_spi C) us))"
  by (simp_all add: chip_ota_env_def Let_def split: prod.split)

definition o_spi :: "('h ti_board \<times> 'f) ti_ota \<Rightarrow> 'h ti_spi" where
  "o_spi o1 = spi (fst (env o1))"

lemma o_spi_do: "o_spi (env_do (on_spi f) o1) = f (o_spi o1)"
  by (simp add: o_spi_def env_do_def env_spi)

lemma o_spi_fields [simp]:
  "o_spi (x\<lparr>ota_pending_primed := b\<rparr>) = o_spi x" "o_spi (x\<lparr>ota_op := q, op_rc := r\<rparr>) = o_spi x"
  "o_spi (x\<lparr>ti_ota.reply_drained := b, ota_reboot_pending := d\<rparr>) = o_spi x" "o_spi (x\<lparr>ota_reboot_pending := b\<rparr>) = o_spi x"
  "o_spi (x\<lparr>ota_reboot_rc := r\<rparr>) = o_spi x" "o_spi (x\<lparr>ti_ota.reply_drained := b\<rparr>) = o_spi x" "o_spi (x\<lparr>ota_st := st\<rparr>) = o_spi x"
  by (simp_all add: o_spi_def)

lemma o_spi_refresh: "o_spi (ota_pending_refresh (chip_ota_env C) o1) = o_spi o1"
  by (simp add: o_spi_def board_view.view_refresh)

lemma refresh_op: "op_rc (ota_pending_refresh E o1) = op_rc o1"
  by (auto simp: ota_pending_refresh_def env_call_def env_do_def split: prod.splits)

lemma prime_link:
  "good (o_spi o1) \<Longrightarrow> good (o_spi (ota_prime (chip_ota_env C) o1))"
  "healed (o_spi o1) \<Longrightarrow> healed (o_spi (ota_prime (chip_ota_env C) o1))"
  by (simp_all add: ota_prime_def Let_def chip_env_ops o_spi_do o_spi_refresh good_core_do)

lemma prime_op: "op_rc (ota_prime E o1) = op_rc o1"
  by (simp add: ota_prime_def Let_def refresh_op env_do_def)

lemma pump_link:
  assumes "drv_ok (ce_spi C)" and "good (o_spi o1)"
  shows "good (o_spi (cc3501e_hw_ota_pump (chip_ota_env C) o1))"
    and "op_rc o1 = OTA_OP_INFLIGHT \<Longrightarrow> healed (o_spi (cc3501e_hw_ota_pump (chip_ota_env C) o1))"
proof -
  let ?E = "chip_ota_env C"
  define q where "q = ota_prime ?E o1"
  have g: "good (o_spi q)" "op_rc q = op_rc o1" using prime_link(1) [OF assms(2)] by (simp_all add: q_def prime_op)
  have np: "\<not> env_spi_polled ?E (env q)" using g(1) by (simp add: chip_env_ops o_spi_def good_def serving_def polled_read)
  obtain o4 rc where r: "ota_run_op ?E (pump_prepare ?E q) = (o4, rc)" by (metis surj_pair)
  define o5 where "o5 = (if rc \<noteq> CC3501E_HW_OK \<and> rc \<noteq> CC3501E_HW_BUSY then o4\<lparr>ota_st := OTA_STATE_ERROR\<rparr> else o4)"
  have e: "cc3501e_hw_ota_pump ?E o1 = (if op_rc q \<noteq> OTA_OP_INFLIGHT then q else pump_settle ?E False rc o5)"
    using pump_unfold [of ?E o1] r np by (simp add: q_def o5_def)
  have "gated (o_spi (pump_prepare ?E q))"
    using g(1) np by (simp add: pump_prepare_def Let_def chip_env_ops o_spi_do good_gated gated_steps)
  moreover have "o_spi o5 = o_spi (pump_prepare ?E q)"
    using board_view.view_run_op [of C "pump_prepare ?E q"] r by (simp add: o5_def o_spi_def)
  ultimately have g5: "gated (o_spi o5)" by simp
  define o6 where "o6 = (if ota_op o5 = OTA_OP_FINISH \<and> rc = CC3501E_HW_OK then env_do (env_clear_polled_boot ?E) o5 else o5)"
  have g6: "gated (o_spi o6)" using g5 by (simp add: o6_def chip_env_ops o_spi_do gated_steps)
  then have "good (bridge_transport_spi_hw_quiesce (ce_spi C) False (o_spi o6))" by (simp add: good_gated gated_steps)
  from reinit_heals(1) [OF this, of "ce_spi C" "ce_platform C"] assms(1)
  have h: "healed (fst (bridge_transport_spi_hw_reinit (ce_platform C) (ce_spi C) (bridge_transport_spi_hw_quiesce (ce_spi C) False (o_spi o6))))"
    by (simp add: drv_ok_def)
  have "healed (o_spi (pump_settle ?E False rc o5))"
    using h unfolding pump_settle_def Let_def o6_def [symmetric] by (simp add: chip_env_ops o_spi_do o_spi_refresh)
  then show "good (o_spi (cc3501e_hw_ota_pump ?E o1))" "op_rc o1 = OTA_OP_INFLIGHT \<Longrightarrow> healed (o_spi (cc3501e_hw_ota_pump ?E o1))"
    using e g by (simp_all add: healed_good)
qed

section \<open>Runs of the chip\<close>

text \<open>
  What happens to the chip between two resets: ticks (with the roles the radio has), what comes from
  its interrupts, and the worker's passes with what happens during each job.
\<close>

datatype chip_event = Chip_Tick bool bool | Chip_Host host_act | Chip_Pass "job_act list"

text \<open>\<open>None\<close>: the chip has reset itself.\<close>

fun chip_step :: "('h, 'f, 'n) chip_env \<Rightarrow> chip_event \<Rightarrow> ('h, 'f, 'n) chip \<Rightarrow> ('h, 'f, 'n) chip option" where
  "chip_step C (Chip_Tick ap sta) c = (case cc3501e_hw_tick C ap sta c of Inl c1 \<Rightarrow> None | Inr c1 \<Rightarrow> Some c1)"
| "chip_step C (Chip_Host a) c = Some (chip_host C a c)"
| "chip_step C (Chip_Pass acts) c = Some (chip_worker C acts c)"

fun chip_run :: "('h, 'f, 'n) chip_env \<Rightarrow> chip_event list \<Rightarrow> ('h, 'f, 'n) chip \<Rightarrow> ('h, 'f, 'n) chip option" where
  "chip_run C [] c = Some c"
| "chip_run C (e # es) c = Option.bind (chip_step C e c) (chip_run C es)"

lemma chip_run_snoc: "chip_run C (es @ [e]) c = Option.bind (chip_run C es c) (chip_step C e)"
  by (induction es arbitrary: c) (auto simp: bind_eq_Some_conv Option.bind_assoc split: Option.bind_split)

section \<open>The slave through the ticks\<close>

definition chip_slave :: "('h, 'f, 'n) chip \<Rightarrow> 'h ti_spi" where
  "chip_slave c = o_spi (c_ota c)"

lemma core_only:
  "good (t\<lparr>core := s\<rparr>) = good t" "healed (t\<lparr>core := s\<rparr>) = healed t"
  by (simp_all add: healed_def parked_def good_def serving_def spi_inv_def next_xfer_def)

lemma chip_slave_spi [simp]: "chip_slave (chip_spi f c) = f (chip_slave c)"
  by (simp add: chip_slave_def chip_spi_def o_spi_do)

lemma fwu_board [simp]:
  "fst (env (fst (env_call (in_fwu f) o1))) = fst (env o1)" "fst (env (env_do (do_fwu g) o1)) = fst (env o1)"
  by (auto simp: env_call_def in_fwu_def env_do_def do_fwu_def split: prod.splits)

lemma chip_env_psa:
  "psa_fwu_init (chip_ota_env C) = do_fwu (psa_fwu_init (ce_fwu C))"
  "psa_fwu_request_reboot (chip_ota_env C) = in_fwu (psa_fwu_request_reboot (ce_fwu C))"
  by (simp_all add: chip_ota_env_def Let_def)

lemma tick_fwu_keeps: "c_board (tick_fwu C c) = c_board c" "op_rc (c_ota (tick_fwu C c)) = op_rc (c_ota c)"
proof -
  define c1 where "c1 = (if fwu_inited c then c
      else c\<lparr>fwu_inited := True, c_ota := env_do (psa_fwu_init (chip_ota_env C)) (c_ota c)\<rparr>)"
  have 1: "fst (env (c_ota c1)) = fst (env (c_ota c))" "op_rc (c_ota c1) = op_rc (c_ota c)"
    by (simp_all add: c1_def chip_env_psa) (simp add: env_do_def)
  obtain o2 rc where a: "env_call (in_fwu (psa_fwu_accept C)) (c_ota c1) = (o2, rc)" by (metis surj_pair)
  have 2: "fst (env o2) = fst (env (c_ota c1))" using fwu_board(1) [of "psa_fwu_accept C" "c_ota c1"] a by simp
  have 3: "op_rc (fst (env_call f o1)) = op_rc o1" for f :: "('a ti_board \<times> 'b) \<Rightarrow> ('a ti_board \<times> 'b) \<times> int" and o1
    by (simp add: env_call_def split: prod.split)
  have 4: "op_rc o2 = op_rc (c_ota c1)" using 3 [of "in_fwu (psa_fwu_accept C)" "c_ota c1"] a by simp
  show "c_board (tick_fwu C c) = c_board c" "op_rc (c_ota (tick_fwu C c)) = op_rc (c_ota c)" using 1 2 4
    by (simp_all add: tick_fwu_def c1_def [symmetric] Let_def a c_board_def chip_env_psa 3)
qed

lemma tick_late_slave:
  "\<exists>s. chip_slave (tick_sock C c) = (chip_slave c)\<lparr>core := s\<rparr>"
  "\<exists>s. chip_slave (tick_power C ap sta c) = (chip_slave c)\<lparr>core := s\<rparr>"
  by (auto simp: tick_sock_def tick_power_def Let_def chip_slave_def o_spi_do core_do_def split: prod.split)

lemma reboot_tick_slave: "o_spi (ota_reboot_tick (chip_ota_env C) o1) = o_spi o1"
proof -
  have "o_spi (fst (env_call (psa_fwu_request_reboot (chip_ota_env C)) (o1\<lparr>ota_reboot_pending := False\<rparr>))) = o_spi o1"
    by (simp add: chip_env_psa o_spi_def)
  then show ?thesis by (auto simp: ota_reboot_tick_def split: prod.split)
qed

lemma pump_primes: "op_rc o1 \<noteq> OTA_OP_INFLIGHT \<Longrightarrow> cc3501e_hw_ota_pump E o1 = ota_prime E o1"
  by (simp add: cc3501e_hw_ota_pump_def Let_def prime_op)

text \<open>What a tick does to the slave: the heals, then the update pump, then the core only.\<close>

lemma tick_parts:
  assumes "cc3501e_hw_tick C ap sta c = Inr c'"
  obtains o2 s where "fst (env o2) = cc3501e_hw_link_heal (ce_platform C) (ce_spi C) False (c_board c)" "op_rc o2 = op_rc (c_ota c)"
    "chip_slave c' = (o_spi (cc3501e_hw_ota_pump (chip_ota_env C) o2))\<lparr>core := s\<rparr>"
proof -
  let ?h = "cc3501e_hw_link_heal (ce_platform C) (ce_spi C) False"
  define c1 where "c1 = tick_fwu C c"
  define o2 where "o2 = env_do (on_board ?h) (c_ota c1)"
  define o3 where "o3 = cc3501e_hw_ota_pump (chip_ota_env C) o2"
  define c3 where "c3 = c1\<lparr>c_ota := o2, c_ota := o3\<rparr>"
  define c4 where "c4 = tick_power C ap sta (tick_sock C c3)"
  have b: "fst (env o2) = ?h (c_board c)" "op_rc o2 = op_rc (c_ota c)"
    using tick_fwu_keeps [of C c] by (simp_all add: o2_def c1_def env_do_def on_board_def c_board_def split_beta)
  have e: "c' = c4\<lparr>c_ota := ota_reboot_tick (chip_ota_env C) ((c_ota c4)\<lparr>ti_ota.reply_drained := ti_reset.reply_drained (c_reset c4)\<rparr>)\<rparr>"
    using assms by (simp add: cc3501e_hw_tick_def Let_def c1_def [symmetric] o2_def [symmetric] o3_def [symmetric] c3_def c4_def split: if_splits)
  have "chip_slave c' = chip_slave c4" unfolding e by (simp add: chip_slave_def reboot_tick_slave)
  moreover obtain x where "chip_slave (tick_sock C c3) = (chip_slave c3)\<lparr>core := x\<rparr>" using tick_late_slave(1) by blast
  moreover obtain y where "chip_slave c4 = (chip_slave (tick_sock C c3))\<lparr>core := y\<rparr>" unfolding c4_def using tick_late_slave(2) by blast
  moreover have "chip_slave c3 = o_spi o3" by (simp add: chip_slave_def c3_def)
  ultimately have "chip_slave c' = (o_spi o3)\<lparr>core := y\<rparr>" by simp
  from that [OF b this [unfolded o3_def]] show thesis .
qed

lemma tick_slave:
  assumes "drv_ok (ce_spi C)" and "good (chip_slave c)" and "cc3501e_hw_tick C ap sta c = Inr c'"
  shows "good (chip_slave c')"
    and "op_rc (c_ota c) = OTA_OP_INFLIGHT \<or> link_faulty (ce_platform C) (c_board c) \<Longrightarrow> healed (chip_slave c')"
proof -
  obtain o2 s where b: "fst (env o2) = cc3501e_hw_link_heal (ce_platform C) (ce_spi C) False (c_board c)"
    "op_rc o2 = op_rc (c_ota c)" "chip_slave c' = (o_spi (cc3501e_hw_ota_pump (chip_ota_env C) o2))\<lparr>core := s\<rparr>"
    using tick_parts [OF assms(3)] by blast
  have d: "drv_accepts (ce_spi C)" "\<forall>b h. snd (SPI_open (ce_spi C) b h)" using assms(1) by (simp_all add: drv_ok_def)
  have g: "good (spi (c_board c))" using assms(2) by (simp add: chip_slave_def o_spi_def c_board_def)
  have 2: "good (o_spi o2)" using good_heal [OF assms(1) g, of "ce_platform C" False] by (simp add: o_spi_def b)
  have f: "link_faulty (ce_platform C) (c_board c) \<Longrightarrow> healed (o_spi o2)"
    using heal_effect [OF g d refl, of "ce_platform C"] by (simp add: o_spi_def b)
  show "good (chip_slave c')" using pump_link(1) [OF assms(1) 2] by (simp add: b core_only)
  show "healed (chip_slave c')" if "op_rc (c_ota c) = OTA_OP_INFLIGHT \<or> link_faulty (ce_platform C) (c_board c)"
  proof (cases "op_rc o2 = OTA_OP_INFLIGHT")
    case False
    then show ?thesis using that f prime_link(2) [of o2 C] b(2,3) by (simp add: pump_primes core_only)
  qed (simp add: b(3) core_only pump_link(2) [OF assms(1) 2])
qed

lemma request_slave: "good (o_spi o1) \<Longrightarrow> good (o_spi (ota_request_step (chip_ota_env C) r o1))"
proof (cases r)
  case Ota_Promote
  assume "good (o_spi o1)"
  then have "good (fst (bridge_transport_spi_clear_polled_boot (ce_spi C) (o_spi o1)))"
    by (simp add: good_gated gated_steps(4)) (simp add: bridge_transport_spi_clear_polled_boot_def)
  then show ?thesis using Ota_Promote by (simp add: cc3501e_hw_ota_promote_def chip_env_ops o_spi_do)
qed (simp_all add: o_spi_def cc3501e_hw_ota_begin_def cc3501e_hw_ota_write_def cc3501e_hw_ota_finish_def cc3501e_hw_ota_abort_def
    ota_submit_def Let_def)

lemma chip_slave_board: "chip_slave c = spi (c_board c)"
  by (simp add: chip_slave_def o_spi_def c_board_def)

lemma chip_notified_fields [simp]: "c_ota (chip_notified b c) = c_ota c" "chip_slave (chip_notified b c) = chip_slave c"
  by (simp_all add: chip_notified_def chip_slave_def)

lemma host_slave: "good (chip_slave c) \<Longrightarrow> good (chip_slave (chip_host C a c))"
proof (cases a)
  case (Host_Ota r)
  assume "good (chip_slave c)"
  then show ?thesis using request_slave [of "c_ota c" C r] Host_Ota by (simp add: chip_host_def chip_slave_def)
qed (simp_all add: chip_host_def good_clock good_on_transfer, simp_all add: chip_slave_def)

lemma good_suspend: "good t \<Longrightarrow> good (bridge_transport_spi_hw_suspend P D t)"
  using spi_inv_step [of t P D Suspend]
  by (simp add: good_def serving_def bridge_transport_spi_hw_suspend_def polled_read spi_close_def core_do_eq Let_def)

lemma good_reinit: "drv_ok D \<Longrightarrow> good t \<Longrightarrow> healed (fst (bridge_transport_spi_hw_reinit P D t))"
  by (rule reinit_heals) (simp_all add: drv_ok_def)

lemma job_slave: "drv_ok (ce_spi C) \<Longrightarrow> good (chip_slave c) \<Longrightarrow> good (chip_slave (chip_job C a c))"
proof (cases a)
  case (Job_Heal b)
  assume "drv_ok (ce_spi C)" "good (chip_slave c)"
  then show ?thesis using good_heal [of "ce_spi C" "c_board c" "ce_platform C" b] Job_Heal
    by (simp add: chip_slave_board) (simp add: c_board_def env_do_def on_board_def split_beta)
qed (simp_all add: host_slave good_suspend good_reinit healed_good, simp add: good_def serving_def spi_inv_def)

lemma jobs_slave: "drv_ok (ce_spi C) \<Longrightarrow> good (chip_slave c) \<Longrightarrow> good (chip_slave (fold (chip_job C) acts c))"
  by (induction acts arbitrary: c) (simp_all add: job_slave)

text \<open>The opcodes of which some job leaves the drain without the re-init.\<close>

definition relink_exempt :: "cmd \<Rightarrow> bool" where
  "relink_exempt jc \<longleftrightarrow> socket_control jc \<or> spi1_passthrough jc \<or> wifi_disconnect_exempt jc
     \<or> jc \<in> {CMD_SOCK_RECV, CMD_SOCK_SEND, CMD_BLE_SCAN_STOP, CMD_BLE_DISCONNECT, CMD_WIFI_CONNECT_STA, CMD_WIFI_GET_RSSI}"

lemma relink_needed: "\<not> relink_exempt jc \<Longrightarrow> worker_relink_skip P jc h = (h, False, True)"
  by (simp add: relink_exempt_def worker_relink_skip_def wifi_connect_body_reinit_def rssi_read_def connect_fail_skip_def)

lemma relink_slave:
  assumes "drv_ok D" and "good t"
  shows "good (fst (spi_relink P D jc t))" and "\<not> relink_exempt jc \<Longrightarrow> healed (fst (spi_relink P D jc t))"
  using assms by (simp_all add: spi_relink_def relink_needed good_reinit healed_good Let_def split: prod.split)

lemma drain_slave:
  assumes "drv_ok D" and "good t"
  shows "good (spi_drain P D jc t)" and "\<not> relink_exempt jc \<Longrightarrow> healed (spi_drain P D jc t)"
proof -
  obtain t1 r where t1: "spi_relink P D jc (t\<lparr>core := worker_execute P jc (core t)\<rparr>) = (t1, r)" by (metis surj_pair)
  have g: "good (t\<lparr>core := worker_execute P jc (core t)\<rparr>)" using assms(2) by (simp add: core_only)
  have "good (spi_drain P D jc t) = good t1" "healed (spi_drain P D jc t) = healed t1"
    by (simp_all add: spi_drain_def t1 Let_def core_only)
  then show "good (spi_drain P D jc t)" "\<not> relink_exempt jc \<Longrightarrow> healed (spi_drain P D jc t)"
    using relink_slave(1) [OF assms(1) g, where P = P and jc = jc] relink_slave(2) [OF assms(1) g, where P = P and jc = jc] t1 by simp_all
qed

lemma worker_slave:
  assumes "drv_ok (ce_spi C)" and "good (chip_slave c)"
  shows "good (chip_slave (chip_worker C acts c))"
    and "state (job (core (chip_slave c))) = WORKER_QUEUED \<Longrightarrow> \<not> relink_exempt (job_cmd (job (core (chip_slave c))))
      \<Longrightarrow> healed (chip_slave (chip_worker C acts c))"
proof -
  have "good (chip_slave (chip_claim C s c))" for s using assms(2) by (simp add: chip_claim_def core_only)
  note g = jobs_slave [OF assms(1) this]
  show "good (chip_slave (chip_worker C acts c))"
    using assms(2) by (simp add: chip_worker_def drain_slave(1) [OF assms(1) g] split: option.split)
  show "healed (chip_slave (chip_worker C acts c))"
    if "state (job (core (chip_slave c))) = WORKER_QUEUED" "\<not> relink_exempt (job_cmd (job (core (chip_slave c))))"
    using that drain_slave(2) [OF assms(1) g that(2)] by (simp add: chip_worker_def worker_claim_def chip_slave_board [symmetric])
qed

lemma step_slave:
  assumes "drv_ok (ce_spi C)" and "good (chip_slave c)" and "chip_step C e c = Some c'"
  shows "good (chip_slave c')"
proof (cases e)
  case (Chip_Tick ap sta)
  then show ?thesis using assms tick_slave(1) [OF assms(1,2)] by (auto split: sum.splits)
qed (use assms host_slave worker_slave(1) in auto)

lemma run_slave: "drv_ok (ce_spi C) \<Longrightarrow> good (chip_slave c) \<Longrightarrow> chip_run C es c = Some c' \<Longrightarrow> good (chip_slave c')"
  by (induction es arbitrary: c) (auto simp: bind_eq_Some_conv dest: step_slave)

text \<open>
  C14: Neither housekeeping nor a job takes the link down.  In every run of the chip after a normal boot
  (ticks, host clocks, failed transfers, update requests, resets and worker passes in any order,
  each job suspending and re-opening the slave, starting the radio and running the heals in any
  order while the host goes on clocking, with a driver that opens and takes transfers), the slave
  is never left quiesced.  Every update operation, which closes the slave while it holds the flash
  bus, and every fault the heals watch end within the same tick with the slave open and parked at
  the request header; and so does every worker pass over a job whose opcode is not in one of the
  groups exempt from the drain's re-init, whatever its body did to the slave.
\<close>

theorem tick_keeps_link:
  assumes "drv_ok (ce_spi C)"
    and "spi (c_board c0) = bridge_transport_spi_hw_init (ce_platform C) (ce_spi C) (spi_boot m mi n s)"
    and "\<not> g_polled (spi (c_board c0))"
    and "chip_run C es c0 = Some c"
  shows "\<not> g_quiesce (spi (c_board c)) \<and> spi_inv (spi (c_board c))
    \<and> (\<forall>ap sta c'. cc3501e_hw_tick C ap sta c = Inr c' \<longrightarrow>
        op_rc (c_ota c) = OTA_OP_INFLIGHT \<or> link_faulty (ce_platform C) (c_board c) \<longrightarrow>
        spi_handle (spi (c_board c')) \<and> parked (spi (c_board c')))
    \<and> (\<forall>acts c'. c' = chip_worker C acts c \<longrightarrow>
        state (job (core (spi (c_board c)))) = WORKER_QUEUED \<longrightarrow> \<not> relink_exempt (job_cmd (job (core (spi (c_board c))))) \<longrightarrow>
        spi_handle (spi (c_board c')) \<and> parked (spi (c_board c')))"
proof -
  note k = chip_slave_board
  let ?i = "bridge_transport_spi_hw_init (ce_platform C) (ce_spi C) (spi_boot m mi n s)"
  have "\<not> g_quiesce (fst (bridge_transport_spi_polled (ce_spi C)
      ((spi_boot m mi n s)\<lparr>reply_armed := False, sync_idle := replicate HEADER_BYTES (SYNC_IDLE (ce_spi C))\<rparr>)))"
    by (simp add: bridge_transport_spi_polled_def spi_boot_def Let_def)
  then have q: "\<not> g_quiesce ?i"
    using polled_kept_open [of "ce_spi C" "spi_boot m mi n s" "ce_platform C"] by (simp add: flag_kept_def polled_settles)
  have "spi_inv ?i" using spi_inv_step [OF spi_inv_boot, of "ce_platform C" "ce_spi C" Init m mi n s] by simp
  then have "good (chip_slave c0)"
    using assms(2,3) q boot_read_init [of "ce_platform C" "ce_spi C" "spi_boot m mi n s"] by (simp add: good_def serving_def k)
  from run_slave [OF assms(1) this assms(4)] have g: "good (chip_slave c)" .
  have t: "spi_handle (spi (c_board c')) \<and> parked (spi (c_board c'))"
    if "cc3501e_hw_tick C ap sta c = Inr c'" "op_rc (c_ota c) = OTA_OP_INFLIGHT \<or> link_faulty (ce_platform C) (c_board c)" for ap sta c'
    using tick_slave(2) [OF assms(1) g that] by (simp add: healed_def k)
  have w: "spi_handle (spi (c_board (chip_worker C acts c))) \<and> parked (spi (c_board (chip_worker C acts c)))"
    if "state (job (core (spi (c_board c)))) = WORKER_QUEUED" "\<not> relink_exempt (job_cmd (job (core (spi (c_board c)))))" for acts
    using worker_slave(2) [OF assms(1) g, of acts] that by (simp add: healed_def k)
  show ?thesis using g t w by (auto simp: good_def serving_def k)
qed

section \<open>The trial image\<close>

text \<open>An observer that counts the accepts and nothing else the update service does.\<close>

definition counts_accepts :: "('h, 'f, 'n) chip_env \<Rightarrow> ('f \<Rightarrow> nat) \<Rightarrow> bool" where
  "counts_accepts C acc \<longleftrightarrow> (\<forall>f. acc (fst (psa_fwu_accept C f)) = acc f + 1)
     \<and> psa_view (ce_fwu C) acc \<and> (\<forall>f. acc (fst (psa_fwu_request_reboot (ce_fwu C) f)) = acc f)"

definition accepts :: "('f \<Rightarrow> nat) \<Rightarrow> ('h, 'f, 'n) chip \<Rightarrow> nat" where
  "accepts acc c = acc (snd (env (c_ota c)))"

lemma counts_view: "counts_accepts C acc \<Longrightarrow> psa_view (chip_ota_env C) (\<lambda>e. acc (snd e))"
  by (auto simp: counts_accepts_def psa_view_def chip_ota_env_def Let_def do_fwu_def in_fwu_def split: prod.splits) (metis fst_conv)+

lemma spi_view: "acc (snd (on_spi f e)) = acc (snd e)" "acc (snd (on_board g e)) = acc (snd e)"
  by (simp_all add: on_spi_def on_board_def split: prod.split)

lemma pump_view:
  assumes "counts_accepts C acc"
  shows "acc (snd (env (cc3501e_hw_ota_pump (chip_ota_env C) o1))) = acc (snd (env o1))"
proof -
  let ?E = "chip_ota_env C"
  note v = counts_view [OF assms]
  have d: "acc (snd (env (env_do (on_spi f) x))) = acc (snd (env x))" for f x by (simp add: env_do_def spi_view)
  have r: "acc (snd (env (ota_pending_refresh ?E x))) = acc (snd (env x))" for x by (rule psa_view.view_refresh [OF v])
  have p: "acc (snd (env (ota_prime ?E x))) = acc (snd (env x))" for x
    by (simp add: ota_prime_def Let_def chip_env_ops d r)
  obtain o4 rc where o: "ota_run_op ?E (pump_prepare ?E (ota_prime ?E o1)) = (o4, rc)" by (metis surj_pair)
  have "acc (snd (env (pump_prepare ?E x))) = acc (snd (env x))" for x by (simp add: pump_prepare_def Let_def chip_env_ops d)
  then have 4: "acc (snd (env o4)) = acc (snd (env o1))" using psa_view.view_run_op [OF v, of "pump_prepare ?E (ota_prime ?E o1)"] o p by simp
  have "acc (snd (env (pump_settle ?E b rc x))) = acc (snd (env x))" for b x
    by (simp add: pump_settle_def Let_def chip_env_ops d r)
  then show ?thesis using 4 p by (simp add: pump_unfold [OF o])
qed

lemma fwu_view:
  assumes "counts_accepts C acc"
  shows "acc (snd (env (env_do (psa_fwu_init (chip_ota_env C)) o1))) = acc (snd (env o1))"
    and "acc (snd (env (fst (env_call (psa_fwu_request_reboot (chip_ota_env C)) o1)))) = acc (snd (env o1))"
    and "acc (snd (env (fst (env_call (in_fwu (psa_fwu_accept C)) o1)))) = acc (snd (env o1)) + 1"
proof -
  have c: "acc (fst (psa_fwu_accept C f)) = acc f + 1" "acc (fst (psa_fwu_request_reboot (ce_fwu C) f)) = acc f" for f
    using assms by (simp_all add: counts_accepts_def)
  have i: "acc (snd (env (fst (env_call (in_fwu f) o1)))) = acc (fst (f (snd (env o1))))" for f :: "'b \<Rightarrow> 'b \<times> int"
    by (simp add: env_call_def in_fwu_def split_beta)
  show "acc (snd (env (env_do (psa_fwu_init (chip_ota_env C)) o1))) = acc (snd (env o1))"
    by (rule psa_view.view_do(1) [OF counts_view [OF assms]])
  show "acc (snd (env (fst (env_call (psa_fwu_request_reboot (chip_ota_env C)) o1)))) = acc (snd (env o1))"
    "acc (snd (env (fst (env_call (in_fwu (psa_fwu_accept C)) o1)))) = acc (snd (env o1)) + 1"
    by (simp_all add: chip_env_psa i c)
qed

lemma tick_fwu_accepts:
  assumes "counts_accepts C acc"
  defines "now \<equiv> \<lambda>c. \<not> fwu_accept_done c \<and> g_host_txn_count (c_reset c) > 0"
  shows "accepts acc (tick_fwu C c) = accepts acc c + (if now c then 1 else 0)"
    and "fwu_accept_done (tick_fwu C c) = (fwu_accept_done c \<or> now c)" and "c_reset (tick_fwu C c) = c_reset c"
proof -
  define c1 where "c1 = (if fwu_inited c then c
      else c\<lparr>fwu_inited := True, c_ota := env_do (psa_fwu_init (chip_ota_env C)) (c_ota c)\<rparr>)"
  have 1: "accepts acc c1 = accepts acc c" "fwu_accept_done c1 = fwu_accept_done c" "c_reset c1 = c_reset c"
    by (simp_all add: c1_def accepts_def fwu_view [OF assms(1)])
  obtain o2 rc where a: "env_call (in_fwu (psa_fwu_accept C)) (c_ota c1) = (o2, rc)" by (metis surj_pair)
  have 2: "acc (snd (env o2)) = accepts acc c1 + 1" using fwu_view(3) [OF assms(1), of "c_ota c1"] a by (simp add: accepts_def)
  show "accepts acc (tick_fwu C c) = accepts acc c + (if now c then 1 else 0)"
    and "fwu_accept_done (tick_fwu C c) = (fwu_accept_done c \<or> now c)" and "c_reset (tick_fwu C c) = c_reset c"
    using 1 2 by (auto simp: tick_fwu_def c1_def [symmetric] Let_def a now_def accepts_def fwu_view [OF assms(1)])
qed

lemma tick_accepts:
  assumes "counts_accepts C acc" and "cc3501e_hw_tick C ap sta c = Inr c'"
  shows "accepts acc c' = accepts acc (tick_fwu C c) \<and> fwu_accept_done c' = fwu_accept_done (tick_fwu C c) \<and> c_reset c' = c_reset c"
proof -
  define c1 where "c1 = tick_fwu C c"
  define o3 where "o3 = cc3501e_hw_ota_pump (chip_ota_env C)
    (env_do (on_board (cc3501e_hw_link_heal (ce_platform C) (ce_spi C) False)) (c_ota c1))"
  define c3 where "c3 = c1\<lparr>c_ota := o3\<rparr>"
  have 3: "acc (snd (env o3)) = accepts acc c1" by (simp add: o3_def pump_view [OF assms(1)] accepts_def env_do_def spi_view)
  have l: "accepts acc (tick_sock C x) = accepts acc x" "accepts acc (tick_power C ap sta x) = accepts acc x"
    "fwu_accept_done (tick_sock C x) = fwu_accept_done x" "fwu_accept_done (tick_power C ap sta x) = fwu_accept_done x"
    "c_reset (tick_sock C x) = c_reset x" "c_reset (tick_power C ap sta x) = c_reset x" for x
    by (simp_all add: tick_sock_def tick_power_def Let_def accepts_def env_do_def spi_view split: prod.split)
  have b: "acc (snd (env (ota_reboot_tick (chip_ota_env C) x))) = acc (snd (env x))" for x
    using fwu_view(2) [OF assms(1), of "x\<lparr>ota_reboot_pending := False\<rparr>"] by (auto simp: ota_reboot_tick_def split: prod.split)
  define c4 where "c4 = tick_power C ap sta (tick_sock C c3)"
  have "c' = c4\<lparr>c_ota := ota_reboot_tick (chip_ota_env C) ((c_ota c4)\<lparr>ti_ota.reply_drained := ti_reset.reply_drained (c_reset c4)\<rparr>)\<rparr>"
    using assms(2) by (simp add: cc3501e_hw_tick_def Let_def c1_def [symmetric] o3_def [symmetric] c3_def c4_def split: if_splits)
  then show ?thesis
    using 3 l tick_fwu_accepts(3) [OF assms(1), of c] b [of "(c_ota c4)\<lparr>ti_ota.reply_drained := ti_reset.reply_drained (c_reset c4)\<rparr>"]
    by (simp add: accepts_def c4_def c3_def c1_def)
qed

text \<open>Whether an event of a run ends a reply, and whether one of the run has.\<close>

primrec job_replies :: "('h, 'f, 'n) chip_env \<Rightarrow> job_act list \<Rightarrow> ('h, 'f, 'n) chip \<Rightarrow> bool" where
  "job_replies C [] c = False"
| "job_replies C (a # acts) c =
     ((case a of Job_Host x \<Rightarrow> ends_reply x (spi (c_board c)) | _ \<Rightarrow> False) \<or> job_replies C acts (chip_job C a c))"

fun event_replies :: "('h, 'f, 'n) chip_env \<Rightarrow> chip_event \<Rightarrow> ('h, 'f, 'n) chip \<Rightarrow> bool" where
  "event_replies C (Chip_Tick ap sta) c = False"
| "event_replies C (Chip_Host a) c = ends_reply a (spi (c_board c))"
| "event_replies C (Chip_Pass acts) c =
     (case worker_claim (core (spi (c_board c))) of None \<Rightarrow> False | Some (s, jc) \<Rightarrow> job_replies C acts (chip_claim C s c))"

definition replied :: "('h, 'f, 'n) chip_env \<Rightarrow> chip_event list \<Rightarrow> ('h, 'f, 'n) chip \<Rightarrow> bool" where
  "replied C es c0 \<longleftrightarrow> (\<exists>xs e ys c. es = xs @ e # ys \<and> chip_run C xs c0 = Some c \<and> event_replies C e c)"

lemma replied_snoc:
  assumes "chip_run C es c0 = Some c"
  shows "replied C (es @ [e]) c0 \<longleftrightarrow> replied C es c0 \<or> event_replies C e c"
proof
  assume "replied C (es @ [e]) c0"
  then obtain xs e' ys c1 where s: "es @ [e] = xs @ e' # ys" "chip_run C xs c0 = Some c1" "event_replies C e' c1"
    by (auto simp: replied_def)
  then show "replied C es c0 \<or> event_replies C e c"
    using assms by (cases ys rule: rev_cases) (auto simp: replied_def)
next
  assume "replied C es c0 \<or> event_replies C e c"
  then show "replied C (es @ [e]) c0"
  proof
    assume "replied C es c0"
    then show ?thesis by (auto simp: replied_def) (metis append.assoc append_Cons)
  qed (use assms in \<open>auto simp: replied_def\<close>)
qed

text \<open>Whether a tick has come after a sent reply.\<close>

definition served_then_ticked :: "('h, 'f, 'n) chip_env \<Rightarrow> chip_event list \<Rightarrow> ('h, 'f, 'n) chip \<Rightarrow> bool" where
  "served_then_ticked C es c0 \<longleftrightarrow> (\<exists>xs ap sta ys. es = xs @ Chip_Tick ap sta # ys \<and> replied C xs c0)"

lemma served_snoc:
  "served_then_ticked C (es @ [e]) c0 \<longleftrightarrow> served_then_ticked C es c0 \<or> (\<exists>ap sta. e = Chip_Tick ap sta) \<and> replied C es c0"
proof
  assume "served_then_ticked C (es @ [e]) c0"
  then obtain xs ap sta ys where s: "es @ [e] = xs @ Chip_Tick ap sta # ys" "replied C xs c0" by (auto simp: served_then_ticked_def)
  show "served_then_ticked C es c0 \<or> (\<exists>ap sta. e = Chip_Tick ap sta) \<and> replied C es c0"
    using s by (cases ys rule: rev_cases) (auto simp: served_then_ticked_def, metis)
next
  assume "served_then_ticked C es c0 \<or> (\<exists>ap sta. e = Chip_Tick ap sta) \<and> replied C es c0"
  then show "served_then_ticked C (es @ [e]) c0"
    by (auto simp: served_then_ticked_def) (metis append.assoc append_Cons)
qed

text \<open>What the interrupts and the worker leave of it: the accepts and the accept flag; the reply count grows with the replies.\<close>

definition counts_from :: "('f \<Rightarrow> nat) \<Rightarrow> bool \<Rightarrow> ('h, 'f, 'n) chip \<Rightarrow> ('h, 'f, 'n) chip \<Rightarrow> bool" where
  "counts_from acc r c c' \<longleftrightarrow> accepts acc c' = accepts acc c \<and> fwu_accept_done c' = fwu_accept_done c
     \<and> (g_host_txn_count (c_reset c') > 0 \<longleftrightarrow> g_host_txn_count (c_reset c) > 0 \<or> r)"

lemma counts_trans: "counts_from acc r c c1 \<Longrightarrow> counts_from acc r' c1 c2 \<Longrightarrow> counts_from acc (r \<or> r') c c2"
  by (auto simp: counts_from_def)

lemma counts_spi: "counts_from acc False c (chip_spi f c)"
  by (simp add: counts_from_def accepts_def chip_spi_def env_do_def spi_view)

lemma notified_counts: "g_host_txn_count (cc3501e_hw_notify_reply_sent r) > 0"
proof -
  have "0 < unat (g_host_txn_count (reset_step False Reply_Sent r))" by (simp only: txn_step) simp
  then show ?thesis by (simp add: unat_gt_0 word_gt_0)
qed

lemma counts_host:
  "counts_from acc (ends_reply a (spi (c_board c))) c (chip_host C a c)"
proof -
  have "counts_from acc False c (chip_host_act C a c)"
  proof (cases a)
    case (Host_Ota r)
    have "acc (snd (env (ota_request_step (chip_ota_env C) r o1))) = acc (snd (env o1))" for o1
      by (cases r) (simp_all add: cc3501e_hw_ota_begin_def cc3501e_hw_ota_write_def cc3501e_hw_ota_finish_def cc3501e_hw_ota_abort_def
          cc3501e_hw_ota_promote_def ota_submit_def Let_def chip_env_ops env_do_def spi_view)
    then show ?thesis using Host_Ota by (simp add: counts_from_def accepts_def)
  qed (simp_all add: counts_spi, simp_all add: counts_from_def accepts_def cc3501e_hw_request_reset_def Let_def)
  then show ?thesis by (auto simp: chip_host_def chip_notified_def counts_from_def accepts_def notified_counts)
qed

lemma counts_job: "counts_from acc (case a of Job_Host x \<Rightarrow> ends_reply x (spi (c_board c)) | _ \<Rightarrow> False) c (chip_job C a c)"
  by (cases a) (simp_all add: counts_host counts_spi, simp add: counts_from_def accepts_def env_do_def spi_view)

lemma counts_jobs: "counts_from acc (job_replies C acts c) c (fold (chip_job C) acts c)"
proof (induction acts arbitrary: c)
  case (Cons a acts)
  from counts_trans [OF counts_job Cons] show ?case by simp
qed (simp add: counts_from_def)

lemma counts_worker: "counts_from acc (event_replies C (Chip_Pass acts) c) c (chip_worker C acts c)"
proof (cases "worker_claim (core (spi (c_board c)))")
  case (Some p)
  obtain s jc where p: "p = (s, jc)" by (metis surj_pair)
  have "counts_from acc False c (chip_claim C s c)" by (simp add: chip_claim_def counts_spi)
  from counts_trans [OF counts_trans [OF this counts_jobs] counts_spi] show ?thesis
    by (simp add: Some p chip_worker_def)
qed (simp add: chip_worker_def counts_from_def)

lemma run_accepts:
  assumes "counts_accepts C acc" and "\<not> fwu_accept_done c0" and "g_host_txn_count (c_reset c0) = 0" and "chip_run C es c0 = Some c"
  shows "accepts acc c = accepts acc c0 + (if served_then_ticked C es c0 then 1 else 0)
    \<and> fwu_accept_done c = served_then_ticked C es c0 \<and> (g_host_txn_count (c_reset c) > 0 \<longleftrightarrow> replied C es c0)"
  using assms(4)
proof (induction es arbitrary: c rule: rev_induct)
  case Nil
  then show ?case using assms(2,3) by (simp add: served_then_ticked_def replied_def)
next
  case (snoc e es)
  obtain c1 where c1: "chip_run C es c0 = Some c1" "chip_step C e c1 = Some c"
    using snoc.prems by (auto simp: chip_run_snoc bind_eq_Some_conv)
  note ih = snoc.IH [OF c1(1)] and r = replied_snoc [OF c1(1), of e]
  show ?case
  proof (cases e)
    case (Chip_Tick ap sta)
    then have "cc3501e_hw_tick C ap sta c1 = Inr c" using c1(2) by (auto split: sum.splits)
    from tick_accepts [OF assms(1) this] tick_fwu_accepts [OF assms(1), of c1] ih r show ?thesis
      by (auto simp: served_snoc Chip_Tick)
  next
    case (Chip_Host a)
    then show ?thesis using ih r c1(2) counts_host [of acc a c1 C] by (auto simp: served_snoc counts_from_def)
  next
    case (Chip_Pass acts)
    then have "counts_from acc (event_replies C e c1) c1 c" using c1(2) counts_worker [of acc C acts c1] by simp
    then show ?thesis using ih r Chip_Pass unfolding served_snoc counts_from_def by simp
  qed
qed

text \<open>
  C15: A trial image is accepted once, and only after it has served the host.  In every run of the chip
  from its boot, whatever else happens, the update service is asked to make the running image
  permanent exactly once if a tick has followed the transfer that ended a reply, and not at all
  otherwise, so an image that never answers is reverted by the boot loader.
\<close>

theorem trial_accepted_after_reply:
  assumes "counts_accepts C acc" and "\<not> fwu_accept_done c0" and "g_host_txn_count (c_reset c0) = 0" and "chip_run C es c0 = Some c"
  shows "acc (snd (env (c_ota c))) = acc (snd (env (c_ota c0)))
    + (if \<exists>xs ap sta ys. es = xs @ Chip_Tick ap sta # ys \<and> replied C xs c0 then 1 else 0)"
  using run_accepts [OF assms] unfolding served_then_ticked_def accepts_def by simp

section \<open>Update mode\<close>

text \<open>The transport is as it was; only the core behind it and the stored flag may have changed.\<close>

definition same_link :: "'h ti_spi \<Rightarrow> 'h ti_spi \<Rightarrow> bool" where
  "same_link t t' \<longleftrightarrow> (\<exists>s m mi. t' = t\<lparr>core := s, persist_magic := m, persist_magic_inv := mi\<rparr>)"

definition update_slave :: "'h ti_spi \<Rightarrow> bool" where
  "update_slave t \<longleftrightarrow> g_boot_read t \<and> g_polled t \<and> spi_handle t"

lemma same_link_refl [simp]: "same_link t t"
  unfolding same_link_def by (rule exI [of _ "core t"], rule exI [of _ "persist_magic t"], rule exI [of _ "persist_magic_inv t"]) simp

lemma same_link_trans: "same_link t u \<Longrightarrow> same_link u v \<Longrightarrow> same_link t v"
  by (auto simp: same_link_def) (metis ti_spi.update_convs(1))

lemma same_link_fields:
  assumes "same_link t t'"
  shows "update_slave t' = update_slave t"
  using assms by (auto simp: same_link_def update_slave_def)

lemma same_link_core [simp]: "same_link t (core_do f t)" "same_link t (t\<lparr>core := x\<rparr>)"
  unfolding same_link_def core_do_eq
  by (rule exI, rule exI [of _ "persist_magic t"], rule exI [of _ "persist_magic_inv t"], simp)+

lemma same_link_clear: "same_link t (fst (bridge_transport_spi_clear_polled_boot D t))"
proof (cases "persist_writable D")
  case True
  then show ?thesis unfolding same_link_def bridge_transport_spi_clear_polled_boot_def
    by (intro exI [of _ "core t"] exI [of _ 0] exI [of _ "NOT 0"]) simp
qed (simp add: bridge_transport_spi_clear_polled_boot_def)

text \<open>In update mode a re-open of an open slave does nothing.\<close>

lemma update_reinit: "update_slave t \<Longrightarrow> bridge_transport_spi_hw_reinit P D t = (t, True)"
  by (simp add: update_slave_def bridge_transport_spi_hw_reinit_def polled_read)

lemma update_board_reinit: "update_slave (spi b) \<Longrightarrow> spi (board_reinit P D b) = spi b"
  by (simp add: board_reinit_def update_reinit)

lemma update_heal:
  assumes "update_slave (spi b)"
  shows "same_link (spi b) (spi (cc3501e_hw_link_heal P D False b))"
proof -
  have 1: "spi (heal_dead P D b) = spi b" by (simp add: heal_dead_def update_board_reinit assms)
  have 2: "spi (heal_resync P D x) = spi x" "spi (heal_arm_fail P D x) = spi x" if "update_slave (spi x)" for x
    using that by (simp_all add: heal_resync_def heal_arm_fail_def update_board_reinit Let_def)
  have 3: "same_link (spi x) (spi (heal_stall P D x))" if "update_slave (spi x)" for x
    using that same_link_fields [OF same_link_core(1), of "bridge_busy (link P)" "spi x"]
    by (auto simp: heal_stall_def update_board_reinit board_busy_def)
  define x where "x = heal_arm_fail P D (heal_resync P D (heal_dead P D b))"
  have x: "spi x = spi b" using 1 2 assms by (simp add: x_def)
  from 3 [of x] show ?thesis unfolding x using assms
    by (simp add: cc3501e_hw_link_heal_def heal_quiet_def x_def [symmetric])
qed

lemma update_prime: "same_link (o_spi o1) (o_spi (ota_prime (chip_ota_env C) o1))"
proof -
  have "same_link (o_spi o1) (o_spi (env_do (env_bridge_busy (chip_ota_env C)) (o1\<lparr>ota_pending_primed := True\<rparr>)))"
    by (simp add: chip_env_ops o_spi_do)
  then show ?thesis
    by (auto simp: ota_prime_def Let_def o_spi_refresh chip_env_ops(2) o_spi_do intro: same_link_trans)
qed

lemma update_pump:
  assumes "update_slave (o_spi o1)"
  shows "same_link (o_spi o1) (o_spi (cc3501e_hw_ota_pump (chip_ota_env C) o1))"
proof -
  let ?E = "chip_ota_env C"
  define q where "q = ota_prime ?E o1"
  have g: "same_link (o_spi o1) (o_spi q)" unfolding q_def by (rule update_prime)
  then have "update_slave (o_spi q)" using same_link_fields assms by blast
  then have p: "env_spi_polled ?E (env q)" by (simp add: chip_env_ops o_spi_def update_slave_def polled_read)
  obtain o4 rc where r: "ota_run_op ?E (pump_prepare ?E q) = (o4, rc)" by (metis surj_pair)
  define o5 where "o5 = (if rc \<noteq> CC3501E_HW_OK \<and> rc \<noteq> CC3501E_HW_BUSY then o4\<lparr>ota_st := OTA_STATE_ERROR\<rparr> else o4)"
  have e: "cc3501e_hw_ota_pump ?E o1 = (if op_rc q \<noteq> OTA_OP_INFLIGHT then q else pump_settle ?E True rc o5)"
    using pump_unfold [of ?E o1] r p by (simp add: q_def o5_def)
  have "o_spi o5 = o_spi (pump_prepare ?E q)"
    using board_view.view_run_op [of C "pump_prepare ?E q"] r by (simp add: o5_def o_spi_def)
  also have "\<dots> = core_do (bridge_busy (link (ce_platform C))) (o_spi q)" using p by (simp add: pump_prepare_def Let_def chip_env_ops(1) o_spi_do)
  finally have 5: "same_link (o_spi q) (o_spi o5)" by simp
  have "same_link (o_spi o5) (o_spi (pump_settle ?E True rc o5))"
    by (simp add: pump_settle_def Let_def o_spi_refresh chip_env_ops(7) o_spi_do same_link_clear)
  then show ?thesis using e g same_link_trans [OF g same_link_trans [OF 5]] by simp
qed

text \<open>
  In update mode the housekeeping leaves the transport alone.  There the slave is served by one
  blocking loop, and a tick between two frames runs the whole of the housekeeping, the flash work
  of an update included.  With the slave open in that mode a tick changes nothing of it (not the
  phase, the armed transfer, the buffers or the counters) but the core's state behind it and the
  stored boot flag, whatever operation was queued and whatever the heals saw.
\<close>

theorem update_tick_leaves_transport:
  assumes "g_boot_read (spi (c_board c))" and "g_polled (spi (c_board c))" and "spi_handle (spi (c_board c))"
    and "cc3501e_hw_tick C ap sta c = Inr c'"
  shows "\<exists>s m mi. spi (c_board c') = (spi (c_board c))\<lparr>core := s, persist_magic := m, persist_magic_inv := mi\<rparr>"
proof -
  obtain o2 s where b: "fst (env o2) = cc3501e_hw_link_heal (ce_platform C) (ce_spi C) False (c_board c)"
    "chip_slave c' = (o_spi (cc3501e_hw_ota_pump (chip_ota_env C) o2))\<lparr>core := s\<rparr>"
    using tick_parts [OF assms(4)] by blast
  have u: "update_slave (spi (c_board c))" using assms(1-3) by (simp add: update_slave_def)
  have 2: "same_link (spi (c_board c)) (o_spi o2)" using update_heal [OF u, of "ce_platform C" "ce_spi C"] by (simp add: o_spi_def b(1))
  have "update_slave (o_spi o2)" using same_link_fields [OF 2] u by simp
  from same_link_trans [OF 2 update_pump [OF this, of C]]
  have "same_link (spi (c_board c)) (chip_slave c')" unfolding b(2) by (rule same_link_trans) simp
  then show ?thesis by (simp add: same_link_def chip_slave_def o_spi_def c_board_def)
qed

section \<open>Witnesses\<close>

text \<open>A chip whose update service counts its accepts and has nothing else to do.\<close>

definition demo_fwu :: "nat ota_env" where
  "demo_fwu = \<lparr>TI_FWU_MANIFEST_SIZE = 2, OTA_CHUNK_MAX = 3, PSA_SUCCESS = 0, PSA_SUCCESS_REBOOT = 1,
     PSA_ERROR_GENERIC_ERROR = -132, psa_fwu_init = id, psa_fwu_query = (\<lambda>t e. (e, 0, t = Vendor_Image_Slot_1, PSA_FWU_READY)),
     psa_fwu_start = (\<lambda>t m e. (e, 0)), psa_fwu_write = (\<lambda>t off d e. (e, 0)), psa_fwu_finish = (\<lambda>t e. (e, 0)),
     psa_fwu_install = (\<lambda>e. (e, 0)), psa_fwu_reject = (\<lambda>s. id), psa_fwu_cancel = (\<lambda>t. id), psa_fwu_clean = (\<lambda>t. id),
     psa_fwu_request_reboot = (\<lambda>e. (e, 0)), env_bridge_busy = id, env_bridge_ready = id, env_spi_polled = (\<lambda>e. False),
     env_spi_quiesce = (\<lambda>b. id), env_spi_release = id, env_spi_reinit = id, env_clear_polled_boot = id, env_usleep = (\<lambda>n. id)\<rparr>"

definition demo_radio_power :: "stub_hw pwr_env" where
  "demo_radio_power = \<lparr>PP_PERFORMANCE = 0, PP_BALANCED = 1, PP_LOW_POWER = 2, PP_DEEP_SLEEP = 3, WAKE_NONE = 0,
     DISALLOW_SLEEP = 0, DISALLOW_IDLE = 1, Power_setConstraint = (\<lambda>cid h. h), Power_releaseConstraint = (\<lambda>cid h. h),
     Power_enablePolicy = (\<lambda>h. h), Wlan_Set = (\<lambda>s h. (h, 0))\<rparr>"

definition demo_chip_env :: "(stub_hw, nat, int list) chip_env" where
  "demo_chip_env = \<lparr>ce_platform = demo_platform True, ce_spi = demo_drv, ce_fwu = demo_fwu, psa_fwu_accept = (\<lambda>n. (n + 1, 0)),
     ce_sock = demo_env, ce_power = demo_radio_power\<rparr>"

text \<open>After the transport's start in the mode the stored flag asks for.\<close>

definition demo_chip_on :: "stub_hw fw \<Rightarrow> u32 \<Rightarrow> u32 \<Rightarrow> (stub_hw, nat, int list) chip" where
  "demo_chip_on s m mi = \<lparr>c_ota = ota_reset (\<lparr>spi = bridge_transport_spi_hw_init (demo_platform True) demo_drv (spi_boot m mi 0 s),
       last_resync = 0, last_arm_fail = 0, quiet_arm_after_xfer_count = 0, quiet_fired_this_call = False,
       quiet_state = link_quiet_rearm_init, g_quiet_rearm_heal_count = 0\<rparr>, 0),
     c_reset = reset_boot 0 0, c_sock = demo_sock, c_power = power_reset demo_radio_power, fwu_inited = False, fwu_accept_done = False\<rparr>"

abbreviation demo_chip :: "u32 \<Rightarrow> u32 \<Rightarrow> (stub_hw, nat, int list) chip" where
  "demo_chip \<equiv> demo_chip_on (fw_reset (demo_platform True) stub_reset)"

lemma tick_returns:
  assumes "\<not> reset_pending (c_reset c)"
  shows "\<exists>c'. cc3501e_hw_tick C ap sta c = Inr c'"
proof -
  have "c_reset (tick_fwu C c) = c_reset c" by (simp add: tick_fwu_def Let_def split: prod.split)
  then show ?thesis using assms by (simp add: cc3501e_hw_tick_def Let_def tick_resets_def)
qed

text \<open>Enough bytes complete any armed transfer, and a completed transfer moves the frame on.\<close>

lemma usable_completes:
  assumes "usable t" and "CC3501E_FRAME_MAX_BYTES \<le> length bs"
  shows "completes bs t"
proof -
  obtain x where x: "armed t = Some x" "xfer_ok x" using assms(1) by (auto simp: usable_def good_def spi_inv_def)
  then have "unat (x_count x) \<le> CC3501E_FRAME_MAX_BYTES"
    by (auto simp: xfer_ok_def size_facts(1) HEADER_BYTES_def MAX_PAYLOAD_def CC3501E_FRAME_MAX_BYTES_def split: spi_tx.splits)
  then show ?thesis using x(1) assms(2) by (simp add: completes_def)
qed

lemma stamped_phase [simp]: "phase (arm_stamped P D rx tx n fl t) = phase t"
  by (simp add: arm_stamped_def arm_transfer_def bridge_transport_spi_polled_def core_simps spi_fifo_reset_def Let_def)

lemma reply_header_moves:
  "completes bs t \<Longrightarrow> phase t = PH_REPLY_HEADER \<Longrightarrow> phase (fst (spi_clock P D bs t)) = PH_REPLY_PAYLOAD"
  by (auto simp: completes_def spi_clock_def on_transfer_def xfer_note_def xfer_in_def Let_def core_do_eq
      split: option.splits spi_rx.splits)

lemma demo_chip_slave: "spi (c_board (demo_chip_on s m mi)) = bridge_transport_spi_hw_init (demo_platform True) demo_drv (spi_boot m mi 0 s)"
  by (simp add: demo_chip_on_def c_board_def ota_reset_def)

lemma demo_chip_mode: "g_polled (spi (c_board (demo_chip_on s m mi))) = (m = NOT mi \<and> m = CC3501E_POLLED_BOOT_MAGIC)"
  "g_boot_read (spi (c_board (demo_chip_on s m mi)))" "spi_handle (spi (c_board (demo_chip_on s m mi)))"
  "job (core (spi (c_board (demo_chip_on s m mi)))) = job s"
  by (simp_all add: demo_chip_slave bridge_transport_spi_hw_init_def spi_open_and_arm_def bridge_transport_spi_polled_def spi_boot_def
      demo_drv_def core_simps arm_request_header_def arm_transfer_def Let_def eval_nat_numeral)

text \<open>The host clocks a whole frame of zeros: the header of an empty request, then its reply.\<close>

abbreviation demo_zeros :: "byte list" where
  "demo_zeros \<equiv> replicate CC3501E_FRAME_MAX_BYTES 0"

lemma request_header_moves:
  assumes "armed t = Some header_xfer" and "phase t = PH_REQ_HEADER" and "CMD_RESERVED_VENDOR_BASE D > 0"
  shows "phase (fst (spi_clock P D demo_zeros t)) = PH_REPLY_HEADER"
proof -
  define u where "u = xfer_note P (xfer_in header_xfer demo_zeros (t\<lparr>armed := None\<rparr>))"
  have c: "HEADER_BYTES \<le> CC3501E_FRAME_MAX_BYTES" by (simp add: HEADER_BYTES_def CC3501E_FRAME_MAX_BYTES_def)
  have u: "phase u = PH_REQ_HEADER" "frame_buf u = replicate HEADER_BYTES 0 @ drop HEADER_BYTES (frame_buf t)"
    using assms(2) c header_count
    by (simp_all add: u_def xfer_note_def xfer_in_def Let_def core_do_eq header_xfer_def take_replicate min_absorb2)
  have "frame_buf u ! 0 = 0" "request_len u = 0" by (simp_all add: request_len_def get_le16_def u(2) nth_append HEADER_BYTES_def)
  then have "phase (on_request_header P D u) = PH_REPLY_HEADER"
    using assms(3) by (simp add: on_request_header_def Let_def word_gt_0)
  then show ?thesis using assms(1) c u(1)
    by (simp add: spi_clock_def header_count on_transfer_def u_def Let_def)
qed

lemma demo_chip_usable:
  "usable (spi (c_board (demo_chip 0 0)))" "armed (spi (c_board (demo_chip 0 0))) = Some header_xfer"
  "phase (spi (c_board (demo_chip 0 0))) = PH_REQ_HEADER"
proof -
  let ?t = "spi (c_board (demo_chip 0 0))"
  have "spi_inv ?t" using spi_inv_step [OF spi_inv_boot, of "demo_platform True" demo_drv Init 0 0 0] by (simp add: demo_chip_slave)
  moreover have "\<not> g_quiesce ?t \<and> armed ?t = Some header_xfer \<and> phase ?t = PH_REQ_HEADER"
    by (simp add: demo_chip_slave bridge_transport_spi_hw_init_def spi_open_and_arm_def bridge_transport_spi_polled_def spi_boot_def
      demo_drv_def core_simps arm_request_header_def arm_transfer_def Let_def eval_nat_numeral header_xfer_def CC3501E_POLLED_BOOT_MAGIC_def)
  ultimately show "usable ?t" "armed ?t = Some header_xfer" "phase ?t = PH_REQ_HEADER"
    using demo_chip_mode [of _ 0 0] by (simp_all add: usable_def good_def serving_def CC3501E_POLLED_BOOT_MAGIC_def)
qed

lemma demo_reply:
  defines "es \<equiv> replicate 3 (Chip_Host (Host_Clock demo_zeros))"
  shows "replied demo_chip_env es (demo_chip 0 0)" and "\<exists>c. chip_run demo_chip_env es (demo_chip 0 0) = Some c \<and> \<not> reset_pending (c_reset c)"
proof -
  let ?a = "Chip_Host (Host_Clock demo_zeros)"
  define t where "t = (\<lambda>k. ((\<lambda>t. fst (spi_clock (demo_platform True) demo_drv demo_zeros t)) ^^ k) (spi (c_board (demo_chip 0 0))))"
  define c where "c = (\<lambda>k. (chip_host demo_chip_env (Host_Clock demo_zeros) ^^ k) (demo_chip 0 0))"
  have tc: "spi (c_board (c k)) = t k" for k
    by (induction k) (simp_all add: c_def t_def chip_host_def demo_chip_env_def chip_slave_board [symmetric])
  have r: "\<not> reset_pending (c_reset (c k))" for k
  proof (induction k)
    case (Suc k)
    then show ?case by (simp add: c_def chip_host_def chip_notified_def chip_spi_def cc3501e_hw_notify_reply_sent_def Let_def)
  qed (simp add: c_def demo_chip_on_def reset_boot_def)
  have u: "usable (t k)" for k
    by (induction k) (simp_all add: t_def demo_chip_usable(1) usable_clock demo_drv_ok(1))
  have 1: "phase (t 1) = PH_REPLY_HEADER"
    using request_header_moves [OF demo_chip_usable(2,3), of demo_drv "demo_platform True"] by (simp add: t_def demo_drv_def)
  have 2: "phase (t 2) = PH_REPLY_PAYLOAD"
    using reply_header_moves [OF usable_completes [OF u [of 1]] 1, of demo_zeros "demo_platform True" demo_drv]
    by (simp add: t_def numeral_2_eq_2)
  have run: "chip_run demo_chip_env (replicate k ?a) (demo_chip 0 0) = Some (c k)" for k
  proof (induction k)
    case (Suc k)
    have "replicate (Suc k) ?a = replicate k ?a @ [?a]" by (simp add: replicate_append_same)
    then show ?case using Suc by (simp only: chip_run_snoc) (simp add: c_def)
  qed (simp add: c_def)
  have "event_replies demo_chip_env ?a (c 2)" by (simp add: tc 2 usable_completes [OF u [of 2]])
  moreover have "es = replicate 2 ?a @ ?a # []" by (simp add: es_def eval_nat_numeral)
  ultimately show "replied demo_chip_env es (demo_chip 0 0)" using run [of 2] unfolding replied_def by blast
  show "\<exists>c. chip_run demo_chip_env es (demo_chip 0 0) = Some c \<and> \<not> reset_pending (c_reset c)" using run [of 3] r [of 3] unfolding es_def by blast
qed

theorem trial_accepted_after_reply_witness:
  "\<exists>c. chip_run demo_chip_env (replicate 3 (Chip_Host (Host_Clock demo_zeros)) @ [Chip_Tick False False]) (demo_chip 0 0) = Some c
    \<and> snd (env (c_ota c)) = 1"
proof -
  let ?es = "replicate 3 (Chip_Host (Host_Clock demo_zeros))"
  have a: "counts_accepts demo_chip_env id"
    by (simp add: counts_accepts_def demo_chip_env_def psa_view_def demo_fwu_def)
  obtain c1 where c1: "chip_run demo_chip_env ?es (demo_chip 0 0) = Some c1" "\<not> reset_pending (c_reset c1)" using demo_reply(2) by blast
  obtain c where "cc3501e_hw_tick demo_chip_env False False c1 = Inr c" using tick_returns [OF c1(2)] by blast
  then have r: "chip_run demo_chip_env (?es @ [Chip_Tick False False]) (demo_chip 0 0) = Some c" by (simp add: chip_run_snoc c1(1))
  have "\<not> fwu_accept_done (demo_chip 0 0)" "g_host_txn_count (c_reset (demo_chip 0 0)) = 0"
    by (simp_all add: demo_chip_on_def reset_boot_def)
  note t = trial_accepted_after_reply [OF a this r]
  have "\<exists>xs ap sta ys. ?es @ [Chip_Tick False False] = xs @ Chip_Tick ap sta # ys \<and> replied demo_chip_env xs (demo_chip 0 0)"
    using demo_reply(1) by blast
  from t [unfolded if_P [OF this]] have "snd (env (c_ota c)) = 1" by (simp add: demo_chip_on_def ota_reset_def)
  with r show ?thesis by blast
qed
text \<open>One update operation, and one job that suspends the slave while the host clocks it.\<close>

abbreviation demo_queued :: "(stub_hw, nat, int list) chip" where
  "demo_queued \<equiv> demo_chip_on ((fw_reset (demo_platform True) stub_reset)
     \<lparr>job := (job (fw_reset (demo_platform True) stub_reset))\<lparr>state := WORKER_QUEUED, job_cmd := CMD_GET_MAC\<rparr>\<rparr>) 0 0"

theorem tick_keeps_link_witness:
  "(\<exists>c c'. chip_run demo_chip_env [Chip_Host (Host_Ota (Ota_Begin 100))] (demo_chip 0 0) = Some c \<and> op_rc (c_ota c) = OTA_OP_INFLIGHT
      \<and> cc3501e_hw_tick demo_chip_env False False c = Inr c' \<and> parked (spi (c_board c')))
    \<and> parked (spi (c_board (chip_worker demo_chip_env [Job_Suspend, Job_Host (Host_Clock demo_zeros)] demo_queued)))"
proof
  let ?c = "chip_host demo_chip_env (Host_Ota (Ota_Begin 100)) (demo_chip 0 0)"
  have d: "drv_ok (ce_spi demo_chip_env)" using demo_drv_ok by (simp add: drv_ok_def demo_chip_env_def)
  have i: "spi (c_board (demo_chip_on s 0 0)) = bridge_transport_spi_hw_init (ce_platform demo_chip_env) (ce_spi demo_chip_env) (spi_boot 0 0 0 s)" for s
    by (simp add: demo_chip_slave demo_chip_env_def)
  have p: "\<not> g_polled (spi (c_board (demo_chip_on s 0 0)))" for s by (simp add: demo_chip_mode CC3501E_POLLED_BOOT_MAGIC_def)
  have r: "chip_run demo_chip_env [Chip_Host (Host_Ota (Ota_Begin 100))] (demo_chip 0 0) = Some ?c" by simp
  have o: "op_rc (c_ota ?c) = OTA_OP_INFLIGHT"
    by (simp add: chip_host_def demo_chip_on_def ota_reset_def cc3501e_hw_ota_begin_def chip_ota_env_def demo_chip_env_def demo_fwu_def Let_def
        CC3501E_OTA_IMAGE_MAX_def OTA_OP_INFLIGHT_def ota_submit_def)
  have "\<not> reset_pending (c_reset ?c)" by (simp add: chip_host_def chip_notified_def demo_chip_on_def reset_boot_def)
  then obtain c' where t: "cc3501e_hw_tick demo_chip_env False False ?c = Inr c'" using tick_returns by blast
  from tick_keeps_link [OF d i p r] t o have "parked (spi (c_board c'))" by blast
  with r o t show "\<exists>c c'. chip_run demo_chip_env [Chip_Host (Host_Ota (Ota_Begin 100))] (demo_chip 0 0) = Some c
    \<and> op_rc (c_ota c) = OTA_OP_INFLIGHT \<and> cc3501e_hw_tick demo_chip_env False False c = Inr c' \<and> parked (spi (c_board c'))" by blast
  have "\<not> relink_exempt CMD_GET_MAC"
    by (simp add: relink_exempt_def socket_control_def spi1_passthrough_def wifi_disconnect_exempt_def)
  then have q: "state (job (core (spi (c_board demo_queued)))) = WORKER_QUEUED"
    "\<not> relink_exempt (job_cmd (job (core (spi (c_board demo_queued)))))" by (simp_all add: demo_chip_mode(4))
  have "chip_run demo_chip_env [] demo_queued = Some demo_queued" by simp
  from tick_keeps_link [OF d i p this] q
  show "parked (spi (c_board (chip_worker demo_chip_env [Job_Suspend, Job_Host (Host_Clock demo_zeros)] demo_queued)))" by blast
qed

theorem update_tick_leaves_transport_witness:
  "\<exists>c' s m mi. cc3501e_hw_tick demo_chip_env False False (demo_chip 0x0A7AB007 (NOT 0x0A7AB007)) = Inr c'
    \<and> spi (c_board c') = (spi (c_board (demo_chip 0x0A7AB007 (NOT 0x0A7AB007))))\<lparr>core := s, persist_magic := m, persist_magic_inv := mi\<rparr>"
proof -
  let ?c = "demo_chip 0x0A7AB007 (NOT 0x0A7AB007)"
  have "\<not> reset_pending (c_reset ?c)" by (simp add: demo_chip_on_def reset_boot_def)
  then obtain c' where t: "cc3501e_hw_tick demo_chip_env False False ?c = Inr c'" using tick_returns by blast
  have "g_polled (spi (c_board ?c))" by (simp add: demo_chip_mode(1) CC3501E_POLLED_BOOT_MAGIC_def)
  from update_tick_leaves_transport [OF demo_chip_mode(2) this demo_chip_mode(3) t] t show ?thesis by blast
qed

end
