(* ===== verification/Ti_Log.thy ===== *)
theory Ti_Log
  imports Ti_Board
begin

text \<open>
  The log level, reset cause and uptime of \<^verbatim>\<open>hal/ti/cc3501e_hw_ti_log.c\<close>.  The cause is latched at the
  first question of a boot from the mark in no-init memory or else from the power driver's reason;
  the uptime is counted from the boot's tick, across the wrap of the tick counter.
\<close>

section \<open>State and operations\<close>

datatype reset_reason = PowerWFF3_RESET_M33WD | PowerWFF3_RESET_BOD | PowerWFF3_RESET_RVML | PowerWFF3_RESET_RVMH
  | PowerWFF3_RESET_CPU | PowerWFF3_RESET_RFCORE | PowerWFF3_RESET_DSSM | PowerWFF3_RESET_PIN_POR
  | PowerWFF3_RESET_UNKNOWN | PowerWFF3_RESET_OTHER

record cause_codes =
  CAUSE_UNKNOWN :: byte
  CAUSE_POWER_ON :: byte
  CAUSE_WATCHDOG :: byte
  CAUSE_BROWNOUT :: byte
  CAUSE_SOFT :: byte

record ti_log =
  g_cc3501e_log_level :: byte
  cause_latched :: byte
  have_latched :: bool
  s_boot_ticks :: u32
  s_boot_ticks_valid :: bool

definition log_boot :: ti_log where
  "log_boot = \<lparr>g_cc3501e_log_level = 0, cause_latched = 0, have_latched = False, s_boot_ticks = 0, s_boot_ticks_valid = False\<rparr>"

definition cc3501e_hw_set_log_level :: "byte \<Rightarrow> ti_log \<Rightarrow> ti_log \<times> int" where
  "cc3501e_hw_set_log_level level l = (l\<lparr>g_cc3501e_log_level := level\<rparr>, CC3501E_HW_OK)"

definition cause_of :: "cause_codes \<Rightarrow> reset_reason \<Rightarrow> byte" where
  "cause_of K reason =
     (case reason of
        PowerWFF3_RESET_M33WD \<Rightarrow> CAUSE_WATCHDOG K
      | PowerWFF3_RESET_BOD \<Rightarrow> CAUSE_BROWNOUT K | PowerWFF3_RESET_RVML \<Rightarrow> CAUSE_BROWNOUT K | PowerWFF3_RESET_RVMH \<Rightarrow> CAUSE_BROWNOUT K
      | PowerWFF3_RESET_CPU \<Rightarrow> CAUSE_SOFT K | PowerWFF3_RESET_RFCORE \<Rightarrow> CAUSE_SOFT K
      | PowerWFF3_RESET_DSSM \<Rightarrow> CAUSE_UNKNOWN K
      | PowerWFF3_RESET_PIN_POR \<Rightarrow> CAUSE_POWER_ON K
      | _ \<Rightarrow> CAUSE_UNKNOWN K)"

definition cc3501e_hw_reset_cause :: "cause_codes \<Rightarrow> bool \<Rightarrow> reset_reason \<Rightarrow> ti_log \<times> ti_reset \<Rightarrow> (ti_log \<times> ti_reset) \<times> byte" where
  "cc3501e_hw_reset_cause K writable reason = (\<lambda>(l, r).
     if have_latched l then ((l, r), cause_latched l)
     else case cc3501e_hw_take_soft_reset_mark writable r of (r1, from_soft_reset) \<Rightarrow>
       let cause = (if from_soft_reset then CAUSE_SOFT K else cause_of K reason)
       in ((l\<lparr>cause_latched := cause, have_latched := True\<rparr>, r1), cause))"

definition cc3501e_hw_uptime_mark_boot :: "u32 \<Rightarrow> ti_log \<Rightarrow> ti_log" where
  "cc3501e_hw_uptime_mark_boot ticks l = l\<lparr>s_boot_ticks := ticks, s_boot_ticks_valid := True\<rparr>"

text \<open>The clock is read once more when the boot has not been marked.\<close>

definition cc3501e_hw_uptime_ms :: "u32 \<Rightarrow> u32 \<Rightarrow> u32 \<Rightarrow> ti_log \<Rightarrow> ti_log \<times> u32" where
  "cc3501e_hw_uptime_ms mark_ticks now_ticks tick_period l =
     (let l1 = (if s_boot_ticks_valid l then l else cc3501e_hw_uptime_mark_boot mark_ticks l);
          ticks = ucast (now_ticks - s_boot_ticks l1) :: 64 word;
          period_us = ucast tick_period :: 64 word
      in (l1, ucast ((ticks * period_us) div 1000)))"

section \<open>Uptime\<close>

text \<open>
  The uptime is the time since the boot, whatever the tick counter read then.  For every tick at
  which the boot was marked, every tick period and every number of ticks below the counter's range
  that have passed since, the uptime is their length in milliseconds reduced to 32 bits, also when
  the counter has wrapped in between; the product is never cut off before the division.
\<close>

theorem uptime_counts_from_boot:
  fixes boot period :: u32 and elapsed :: nat
  assumes "elapsed < 2 ^ 32"
  shows "unat (snd (cc3501e_hw_uptime_ms m (boot + word_of_nat elapsed) period (cc3501e_hw_uptime_mark_boot boot l)))
    = (elapsed * unat period div 1000) mod 2 ^ 32"
proof -
  have e: "unat (word_of_nat elapsed :: u32) = elapsed" using assms by (simp add: unat_of_nat take_bit_nat_eq_self)
  define T :: "64 word" where "T = ucast (word_of_nat elapsed :: u32)"
  define Q :: "64 word" where "Q = ucast period"
  have t: "unat T = elapsed" using e assms by (simp add: T_def unsigned_ucast_eq take_bit_nat_eq_self)
  have p: "unat period < 2 ^ 32" using unsigned_less [of period, where 'a = nat] by simp
  then have q: "unat Q = unat period" by (simp add: Q_def unsigned_ucast_eq take_bit_nat_eq_self)
  have "elapsed * unat period < 2 ^ 32 * 2 ^ 32" using assms p by (intro mult_strict_mono') simp_all
  then have "unat (T * Q) = elapsed * unat period" using t q by (simp add: unat_word_ariths(2))
  then have "unat ((T * Q) div 1000) = elapsed * unat period div 1000" by (simp add: unat_div)
  then have "unat (ucast ((T * Q) div 1000) :: u32) = (elapsed * unat period div 1000) mod 2 ^ 32"
    by (simp add: unsigned_ucast_eq take_bit_eq_mod)
  then show ?thesis by (simp add: cc3501e_hw_uptime_ms_def cc3501e_hw_uptime_mark_boot_def T_def Q_def)
qed

theorem uptime_counts_from_boot_witness:
  "unat (snd (cc3501e_hw_uptime_ms 0 ((- 5) + word_of_nat 3000) 1000 (cc3501e_hw_uptime_mark_boot (- 5) log_boot))) = 3000"
  using uptime_counts_from_boot [of 3000 0 "- 5" 1000 log_boot] by simp

section \<open>The reset cause\<close>

text \<open>The host asks for the cause, or requests a reset.\<close>

datatype cause_event = Ask_Cause | Request

fun cause_run :: "cause_codes \<Rightarrow> bool \<Rightarrow> reset_reason \<Rightarrow> cause_event list \<Rightarrow> ti_log \<times> ti_reset \<Rightarrow> (ti_log \<times> ti_reset) \<times> byte list" where
  "cause_run K w q [] s = (s, [])"
| "cause_run K w q (Ask_Cause # es) s =
     (case cc3501e_hw_reset_cause K w q s of (s1, b) \<Rightarrow> case cause_run K w q es s1 of (s2, bs) \<Rightarrow> (s2, b # bs))"
| "cause_run K w q (Request # es) (l, r) = cause_run K w q es (l, cc3501e_hw_request_reset w r)"

definition mark_armed :: "ti_reset \<Rightarrow> bool" where
  "mark_armed r \<longleftrightarrow> mark_magic r = CC3501E_SOFT_RESET_MAGIC \<and> mark_magic_inv r = NOT CC3501E_SOFT_RESET_MAGIC"

text \<open>
  What a boot finds in the no-init section.  The startup code does not clear the section, but
  whether a reset leaves it intact is not known for this part (a reset by the host's pin was
  measured to lose it): either the words of the boot before are retained, or the section holds any
  two words.
\<close>

datatype noinit = Retained | Found u32 u32

definition boot_state :: "noinit \<Rightarrow> ti_reset \<Rightarrow> ti_log \<times> ti_reset" where
  "boot_state m r = (log_boot, case m of Retained \<Rightarrow> reset_boot (mark_magic r) (mark_magic_inv r)
                                       | Found a b \<Rightarrow> reset_boot a b)"

definition found_armed :: "noinit \<Rightarrow> bool \<Rightarrow> bool" where
  "found_armed m left_armed \<longleftrightarrow> (case m of Retained \<Rightarrow> left_armed
     | Found a b \<Rightarrow> a = CC3501E_SOFT_RESET_MAGIC \<and> b = NOT CC3501E_SOFT_RESET_MAGIC)"

lemma boot_mark: "mark_armed (snd (boot_state m r)) \<longleftrightarrow> found_armed m (mark_armed r)"
  by (cases m) (simp_all add: boot_state_def found_armed_def reset_boot_def mark_armed_def)

lemma mark_request [simp]: "mark_armed (cc3501e_hw_request_reset True r)"
  by (simp add: mark_armed_def cc3501e_hw_request_reset_def Let_def)

lemma mark_cleared: "\<not> mark_armed (r\<lparr>mark_magic := 0, mark_magic_inv := 0\<rparr>)"
  by (simp add: mark_armed_def CC3501E_SOFT_RESET_MAGIC_def)

lemma cause_first:
  "\<not> have_latched l \<Longrightarrow> cc3501e_hw_reset_cause K True q (l, r) =
     (let c = (if mark_armed r then CAUSE_SOFT K else cause_of K q)
      in ((l\<lparr>cause_latched := c, have_latched := True\<rparr>, r\<lparr>mark_magic := 0, mark_magic_inv := 0\<rparr>), c))"
  by (simp add: cc3501e_hw_reset_cause_def cc3501e_hw_take_soft_reset_mark_def mark_armed_def)

text \<open>Once latched, every answer is the latched one and only a request touches the mark.\<close>

lemma cause_run_latched:
  assumes "have_latched l" and "cause_run K True q es (l, r) = ((l', r'), bs)"
  shows "bs = replicate (length (filter ((=) Ask_Cause) es)) (cause_latched l) \<and> (mark_armed r' \<longleftrightarrow> Request \<in> set es \<or> mark_armed r)"
  using assms
proof (induction es arbitrary: r bs)
  case (Cons e es)
  then show ?case by (cases e) (auto simp: cc3501e_hw_reset_cause_def split: prod.splits)
qed auto

lemma cause_run_unasked:
  "Ask_Cause \<notin> set es \<Longrightarrow> \<exists>r'. cause_run K True q (es @ fs) (l, r) = cause_run K True q fs (l, r')
    \<and> (mark_armed r' \<longleftrightarrow> Request \<in> set es \<or> mark_armed r)"
proof (induction es arbitrary: r)
  case (Cons e es)
  then show ?case using Cons.IH [of "cc3501e_hw_request_reset True r"] by (cases e) auto
qed auto

lemma first_answer:
  "snd (cause_run K True q [Ask_Cause] (boot_state m r)) =
     [if found_armed m (mark_armed r) then CAUSE_SOFT K else cause_of K q]"
  using boot_mark [of m r] by (simp add: boot_state_def cause_first log_boot_def Let_def)

text \<open>
  C18: What the host is told about the last reset, over two boots.  All answers of a boot are the
  same; the answer is a software reset exactly when the boot found the mark armed in the no-init
  section or a reset was requested before the first question, and else what the power driver's
  reason stands for.  A question clears the mark, so the boot leaves it armed exactly when a reset
  was requested after the first question; a boot in which the host asks nothing leaves it armed if
  it found it so.  What the next boot answers, whatever reset caused it: if the reset retained the
  section, a software reset exactly when the mark was left armed, so a mark left over from a boot
  without a question hides a later watchdog or brownout; if the section was not retained, the
  power driver's reason unless the words found there happen to be the armed pair, so a requested
  reset is then reported as what the driver says.
\<close>

theorem reset_cause_over_boots:
  assumes "Ask_Cause \<notin> set es"
    and "cause_run K True q (es @ Ask_Cause # fs) (boot_state m r) = ((l', r'), bs)"
    and "cause_run K True q es (boot_state m r) = ((l'', r''), cs)"
  shows "bs = replicate (1 + length (filter ((=) Ask_Cause) fs))
      (if found_armed m (mark_armed r) \<or> Request \<in> set es then CAUSE_SOFT K else cause_of K q)
    \<and> (\<forall>m' q'. snd (cause_run K True q' [Ask_Cause] (boot_state m' r')) =
        [if found_armed m' (Request \<in> set fs) then CAUSE_SOFT K else cause_of K q'])
    \<and> (\<forall>m' q'. snd (cause_run K True q' [Ask_Cause] (boot_state m' r'')) =
        [if found_armed m' (found_armed m (mark_armed r) \<or> Request \<in> set es) then CAUSE_SOFT K
         else cause_of K q'])"
proof -
  obtain r1 where r1: "cause_run K True q (es @ Ask_Cause # fs) (boot_state m r) = cause_run K True q (Ask_Cause # fs) (log_boot, r1)"
    "mark_armed r1 \<longleftrightarrow> Request \<in> set es \<or> found_armed m (mark_armed r)"
    using cause_run_unasked [OF assms(1), of K q "Ask_Cause # fs" log_boot "snd (boot_state m r)"] boot_mark [of m r]
    by (auto simp: boot_state_def)
  let ?c = "if mark_armed r1 then CAUSE_SOFT K else cause_of K q"
  let ?l = "log_boot\<lparr>cause_latched := ?c, have_latched := True\<rparr>"
  obtain cs' where c: "cause_run K True q fs (?l, r1\<lparr>mark_magic := 0, mark_magic_inv := 0\<rparr>) = ((l', r'), cs')" "bs = ?c # cs'"
    using assms(2) r1(1) by (auto simp: cause_first log_boot_def Let_def split: prod.splits)
  note l = cause_run_latched [OF _ c(1), simplified]
  obtain r2 where r2: "cause_run K True q es (boot_state m r) = ((log_boot, r2), [])"
    "mark_armed r2 \<longleftrightarrow> Request \<in> set es \<or> found_armed m (mark_armed r)"
    using cause_run_unasked [OF assms(1), of K q "[]" log_boot "snd (boot_state m r)"] boot_mark [of m r]
    by (auto simp: boot_state_def)
  have left: "mark_armed r' \<longleftrightarrow> Request \<in> set fs"
    "mark_armed r'' \<longleftrightarrow> found_armed m (mark_armed r) \<or> Request \<in> set es"
    using l r2 assms(3) by (auto simp: mark_cleared)
  have "bs = replicate (1 + length (filter ((=) Ask_Cause) fs))
      (if found_armed m (mark_armed r) \<or> Request \<in> set es then CAUSE_SOFT K else cause_of K q)"
    using l c(2) r1(2) by auto
  then show ?thesis by (simp add: first_answer left del: cause_run.simps)
qed

definition demo_causes :: cause_codes where
  "demo_causes = \<lparr>CAUSE_UNKNOWN = 0, CAUSE_POWER_ON = 1, CAUSE_WATCHDOG = 2, CAUSE_BROWNOUT = 3, CAUSE_SOFT = 4\<rparr>"

theorem reset_cause_over_boots_witness:
  "\<exists>r' r'' l' l'' bs cs. cause_run demo_causes True PowerWFF3_RESET_PIN_POR ([Request] @ Ask_Cause # [])
      (boot_state (Found 7 9) (reset_boot 0 0)) = ((l', r'), bs) \<and> bs = [4]
    \<and> cause_run demo_causes True PowerWFF3_RESET_PIN_POR [Request] (boot_state (Found 7 9) (reset_boot 0 0)) = ((l'', r''), cs)
    \<and> snd (cause_run demo_causes True PowerWFF3_RESET_M33WD [Ask_Cause] (boot_state Retained r'')) = [4]
    \<and> snd (cause_run demo_causes True PowerWFF3_RESET_PIN_POR [Ask_Cause] (boot_state (Found 0 0) r'')) = [1]"
proof -
  let ?x = "cause_run demo_causes True PowerWFF3_RESET_PIN_POR ([Request] @ Ask_Cause # []) (boot_state (Found 7 9) (reset_boot 0 0))"
  let ?y = "cause_run demo_causes True PowerWFF3_RESET_PIN_POR [Request] (boot_state (Found 7 9) (reset_boot 0 0))"
  have r: "?x = ((fst (fst ?x), snd (fst ?x)), snd ?x)" and s: "?y = ((fst (fst ?y), snd (fst ?y)), snd ?y)"
    by (simp_all only: prod.collapse)
  have "Ask_Cause \<notin> set [Request]" by simp
  note ok = reset_cause_over_boots [OF this r s]
  show ?thesis
    using ok r s
    by (intro exI [of _ "snd (fst ?x)"] exI [of _ "snd (fst ?y)"] exI [of _ "fst (fst ?x)"]
        exI [of _ "fst (fst ?y)"] exI [of _ "snd ?x"] exI [of _ "snd ?y"])
       (simp add: demo_causes_def found_armed_def cause_of_def CC3501E_SOFT_RESET_MAGIC_def del: cause_run.simps)
qed

end
