(* ===== verification/Ti_Gpio.thy ===== *)
theory Ti_Gpio
  imports Hal
begin

text \<open>
  The GPIO driver of \<^verbatim>\<open>hal/ti/cc3501e_hw_ti_gpio.c\<close>: the pads the host may drive, the emulated
  open-drain outputs, the READY line and the camera enables.  A pin configuration of the vendor
  driver is the list of the flags the code ORs together; the driver itself is the record \<open>gpio_drv\<close>.
\<close>

section \<open>State\<close>

datatype pin_flag = GPIO_CFG_INPUT_INTERNAL | GPIO_CFG_OUTPUT_INTERNAL
  | GPIO_CFG_PULL_NONE_INTERNAL | GPIO_CFG_PULL_UP_INTERNAL | GPIO_CFG_PULL_DOWN_INTERNAL
  | GPIO_CFG_OUT_LOW | GPIO_CFG_OUT_HIGH
  | GPIO_CFG_IN_INT_NONE | GPIO_CFG_IN_INT_RISING | GPIO_CFG_IN_INT_FALLING | GPIO_CFG_INT_ENABLE

text \<open>The vendor driver, and the numbers of the wire protocol the host names modes with.\<close>

record 'h gpio_drv =
  GPIO_pinUpperBound :: byte
  GPIO_setConfig :: "byte \<Rightarrow> pin_flag list \<Rightarrow> 'h \<Rightarrow> 'h \<times> int"
  GPIO_write :: "byte \<Rightarrow> byte \<Rightarrow> 'h \<Rightarrow> 'h"
  GPIO_read :: "byte \<Rightarrow> 'h \<Rightarrow> byte"
  GPIO_setCallback :: "byte \<Rightarrow> 'h \<Rightarrow> 'h"
  attn_spin :: "'h \<Rightarrow> 'h"
  DIR_OUTPUT :: byte
  DIR_OPEN_DRAIN :: byte
  PULL_UP :: byte
  PULL_DOWN :: byte
  EDGE_NONE :: byte
  EDGE_RISING :: byte
  EDGE_FALLING :: byte

record 'h ti_gpio =
  od_pads :: "64 word"
  od_pulls :: "64 word"
  ready_inited :: bool
  ready_level_high :: bool
  pins :: 'h

definition pin_do :: "('h \<Rightarrow> 'h) \<Rightarrow> 'h ti_gpio \<Rightarrow> 'h ti_gpio" where
  "pin_do f g = g\<lparr>pins := f (pins g)\<rparr>"

text \<open>A configuration call whose result is the driver's return code.\<close>

definition pin_config :: "'h gpio_drv \<Rightarrow> byte \<Rightarrow> pin_flag list \<Rightarrow> 'h ti_gpio \<Rightarrow> 'h ti_gpio \<times> int" where
  "pin_config D pad cfg g =
     (case GPIO_setConfig D pad cfg (pins g) of (h, rc) \<Rightarrow>
        (g\<lparr>pins := h\<rparr>, if rc = 0 then CC3501E_HW_OK else CC3501E_HW_ERR_IO))"

definition pad_bit :: "byte \<Rightarrow> 64 word" where
  "pad_bit pad = push_bit (unat pad) 1"

section \<open>Pads\<close>

definition gpio_pad_reserved :: "byte \<Rightarrow> bool" where
  "gpio_pad_reserved pad \<longleftrightarrow> pad \<in> {16, 27, 28, 29, 17, 5, 6, 15, 31, 32, 33, 34, 7, 8, 9}"

definition gpio_pad_ok :: "'h gpio_drv \<Rightarrow> byte \<Rightarrow> bool" where
  "gpio_pad_ok D pad \<longleftrightarrow> pad \<le> GPIO_pinUpperBound D \<and> \<not> gpio_pad_reserved pad"

definition pad_is_open_drain :: "byte \<Rightarrow> 'h ti_gpio \<Rightarrow> bool" where
  "pad_is_open_drain pad g \<longleftrightarrow> pad < 64 \<and> and (od_pads g) (pad_bit pad) \<noteq> 0"

definition od_release :: "'h gpio_drv \<Rightarrow> byte \<Rightarrow> 'h ti_gpio \<Rightarrow> 'h ti_gpio \<times> int" where
  "od_release D pad g =
     (let pull = (if and (od_pulls g) (pad_bit pad) \<noteq> 0 then GPIO_CFG_PULL_UP_INTERNAL else GPIO_CFG_PULL_NONE_INTERNAL)
      in pin_config D pad [GPIO_CFG_INPUT_INTERNAL, pull, GPIO_CFG_IN_INT_NONE] g)"

definition cc3501e_hw_gpio_configure :: "'h gpio_drv \<Rightarrow> byte \<Rightarrow> byte \<Rightarrow> byte \<Rightarrow> 'h ti_gpio \<Rightarrow> 'h ti_gpio \<times> int" where
  "cc3501e_hw_gpio_configure D pad dir pull g =
     (if \<not> gpio_pad_ok D pad then (g, CC3501E_HW_ERR_INVAL)
      else let pull_cfg = (if pull = PULL_UP D then GPIO_CFG_PULL_UP_INTERNAL
                           else if pull = PULL_DOWN D then GPIO_CFG_PULL_DOWN_INTERNAL
                           else GPIO_CFG_PULL_NONE_INTERNAL)
           in if dir = DIR_OUTPUT D
              then pin_config D pad [GPIO_CFG_OUTPUT_INTERNAL, pull_cfg, GPIO_CFG_OUT_LOW]
                     (g\<lparr>od_pads := and (od_pads g) (NOT (pad_bit pad))\<rparr>)
              else if dir = DIR_OPEN_DRAIN D
              then if pad \<ge> 64 then (g, CC3501E_HW_ERR_INVAL)
                   else od_release D pad
                          (g\<lparr>od_pads := or (od_pads g) (pad_bit pad),
                             od_pulls := (if pull = PULL_UP D then or (od_pulls g) (pad_bit pad)
                                          else and (od_pulls g) (NOT (pad_bit pad)))\<rparr>)
              else pin_config D pad [GPIO_CFG_INPUT_INTERNAL, pull_cfg, GPIO_CFG_IN_INT_NONE]
                     (g\<lparr>od_pads := and (od_pads g) (NOT (pad_bit pad))\<rparr>))"

definition cc3501e_hw_gpio_write :: "'h gpio_drv \<Rightarrow> byte \<Rightarrow> byte \<Rightarrow> 'h ti_gpio \<Rightarrow> 'h ti_gpio \<times> int" where
  "cc3501e_hw_gpio_write D pad level g =
     (if \<not> gpio_pad_ok D pad then (g, CC3501E_HW_ERR_INVAL)
      else if pad_is_open_drain pad g
      then if level \<noteq> 0 then od_release D pad g
           else case pin_config D pad [GPIO_CFG_OUTPUT_INTERNAL, GPIO_CFG_PULL_NONE_INTERNAL, GPIO_CFG_OUT_LOW] g of
                  (g1, rc) \<Rightarrow> if rc \<noteq> CC3501E_HW_OK then (g1, CC3501E_HW_ERR_IO)
                              else (pin_do (GPIO_write D pad 0) g1, CC3501E_HW_OK)
      else (pin_do (GPIO_write D pad (if level \<noteq> 0 then 1 else 0)) g, CC3501E_HW_OK))"

definition cc3501e_hw_gpio_read :: "'h gpio_drv \<Rightarrow> byte \<Rightarrow> 'h ti_gpio \<Rightarrow> int \<times> byte" where
  "cc3501e_hw_gpio_read D pad g =
     (if \<not> gpio_pad_ok D pad then (CC3501E_HW_ERR_INVAL, 0)
      else (CC3501E_HW_OK, if GPIO_read D pad (pins g) \<noteq> 0 then 1 else 0))"

definition cc3501e_hw_gpio_set_interrupt ::
    "'h gpio_drv \<Rightarrow> byte \<Rightarrow> byte \<Rightarrow> byte \<Rightarrow> 'h ti_gpio \<Rightarrow> 'h ti_gpio \<times> int" where
  "cc3501e_hw_gpio_set_interrupt D pad edge enabled g =
     (if \<not> gpio_pad_ok D pad then (g, CC3501E_HW_ERR_INVAL)
      else let g1 = (if pad < 64 then g\<lparr>od_pads := and (od_pads g) (NOT (pad_bit pad))\<rparr> else g)
           in if enabled = 0 \<or> edge = EDGE_NONE D
              then pin_config D pad [GPIO_CFG_INPUT_INTERNAL, GPIO_CFG_IN_INT_NONE] g1
              else if edge = EDGE_RISING D
              then pin_config D pad [GPIO_CFG_INPUT_INTERNAL, GPIO_CFG_IN_INT_RISING, GPIO_CFG_INT_ENABLE]
                     (pin_do (GPIO_setCallback D pad) g1)
              else if edge = EDGE_FALLING D
              then pin_config D pad [GPIO_CFG_INPUT_INTERNAL, GPIO_CFG_IN_INT_FALLING, GPIO_CFG_INT_ENABLE]
                     (pin_do (GPIO_setCallback D pad) g1)
              else (g1, CC3501E_HW_ERR_INVAL))"

section \<open>The READY line and the camera enables\<close>

definition CC3501E_READY_GPIO :: byte where "CC3501E_READY_GPIO = 17"

definition ready_ensure_init :: "'h gpio_drv \<Rightarrow> 'h ti_gpio \<Rightarrow> 'h ti_gpio" where
  "ready_ensure_init D g =
     (if \<not> ready_inited g
      then (fst (pin_config D CC3501E_READY_GPIO [GPIO_CFG_OUTPUT_INTERNAL, GPIO_CFG_PULL_NONE_INTERNAL, GPIO_CFG_OUT_LOW] g))
             \<lparr>ready_inited := True\<rparr>
      else g)"

definition cc3501e_bridge_busy :: "'h gpio_drv \<Rightarrow> 'h ti_gpio \<Rightarrow> 'h ti_gpio" where
  "cc3501e_bridge_busy D g = (pin_do (GPIO_write D CC3501E_READY_GPIO 0) (ready_ensure_init D g))\<lparr>ready_level_high := False\<rparr>"

definition cc3501e_bridge_ready :: "'h gpio_drv \<Rightarrow> 'h ti_gpio \<Rightarrow> 'h ti_gpio" where
  "cc3501e_bridge_ready D g = (pin_do (GPIO_write D CC3501E_READY_GPIO 1) (ready_ensure_init D g))\<lparr>ready_level_high := True\<rparr>"

text \<open>The attention pulse, in the build that has it: \<open>attn_spin\<close> is the delay with the line low.\<close>

definition cc3501e_bridge_attn_pulse :: "'h gpio_drv \<Rightarrow> 'h ti_gpio \<Rightarrow> 'h ti_gpio" where
  "cc3501e_bridge_attn_pulse D g =
     (if \<not> ready_inited g \<or> \<not> ready_level_high g then g
      else pin_do (GPIO_write D CC3501E_READY_GPIO 1)
             (pin_do (attn_spin D) (pin_do (GPIO_write D CC3501E_READY_GPIO 0) g)))"

definition cc3501e_hw_cam_enable :: "'h gpio_drv \<Rightarrow> byte \<Rightarrow> byte \<Rightarrow> 'h ti_gpio \<Rightarrow> 'h ti_gpio \<times> int" where
  "cc3501e_hw_cam_enable D which on g =
     (if which \<noteq> 0 \<and> which \<noteq> 1 then (g, CC3501E_HW_ERR_INVAL)
      else let pad = (if which = 0 then 1 else 0)
           in case pin_config D pad [GPIO_CFG_OUTPUT_INTERNAL, GPIO_CFG_PULL_NONE_INTERNAL,
                     if on \<noteq> 0 then GPIO_CFG_OUT_HIGH else GPIO_CFG_OUT_LOW] g of
                (g1, rc) \<Rightarrow> if rc \<noteq> CC3501E_HW_OK then (g1, CC3501E_HW_ERR_IO)
                            else (pin_do (GPIO_write D pad (if on \<noteq> 0 then 1 else 0)) g1, CC3501E_HW_OK))"

section \<open>Runs\<close>

text \<open>The calls the vendor driver receives, and a driver that records them; its return codes are arbitrary.\<close>

datatype gpio_call = SetConfig byte "pin_flag list" | Set_Level byte byte | Callback byte

fun call_pad :: "gpio_call \<Rightarrow> byte" where
  "call_pad (SetConfig pad cfg) = pad"
| "call_pad (Set_Level pad l) = pad"
| "call_pad (Callback pad) = pad"

definition logged :: "(byte \<Rightarrow> pin_flag list \<Rightarrow> gpio_call list \<Rightarrow> int) \<Rightarrow> gpio_call list gpio_drv \<Rightarrow> gpio_call list gpio_drv" where
  "logged rc D = D\<lparr>GPIO_setConfig := (\<lambda>pad cfg h. (h @ [SetConfig pad cfg], rc pad cfg h)),
     GPIO_write := (\<lambda>pad l h. h @ [Set_Level pad l]), GPIO_setCallback := (\<lambda>pad h. h @ [Callback pad]),
     attn_spin := (\<lambda>h. h)\<rparr>"

datatype gpio_op = Configure byte byte byte | Write byte byte | Interrupt byte byte byte
  | Cam byte byte | Busy | Ready | Attn

fun host_op :: "gpio_op \<Rightarrow> bool" where
  "host_op (Configure pad dir pull) = True"
| "host_op (Write pad l) = True"
| "host_op (Interrupt pad edge en) = True"
| "host_op e = False"

fun gpio_step :: "'h gpio_drv \<Rightarrow> gpio_op \<Rightarrow> 'h ti_gpio \<Rightarrow> 'h ti_gpio" where
  "gpio_step D (Configure pad dir pull) g = fst (cc3501e_hw_gpio_configure D pad dir pull g)"
| "gpio_step D (Write pad l) g = fst (cc3501e_hw_gpio_write D pad l g)"
| "gpio_step D (Interrupt pad edge en) g = fst (cc3501e_hw_gpio_set_interrupt D pad edge en g)"
| "gpio_step D (Cam which on) g = fst (cc3501e_hw_cam_enable D which on g)"
| "gpio_step D Busy g = cc3501e_bridge_busy D g"
| "gpio_step D Ready g = cc3501e_bridge_ready D g"
| "gpio_step D Attn g = cc3501e_bridge_attn_pulse D g"

definition gpio_boot :: "gpio_call list ti_gpio" where
  "gpio_boot = \<lparr>od_pads = 0, od_pulls = 0, ready_inited = False, ready_level_high = False, pins = []\<rparr>"

text \<open>
  The mode the host gave a pad last: a configure sets it, an interrupt request the driver can serve
  makes the pad an input.  An interrupt request for an edge there is no trigger for is refused and
  leaves the pad's configuration as it was; that one came since the last configure is recorded apart.
\<close>

definition edge_known :: "'h gpio_drv \<Rightarrow> byte \<Rightarrow> byte \<Rightarrow> bool" where
  "edge_known D edge en \<longleftrightarrow> en = 0 \<or> edge \<in> {EDGE_NONE D, EDGE_RISING D, EDGE_FALLING D}"

fun od_mode :: "'h gpio_drv \<Rightarrow> byte \<Rightarrow> gpio_op \<Rightarrow> bool \<Rightarrow> bool" where
  "od_mode D p (Configure pad dir pull) m = (if pad = p then dir \<noteq> DIR_OUTPUT D \<and> dir = DIR_OPEN_DRAIN D else m)"
| "od_mode D p (Interrupt pad edge en) m = (if pad = p \<and> edge_known D edge en then False else m)"
| "od_mode D p e m = m"

fun edge_refused :: "'h gpio_drv \<Rightarrow> byte \<Rightarrow> gpio_op \<Rightarrow> bool \<Rightarrow> bool" where
  "edge_refused D p (Configure pad dir pull) m = (if pad = p then False else m)"
| "edge_refused D p (Interrupt pad edge en) m = (m \<or> pad = p \<and> \<not> edge_known D edge en)"
| "edge_refused D p e m = m"

definition od_after :: "'h gpio_drv \<Rightarrow> byte \<Rightarrow> gpio_op list \<Rightarrow> bool" where
  "od_after D p ops = fold (od_mode D p) ops False"

definition refused_after :: "'h gpio_drv \<Rightarrow> byte \<Rightarrow> gpio_op list \<Rightarrow> bool" where
  "refused_after D p ops = fold (edge_refused D p) ops False"

lemma pad_bit_test: "and w (pad_bit pad) \<noteq> 0 \<longleftrightarrow> bit w (unat pad)" for w :: "64 word"
  by (simp add: pad_bit_def push_bit_of_1 and_exp_eq_0_iff_not_bit)

lemma bit_pad_bit: "bit (pad_bit pad) n \<longleftrightarrow> n = unat pad \<and> unat pad < 64"
  by (auto simp: pad_bit_def push_bit_of_1 bit_exp_iff possible_bit_word)

lemma od_bit_set: "unat p < 64 \<Longrightarrow> bit (or w (pad_bit pad)) (unat p) \<longleftrightarrow> bit w (unat p) \<or> pad = p" for w :: "64 word"
  by (auto simp: bit_or_iff bit_pad_bit word_unat_eq_iff)

lemma od_bit_clear: "unat p < 64 \<Longrightarrow> bit (and w (NOT (pad_bit pad))) (unat p) \<longleftrightarrow> bit w (unat p) \<and> pad \<noteq> p" for w :: "64 word"
  by (auto simp: bit_and_iff bit_not_iff bit_pad_bit word_unat_eq_iff possible_bit_word)

lemma pin_config_od: "od_pads (fst (pin_config D pad cfg g)) = od_pads g" "od_pulls (fst (pin_config D pad cfg g)) = od_pulls g"
  by (simp_all add: pin_config_def split: prod.split)

lemma od_release_od: "od_pads (fst (od_release D pad g)) = od_pads g"
  by (simp add: od_release_def Let_def pin_config_od)

lemma od_step_other:
  "od_pads (fst (cc3501e_hw_gpio_write D pad l g)) = od_pads g"
  "od_pads (fst (cc3501e_hw_cam_enable D which on g)) = od_pads g"
  "od_pads (cc3501e_bridge_busy D g) = od_pads g" "od_pads (cc3501e_bridge_ready D g) = od_pads g"
  "od_pads (cc3501e_bridge_attn_pulse D g) = od_pads g"
  by (simp_all add: cc3501e_hw_gpio_write_def cc3501e_hw_cam_enable_def cc3501e_bridge_busy_def cc3501e_bridge_ready_def
      cc3501e_bridge_attn_pulse_def ready_ensure_init_def pin_do_def pin_config_od od_release_od split_beta Let_def)

text \<open>The driver's bit for a pad, as the code keeps it: every interrupt request clears it.\<close>

fun od_flag :: "'h gpio_drv \<Rightarrow> byte \<Rightarrow> gpio_op \<Rightarrow> bool \<Rightarrow> bool" where
  "od_flag D p (Configure pad dir pull) m = (if pad = p then dir \<noteq> DIR_OUTPUT D \<and> dir = DIR_OPEN_DRAIN D else m)"
| "od_flag D p (Interrupt pad edge en) m = (if pad = p then False else m)"
| "od_flag D p e m = m"

lemma od_step:
  assumes "gpio_pad_ok D p" and "GPIO_pinUpperBound D < 64"
  shows "bit (od_pads (gpio_step D e g)) (unat p) = od_flag D p e (bit (od_pads g) (unat p))"
proof -
  have p: "p < 64" "unat p < 64" using assms by (auto simp: gpio_pad_ok_def word_less_nat_alt word_le_nat_alt)
  show ?thesis
    by (cases e)
      (use assms p in \<open>auto simp: cc3501e_hw_gpio_configure_def cc3501e_hw_gpio_set_interrupt_def od_step_other pin_config_od
         od_release_od pin_do_def Let_def od_bit_set od_bit_clear gpio_pad_ok_def not_le\<close>)
qed

lemma od_run:
  assumes "gpio_pad_ok D p" and "GPIO_pinUpperBound D < 64"
  shows "bit (od_pads (fold (gpio_step D) ops g)) (unat p) = fold (od_flag D p) ops (bit (od_pads g) (unat p))"
  by (induction ops arbitrary: g) (simp_all add: od_step [OF assms])

lemma od_flag_mode:
  "fold (od_flag D p) ops (m \<and> \<not> r) = (fold (od_mode D p) ops m \<and> \<not> fold (edge_refused D p) ops r)"
proof (induction ops arbitrary: m r)
  case (Cons e ops)
  have "od_flag D p e (m \<and> \<not> r) = (od_mode D p e m \<and> \<not> edge_refused D p e r)" by (cases e) auto
  then show ?case using Cons.IH [of "od_mode D p e m" "edge_refused D p e r"] by simp
qed simp

lemma logged_sel [simp]:
  "gpio_pad_ok (logged rc D) = gpio_pad_ok D" "DIR_OUTPUT (logged rc D) = DIR_OUTPUT D"
  "DIR_OPEN_DRAIN (logged rc D) = DIR_OPEN_DRAIN D" "GPIO_pinUpperBound (logged rc D) = GPIO_pinUpperBound D"
  "EDGE_NONE (logged rc D) = EDGE_NONE D" "EDGE_RISING (logged rc D) = EDGE_RISING D"
  "EDGE_FALLING (logged rc D) = EDGE_FALLING D"
  by (simp_all add: logged_def gpio_pad_ok_def fun_eq_iff)

lemma logged_config:
  "pin_config (logged rc D) pad cfg g =
     (g\<lparr>pins := pins g @ [SetConfig pad cfg]\<rparr>, if rc pad cfg (pins g) = 0 then CC3501E_HW_OK else CC3501E_HW_ERR_IO)"
  by (simp add: pin_config_def logged_def)

lemma logged_do:
  "pin_do (GPIO_write (logged rc D) pad l) g = g\<lparr>pins := pins g @ [Set_Level pad l]\<rparr>"
  "pin_do (GPIO_setCallback (logged rc D) pad) g = g\<lparr>pins := pins g @ [Callback pad]\<rparr>"
  by (simp_all add: pin_do_def logged_def)

lemma od_flag_logged: "od_flag (logged rc D) p e m = od_flag D p e m"
  by (cases e) simp_all

lemma open_drain_pad:
  assumes "gpio_pad_ok D p" and "GPIO_pinUpperBound D < 64"
  shows "pad_is_open_drain p (fold (gpio_step (logged rc D)) ops gpio_boot)
    \<longleftrightarrow> od_after D p ops \<and> \<not> refused_after D p ops"
proof -
  have "p < 64" using assms by (auto simp: gpio_pad_ok_def)
  moreover have "od_flag (logged rc D) = od_flag D" by (intro ext) (rule od_flag_logged)
  ultimately show ?thesis
    using od_run [of "logged rc D" p ops gpio_boot] assms od_flag_mode [of D p ops False False]
    by (simp add: pad_is_open_drain_def pad_bit_test od_after_def refused_after_def gpio_boot_def)
qed

lemma host_calls:
  assumes "host_op e"
  shows "\<exists>new. pins (gpio_step (logged rc D) e g) = pins g @ new \<and> (\<forall>c \<in> set new. gpio_pad_ok D (call_pad c))"
  using assms
  by (cases e) (auto simp: cc3501e_hw_gpio_configure_def cc3501e_hw_gpio_write_def cc3501e_hw_gpio_set_interrupt_def
      od_release_def logged_config logged_do Let_def)

section \<open>Properties\<close>

text \<open>
  C38: An open-drain pad is never driven high by a write, and the pads of the bridge are never
  touched.  Over any sequence of host requests, camera enables and READY changes, with arbitrary
  driver failures: a host request calls the driver only for pads outside the reserved list and
  within the part's range; and, on a part with at most 64 pads, a write to a pad that was configured
  as open drain, and not since reconfigured or made an interrupt input, either lets it float (level
  1) or configures it low and writes 0, provided no interrupt request for an unknown edge was
  refused on that pad in between (such a request drops the pad out of the driver's books, see the
  property on rejected interrupt requests below).
\<close>

theorem open_drain_never_driven_high:
  assumes "g = fold (gpio_step (logged rc D)) ops gpio_boot"
  shows "(\<forall>e. host_op e \<longrightarrow> (\<exists>new. pins (gpio_step (logged rc D) e g) = pins g @ new
      \<and> (\<forall>c \<in> set new. call_pad c \<le> GPIO_pinUpperBound D \<and> \<not> gpio_pad_reserved (call_pad c))))
    \<and> (\<forall>p l. GPIO_pinUpperBound D < 64 \<longrightarrow> gpio_pad_ok D p \<longrightarrow> od_after D p ops \<longrightarrow> \<not> refused_after D p ops \<longrightarrow>
      (\<exists>new. pins (fst (cc3501e_hw_gpio_write (logged rc D) p l g)) = pins g @ new
      \<and> (if l \<noteq> 0 then \<exists>pull. pull \<in> {GPIO_CFG_PULL_UP_INTERNAL, GPIO_CFG_PULL_NONE_INTERNAL}
            \<and> new = [SetConfig p [GPIO_CFG_INPUT_INTERNAL, pull, GPIO_CFG_IN_INT_NONE]]
         else \<exists>w. w \<in> {[], [Set_Level p 0]}
            \<and> new = SetConfig p [GPIO_CFG_OUTPUT_INTERNAL, GPIO_CFG_PULL_NONE_INTERNAL, GPIO_CFG_OUT_LOW] # w)))"
proof (intro conjI allI impI)
  show "\<exists>new. pins (gpio_step (logged rc D) e g) = pins g @ new
      \<and> (\<forall>c \<in> set new. call_pad c \<le> GPIO_pinUpperBound D \<and> \<not> gpio_pad_reserved (call_pad c))" if "host_op e" for e
    using host_calls [OF that, of rc D g] by (simp add: gpio_pad_ok_def)
  fix p l
  assume h: "GPIO_pinUpperBound D < 64" "gpio_pad_ok D p" "od_after D p ops" "\<not> refused_after D p ops"
  have "pad_is_open_drain p g" using open_drain_pad [OF h(2,1), of rc ops] assms h(3,4) by simp
  then show "\<exists>new. pins (fst (cc3501e_hw_gpio_write (logged rc D) p l g)) = pins g @ new
      \<and> (if l \<noteq> 0 then \<exists>pull. pull \<in> {GPIO_CFG_PULL_UP_INTERNAL, GPIO_CFG_PULL_NONE_INTERNAL}
            \<and> new = [SetConfig p [GPIO_CFG_INPUT_INTERNAL, pull, GPIO_CFG_IN_INT_NONE]]
         else \<exists>w. w \<in> {[], [Set_Level p 0]}
            \<and> new = SetConfig p [GPIO_CFG_OUTPUT_INTERNAL, GPIO_CFG_PULL_NONE_INTERNAL, GPIO_CFG_OUT_LOW] # w)"
    using h(2)
    by (simp add: cc3501e_hw_gpio_write_def od_release_def logged_config logged_do Let_def hw_rc_defs)
qed

definition demo_gpio :: "gpio_call list gpio_drv" where
  "demo_gpio = \<lparr>GPIO_pinUpperBound = 37, GPIO_setConfig = (\<lambda>pad cfg h. (h, 0)), GPIO_write = (\<lambda>pad l h. h),
     GPIO_read = (\<lambda>pad h. 0), GPIO_setCallback = (\<lambda>pad h. h), attn_spin = (\<lambda>h. h), DIR_OUTPUT = 1, DIR_OPEN_DRAIN = 2,
     PULL_UP = 1, PULL_DOWN = 2, EDGE_NONE = 0, EDGE_RISING = 1, EDGE_FALLING = 2\<rparr>"

theorem open_drain_never_driven_high_witness:
  "\<exists>g. g = fold (gpio_step (logged (\<lambda>pad cfg h. 0) demo_gpio)) [Configure 10 2 1, Ready, Interrupt 20 3 1] gpio_boot
    \<and> (\<exists>pull. pins (fst (cc3501e_hw_gpio_write (logged (\<lambda>pad cfg h. 0) demo_gpio) 10 1 g))
        = pins g @ [SetConfig 10 [GPIO_CFG_INPUT_INTERNAL, pull, GPIO_CFG_IN_INT_NONE]])"
proof -
  have h: "GPIO_pinUpperBound demo_gpio < 64" "gpio_pad_ok demo_gpio 10"
    "od_after demo_gpio 10 [Configure 10 2 1, Ready, Interrupt 20 3 1]"
    "\<not> refused_after demo_gpio 10 [Configure 10 2 1, Ready, Interrupt 20 3 1]"
    by (simp_all add: demo_gpio_def gpio_pad_ok_def gpio_pad_reserved_def od_after_def refused_after_def)
  note all = conjunct2 [OF open_drain_never_driven_high [OF refl, of "\<lambda>pad cfg h. 0" demo_gpio
      "[Configure 10 2 1, Ready, Interrupt 20 3 1]"], THEN spec [of _ 10], THEN spec [of _ 1]]
  from mp [OF mp [OF mp [OF mp [OF all h(1)] h(2)] h(3)] h(4)] show ?thesis by auto
qed

text \<open>
  C39: A refused interrupt request takes a pad out of open-drain mode: an edge the driver has no trigger
  for is answered \<open>ERR_INVAL\<close> without a call to the driver, yet the next write of 1 drives the pad,
  still configured as a low output, high.
\<close>

theorem rejected_interrupt_drops_open_drain:
  assumes "gpio_pad_ok D p" and "GPIO_pinUpperBound D < 64" and "DIR_OPEN_DRAIN D \<noteq> DIR_OUTPUT D"
    and "edge \<notin> {EDGE_NONE D, EDGE_RISING D, EDGE_FALLING D}" and "en \<noteq> 0"
    and "L = logged (\<lambda>pad cfg h. 0) D"
    and "g = fold (gpio_step L) [Configure p (DIR_OPEN_DRAIN D) pull, Write p 0] gpio_boot"
  shows "snd (cc3501e_hw_gpio_set_interrupt L p edge en g) = CC3501E_HW_ERR_INVAL
    \<and> pins (gpio_step L (Interrupt p edge en) g) = pins g
    \<and> drop 1 (pins g) = [SetConfig p [GPIO_CFG_OUTPUT_INTERNAL, GPIO_CFG_PULL_NONE_INTERNAL, GPIO_CFG_OUT_LOW], Set_Level p 0]
    \<and> pins (gpio_step L (Write p 1) (gpio_step L (Interrupt p edge en) g)) = pins g @ [Set_Level p 1]"
proof -
  let ?c = "[Configure p (DIR_OPEN_DRAIN D) pull]"
  have p: "p < 64" "\<not> 64 \<le> p" using assms(1,2) by (auto simp: gpio_pad_ok_def)
  have od: "pad_is_open_drain p (fold (gpio_step L) ?c gpio_boot)"
    using open_drain_pad [OF assms(1,2), of "\<lambda>pad cfg h. 0" ?c] assms(3,6) by (simp add: od_after_def refused_after_def)
  have nod: "\<not> pad_is_open_drain p (gpio_step L (Interrupt p edge en) g)"
    using open_drain_pad [OF assms(1,2), of "\<lambda>pad cfg h. 0" "?c @ [Write p 0, Interrupt p edge en]"] assms(4-7)
    by (simp add: od_after_def refused_after_def edge_known_def)
  have "drop 1 (pins g) = [SetConfig p [GPIO_CFG_OUTPUT_INTERNAL, GPIO_CFG_PULL_NONE_INTERNAL, GPIO_CFG_OUT_LOW], Set_Level p 0]"
    using od assms(1,3,6,7) p
    by (simp add: cc3501e_hw_gpio_write_def cc3501e_hw_gpio_configure_def od_release_def logged_config logged_do Let_def
        hw_rc_defs gpio_boot_def)
  moreover have "snd (cc3501e_hw_gpio_set_interrupt L p edge en g) = CC3501E_HW_ERR_INVAL
      \<and> pins (gpio_step L (Interrupt p edge en) g) = pins g"
    using assms(1,4,5,6) by (simp add: cc3501e_hw_gpio_set_interrupt_def Let_def)
  ultimately show ?thesis
    using nod assms(1,6) by (simp add: cc3501e_hw_gpio_write_def logged_do del: gpio_step.simps(3))
qed

theorem rejected_interrupt_drops_open_drain_witness:
  "\<exists>L g. L = logged (\<lambda>pad cfg h. 0) demo_gpio \<and> g = fold (gpio_step L) [Configure 10 2 0, Write 10 0] gpio_boot
    \<and> snd (cc3501e_hw_gpio_set_interrupt L 10 3 1 g) = CC3501E_HW_ERR_INVAL
    \<and> pins (gpio_step L (Write 10 1) (gpio_step L (Interrupt 10 3 1) g)) = pins g @ [Set_Level 10 1]"
proof -
  have h: "gpio_pad_ok demo_gpio 10" "GPIO_pinUpperBound demo_gpio < 64" "DIR_OPEN_DRAIN demo_gpio \<noteq> DIR_OUTPUT demo_gpio"
    "(3 :: byte) \<notin> {EDGE_NONE demo_gpio, EDGE_RISING demo_gpio, EDGE_FALLING demo_gpio}" "(1 :: byte) \<noteq> 0"
    and d: "DIR_OPEN_DRAIN demo_gpio = 2"
    by (simp_all add: demo_gpio_def gpio_pad_ok_def gpio_pad_reserved_def)
  from rejected_interrupt_drops_open_drain [OF h refl refl, of 0] show ?thesis unfolding d by blast
qed

end
