(* ===== verification/Ti_Spi1.thy ===== *)
theory Ti_Spi1
  imports Ti_Gpio
begin

text \<open>
  The SPI1 controller of \<^verbatim>\<open>hal/ti/cc3501e_hw_ti_spi_master.c\<close>: the host's transfers relayed onto the
  second bus with two software chip selects.  The vendor's SPI and GPIO drivers are the records
  \<open>spi1_drv\<close> and \<open>gpio_drv\<close>.  The selects follow the host's hold flag on every path, bytes are clocked
  only with exactly one device selected, and a read through the small fill window is the one
  transfer it stands for.
\<close>

section \<open>State\<close>

type_synonym u64 = "64 word"

datatype spi_frame_format = SPI_POL0_PHA0 | SPI_POL0_PHA1 | SPI_POL1_PHA0 | SPI_POL1_PHA1

record spi1_params =
  frameFormat :: spi_frame_format
  dataSize :: byte
  bitRate :: u32
  transferTimeout :: u32

text \<open>
  A blocking transfer takes the bytes to send and whether the received ones are stored; it returns
  whether the driver took it, whether it ended as completed, and the bytes stored.
\<close>

record 'h spi1_drv =
  spi1_gpio :: "'h gpio_drv"
  SPI_open_controller :: "spi1_params \<Rightarrow> 'h \<Rightarrow> 'h \<times> bool"
  SPI_close_controller :: "'h \<Rightarrow> 'h"
  SPI_transfer_blocking :: "byte list \<Rightarrow> bool \<Rightarrow> 'h \<Rightarrow> 'h \<times> bool \<times> bool \<times> byte list"
  ClockP_getSystemTickPeriod :: "'h \<Rightarrow> u32"
  SPI1_CS1_V :: byte

definition SPI1_CS0_PAD :: byte where "SPI1_CS0_PAD = 31"
definition SPI1_CS1_PAD :: byte where "SPI1_CS1_PAD = 15"
definition SPI1_MAX_XFER_V :: u64 where "SPI1_MAX_XFER_V = 4088"
definition FILL_CHUNK :: nat where "FILL_CHUNK = 64"

record 'h ti_spi1 =
  spi1_open :: bool
  cs_pad :: byte
  cs_held :: bool
  fill_chunk :: "byte list"
  bus :: 'h

definition spi1_reset :: "'h \<Rightarrow> 'h ti_spi1" where
  "spi1_reset h = \<lparr>spi1_open = False, cs_pad = SPI1_CS0_PAD, cs_held = False, fill_chunk = replicate FILL_CHUNK 0, bus = h\<rparr>"

section \<open>Operations\<close>

definition xfer_timeout_ticks :: "u32 \<Rightarrow> u32 \<Rightarrow> u32" where
  "xfer_timeout_ticks tick_period freq_hz =
     (let us = (SPI1_MAX_XFER_V * 8 * 1000000) div ucast freq_hz + 100000;
          period_us = (if tick_period = 0 then 1000 else tick_period);
          ticks = (us + ucast period_us - 1) div ucast period_us;
          ticks = (if ticks = 0 then 1 else ticks);
          ticks = (if ticks > 0xFFFFFFFE then 0xFFFFFFFE else ticks)
      in ucast (ticks :: u64))"

definition cs_drive :: "'h spi1_drv \<Rightarrow> bool \<Rightarrow> 'h ti_spi1 \<Rightarrow> 'h ti_spi1" where
  "cs_drive D assert_low s =
     s\<lparr>bus := GPIO_write (spi1_gpio D) (cs_pad s) (if assert_low then 0 else 1) (bus s), cs_held := assert_low\<rparr>"

definition spi1_xfer :: "'h spi1_drv \<Rightarrow> byte list \<Rightarrow> bool \<Rightarrow> 'h ti_spi1 \<Rightarrow> 'h ti_spi1 \<times> bool \<times> byte list" where
  "spi1_xfer D tx rx s =
     (case SPI_transfer_blocking D tx rx (bus s) of (h, taken, completed, bs) \<Rightarrow>
        (s\<lparr>bus := h\<rparr>, taken \<and> completed, bs))"

definition spi1_frame_format :: "byte \<Rightarrow> spi_frame_format" where
  "spi1_frame_format mode = [SPI_POL0_PHA0, SPI_POL0_PHA1, SPI_POL1_PHA0, SPI_POL1_PHA1] ! unat mode"

definition cc3501e_hw_spi1_configure ::
    "'h spi1_drv \<Rightarrow> u32 \<Rightarrow> byte \<Rightarrow> byte \<Rightarrow> byte \<Rightarrow> 'h ti_spi1 \<Rightarrow> 'h ti_spi1 \<times> int \<times> u32" where
  "cc3501e_hw_spi1_configure D freq_hz mode bits_per_word cs s =
     (if freq_hz = 0 \<or> mode > 3 \<or> bits_per_word \<noteq> 8 \<or> cs > SPI1_CS1_V D then (s, CC3501E_HW_ERR_INVAL, 0)
      else if cs_held s then (s, CC3501E_HW_ERR_STATE, 0)
      else let s1 = (if spi1_open s then s\<lparr>bus := SPI_close_controller D (bus s), spi1_open := False\<rparr> else s);
               pad = (if cs = SPI1_CS1_V D then SPI1_CS1_PAD else SPI1_CS0_PAD)
           in case GPIO_setConfig (spi1_gpio D) pad
                     [GPIO_CFG_OUTPUT_INTERNAL, GPIO_CFG_PULL_NONE_INTERNAL, GPIO_CFG_OUT_HIGH] (bus s1) of
                (h, rc) \<Rightarrow>
                  let s2 = s1\<lparr>cs_pad := pad, bus := h\<rparr>
                  in if rc \<noteq> 0 then (s2, CC3501E_HW_ERR_IO, 0)
                     else let s3 = cs_drive D False s2;
                              params = \<lparr>frameFormat = spi1_frame_format mode, dataSize = bits_per_word, bitRate = freq_hz,
                                transferTimeout = xfer_timeout_ticks (ClockP_getSystemTickPeriod D (bus s3)) freq_hz\<rparr>
                          in case SPI_open_controller D params (bus s3) of (h', opened) \<Rightarrow>
                               (s3\<lparr>bus := h', spi1_open := opened\<rparr>, if opened then CC3501E_HW_OK else CC3501E_HW_ERR_IO, 0))"

text \<open>The window loop of a transfer without data to send; the received windows follow each other.\<close>

function spi1_fill :: "'h spi1_drv \<Rightarrow> bool \<Rightarrow> nat \<Rightarrow> 'h ti_spi1 \<Rightarrow> 'h ti_spi1 \<times> int \<times> byte list" where
  "spi1_fill D rx left s =
     (if left = 0 then (s, CC3501E_HW_OK, [])
      else let n = (if left > FILL_CHUNK then FILL_CHUNK else left)
           in case spi1_xfer D (take n (fill_chunk s)) rx s of (s1, ok, bs) \<Rightarrow>
                if \<not> ok then (s1, CC3501E_HW_ERR_STATE, bs)
                else case spi1_fill D rx (left - n) s1 of (s2, rv, cs) \<Rightarrow> (s2, rv, bs @ cs))"
  by pat_completeness auto
termination by (relation "measure (\<lambda>(D, rx, left, s). left)") (auto simp: FILL_CHUNK_def)

declare spi1_fill.simps [simp del]

text \<open>The clocking of a transfer, between the edges of the select.\<close>

definition spi1_clock ::
    "'h spi1_drv \<Rightarrow> byte list option \<Rightarrow> bool \<Rightarrow> u16 \<Rightarrow> byte \<Rightarrow> 'h ti_spi1 \<Rightarrow> 'h ti_spi1 \<times> int \<times> byte list" where
  "spi1_clock D tx rx len tx_fill s =
     (if len = 0 then (s, CC3501E_HW_OK, [])
      else case tx of
          Some bytes \<Rightarrow> (case spi1_xfer D (take (unat len) bytes) rx s of (s1, ok, bs) \<Rightarrow>
                         (s1, if ok then CC3501E_HW_OK else CC3501E_HW_ERR_STATE, bs))
        | None \<Rightarrow> spi1_fill D rx (unat len) (s\<lparr>fill_chunk := replicate FILL_CHUNK tx_fill\<rparr>))"

definition cc3501e_hw_spi1_transfer ::
    "'h spi1_drv \<Rightarrow> byte list option \<Rightarrow> bool \<Rightarrow> u16 \<Rightarrow> byte \<Rightarrow> bool \<Rightarrow> 'h ti_spi1 \<Rightarrow> 'h ti_spi1 \<times> int \<times> byte list" where
  "cc3501e_hw_spi1_transfer D tx rx len tx_fill cs_hold s =
     (if \<not> spi1_open s then (s, CC3501E_HW_ERR_NOTIMPL, [])
      else if ucast len > SPI1_MAX_XFER_V then (s, CC3501E_HW_ERR_INVAL, [])
      else case spi1_clock D tx rx len tx_fill (cs_drive D True s) of (s1, rv, bs) \<Rightarrow>
        (if \<not> cs_hold \<or> rv \<noteq> CC3501E_HW_OK then cs_drive D False s1 else s1, rv, bs))"

definition cc3501e_hw_spi1_release :: "'h spi1_drv \<Rightarrow> 'h ti_spi1 \<Rightarrow> 'h ti_spi1 \<times> int" where
  "cc3501e_hw_spi1_release D s =
     (let s1 = (if cs_held s then cs_drive D False s else s)
      in (if spi1_open s1 then s1\<lparr>bus := SPI_close_controller D (bus s1), spi1_open := False\<rparr> else s1, CC3501E_HW_OK))"

section \<open>The transfer timeout\<close>

lemma unat_timeout:
  assumes "0 < freq"
  shows "unat (xfer_timeout_ticks period freq) =
    (let p = (if period = 0 then 1000 else unat period); us = 32704000000 div unat freq + 100000
     in min 4294967294 ((us + p - 1) div p))"
proof -
  define p :: nat where "p = (if period = 0 then 1000 else unat period)"
  define us :: nat where "us = 32704000000 div unat freq + 100000"
  have p: "0 < p" "p < 2 ^ 32" "unat (ucast (if period = 0 then 1000 else period) :: u64) = p"
    using unsigned_less [of period, where 'a = nat] by (auto simp: p_def unat_gt_0 unsigned_ucast_eq take_bit_nat_eq_self)
  have f: "0 < unat freq" "unat (ucast freq :: u64) = unat freq"
    using assms unsigned_less [of freq, where 'a = nat] by (auto simp: unat_gt_0 unsigned_ucast_eq take_bit_nat_eq_self)
  have b: "us \<le> 32704100000" using f(1) by (simp add: us_def)
  define U :: u64 where "U = (SPI1_MAX_XFER_V * 8 * 1000000) div ucast freq + 100000"
  define Q :: u64 where "Q = ucast (if period = 0 then 1000 else period)"
  have "unat ((SPI1_MAX_XFER_V * 8 * 1000000) div ucast freq) = 32704000000 div unat freq"
    using f(2) by (simp add: SPI1_MAX_XFER_V_def unat_div)
  then have us: "unat U = us" using b by (simp add: U_def unat_word_ariths(1) us_def [symmetric])
  have q: "unat Q = p" using p(3) by (simp add: Q_def)
  have "unat (U + Q) = us + p" using us q p(2) b by (simp add: unat_word_ariths(1))
  then have "unat (U + Q - 1) = us + p - 1" using p(1) by (simp add: unat_sub word_le_nat_alt)
  then have t: "unat ((U + Q - 1) div Q) = (us + p - 1) div p" using q by (simp add: unat_div)
  have n: "0 < (us + p - 1) div p" using p(1) by (simp add: us_def div_greater_zero_iff)
  have "unat (xfer_timeout_ticks period freq) = min 4294967294 ((us + p - 1) div p)"
    unfolding xfer_timeout_ticks_def Let_def U_def [symmetric] Q_def [symmetric]
    using t n by (auto simp: word_less_nat_alt unsigned_ucast_eq take_bit_nat_eq_self unat_eq_0)
  then show ?thesis by (simp add: p_def us_def Let_def)
qed

section \<open>The chip selects\<close>

datatype spi1_op = Spi1_Configure u32 byte byte byte | Spi1_Transfer "byte list option" bool u16 byte bool | Spi1_Release

fun spi1_step :: "'h spi1_drv \<Rightarrow> spi1_op \<Rightarrow> 'h ti_spi1 \<Rightarrow> 'h ti_spi1" where
  "spi1_step D (Spi1_Configure f m b c) s = fst (cc3501e_hw_spi1_configure D f m b c s)"
| "spi1_step D (Spi1_Transfer tx rx len fl hold) s = fst (cc3501e_hw_spi1_transfer D tx rx len fl hold s)"
| "spi1_step D Spi1_Release s = fst (cc3501e_hw_spi1_release D s)"

text \<open>
  What the pin driver does to the pads, seen through an abstraction of the hardware state: a pad is
  \<open>None\<close> until it is configured as an output and then has a level.  A write to a pad that is not an
  output is dropped, and the SPI driver leaves these pads alone.
\<close>

definition pads_follow :: "'h spi1_drv \<Rightarrow> ('h \<Rightarrow> byte \<Rightarrow> bool option) \<Rightarrow> bool" where
  "pads_follow D pads \<longleftrightarrow>
     (\<forall>p v h. pads (GPIO_write (spi1_gpio D) p v h) = (if pads h p = None then pads h else (pads h)(p \<mapsto> v \<noteq> 0)))
   \<and> (\<forall>p h h' rc. GPIO_setConfig (spi1_gpio D) p [GPIO_CFG_OUTPUT_INTERNAL, GPIO_CFG_PULL_NONE_INTERNAL, GPIO_CFG_OUT_HIGH] h = (h', rc)
        \<longrightarrow> pads h' = (if rc = 0 then (pads h)(p \<mapsto> True) else pads h))
   \<and> (\<forall>q h. pads (fst (SPI_open_controller D q h)) = pads h)
   \<and> (\<forall>h. pads (SPI_close_controller D h) = pads h)
   \<and> (\<forall>tx rx h. pads (fst (SPI_transfer_blocking D tx rx h)) = pads h)"

definition low :: "('h \<Rightarrow> byte \<Rightarrow> bool option) \<Rightarrow> 'h \<Rightarrow> byte set" where
  "low pads h = {p. pads h p = Some False}"

definition select_inv :: "('h \<Rightarrow> byte \<Rightarrow> bool option) \<Rightarrow> 'h ti_spi1 \<Rightarrow> bool" where
  "select_inv pads s \<longleftrightarrow> low pads (bus s) = (if cs_held s then {cs_pad s} else {}) \<and> (cs_held s \<longrightarrow> spi1_open s)
     \<and> (spi1_open s \<longrightarrow> pads (bus s) (cs_pad s) \<noteq> None) \<and> cs_pad s \<in> {SPI1_CS0_PAD, SPI1_CS1_PAD}"

lemma pads_laws:
  assumes "pads_follow D pads"
  shows "pads (GPIO_write (spi1_gpio D) p v h) = (if pads h p = None then pads h else (pads h)(p \<mapsto> v \<noteq> 0))"
    and "GPIO_setConfig (spi1_gpio D) p [GPIO_CFG_OUTPUT_INTERNAL, GPIO_CFG_PULL_NONE_INTERNAL, GPIO_CFG_OUT_HIGH] h = (h1, rc)
      \<Longrightarrow> pads h1 = (if rc = 0 then (pads h)(p \<mapsto> True) else pads h)"
    and "SPI_open_controller D q h = (h1, b) \<Longrightarrow> pads h1 = pads h"
    and "pads (SPI_close_controller D h) = pads h"
    and "SPI_transfer_blocking D tx rx h = (h1, r) \<Longrightarrow> pads h1 = pads h"
  using assms unfolding pads_follow_def by (blast, blast, metis fst_conv, blast, metis fst_conv)

text \<open>Clocking changes the bus state only, and not the pads.\<close>

definition clocked :: "('h \<Rightarrow> byte \<Rightarrow> bool option) \<Rightarrow> 'h ti_spi1 \<Rightarrow> 'h ti_spi1 \<Rightarrow> bool" where
  "clocked pads s s' \<longleftrightarrow> spi1_open s' = spi1_open s \<and> cs_pad s' = cs_pad s \<and> cs_held s' = cs_held s \<and> pads (bus s') = pads (bus s)"

lemma clocked_xfer:
  assumes "pads_follow D pads"
  shows "clocked pads s (fst (spi1_xfer D tx rx s))"
  using pads_laws(5) [OF assms] by (auto simp: spi1_xfer_def clocked_def split: prod.split)

lemma clocked_trans: "clocked pads s s1 \<Longrightarrow> clocked pads s1 s2 \<Longrightarrow> clocked pads s s2"
  by (simp add: clocked_def)

lemma spi1_fill_0 [simp]: "spi1_fill D rx 0 s = (s, CC3501E_HW_OK, [])"
  by (simp add: spi1_fill.simps)

lemma spi1_fill_step:
  assumes "0 < left" and "n = min FILL_CHUNK left" and "spi1_xfer D (take n (fill_chunk s)) rx s = (s1, ok, bs)"
    and "spi1_fill D rx (left - n) s1 = (s2, rv, cs)"
  shows "spi1_fill D rx left s = (if ok then (s2, rv, bs @ cs) else (s1, CC3501E_HW_ERR_STATE, bs))"
proof -
  have n: "(if left > FILL_CHUNK then FILL_CHUNK else left) = n" using assms(2) by (simp add: min_def)
  show ?thesis using assms(1,3,4) by (simp add: spi1_fill.simps [of D rx left s] n Let_def)
qed

lemma clocked_fill:
  assumes "pads_follow D pads"
  shows "clocked pads s (fst (spi1_fill D rx left s))"
proof (induction left arbitrary: s rule: less_induct)
  case (less left)
  show ?case
  proof (cases "left = 0")
    case False
    let ?n = "min FILL_CHUNK left"
    obtain s1 ok bs where x: "spi1_xfer D (take ?n (fill_chunk s)) rx s = (s1, ok, bs)" by (metis prod_cases3)
    obtain s2 rv cs where r: "spi1_fill D rx (left - ?n) s1 = (s2, rv, cs)" by (metis prod_cases3)
    have "clocked pads s s1" using clocked_xfer [OF assms, of s "take ?n (fill_chunk s)" rx] x by simp
    moreover have "clocked pads s1 s2" using less.IH [of "left - ?n" s1] r False by (simp add: FILL_CHUNK_def)
    ultimately show ?thesis using spi1_fill_step [OF _ refl x r] False clocked_trans by auto
  qed (simp add: clocked_def)
qed

lemma clocked_clock:
  assumes "pads_follow D pads"
  shows "clocked pads s (fst (spi1_clock D tx rx len fl s))"
proof (cases tx)
  case None
  have "clocked pads s (s\<lparr>fill_chunk := replicate FILL_CHUNK fl\<rparr>)" by (simp add: clocked_def)
  from clocked_trans [OF this clocked_fill [OF assms]] show ?thesis using None by (simp add: spi1_clock_def clocked_def)
next
  case (Some bytes)
  then show ?thesis using clocked_xfer [OF assms, of s "take (unat len) bytes" rx]
    by (auto simp: spi1_clock_def clocked_def split: prod.splits)
qed

text \<open>What an edge of the select does, once the pad is an output.\<close>

lemma cs_drive_fields [simp]:
  "spi1_open (cs_drive D b s) = spi1_open s" "cs_pad (cs_drive D b s) = cs_pad s" "cs_held (cs_drive D b s) = b"
  by (simp_all add: cs_drive_def)

lemma cs_drive_pads:
  assumes "pads_follow D pads" and "pads (bus s) (cs_pad s) \<noteq> None"
  shows "pads (bus (cs_drive D b s)) = (pads (bus s))(cs_pad s \<mapsto> \<not> b)"
  using pads_laws(1) [OF assms(1)] assms(2) by (auto simp: cs_drive_def)

lemma select_inv_drive:
  assumes "pads_follow D pads" and "select_inv pads s" and "spi1_open s"
  shows "select_inv pads (cs_drive D b s)"
proof -
  have "pads (bus s) (cs_pad s) \<noteq> None" using assms(2,3) by (simp add: select_inv_def)
  note p = cs_drive_pads [OF assms(1) this, of b]
  have "low pads (bus (cs_drive D b s)) = (if b then {cs_pad s} else {})"
    using assms(2) by (auto simp: p low_def select_inv_def split: if_splits)
  then show ?thesis using assms(2,3) by (simp add: select_inv_def p)
qed

lemma select_inv_clocked: "select_inv pads s \<Longrightarrow> clocked pads s s' \<Longrightarrow> select_inv pads s'"
  by (simp add: select_inv_def clocked_def low_def)

lemma select_inv_transfer:
  assumes "pads_follow D pads" and "select_inv pads s"
  shows "select_inv pads (fst (cc3501e_hw_spi1_transfer D tx rx len fl hold s))"
proof (cases "spi1_open s")
  case True
  obtain s1 rv bs where c: "spi1_clock D tx rx len fl (cs_drive D True s) = (s1, rv, bs)" by (metis prod_cases3)
  have k: "clocked pads (cs_drive D True s) s1" using clocked_clock [OF assms(1), of "cs_drive D True s" tx rx len fl] c by simp
  note i = select_inv_clocked [OF select_inv_drive [OF assms True] k]
  moreover have "spi1_open s1" using k True by (simp add: clocked_def)
  ultimately show ?thesis using assms(2) select_inv_drive [OF assms(1) i, of False] by (simp add: cc3501e_hw_spi1_transfer_def c)
qed (use assms(2) in \<open>simp add: cc3501e_hw_spi1_transfer_def\<close>)

lemma select_inv_configure:
  assumes "pads_follow D pads" and "select_inv pads s"
  shows "select_inv pads (fst (cc3501e_hw_spi1_configure D f m b c s))"
proof (cases "cs_held s")
  case False
  define s1 where "s1 = (if spi1_open s then s\<lparr>bus := SPI_close_controller D (bus s), spi1_open := False\<rparr> else s)"
  define pad where "pad = (if c = SPI1_CS1_V D then SPI1_CS1_PAD else SPI1_CS0_PAD)"
  obtain h rc where g: "GPIO_setConfig (spi1_gpio D) pad
      [GPIO_CFG_OUTPUT_INTERNAL, GPIO_CFG_PULL_NONE_INTERNAL, GPIO_CFG_OUT_HIGH] (bus s1) = (h, rc)" by (metis surj_pair)
  define s2 where "s2 = s1\<lparr>cs_pad := pad, bus := h\<rparr>"
  define s3 where "s3 = cs_drive D False s2"
  obtain h' opened where q: "SPI_open_controller D \<lparr>frameFormat = spi1_frame_format m, dataSize = b, bitRate = f,
      transferTimeout = xfer_timeout_ticks (ClockP_getSystemTickPeriod D (bus s3)) f\<rparr> (bus s3) = (h', opened)" by (metis surj_pair)
  have e: "fst (cc3501e_hw_spi1_configure D f m b c s) \<in> {s, s2} \<or>
      rc = 0 \<and> fst (cc3501e_hw_spi1_configure D f m b c s) = s3\<lparr>bus := h', spi1_open := opened\<rparr>"
    unfolding cc3501e_hw_spi1_configure_def Let_def s1_def [symmetric] pad_def [symmetric] g prod.case
      s2_def [symmetric] s3_def [symmetric] q by simp
  have s1: "low pads (bus s1) = {}" "\<not> cs_held s1" "\<not> spi1_open s1"
    using assms(2) False pads_laws(4) [OF assms(1)] by (auto simp: select_inv_def low_def s1_def)
  have h: "low pads h = {}" "rc = 0 \<Longrightarrow> pads h pad = Some True"
    using pads_laws(2) [OF assms(1) g] s1(1) by (auto simp: low_def)
  have i: "select_inv pads s2" using h(1) s1(2,3) by (simp add: select_inv_def s2_def pad_def)
  have "select_inv pads (s3\<lparr>bus := h', spi1_open := opened\<rparr>)" if "rc = 0"
  proof -
    have "pads h' = (pads h)(pad \<mapsto> True)"
      using pads_laws(3) [OF assms(1) q] cs_drive_pads [OF assms(1), of s2 False] h(2) [OF that] by (simp add: s3_def s2_def)
    then show ?thesis using h(1) by (auto simp: select_inv_def low_def s3_def s2_def pad_def)
  qed
  then show ?thesis using e i assms(2) by auto
qed (use assms(2) in \<open>simp add: cc3501e_hw_spi1_configure_def\<close>)

lemma select_inv_release:
  assumes "pads_follow D pads" and "select_inv pads s" and "s' = fst (cc3501e_hw_spi1_release D s)"
  shows "select_inv pads s'" and "\<not> cs_held s'" and "\<not> spi1_open s'"
proof -
  define s1 where "s1 = (if cs_held s then cs_drive D False s else s)"
  have i: "select_inv pads s1" "\<not> cs_held s1"
    using assms(2) select_inv_drive [OF assms(1,2), of False] by (simp_all add: s1_def select_inv_def)
  have e: "s' = (if spi1_open s1 then s1\<lparr>bus := SPI_close_controller D (bus s1), spi1_open := False\<rparr> else s1)"
    by (simp add: assms(3) cc3501e_hw_spi1_release_def s1_def Let_def)
  show "select_inv pads s'" "\<not> cs_held s'" "\<not> spi1_open s'"
    using i pads_laws(4) [OF assms(1)] by (simp_all add: e select_inv_def low_def)
qed

lemma select_inv_step:
  assumes "pads_follow D pads" and "select_inv pads s"
  shows "select_inv pads (spi1_step D e s)"
  using assms by (cases e) (simp_all add: select_inv_configure select_inv_transfer select_inv_release(1) [OF _ _ refl])

lemma select_inv_run: "pads_follow D pads \<Longrightarrow> select_inv pads s \<Longrightarrow> select_inv pads (fold (spi1_step D) es s)"
  by (induction es arbitrary: s) (simp_all add: select_inv_step)

text \<open>A driver that does anything at all when it is asked to clock without exactly one device selected.\<close>

definition unselected_does :: "('h \<Rightarrow> byte \<Rightarrow> bool option) \<Rightarrow> (byte list \<Rightarrow> bool \<Rightarrow> 'h \<Rightarrow> 'h \<times> bool \<times> bool \<times> byte list)
    \<Rightarrow> 'h spi1_drv \<Rightarrow> 'h spi1_drv" where
  "unselected_does pads g D = D\<lparr>SPI_transfer_blocking := \<lambda>tx rx h.
     if low pads h = {SPI1_CS0_PAD} \<or> low pads h = {SPI1_CS1_PAD} then SPI_transfer_blocking D tx rx h else g tx rx h\<rparr>"

definition selected :: "('h \<Rightarrow> byte \<Rightarrow> bool option) \<Rightarrow> 'h ti_spi1 \<Rightarrow> bool" where
  "selected pads s \<longleftrightarrow> low pads (bus s) \<in> {{SPI1_CS0_PAD}, {SPI1_CS1_PAD}}"

lemma xfer_selected:
  "selected pads s \<Longrightarrow> spi1_xfer (unselected_does pads g D) tx rx s = spi1_xfer D tx rx s"
  by (auto simp: spi1_xfer_def unselected_does_def selected_def)

lemma selected_clocked: "selected pads s \<Longrightarrow> clocked pads s s' \<Longrightarrow> selected pads s'"
  by (simp add: selected_def clocked_def low_def)

lemma fill_selected:
  assumes "pads_follow D pads" and "selected pads s"
  shows "spi1_fill (unselected_does pads g D) rx left s = spi1_fill D rx left s"
  using assms(2)
proof (induction left arbitrary: s rule: less_induct)
  case (less left)
  show ?case
  proof (cases "left = 0")
    case False
    let ?n = "min FILL_CHUNK left"
    obtain s1 ok bs where x: "spi1_xfer D (take ?n (fill_chunk s)) rx s = (s1, ok, bs)" by (metis prod_cases3)
    obtain s2 rv cs where r: "spi1_fill D rx (left - ?n) s1 = (s2, rv, cs)" by (metis prod_cases3)
    have "selected pads s1"
      using selected_clocked [OF less.prems clocked_xfer [OF assms(1)], of "take ?n (fill_chunk s)" rx] x by simp
    then have r': "spi1_fill (unselected_does pads g D) rx (left - ?n) s1 = (s2, rv, cs)"
      using less.IH [of "left - ?n" s1] False r by (simp add: FILL_CHUNK_def)
    have x': "spi1_xfer (unselected_does pads g D) (take ?n (fill_chunk s)) rx s = (s1, ok, bs)"
      using x xfer_selected [OF less.prems] by metis
    show ?thesis using spi1_fill_step [OF _ refl x r] spi1_fill_step [OF _ refl x' r'] False by simp
  qed simp
qed

lemma clock_selected:
  assumes "pads_follow D pads" and "selected pads s"
  shows "spi1_clock (unselected_does pads g D) tx rx len fl s = spi1_clock D tx rx len fl s"
proof -
  have "selected pads (s\<lparr>fill_chunk := c\<rparr>)" for c using assms(2) by (simp add: selected_def)
  then show ?thesis
    by (simp add: spi1_clock_def xfer_selected [OF assms(2)] fill_selected [OF assms(1)] split: option.split)
qed

lemma drive_unselected: "cs_drive (unselected_does pads g D) b s = cs_drive D b s"
  by (simp add: cs_drive_def unselected_does_def)

lemma unselected_fields:
  "spi1_gpio (unselected_does pads g D) = spi1_gpio D" "SPI_open_controller (unselected_does pads g D) = SPI_open_controller D"
  "SPI_close_controller (unselected_does pads g D) = SPI_close_controller D" "SPI1_CS1_V (unselected_does pads g D) = SPI1_CS1_V D"
  "ClockP_getSystemTickPeriod (unselected_does pads g D) = ClockP_getSystemTickPeriod D"
  by (simp_all add: unselected_does_def)

lemma step_selected:
  assumes "pads_follow D pads" and "select_inv pads s"
  shows "spi1_step (unselected_does pads g D) e s = spi1_step D e s"
proof (cases e)
  case (Spi1_Transfer tx rx len fl hold)
  show ?thesis
  proof (cases "spi1_open s")
    case True
    have "selected pads (cs_drive D True s)"
      using select_inv_drive [OF assms True, of True] by (auto simp: select_inv_def selected_def)
    from clock_selected [OF assms(1) this] show ?thesis
      by (simp add: Spi1_Transfer cc3501e_hw_spi1_transfer_def drive_unselected split: prod.split)
  qed (simp add: Spi1_Transfer cc3501e_hw_spi1_transfer_def)
qed (simp_all add: cc3501e_hw_spi1_configure_def cc3501e_hw_spi1_release_def drive_unselected unselected_fields Let_def
      split: prod.split)

lemma run_selected:
  assumes "pads_follow D pads" and "select_inv pads s"
  shows "fold (spi1_step (unselected_does pads g D)) es s = fold (spi1_step D) es s"
  using assms(2)
proof (induction es arbitrary: s)
  case (Cons e es)
  then show ?case using step_selected [OF assms(1) Cons.prems] select_inv_step [OF assms(1) Cons.prems] by simp
qed simp

lemma transfer_held:
  assumes "cc3501e_hw_spi1_transfer D tx rx len fl hold s = (s', rv, bs)" and "pads_follow D pads"
  shows "rv = CC3501E_HW_OK \<Longrightarrow> cs_held s' = hold" and "spi1_open s \<Longrightarrow> unat len \<le> 4088 \<Longrightarrow> rv \<noteq> CC3501E_HW_OK \<Longrightarrow> \<not> cs_held s'"
proof -
  obtain s1 rv1 bs1 where c: "spi1_clock D tx rx len fl (cs_drive D True s) = (s1, rv1, bs1)" by (metis prod_cases3)
  have k: "cs_held s1" using clocked_clock [OF assms(2), of "cs_drive D True s" tx rx len fl] c by (simp add: clocked_def)
  show "rv = CC3501E_HW_OK \<Longrightarrow> cs_held s' = hold"
    using assms(1) c k by (auto simp: cc3501e_hw_spi1_transfer_def hw_rc_defs split: if_splits)
  assume l: "unat len \<le> 4088" and o: "spi1_open s" "rv \<noteq> CC3501E_HW_OK"
  have "\<not> SPI1_MAX_XFER_V < ucast len"
    using l by (simp add: SPI1_MAX_XFER_V_def word_less_nat_alt unsigned_ucast_eq take_bit_nat_eq_self)
  then show "\<not> cs_held s'" using assms(1) c o by (auto simp: cc3501e_hw_spi1_transfer_def split: if_splits)
qed

text \<open>
  C16: The host's devices on SPI1 are selected one at a time, and only while they should be.  After any
  history of configures, transfers and releases (with pads that follow their writes once they are
  outputs, none of them low at boot) the low pads are exactly the selected one while a hold is open
  and none otherwise, and an open hold has an open bus.  Bytes are never clocked in any other
  situation: a driver that did anything at all there would give the same run.  A transfer that
  succeeds leaves the select as the host asked, one that fails on the wire and every release leave no
  device selected, and a configure inside an open hold is refused without touching the bus.
\<close>

theorem spi1_select_discipline:
  assumes "pads_follow D pads" and "low pads h = {}"
    and "s = fold (spi1_step D) es (spi1_reset h)"
  shows "low pads (bus s) = (if cs_held s then {cs_pad s} else {}) \<and> (cs_held s \<longrightarrow> spi1_open s)
    \<and> fold (spi1_step (unselected_does pads g D)) es (spi1_reset h) = s
    \<and> (\<forall>tx rx len fl hold s' rv bs. cc3501e_hw_spi1_transfer D tx rx len fl hold s = (s', rv, bs) \<longrightarrow>
        (rv = CC3501E_HW_OK \<longrightarrow> cs_held s' = hold)
        \<and> (spi1_open s \<longrightarrow> unat len \<le> 4088 \<longrightarrow> rv \<noteq> CC3501E_HW_OK \<longrightarrow> low pads (bus s') = {}))
    \<and> low pads (bus (fst (cc3501e_hw_spi1_release D s))) = {}
    \<and> (cs_held s \<longrightarrow> (\<forall>f m b c. fst (cc3501e_hw_spi1_configure D f m b c s) = s
                        \<and> fst (snd (cc3501e_hw_spi1_configure D f m b c s)) \<noteq> CC3501E_HW_OK))"
proof -
  have b: "select_inv pads (spi1_reset h)" using assms(2) by (simp add: select_inv_def spi1_reset_def)
  have i: "select_inv pads s" using select_inv_run [OF assms(1) b] assms(3) by simp
  have t: "low pads (bus s') = {}"
    if "cc3501e_hw_spi1_transfer D tx rx len fl hold s = (s', rv, bs)" "spi1_open s" "unat len \<le> 4088" "rv \<noteq> CC3501E_HW_OK"
    for tx rx len fl hold s' rv bs
    using transfer_held(2) [OF that(1) assms(1) that(2-4)] select_inv_transfer [OF assms(1) i, of tx rx len fl hold] that(1)
    by (simp add: select_inv_def)
  note r = select_inv_release [OF assms(1) i refl]
  have "low pads (bus (fst (cc3501e_hw_spi1_release D s))) = {}" using r(1,2) by (simp add: select_inv_def)
  then show ?thesis
    using i t run_selected [OF assms(1) b] assms(3) transfer_held(1) [OF _ assms(1)]
    by (auto simp: select_inv_def cc3501e_hw_spi1_configure_def hw_rc_defs)
qed

section \<open>Transfers without data to send\<close>

text \<open>On a bus whose select stays low, two transfers in a row are one: the device sees only the clock pause.
  That is what the source relies on for the wire; that a transfer which stops short stops where its parts would
  is an assumption on the driver.\<close>

definition streaming :: "'h spi1_drv \<Rightarrow> bool" where
  "streaming D \<longleftrightarrow> (\<forall>xs ys rx h. xs \<noteq> [] \<longrightarrow> ys \<noteq> [] \<longrightarrow> SPI_transfer_blocking D (xs @ ys) rx h =
     (case SPI_transfer_blocking D xs rx h of (h1, taken, completed, as) \<Rightarrow>
        if taken \<and> completed
        then (case SPI_transfer_blocking D ys rx h1 of (h2, taken', completed', bs) \<Rightarrow> (h2, taken', completed', as @ bs))
        else (h1, taken, completed, as)))"

lemma xfer_append:
  assumes "streaming D" and "xs \<noteq> []" and "ys \<noteq> []" and "spi1_xfer D xs rx s = (s1, ok, as)" and "spi1_xfer D ys rx s1 = (s2, ok', bs)"
  shows "spi1_xfer D (xs @ ys) rx s = (if ok then (s2, ok', as @ bs) else (s1, ok, as))"
proof -
  have "SPI_transfer_blocking D (xs @ ys) rx (bus s) =
     (case SPI_transfer_blocking D xs rx (bus s) of (h1, taken, completed, as) \<Rightarrow>
        if taken \<and> completed
        then (case SPI_transfer_blocking D ys rx h1 of (h2, taken', completed', bs) \<Rightarrow> (h2, taken', completed', as @ bs))
        else (h1, taken, completed, as))"
    using assms(1-3) by (simp add: streaming_def)
  then show ?thesis using assms(4,5) by (auto simp: spi1_xfer_def split: prod.splits if_splits)
qed

lemma fill_is_xfer:
  assumes "streaming D" and "0 < left" and "fill_chunk s = replicate FILL_CHUNK fl"
  shows "spi1_fill D rx left s = (case spi1_xfer D (replicate left fl) rx s of (s1, ok, bs) \<Rightarrow>
    (s1, if ok then CC3501E_HW_OK else CC3501E_HW_ERR_STATE, bs))"
  using assms(2,3)
proof (induction left arbitrary: s rule: less_induct)
  case (less left)
  let ?n = "min FILL_CHUNK left"
  obtain s1 ok bs where x: "spi1_xfer D (take ?n (fill_chunk s)) rx s = (s1, ok, bs)" by (metis prod_cases3)
  obtain s2 rv cs where r: "spi1_fill D rx (left - ?n) s1 = (s2, rv, cs)" by (metis prod_cases3)
  note f = spi1_fill_step [OF less.prems(1) refl x r]
  have t: "take ?n (fill_chunk s) = replicate ?n fl" using less.prems(2) by simp
  show ?case
  proof (cases "left \<le> FILL_CHUNK")
    case True
    then have "?n = left" by simp
    then show ?thesis using f x r t by simp
  next
    case False
    then have n: "?n = FILL_CHUNK" "replicate left fl = replicate ?n fl @ replicate (left - ?n) fl" "0 < left - ?n" "?n \<noteq> 0"
      by (simp_all add: replicate_add [symmetric] FILL_CHUNK_def)
    obtain s3 ok' bs' where y: "spi1_xfer D (replicate (left - ?n) fl) rx s1 = (s3, ok', bs')" by (metis prod_cases3)
    have c: "fill_chunk s1 = replicate FILL_CHUNK fl" using x less.prems(2) by (auto simp: spi1_xfer_def split: prod.splits)
    have "(s2, rv, cs) = (s3, if ok' then CC3501E_HW_OK else CC3501E_HW_ERR_STATE, bs')"
      using less.IH [OF _ n(3) c] r y n(4) less.prems(1) by simp
    moreover have "spi1_xfer D (replicate left fl) rx s = (if ok then (s3, ok', bs @ bs') else (s1, ok, bs))"
      using xfer_append [OF assms(1) _ _ x [unfolded t] y] n by simp
    ultimately show ?thesis using f by simp
  qed
qed

text \<open>
  C17: A read through the fill window is one transfer.  On a bus where consecutive transfers under one
  select add up, a transfer without data to send does exactly what the transfer of that many copies
  of the fill byte does, for every length, hold flag and outcome, whatever the window held before:
  the same bytes on the wire, the same bytes received, the same result and the same select; only the
  window buffer itself differs.
\<close>

theorem spi1_fill_window_equivalence:
  assumes "streaming D"
    and "cc3501e_hw_spi1_transfer D None rx len fl hold s = (s', r)"
    and "cc3501e_hw_spi1_transfer D (Some (replicate (unat len) fl)) rx len fl hold s = (s'', r')"
  shows "r = r' \<and> s' = s''\<lparr>fill_chunk := fill_chunk s'\<rparr>"
proof -
  let ?s = "cs_drive D True s"
  obtain s1 ok bs where x: "spi1_xfer D (replicate (unat len) fl) rx ?s = (s1, ok, bs)" by (metis prod_cases3)
  let ?c = "replicate FILL_CHUNK fl"
  have "spi1_xfer D (replicate (unat len) fl) rx (?s\<lparr>fill_chunk := ?c\<rparr>) = (s1\<lparr>fill_chunk := ?c\<rparr>, ok, bs)"
    using x by (auto simp: spi1_xfer_def split: prod.splits)
  then have c: "spi1_clock D None rx len fl ?s =
      (if len = 0 then (?s, CC3501E_HW_OK, []) else (s1\<lparr>fill_chunk := ?c\<rparr>, if ok then CC3501E_HW_OK else CC3501E_HW_ERR_STATE, bs))"
    using fill_is_xfer [OF assms(1), of "unat len" "?s\<lparr>fill_chunk := ?c\<rparr>" fl rx] by (simp add: spi1_clock_def unat_gt_0)
  have d: "spi1_clock D (Some (replicate (unat len) fl)) rx len fl ?s =
      (if len = 0 then (?s, CC3501E_HW_OK, []) else (s1, if ok then CC3501E_HW_OK else CC3501E_HW_ERR_STATE, bs))"
    using x by (simp add: spi1_clock_def)
  have k: "cs_drive D b (u\<lparr>fill_chunk := x\<rparr>) = (cs_drive D b u)\<lparr>fill_chunk := x\<rparr>" "fill_chunk (cs_drive D b u) = fill_chunk u"
    for b u x by (simp_all add: cs_drive_def)
  show ?thesis using assms(2,3) by (auto simp: cc3501e_hw_spi1_transfer_def c d k split: if_splits)
qed

text \<open>
  The wait for a transfer is long enough and never endless.  For every clock the host may ask for and
  every tick period, the timeout is between one tick and the longest finite wait, and unless it is
  that longest wait it covers the largest transfer at this clock with a tenth of a second to spare.
\<close>

theorem spi1_timeout_covers:
  fixes freq period :: u32
  defines "t \<equiv> unat (xfer_timeout_ticks period freq)" and "p \<equiv> (if period = 0 then 1000 else unat period)"
  assumes "0 < freq"
  shows "1 \<le> t \<and> t \<le> 0xFFFFFFFE \<and> (t < 0xFFFFFFFE \<longrightarrow> 4088 * 8 * 1000000 + 99999 * unat freq \<le> t * p * unat freq)"
proof -
  define us where "us = 32704000000 div unat freq + 100000"
  have p: "0 < p" by (simp add: p_def unat_gt_0)
  have f: "0 < unat freq" using assms(3) by (simp add: unat_gt_0)
  have t: "t = min 4294967294 ((us + p - 1) div p)"
    using unat_timeout [OF assms(3), of period] by (simp add: t_def p_def us_def Let_def)
  have "p \<le> us + p - 1" by (simp add: us_def)
  from div_le_mono [OF this, of p] p have n: "1 \<le> (us + p - 1) div p" by simp
  have "us \<le> (us + p - 1) div p * p"
  proof -
    have "us + p - 1 < ((us + p - 1) div p + 1) * p" using dividend_less_div_times [OF p, of "us + p - 1"] by (simp add: algebra_simps)
    then show ?thesis using p by (simp add: algebra_simps)
  qed
  then have u: "us * unat freq \<le> (us + p - 1) div p * p * unat freq" by (rule mult_right_mono) simp
  have "32704000000 < (32704000000 div unat freq + 1) * unat freq"
    using dividend_less_div_times [OF f, of 32704000000] by (simp add: algebra_simps)
  then have "32704000000 + 99999 * unat freq \<le> us * unat freq" by (simp add: us_def algebra_simps)
  from le_trans [OF this u] have "32704000000 + 99999 * unat freq \<le> (us + p - 1) div p * p * unat freq" .
  then show ?thesis unfolding t using n by (simp add: min_def)
qed

section \<open>Witnesses\<close>

text \<open>A bus with pads that follow their writes and a device that answers each byte with its successor.\<close>

definition demo_pins :: "((byte \<Rightarrow> bool option) \<times> byte list) gpio_drv" where
  "demo_pins = \<lparr>GPIO_pinUpperBound = 44,
     GPIO_setConfig = (\<lambda>p cfg (m, w). ((m(p \<mapsto> GPIO_CFG_OUT_HIGH \<in> set cfg), w), 0)),
     GPIO_write = (\<lambda>p v (m, w). (if m p = None then m else m(p \<mapsto> v \<noteq> 0), w)),
     GPIO_read = (\<lambda>p h. 0), GPIO_setCallback = (\<lambda>p h. h), attn_spin = (\<lambda>h. h),
     DIR_OUTPUT = 1, DIR_OPEN_DRAIN = 2, PULL_UP = 1, PULL_DOWN = 2, EDGE_NONE = 0, EDGE_RISING = 1, EDGE_FALLING = 2\<rparr>"

definition demo_spi1 :: "((byte \<Rightarrow> bool option) \<times> byte list) spi1_drv" where
  "demo_spi1 = \<lparr>spi1_gpio = demo_pins, SPI_open_controller = (\<lambda>q h. (h, True)), SPI_close_controller = (\<lambda>h. h),
     SPI_transfer_blocking = (\<lambda>tx rx (m, w). ((m, w @ tx), True, True, if rx then map (\<lambda>b. b + 1) tx else [])),
     ClockP_getSystemTickPeriod = (\<lambda>h. 1000), SPI1_CS1_V = 1\<rparr>"

lemma demo_spi1_laws: "pads_follow demo_spi1 fst" "streaming demo_spi1"
  by (auto simp: pads_follow_def streaming_def demo_spi1_def demo_pins_def split: prod.splits)

theorem spi1_select_discipline_witness:
  "\<exists>s. s = fold (spi1_step demo_spi1) [Spi1_Configure 1000000 0 8 1, Spi1_Transfer (Some [7]) True 1 0 True]
         (spi1_reset (Map.empty, []))
     \<and> cs_held s \<and> low fst (bus s) = {SPI1_CS1_PAD} \<and> snd (bus s) = [7]"
proof -
  let ?es = "[Spi1_Configure 1000000 0 8 1, Spi1_Transfer (Some [7]) True 1 0 True]"
  let ?s = "fold (spi1_step demo_spi1) ?es (spi1_reset (Map.empty, []))"
  have s: "cs_held ?s" "cs_pad ?s = SPI1_CS1_PAD" "snd (bus ?s) = [7]"
    by (simp_all add: spi1_reset_def cc3501e_hw_spi1_configure_def cc3501e_hw_spi1_transfer_def demo_spi1_def demo_pins_def cs_drive_def
        spi1_clock_def spi1_xfer_def SPI1_MAX_XFER_V_def Let_def)
  have "low fst (Map.empty, []) = {}" by (simp add: low_def)
  from spi1_select_discipline [OF demo_spi1_laws(1) this refl, of ?es] s show ?thesis by simp
qed

theorem spi1_fill_window_equivalence_witness:
  "\<exists>s'. cc3501e_hw_spi1_transfer demo_spi1 None True 70 5 False ((spi1_reset (Map.empty, []))\<lparr>spi1_open := True\<rparr>)
     = (s', CC3501E_HW_OK, replicate 70 6)"
proof -
  let ?s = "(spi1_reset (Map.empty, []))\<lparr>spi1_open := True\<rparr>"
  obtain s' r where a: "cc3501e_hw_spi1_transfer demo_spi1 None True 70 5 False ?s = (s', r)" by (metis surj_pair)
  obtain s'' r' where b: "cc3501e_hw_spi1_transfer demo_spi1 (Some (replicate (unat (70 :: u16)) 5)) True 70 5 False ?s = (s'', r')" by (metis surj_pair)
  have "r' = (CC3501E_HW_OK, replicate 70 6)"
    using b by (auto simp: cc3501e_hw_spi1_transfer_def spi1_clock_def spi1_xfer_def demo_spi1_def SPI1_MAX_XFER_V_def split: prod.splits)
  then show ?thesis using spi1_fill_window_equivalence [OF demo_spi1_laws(2) a b] a by simp
qed

theorem spi1_timeout_covers_witness: "1 \<le> unat (xfer_timeout_ticks 1000 1000000)"
  using spi1_timeout_covers [of 1000000 1000] by simp

end
