(* ===== verification/Ti_Nimble.thy ===== *)
theory Ti_Nimble
  imports Hal
begin

text \<open>
  The glue to the NimBLE host of \<^verbatim>\<open>hal/ti/cc3501e_nimble_host.c\<close>: bringing the host up, advertising,
  scanning, connecting, the GATT client and the GATT server with its one dynamic service.  The stack
  is the record \<open>ble_env\<close> over a state \<open>'b\<close>; its callbacks run on the host's task while the worker
  waits, and a wait of one second delivers the callbacks the stack chooses.
\<close>

section \<open>The stack below\<close>

datatype ble_sync = S_CONN | S_DISC | S_GATTC | S_SCAN | S_INIT

record disc_report =
  disc_addr :: "byte list"
  disc_addr_type :: byte
  disc_rssi :: byte
  disc_data :: "byte list"

datatype gap_event = GAP_ADV_COMPLETE | GAP_CONNECT int u16 | GAP_DISCONNECT | GAP_DISC disc_report
  | GAP_DISC_COMPLETE | GAP_OTHER

datatype chr_op = ACCESS_READ_CHR | ACCESS_WRITE_CHR "byte list" | ACCESS_OTHER

text \<open>
  The callbacks the stack makes: GAP events with the sink they were registered for, the host's
  synchronisation, the completions of the GATT client, accesses to the server's characteristics, and
  the write of a value handle through the pointer of the fixed service.
\<close>

datatype ble_cb = Gap_Adv gap_event | Gap_Scan gap_event | Gap_Conn gap_event | Host_Synced byte
  | Gattc_Read u32 int "byte list option" | Gattc_Write int | Chr_Access chr_op | Dyn_Access nat chr_op | Chr_Handle u16

datatype gatt_svc = Demo_Svc | Dyn_Svc "byte list" "(byte list \<times> byte) list"

record adv_params =
  adv_connectable :: bool
  adv_own_addr_type :: byte
  adv_itvl_min :: u32
  adv_itvl_max :: u32

record 'b ble_env =
  OSI_OK :: int
  BLE_HS_CONN_HANDLE_NONE :: u16
  BLE_HS_EALREADY :: int
  BLE_HS_EBUSY :: int
  BLE_ATT_ERR_INSUFFICIENT_RES :: int
  BLE_ATT_ERR_UNLIKELY :: int
  BLE_ATT_ATTR_MAX_LEN :: nat
  BLE_OWN_ADDR_PUBLIC :: byte
  BLE_GAP_ADV_ITVL_MS :: "u16 \<Rightarrow> u32"
  ble_hs_is_enabled :: "'b \<Rightarrow> bool"
  BleIf_OpenTransport :: "'b \<Rightarrow> 'b"
  BleIf_EnableBLE :: "'b \<Rightarrow> 'b \<times> int"
  osi_SyncObjCreate :: "ble_sync \<Rightarrow> 'b \<Rightarrow> 'b \<times> bool"
  nimble_init :: "'b \<Rightarrow> 'b"
  ble_store_init :: "'b \<Rightarrow> 'b"
  ble_npl_task_init :: "'b \<Rightarrow> 'b \<times> int"
  ble_gatts_count_cfg :: "gatt_svc \<Rightarrow> 'b \<Rightarrow> 'b \<times> int"
  ble_gatts_add_svcs :: "gatt_svc \<Rightarrow> 'b \<Rightarrow> 'b \<times> int"
  ble_gatts_reset :: "'b \<Rightarrow> 'b \<times> int"
  ble_gatts_start :: "'b \<Rightarrow> 'b \<times> int \<times> u16 \<times> u16 list"
  ble_gap_ext_adv_remove :: "'b \<Rightarrow> 'b \<times> int"
  ble_gap_ext_adv_configure :: "adv_params \<Rightarrow> 'b \<Rightarrow> 'b \<times> int"
  ble_hs_id_copy_addr :: "'b \<Rightarrow> 'b \<times> int \<times> byte list"
  ble_gap_ext_adv_set_addr :: "byte list \<Rightarrow> 'b \<Rightarrow> 'b \<times> int"
  os_msys_get_pkthdr :: "'b \<Rightarrow> 'b \<times> bool"
  ble_hs_adv_set_name_mbuf :: "'b \<Rightarrow> 'b \<times> int"
  os_mbuf_append_adv :: "byte list \<Rightarrow> 'b \<Rightarrow> 'b \<times> int"
  os_mbuf_free_chain :: "'b \<Rightarrow> 'b"
  ble_gap_ext_adv_set_data :: "'b \<Rightarrow> 'b \<times> int"
  ble_gap_ext_adv_start :: "'b \<Rightarrow> 'b \<times> int"
  ble_gap_ext_adv_stop :: "'b \<Rightarrow> 'b \<times> int"
  ble_gap_disc :: "byte \<Rightarrow> u32 \<Rightarrow> 'b \<Rightarrow> 'b \<times> int"
  ble_gap_disc_cancel :: "'b \<Rightarrow> 'b \<times> int"
  ble_hs_adv_parse_name :: "byte list \<Rightarrow> byte list option"
  ble_gap_connect :: "byte \<Rightarrow> byte \<Rightarrow> byte list \<Rightarrow> u32 \<Rightarrow> 'b \<Rightarrow> 'b \<times> int"
  ble_gap_conn_cancel :: "'b \<Rightarrow> 'b \<times> int"
  ble_gap_terminate :: "u16 \<Rightarrow> 'b \<Rightarrow> 'b \<times> int"
  ble_gattc_read :: "u16 \<Rightarrow> u16 \<Rightarrow> u32 \<Rightarrow> 'b \<Rightarrow> 'b \<times> int"
  ble_gattc_write_flat :: "u16 \<Rightarrow> u16 \<Rightarrow> byte list \<Rightarrow> 'b \<Rightarrow> 'b \<times> int"
  ble_hs_mbuf_to_flat :: "byte list \<Rightarrow> nat \<Rightarrow> int \<times> byte list"
  os_mbuf_append :: "byte list \<Rightarrow> int"
  ble_hs_mbuf_from_flat :: "byte list \<Rightarrow> 'b \<Rightarrow> 'b \<times> bool"
  ble_gatts_notify_custom :: "u16 \<Rightarrow> u16 \<Rightarrow> byte list \<Rightarrow> 'b \<Rightarrow> 'b \<times> int"
  ble_slice :: "ble_sync \<Rightarrow> 'b \<Rightarrow> 'b \<times> ble_cb list"

definition CC3501E_GATT_DYN_MAX_CHARS :: nat where "CC3501E_GATT_DYN_MAX_CHARS = 8"
definition CC3501E_GATT_DYN_CHR_VAL_MAX :: nat where "CC3501E_GATT_DYN_CHR_VAL_MAX = 64"
definition CC3501E_BLE_SCAN_CACHE_MAX :: nat where "CC3501E_BLE_SCAN_CACHE_MAX = 24"
definition CC3501E_BLE_CONNECT_TIMEOUT_MS :: u32 where "CC3501E_BLE_CONNECT_TIMEOUT_MS = 8000"
definition SCAN_NAME_MAX :: nat where "SCAN_NAME_MAX = 31"

section \<open>State\<close>

record dyn_chr =
  chr_uuid :: "byte list"
  chr_len :: u16
  chr_value :: "byte list"
  chr_handle :: u16
  chr_flags :: byte

record scan_rec =
  sr_addr :: "byte list"
  sr_addr_type :: byte
  sr_rssi :: byte
  sr_name :: "byte list"

record 'b ti_ble =
  s_own_addr_type :: byte
  s_syncs_ready :: bool
  signalled :: "ble_sync \<Rightarrow> bool"
  s_conn_handle :: u16
  s_conn_status :: int
  s_gattc_op_status :: int
  s_gattc_read_len :: u16
  s_gattc_read_bounce :: "byte list"
  s_gattc_read_pending :: bool
  s_gattc_read_gen :: u32
  s_chr_val_handle :: u16
  s_chr_value :: byte
  s_dyn_svc_registered :: bool
  s_dyn_svc_uuid :: "byte list"
  s_dyn_chrs :: "dyn_chr list"
  s_scan_cache :: "scan_rec list"
  stack :: 'b

definition ble_reset :: "'b ble_env \<Rightarrow> 'b \<Rightarrow> 'b ti_ble" where
  "ble_reset E st = \<lparr>s_own_addr_type = BLE_OWN_ADDR_PUBLIC E, s_syncs_ready = False, signalled = (\<lambda>_. False),
     s_conn_handle = BLE_HS_CONN_HANDLE_NONE E, s_conn_status = 0, s_gattc_op_status = 0, s_gattc_read_len = 0,
     s_gattc_read_bounce = replicate (BLE_ATT_ATTR_MAX_LEN E) 0, s_gattc_read_pending = False, s_gattc_read_gen = 0,
     s_chr_val_handle = 0, s_chr_value = 0, s_dyn_svc_registered = False, s_dyn_svc_uuid = replicate 16 0,
     s_dyn_chrs = replicate CC3501E_GATT_DYN_MAX_CHARS
       \<lparr>chr_uuid = replicate 16 0, chr_len = 0, chr_value = replicate CC3501E_GATT_DYN_CHR_VAL_MAX 0, chr_handle = 0, chr_flags = 0\<rparr>,
     s_scan_cache = [], stack = st\<rparr>"

definition ble_do :: "('b \<Rightarrow> 'b) \<Rightarrow> 'b ti_ble \<Rightarrow> 'b ti_ble" where
  "ble_do f b = b\<lparr>stack := f (stack b)\<rparr>"

definition ble_call :: "('b \<Rightarrow> 'b \<times> 'a) \<Rightarrow> 'b ti_ble \<Rightarrow> 'b ti_ble \<times> 'a" where
  "ble_call f b = (case f (stack b) of (st, x) \<Rightarrow> (b\<lparr>stack := st\<rparr>, x))"

definition ble_enabled :: "'b ble_env \<Rightarrow> 'b ti_ble \<Rightarrow> bool" where
  "ble_enabled E b = ble_hs_is_enabled E (stack b)"

definition osi_SyncObjSignal :: "ble_sync \<Rightarrow> 'b ti_ble \<Rightarrow> 'b ti_ble" where
  "osi_SyncObjSignal s b = b\<lparr>signalled := (signalled b)(s := True)\<rparr>"

definition osi_SyncObjClear :: "ble_sync \<Rightarrow> 'b ti_ble \<Rightarrow> 'b ti_ble" where
  "osi_SyncObjClear s b = b\<lparr>signalled := (signalled b)(s := False)\<rparr>"

section \<open>Callbacks\<close>

definition cc3501e_gatt_chr_access :: "'b ble_env \<Rightarrow> chr_op \<Rightarrow> 'b ti_ble \<Rightarrow> 'b ti_ble \<times> int" where
  "cc3501e_gatt_chr_access E op b =
     (case op of
        ACCESS_READ_CHR \<Rightarrow> (b, if os_mbuf_append E [s_chr_value b] = 0 then 0 else BLE_ATT_ERR_INSUFFICIENT_RES E)
      | ACCESS_WRITE_CHR om \<Rightarrow>
          (case ble_hs_mbuf_to_flat E om 1 of (rc, bs) \<Rightarrow>
             (b\<lparr>s_chr_value := hd (bs @ [s_chr_value b])\<rparr>, if rc = 0 then 0 else BLE_ATT_ERR_UNLIKELY E))
      | ACCESS_OTHER \<Rightarrow> (b, BLE_ATT_ERR_UNLIKELY E))"

text \<open>The argument is the characteristic the stack was given a pointer to.\<close>

definition cc3501e_gatt_dyn_chr_access :: "'b ble_env \<Rightarrow> nat \<Rightarrow> chr_op \<Rightarrow> 'b ti_ble \<Rightarrow> 'b ti_ble \<times> int" where
  "cc3501e_gatt_dyn_chr_access E i op b =
     (let v = s_dyn_chrs b ! i
      in case op of
        ACCESS_READ_CHR \<Rightarrow>
          (b, if os_mbuf_append E (take (unat (chr_len v)) (chr_value v)) = 0 then 0 else BLE_ATT_ERR_INSUFFICIENT_RES E)
      | ACCESS_WRITE_CHR om \<Rightarrow>
          (case ble_hs_mbuf_to_flat E om CC3501E_GATT_DYN_CHR_VAL_MAX of (rc, bs) \<Rightarrow>
             let v1 = v\<lparr>chr_value := blit (chr_value v) bs\<rparr>
             in if rc \<noteq> 0 then (b\<lparr>s_dyn_chrs := (s_dyn_chrs b)[i := v1]\<rparr>, BLE_ATT_ERR_UNLIKELY E)
                else (b\<lparr>s_dyn_chrs := (s_dyn_chrs b)[i := v1\<lparr>chr_len := word_of_nat (length bs)\<rparr>]\<rparr>, 0))
      | ACCESS_OTHER \<Rightarrow> (b, BLE_ATT_ERR_UNLIKELY E))"

definition cc3501e_gap_event_cb :: "'b ble_env \<Rightarrow> gap_event \<Rightarrow> 'b ti_ble \<Rightarrow> 'b ti_ble" where
  "cc3501e_gap_event_cb E ev b =
     (case ev of
        GAP_ADV_COMPLETE \<Rightarrow> fst (ble_call (ble_gap_ext_adv_start E) b)
      | GAP_CONNECT status h \<Rightarrow> (if status = 0 then b\<lparr>s_conn_handle := h\<rparr> else b)
      | GAP_DISCONNECT \<Rightarrow>
          let b1 = b\<lparr>s_conn_handle := BLE_HS_CONN_HANDLE_NONE E\<rparr>
          in if s_syncs_ready b1 then osi_SyncObjSignal S_DISC b1 else b1
      | _ \<Rightarrow> b)"

definition cc3501e_ble_sync_cb :: "byte \<Rightarrow> 'b ti_ble \<Rightarrow> 'b ti_ble" where
  "cc3501e_ble_sync_cb addr_type b = osi_SyncObjSignal S_INIT (b\<lparr>s_own_addr_type := addr_type\<rparr>)"

fun cc3501e_scan_cache_find :: "byte list \<Rightarrow> scan_rec list \<Rightarrow> nat option" where
  "cc3501e_scan_cache_find addr [] = None"
| "cc3501e_scan_cache_find addr (r # rs) =
     (if sr_addr r = addr then Some 0 else map_option Suc (cc3501e_scan_cache_find addr rs))"

definition scan_update :: "'b ble_env \<Rightarrow> disc_report \<Rightarrow> scan_rec \<Rightarrow> scan_rec" where
  "scan_update E d r =
     (let r1 = r\<lparr>sr_rssi := disc_rssi d\<rparr>
      in if sr_name r1 = []
         then case ble_hs_adv_parse_name E (disc_data d) of
                Some name \<Rightarrow> r1\<lparr>sr_name := take SCAN_NAME_MAX name\<rparr>
              | None \<Rightarrow> r1
         else r1)"

definition scan_report :: "'b ble_env \<Rightarrow> disc_report \<Rightarrow> scan_rec list \<Rightarrow> scan_rec list" where
  "scan_report E d cache =
     (case cc3501e_scan_cache_find (disc_addr d) cache of
        Some i \<Rightarrow> cache[i := scan_update E d (cache ! i)]
      | None \<Rightarrow>
          if length cache \<ge> CC3501E_BLE_SCAN_CACHE_MAX then cache
          else cache @ [scan_update E d \<lparr>sr_addr = disc_addr d, sr_addr_type = disc_addr_type d, sr_rssi = 0, sr_name = []\<rparr>])"

definition cc3501e_scan_gap_event_cb :: "'b ble_env \<Rightarrow> gap_event \<Rightarrow> 'b ti_ble \<Rightarrow> 'b ti_ble" where
  "cc3501e_scan_gap_event_cb E ev b =
     (case ev of
        GAP_DISC d \<Rightarrow> b\<lparr>s_scan_cache := scan_report E d (s_scan_cache b)\<rparr>
      | GAP_DISC_COMPLETE \<Rightarrow> osi_SyncObjSignal S_SCAN b
      | _ \<Rightarrow> b)"

definition cc3501e_conn_gap_event_cb :: "'b ble_env \<Rightarrow> gap_event \<Rightarrow> 'b ti_ble \<Rightarrow> 'b ti_ble" where
  "cc3501e_conn_gap_event_cb E ev b =
     (case ev of
        GAP_CONNECT status h \<Rightarrow>
          osi_SyncObjSignal S_CONN
            (b\<lparr>s_conn_status := status, s_conn_handle := (if status = 0 then h else BLE_HS_CONN_HANDLE_NONE E)\<rparr>)
      | GAP_DISCONNECT \<Rightarrow> osi_SyncObjSignal S_DISC (b\<lparr>s_conn_handle := BLE_HS_CONN_HANDLE_NONE E\<rparr>)
      | _ \<Rightarrow> b)"

definition cc3501e_gattc_read_cb :: "'b ble_env \<Rightarrow> u32 \<Rightarrow> int \<Rightarrow> byte list option \<Rightarrow> 'b ti_ble \<Rightarrow> 'b ti_ble" where
  "cc3501e_gattc_read_cb E gen status attr b =
     (if \<not> (s_gattc_read_pending b \<and> gen = s_gattc_read_gen b) then b
      else let b1 = b\<lparr>s_gattc_op_status := status\<rparr>;
               b2 = (case attr of
                       Some om \<Rightarrow>
                         if status = 0
                         then case ble_hs_mbuf_to_flat E om (BLE_ATT_ATTR_MAX_LEN E) of (rc, bs) \<Rightarrow>
                                let b' = b1\<lparr>s_gattc_read_bounce := blit (s_gattc_read_bounce b1) bs\<rparr>
                                in if rc \<noteq> 0 then b'\<lparr>s_gattc_op_status := rc\<rparr>
                                   else b'\<lparr>s_gattc_read_len := word_of_nat (length bs)\<rparr>
                         else b1
                     | None \<Rightarrow> b1)
           in osi_SyncObjSignal S_GATTC b2)"

definition cc3501e_gattc_write_cb :: "int \<Rightarrow> 'b ti_ble \<Rightarrow> 'b ti_ble" where
  "cc3501e_gattc_write_cb status b = osi_SyncObjSignal S_GATTC (b\<lparr>s_gattc_op_status := status\<rparr>)"

definition ble_callback :: "'b ble_env \<Rightarrow> ble_cb \<Rightarrow> 'b ti_ble \<Rightarrow> 'b ti_ble" where
  "ble_callback E c b =
     (case c of
        Gap_Adv ev \<Rightarrow> cc3501e_gap_event_cb E ev b
      | Gap_Scan ev \<Rightarrow> cc3501e_scan_gap_event_cb E ev b
      | Gap_Conn ev \<Rightarrow> cc3501e_conn_gap_event_cb E ev b
      | Host_Synced a \<Rightarrow> cc3501e_ble_sync_cb a b
      | Gattc_Read gen status attr \<Rightarrow> cc3501e_gattc_read_cb E gen status attr b
      | Gattc_Write status \<Rightarrow> cc3501e_gattc_write_cb status b
      | Chr_Access op \<Rightarrow> fst (cc3501e_gatt_chr_access E op b)
      | Dyn_Access i op \<Rightarrow> fst (cc3501e_gatt_dyn_chr_access E i op b)
      | Chr_Handle h \<Rightarrow> b\<lparr>s_chr_val_handle := h\<rparr>)"

section \<open>Waiting\<close>

definition osi_SyncObjWait_second :: "'b ble_env \<Rightarrow> ble_sync \<Rightarrow> 'b ti_ble \<Rightarrow> 'b ti_ble \<times> bool" where
  "osi_SyncObjWait_second E s b =
     (case ble_call (ble_slice E s) b of (b1, cbs) \<Rightarrow>
        let b2 = fold (ble_callback E) cbs b1
        in if signalled b2 s then (osi_SyncObjClear s b2, True) else (b2, False))"

fun cc3501e_wait_signaled :: "'b ble_env \<Rightarrow> ble_sync \<Rightarrow> nat \<Rightarrow> 'b ti_ble \<Rightarrow> 'b ti_ble \<times> bool" where
  "cc3501e_wait_signaled E s 0 b = (b, False)"
| "cc3501e_wait_signaled E s (Suc k) b =
     (case osi_SyncObjWait_second E s b of (b1, ok) \<Rightarrow>
        if ok then (b1, True) else cc3501e_wait_signaled E s k b1)"

fun create_syncs :: "'b ble_env \<Rightarrow> ble_sync list \<Rightarrow> 'b ti_ble \<Rightarrow> 'b ti_ble \<times> bool" where
  "create_syncs E [] b = (b, True)"
| "create_syncs E (s # ss) b =
     (case ble_call (osi_SyncObjCreate E s) b of (b1, ok) \<Rightarrow>
        if ok then create_syncs E ss (osi_SyncObjClear s b1) else (b1, False))"

definition cc3501e_ensure_syncs :: "'b ble_env \<Rightarrow> 'b ti_ble \<Rightarrow> 'b ti_ble \<times> bool" where
  "cc3501e_ensure_syncs E b =
     (if s_syncs_ready b then (b, True)
      else case create_syncs E [S_CONN, S_DISC, S_GATTC, S_SCAN, S_INIT] b of (b1, ok) \<Rightarrow>
        if ok then (b1\<lparr>s_syncs_ready := True\<rparr>, True) else (b1, False))"

section \<open>Bringing the host up\<close>

definition cc3501e_gatt_svr_init :: "'b ble_env \<Rightarrow> 'b ti_ble \<Rightarrow> 'b ti_ble \<times> int" where
  "cc3501e_gatt_svr_init E b =
     (case ble_call (ble_gatts_count_cfg E Demo_Svc) b of (b1, rc) \<Rightarrow>
        if rc \<noteq> 0 then (b1, rc) else ble_call (ble_gatts_add_svcs E Demo_Svc) b1)"

text \<open>At most \<open>k\<close> further attempts; the last return code counts.\<close>

fun enable_attempts :: "'b ble_env \<Rightarrow> nat \<Rightarrow> 'b ti_ble \<Rightarrow> 'b ti_ble \<times> int" where
  "enable_attempts E 0 b = ble_call (BleIf_EnableBLE E) b"
| "enable_attempts E (Suc k) b =
     (case ble_call (BleIf_EnableBLE E) b of (b1, rc) \<Rightarrow>
        if rc = OSI_OK E then (b1, rc) else enable_attempts E k b1)"

definition cc3501e_nimble_host_start :: "'b ble_env \<Rightarrow> 'b ti_ble \<Rightarrow> 'b ti_ble \<times> int" where
  "cc3501e_nimble_host_start E b =
     (case enable_attempts E 7 (ble_do (BleIf_OpenTransport E) b) of (b1, rc) \<Rightarrow>
      if rc \<noteq> OSI_OK E then (b1, rc)
      else case cc3501e_ensure_syncs E b1 of (b2, ok) \<Rightarrow>
      if \<not> ok then (b2, -1)
      else case cc3501e_gatt_svr_init E (ble_do (nimble_init E) (osi_SyncObjClear S_INIT b2)) of (b3, rc) \<Rightarrow>
      if rc \<noteq> 0 then (b3, rc)
      else case ble_call (ble_npl_task_init E) (ble_do (ble_store_init E) b3) of (b4, rc) \<Rightarrow>
      if rc \<noteq> OSI_OK E then (b4, rc)
      else case osi_SyncObjWait_second E S_INIT b4 of (b5, ok) \<Rightarrow>
      if \<not> ok then (b5, -1) else (b5, if ble_enabled E b5 then 0 else -1))"

definition cc3501e_nimble_host_is_enabled :: "'b ble_env \<Rightarrow> 'b ti_ble \<Rightarrow> bool" where
  "cc3501e_nimble_host_is_enabled E b = ble_enabled E b"

definition cc3501e_nimble_host_disable :: "'b ble_env \<Rightarrow> 'b ti_ble \<Rightarrow> 'b ti_ble \<times> int" where
  "cc3501e_nimble_host_disable E b =
     (if \<not> ble_enabled E b then (b, 0)
      else (fst (ble_call (ble_gap_disc_cancel E) (fst (ble_call (ble_gap_ext_adv_stop E) b))), 0))"

section \<open>Advertising\<close>

definition adv_set_addr :: "'b ble_env \<Rightarrow> 'b ti_ble \<Rightarrow> 'b ti_ble \<times> int" where
  "adv_set_addr E b =
     (if s_own_addr_type b = BLE_OWN_ADDR_PUBLIC E then (b, 0)
      else case ble_call (ble_hs_id_copy_addr E) b of (b1, rc, addr) \<Rightarrow>
        if rc = 0 then ble_call (ble_gap_ext_adv_set_addr E addr) b1 else (b1, rc))"

definition adv_set_data :: "'b ble_env \<Rightarrow> byte list \<Rightarrow> 'b ti_ble \<Rightarrow> 'b ti_ble \<times> int" where
  "adv_set_data E adv_data b =
     (case ble_call (os_msys_get_pkthdr E) b of (b1, got) \<Rightarrow>
      if \<not> got then (b1, -1)
      else case ble_call (if adv_data = [] then ble_hs_adv_set_name_mbuf E else os_mbuf_append_adv E adv_data) b1 of (b2, rc) \<Rightarrow>
      if rc \<noteq> 0 then (ble_do (os_mbuf_free_chain E) b2, rc)
      else case ble_call (ble_gap_ext_adv_set_data E) b2 of (b3, rc) \<Rightarrow>
      if rc \<noteq> 0 then (ble_do (os_mbuf_free_chain E) b3, rc) else (b3, 0))"

definition cc3501e_nimble_adv_config_and_start ::
    "'b ble_env \<Rightarrow> byte \<Rightarrow> u16 \<Rightarrow> u16 \<Rightarrow> byte list \<Rightarrow> 'b ti_ble \<Rightarrow> 'b ti_ble \<times> int" where
  "cc3501e_nimble_adv_config_and_start E connectable interval_min_ms interval_max_ms adv_data b =
     (if \<not> ble_enabled E b then (b, -1)
      else let params = \<lparr>adv_connectable = (connectable \<noteq> 0), adv_own_addr_type = s_own_addr_type b,
                 adv_itvl_min = BLE_GAP_ADV_ITVL_MS E (if interval_min_ms \<noteq> 0 then interval_min_ms else 100),
                 adv_itvl_max = BLE_GAP_ADV_ITVL_MS E (if interval_max_ms \<noteq> 0 then interval_max_ms else 100)\<rparr>
           in case ble_call (ble_gap_ext_adv_remove E) b of (b1, rc) \<Rightarrow>
              if rc \<noteq> 0 \<and> rc \<noteq> BLE_HS_EALREADY E then (b1, rc)
              else case ble_call (ble_gap_ext_adv_configure E params) b1 of (b2, rc) \<Rightarrow>
              if rc \<noteq> 0 then (b2, rc)
              else case adv_set_addr E b2 of (b3, rc) \<Rightarrow>
              if rc \<noteq> 0 then (b3, rc)
              else case adv_set_data E adv_data b3 of (b4, rc) \<Rightarrow>
              if rc \<noteq> 0 then (b4, rc) else ble_call (ble_gap_ext_adv_start E) b4)"

definition cc3501e_nimble_adv_stop :: "'b ble_env \<Rightarrow> 'b ti_ble \<Rightarrow> 'b ti_ble \<times> int" where
  "cc3501e_nimble_adv_stop E b = (if \<not> ble_enabled E b then (b, -1) else ble_call (ble_gap_ext_adv_stop E) b)"

section \<open>Scanning\<close>

definition cc3501e_nimble_scan :: "'b ble_env \<Rightarrow> nat \<Rightarrow> u32 \<Rightarrow> 'b ti_ble \<Rightarrow> 'b ti_ble \<times> int \<times> scan_rec list" where
  "cc3501e_nimble_scan E cap duration_ms b =
     (if \<not> ble_enabled E b then (b, -1, [])
      else case cc3501e_ensure_syncs E (b\<lparr>s_scan_cache := []\<rparr>) of (b1, ok) \<Rightarrow>
      if \<not> ok then (b1, -1, [])
      else case ble_call (ble_gap_disc E (s_own_addr_type b1) duration_ms) (osi_SyncObjClear S_SCAN b1) of (b2, rc) \<Rightarrow>
      if rc \<noteq> 0 then (b2, rc, [])
      else let b3 = fst (cc3501e_wait_signaled E S_SCAN (unat (duration_ms div 1000 + 2)) b2);
               b4 = fst (ble_call (ble_gap_disc_cancel E) b3)
           in (b4, 0, take cap (s_scan_cache b4)))"

definition cc3501e_nimble_scan_stop :: "'b ble_env \<Rightarrow> 'b ti_ble \<Rightarrow> 'b ti_ble \<times> int" where
  "cc3501e_nimble_scan_stop E b =
     (if \<not> ble_enabled E b then (b, -1)
      else case ble_call (ble_gap_disc_cancel E) b of (b1, rc) \<Rightarrow>
        (b1, if rc = 0 \<or> rc = BLE_HS_EALREADY E then 0 else rc))"

section \<open>Connections\<close>

definition cc3501e_nimble_connect :: "'b ble_env \<Rightarrow> byte \<Rightarrow> byte list \<Rightarrow> 'b ti_ble \<Rightarrow> 'b ti_ble \<times> int" where
  "cc3501e_nimble_connect E addr_type addr b =
     (if \<not> ble_enabled E b then (b, -1)
      else if s_conn_handle b \<noteq> BLE_HS_CONN_HANDLE_NONE E then (b, -1)
      else case cc3501e_ensure_syncs E b of (b1, ok) \<Rightarrow>
      if \<not> ok then (b1, -1)
      else case ble_call (ble_gap_connect E (s_own_addr_type b1) addr_type addr CC3501E_BLE_CONNECT_TIMEOUT_MS)
                  (osi_SyncObjClear S_CONN (b1\<lparr>s_conn_status := -1\<rparr>)) of (b2, rc) \<Rightarrow>
      if rc \<noteq> 0 then (b2, rc)
      else case cc3501e_wait_signaled E S_CONN (unat (CC3501E_BLE_CONNECT_TIMEOUT_MS div 1000 + 2)) b2 of (b3, ok) \<Rightarrow>
      if \<not> ok then (fst (ble_call (ble_gap_conn_cancel E) b3), -1)
      else (b3, if s_conn_status b3 \<noteq> 0 \<or> s_conn_handle b3 = BLE_HS_CONN_HANDLE_NONE E then -1 else 0))"

definition cc3501e_nimble_disconnect :: "'b ble_env \<Rightarrow> 'b ti_ble \<Rightarrow> 'b ti_ble \<times> int" where
  "cc3501e_nimble_disconnect E b =
     (if \<not> ble_enabled E b then (b, -1)
      else let h = s_conn_handle b
           in if h = BLE_HS_CONN_HANDLE_NONE E then (b, 0)
              else case cc3501e_ensure_syncs E b of (b1, ok) \<Rightarrow>
              if \<not> ok then (b1, -1)
              else case ble_call (ble_gap_terminate E h) (osi_SyncObjClear S_DISC b1) of (b2, rc) \<Rightarrow>
              if rc \<noteq> 0 then (b2\<lparr>s_conn_handle := BLE_HS_CONN_HANDLE_NONE E\<rparr>, 0)
              else case cc3501e_wait_signaled E S_DISC 4 b2 of (b3, ok) \<Rightarrow> (b3, if ok then 0 else -1))"

section \<open>The GATT client\<close>

text \<open>A read is issued under a new generation; the value is taken from the bounce buffer.\<close>

definition cc3501e_nimble_gatt_read :: "'b ble_env \<Rightarrow> u16 \<Rightarrow> nat \<Rightarrow> 'b ti_ble \<Rightarrow> 'b ti_ble \<times> int \<times> byte list" where
  "cc3501e_nimble_gatt_read E handle cap b =
     (if \<not> ble_enabled E b then (b, -1, [])
      else if s_conn_handle b = BLE_HS_CONN_HANDLE_NONE E then (b, -1, [])
      else case cc3501e_ensure_syncs E b of (b1, ok) \<Rightarrow>
      if \<not> ok then (b1, -1, [])
      else let b2 = (osi_SyncObjClear S_GATTC b1)\<lparr>s_gattc_op_status := -1, s_gattc_read_len := 0,
                      s_gattc_read_gen := s_gattc_read_gen b1 + 1, s_gattc_read_pending := True\<rparr>
           in case ble_call (ble_gattc_read E (s_conn_handle b2) handle (s_gattc_read_gen b2)) b2 of (b3, rc) \<Rightarrow>
              if rc \<noteq> 0 then (b3\<lparr>s_gattc_read_pending := False\<rparr>, rc, [])
              else case cc3501e_wait_signaled E S_GATTC 4 b3 of (b4, waited) \<Rightarrow>
                let b5 = b4\<lparr>s_gattc_read_pending := False\<rparr>
                in if \<not> waited \<or> s_gattc_op_status b5 \<noteq> 0 then (b5, -1, [])
                   else (b5, 0, take (min (unat (s_gattc_read_len b5)) cap) (s_gattc_read_bounce b5)))"

definition cc3501e_nimble_gatt_write :: "'b ble_env \<Rightarrow> u16 \<Rightarrow> byte list \<Rightarrow> 'b ti_ble \<Rightarrow> 'b ti_ble \<times> int" where
  "cc3501e_nimble_gatt_write E handle dat b =
     (if \<not> ble_enabled E b then (b, -1)
      else if s_conn_handle b = BLE_HS_CONN_HANDLE_NONE E then (b, -1)
      else case cc3501e_ensure_syncs E b of (b1, ok) \<Rightarrow>
      if \<not> ok then (b1, -1)
      else let b2 = (osi_SyncObjClear S_GATTC b1)\<lparr>s_gattc_op_status := -1\<rparr>
           in case ble_call (ble_gattc_write_flat E (s_conn_handle b2) handle dat) b2 of (b3, rc) \<Rightarrow>
              if rc \<noteq> 0 then (b3, rc)
              else case cc3501e_wait_signaled E S_GATTC 4 b3 of (b4, waited) \<Rightarrow>
                (b4, if waited \<and> s_gattc_op_status b4 = 0 then 0 else -1))"

section \<open>The GATT server\<close>

definition cc3501e_gatt_reg_map_rc :: "'b ble_env \<Rightarrow> int \<Rightarrow> int" where
  "cc3501e_gatt_reg_map_rc E rc = (if rc = BLE_HS_EBUSY E then CC3501E_HW_ERR_STATE else rc)"

text \<open>The walk over the characteristics; the static tables are filled as it goes.\<close>

fun gatt_parse_chars :: "nat \<Rightarrow> nat \<Rightarrow> byte list \<Rightarrow> nat \<Rightarrow> dyn_chr list \<Rightarrow> dyn_chr list \<times> bool" where
  "gatt_parse_chars 0 i desc pos cs = (cs, True)"
| "gatt_parse_chars (Suc k) i desc pos cs =
     (if pos + 19 > length desc then (cs, False)
      else let c1 = (cs ! i)\<lparr>chr_uuid := take 16 (drop pos desc)\<rparr>;
               properties = desc ! (pos + 16);
               initial_len = get_le16 desc (pos + 17);
               pos1 = pos + 19
           in if unat initial_len > CC3501E_GATT_DYN_CHR_VAL_MAX then (cs[i := c1], False)
              else if pos1 + unat initial_len > length desc then (cs[i := c1], False)
              else let c2 = c1\<lparr>chr_value := blit (chr_value c1) (take (unat initial_len) (drop pos1 desc)),
                               chr_len := initial_len, chr_handle := 0, chr_flags := properties\<rparr>
                   in gatt_parse_chars k (Suc i) desc (pos1 + unat initial_len) (cs[i := c2]))"

fun set_handles :: "u16 list \<Rightarrow> dyn_chr list \<Rightarrow> dyn_chr list" where
  "set_handles (h # hs) (c # cs) = c\<lparr>chr_handle := h\<rparr> # set_handles hs cs"
| "set_handles hs cs = cs"

definition gatt_restart :: "'b ble_env \<Rightarrow> gatt_svc \<Rightarrow> 'b ti_ble \<Rightarrow> 'b ti_ble \<times> int" where
  "gatt_restart E dyn b =
     (case ble_call (ble_gatts_reset E) b of (b1, rc) \<Rightarrow>
      if rc \<noteq> 0 then (b1, cc3501e_gatt_reg_map_rc E rc)
      else case ble_call (ble_gatts_add_svcs E Demo_Svc) b1 of (b2, rc) \<Rightarrow>
      if rc \<noteq> 0 then (b2, cc3501e_gatt_reg_map_rc E rc)
      else case ble_call (ble_gatts_count_cfg E dyn) b2 of (b3, rc) \<Rightarrow>
      if rc \<noteq> 0 then (b3, cc3501e_gatt_reg_map_rc E rc)
      else case ble_call (ble_gatts_add_svcs E dyn) b3 of (b4, rc) \<Rightarrow>
      if rc \<noteq> 0 then (b4, cc3501e_gatt_reg_map_rc E rc)
      else case ble_call (ble_gatts_start E) b4 of (b5, rc, demo, hs) \<Rightarrow>
        let b6 = b5\<lparr>s_chr_val_handle := demo, s_dyn_chrs := set_handles hs (s_dyn_chrs b5)\<rparr>
        in if rc \<noteq> 0 then (b6, cc3501e_gatt_reg_map_rc E rc) else (b6, 0))"

definition cc3501e_nimble_gatt_register :: "'b ble_env \<Rightarrow> byte list \<Rightarrow> nat \<Rightarrow> 'b ti_ble \<Rightarrow> 'b ti_ble \<times> int \<times> u16 list" where
  "cc3501e_nimble_gatt_register E desc handles_cap b =
     (if \<not> ble_enabled E b then (b, -1, [])
      else if s_dyn_svc_registered b then (b, CC3501E_HW_ERR_STATE, [])
      else if length desc < 18 then (b, -1, [])
      else let num_chars = unat (desc ! 17)
           in if num_chars = 0 \<or> num_chars > CC3501E_GATT_DYN_MAX_CHARS then (b, -1, [])
              else let b1 = b\<lparr>s_dyn_svc_uuid := take 16 (drop 1 desc)\<rparr>
                   in case gatt_parse_chars num_chars 0 desc 18 (s_dyn_chrs b1) of (cs, ok) \<Rightarrow>
                      let b2 = b1\<lparr>s_dyn_chrs := cs\<rparr>
                      in if \<not> ok then (b2, -1, [])
                         else let dyn = Dyn_Svc (s_dyn_svc_uuid b2) (map (\<lambda>c. (chr_uuid c, chr_flags c)) (take num_chars cs))
                              in case gatt_restart E dyn b2 of (b3, rc) \<Rightarrow>
                                 if rc \<noteq> 0 then (b3, rc, [])
                                 else (b3\<lparr>s_dyn_svc_registered := True\<rparr>, 0,
                                       map chr_handle (take (min handles_cap num_chars) (s_dyn_chrs b3))))"

definition cc3501e_nimble_gatt_notify :: "'b ble_env \<Rightarrow> u16 \<Rightarrow> byte list \<Rightarrow> 'b ti_ble \<Rightarrow> 'b ti_ble \<times> int" where
  "cc3501e_nimble_gatt_notify E handle dat b =
     (if \<not> ble_enabled E b then (b, -1)
      else if s_conn_handle b = BLE_HS_CONN_HANDLE_NONE E then (b, -1)
      else let att = (if handle \<noteq> 0 then handle else s_chr_val_handle b)
           in case ble_call (ble_hs_mbuf_from_flat E dat) b of (b1, ok) \<Rightarrow>
              if \<not> ok then (b1, -1) else ble_call (ble_gatts_notify_custom E (s_conn_handle b1) att dat) b1)"

end
