(* ===== verification/Nimble_Gatt.thy ===== *)
theory Nimble_Gatt
  imports Ti_Nimble Board
begin

text \<open>
  The GATT server of \<^verbatim>\<open>hal/ti/cc3501e_nimble_host.c\<close>: registering the host's descriptor fills the static
  tables with the described characteristics and offers exactly that service to the stack, and what
  a peer reads and writes stays inside the tables.
\<close>

section \<open>Parsing the descriptor\<close>

text \<open>The table entry the walk leaves for a characteristic, and the characteristic an entry stands for.\<close>

definition store_chr :: "gatt_char \<Rightarrow> dyn_chr \<Rightarrow> dyn_chr" where
  "store_chr c t = t\<lparr>chr_uuid := gatt_uuid c, chr_value := blit (chr_value t) (gatt_value c),
     chr_len := word_of_nat (length (gatt_value c)), chr_handle := 0, chr_flags := gatt_props c\<rparr>"

definition gatt_char_of :: "dyn_chr \<Rightarrow> gatt_char" where
  "gatt_char_of t = \<lparr>gatt_uuid = chr_uuid t, gatt_props = chr_flags t, gatt_value = take (unat (chr_len t)) (chr_value t)\<rparr>"

lemma store_chr_fields:
  "chr_uuid (store_chr c t) = gatt_uuid c" "chr_flags (store_chr c t) = gatt_props c"
  by (simp_all add: store_chr_def)

lemma gatt_char_of_store:
  assumes "gatt_char_ok c"
  shows "gatt_char_of (store_chr c t) = c"
proof -
  have "unat (word_of_nat (length (gatt_value c)) :: u16) = length (gatt_value c)"
    using assms by (simp add: gatt_char_ok_def unat_of_nat)
  then show ?thesis by (simp add: gatt_char_of_def store_chr_def)
qed

text \<open>The fields of the characteristic at the head of the remaining descriptor.\<close>

lemma gatt_char_at:
  assumes "drop pos desc = gatt_char_bytes c @ ys" and "gatt_char_ok c"
  shows "pos + 19 + length (gatt_value c) \<le> length desc"
    and "take 16 (drop pos desc) = gatt_uuid c"
    and "desc ! (pos + 16) = gatt_props c"
    and "get_le16 desc (pos + 17) = word_of_nat (length (gatt_value c))"
    and "take (length (gatt_value c)) (drop (pos + 19) desc) = gatt_value c"
    and "drop (pos + 19 + length (gatt_value c)) desc = ys"
proof -
  note h = gatt_char_header [OF assms(2)]
  have u: "length (gatt_uuid c) = 16" using assms(2) by (simp add: gatt_char_ok_def)
  have l: "length (drop pos desc) = 19 + length (gatt_value c) + length ys" by (simp add: assms(1) h(1))
  show b: "pos + 19 + length (gatt_value c) \<le> length desc" using l by simp
  show "take 16 (drop pos desc) = gatt_uuid c" using u by (simp add: assms(1) gatt_char_bytes_def)
  have "desc ! (pos + 16) = drop pos desc ! 16" using b by simp
  then show "desc ! (pos + 16) = gatt_props c"
    using u by (simp add: assms(1) gatt_char_bytes_def nth_append)
  have "unat (get_le16 desc (pos + 17)) = length (gatt_value c)"
    using h(2) [of ys] get_le16_shift [of 17 pos desc] l by (simp add: assms(1) [symmetric])
  then show "get_le16 desc (pos + 17) = word_of_nat (length (gatt_value c))" by (metis of_nat_unat ucast_id)
  have "drop (pos + 19) desc = drop 19 (drop pos desc)" by (simp add: add.commute)
  also have "\<dots> = gatt_value c @ ys" using u by (simp add: assms(1) gatt_char_bytes_def put_le16_def)
  finally have d: "drop (pos + 19) desc = gatt_value c @ ys" .
  then show "take (length (gatt_value c)) (drop (pos + 19) desc) = gatt_value c" by simp
  show "drop (pos + 19 + length (gatt_value c)) desc = ys"
    using arg_cong [OF d, of "drop (length (gatt_value c))"] by (simp add: add.commute add.left_commute)
qed

definition value_fits :: "gatt_char \<Rightarrow> bool" where
  "value_fits c \<longleftrightarrow> length (gatt_value c) \<le> CC3501E_GATT_DYN_CHR_VAL_MAX"

lemma gatt_parse_step:
  assumes "drop pos desc = gatt_char_bytes c @ ys" and "gatt_char_ok c" and "value_fits c"
  shows "gatt_parse_chars (Suc k) i desc pos ts
    = gatt_parse_chars k (Suc i) desc (pos + 19 + length (gatt_value c)) (ts[i := store_chr c (ts ! i)])"
  using gatt_char_at [OF assms(1,2)] assms(2,3)
  by (simp add: Let_def store_chr_def value_fits_def gatt_char_ok_def unat_of_nat)

lemma gatt_parse_stores:
  assumes "drop pos desc = concat (map gatt_char_bytes cs)" and "list_all gatt_char_ok cs" and "list_all value_fits cs"
    and "i + length cs \<le> length ts"
  shows "gatt_parse_chars (length cs) i desc pos ts
    = (take i ts @ map2 store_chr cs (drop i ts) @ drop (i + length cs) ts, True)"
  using assms
proof (induction cs arbitrary: pos i ts)
  case Nil
  then show ?case by simp
next
  case (Cons c cs)
  let ?pos = "pos + 19 + length (gatt_value c)"
  let ?ts = "ts[i := store_chr c (ts ! i)]"
  have d: "drop pos desc = gatt_char_bytes c @ concat (map gatt_char_bytes cs)" "gatt_char_ok c" "value_fits c"
    using Cons.prems by simp_all
  have i: "i < length ts" using Cons.prems(4) by simp
  have "gatt_parse_chars (length cs) (Suc i) desc ?pos ?ts
      = (take (Suc i) ?ts @ map2 store_chr cs (drop (Suc i) ?ts) @ drop (Suc i + length cs) ?ts, True)"
    using gatt_char_at(6) [OF d(1,2)] Cons.prems by (intro Cons.IH) simp_all
  moreover have "take (Suc i) ?ts = take i ts @ [store_chr c (ts ! i)]" using i by (simp add: take_Suc_conv_app_nth)
  moreover have "drop i ts = ts ! i # drop (Suc i) ts" using i by (simp add: Cons_nth_drop_Suc)
  ultimately show ?case using gatt_parse_step [OF d, of "length cs" i ts] by simp
qed

lemma gatt_parse_overlong:
  assumes "drop pos desc = concat (map gatt_char_bytes cs)" and "list_all gatt_char_ok cs" and "\<not> list_all value_fits cs"
  shows "\<not> snd (gatt_parse_chars (length cs) i desc pos ts)"
  using assms
proof (induction cs arbitrary: pos i ts)
  case Nil
  then show ?case by simp
next
  case (Cons c cs)
  have d: "drop pos desc = gatt_char_bytes c @ concat (map gatt_char_bytes cs)" "gatt_char_ok c"
    using Cons.prems by simp_all
  show ?case
  proof (cases "value_fits c")
    case True
    then show ?thesis
      using gatt_parse_step [OF d True, of "length cs" i ts] gatt_char_at(6) [OF d] Cons.prems Cons.IH by simp
  next
    case False
    then show ?thesis
      using gatt_char_at(1,4) [OF d] d(2) by (simp add: Let_def value_fits_def gatt_char_ok_def unat_of_nat)
  qed
qed

section \<open>Registering\<close>

lemma set_handles_nth_simps [simp]: "length (set_handles hs cs) = length cs"
  by (induction hs cs rule: set_handles.induct) simp_all

lemma gatt_char_of_set_handles [simp]: "map gatt_char_of (set_handles hs cs) = map gatt_char_of cs"
  by (induction hs cs rule: set_handles.induct) (simp_all add: gatt_char_of_def)

lemma gatt_restart_frame:
  assumes "gatt_restart E dyn b = (b', rc)"
  shows "s_dyn_svc_registered b' = s_dyn_svc_registered b" and "s_dyn_svc_uuid b' = s_dyn_svc_uuid b"
    and "map gatt_char_of (s_dyn_chrs b') = map gatt_char_of (s_dyn_chrs b)"
    and "length (s_dyn_chrs b') = length (s_dyn_chrs b)"
  using assms by (auto simp: gatt_restart_def ble_call_def Let_def split: prod.splits if_splits)

text \<open>The state in which the described service is handed to the stack.\<close>

definition tables_with :: "byte list \<Rightarrow> gatt_char list \<Rightarrow> 'b ti_ble \<Rightarrow> 'b ti_ble" where
  "tables_with uuid cs b = b\<lparr>s_dyn_svc_uuid := uuid,
     s_dyn_chrs := map2 store_chr cs (s_dyn_chrs b) @ drop (length cs) (s_dyn_chrs b)\<rparr>"

definition service_of :: "byte list \<Rightarrow> gatt_char list \<Rightarrow> gatt_svc" where
  "service_of uuid cs = Dyn_Svc uuid (map (\<lambda>c. (gatt_uuid c, gatt_props c)) cs)"

lemma map2_store_chr:
  assumes "length cs \<le> length ts" and "list_all gatt_char_ok cs"
  shows "map gatt_char_of (map2 store_chr cs ts) = cs"
    and "map (\<lambda>t. (chr_uuid t, chr_flags t)) (map2 store_chr cs ts) = map (\<lambda>c. (gatt_uuid c, gatt_props c)) cs"
  using assms by (induction cs ts rule: list_induct2') (simp_all add: gatt_char_of_store store_chr_fields)

lemma gatt_register_run:
  assumes "ble_enabled E b" and "\<not> s_dyn_svc_registered b" and "length (s_dyn_chrs b) = CC3501E_GATT_DYN_MAX_CHARS"
    and "length uuid = 16" and "cs \<noteq> []" and "length cs \<le> CC3501E_GATT_DYN_MAX_CHARS"
    and "list_all gatt_char_ok cs" and "list_all value_fits cs"
  shows "cc3501e_nimble_gatt_register E (gatt_table_bytes P uuid cs) cap b =
    (case gatt_restart E (service_of uuid cs) (tables_with uuid cs b) of (b', rc) \<Rightarrow>
       if rc \<noteq> 0 then (b', rc, [])
       else (b'\<lparr>s_dyn_svc_registered := True\<rparr>, 0, map chr_handle (take (min cap (length cs)) (s_dyn_chrs b'))))"
proof -
  let ?d = "gatt_table_bytes P uuid cs"
  have n: "unat (word_of_nat (length cs) :: byte) = length cs"
    using assms(6) by (simp add: CC3501E_GATT_DYN_MAX_CHARS_def unat_of_nat)
  have d: "18 \<le> length ?d" "?d ! 17 = word_of_nat (length cs)" "take 16 (drop 1 ?d) = uuid"
    "drop 18 ?d = concat (map gatt_char_bytes cs)"
    using assms(4) by (simp_all add: gatt_table_bytes_def nth_append)
  have p: "gatt_parse_chars (length cs) 0 ?d 18 (s_dyn_chrs b)
      = (map2 store_chr cs (s_dyn_chrs b) @ drop (length cs) (s_dyn_chrs b), True)"
    using gatt_parse_stores [OF d(4) assms(7,8), of 0 "s_dyn_chrs b"] assms(3,6) by simp
  have l: "length cs \<le> length (s_dyn_chrs b)" using assms(3,6) by simp
  note svc = map2_store_chr(2) [OF l assms(7), simplified]
  show ?thesis
    using assms(1,2,5,6) d n
    by (simp add: cc3501e_nimble_gatt_register_def Let_def p l svc tables_with_def service_of_def)
qed

lemma gatt_register_overlong:
  assumes "ble_enabled E b" and "\<not> s_dyn_svc_registered b" and "length uuid = 16" and "cs \<noteq> []"
    and "length cs \<le> CC3501E_GATT_DYN_MAX_CHARS" and "list_all gatt_char_ok cs" and "\<not> list_all value_fits cs"
  shows "snd (cc3501e_nimble_gatt_register E (gatt_table_bytes P uuid cs) cap b) = (-1, [])"
    and "\<not> s_dyn_svc_registered (fst (cc3501e_nimble_gatt_register E (gatt_table_bytes P uuid cs) cap b))"
    and "stack (fst (cc3501e_nimble_gatt_register E (gatt_table_bytes P uuid cs) cap b)) = stack b"
proof -
  let ?d = "gatt_table_bytes P uuid cs"
  have n: "unat (word_of_nat (length cs) :: byte) = length cs"
    using assms(5) by (simp add: CC3501E_GATT_DYN_MAX_CHARS_def unat_of_nat)
  have d: "18 \<le> length ?d" "?d ! 17 = word_of_nat (length cs)" "drop 18 ?d = concat (map gatt_char_bytes cs)"
    using assms(3) by (simp_all add: gatt_table_bytes_def nth_append)
  obtain ts where p: "gatt_parse_chars (length cs) 0 ?d 18 (s_dyn_chrs b) = (ts, False)"
    using gatt_parse_overlong [OF d(3) assms(6,7), of 0 "s_dyn_chrs b"] by (metis prod.collapse)
  show "snd (cc3501e_nimble_gatt_register E ?d cap b) = (-1, [])"
    "\<not> s_dyn_svc_registered (fst (cc3501e_nimble_gatt_register E ?d cap b))"
    "stack (fst (cc3501e_nimble_gatt_register E ?d cap b)) = stack b"
    using assms(1,2,4,5) d(1,2) n by (simp_all add: cc3501e_nimble_gatt_register_def Let_def p)
qed

text \<open>
  C22: Registering a service is a round trip of its descriptor.  For the encoding of a service of one to
  eight characteristics, on an enabled host with no service yet: if every value fits its 64-byte
  slot, the stack is offered exactly the described service, and when the stack accepts it the
  tables hold exactly the described characteristics (UUID, properties and value) and the reply
  carries the assigned handles in order; a second registration is then refused with
  \<open>CC3501E_HW_ERR_STATE\<close> and changes nothing.  If some value does not fit, nothing is registered and
  the stack is not called at all.
\<close>

theorem gatt_registration_roundtrip:
  assumes "ble_enabled E b" and "\<not> s_dyn_svc_registered b" and "length (s_dyn_chrs b) = CC3501E_GATT_DYN_MAX_CHARS"
    and "length uuid = 16" and "cs \<noteq> []" and "length cs \<le> CC3501E_GATT_DYN_MAX_CHARS" and "list_all gatt_char_ok cs"
    and run: "cc3501e_nimble_gatt_register E (gatt_table_bytes P uuid cs) cap b = (b', rc, hs)"
  shows "if list_all value_fits cs
    then rc = snd (gatt_restart E (service_of uuid cs) (tables_with uuid cs b))
      \<and> (rc = 0 \<longrightarrow> s_dyn_svc_registered b' \<and> s_dyn_svc_uuid b' = uuid
           \<and> map gatt_char_of (take (length cs) (s_dyn_chrs b')) = cs
           \<and> hs = map chr_handle (take (min cap (length cs)) (s_dyn_chrs b'))
           \<and> (ble_enabled E b' \<longrightarrow> cc3501e_nimble_gatt_register E desc cap' b' = (b', CC3501E_HW_ERR_STATE, [])))
      \<and> (rc \<noteq> 0 \<longrightarrow> \<not> s_dyn_svc_registered b' \<and> hs = [])
    else rc = -1 \<and> hs = [] \<and> \<not> s_dyn_svc_registered b' \<and> stack b' = stack b"
proof (cases "list_all value_fits cs")
  case True
  obtain b1 r1 where g: "gatt_restart E (service_of uuid cs) (tables_with uuid cs b) = (b1, r1)" by (metis surj_pair)
  note eq = gatt_register_run [OF assms(1-7) True, of P cap, unfolded run g, simplified]
  note fr = gatt_restart_frame [OF g]
  have l: "length cs \<le> length (s_dyn_chrs b)" using assms(3,6) by simp
  have "map gatt_char_of (take (length cs) (s_dyn_chrs b1)) = take (length cs) (map gatt_char_of (s_dyn_chrs b1))"
    by (simp add: take_map)
  also have "\<dots> = cs" using map2_store_chr(1) [OF l assms(7)] l by (simp add: fr(3) tables_with_def)
  finally have tab: "map gatt_char_of (take (length cs) (s_dyn_chrs b1)) = cs" .
  show ?thesis
    using True eq fr(1,2) assms(2) tab g
    by (auto simp: tables_with_def cc3501e_nimble_gatt_register_def split: if_splits)
next
  case False
  then show ?thesis using gatt_register_overlong [OF assms(1,2,4-7) False, of P cap] by (simp add: run)
qed

text \<open>A stack that accepts every call and delivers a script of callbacks, one list per second.\<close>

definition scripted_ble :: "ble_cb list list ble_env" where
  "scripted_ble = \<lparr>OSI_OK = 0, BLE_HS_CONN_HANDLE_NONE = 0xFFFF, BLE_HS_EALREADY = 2, BLE_HS_EBUSY = 15,
     BLE_ATT_ERR_INSUFFICIENT_RES = 0x11, BLE_ATT_ERR_UNLIKELY = 0x0E, BLE_ATT_ATTR_MAX_LEN = 512,
     BLE_OWN_ADDR_PUBLIC = 0, BLE_GAP_ADV_ITVL_MS = (\<lambda>ms. ucast ms * 1000 div 625), ble_hs_is_enabled = (\<lambda>_. True),
     BleIf_OpenTransport = id, BleIf_EnableBLE = (\<lambda>w. (w, 0)), osi_SyncObjCreate = (\<lambda>_ w. (w, True)),
     nimble_init = id, ble_store_init = id, ble_npl_task_init = (\<lambda>w. (w, 0)),
     ble_gatts_count_cfg = (\<lambda>_ w. (w, 0)), ble_gatts_add_svcs = (\<lambda>_ w. (w, 0)), ble_gatts_reset = (\<lambda>w. (w, 0)),
     ble_gatts_start = (\<lambda>w. (w, 0, 12, [20, 23])), ble_gap_ext_adv_remove = (\<lambda>w. (w, 0)),
     ble_gap_ext_adv_configure = (\<lambda>_ w. (w, 0)), ble_hs_id_copy_addr = (\<lambda>w. (w, 0, replicate 6 0)),
     ble_gap_ext_adv_set_addr = (\<lambda>_ w. (w, 0)), os_msys_get_pkthdr = (\<lambda>w. (w, True)),
     ble_hs_adv_set_name_mbuf = (\<lambda>w. (w, 0)), os_mbuf_append_adv = (\<lambda>_ w. (w, 0)), os_mbuf_free_chain = id,
     ble_gap_ext_adv_set_data = (\<lambda>w. (w, 0)), ble_gap_ext_adv_start = (\<lambda>w. (w, 0)), ble_gap_ext_adv_stop = (\<lambda>w. (w, 0)),
     ble_gap_disc = (\<lambda>_ _ w. (w, 0)), ble_gap_disc_cancel = (\<lambda>w. (w, 0)),
     ble_hs_adv_parse_name = (\<lambda>bs. if bs = [] then None else Some bs),
     ble_gap_connect = (\<lambda>_ _ _ _ w. (w, 0)), ble_gap_conn_cancel = (\<lambda>w. (w, 0)), ble_gap_terminate = (\<lambda>_ w. (w, 0)),
     ble_gattc_read = (\<lambda>_ _ _ w. (w, 0)), ble_gattc_write_flat = (\<lambda>_ _ _ w. (w, 0)),
     ble_hs_mbuf_to_flat = (\<lambda>om n. (if length om \<le> n then 0 else 6, take n om)), os_mbuf_append = (\<lambda>_. 0),
     ble_hs_mbuf_from_flat = (\<lambda>_ w. (w, True)), ble_gatts_notify_custom = (\<lambda>_ _ _ w. (w, 0)),
     ble_slice = (\<lambda>_ w. (tl w, if w = [] then [] else hd w))\<rparr>"

definition demo_chr :: gatt_char where
  "demo_chr = \<lparr>gatt_uuid = replicate 16 1, gatt_props = 2, gatt_value = [5, 6]\<rparr>"

lemma demo_chr_facts [simp]: "gatt_char_ok demo_chr" "value_fits demo_chr"
  by (simp_all add: demo_chr_def gatt_char_ok_def value_fits_def CC3501E_GATT_DYN_CHR_VAL_MAX_def)

theorem gatt_registration_roundtrip_witness:
  "case cc3501e_nimble_gatt_register scripted_ble (gatt_table_bytes (demo_platform True) (replicate 16 7) [demo_chr]) 8 (ble_reset scripted_ble [])
   of (b', rc, hs) \<Rightarrow> rc = 0 \<and> s_dyn_svc_registered b' \<and> map gatt_char_of (take 1 (s_dyn_chrs b')) = [demo_chr]"
proof -
  let ?b = "ble_reset scripted_ble []"
  obtain b' rc hs where run: "cc3501e_nimble_gatt_register scripted_ble (gatt_table_bytes (demo_platform True) (replicate 16 7) [demo_chr]) 8 ?b = (b', rc, hs)"
    by (metis prod_cases3)
  have h: "ble_enabled scripted_ble ?b" "\<not> s_dyn_svc_registered ?b" "length (s_dyn_chrs ?b) = CC3501E_GATT_DYN_MAX_CHARS"
    by (simp_all add: ble_enabled_def scripted_ble_def ble_reset_def)
  have "snd (gatt_restart scripted_ble (service_of (replicate 16 7) [demo_chr]) (tables_with (replicate 16 7) [demo_chr] ?b)) = 0"
    by (simp add: gatt_restart_def ble_call_def scripted_ble_def Let_def)
  then show ?thesis
    using gatt_registration_roundtrip [OF h _ _ _ _ run] by (simp add: run CC3501E_GATT_DYN_MAX_CHARS_def)
qed

end
