(* ===== verification/Nimble_Client.thy ===== *)
theory Nimble_Client
  imports Nimble_Gatt
begin

text \<open>
  What the NimBLE glue keeps over every operation and every callback: the static tables stay within
  their bounds, the scan cache is the list of the advertisers heard, and a characteristic read
  returns what its own request brought.
\<close>

section \<open>The tables stay within bounds\<close>

definition dyn_chr_ok :: "dyn_chr \<Rightarrow> bool" where
  "dyn_chr_ok t \<longleftrightarrow> length (chr_value t) = CC3501E_GATT_DYN_CHR_VAL_MAX \<and> unat (chr_len t) \<le> CC3501E_GATT_DYN_CHR_VAL_MAX"

definition scan_cache_ok :: "scan_rec list \<Rightarrow> bool" where
  "scan_cache_ok cache \<longleftrightarrow> length cache \<le> CC3501E_BLE_SCAN_CACHE_MAX \<and> distinct (map sr_addr cache)
     \<and> list_all (\<lambda>r. length (sr_name r) \<le> SCAN_NAME_MAX) cache"

definition ble_ok :: "'b ble_env \<Rightarrow> 'b ti_ble \<Rightarrow> bool" where
  "ble_ok E b \<longleftrightarrow> length (s_dyn_chrs b) = CC3501E_GATT_DYN_MAX_CHARS \<and> list_all dyn_chr_ok (s_dyn_chrs b)
     \<and> scan_cache_ok (s_scan_cache b)
     \<and> length (s_gattc_read_bounce b) = BLE_ATT_ATTR_MAX_LEN E \<and> unat (s_gattc_read_len b) \<le> BLE_ATT_ATTR_MAX_LEN E"

text \<open>
  What the glue relies on: flattening a packet stores at most the given number of bytes, and the
  attribute ceiling is a 16-bit length.
\<close>

definition flat_bounded :: "'b ble_env \<Rightarrow> bool" where
  "flat_bounded E \<longleftrightarrow> (\<forall>om n. length (snd (ble_hs_mbuf_to_flat E om n)) \<le> n) \<and> BLE_ATT_ATTR_MAX_LEN E < 2 ^ 16"

lemma flat_boundedD:
  assumes "flat_bounded E" and "ble_hs_mbuf_to_flat E om n = (rc, bs)"
  shows "length bs \<le> n"
  using assms by (metis flat_bounded_def snd_conv)

lemma unat_word_of_nat_le: "unat (word_of_nat n :: 'a::len word) \<le> n"
  by (simp add: unsigned_of_nat take_bit_nat_eq_self take_bit_eq_mod)

text \<open>The updates of the other fields are invisible to the invariant.\<close>

lemma ble_ok_frame [simp]:
  "ble_ok E (b\<lparr>stack := x1\<rparr>) = ble_ok E b" "ble_ok E (b\<lparr>signalled := x2\<rparr>) = ble_ok E b"
  "ble_ok E (b\<lparr>s_conn_handle := x3\<rparr>) = ble_ok E b" "ble_ok E (b\<lparr>s_conn_status := x4\<rparr>) = ble_ok E b"
  "ble_ok E (b\<lparr>s_gattc_op_status := x5\<rparr>) = ble_ok E b" "ble_ok E (b\<lparr>s_gattc_read_pending := x6\<rparr>) = ble_ok E b"
  "ble_ok E (b\<lparr>s_gattc_read_gen := x7\<rparr>) = ble_ok E b" "ble_ok E (b\<lparr>s_chr_val_handle := x8\<rparr>) = ble_ok E b"
  "ble_ok E (b\<lparr>s_chr_value := x9\<rparr>) = ble_ok E b" "ble_ok E (b\<lparr>s_dyn_svc_registered := x10\<rparr>) = ble_ok E b"
  "ble_ok E (b\<lparr>s_dyn_svc_uuid := x11\<rparr>) = ble_ok E b" "ble_ok E (b\<lparr>s_syncs_ready := x12\<rparr>) = ble_ok E b"
  "ble_ok E (b\<lparr>s_own_addr_type := x13\<rparr>) = ble_ok E b"
  by (simp_all add: ble_ok_def)

lemma ble_ok_effects [simp]:
  "ble_ok E (osi_SyncObjSignal s b) = ble_ok E b" "ble_ok E (osi_SyncObjClear s b) = ble_ok E b"
  "ble_ok E (ble_do f b) = ble_ok E b" "ble_ok E (fst (ble_call g b)) = ble_ok E b"
  by (simp_all add: osi_SyncObjSignal_def osi_SyncObjClear_def ble_do_def ble_call_def split: prod.splits)

lemma ble_ok_call: "ble_call f b = (b', x) \<Longrightarrow> ble_ok E b' = ble_ok E b"
  by (metis ble_ok_effects(4) fst_conv)

subsection \<open>Callbacks\<close>

lemma scan_update_addr [simp]: "sr_addr (scan_update E d r) = sr_addr r"
  by (simp add: scan_update_def Let_def split: option.splits)

lemma scan_update_name: "length (sr_name r) \<le> SCAN_NAME_MAX \<Longrightarrow> length (sr_name (scan_update E d r)) \<le> SCAN_NAME_MAX"
  by (simp add: scan_update_def Let_def split: option.splits)

lemma scan_find_Some:
  "cc3501e_scan_cache_find a rs = Some i \<Longrightarrow> i < length rs \<and> sr_addr (rs ! i) = a"
  by (induction rs arbitrary: i) (auto split: if_splits)

lemma scan_find_None: "cc3501e_scan_cache_find a rs = None \<longleftrightarrow> a \<notin> set (map sr_addr rs)"
  by (induction rs) auto

lemma scan_report_ok:
  assumes "scan_cache_ok cache"
  shows "scan_cache_ok (scan_report E d cache)"
proof (cases "cc3501e_scan_cache_find (disc_addr d) cache")
  case None
  then have "disc_addr d \<notin> set (map sr_addr cache)" by (simp add: scan_find_None)
  then show ?thesis
    using assms scan_update_name [of "\<lparr>sr_addr = disc_addr d, sr_addr_type = disc_addr_type d, sr_rssi = 0, sr_name = []\<rparr>" E d]
    by (simp add: scan_report_def None scan_cache_ok_def)
next
  case (Some i)
  note i = scan_find_Some [OF Some]
  have "map sr_addr (cache[i := scan_update E d (cache ! i)]) = map sr_addr cache"
    by (simp add: map_update) (metis i list_update_id map_update nth_map)
  moreover have "length (sr_name (cache ! i)) \<le> SCAN_NAME_MAX"
    using assms i by (simp add: scan_cache_ok_def list_all_length)
  ultimately show ?thesis
    using assms i scan_update_name [of "cache ! i" E d]
    by (auto simp: scan_report_def Some scan_cache_ok_def list_all_length nth_list_update)
qed

lemma list_all_update: "list_all P xs \<Longrightarrow> (i < length xs \<Longrightarrow> P x) \<Longrightarrow> list_all P (xs[i := x])"
  by (cases "i < length xs") (auto simp: list_all_length nth_list_update)

lemma dyn_access_ok:
  assumes "flat_bounded E" and "ble_ok E b"
  shows "ble_ok E (fst (cc3501e_gatt_dyn_chr_access E i op b))"
proof (cases op)
  case (ACCESS_WRITE_CHR om)
  obtain rc bs where f: "ble_hs_mbuf_to_flat E om CC3501E_GATT_DYN_CHR_VAL_MAX = (rc, bs)" by (metis surj_pair)
  note l = flat_boundedD [OF assms(1) f]
  have u: "unat (word_of_nat (length bs) :: u16) \<le> CC3501E_GATT_DYN_CHR_VAL_MAX"
    using l unat_word_of_nat_le order_trans by blast
  have "dyn_chr_ok (s_dyn_chrs b ! i)" if "i < length (s_dyn_chrs b)"
    using assms(2) that by (simp add: ble_ok_def list_all_length)
  then show ?thesis
    using assms(2) l u
    by (auto simp: cc3501e_gatt_dyn_chr_access_def ACCESS_WRITE_CHR f Let_def ble_ok_def dyn_chr_ok_def intro!: list_all_update)
qed (use assms(2) in \<open>simp_all add: cc3501e_gatt_dyn_chr_access_def Let_def\<close>)

lemma gattc_read_cb_ok:
  assumes "flat_bounded E" and "ble_ok E b"
  shows "ble_ok E (cc3501e_gattc_read_cb E gen status attr b)"
proof -
  have "length bs \<le> BLE_ATT_ATTR_MAX_LEN E \<and> unat (word_of_nat (length bs) :: u16) \<le> BLE_ATT_ATTR_MAX_LEN E"
    if "ble_hs_mbuf_to_flat E om (BLE_ATT_ATTR_MAX_LEN E) = (rc, bs)" for om rc bs
    using flat_boundedD [OF assms(1) that] unat_word_of_nat_le order_trans by blast
  then show ?thesis
    using assms(2)
    by (auto simp: cc3501e_gattc_read_cb_def Let_def ble_ok_def osi_SyncObjSignal_def split: option.splits prod.splits)
qed

lemma ble_callback_ok:
  assumes "flat_bounded E" and "ble_ok E b"
  shows "ble_ok E (ble_callback E c b)"
proof (cases c)
  case (Gap_Adv ev)
  then show ?thesis using assms by (cases ev) (simp_all add: ble_callback_def cc3501e_gap_event_cb_def Let_def)
next
  case (Gap_Scan ev)
  then show ?thesis
    using assms scan_report_ok [of "s_scan_cache b" E]
    by (cases ev) (simp_all add: ble_callback_def cc3501e_scan_gap_event_cb_def, simp add: ble_ok_def)
next
  case (Gap_Conn ev)
  then show ?thesis using assms by (cases ev) (simp_all add: ble_callback_def cc3501e_conn_gap_event_cb_def)
next
  case (Chr_Access op)
  then show ?thesis
    using assms by (cases op) (simp_all add: ble_callback_def cc3501e_gatt_chr_access_def split: prod.splits)
qed (use assms dyn_access_ok gattc_read_cb_ok in
  \<open>simp_all add: ble_callback_def cc3501e_ble_sync_cb_def cc3501e_gattc_write_cb_def\<close>)

lemma ble_callbacks_ok: "flat_bounded E \<Longrightarrow> ble_ok E b \<Longrightarrow> ble_ok E (fold (ble_callback E) cs b)"
  by (induction cs arbitrary: b) (simp_all add: ble_callback_ok)

subsection \<open>Operations\<close>

lemma wait_second_ok:
  "flat_bounded E \<Longrightarrow> ble_ok E b \<Longrightarrow> ble_ok E (fst (osi_SyncObjWait_second E s b))"
  by (auto simp: osi_SyncObjWait_second_def Let_def ble_callbacks_ok ble_ok_call split: prod.splits)

lemma wait_signaled_ok:
  assumes "flat_bounded E" and "ble_ok E b"
  shows "ble_ok E (fst (cc3501e_wait_signaled E s k b))"
  using assms(2)
proof (induction k arbitrary: b)
  case (Suc k)
  show ?case using Suc.IH wait_second_ok [OF assms(1) Suc.prems, of s] by (auto split: prod.splits)
qed simp

lemma create_syncs_ok: "ble_ok E (fst (create_syncs E ss b)) = ble_ok E b"
  by (induction ss arbitrary: b) (auto simp: ble_ok_call split: prod.splits)

lemma ensure_syncs_ok: "cc3501e_ensure_syncs E b = (b', ok) \<Longrightarrow> ble_ok E b' = ble_ok E b"
  using create_syncs_ok [of E "[S_CONN, S_DISC, S_GATTC, S_SCAN, S_INIT]" b]
  by (auto simp: cc3501e_ensure_syncs_def split: prod.splits if_splits)

lemma enable_attempts_ok: "ble_ok E (fst (enable_attempts E k b)) = ble_ok E b"
  by (induction k arbitrary: b) (auto simp: ble_ok_call split: prod.splits)

lemma wait_okD:
  assumes "flat_bounded E"
  shows "cc3501e_wait_signaled E s k b = (b', ok) \<Longrightarrow> ble_ok E b \<Longrightarrow> ble_ok E b'"
    and "osi_SyncObjWait_second E s b = (b', ok) \<Longrightarrow> ble_ok E b \<Longrightarrow> ble_ok E b'"
  using wait_signaled_ok [OF assms, of b s k] wait_second_ok [OF assms, of b s] by simp_all

lemma gatt_svr_init_ok: "cc3501e_gatt_svr_init E b = (b', rc) \<Longrightarrow> ble_ok E b' = ble_ok E b"
  by (auto simp: cc3501e_gatt_svr_init_def ble_ok_call split: prod.splits if_splits)

lemma enable_attempts_okD: "enable_attempts E k b = (b', rc) \<Longrightarrow> ble_ok E b' = ble_ok E b"
  by (metis enable_attempts_ok fst_conv)

lemmas ble_ok_steps = ble_ok_call ensure_syncs_ok gatt_svr_init_ok enable_attempts_okD

lemma host_start_ok:
  assumes "flat_bounded E" and "ble_ok E b"
  shows "ble_ok E (fst (cc3501e_nimble_host_start E b))"
  using assms(2)
  by (auto simp: cc3501e_nimble_host_start_def dest!: ble_ok_steps dest: wait_okD(2) [OF assms(1)] split: prod.splits if_splits)

lemma adv_steps_ok:
  "adv_set_addr E b = (b', rc) \<Longrightarrow> ble_ok E b' = ble_ok E b"
  "adv_set_data E dat b = (b', rc) \<Longrightarrow> ble_ok E b' = ble_ok E b"
  by (auto simp: adv_set_addr_def adv_set_data_def dest!: ble_ok_call split: prod.splits if_splits)

lemma ble_ok_walk:
  "(\<And>b' x. m = (b', x) \<Longrightarrow> ble_ok E (fst (f b' x))) \<Longrightarrow> ble_ok E (fst (case m of (b', x) \<Rightarrow> f b' x))"
  "(c \<Longrightarrow> ble_ok E (fst y)) \<Longrightarrow> (\<not> c \<Longrightarrow> ble_ok E (fst z)) \<Longrightarrow> ble_ok E (fst (if c then y else z))"
  "(\<And>v. ble_ok E (fst (g v))) \<Longrightarrow> ble_ok E (fst (Let w g))"
  by (simp_all add: Let_def split: prod.splits)

lemma adv_start_ok:
  assumes "ble_ok E b"
  shows "ble_ok E (fst (cc3501e_nimble_adv_config_and_start E c lo hi dat b))"
  unfolding cc3501e_nimble_adv_config_and_start_def
  by (intro ble_ok_walk) (use assms in \<open>auto dest!: ble_ok_call adv_steps_ok\<close>)

lemma ble_ok_clear_cache: "ble_ok E b \<Longrightarrow> ble_ok E (b\<lparr>s_scan_cache := []\<rparr>)"
  by (simp add: ble_ok_def scan_cache_ok_def)

lemma scan_ok:
  assumes "flat_bounded E" and "ble_ok E b"
  shows "ble_ok E (fst (cc3501e_nimble_scan E cap ms b))"
  using ble_ok_clear_cache [OF assms(2)] assms(2)
  by (auto simp: cc3501e_nimble_scan_def Let_def wait_signaled_ok [OF assms(1)] dest!: ble_ok_steps split: prod.splits if_splits)

lemma connect_ok:
  assumes "flat_bounded E" and "ble_ok E b"
  shows "ble_ok E (fst (cc3501e_nimble_connect E ty addr b))"
  using assms(2)
  by (auto simp: cc3501e_nimble_connect_def dest!: ble_ok_steps dest: wait_okD [OF assms(1)] split: prod.splits if_splits)

lemma disconnect_ok:
  assumes "flat_bounded E" and "ble_ok E b"
  shows "ble_ok E (fst (cc3501e_nimble_disconnect E b))"
  using assms(2)
  by (auto simp: cc3501e_nimble_disconnect_def Let_def dest!: ble_ok_steps dest: wait_okD [OF assms(1)] split: prod.splits if_splits)

lemma ble_ok_read_len_0: "ble_ok E b \<Longrightarrow> ble_ok E (b\<lparr>s_gattc_read_len := 0\<rparr>)"
  by (simp add: ble_ok_def)

lemma gatt_write_ok:
  assumes "flat_bounded E" and "ble_ok E b"
  shows "ble_ok E (fst (cc3501e_nimble_gatt_write E h dat b))"
  using assms(2)
  by (auto simp: cc3501e_nimble_gatt_write_def Let_def dest!: ble_ok_steps dest: wait_okD [OF assms(1)] split: prod.splits if_splits)

lemma gatt_read_ok:
  assumes "flat_bounded E" and "ble_ok E b"
  shows "ble_ok E (fst (cc3501e_nimble_gatt_read E h cap b))"
proof -
  have frame: "ble_ok E (b1\<lparr>signalled := x, s_gattc_op_status := i, s_gattc_read_len := 0\<rparr>)"
    if "ble_ok E b1" for b1 x i using that by (simp add: ble_ok_def)
  show ?thesis
    unfolding cc3501e_nimble_gatt_read_def Let_def osi_SyncObjClear_def
    by (intro ble_ok_walk)
       (use assms(2) in \<open>auto dest!: ensure_syncs_ok ble_ok_call dest: wait_okD(1) [OF assms(1)] simp: frame\<close>)
qed

lemma gatt_parse_ok:
  "list_all dyn_chr_ok ts \<Longrightarrow> i + k \<le> length ts \<Longrightarrow> list_all dyn_chr_ok (fst (gatt_parse_chars k i desc pos ts))
     \<and> length (fst (gatt_parse_chars k i desc pos ts)) = length ts"
proof (induction k i desc pos ts rule: gatt_parse_chars.induct)
  case (2 k i desc pos ts)
  have t: "dyn_chr_ok (ts ! i)" using "2.prems" by (simp add: list_all_length)
  define c1 where "c1 = (ts ! i)\<lparr>chr_uuid := take 16 (drop pos desc)\<rparr>"
  define n where "n = get_le16 desc (pos + 17)"
  define c2 where "c2 = c1\<lparr>chr_value := blit (chr_value c1) (take (unat n) (drop (pos + 19) desc)), chr_len := n,
      chr_handle := 0, chr_flags := desc ! (pos + 16)\<rparr>"
  have c1: "list_all dyn_chr_ok (ts[i := c1])"
    using t by (intro list_all_update [OF "2.prems"(1)]) (simp add: c1_def dyn_chr_ok_def)
  show ?case
  proof (cases "pos + 19 > length desc \<or> unat n > CC3501E_GATT_DYN_CHR_VAL_MAX \<or> pos + 19 + unat n > length desc")
    case True
    then show ?thesis using c1 "2.prems" by (auto simp: Let_def c1_def n_def)
  next
    case False
    have "list_all dyn_chr_ok (ts[i := c2])"
      using t False by (intro list_all_update [OF "2.prems"(1)]) (auto simp: c2_def c1_def dyn_chr_ok_def blit_def)
    then have "list_all dyn_chr_ok (fst (gatt_parse_chars k (Suc i) desc (pos + 19 + unat n) (ts[i := c2])))
        \<and> length (fst (gatt_parse_chars k (Suc i) desc (pos + 19 + unat n) (ts[i := c2]))) = length ts"
      using "2.IH" [OF _ c1_def refl n_def refl] False "2.prems"(2) by (simp add: c2_def)
    then show ?thesis using False by (simp add: Let_def c1_def n_def c2_def)
  qed
qed simp

lemma set_handles_ok: "list_all dyn_chr_ok (set_handles hs cs) = list_all dyn_chr_ok cs"
  by (induction hs cs rule: set_handles.induct) (simp_all add: dyn_chr_ok_def)

lemma gatt_restart_ok: "gatt_restart E dyn b = (b', rc) \<Longrightarrow> ble_ok E b' = ble_ok E b"
proof -
  have h: "ble_ok E (b\<lparr>s_chr_val_handle := d, s_dyn_chrs := set_handles hs (s_dyn_chrs b)\<rparr>) = ble_ok E b" for b :: "'a ti_ble" and d hs
    by (simp add: ble_ok_def set_handles_ok)
  show "gatt_restart E dyn b = (b', rc) \<Longrightarrow> ble_ok E b' = ble_ok E b"
    by (auto simp: gatt_restart_def Let_def h dest!: ble_ok_call split: prod.splits if_splits)
qed

lemma gatt_register_ok:
  assumes "ble_ok E b"
  shows "ble_ok E (fst (cc3501e_nimble_gatt_register E desc cap b))"
proof -
  have p: "ble_ok E (b\<lparr>s_dyn_svc_uuid := u, s_dyn_chrs := ts\<rparr>)"
    if "gatt_parse_chars k 0 desc 18 (s_dyn_chrs b) = (ts, ok)" "k \<le> CC3501E_GATT_DYN_MAX_CHARS" for u ts ok k
    using gatt_parse_ok [of "s_dyn_chrs b" 0 k desc 18] assms that by (simp add: ble_ok_def)
  show ?thesis
    unfolding cc3501e_nimble_gatt_register_def Let_def
    by (intro ble_ok_walk) (use assms p in \<open>auto dest!: gatt_restart_ok\<close>)
qed

subsection \<open>Every run\<close>

datatype ble_op = Host_Start | Host_Disable | Adv_Start byte u16 u16 "byte list" | Adv_Stop | Scan nat u32 | Scan_Stop
  | Connect byte "byte list" | Disconnect | Read_Chr u16 nat | Write_Chr u16 "byte list" | Register "byte list" nat
  | Notify u16 "byte list"

definition ble_apply :: "'b ble_env \<Rightarrow> ble_op \<Rightarrow> 'b ti_ble \<Rightarrow> 'b ti_ble" where
  "ble_apply E op b =
     (case op of
        Host_Start \<Rightarrow> fst (cc3501e_nimble_host_start E b)
      | Host_Disable \<Rightarrow> fst (cc3501e_nimble_host_disable E b)
      | Adv_Start c lo hi dat \<Rightarrow> fst (cc3501e_nimble_adv_config_and_start E c lo hi dat b)
      | Adv_Stop \<Rightarrow> fst (cc3501e_nimble_adv_stop E b)
      | Scan cap ms \<Rightarrow> fst (cc3501e_nimble_scan E cap ms b)
      | Scan_Stop \<Rightarrow> fst (cc3501e_nimble_scan_stop E b)
      | Connect ty addr \<Rightarrow> fst (cc3501e_nimble_connect E ty addr b)
      | Disconnect \<Rightarrow> fst (cc3501e_nimble_disconnect E b)
      | Read_Chr h cap \<Rightarrow> fst (cc3501e_nimble_gatt_read E h cap b)
      | Write_Chr h dat \<Rightarrow> fst (cc3501e_nimble_gatt_write E h dat b)
      | Register desc cap \<Rightarrow> fst (cc3501e_nimble_gatt_register E desc cap b)
      | Notify h dat \<Rightarrow> fst (cc3501e_nimble_gatt_notify E h dat b))"

text \<open>The states of the glue: from reset, by operations of the worker and callbacks of the stack.\<close>

inductive ble_run :: "'b ble_env \<Rightarrow> 'b ti_ble \<Rightarrow> bool" for E where
  reset: "ble_run E (ble_reset E st)"
| operation: "ble_run E b \<Longrightarrow> ble_run E (ble_apply E op b)"
| callback: "ble_run E b \<Longrightarrow> ble_run E (ble_callback E c b)"

lemma ble_apply_ok:
  assumes "flat_bounded E" and "ble_ok E b"
  shows "ble_ok E (ble_apply E op b)"
proof (cases op)
  case Scan_Stop
  then show ?thesis
    using assms(2) by (auto simp: ble_apply_def cc3501e_nimble_scan_stop_def dest!: ble_ok_call split: prod.splits)
next
  case (Notify h dat)
  show ?thesis
    unfolding ble_apply_def Notify ble_op.case cc3501e_nimble_gatt_notify_def
    by (intro ble_ok_walk) (use assms(2) in \<open>auto dest!: ble_ok_call\<close>)
qed (use assms host_start_ok adv_start_ok scan_ok connect_ok disconnect_ok gatt_read_ok gatt_write_ok gatt_register_ok in
  \<open>simp_all add: ble_apply_def cc3501e_nimble_host_disable_def cc3501e_nimble_adv_stop_def\<close>)

lemma ble_reset_ok: "ble_ok E (ble_reset E st)"
  by (simp add: ble_ok_def ble_reset_def dyn_chr_ok_def scan_cache_ok_def list_all_length)

text \<open>
  C23: The static tables of the BLE glue stay within their bounds on every run: whatever operations the
  worker makes and whatever callbacks the stack delivers, during waits or between operations, there
  are eight characteristic slots of 64 bytes whose lengths stay within them, the scan cache holds at
  most 24 records with pairwise distinct addresses and names of at most 31 bytes, and the read
  length never exceeds the bounce buffer.  The glue relies on the flattening of a packet storing no
  more than the size it is given.
\<close>

theorem ble_tables_bounded:
  assumes "flat_bounded E" and "ble_run E b"
  shows "ble_ok E b"
  using assms(2)
  by induction (simp_all add: ble_reset_ok ble_apply_ok ble_callback_ok assms(1))

lemma scripted_flat_bounded: "flat_bounded scripted_ble"
  by (simp add: flat_bounded_def scripted_ble_def)

theorem ble_tables_bounded_witness:
  "flat_bounded scripted_ble \<and> ble_ok scripted_ble
     (ble_callback scripted_ble (Dyn_Access 0 (ACCESS_WRITE_CHR [1, 2, 3])) (ble_apply scripted_ble Host_Start (ble_reset scripted_ble [[Host_Synced 1]])))"
  by (rule conjI [OF scripted_flat_bounded], rule ble_tables_bounded [OF scripted_flat_bounded])
     (intro ble_run.intros)

section \<open>What a wait delivers\<close>

text \<open>The callbacks of a wait, in order.\<close>

fun wait_trace :: "'b ble_env \<Rightarrow> ble_sync \<Rightarrow> nat \<Rightarrow> 'b ti_ble \<Rightarrow> ble_cb list" where
  "wait_trace E s 0 b = []"
| "wait_trace E s (Suc k) b =
     (case osi_SyncObjWait_second E s b of (b1, ok) \<Rightarrow>
        snd (ble_slice E s (stack b)) @ (if ok then [] else wait_trace E s k b1))"

text \<open>
  A property of the callbacks so far and the state carries over a wait when every callback keeps it
  and neither the stack's own progress nor taking the signal disturbs it.
\<close>

lemma wait_trace_induct:
  assumes step: "\<And>cs c b. P cs b \<Longrightarrow> Q c \<Longrightarrow> P (cs @ [c]) (ble_callback E c b)"
    and frame: "\<And>cs b st. P cs b \<Longrightarrow> P cs (b\<lparr>stack := st\<rparr>)"
    and clear: "\<And>cs b. P cs b \<Longrightarrow> P cs (osi_SyncObjClear s b)"
  shows "P cs b \<Longrightarrow> list_all Q (wait_trace E s k b) \<Longrightarrow> P (cs @ wait_trace E s k b) (fst (cc3501e_wait_signaled E s k b))"
proof (induction k arbitrary: cs b)
  case (Suc k)
  have fold: "P xs b \<Longrightarrow> list_all Q ys \<Longrightarrow> P (xs @ ys) (fold (ble_callback E) ys b)" for xs ys b
  proof (induction ys arbitrary: xs b)
    case (Cons y ys)
    then show ?case using Cons.IH [OF step [OF Cons.prems(1)], of y] by simp
  qed simp
  obtain st ys where sl: "ble_slice E s (stack b) = (st, ys)" by (metis surj_pair)
  define b2 where "b2 = fold (ble_callback E) ys (b\<lparr>stack := st\<rparr>)"
  have q: "list_all Q ys"
    using Suc.prems(2) sl by (simp add: osi_SyncObjWait_second_def ble_call_def Let_def split: if_splits)
  have p: "P (cs @ ys) b2" unfolding b2_def by (intro fold frame Suc.prems q)
  show ?case
  proof (cases "signalled b2 s")
    case True
    then have "osi_SyncObjWait_second E s b = (osi_SyncObjClear s b2, True)"
      by (simp add: osi_SyncObjWait_second_def ble_call_def Let_def sl b2_def)
    then show ?thesis using clear [OF p] by (simp add: sl)
  next
    case False
    then have w: "osi_SyncObjWait_second E s b = (b2, False)"
      by (simp add: osi_SyncObjWait_second_def ble_call_def Let_def sl b2_def)
    then show ?thesis using Suc.IH [OF p] Suc.prems(2) by (simp add: sl)
  qed
qed simp

section \<open>The scan cache\<close>

definition first_seen :: "'a list \<Rightarrow> 'a list" where
  "first_seen xs = rev (remdups (rev xs))"

lemma first_seen_snoc: "first_seen (xs @ [x]) = (if x \<in> set xs then first_seen xs else first_seen xs @ [x])"
  by (simp add: first_seen_def)

lemma first_seen_facts [simp]: "set (first_seen xs) = set xs" "distinct (first_seen xs)" "first_seen [] = []"
  by (simp_all add: first_seen_def)

definition adv_name :: "'b ble_env \<Rightarrow> disc_report \<Rightarrow> byte list" where
  "adv_name E d = (case ble_hs_adv_parse_name E (disc_data d) of None \<Rightarrow> [] | Some name \<Rightarrow> take SCAN_NAME_MAX name)"

fun first_name :: "byte list list \<Rightarrow> byte list" where
  "first_name [] = []"
| "first_name (n # ns) = (if n = [] then first_name ns else n)"

lemma first_name_snoc: "first_name (ns @ [n]) = (if first_name ns = [] then n else first_name ns)"
  by (induction ns) auto

text \<open>What the reports \<open>ds\<close> say of an advertiser: its first address type, last signal strength and first name.\<close>

definition advertiser :: "'b ble_env \<Rightarrow> disc_report list \<Rightarrow> byte list \<Rightarrow> scan_rec" where
  "advertiser E ds a =
     (let mine = filter (\<lambda>d. disc_addr d = a) ds
      in \<lparr>sr_addr = a, sr_addr_type = disc_addr_type (hd mine), sr_rssi = disc_rssi (last mine),
          sr_name = first_name (map (adv_name E) mine)\<rparr>)"

lemma advertiser_addr [simp]: "sr_addr (advertiser E ds a) = a"
  by (simp add: advertiser_def Let_def)

lemma advertiser_other: "a \<noteq> disc_addr d \<Longrightarrow> advertiser E (ds @ [d]) a = advertiser E ds a"
  by (simp add: advertiser_def)

lemma scan_update_alt:
  "scan_update E d r = r\<lparr>sr_rssi := disc_rssi d, sr_name := (if sr_name r = [] then adv_name E d else sr_name r)\<rparr>"
  by (cases r) (simp add: scan_update_def adv_name_def Let_def split: option.splits)

lemma advertiser_new:
  assumes "disc_addr d \<notin> set (map disc_addr ds)"
  shows "advertiser E (ds @ [d]) (disc_addr d)
    = scan_update E d \<lparr>sr_addr = disc_addr d, sr_addr_type = disc_addr_type d, sr_rssi = 0, sr_name = []\<rparr>"
proof -
  have "filter (\<lambda>d'. disc_addr d' = disc_addr d) ds = []"
    using assms by (simp add: filter_empty_conv) (metis image_eqI)
  then show ?thesis by (simp add: advertiser_def Let_def scan_update_alt)
qed

lemma advertiser_seen:
  assumes "disc_addr d \<in> set (map disc_addr ds)"
  shows "advertiser E (ds @ [d]) (disc_addr d) = scan_update E d (advertiser E ds (disc_addr d))"
proof -
  have "filter (\<lambda>d'. disc_addr d' = disc_addr d) ds \<noteq> []"
    using assms by (auto simp: filter_empty_conv)
  then show ?thesis by (simp add: advertiser_def Let_def scan_update_alt first_name_snoc)
qed

lemma scan_report_seen:
  assumes "distinct as" and "disc_addr d \<in> set as" and "disc_addr d \<in> set (map disc_addr ds)"
  shows "scan_report E d (map (advertiser E ds) as) = map (advertiser E (ds @ [d])) as"
proof -
  let ?a = "disc_addr d"
  obtain i where f: "cc3501e_scan_cache_find ?a (map (advertiser E ds) as) = Some i"
    using assms(2) scan_find_None [of ?a "map (advertiser E ds) as"] by (auto simp: o_def)
  have i: "i < length as" "as ! i = ?a" using scan_find_Some [OF f] by auto
  have "(map (advertiser E ds) as)[i := scan_update E d (advertiser E ds ?a)] = map (advertiser E (ds @ [d])) as"
  proof (rule nth_equalityI)
    fix j assume "j < length ((map (advertiser E ds) as)[i := scan_update E d (advertiser E ds ?a)])"
    then have j: "j < length as" by simp
    show "(map (advertiser E ds) as)[i := scan_update E d (advertiser E ds ?a)] ! j = map (advertiser E (ds @ [d])) as ! j"
      using i j advertiser_seen [OF assms(3), of E] advertiser_other [of "as ! j" d E ds] assms(1)
        nth_eq_iff_index_eq [OF assms(1) i(1) j]
      by (cases "j = i") auto
  qed simp
  then show ?thesis using i by (simp add: scan_report_def f)
qed

lemma scan_cache_content:
  "fold (scan_report E) ds [] = map (advertiser E ds) (take CC3501E_BLE_SCAN_CACHE_MAX (first_seen (map disc_addr ds)))"
proof (induction ds rule: rev_induct)
  case (snoc d ds)
  let ?a = "disc_addr d" and ?as = "take CC3501E_BLE_SCAN_CACHE_MAX (first_seen (map disc_addr ds))"
  have sub: "set ?as \<subseteq> set (map disc_addr ds)" using set_take_subset by fastforce
  show ?case
  proof (cases "?a \<in> set ?as")
    case True
    then have "?a \<in> set (map disc_addr ds)" using sub by blast
    then show ?thesis using scan_report_seen [of ?as d ds E] True snoc by (simp add: first_seen_snoc)
  next
    case False
    then have f: "cc3501e_scan_cache_find ?a (map (advertiser E ds) ?as) = None" by (simp add: scan_find_None o_def)
    have same: "map (advertiser E (ds @ [d])) ?as = map (advertiser E ds) ?as"
      using False by (intro map_cong refl advertiser_other) blast
    show ?thesis
    proof (cases "length ?as \<ge> CC3501E_BLE_SCAN_CACHE_MAX")
      case True
      then have "take CC3501E_BLE_SCAN_CACHE_MAX (first_seen (map disc_addr (ds @ [d]))) = ?as"
        by (simp add: first_seen_snoc)
      then show ?thesis using snoc f same True by (simp add: scan_report_def)
    next
      case short: False
      then have "?as = first_seen (map disc_addr ds)" by simp
      moreover from this have new: "?a \<notin> set (map disc_addr ds)" using False by (metis first_seen_facts(1))
      ultimately have "take CC3501E_BLE_SCAN_CACHE_MAX (first_seen (map disc_addr (ds @ [d]))) = ?as @ [?a]"
        using short by (simp add: first_seen_snoc)
      then show ?thesis using snoc f same short advertiser_new [OF new, of E] by (simp add: scan_report_def)
    qed
  qed
qed simp

text \<open>The reports among the callbacks, and the state in which a scan starts to wait.\<close>

definition reports_of :: "ble_cb list \<Rightarrow> disc_report list" where
  "reports_of cs = concat (map (\<lambda>c. case c of Gap_Scan (GAP_DISC d) \<Rightarrow> [d] | _ \<Rightarrow> []) cs)"

definition scan_waiting :: "'b ble_env \<Rightarrow> u32 \<Rightarrow> 'b ti_ble \<Rightarrow> 'b ti_ble" where
  "scan_waiting E ms b =
     (let b1 = fst (cc3501e_ensure_syncs E (b\<lparr>s_scan_cache := []\<rparr>))
      in fst (ble_call (ble_gap_disc E (s_own_addr_type b1) ms) (osi_SyncObjClear S_SCAN b1)))"

lemma effects_scan_cache [simp]:
  "s_scan_cache (osi_SyncObjClear s b) = s_scan_cache b" "s_scan_cache (osi_SyncObjSignal s b) = s_scan_cache b"
  "s_scan_cache (fst (ble_call f b)) = s_scan_cache b"
  by (simp_all add: osi_SyncObjClear_def osi_SyncObjSignal_def ble_call_def split: prod.splits)

lemma ensure_syncs_scan_cache [simp]: "s_scan_cache (fst (cc3501e_ensure_syncs E b)) = s_scan_cache b"
proof -
  have "s_scan_cache (fst (create_syncs E ss b)) = s_scan_cache b" for ss
    by (induction ss arbitrary: b) (auto simp: ble_call_def split: prod.splits)
  from this [of "[S_CONN, S_DISC, S_GATTC, S_SCAN, S_INIT]"] show ?thesis
    by (auto simp only: cc3501e_ensure_syncs_def fst_conv split: prod.splits if_splits) simp
qed

lemma callback_scan_cache:
  "s_scan_cache (ble_callback E c b) = fold (scan_report E) (reports_of [c]) (s_scan_cache b)"
proof (cases c)
  case (Gap_Adv ev)
  then show ?thesis by (cases ev) (simp_all add: ble_callback_def reports_of_def cc3501e_gap_event_cb_def Let_def)
next
  case (Gap_Scan ev)
  then show ?thesis by (cases ev) (simp_all add: ble_callback_def reports_of_def cc3501e_scan_gap_event_cb_def)
next
  case (Gap_Conn ev)
  then show ?thesis by (cases ev) (simp_all add: ble_callback_def reports_of_def cc3501e_conn_gap_event_cb_def)
next
  case (Gattc_Read gen status attr)
  then show ?thesis
    by (cases attr) (simp_all add: ble_callback_def reports_of_def cc3501e_gattc_read_cb_def Let_def split: prod.split)
next
  case (Chr_Access op)
  then show ?thesis
    by (cases op) (simp_all add: ble_callback_def reports_of_def cc3501e_gatt_chr_access_def split: prod.split)
next
  case (Dyn_Access i op)
  then show ?thesis
    by (cases op) (simp_all add: ble_callback_def reports_of_def cc3501e_gatt_dyn_chr_access_def Let_def split: prod.split)
qed (simp_all add: ble_callback_def reports_of_def cc3501e_ble_sync_cb_def cc3501e_gattc_write_cb_def)

lemma wait_scan_cache:
  assumes "s_scan_cache b = []"
  shows "s_scan_cache (fst (cc3501e_wait_signaled E s k b)) = fold (scan_report E) (reports_of (wait_trace E s k b)) []"
proof -
  have "s_scan_cache (fst (cc3501e_wait_signaled E s k b)) = fold (scan_report E) (reports_of ([] @ wait_trace E s k b)) []"
  proof (rule wait_trace_induct [where Q = "\<lambda>_. True" and P = "\<lambda>cs b. s_scan_cache b = fold (scan_report E) (reports_of cs) []"])
    fix cs c and b :: "'a ti_ble"
    assume "s_scan_cache b = fold (scan_report E) (reports_of cs) []"
    then show "s_scan_cache (ble_callback E c b) = fold (scan_report E) (reports_of (cs @ [c])) []"
      by (simp add: callback_scan_cache reports_of_def)
  qed (use assms in \<open>simp_all add: reports_of_def list_all_length\<close>)
  then show ?thesis by simp
qed

text \<open>
  A BLE scan returns the advertisers heard while it ran.  When the scan succeeds, the records
  handed to the caller are one for each of the first 24 addresses reported during the wait, in the
  order they were first heard, cut to the caller's capacity, each with the address type of its first
  report, the signal strength of its last and the first non-empty name (cut to 31 bytes): nothing of
  an earlier scan remains and no advertiser appears twice.
\<close>

lemma scan_returns_advertisers:
  assumes "cc3501e_nimble_scan E cap ms b = (b', 0, rs)"
  shows "rs = take cap (map (advertiser E (reports_of (wait_trace E S_SCAN (unat (ms div 1000 + 2)) (scan_waiting E ms b))))
    (take CC3501E_BLE_SCAN_CACHE_MAX (first_seen (map disc_addr
       (reports_of (wait_trace E S_SCAN (unat (ms div 1000 + 2)) (scan_waiting E ms b)))))))"
proof -
  have e: "s_scan_cache (scan_waiting E ms b) = []" by (simp add: scan_waiting_def Let_def)
  have "rs = take cap (s_scan_cache (fst (cc3501e_wait_signaled E S_SCAN (unat (ms div 1000 + 2)) (scan_waiting E ms b))))"
    using assms by (auto simp: cc3501e_nimble_scan_def scan_waiting_def Let_def split: prod.splits if_splits)
  then show ?thesis by (simp add: wait_scan_cache [OF e] scan_cache_content)
qed

section \<open>Reading a characteristic\<close>

definition own_read :: "u32 \<Rightarrow> ble_cb \<Rightarrow> bool" where
  "own_read g c = (case c of Gattc_Read g' _ _ \<Rightarrow> g' = g | _ \<Rightarrow> False)"

definition no_write :: "ble_cb \<Rightarrow> bool" where
  "no_write c = (case c of Gattc_Write _ \<Rightarrow> False | _ \<Rightarrow> True)"

text \<open>The fields a read's completion goes through; only the client's callbacks touch them.\<close>

definition read_fields :: "'b ti_ble \<Rightarrow> bool \<times> int \<times> u16 \<times> byte list \<times> bool \<times> u32" where
  "read_fields b = (signalled b S_GATTC, s_gattc_op_status b, s_gattc_read_len b, s_gattc_read_bounce b,
     s_gattc_read_pending b, s_gattc_read_gen b)"

lemma read_fields_other:
  assumes "no_write c" and "\<not> own_read (s_gattc_read_gen b) c"
  shows "read_fields (ble_callback E c b) = read_fields b"
proof (cases c)
  case (Gap_Adv ev)
  then show ?thesis
    by (cases ev) (simp_all add: ble_callback_def read_fields_def cc3501e_gap_event_cb_def Let_def osi_SyncObjSignal_def ble_call_def split: prod.split)
next
  case (Gap_Scan ev)
  then show ?thesis
    by (cases ev) (simp_all add: ble_callback_def read_fields_def cc3501e_scan_gap_event_cb_def osi_SyncObjSignal_def)
next
  case (Gap_Conn ev)
  then show ?thesis
    by (cases ev) (simp_all add: ble_callback_def read_fields_def cc3501e_conn_gap_event_cb_def osi_SyncObjSignal_def)
next
  case (Chr_Access op)
  then show ?thesis
    by (cases op) (simp_all add: ble_callback_def read_fields_def cc3501e_gatt_chr_access_def split: prod.split)
next
  case (Dyn_Access i op)
  then show ?thesis
    by (cases op) (simp_all add: ble_callback_def read_fields_def cc3501e_gatt_dyn_chr_access_def Let_def split: prod.split)
qed (use assms in \<open>simp_all add: ble_callback_def read_fields_def own_read_def no_write_def
  cc3501e_ble_sync_cb_def cc3501e_gattc_read_cb_def osi_SyncObjSignal_def\<close>)

text \<open>
  The state of an outstanding read of generation \<open>g\<close> after the callbacks \<open>cs\<close>: as it was issued while
  none of them answers it, and filled from the one that does.
\<close>

definition reading :: "'b ble_env \<Rightarrow> u32 \<Rightarrow> ble_cb list \<Rightarrow> 'b ti_ble \<Rightarrow> bool" where
  "reading E g cs b \<longleftrightarrow> s_gattc_read_pending b \<and> s_gattc_read_gen b = g
     \<and> (filter (own_read g) cs = [] \<longrightarrow> \<not> signalled b S_GATTC \<and> s_gattc_op_status b \<noteq> 0 \<and> s_gattc_read_len b = 0)
     \<and> (\<forall>status attr. filter (own_read g) cs = [Gattc_Read g status attr] \<and> s_gattc_op_status b = 0 \<longrightarrow>
          status = 0 \<and> take (unat (s_gattc_read_len b)) (s_gattc_read_bounce b)
            = (case attr of None \<Rightarrow> [] | Some om \<Rightarrow> snd (ble_hs_mbuf_to_flat E om (BLE_ATT_ATTR_MAX_LEN E))))"

lemma reading_cong: "read_fields b' = read_fields b \<Longrightarrow> reading E g cs b' = reading E g cs b"
  by (simp add: reading_def read_fields_def)

lemma reading_filter_cong:
  "filter (own_read g) cs' = filter (own_read g) cs \<Longrightarrow> reading E g cs' b = reading E g cs b"
  unfolding reading_def by (erule ssubst) (rule refl)

lemma reading_answer:
  assumes "flat_bounded E" and "reading E g cs b" and "filter (own_read g) cs = []"
  shows "reading E g (cs @ [Gattc_Read g status attr]) (ble_callback E (Gattc_Read g status attr) b)"
proof -
  have own: "filter (own_read g) (cs @ [Gattc_Read g status attr]) = [Gattc_Read g status attr]"
    using assms(3) by (simp add: own_read_def)
  have b: "s_gattc_read_pending b" "s_gattc_read_gen b = g" "s_gattc_read_len b = 0"
    using assms(2,3) by (simp_all add: reading_def)
  have len: "unat (word_of_nat (length bs) :: u16) = length bs"
    if "ble_hs_mbuf_to_flat E om (BLE_ATT_ATTR_MAX_LEN E) = (rc, bs)" for om rc bs
    using flat_boundedD [OF assms(1) that] assms(1) by (simp add: flat_bounded_def unat_of_nat)
  show ?thesis
    using b len unfolding reading_def own
    by (cases attr) (auto simp: ble_callback_def cc3501e_gattc_read_cb_def Let_def osi_SyncObjSignal_def split: prod.split)
qed

lemma reading_again:
  assumes "reading E g cs b" and "filter (own_read g) cs \<noteq> []"
  shows "reading E g (cs @ [Gattc_Read g status attr]) (ble_callback E (Gattc_Read g status attr) b)"
proof -
  have own: "filter (own_read g) (cs @ [Gattc_Read g status attr]) \<noteq> []"
    "\<And>c. filter (own_read g) (cs @ [Gattc_Read g status attr]) \<noteq> [c]"
    using assms(2) by (auto simp: own_read_def append_eq_Cons_conv)
  show ?thesis
    using assms(1) own unfolding reading_def
    by (cases attr) (auto simp: ble_callback_def cc3501e_gattc_read_cb_def Let_def osi_SyncObjSignal_def split: prod.split)
qed

lemma reading_step:
  assumes "flat_bounded E" and "reading E g cs b" and "no_write c"
  shows "reading E g (cs @ [c]) (ble_callback E c b)"
proof (cases "own_read g c")
  case True
  then obtain status attr where c: "c = Gattc_Read g status attr" by (auto simp: own_read_def split: ble_cb.splits)
  show ?thesis
    unfolding c by (cases "filter (own_read g) cs = []") (rule reading_answer [OF assms(1,2)] reading_again [OF assms(2)], assumption)+
next
  case False
  then have "read_fields (ble_callback E c b) = read_fields b"
    using assms by (intro read_fields_other) (simp_all add: reading_def)
  then have "reading E g (cs @ [c]) (ble_callback E c b) = reading E g (cs @ [c]) b" by (rule reading_cong)
  also have "reading E g (cs @ [c]) b = reading E g cs b" using False by (intro reading_filter_cong) simp
  finally show ?thesis using assms(2) by (rule ssubst)
qed

lemma reading_wait:
  assumes "flat_bounded E" and "reading E g [] b" and "list_all no_write (wait_trace E S_GATTC k b)"
  shows "reading E g (wait_trace E S_GATTC k b) (fst (cc3501e_wait_signaled E S_GATTC k b))"
proof -
  have frame: "reading E g cs (b\<lparr>stack := st\<rparr>)" if "reading E g cs b" for cs b st
    using that reading_cong [of "b\<lparr>stack := st\<rparr>" b E g cs] by (simp add: read_fields_def)
  have clear: "reading E g cs (osi_SyncObjClear S_GATTC b)" if "reading E g cs b" for cs b
    using that by (simp add: reading_def osi_SyncObjClear_def)
  have "reading E g ([] @ wait_trace E S_GATTC k b) (fst (cc3501e_wait_signaled E S_GATTC k b))"
    by (rule wait_trace_induct [where Q = no_write])
       (rule reading_step [OF assms(1)] frame clear assms(2,3); assumption?)+
  then show ?thesis by simp
qed

text \<open>A wait of the client that succeeds has seen an answer to the outstanding read.\<close>

lemma reading_waited:
  assumes "flat_bounded E" and "reading E g [] b" and "list_all no_write (wait_trace E S_GATTC k b)"
    and "cc3501e_wait_signaled E S_GATTC k b = (b', ok)" and "s_gattc_op_status b' = 0"
    and "length (filter (own_read g) (wait_trace E S_GATTC k b)) \<le> 1"
  shows "\<exists>attr. Gattc_Read g 0 attr \<in> set (wait_trace E S_GATTC k b)
    \<and> take (unat (s_gattc_read_len b')) (s_gattc_read_bounce b')
      = (case attr of None \<Rightarrow> [] | Some om \<Rightarrow> snd (ble_hs_mbuf_to_flat E om (BLE_ATT_ATTR_MAX_LEN E)))"
proof -
  let ?t = "wait_trace E S_GATTC k b"
  have r: "reading E g ?t b'" using reading_wait [OF assms(1-3)] by (simp add: assms(4))
  then have "filter (own_read g) ?t \<noteq> []" using assms(5) by (auto simp: reading_def)
  then obtain c where c: "filter (own_read g) ?t = [c]" using assms(6) by (cases "filter (own_read g) ?t") auto
  then have m: "c \<in> set ?t" "own_read g c" by (metis filter_set list.set_intros(1) mem_Collect_eq set_filter)+
  then obtain status attr where e: "c = Gattc_Read g status attr" by (auto simp: own_read_def split: ble_cb.splits)
  with r c assms(5) have "status = 0" "take (unat (s_gattc_read_len b')) (s_gattc_read_bounce b')
      = (case attr of None \<Rightarrow> [] | Some om \<Rightarrow> snd (ble_hs_mbuf_to_flat E om (BLE_ATT_ATTR_MAX_LEN E)))"
    unfolding reading_def by blast+
  then show ?thesis using m(1) e by blast
qed

text \<open>The state in which a read waits for its answer.\<close>

definition read_issued :: "'b ble_env \<Rightarrow> u16 \<Rightarrow> 'b ti_ble \<Rightarrow> 'b ti_ble" where
  "read_issued E handle b =
     (let b1 = fst (cc3501e_ensure_syncs E b);
          b2 = (osi_SyncObjClear S_GATTC b1)\<lparr>s_gattc_op_status := -1, s_gattc_read_len := 0,
                 s_gattc_read_gen := s_gattc_read_gen b1 + 1, s_gattc_read_pending := True\<rparr>
      in fst (ble_call (ble_gattc_read E (s_conn_handle b2) handle (s_gattc_read_gen b2)) b2))"

lemma ensure_syncs_gen [simp]: "s_gattc_read_gen (fst (cc3501e_ensure_syncs E b)) = s_gattc_read_gen b"
proof -
  have "s_gattc_read_gen (fst (create_syncs E ss b)) = s_gattc_read_gen b" for ss
    by (induction ss arbitrary: b) (auto simp: ble_call_def osi_SyncObjClear_def split: prod.splits)
  from this [of "[S_CONN, S_DISC, S_GATTC, S_SCAN, S_INIT]"] show ?thesis
    by (auto simp only: cc3501e_ensure_syncs_def fst_conv split: prod.splits if_splits) simp
qed

lemma reading_issued: "reading E (s_gattc_read_gen b + 1) [] (read_issued E h b)"
  by (simp add: reading_def read_issued_def Let_def ble_call_def osi_SyncObjClear_def split: prod.split)

lemma gatt_read_done:
  assumes "cc3501e_nimble_gatt_read E h cap b = (b', 0, bs)" and "cc3501e_wait_signaled E S_GATTC 4 (read_issued E h b) = (b4, ok)"
  shows "s_gattc_op_status b4 = 0 \<and> bs = take cap (take (unat (s_gattc_read_len b4)) (s_gattc_read_bounce b4))"
proof -
  obtain b1 sy where e: "cc3501e_ensure_syncs E b = (b1, sy)" by (metis surj_pair)
  let ?b2 = "(osi_SyncObjClear S_GATTC b1)\<lparr>s_gattc_op_status := -1, s_gattc_read_len := 0,
    s_gattc_read_gen := s_gattc_read_gen b1 + 1, s_gattc_read_pending := True\<rparr>"
  obtain b3 rc where c: "ble_call (ble_gattc_read E (s_conn_handle ?b2) h (s_gattc_read_gen ?b2)) ?b2 = (b3, rc)"
    by (metis surj_pair)
  have "read_issued E h b = b3" unfolding read_issued_def Let_def e fst_conv c ..
  with assms(2) have w: "cc3501e_wait_signaled E S_GATTC 4 b3 = (b4, ok)" by simp
  show ?thesis
    using assms(1) unfolding cc3501e_nimble_gatt_read_def Let_def e prod.case c w
    by (auto simp: min.commute split: if_splits)
qed

text \<open>A read the stack takes waits, and ends as its wait does.\<close>

lemma gatt_read_wait:
  assumes "ble_enabled E b" and "s_conn_handle b \<noteq> BLE_HS_CONN_HANDLE_NONE E" and "snd (cc3501e_ensure_syncs E b)"
    and "\<And>w. snd (ble_gattc_read E (s_conn_handle (fst (cc3501e_ensure_syncs E b))) h (s_gattc_read_gen b + 1) w) = 0"
    and w: "cc3501e_wait_signaled E S_GATTC 4 (read_issued E h b) = (b4, ok)"
  shows "cc3501e_nimble_gatt_read E h cap b =
    (if \<not> ok \<or> s_gattc_op_status b4 \<noteq> 0 then (b4\<lparr>s_gattc_read_pending := False\<rparr>, -1, [])
     else (b4\<lparr>s_gattc_read_pending := False\<rparr>, 0, take (min (unat (s_gattc_read_len b4)) cap) (s_gattc_read_bounce b4)))"
proof -
  obtain b1 where e: "cc3501e_ensure_syncs E b = (b1, True)" using assms(3) by (metis prod.collapse)
  have g: "s_gattc_read_gen b1 = s_gattc_read_gen b" using ensure_syncs_gen [of E b] by (simp add: e)
  let ?b2 = "(osi_SyncObjClear S_GATTC b1)\<lparr>s_gattc_op_status := -1, s_gattc_read_len := 0,
    s_gattc_read_gen := s_gattc_read_gen b1 + 1, s_gattc_read_pending := True\<rparr>"
  have "snd (ble_call (ble_gattc_read E (s_conn_handle ?b2) h (s_gattc_read_gen ?b2)) ?b2) = 0"
    using assms(4) [of "stack b1"] by (auto simp: e g ble_call_def osi_SyncObjClear_def split: prod.split)
  then obtain b3 where c: "ble_call (ble_gattc_read E (s_conn_handle ?b2) h (s_gattc_read_gen ?b2)) ?b2 = (b3, 0)"
    by (metis prod.collapse)
  have "read_issued E h b = b3" unfolding read_issued_def Let_def e fst_conv c ..
  with w have w4: "cc3501e_wait_signaled E S_GATTC 4 b3 = (b4, ok)" by simp
  show ?thesis
    unfolding cc3501e_nimble_gatt_read_def Let_def e prod.case c w4 using assms(1,2) by simp
qed

text \<open>
  C21: A characteristic read that succeeds returns its own answer.  If no write completes while the read
  waits and the stack answers a request at most once, an \<open>OK\<close> read has been answered during the wait,
  under the generation of this very read and with status 0, and the bytes returned are those of that
  answer, cut to the caller's capacity: a late answer to an earlier, timed-out read never
  satisfies or corrupts it.
\<close>

theorem gatt_read_own_answer:
  assumes "flat_bounded E" and "cc3501e_nimble_gatt_read E h cap b = (b', 0, bs)"
    and "list_all no_write (wait_trace E S_GATTC 4 (read_issued E h b))"
    and "length (filter (own_read (s_gattc_read_gen b + 1)) (wait_trace E S_GATTC 4 (read_issued E h b))) \<le> 1"
  shows "\<exists>attr. Gattc_Read (s_gattc_read_gen b + 1) 0 attr \<in> set (wait_trace E S_GATTC 4 (read_issued E h b))
    \<and> bs = take cap (case attr of None \<Rightarrow> [] | Some om \<Rightarrow> snd (ble_hs_mbuf_to_flat E om (BLE_ATT_ATTR_MAX_LEN E)))"
proof -
  obtain b4 ok where w: "cc3501e_wait_signaled E S_GATTC 4 (read_issued E h b) = (b4, ok)" by (metis surj_pair)
  note d = gatt_read_done [OF assms(2) w]
  then show ?thesis
    using reading_waited [OF assms(1) reading_issued assms(3) w _ assms(4)] by metis
qed

text \<open>
  C25: A late write completion passes for the answer of a newer read.  The completion of a
  characteristic write carries no generation and shares the rendezvous of the reads: if the answer
  to an earlier, timed-out write is what arrives in the first second of a read's wait, the read
  returns \<open>OK\<close> with no bytes although its own answer has not arrived.
\<close>

theorem late_write_completes_read:
  assumes "ble_enabled E b" and "s_conn_handle b \<noteq> BLE_HS_CONN_HANDLE_NONE E" and "snd (cc3501e_ensure_syncs E b)"
    and "\<And>w. snd (ble_gattc_read E (s_conn_handle (fst (cc3501e_ensure_syncs E b))) h (s_gattc_read_gen b + 1) w) = 0"
    and "snd (ble_slice E S_GATTC (stack (read_issued E h b))) = [Gattc_Write 0]"
  shows "snd (cc3501e_nimble_gatt_read E h cap b) = (0, [])
    \<and> filter (own_read (s_gattc_read_gen b + 1)) (wait_trace E S_GATTC 4 (read_issued E h b)) = []"
proof -
  let ?b3 = "read_issued E h b"
  obtain st where sl: "ble_slice E S_GATTC (stack ?b3) = (st, [Gattc_Write 0])"
    using assms(5) by (metis prod.collapse)
  let ?b4 = "osi_SyncObjClear S_GATTC (cc3501e_gattc_write_cb 0 (?b3\<lparr>stack := st\<rparr>))"
  have w: "osi_SyncObjWait_second E S_GATTC ?b3 = (?b4, True)"
    by (simp add: osi_SyncObjWait_second_def ble_call_def sl ble_callback_def cc3501e_gattc_write_cb_def osi_SyncObjSignal_def)
  then have w4: "cc3501e_wait_signaled E S_GATTC 4 ?b3 = (?b4, True)" by (simp add: numeral_eq_Suc)
  have f: "s_gattc_op_status ?b4 = 0" "s_gattc_read_len ?b4 = 0"
    using reading_issued [of E b h]
    by (simp_all add: osi_SyncObjClear_def cc3501e_gattc_write_cb_def osi_SyncObjSignal_def reading_def)
  have "snd (cc3501e_nimble_gatt_read E h cap b) = (0, [])"
    unfolding gatt_read_wait [OF assms(1-4) w4] using f by simp
  moreover have "filter (own_read (s_gattc_read_gen b + 1)) (wait_trace E S_GATTC 4 ?b3) = []"
    using w by (simp add: sl own_read_def numeral_eq_Suc)
  ultimately show ?thesis by simp
qed

section \<open>Instances\<close>

definition demo_ble :: "ble_cb list list \<Rightarrow> ble_cb list list ti_ble" where
  "demo_ble cbs = (ble_reset scripted_ble cbs)\<lparr>s_syncs_ready := True, s_conn_handle := 1\<rparr>"

lemma demo_ble_enabled: "ble_enabled scripted_ble (demo_ble cbs)"
  by (simp add: ble_enabled_def scripted_ble_def)

lemma demo_ble_syncs: "cc3501e_ensure_syncs scripted_ble (demo_ble cbs) = (demo_ble cbs, True)"
  by (simp add: cc3501e_ensure_syncs_def demo_ble_def)

theorem late_write_completes_read_witness:
  "snd (cc3501e_nimble_gatt_read scripted_ble 5 16 (demo_ble [[Gattc_Write 0]])) = (0, [])"
proof (rule conjunct1 [OF late_write_completes_read])
  show "s_conn_handle (demo_ble [[Gattc_Write 0]]) \<noteq> BLE_HS_CONN_HANDLE_NONE scripted_ble"
    by (simp add: demo_ble_def scripted_ble_def)
  show "snd (ble_slice scripted_ble S_GATTC (stack (read_issued scripted_ble 5 (demo_ble [[Gattc_Write 0]])))) = [Gattc_Write 0]"
    by (simp add: read_issued_def Let_def ble_call_def demo_ble_syncs)
       (simp add: demo_ble_def ble_reset_def scripted_ble_def osi_SyncObjClear_def)
qed (simp_all add: demo_ble_enabled demo_ble_syncs, simp add: scripted_ble_def)

definition demo_report :: "byte \<Rightarrow> byte \<Rightarrow> byte list \<Rightarrow> ble_cb" where
  "demo_report a rssi dat = Gap_Scan (GAP_DISC \<lparr>disc_addr = replicate 6 a, disc_addr_type = 1, disc_rssi = rssi, disc_data = dat\<rparr>)"

lemma scripted_calls:
  "ble_gattc_read scripted_ble c h g w = (w, 0)" "ble_slice scripted_ble s w = (tl w, if w = [] then [] else hd w)"
  "ble_hs_mbuf_to_flat scripted_ble om n = (if length om \<le> n then 0 else 6, take n om)"
  "BLE_ATT_ATTR_MAX_LEN scripted_ble = 512" "BLE_HS_CONN_HANDLE_NONE scripted_ble = 0xFFFF"
  by (simp_all add: scripted_ble_def)

abbreviation demo_read :: "ble_cb list list ti_ble" where
  "demo_read \<equiv> demo_ble [[Gattc_Read 0 0 (Some [1]), Gattc_Read 1 0 (Some [9, 8])]]"

lemma demo_read_issued:
  "read_issued scripted_ble 5 demo_read = demo_read\<lparr>signalled := (\<lambda>_. False), s_gattc_op_status := -1, s_gattc_read_len := 0,
     s_gattc_read_gen := 1, s_gattc_read_pending := True\<rparr>"
  by (simp add: read_issued_def demo_ble_syncs ble_call_def scripted_calls osi_SyncObjClear_def)
     (simp add: demo_ble_def ble_reset_def fun_upd_def)

lemma demo_read_second:
  "osi_SyncObjWait_second scripted_ble S_GATTC (read_issued scripted_ble 5 demo_read)
   = ((read_issued scripted_ble 5 demo_read)\<lparr>stack := [], s_gattc_op_status := 0,
        s_gattc_read_len := 2, s_gattc_read_bounce := 9 # 8 # replicate 510 0\<rparr>, True)"
  unfolding demo_read_issued
  by (simp add: osi_SyncObjWait_second_def ble_call_def scripted_calls ble_callback_def cc3501e_gattc_read_cb_def
      osi_SyncObjSignal_def osi_SyncObjClear_def demo_ble_def ble_reset_def blit_def fun_upd_def)

theorem gatt_read_own_answer_witness:
  "snd (cc3501e_nimble_gatt_read scripted_ble 5 16 demo_read) = (0, [9, 8])
   \<and> (\<exists>attr. Gattc_Read 1 0 attr \<in> set (wait_trace scripted_ble S_GATTC 4 (read_issued scripted_ble 5 demo_read)))"
proof -
  have 4: "(4 :: nat) = Suc 3" by simp
  have w: "cc3501e_wait_signaled scripted_ble S_GATTC 4 (read_issued scripted_ble 5 demo_read)
      = ((read_issued scripted_ble 5 demo_read)\<lparr>stack := [], s_gattc_op_status := 0,
           s_gattc_read_len := 2, s_gattc_read_bounce := 9 # 8 # replicate 510 0\<rparr>, True)"
    unfolding 4 by (simp only: cc3501e_wait_signaled.simps demo_read_second prod.case if_True)
  have t: "wait_trace scripted_ble S_GATTC 4 (read_issued scripted_ble 5 demo_read)
      = [Gattc_Read 0 0 (Some [1]), Gattc_Read 1 0 (Some [9, 8])]"
    unfolding 4 by (simp only: wait_trace.simps demo_read_second prod.case if_True)
      (simp add: demo_read_issued scripted_calls, simp add: demo_ble_def ble_reset_def)
  have r: "snd (cc3501e_nimble_gatt_read scripted_ble 5 16 demo_read) = (0, [9, 8])"
    by (subst gatt_read_wait [OF demo_ble_enabled _ _ _ w])
       (simp_all add: demo_ble_syncs scripted_calls, simp add: demo_ble_def)
  then obtain b' where run: "cc3501e_nimble_gatt_read scripted_ble 5 16 demo_read = (b', 0, [9, 8])" by (metis prod.collapse)
  have g: "s_gattc_read_gen demo_read = 0" by (simp add: demo_ble_def ble_reset_def)
  from gatt_read_own_answer [OF scripted_flat_bounded run, unfolded t g]
  show ?thesis unfolding r t by (auto simp: no_write_def own_read_def)
qed

end
