(* ===== verification/Ti_Ble.thy ===== *)
theory Ti_Ble
  imports Nimble_Client Wifi_Connect Packing
begin

text \<open>
  The BLE driver of \<^verbatim>\<open>hal/ti/cc3501e_hw_ti_ble.c\<close> (the \<^verbatim>\<open>CC3501E_BLE\<close> build), above the NimBLE glue of
  \<open>Ti_Nimble\<close> and beside the Wi-Fi driver of \<open>Ti_Wifi\<close>: Wi-Fi and BLE share the radio, and the radio's
  work disturbs the SPI slave, which most operations therefore re-open when they are done.
\<close>

section \<open>State\<close>

record ('h, 'b) ti_radio =
  radio_wifi :: "'h ti_wifi"
  radio_ble :: "'b ti_ble"

text \<open>
  A call into the host stack between \<^verbatim>\<open>cc3501e_bridge_busy\<close> and \<^verbatim>\<open>cc3501e_bridge_ready\<close>, during which
  radio events and host transfers arrive, with the slave re-opened before the link is ready again.
  The work of the radio may take the slave's DMA away, as a start of the radio does; the model takes
  the worst case, that it is gone when the call returns.
\<close>

definition ble_bracketed ::
    "'h platform \<Rightarrow> 'h spi_drv \<Rightarrow> 'h wlan_env \<Rightarrow> ('b ti_ble \<Rightarrow> 'b ti_ble \<times> 'x) \<Rightarrow> ('h, 'b) ti_radio \<Rightarrow> ('h, 'b) ti_radio \<times> 'x" where
  "ble_bracketed P D W f r =
     (case f (radio_ble r) of (b1, x) \<Rightarrow>
        let w1 = deliver P D W (wifi_do (bridge_busy (link P)) (radio_wifi r));
            w2 = fst (wifi_reinit P D (radio_takes_dma w1))
        in (r\<lparr>radio_wifi := wifi_do (bridge_ready (link P)) w2, radio_ble := b1\<rparr>, x))"

definition ble_status :: "('h, 'b) ti_radio \<times> int \<Rightarrow> ('h, 'b) ti_radio \<times> int" where
  "ble_status = (\<lambda>(r, rc). (r, if rc = 0 then CC3501E_HW_OK else CC3501E_HW_ERR_IO))"

section \<open>Operations\<close>

definition cc3501e_hw_ble_enable ::
    "'h platform \<Rightarrow> 'h spi_drv \<Rightarrow> 'h wlan_env \<Rightarrow> 'b ble_env \<Rightarrow> ('h, 'b) ti_radio \<Rightarrow> ('h, 'b) ti_radio \<times> int" where
  "cc3501e_hw_ble_enable P D W E r =
     (if cc3501e_nimble_host_is_enabled E (radio_ble r) then (r, CC3501E_HW_OK)
      else case cc3501e_hw_wifi_lazy_start P D W (radio_wifi r) of (w1, wifi_rv) \<Rightarrow>
        if wifi_rv \<noteq> CC3501E_HW_OK then (r\<lparr>radio_wifi := w1\<rparr>, wifi_rv)
        else let w2 = fst (wifi_reinit P D (wifi_do (bridge_busy (link P)) w1));
                 w3 = fst (wifi_call (Wlan_Set (wlan_power W) (WLAN_SET_POWER_MANAGEMENT POWER_MANAGEMENT_ALWAYS_ACTIVE_MODE)) w2)
             in case ble_bracketed P D W (cc3501e_nimble_host_start E) (r\<lparr>radio_wifi := w3\<rparr>) of (r1, rc) \<Rightarrow>
                  (r1, if rc \<noteq> 0 \<or> \<not> cc3501e_nimble_host_is_enabled E (radio_ble r1) then CC3501E_HW_ERR_IO else CC3501E_HW_OK))"

definition cc3501e_hw_ble_disable ::
    "'h platform \<Rightarrow> 'h spi_drv \<Rightarrow> 'h wlan_env \<Rightarrow> 'b ble_env \<Rightarrow> ('h, 'b) ti_radio \<Rightarrow> ('h, 'b) ti_radio \<times> int" where
  "cc3501e_hw_ble_disable P D W E r = ble_status (ble_bracketed P D W (cc3501e_nimble_host_disable E) r)"

definition cc3501e_hw_ble_adv_start ::
    "'h platform \<Rightarrow> 'h spi_drv \<Rightarrow> 'h wlan_env \<Rightarrow> 'b ble_env \<Rightarrow> byte \<Rightarrow> u16 \<Rightarrow> u16 \<Rightarrow> byte list
       \<Rightarrow> ('h, 'b) ti_radio \<Rightarrow> ('h, 'b) ti_radio \<times> int" where
  "cc3501e_hw_ble_adv_start P D W E connectable interval_min_ms interval_max_ms adv_data r =
     (if \<not> cc3501e_nimble_host_is_enabled E (radio_ble r) then (r, CC3501E_HW_ERR_NOTIMPL)
      else ble_status (ble_bracketed P D W (cc3501e_nimble_adv_config_and_start E connectable interval_min_ms interval_max_ms adv_data) r))"

definition cc3501e_hw_ble_adv_stop ::
    "'h platform \<Rightarrow> 'h spi_drv \<Rightarrow> 'h wlan_env \<Rightarrow> 'b ble_env \<Rightarrow> ('h, 'b) ti_radio \<Rightarrow> ('h, 'b) ti_radio \<times> int" where
  "cc3501e_hw_ble_adv_stop P D W E r =
     (if \<not> cc3501e_nimble_host_is_enabled E (radio_ble r) then (r, CC3501E_HW_ERR_NOTIMPL)
      else ble_status (ble_bracketed P D W (cc3501e_nimble_adv_stop E) r))"

definition CC3501E_BLE_SCAN_MS :: u32 where "CC3501E_BLE_SCAN_MS = 4000"

definition ble_scan_record :: "scan_rec \<Rightarrow> byte list" where
  "ble_scan_record s =
     (let name_len = min (length (sr_name s)) SCAN_NAME_MAX
      in take 6 (sr_addr s) @ [sr_addr_type s, sr_rssi s, word_of_nat name_len] @ take name_len (sr_name s))"

text \<open>The packing loop; a record counts nine bytes and its name against the capacity.\<close>

primrec ble_scan_records :: "nat \<Rightarrow> nat \<Rightarrow> scan_rec list \<Rightarrow> byte list" where
  "ble_scan_records cap off [] = []"
| "ble_scan_records cap off (s # ss) =
     (let rec = 9 + min (length (sr_name s)) SCAN_NAME_MAX
      in if off + rec > cap then [] else ble_scan_record s @ ble_scan_records cap (off + rec) ss)"

definition cc3501e_hw_ble_scan ::
    "'h platform \<Rightarrow> 'h spi_drv \<Rightarrow> 'h wlan_env \<Rightarrow> 'b ble_env \<Rightarrow> nat \<Rightarrow> ('h, 'b) ti_radio \<Rightarrow> ('h, 'b) ti_radio \<times> int \<times> byte list" where
  "cc3501e_hw_ble_scan P D W E cap r =
     (if \<not> cc3501e_nimble_host_is_enabled E (radio_ble r) then (r, CC3501E_HW_ERR_NOTIMPL, [])
      else case ble_bracketed P D W (cc3501e_nimble_scan E 24 CC3501E_BLE_SCAN_MS) r of (r1, rc, recs) \<Rightarrow>
        if rc \<noteq> 0 then (r1, CC3501E_HW_ERR_IO, []) else (r1, CC3501E_HW_OK, ble_scan_records cap 0 recs))"

text \<open>Cancelling a scan is called from the dispatcher and does not re-open the slave.\<close>

definition cc3501e_hw_ble_scan_stop ::
    "'h platform \<Rightarrow> 'b ble_env \<Rightarrow> ('h, 'b) ti_radio \<Rightarrow> ('h, 'b) ti_radio \<times> int" where
  "cc3501e_hw_ble_scan_stop P E r =
     (if \<not> cc3501e_nimble_host_is_enabled E (radio_ble r) then (r, CC3501E_HW_ERR_NOTIMPL)
      else case cc3501e_nimble_scan_stop E (radio_ble r) of (b1, rc) \<Rightarrow>
        ble_status (r\<lparr>radio_wifi := wifi_do (bridge_ready (link P)) (wifi_do (bridge_busy (link P)) (radio_wifi r)), radio_ble := b1\<rparr>, rc))"

definition cc3501e_hw_ble_scan_start :: "('h, 'b) ti_radio \<Rightarrow> ('h, 'b) ti_radio \<times> int" where
  "cc3501e_hw_ble_scan_start r = (r, CC3501E_HW_ERR_NOTIMPL)"

definition cc3501e_hw_ble_connect ::
    "'h platform \<Rightarrow> 'h spi_drv \<Rightarrow> 'h wlan_env \<Rightarrow> 'b ble_env \<Rightarrow> byte \<Rightarrow> byte list \<Rightarrow> ('h, 'b) ti_radio \<Rightarrow> ('h, 'b) ti_radio \<times> int" where
  "cc3501e_hw_ble_connect P D W E addr_type addr r =
     (if \<not> cc3501e_nimble_host_is_enabled E (radio_ble r) then (r, CC3501E_HW_ERR_NOTIMPL)
      else ble_status (ble_bracketed P D W (cc3501e_nimble_connect E addr_type addr) r))"

definition cc3501e_hw_ble_disconnect ::
    "'h platform \<Rightarrow> 'h spi_drv \<Rightarrow> 'h wlan_env \<Rightarrow> 'b ble_env \<Rightarrow> ('h, 'b) ti_radio \<Rightarrow> ('h, 'b) ti_radio \<times> int" where
  "cc3501e_hw_ble_disconnect P D W E r =
     (if \<not> cc3501e_nimble_host_is_enabled E (radio_ble r) then (r, CC3501E_HW_ERR_NOTIMPL)
      else ble_status (ble_bracketed P D W (cc3501e_nimble_disconnect E) r))"

definition cc3501e_hw_ble_gatt_register ::
    "'b ble_env \<Rightarrow> byte list \<Rightarrow> nat \<Rightarrow> ('h, 'b) ti_radio \<Rightarrow> ('h, 'b) ti_radio \<times> int \<times> u16 list" where
  "cc3501e_hw_ble_gatt_register E desc handles_cap r =
     (if \<not> cc3501e_nimble_host_is_enabled E (radio_ble r) then (r, CC3501E_HW_ERR_NOTIMPL, [])
      else case cc3501e_nimble_gatt_register E desc handles_cap (radio_ble r) of (b1, rc, hs) \<Rightarrow>
        (r\<lparr>radio_ble := b1\<rparr>, if rc = 0 then CC3501E_HW_OK
           else if rc = CC3501E_HW_ERR_STATE then CC3501E_HW_ERR_STATE else CC3501E_HW_ERR_IO, hs))"

definition cc3501e_hw_ble_gatt_notify ::
    "'h platform \<Rightarrow> 'h spi_drv \<Rightarrow> 'h wlan_env \<Rightarrow> 'b ble_env \<Rightarrow> u16 \<Rightarrow> byte list \<Rightarrow> ('h, 'b) ti_radio \<Rightarrow> ('h, 'b) ti_radio \<times> int" where
  "cc3501e_hw_ble_gatt_notify P D W E handle dat r =
     (if \<not> cc3501e_nimble_host_is_enabled E (radio_ble r) then (r, CC3501E_HW_ERR_NOTIMPL)
      else ble_status (ble_bracketed P D W (cc3501e_nimble_gatt_notify E handle dat) r))"

definition cc3501e_hw_ble_gatt_read ::
    "'h platform \<Rightarrow> 'h spi_drv \<Rightarrow> 'h wlan_env \<Rightarrow> 'b ble_env \<Rightarrow> u16 \<Rightarrow> nat \<Rightarrow> ('h, 'b) ti_radio \<Rightarrow> ('h, 'b) ti_radio \<times> int \<times> byte list" where
  "cc3501e_hw_ble_gatt_read P D W E handle cap r =
     (if \<not> cc3501e_nimble_host_is_enabled E (radio_ble r) then (r, CC3501E_HW_ERR_NOTIMPL, [])
      else case ble_bracketed P D W (cc3501e_nimble_gatt_read E handle cap) r of (r1, rc, bs) \<Rightarrow>
        (r1, if rc = 0 then CC3501E_HW_OK else CC3501E_HW_ERR_IO, bs))"

definition cc3501e_hw_ble_gatt_write ::
    "'h platform \<Rightarrow> 'h spi_drv \<Rightarrow> 'h wlan_env \<Rightarrow> 'b ble_env \<Rightarrow> u16 \<Rightarrow> byte list \<Rightarrow> ('h, 'b) ti_radio \<Rightarrow> ('h, 'b) ti_radio \<times> int" where
  "cc3501e_hw_ble_gatt_write P D W E handle dat r =
     (if \<not> cc3501e_nimble_host_is_enabled E (radio_ble r) then (r, CC3501E_HW_ERR_NOTIMPL)
      else ble_status (ble_bracketed P D W (cc3501e_nimble_gatt_write E handle dat) r))"

section \<open>The link across an operation\<close>

text \<open>An operation of the driver: the state and the code it returns.\<close>

definition ble_hal ::
    "'h platform \<Rightarrow> 'h spi_drv \<Rightarrow> 'h wlan_env \<Rightarrow> 'b ble_env \<Rightarrow> ble_op \<Rightarrow> ('h, 'b) ti_radio \<Rightarrow> ('h, 'b) ti_radio \<times> int" where
  "ble_hal P D W E op r =
     (case op of
        Host_Start \<Rightarrow> cc3501e_hw_ble_enable P D W E r
      | Host_Disable \<Rightarrow> cc3501e_hw_ble_disable P D W E r
      | Adv_Start c lo hi dat \<Rightarrow> cc3501e_hw_ble_adv_start P D W E c lo hi dat r
      | Adv_Stop \<Rightarrow> cc3501e_hw_ble_adv_stop P D W E r
      | Scan cap ms \<Rightarrow> (case cc3501e_hw_ble_scan P D W E cap r of (r1, rv, bs) \<Rightarrow> (r1, rv))
      | Scan_Stop \<Rightarrow> cc3501e_hw_ble_scan_stop P E r
      | Connect ty addr \<Rightarrow> cc3501e_hw_ble_connect P D W E ty addr r
      | Disconnect \<Rightarrow> cc3501e_hw_ble_disconnect P D W E r
      | Read_Chr h cap \<Rightarrow> (case cc3501e_hw_ble_gatt_read P D W E h cap r of (r1, rv, bs) \<Rightarrow> (r1, rv))
      | Write_Chr h dat \<Rightarrow> cc3501e_hw_ble_gatt_write P D W E h dat r
      | Register desc cap \<Rightarrow> (case cc3501e_hw_ble_gatt_register E desc cap r of (r1, rv, hs) \<Rightarrow> (r1, rv))
      | Notify h dat \<Rightarrow> cc3501e_hw_ble_gatt_notify P D W E h dat r)"

definition link_of :: "('h, 'b) ti_radio \<Rightarrow> 'h ti_spi" where
  "link_of r = spi (board (radio_wifi r))"

lemma healed_core_do [simp]: "healed (core_do f t) = healed t"
  by (simp add: healed_def parked_def core_do_eq serving_def spi_inv_def next_xfer_def)

lemma calm_good:
  "calm D (radio_wifi r) w \<Longrightarrow> drv_ok D \<Longrightarrow> good (link_of r) \<Longrightarrow> good (spi (board w))"
  "calm D (radio_wifi r) w \<Longrightarrow> drv_ok D \<Longrightarrow> usable (link_of r) \<Longrightarrow> usable (spi (board w))"
  by (simp_all add: calm_def link_of_def)

lemma bracket_heals:
  assumes "drv_ok D" and "good (link_of r)" and "ble_bracketed P D W f r = (r', x)"
  shows "healed (link_of r')"
proof -
  let ?w = "deliver P D W (wifi_do (bridge_busy (link P)) (radio_wifi r))"
  have "good (spi (board ?w))"
    by (rule calm_good(1) [OF calm_trans [OF _ calm_deliver] assms(1,2)]) simp
  then have "healed (spi (board (fst (wifi_reinit P D (radio_takes_dma ?w)))))"
    by (intro reinit_usable [OF assms(1)] good_takes_dma)
  then show ?thesis
    using assms(3) by (auto simp: ble_bracketed_def link_of_def wifi_do_def Let_def split: prod.splits)
qed

text \<open>The operations that enter the radio for long and re-open the slave after it.\<close>

definition blocking :: "ble_op \<Rightarrow> bool" where
  "blocking op = (case op of Host_Start \<Rightarrow> False | Scan_Stop \<Rightarrow> False | Register desc cap \<Rightarrow> False | _ \<Rightarrow> True)"

lemma bracket_status_heals:
  assumes "drv_ok D" and "good (link_of r)" and "ble_status (ble_bracketed P D W f r) = (r', rv)"
  shows "healed (link_of r')"
proof -
  obtain r1 rc where b: "ble_bracketed P D W f r = (r1, rc)" by (metis surj_pair)
  from bracket_heals [OF assms(1,2) b] assms(3) show ?thesis by (simp add: b ble_status_def)
qed

lemma blocking_heals:
  assumes "drv_ok D" and "good (link_of r)" and "ble_enabled E (radio_ble r)" and "blocking op"
    and "ble_hal P D W E op r = (r', rv)"
  shows "healed (link_of r')"
proof (cases op)
  case (Scan cap ms)
  obtain r1 rc rs where b: "ble_bracketed P D W (cc3501e_nimble_scan E 24 CC3501E_BLE_SCAN_MS) r = (r1, rc, rs)"
    by (metis prod_cases3)
  then show ?thesis
    using bracket_heals [OF assms(1,2) b] assms(3,5) Scan
    by (auto simp: ble_hal_def cc3501e_nimble_host_is_enabled_def cc3501e_hw_ble_scan_def split: if_splits)
next
  case (Read_Chr h cap)
  obtain r1 rc bs where b: "ble_bracketed P D W (cc3501e_nimble_gatt_read E h cap) r = (r1, rc, bs)"
    by (metis prod_cases3)
  then show ?thesis
    using bracket_heals [OF assms(1,2) b] assms(3,5) Read_Chr
    by (simp add: ble_hal_def cc3501e_nimble_host_is_enabled_def cc3501e_hw_ble_gatt_read_def)
qed (use assms(3-5) bracket_status_heals [OF assms(1,2)] in
  \<open>simp_all add: blocking_def ble_hal_def cc3501e_nimble_host_is_enabled_def cc3501e_hw_ble_disable_def
     cc3501e_hw_ble_adv_start_def cc3501e_hw_ble_adv_stop_def cc3501e_hw_ble_connect_def cc3501e_hw_ble_disconnect_def
     cc3501e_hw_ble_gatt_write_def cc3501e_hw_ble_gatt_notify_def\<close>)

lemma enable_keeps_link:
  assumes "drv_ok D" and "usable (link_of r)" and "cc3501e_hw_ble_enable P D W E r = (r', rv)"
  shows "usable (link_of r') \<and> (\<not> ble_enabled E (radio_ble r) \<and> rv = CC3501E_HW_OK \<longrightarrow> healed (link_of r'))"
proof (cases "ble_enabled E (radio_ble r)")
  case True
  then show ?thesis using assms by (simp add: cc3501e_hw_ble_enable_def cc3501e_nimble_host_is_enabled_def)
next
  case False
  let ?ls = "cc3501e_hw_wifi_lazy_start P D W (radio_wifi r)"
  let ?w2 = "fst (wifi_reinit P D (wifi_do (bridge_busy (link P)) (fst ?ls)))"
  let ?w3 = "fst (wifi_call (Wlan_Set (wlan_power W) (WLAN_SET_POWER_MANAGEMENT POWER_MANAGEMENT_ALWAYS_ACTIVE_MODE)) ?w2)"
  have g: "good (link_of r)" by (rule usable_good [OF assms(2)])
  have "usable (spi (board (fst ?ls)))" by (rule calm_good(2) [OF calm_lazy_start assms(1,2)])
  then have g1: "usable (link_of (r\<lparr>radio_wifi := fst ?ls\<rparr>))" by (simp add: link_of_def)
  have "good (spi (board ?w3))"
    by (rule calm_good(1) [OF calm_trans [OF _ calm_trans [OF calm_reinit_fst calm_call_fst]] assms(1) g]) simp
  then have g3: "good (link_of (r\<lparr>radio_wifi := ?w3\<rparr>))" by (simp add: link_of_def)
  obtain r1 rc where b: "ble_bracketed P D W (cc3501e_nimble_host_start E) (r\<lparr>radio_wifi := ?w3\<rparr>) = (r1, rc)" by (metis surj_pair)
  note h = bracket_heals [OF assms(1) g3 b]
  show ?thesis
    using assms(3) False g1 h healed_usable [OF h]
    by (auto simp: cc3501e_hw_ble_enable_def cc3501e_nimble_host_is_enabled_def split_beta Let_def b split: if_splits)
qed

lemma disabled_refused:
  assumes "\<not> ble_enabled E (radio_ble r)" and "op \<noteq> Host_Start" and "op \<noteq> Host_Disable"
  shows "ble_hal P D W E op r = (r, CC3501E_HW_ERR_NOTIMPL)"
  using assms
  by (cases op) (simp_all add: ble_hal_def cc3501e_nimble_host_is_enabled_def cc3501e_hw_ble_adv_start_def
      cc3501e_hw_ble_adv_stop_def cc3501e_hw_ble_scan_def cc3501e_hw_ble_scan_stop_def cc3501e_hw_ble_connect_def
      cc3501e_hw_ble_disconnect_def cc3501e_hw_ble_gatt_read_def cc3501e_hw_ble_gatt_write_def
      cc3501e_hw_ble_gatt_register_def cc3501e_hw_ble_gatt_notify_def)

lemma other_keeps_link:
  assumes "usable (link_of r)" and "ble_enabled E (radio_ble r)" and "\<not> blocking op" and "op \<noteq> Host_Start"
    and "ble_hal P D W E op r = (r', rv)"
  shows "usable (link_of r')"
  using assms
  by (cases op) (auto simp: blocking_def ble_hal_def cc3501e_nimble_host_is_enabled_def cc3501e_hw_ble_scan_stop_def
      cc3501e_hw_ble_gatt_register_def ble_status_def link_of_def wifi_do_def usable_core split: prod.splits)

lemma disable_heals:
  assumes "drv_ok D" and "good (link_of r)" and "ble_hal P D W E Host_Disable r = (r', rv)"
  shows "healed (link_of r')"
  using bracket_status_heals [OF assms(1,2), of P W "cc3501e_nimble_host_disable E" r' rv] assms(3)
  by (simp add: ble_hal_def cc3501e_hw_ble_disable_def)

text \<open>
  C20: No BLE operation costs the host its link.  On a driver that opens and accepts transfers, an
  operation started with the SPI slave in service (open, a transfer armed, neither quiesced nor in
  update mode) ends with the slave in service, whatever the radio and the host did meanwhile and
  whatever the operation returns, a failed start of the radio included, although starting the radio
  and working with it takes the slave's DMA away; the operations that enter the radio for long, and
  an enable that succeeds, leave the slave freshly re-opened and parked for the next frame.  With the
  host stack not enabled every operation but enable and disable is refused and changes nothing.
\<close>

theorem ble_keeps_link:
  assumes "drv_ok D" and "usable (link_of r)" and "ble_hal P D W E op r = (r', rv)"
  shows "usable (link_of r')
    \<and> (ble_enabled E (radio_ble r) \<and> blocking op \<or> \<not> ble_enabled E (radio_ble r) \<and> op = Host_Start \<and> rv = CC3501E_HW_OK \<longrightarrow> healed (link_of r'))
    \<and> (\<not> ble_enabled E (radio_ble r) \<and> op \<noteq> Host_Start \<and> op \<noteq> Host_Disable \<longrightarrow> r' = r \<and> rv = CC3501E_HW_ERR_NOTIMPL)"
proof -
  have g: "good (link_of r)" by (rule usable_good [OF assms(2)])
  consider (start) "op = Host_Start" | (off) "\<not> ble_enabled E (radio_ble r)" "op \<noteq> Host_Start" "op \<noteq> Host_Disable"
    | (disable) "op = Host_Disable" | (block) "ble_enabled E (radio_ble r)" "blocking op"
    | (rest) "ble_enabled E (radio_ble r)" "\<not> blocking op" "op \<noteq> Host_Start" by blast
  then show ?thesis
  proof cases
    case start
    then show ?thesis using enable_keeps_link [OF assms(1,2), of P W E r' rv] assms(3) by (simp add: ble_hal_def blocking_def)
  next
    case off
    then show ?thesis using disabled_refused [OF off, of P D W] assms(2,3) by simp
  next
    case disable
    then have h: "healed (link_of r')" using disable_heals [OF assms(1) g] assms(3) by blast
    then show ?thesis using healed_usable [OF h] disable by simp
  next
    case block
    then show ?thesis using blocking_heals [OF assms(1) g block assms(3)] healed_usable by blast
  next
    case rest
    then show ?thesis using other_keeps_link [OF assms(2) rest assms(3)] by blast
  qed
qed

section \<open>Reading a scan reply back\<close>

function parse_ble_scan :: "byte list \<Rightarrow> scan_rec list" where
  "parse_ble_scan bs =
     (if length bs < 9 then []
      else let n = unat (bs ! 8)
           in \<lparr>sr_addr = take 6 bs, sr_addr_type = bs ! 6, sr_rssi = bs ! 7, sr_name = take n (drop 9 bs)\<rparr>
              # parse_ble_scan (drop (9 + n) bs))"
  by pat_completeness auto

termination by (relation "measure length") auto

declare parse_ble_scan.simps [simp del]

definition scan_rec_ok :: "scan_rec \<Rightarrow> bool" where
  "scan_rec_ok s \<longleftrightarrow> length (sr_addr s) = 6 \<and> length (sr_name s) \<le> SCAN_NAME_MAX"

lemma ble_record_length: "scan_rec_ok s \<Longrightarrow> length (ble_scan_record s) = 9 + length (sr_name s)"
  by (simp add: ble_scan_record_def scan_rec_ok_def Let_def)

lemma parse_ble_record:
  assumes "scan_rec_ok s"
  shows "parse_ble_scan (ble_scan_record s @ rest) = s # parse_ble_scan rest"
proof -
  let ?x = "ble_scan_record s @ rest" and ?n = "length (sr_name s)"
  have n: "unat (word_of_nat ?n :: byte) = ?n" using assms by (simp add: scan_rec_ok_def SCAN_NAME_MAX_def unat_of_nat)
  have x: "?x = sr_addr s @ [sr_addr_type s, sr_rssi s, word_of_nat ?n] @ sr_name s @ rest" "length (sr_addr s) = 6"
    using assms by (simp_all add: ble_scan_record_def scan_rec_ok_def Let_def)
  have f: "take 6 ?x = sr_addr s" "?x ! 6 = sr_addr_type s" "?x ! 7 = sr_rssi s" "?x ! 8 = word_of_nat ?n"
    "take ?n (drop 9 ?x) = sr_name s" "drop (9 + ?n) ?x = rest" "\<not> length ?x < 9"
    using x(2) unfolding x(1) by (simp_all add: nth_append numeral_3_eq_3)
  show ?thesis by (subst parse_ble_scan.simps) (simp only: f n Let_def if_False, cases s, simp)
qed

interpretation ble_wire: packed_records ble_scan_record scan_rec_ok "\<lambda>s. s" parse_ble_scan
  by unfold_locales (simp_all add: parse_ble_record, simp add: parse_ble_scan.simps)

lemma ble_scan_records_pack:
  "\<forall>s \<in> set ss. scan_rec_ok s \<Longrightarrow> ble_scan_records cap off ss = pack_records ble_scan_record cap off ss"
  by (induction ss arbitrary: off) (auto simp: ble_record_length scan_rec_ok_def Let_def)

lemma scan_result_names:
  assumes "flat_bounded E" and "ble_ok E b" and "cc3501e_nimble_scan E cap ms b = (b', rc, rs)" and "s \<in> set rs"
  shows "length (sr_name s) \<le> SCAN_NAME_MAX"
proof -
  have "ble_ok E b'" using scan_ok [OF assms(1,2), of cap ms] by (simp add: assms(3))
  moreover have "s \<in> set (s_scan_cache b')"
    using assms(3,4) by (auto simp: cc3501e_nimble_scan_def Let_def dest: in_set_takeD split: prod.splits if_splits)
  ultimately show ?thesis by (simp add: ble_ok_def scan_cache_ok_def list_all_iff)
qed

text \<open>The reports of the four seconds and two of a scan, and the advertisers they show.\<close>

definition heard :: "'b ble_env \<Rightarrow> 'b ti_ble \<Rightarrow> disc_report list" where
  "heard E b = reports_of (wait_trace E S_SCAN (unat (CC3501E_BLE_SCAN_MS div 1000 + 2)) (scan_waiting E CC3501E_BLE_SCAN_MS b))"

definition found :: "'b ble_env \<Rightarrow> disc_report list \<Rightarrow> scan_rec list" where
  "found E ds = map (advertiser E ds) (take CC3501E_BLE_SCAN_CACHE_MAX (first_seen (map disc_addr ds)))"

lemma found_addr:
  assumes "\<forall>d \<in> set ds. length (disc_addr d) = 6" and "s \<in> set (found E ds)"
  shows "length (sr_addr s) = 6"
proof -
  obtain a where a: "s = advertiser E ds a" "a \<in> set (take CC3501E_BLE_SCAN_CACHE_MAX (first_seen (map disc_addr ds)))"
    using assms(2) by (auto simp: found_def)
  then have "a \<in> set (first_seen (map disc_addr ds))" by (rule_tac in_set_takeD)
  then show ?thesis using assms(1) a(1) by auto
qed

lemma ble_scan_reply:
  assumes "cc3501e_hw_ble_scan P D W E cap r = (r', CC3501E_HW_OK, bs)"
  shows "cc3501e_nimble_scan E 24 CC3501E_BLE_SCAN_MS (radio_ble r) = (radio_ble r', 0, found E (heard E (radio_ble r)))
    \<and> bs = ble_scan_records cap 0 (found E (heard E (radio_ble r)))"
proof -
  obtain b' rc rs where n: "cc3501e_nimble_scan E 24 CC3501E_BLE_SCAN_MS (radio_ble r) = (b', rc, rs)" by (metis prod_cases3)
  have r: "rc = 0" "radio_ble r' = b'" "bs = ble_scan_records cap 0 rs"
    using assms n by (auto simp: cc3501e_hw_ble_scan_def ble_bracketed_def Let_def CC3501E_HW_OK_def
      CC3501E_HW_ERR_IO_def CC3501E_HW_ERR_NOTIMPL_def split: if_splits)
  have "rs = found E (heard E (radio_ble r))"
    using scan_returns_advertisers [OF n [unfolded r(1)]]
    by (simp add: found_def heard_def take_map CC3501E_BLE_SCAN_CACHE_MAX_def)
  with n r show ?thesis by simp
qed

text \<open>
  C24: A BLE scan reply, read back by the host, is the advertisers heard.  In a state within the
  glue's bounds, a successful scan answers with whole records of the first 24 advertisers reported
  while it waited, in the order they were first heard, each with the address type of its first
  report, the signal strength of its last and its first non-empty name, cut to 31 bytes; nothing of
  an earlier scan remains and no advertiser appears twice.  The reply is the longest prefix that fits
  the host's buffer, never more bytes than it holds, and a host that walks it recovers exactly those.
\<close>

theorem ble_scan_roundtrip:
  assumes "flat_bounded E" and "ble_ok E (radio_ble r)"
    and "cc3501e_hw_ble_scan P D W E cap r = (r', CC3501E_HW_OK, bs)"
    and "\<forall>d \<in> set (heard E (radio_ble r)). length (disc_addr d) = 6"
  shows "\<exists>k \<le> length (found E (heard E (radio_ble r))). parse_ble_scan bs = take k (found E (heard E (radio_ble r))) \<and> length bs \<le> cap
    \<and> (k < length (found E (heard E (radio_ble r)))
        \<longrightarrow> cap < length bs + 9 + length (sr_name (found E (heard E (radio_ble r)) ! k)))"
proof -
  let ?rs = "found E (heard E (radio_ble r))"
  note rep = ble_scan_reply [OF assms(3)]
  have ok: "\<forall>s \<in> set ?rs. scan_rec_ok s"
    using scan_result_names [OF assms(1,2) conjunct1 [OF rep]] found_addr [OF assms(4), of _ E]
    unfolding scan_rec_ok_def by blast
  then have bs: "bs = pack_records ble_scan_record cap 0 ?rs" using ble_scan_records_pack [OF ok] rep by simp
  obtain k where k: "k \<le> length ?rs" "parse_ble_scan bs = map (\<lambda>s. s) (take k ?rs)" "length bs \<le> cap"
    "k < length ?rs \<longrightarrow> cap < length bs + length (ble_scan_record (?rs ! k))"
    using ble_wire.packed_roundtrip [OF ok, of cap] unfolding bs by blast
  moreover have "length (ble_scan_record (?rs ! k)) = 9 + length (sr_name (?rs ! k))" if "k < length ?rs"
    using ok that by (simp add: ble_record_length)
  ultimately show ?thesis by (intro exI [of _ k]) (simp add: add.assoc)
qed

section \<open>Instances\<close>

definition demo_radio :: "(stub_hw, ble_cb list list) ti_radio" where
  "demo_radio = \<lparr>radio_wifi = demo_wifi, radio_ble = demo_ble [[demo_report 1 200 [65], Gap_Scan GAP_DISC_COMPLETE]]\<rparr>"

lemma demo_radio_facts: "drv_ok demo_drv" "usable (link_of demo_radio)" "ble_enabled scripted_ble (radio_ble demo_radio)"
proof -
  show "drv_ok demo_drv" using demo_drv_ok by (simp add: drv_ok_def)
  show "usable (link_of demo_radio)" using demo_wifi_usable by (simp add: demo_radio_def link_of_def)
  show "ble_enabled scripted_ble (radio_ble demo_radio)" by (simp add: demo_radio_def demo_ble_enabled)
qed

theorem ble_keeps_link_witness:
  "\<exists>r' rv. ble_hal clock_platform demo_drv demo_wlan scripted_ble (Scan 64 4000) demo_radio = (r', rv)
    \<and> usable (link_of demo_radio) \<and> healed (link_of r')"
proof -
  obtain r' rv where h: "ble_hal clock_platform demo_drv demo_wlan scripted_ble (Scan 64 4000) demo_radio = (r', rv)"
    by (metis surj_pair)
  with ble_keeps_link [OF demo_radio_facts(1,2) h] demo_radio_facts(2,3) show ?thesis by (auto simp: blocking_def)
qed

lemma demo_radio_heard: "\<forall>d \<in> set (heard scripted_ble (radio_ble demo_radio)). length (disc_addr d) = 6"
proof -
  have n: "unat (CC3501E_BLE_SCAN_MS div 1000 + 2) = 6" by (simp add: CC3501E_BLE_SCAN_MS_def)
  have t: "wait_trace E s 6 b = (case osi_SyncObjWait_second E s b of (b1, ok) \<Rightarrow>
      snd (ble_slice E s (stack b)) @ (if ok then [] else wait_trace E s 5 b1))" for E s and b :: "'a ti_ble"
    using wait_trace.simps(2) [of E s 5 b] by simp
  show ?thesis
    unfolding heard_def n
    by (simp add: demo_radio_def cc3501e_ensure_syncs_def demo_ble_def ble_reset_def scan_waiting_def)
       (simp add: t scripted_ble_def ble_call_def Let_def osi_SyncObjWait_second_def osi_SyncObjClear_def osi_SyncObjSignal_def
         ble_callback_def demo_report_def cc3501e_scan_gap_event_cb_def scan_report_def scan_update_def reports_of_def)
qed

lemma demo_radio_scan:
  "snd (cc3501e_nimble_scan scripted_ble 24 CC3501E_BLE_SCAN_MS (radio_ble demo_radio))
   = (0, [\<lparr>sr_addr = replicate 6 1, sr_addr_type = 1, sr_rssi = 200, sr_name = [65]\<rparr>])"
proof -
  have n: "unat (CC3501E_BLE_SCAN_MS div 1000 + 2) = 6" by (simp add: CC3501E_BLE_SCAN_MS_def)
  have w: "cc3501e_wait_signaled E s 6 b =
      (case osi_SyncObjWait_second E s b of (b1, ok) \<Rightarrow> if ok then (b1, True) else cc3501e_wait_signaled E s 5 b1)" for E s and b :: "'a ti_ble"
    using cc3501e_wait_signaled.simps(2) [of E s 5 b] by simp
  show ?thesis
    unfolding cc3501e_nimble_scan_def n
    by (simp add: demo_radio_def demo_ble_enabled cc3501e_ensure_syncs_def demo_ble_def ble_reset_def)
       (simp add: w ble_enabled_def scripted_ble_def ble_call_def Let_def osi_SyncObjWait_second_def osi_SyncObjClear_def osi_SyncObjSignal_def
         ble_callback_def demo_report_def cc3501e_scan_gap_event_cb_def scan_report_def scan_update_def
         CC3501E_BLE_SCAN_CACHE_MAX_def SCAN_NAME_MAX_def)
qed

theorem ble_scan_roundtrip_witness:
  "\<exists>r' bs. cc3501e_hw_ble_scan clock_platform demo_drv demo_wlan scripted_ble 64 demo_radio = (r', CC3501E_HW_OK, bs)
    \<and> parse_ble_scan bs = [\<lparr>sr_addr = replicate 6 1, sr_addr_type = 1, sr_rssi = 200, sr_name = [65]\<rparr>]"
proof -
  let ?s = "\<lparr>sr_addr = replicate 6 1, sr_addr_type = 1, sr_rssi = 200, sr_name = [65]\<rparr>"
  obtain b' where n: "cc3501e_nimble_scan scripted_ble 24 CC3501E_BLE_SCAN_MS (radio_ble demo_radio) = (b', 0, [?s])"
    using demo_radio_scan by (metis prod.collapse)
  obtain r' where h: "cc3501e_hw_ble_scan clock_platform demo_drv demo_wlan scripted_ble 64 demo_radio
      = (r', CC3501E_HW_OK, ble_scan_records 64 0 [?s])"
    using demo_radio_facts(3) n by (simp add: cc3501e_hw_ble_scan_def cc3501e_nimble_host_is_enabled_def ble_bracketed_def Let_def)
  have ok: "ble_ok scripted_ble (radio_ble demo_radio)"
    using ble_reset_ok [of scripted_ble] by (simp add: demo_radio_def demo_ble_def)
  have f: "found scripted_ble (heard scripted_ble (radio_ble demo_radio)) = [?s]" using ble_scan_reply [OF h] n by simp
  obtain k where k: "k \<le> 1" "parse_ble_scan (ble_scan_records 64 0 [?s]) = take k [?s]"
    "k < 1 \<longrightarrow> 64 < length (ble_scan_records 64 0 [?s]) + 9 + length (sr_name ([?s] ! k))"
    using ble_scan_roundtrip [OF scripted_flat_bounded ok h] demo_radio_heard unfolding f by auto
  have "k = 1"
  proof (rule ccontr)
    assume "k \<noteq> 1"
    then have "k = 0" using k(1) by simp
    with k(3) show False by (simp add: ble_scan_record_def SCAN_NAME_MAX_def)
  qed
  with k(2) h show ?thesis by auto
qed

end
