(* ===== verification/Spec2Isabelle.thy ===== *)
theory Spec2Isabelle
  imports Rx_Ring Latch Completion Spi1 Vectors Spi_Link Board Ota_Upload Ti_Tick Ti_Log Ti_Spi1 Ti_Ble
begin

text \<open>
  \<^bold>\<open>The CC3501E bridge firmware.\<close>

  The firmware runs on a CC3501E radio and serves a host processor over SPI (or SDIO): the host
  clocks in a request frame, the firmware dispatches its opcode and the host clocks out the reply.
  A request that would block is queued in a single job slot; the host repeats it, being answered
  \<open>BUSY\<close>, until the task has run the job.  A lost reply makes the host repeat a request that has
  already taken effect, which the firmware must answer without doing it again.

  \<^bold>\<open>How the source is modelled.\<close>  Every file-static variable is a field of a state record, every C
  function a function that returns the new state with its result, every early return a branch.
  Integers keep their width (\<open>byte\<close>, \<open>u16\<close>, \<open>u32\<close>) wherever they can wrap.  Code that is not in the
  repository is a parameter: the numbers of the external protocol header (\<open>wire_hdr\<close>), the drivers
  below the portable core (\<open>'h platform\<close>), the PSA firmware-update service (\<open>'e ota_env\<close>), the lwIP
  stack (\<open>'n sock_env\<close>), the NimBLE stack (\<open>'b ble_env\<close>) and the vendor SDK's SPI, GPIO, power and WLAN
  calls (\<open>'h spi_drv\<close>, \<open>'h spi1_drv\<close>, \<open>'h gpio_drv\<close>, \<open>'h pwr_env\<close>, \<open>'h wlan_env\<close>, gathered for the tick in
  \<open>chip_env\<close>); what a theorem needs of it is a named hypothesis with a witness.  Interrupts
  are interleavings: a run is an arbitrary sequence of received frames, task passes and driver
  activity, each of them atomic, as the source makes them with its critical sections.

  \<^bold>\<open>Theories.\<close>
  \<^item> \<open>Prelude\<close>, \<open>Wire\<close>: C types, little-endian encodings, opcodes, status codes and sizes.
  \<^item> \<open>Crc16\<close>, \<open>Framing\<close>: the CRC of \<^verbatim>\<open>src/protocol.c\<close>, equal to the bitwise CRC from every table state;
    replies round-trip through a host's parser and a request with one altered byte is refused.
  \<^item> \<open>Event_Ring\<close> (\<^verbatim>\<open>src/event_ring.c\<close>): refines a bounded FIFO (locale \<open>bounded_event_queue\<close> interpreted on it).
  \<^item> \<open>Rx_Ring\<close> (\<^verbatim>\<open>src/sock_recv_commit.c\<close>, the ring of \<^verbatim>\<open>hal/ti/cc3501e_hw_ti_sock.c\<close>): the host's bytes
    are a prefix of the socket's stream over any interleaving of pump, reads and replays.
  \<^item> \<open>Hal\<close>, \<open>Hal_Stub\<close> (\<^verbatim>\<open>hal/cc3501e_hw.h\<close>, \<^verbatim>\<open>hal/cc3501e_hw_stub.c\<close>), \<open>Fw_State\<close>: drivers and state.
  \<^item> \<open>Worker\<close> (\<^verbatim>\<open>src/worker.c\<close>), \<open>Routed\<close>, \<open>Handlers\<close>, \<open>Sockets\<close>, \<open>Dispatch\<close> (\<^verbatim>\<open>src/protocol*.c\<close>),
    \<open>Transport\<close> (\<^verbatim>\<open>src/transport_*.c\<close>): the portable core, one definition per function.
  \<^item> \<open>Fw_Inv\<close>, \<open>Handler_Inv\<close>, \<open>Reply_Bounds\<close>, \<open>System\<close>: the invariant \<open>fw_inv\<close>, kept by every handler (the
    locales \<open>handler_invariant\<close> and \<open>frame_invariant\<close> carry an invariant from the handlers to whole
    frames), the bounds of replies, and reachable states as an inductive step relation.
  \<^item> \<open>Latch\<close>, \<open>Exactly_Once\<close>, \<open>Completion\<close>, \<open>Spi1\<close>: a repeated request is answered once run, and run once
    (\<open>Latch\<close>: over runs of re-sends, passes and driver activity); the locale \<open>settled_phase\<close> is the shared argument for requests that settle.
  \<^item> \<open>Vectors\<close>, \<open>Spi_Link\<close>, \<open>Board\<close>: the canonical wire vectors, what the host clocks out, GATT and GPIO.
  \<^item> \<open>Ti_Ota\<close>, \<open>Ota_Image\<close>, \<open>Ota_Upload\<close> (\<^verbatim>\<open>hal/ti/cc3501e_hw_ti_ota.c\<close>): against a host that announces
    any images in turn and sends a piece only after its \<open>BEGIN\<close> was answered OK (\<open>host_step\<close>), what is staged is
    the last image so accepted; an upload completes, and only \<open>PROMOTE\<close> arms the reboot.
  \<^item> \<open>Seams\<close> (\<^verbatim>\<open>src/link_quiet_rearm.h\<close>, \<^verbatim>\<open>src/sock_connect_wait.h\<close> and the other host-testable
    decisions), \<open>Ti_Sock\<close>, \<open>Sock_Table\<close> (\<^verbatim>\<open>hal/ti/cc3501e_hw_ti_sock.c\<close>).
  \<^item> \<open>Ti_Spi\<close>, \<open>Spi_Phases\<close>, \<open>Spi_Frames\<close> (\<^verbatim>\<open>hal/ti/transport_hw_ti_spi.c\<close>): the four-phase SPI slave above the
    vendor driver (\<open>'h spi_drv\<close>).  Every transfer stays inside its buffers after any history; a frame is
    answered with the core's reply in both modes (locale \<open>frame_clocking\<close>, interpreted on the DMA slave
    and on the polled service); a re-open recovers from any state; update mode lasts one boot.
  \<^item> \<open>Ti_Board\<close> (\<^verbatim>\<open>hal/ti/cc3501e_hw_ti.c\<close>): the self-heals bring the slave back from every fault they
    watch and leave a healthy one alone; a reset waits for the acknowledgement of its request.
    \<open>usable\<close> is a slave in service: open, a transfer armed, neither quiesced nor in update mode.
  \<^item> \<open>Ti_Gpio\<close> (\<^verbatim>\<open>hal/ti/cc3501e_hw_ti_gpio.c\<close>): the pads the host may touch, emulated open drain, READY;
    the mode of a pad is read off the configurations it was given, not off the driver's own books.
  \<^item> \<open>Ti_Power\<close> (\<^verbatim>\<open>hal/ti/cc3501e_hw_ti_power.c\<close>): the counted power constraints refine the policy the
    host asked for; the state that would lose the link is never allowed.
  \<^item> \<open>Ti_Wifi\<close>, \<open>Wifi_Connect\<close> (\<^verbatim>\<open>hal/ti/cc3501e_hw_ti_wifi.c\<close>): roles, scan, connect and access point above
    the vendor WLAN calls.  Starting the radio takes the slave's DMA, whether or not the start succeeds
    (\<open>radio_takes_dma\<close>).  A connect always ends with a published outcome and, where it began with one, a slave in
    service, and a scan reply reads back as the networks that were found.
  \<^item> \<open>Packing\<close>: replies that are runs of whole records (locale \<open>packed_records\<close>, interpreted on the records
    of the Wi-Fi scan and of the BLE scan).
  \<^item> \<open>Ti_Nimble\<close>, \<open>Nimble_Gatt\<close>, \<open>Nimble_Client\<close> (\<^verbatim>\<open>hal/ti/cc3501e_nimble_host.c\<close>), \<open>Ti_Ble\<close>
    (\<^verbatim>\<open>hal/ti/cc3501e_hw_ti_ble.c\<close>): the BLE host glue and driver; a wait of one second delivers the
    callbacks the stack chooses.  Registering a service is a round trip of its descriptor, the static
    tables stay within bounds on every run, a read returns its own answer unless a late write
    completion is taken for it, a scan reply reads back as the advertisers heard, and no operation
    costs the host its link.
  \<^item> \<open>Ti_Spi1\<close> (\<^verbatim>\<open>hal/ti/cc3501e_hw_ti_spi_master.c\<close>): the SPI1 master; at most one device is selected, and
    the fill window clocks what one long transfer would.
  \<^item> \<open>Ti_Log\<close> (\<^verbatim>\<open>hal/ti/cc3501e_hw_ti_log.c\<close>): log level, reset cause over boots, uptime.  What a
    boot finds in the no-init section (\<open>noinit\<close>: retained, or any two words) is an argument, since the source
    does not claim which resets retain it.
  \<^item> \<open>Ti_Tick\<close> (\<^verbatim>\<open>cc3501e_hw_tick\<close>, \<^verbatim>\<open>bringup_task\<close> of \<^verbatim>\<open>src/main.c\<close>): the whole housekeeping tick on the chip,
    in runs of ticks, host clocks and worker passes.  A pass (\<open>chip_worker\<close>) is on the slave itself: what
    the body does to it and what the host clocks meanwhile are an arbitrary list of steps, and the drain
    re-opens it unless the job is exempt; the transfer that ends a reply notifies the reset service.  The
    link survives every run and a trial image is accepted exactly once, after a reply was sent (locale \<open>psa_view\<close>, interpreted on the
    chip's update environment).

  \<^bold>\<open>Termination.\<close>  No fuel is used.  Loops are structural recursion, \<open>function\<close> with a measure (the OTA
  block loop, the drain loop), or \<open>partial_function (option)\<close> where the source loop may not end (the
  connect wait, the poll for a host frame, the sliced waits of an association), and then a theorem shows when it
  returns: the Wi-Fi waits end under \<open>clock_runs\<close>, that the tick counter advances while a task sleeps.

  \<^bold>\<open>Not modelled.\<close>  The board initialisation and the network bring-up are sequences of vendor calls; the
  wedge-probe, speed-test and self-test builds are bench code; the variants without Wi-Fi or BLE only
  answer not-implemented, and the SDIO transport of the chip is a vendor stub.  The linker scripts,
  build scripts, prebuilt images and unit tests are not part of the program's logic.
\<close>

end
